(* ===== verification/Prelude.thy ===== *)
theory Prelude
  imports Main "HOL-Library.Word" "HOL-Library.Sublist"
begin

text \<open>
  Shared material of the development: the named theorem collections, the Go values the
  components have in common (slices with a distinguished nil, membership maps, errors,
  the string functions of package \<open>strings\<close> and \<open>strconv\<close> that the sources call) and the
  loops with early exit over a mutable context that the rule engine is made of.
\<close>

named_theorems ctx_simps \<open>how context updates commute with the readers of a context\<close>
named_theorems item_simps \<open>unfolding of rule item constructors\<close>
named_theorems codec \<open>decoder equations on freshly encoded input\<close>

section \<open>Errors\<close>

text \<open>
  Errors are values. \<open>E_New\<close>, \<open>E_Cause\<close> and \<open>E_Extend\<close> keep the arguments of \<open>E.New\<close>,
  \<open>E.Cause\<close> and \<open>E.Extend\<close>; \<open>E_Lib\<close> is an error returned by a function outside the
  repository, \<open>Panic\<close> a Go panic.
\<close>

datatype farg = S string | N nat | Err error
and error =
    E_New "farg list"
  | E_Cause error "farg list"
  | E_Extend error string
  | E_Lib string
  | Panic "farg list"

type_synonym 'a result = "error + 'a"
type_synonym bytes = "8 word list"

definition bind_result :: "'a result \<Rightarrow> ('a \<Rightarrow> 'b result) \<Rightarrow> 'b result" where
  "bind_result r f = (case r of Inl e \<Rightarrow> Inl e | Inr x \<Rightarrow> f x)"

lemma bind_result_simps [simp]:
  "bind_result (Inl e) f = Inl e"
  "bind_result (Inr x) f = f x"
  by (simp_all add: bind_result_def)

lemma bind_result_Inr_iff:
  "bind_result r f = Inr y \<longleftrightarrow> (\<exists>x. r = Inr x \<and> f x = Inr y)"
  by (cases r) auto

text \<open>Running a list of fallible steps stops at the first error, as the early returns do.\<close>

fun run_steps :: "('s \<Rightarrow> 's result) list \<Rightarrow> 's \<Rightarrow> 's result" where
  "run_steps [] s = Inr s"
| "run_steps (f # fs) s = bind_result (f s) (run_steps fs)"

lemma run_steps_append:
  "run_steps (fs @ gs) s = bind_result (run_steps fs s) (run_steps gs)"
  by (induction fs arbitrary: s) (auto simp: bind_result_def split: sum.splits)

lemma run_steps_invariant:
  assumes "run_steps fs s = Inr t" and "P s"
    and "\<And>f u v. f \<in> set fs \<Longrightarrow> P u \<Longrightarrow> f u = Inr v \<Longrightarrow> P v"
  shows "P t"
  using assms
proof (induction fs arbitrary: s)
  case Nil
  then show ?case by simp
next
  case (Cons f fs)
  from Cons.prems(1) obtain u where u: "f s = Inr u" and r: "run_steps fs u = Inr t"
    by (auto simp: bind_result_Inr_iff)
  have "P u" using Cons.prems(2,3) u by (meson list.set_intros(1))
  moreover have "\<And>g v w. g \<in> set fs \<Longrightarrow> P v \<Longrightarrow> g v = Inr w \<Longrightarrow> P w"
    using Cons.prems(3) by (meson list.set_intros(2))
  ultimately show ?case using Cons.IH r by blast
qed

text \<open>A loop that builds a slice element by element and stops at the first error, which it wraps
  with the index: \<open>for i, x := range xs { y, err := f(x); if err != nil { return wrap(err, i) } }\<close>.\<close>

fun map_result :: "(nat \<Rightarrow> error \<Rightarrow> error) \<Rightarrow> nat \<Rightarrow> ('x \<Rightarrow> 'y result) \<Rightarrow> 'x list \<Rightarrow> 'y list result" where
  "map_result wrap i f [] = Inr []"
| "map_result wrap i f (x # xs) =
     (case f x of
        Inl err \<Rightarrow> Inl (wrap i err)
      | Inr y \<Rightarrow> bind_result (map_result wrap (Suc i) f xs) (\<lambda>ys. Inr (y # ys)))"

lemma map_result_cong [fundef_cong]:
  assumes "wrap = wrap'" and "i = j" and "xs = ys" and "\<And>x. x \<in> set ys \<Longrightarrow> f x = g x"
  shows "map_result wrap i f xs = map_result wrap' j g ys"
proof -
  have "map_result wrap i f ys = map_result wrap i g ys" if "\<And>x. x \<in> set ys \<Longrightarrow> f x = g x" for i
    using that by (induction ys arbitrary: i) (auto split: sum.splits)
  then show ?thesis using assms by simp
qed

lemma map_result_Inr:
  "map_result wrap i f xs = Inr ys \<longleftrightarrow> list_all2 (\<lambda>x y. f x = Inr y) xs ys"
proof (induction xs arbitrary: i ys)
  case Nil
  then show ?case by auto
next
  case (Cons x xs)
  then show ?case by (cases ys) (auto simp: bind_result_Inr_iff split: sum.splits)
qed

text \<open>Indexing a slice out of range panics.\<close>

definition index_list :: "'a list \<Rightarrow> nat \<Rightarrow> 'a result" where
  "index_list xs i = (if i < length xs then Inr (xs ! i) else Inl (Panic [S ''index out of range'']))"

section \<open>Slices and membership maps\<close>

text \<open>A Go slice that may be nil: \<open>None\<close> is nil, which \<open>reflect.DeepEqual\<close> tells apart
  from an empty slice.\<close>

type_synonym 'a slice = "'a list option"

definition elems :: "'a slice \<Rightarrow> 'a list" where
  "elems s = (case s of None \<Rightarrow> [] | Some xs \<Rightarrow> xs)"

lemma elems_simps [simp]:
  "elems None = []" "elems (Some xs) = xs"
  by (simp_all add: elems_def)

definition nonempty :: "'a slice \<Rightarrow> bool" where
  "nonempty s \<longleftrightarrow> 0 < length (elems s)"

lemma nonempty_simps [simp]:
  "\<not> nonempty None" "nonempty (Some xs) \<longleftrightarrow> xs \<noteq> []"
  by (simp_all add: nonempty_def)

definition not_nil :: "'a option \<Rightarrow> bool" where
  "not_nil p = (case p of None \<Rightarrow> False | Some _ \<Rightarrow> True)"

lemma not_nil_iff [simp]: "not_nil p \<longleftrightarrow> p \<noteq> None"
  by (simp add: not_nil_def split: option.splits)

text \<open>The loop \<open>m := make(map[K]bool); for _, x := range xs { m[x] = true }\<close>; reading an
  absent key of such a map gives \<open>false\<close>.\<close>

definition member_map :: "'a list \<Rightarrow> 'a \<Rightarrow> bool" where
  "member_map xs = fold (\<lambda>x m. m(x := True)) xs (\<lambda>_. False)"

lemma member_map_iff [simp]: "member_map xs y \<longleftrightarrow> y \<in> set xs"
proof -
  have "fold (\<lambda>x m. m(x := True)) xs m y \<longleftrightarrow> y \<in> set xs \<or> m y" for m :: "'a \<Rightarrow> bool"
    by (induction xs arbitrary: m) auto
  then show ?thesis by (simp add: member_map_def)
qed

section \<open>Loops with early exit over a mutable context\<close>

text \<open>
  A predicate that may write the context is a function \<open>'x \<Rightarrow> 'c \<Rightarrow> bool \<times> 'c\<close>.
  \<open>any_st\<close> is \<open>for _, x := range xs { if f(x) { return true } }; return false\<close> and
  \<open>all_st\<close> its dual; they are also \<open>common.Any\<close> and \<open>common.All\<close> on such predicates.
\<close>

fun any_st :: "('x \<Rightarrow> 'c \<Rightarrow> bool \<times> 'c) \<Rightarrow> 'x list \<Rightarrow> 'c \<Rightarrow> bool \<times> 'c" where
  "any_st f [] c = (False, c)"
| "any_st f (x # xs) c = (case f x c of (b, c') \<Rightarrow> if b then (True, c') else any_st f xs c')"

fun all_st :: "('x \<Rightarrow> 'c \<Rightarrow> bool \<times> 'c) \<Rightarrow> 'x list \<Rightarrow> 'c \<Rightarrow> bool \<times> 'c" where
  "all_st f [] c = (True, c)"
| "all_st f (x # xs) c = (case f x c of (b, c') \<Rightarrow> if b then all_st f xs c' else (False, c'))"

lemma any_st_cong [fundef_cong]:
  assumes "xs = ys" and "c = d" and "\<And>x c. x \<in> set ys \<Longrightarrow> f x c = g x c"
  shows "any_st f xs c = any_st g ys d"
proof -
  have "any_st f ys c = any_st g ys c" if "\<And>x c. x \<in> set ys \<Longrightarrow> f x c = g x c" for c
    using that by (induction ys arbitrary: c) (auto split: prod.splits)
  then show ?thesis using assms by simp
qed

lemma all_st_cong [fundef_cong]:
  assumes "xs = ys" and "c = d" and "\<And>x c. x \<in> set ys \<Longrightarrow> f x c = g x c"
  shows "all_st f xs c = all_st g ys d"
proof -
  have "all_st f ys c = all_st g ys c" if "\<And>x c. x \<in> set ys \<Longrightarrow> f x c = g x c" for c
    using that by (induction ys arbitrary: c) (auto split: prod.splits)
  then show ?thesis using assms by simp
qed

text \<open>A pure predicate turns the loops into quantifiers and leaves the context alone.\<close>

lemma any_st_pure:
  assumes "\<And>x. x \<in> set xs \<Longrightarrow> f x c = (p x, c)"
  shows "any_st f xs c = ((\<exists>x\<in>set xs. p x), c)"
  using assms by (induction xs) auto

text \<open>
  When each step answers from a part \<open>v c\<close> of the context that no step changes, the loops
  answer with the corresponding quantifier, and that part is kept.
\<close>

lemma any_st_view:
  assumes "\<And>x d. x \<in> set xs \<Longrightarrow> v d = w \<Longrightarrow> fst (f x d) = p x \<and> v (snd (f x d)) = w"
    and "v c = w"
  shows "fst (any_st f xs c) = (\<exists>x\<in>set xs. p x)" and "v (snd (any_st f xs c)) = w"
proof -
  have "fst (any_st f xs c) = (\<exists>x\<in>set xs. p x) \<and> v (snd (any_st f xs c)) = w"
    using assms
  proof (induction xs arbitrary: c)
    case Nil
    then show ?case by simp
  next
    case (Cons x xs)
    obtain b d where f: "f x c = (b, d)" by fastforce
    with Cons.prems have "b = p x" and "v d = w"
      by (metis fst_conv list.set_intros(1), metis snd_conv list.set_intros(1))
    moreover from this have "fst (any_st f xs d) = (\<exists>x\<in>set xs. p x) \<and> v (snd (any_st f xs d)) = w"
      using Cons.IH Cons.prems(1) by simp
    ultimately show ?case using f by auto
  qed
  then show "fst (any_st f xs c) = (\<exists>x\<in>set xs. p x)" and "v (snd (any_st f xs c)) = w"
    by auto
qed

lemma all_st_view:
  assumes "\<And>x d. x \<in> set xs \<Longrightarrow> v d = w \<Longrightarrow> fst (f x d) = p x \<and> v (snd (f x d)) = w"
    and "v c = w"
  shows "fst (all_st f xs c) = (\<forall>x\<in>set xs. p x)" and "v (snd (all_st f xs c)) = w"
proof -
  have "fst (all_st f xs c) = (\<forall>x\<in>set xs. p x) \<and> v (snd (all_st f xs c)) = w"
    using assms
  proof (induction xs arbitrary: c)
    case Nil
    then show ?case by simp
  next
    case (Cons x xs)
    obtain b d where f: "f x c = (b, d)" by fastforce
    with Cons.prems have "b = p x" and "v d = w"
      by (metis fst_conv list.set_intros(1), metis snd_conv list.set_intros(1))
    moreover from this have "fst (all_st f xs d) = (\<forall>x\<in>set xs. p x) \<and> v (snd (all_st f xs d)) = w"
      using Cons.IH Cons.prems(1) by simp
    ultimately show ?case using f by auto
  qed
  then show "fst (all_st f xs c) = (\<forall>x\<in>set xs. p x)" and "v (snd (all_st f xs c)) = w"
    by auto
qed

section \<open>Strings\<close>

text \<open>Go strings are byte strings: \<open>string\<close> is a list of 8-bit characters.\<close>

definition HasPrefix :: "string \<Rightarrow> string \<Rightarrow> bool" where
  "HasPrefix s p = prefix p s"

fun str_Contains :: "string \<Rightarrow> string \<Rightarrow> bool" where
  "str_Contains [] k = (k = [])"
| "str_Contains (c # s) k = (prefix k (c # s) \<or> str_Contains s k)"

lemma str_Contains_iff: "str_Contains s k \<longleftrightarrow> sublist k s"
  by (induction s) (auto simp: sublist_Cons_right)

text \<open>\<open>strings.Index\<close> for a one-byte separator: the position of its first occurrence.\<close>

fun index_byte :: "char \<Rightarrow> string \<Rightarrow> nat option" where
  "index_byte x [] = None"
| "index_byte x (c # s) = (if c = x then Some 0 else map_option Suc (index_byte x s))"

lemma index_byte_None: "index_byte x s = None \<longleftrightarrow> x \<notin> set s"
  by (induction s) auto

lemma index_byte_append:
  "x \<notin> set a \<Longrightarrow> index_byte x (a @ x # b) = Some (length a)"
  by (induction a) auto

text \<open>\<open>strings.Split\<close> for a one-byte separator.\<close>

fun split_byte :: "char \<Rightarrow> string \<Rightarrow> string list" where
  "split_byte x [] = [[]]"
| "split_byte x (c # s) =
     (case split_byte x s of
        [] \<Rightarrow> [[c]]
      | p # ps \<Rightarrow> if c = x then [] # p # ps else (c # p) # ps)"

lemma split_byte_nonempty [simp]: "split_byte x s \<noteq> []"
  by (induction s) (auto split: list.splits)

lemma split_byte_no_sep: "x \<notin> set s \<Longrightarrow> split_byte x s = [s]"
  by (induction s) auto

lemma split_byte_sep: "x \<notin> set a \<Longrightarrow> split_byte x (a @ x # b) = a # split_byte x b"
  by (induction a) (auto split: list.splits)

section \<open>Decimal numbers\<close>

definition is_digit :: "char \<Rightarrow> bool" where
  "is_digit c \<longleftrightarrow> 48 \<le> (of_char c :: nat) \<and> (of_char c :: nat) \<le> 57"

definition digit_value :: "char \<Rightarrow> nat" where
  "digit_value c = of_char c - 48"

definition dec_value :: "string \<Rightarrow> nat" where
  "dec_value s = foldl (\<lambda>n c. n * 10 + digit_value c) 0 s"

text \<open>\<open>strconv.ParseUint(s, 10, w)\<close>: no sign, no underscore, at least one digit, and a value
  below \<open>2 ^ w\<close>; the syntax and the range error are both \<open>None\<close> here.\<close>

definition ParseUint :: "string \<Rightarrow> nat \<Rightarrow> nat option" where
  "ParseUint s w =
     (if s \<noteq> [] \<and> list_all is_digit s \<and> dec_value s < 2 ^ w then Some (dec_value s) else None)"

lemma ParseUint_bound: "ParseUint s w = Some n \<Longrightarrow> n < 2 ^ w"
  by (auto simp: ParseUint_def split: if_splits)

text \<open>The shortest decimal numeral of a natural number, as \<open>strconv.Itoa\<close> prints it.\<close>

definition digit_char :: "nat \<Rightarrow> char" where
  "digit_char n = char_of (48 + n)"

fun Itoa :: "nat \<Rightarrow> string" where
  "Itoa n = (if n < 10 then [digit_char n] else Itoa (n div 10) @ [digit_char (n mod 10)])"

declare Itoa.simps [simp del]

lemma digit_char_value [simp]: "n < 10 \<Longrightarrow> digit_value (digit_char n) = n"
  by (simp add: digit_value_def digit_char_def)

lemma digit_char_is_digit [simp]: "n < 10 \<Longrightarrow> is_digit (digit_char n)"
  by (simp add: is_digit_def digit_char_def)

lemma Itoa_nonempty [simp]: "Itoa n \<noteq> []"
  by (subst Itoa.simps) simp

lemma Itoa_digits: "list_all is_digit (Itoa n)"
proof (induction n rule: Itoa.induct)
  case (1 n)
  show ?case
  proof (cases "n < 10")
    case True
    then show ?thesis by (subst Itoa.simps) simp
  next
    case False
    with "1.IH" have "list_all is_digit (Itoa (n div 10))" by blast
    with False show ?thesis by (subst Itoa.simps) simp
  qed
qed

lemma dec_value_snoc: "dec_value (s @ [c]) = dec_value s * 10 + digit_value c"
  by (simp add: dec_value_def)

lemma dec_value_Itoa [simp]: "dec_value (Itoa n) = n"
proof (induction n rule: Itoa.induct)
  case (1 n)
  show ?case
  proof (cases "n < 10")
    case True
    then show ?thesis by (subst Itoa.simps) (simp add: dec_value_def)
  next
    case False
    with "1.IH" have "dec_value (Itoa (n div 10)) = n div 10" by blast
    with False show ?thesis by (subst Itoa.simps) (simp add: dec_value_snoc)
  qed
qed

lemma ParseUint_Itoa: "n < 2 ^ w \<Longrightarrow> ParseUint (Itoa n) w = Some n"
  by (simp add: ParseUint_def Itoa_digits)

lemma digit_not_colon: "is_digit c \<Longrightarrow> c \<noteq> CHR '':''"
  by (auto simp: is_digit_def)

lemma Itoa_no_colon: "CHR '':'' \<notin> set (Itoa n)"
  using Itoa_digits [of n] digit_not_colon by (auto simp: list_all_iff)

end
