(* ===== verification/Netip.thy ===== *)
theory Netip
  imports Prelude
begin

unbundle bit_operations_syntax

text \<open>
  The part of Go's package \<open>net/netip\<close> that the sources use: addresses with the invalid zero
  value, their successor, and prefixes with \<open>Contains\<close> and \<open>Overlaps\<close>. An IPv4 address is a
  32-bit word, an IPv6 address a 128-bit word with a zone; the zero \<open>Addr\<close> and the zero
  \<open>Prefix\<close> are invalid.
\<close>

section \<open>Addresses\<close>

datatype addr = AddrInvalid | Addr4 "32 word" | Addr6 "128 word" string

definition Addr_IsValid :: "addr \<Rightarrow> bool" where
  "Addr_IsValid a = (case a of AddrInvalid \<Rightarrow> False | _ \<Rightarrow> True)"

definition Addr_Is4 :: "addr \<Rightarrow> bool" where
  "Addr_Is4 a = (case a of Addr4 _ \<Rightarrow> True | _ \<Rightarrow> False)"

definition Addr_Is6 :: "addr \<Rightarrow> bool" where
  "Addr_Is6 a = (case a of Addr6 _ _ \<Rightarrow> True | _ \<Rightarrow> False)"

definition BitLen :: "addr \<Rightarrow> nat" where
  "BitLen a = (case a of AddrInvalid \<Rightarrow> 0 | Addr4 _ \<Rightarrow> 32 | Addr6 _ _ \<Rightarrow> 128)"

definition hasZone :: "addr \<Rightarrow> bool" where
  "hasZone a = (case a of Addr6 _ z \<Rightarrow> z \<noteq> [] | _ \<Rightarrow> False)"

lemma addr_simps [simp]:
  "\<not> Addr_IsValid AddrInvalid" "Addr_IsValid (Addr4 w)" "Addr_IsValid (Addr6 v z)"
  "\<not> Addr_Is4 AddrInvalid" "Addr_Is4 (Addr4 w)" "\<not> Addr_Is4 (Addr6 v z)"
  "\<not> Addr_Is6 AddrInvalid" "\<not> Addr_Is6 (Addr4 w)" "Addr_Is6 (Addr6 v z)"
  "BitLen AddrInvalid = 0" "BitLen (Addr4 w) = 32" "BitLen (Addr6 v z) = 128"
  "\<not> hasZone AddrInvalid" "\<not> hasZone (Addr4 w)" "hasZone (Addr6 v z) \<longleftrightarrow> z \<noteq> []"
  by (simp_all add: Addr_IsValid_def Addr_Is4_def Addr_Is6_def BitLen_def hasZone_def)

text \<open>\<open>Addr.Next\<close>: the following address of the same family, the zero \<open>Addr\<close> after the last.\<close>

definition Addr_Next :: "addr \<Rightarrow> addr" where
  "Addr_Next a = (case a of
     AddrInvalid \<Rightarrow> AddrInvalid
   | Addr4 w \<Rightarrow> if w + 1 = 0 then AddrInvalid else Addr4 (w + 1)
   | Addr6 v z \<Rightarrow> if v + 1 = 0 then AddrInvalid else Addr6 (v + 1) z)"

text \<open>The address after masking all but the first \<open>n\<close> bits; \<open>Addr.Prefix\<close> also drops the zone.\<close>

definition mask_addr :: "nat \<Rightarrow> addr \<Rightarrow> addr" where
  "mask_addr n a = (case a of
     AddrInvalid \<Rightarrow> AddrInvalid
   | Addr4 w \<Rightarrow> Addr4 (push_bit (32 - n) (drop_bit (32 - n) w))
   | Addr6 v _ \<Rightarrow> Addr6 (push_bit (128 - n) (drop_bit (128 - n) v)) [])"

section \<open>Prefixes\<close>

record Prefix =
  pf_Addr :: addr
  pf_bits :: "nat option"

definition zeroPrefix :: Prefix where
  "zeroPrefix = \<lparr>pf_Addr = AddrInvalid, pf_bits = None\<rparr>"

definition Prefix_IsValid :: "Prefix \<Rightarrow> bool" where
  "Prefix_IsValid p = (pf_bits p \<noteq> None)"

text \<open>Every prefix the package builds has a valid address and at most as many bits as the
  address is long.\<close>

definition Prefix_wf :: "Prefix \<Rightarrow> bool" where
  "Prefix_wf p = (case pf_bits p of None \<Rightarrow> True
     | Some n \<Rightarrow> Addr_IsValid (pf_Addr p) \<and> n \<le> BitLen (pf_Addr p) \<and> \<not> hasZone (pf_Addr p))"

definition Prefix_Contains :: "Prefix \<Rightarrow> addr \<Rightarrow> bool" where
  "Prefix_Contains p a = (case pf_bits p of
     None \<Rightarrow> False
   | Some n \<Rightarrow>
      if hasZone a then False
      else if BitLen (pf_Addr p) = 0 \<or> BitLen a = 0 \<or> BitLen (pf_Addr p) \<noteq> BitLen a then False
      else (case (pf_Addr p, a) of
              (Addr4 w, Addr4 x) \<Rightarrow> drop_bit (32 - n) (x XOR w) = 0
            | (Addr6 v _, Addr6 y _) \<Rightarrow> drop_bit (128 - n) (y XOR v) = 0
            | _ \<Rightarrow> False))"

definition Prefix_Overlaps :: "Prefix \<Rightarrow> Prefix \<Rightarrow> bool" where
  "Prefix_Overlaps p q = (case (pf_bits p, pf_bits q) of
     (Some n, Some k) \<Rightarrow>
       if p = q then True
       else if Addr_Is4 (pf_Addr p) \<noteq> Addr_Is4 (pf_Addr q) then False
       else (let m = min n k in
             if m = 0 then True
             else if BitLen (pf_Addr p) < m \<or> BitLen (pf_Addr q) < m then False
             else mask_addr m (pf_Addr p) = mask_addr m (pf_Addr q))
   | _ \<Rightarrow> False)"

lemma Prefix_Contains_zero [simp]: "\<not> Prefix_Contains zeroPrefix a"
  by (simp add: Prefix_Contains_def zeroPrefix_def)

lemma Prefix_Contains_IsValid: "Prefix_Contains p a \<Longrightarrow> Prefix_IsValid p \<and> Addr_IsValid a"
  by (cases a) (auto simp: Prefix_Contains_def Prefix_IsValid_def split: option.splits if_splits)

section \<open>Prefix membership as an interval\<close>

lemma word_xor_eq_0_iff: "x XOR w = 0 \<longleftrightarrow> x = (w :: 'a :: len word)"
  by (auto simp: bit_eq_iff bit_xor_iff)

lemma drop_bit_xor_eq_0_iff:
  "drop_bit n (x XOR w) = 0 \<longleftrightarrow> unat x div 2 ^ n = unat (w :: 'a :: len word) div 2 ^ n"
proof -
  have "drop_bit n (x XOR w) = 0 \<longleftrightarrow> drop_bit n x = drop_bit n w"
    by (simp only: drop_bit_xor word_xor_eq_0_iff)
  also have "\<dots> \<longleftrightarrow> unat (drop_bit n x) = unat (drop_bit n w)"
    by (simp only: word_unat_eq_iff)
  finally show ?thesis by (simp only: unat_drop_bit_eq drop_bit_eq_div [of n "unat x"] drop_bit_eq_div [of n "unat w"])
qed

lemma Contains4_iff:
  "Prefix_Contains \<lparr>pf_Addr = Addr4 w, pf_bits = Some n\<rparr> (Addr4 x) \<longleftrightarrow>
     unat x div 2 ^ (32 - n) = unat w div 2 ^ (32 - n)"
  using drop_bit_xor_eq_0_iff [of "32 - n" x w] by (simp add: Prefix_Contains_def del: drop_bit_xor)

lemma Contains6_iff:
  "Prefix_Contains \<lparr>pf_Addr = Addr6 v z, pf_bits = Some n\<rparr> (Addr6 y []) \<longleftrightarrow>
     unat y div 2 ^ (128 - n) = unat v div 2 ^ (128 - n)"
  using drop_bit_xor_eq_0_iff [of "128 - n" y v] by (simp add: Prefix_Contains_def del: drop_bit_xor)

end
