(* ===== verification/Inbound_Context.thy ===== *)
theory Inbound_Context
  imports Netip
begin

text \<open>
  The connection metadata every rule reads and writes (\<open>InboundContext\<close> of
  \<open>adapter/inbound.go\<close>), and the two records the rule engine is parameterised by: \<open>lib\<close>, the
  functions of packages outside the repository (\<open>sing\<close>, \<open>netipx\<close>, \<open>regexp\<close>), and \<open>env\<close>, what
  the network manager, the Clash API server and the outbound manager answer at run time.
\<close>

type_synonym port = "16 word"
type_synonym InterfaceType = "8 word"
type_synonym DomainStrategy = "8 word"
type_synonym NetworkStrategy = "8 word"
type_synonym duration = int

section \<open>The metadata record\<close>

record Socksaddr =
  sa_Addr :: addr
  sa_Port :: port
  sa_Fqdn :: string

definition zeroSocksaddr :: Socksaddr where
  "zeroSocksaddr = \<lparr>sa_Addr = AddrInvalid, sa_Port = 0, sa_Fqdn = []\<rparr>"

record ConnectionOwner =
  ProcessID :: "32 word"
  UserId :: int
  UserName :: string
  ProcessPath :: string
  AndroidPackageName :: string

record InboundOptions =
  SniffEnabled :: bool
  SniffOverrideDestination :: bool
  SniffTimeout :: duration
  io_DomainStrategy :: DomainStrategy
  io_UDPDisableDomainUnmapping :: bool
  Detour :: string

record qCryptoFragment =
  qf_offset :: "64 word"
  qf_length :: "64 word"
  qf_payload :: "8 word list"

record InboundContext =
  md_Inbound :: string
  md_InboundType :: string
  md_IPVersion :: "8 word"
  md_Network :: string
  md_Source :: Socksaddr
  md_Destination :: Socksaddr
  md_TunnelSource :: string
  md_TunnelDestination :: string
  md_User :: string
  md_Outbound :: string
  md_Protocol :: string
  md_Domain :: string
  md_Client :: string
  md_SniffContext :: "qCryptoFragment list option"
  md_SnifferNames :: "string list"
  md_SniffError :: "error option"
  md_InboundDetour :: string
  md_LastInbound :: string
  md_OriginDestination :: Socksaddr
  md_RouteOriginalDestination :: Socksaddr
  md_InboundOptions :: InboundOptions
  md_UDPDisableDomainUnmapping :: bool
  md_UDPConnect :: bool
  md_UDPTimeout :: duration
  md_TLSFragment :: bool
  md_TLSFragmentFallbackDelay :: duration
  md_TLSRecordFragment :: bool
  md_NetworkStrategy :: "NetworkStrategy option"
  md_NetworkType :: "InterfaceType list"
  md_FallbackNetworkType :: "InterfaceType list"
  md_FallbackDelay :: duration
  md_DestinationAddresses :: "addr list"
  md_SourceGeoIPCode :: string
  md_GeoIPCode :: string
  md_ProcessInfo :: "ConnectionOwner option"
  md_QueryType :: "16 word"
  md_FakeIP :: bool
  md_IPCIDRMatchSource :: bool
  md_IPCIDRAcceptEmpty :: bool
  md_SourceAddressMatch :: bool
  md_SourcePortMatch :: bool
  md_DestinationAddressMatch :: bool
  md_DestinationPortMatch :: bool
  md_DidMatch :: bool
  md_IgnoreDestinationIPCIDRMatch :: bool
  md_RealOutbound :: string

definition SetRealOutbound :: "InboundContext \<Rightarrow> string \<Rightarrow> InboundContext" where
  "SetRealOutbound c tag = c\<lparr>md_RealOutbound := tag\<rparr>"

definition GetRealOutbound :: "InboundContext \<Rightarrow> string" where
  "GetRealOutbound c = md_RealOutbound c"

definition ResetRuleCache :: "InboundContext \<Rightarrow> InboundContext" where
  "ResetRuleCache c = c\<lparr>
     md_IPCIDRMatchSource := False,
     md_IPCIDRAcceptEmpty := False,
     md_SourceAddressMatch := False,
     md_SourcePortMatch := False,
     md_DestinationAddressMatch := False,
     md_DestinationPortMatch := False,
     md_DidMatch := False\<rparr>"

text \<open>The zero value of the struct, \<open>adapter.InboundContext{}\<close>.\<close>

definition zeroInboundContext :: InboundContext where
  "zeroInboundContext = \<lparr>
     md_Inbound = [], md_InboundType = [], md_IPVersion = 0, md_Network = [],
     md_Source = zeroSocksaddr, md_Destination = zeroSocksaddr,
     md_TunnelSource = [], md_TunnelDestination = [], md_User = [], md_Outbound = [],
     md_Protocol = [], md_Domain = [], md_Client = [],
     md_SniffContext = None, md_SnifferNames = [], md_SniffError = None,
     md_InboundDetour = [], md_LastInbound = [],
     md_OriginDestination = zeroSocksaddr, md_RouteOriginalDestination = zeroSocksaddr,
     md_InboundOptions = \<lparr>SniffEnabled = False, SniffOverrideDestination = False, SniffTimeout = 0,
        io_DomainStrategy = 0, io_UDPDisableDomainUnmapping = False, Detour = []\<rparr>,
     md_UDPDisableDomainUnmapping = False, md_UDPConnect = False, md_UDPTimeout = 0,
     md_TLSFragment = False, md_TLSFragmentFallbackDelay = 0, md_TLSRecordFragment = False,
     md_NetworkStrategy = None, md_NetworkType = [], md_FallbackNetworkType = [],
     md_FallbackDelay = 0, md_DestinationAddresses = [], md_SourceGeoIPCode = [],
     md_GeoIPCode = [], md_ProcessInfo = None, md_QueryType = 0, md_FakeIP = False,
     md_IPCIDRMatchSource = False, md_IPCIDRAcceptEmpty = False,
     md_SourceAddressMatch = False, md_SourcePortMatch = False,
     md_DestinationAddressMatch = False, md_DestinationPortMatch = False,
     md_DidMatch = False, md_IgnoreDestinationIPCIDRMatch = False, md_RealOutbound = []\<rparr>"

section \<open>Parts of the rule cache\<close>

text \<open>
  A rule item reads the connection (\<open>core\<close>: everything but the rule cache) and the two
  IP-CIDR switches a rule-set item sets; a rule also reads and writes the five match flags.
  \<open>base\<close> erases the flags and keeps the switches.
\<close>

definition core :: "InboundContext \<Rightarrow> InboundContext" where
  "core c = ResetRuleCache c"

definition base :: "InboundContext \<Rightarrow> InboundContext" where
  "base c = c\<lparr>
     md_SourceAddressMatch := False,
     md_SourcePortMatch := False,
     md_DestinationAddressMatch := False,
     md_DestinationPortMatch := False,
     md_DidMatch := False\<rparr>"

lemma base_updates [simp, ctx_simps]:
  "base (c\<lparr>md_SourceAddressMatch := b\<rparr>) = base c"
  "base (c\<lparr>md_SourcePortMatch := b\<rparr>) = base c"
  "base (c\<lparr>md_DestinationAddressMatch := b\<rparr>) = base c"
  "base (c\<lparr>md_DestinationPortMatch := b\<rparr>) = base c"
  "base (c\<lparr>md_DidMatch := b\<rparr>) = base c"
  by (simp_all add: base_def)

lemma core_updates [simp, ctx_simps]:
  "core (c\<lparr>md_IPCIDRMatchSource := b\<rparr>) = core c"
  "core (c\<lparr>md_IPCIDRAcceptEmpty := b\<rparr>) = core c"
  "core (c\<lparr>md_SourceAddressMatch := b\<rparr>) = core c"
  "core (c\<lparr>md_SourcePortMatch := b\<rparr>) = core c"
  "core (c\<lparr>md_DestinationAddressMatch := b\<rparr>) = core c"
  "core (c\<lparr>md_DestinationPortMatch := b\<rparr>) = core c"
  "core (c\<lparr>md_DidMatch := b\<rparr>) = core c"
  "core (base c) = core c"
  "core (core c) = core c"
  "core (ResetRuleCache c) = core c"
  by (simp_all add: core_def base_def ResetRuleCache_def)

lemma base_ResetRuleCache [simp]: "base (ResetRuleCache c) = core c" "base (core c) = core c"
  by (simp_all add: core_def base_def ResetRuleCache_def)

text \<open>Writing a value that is already there changes nothing.\<close>

lemma same_SourceAddressMatch: "md_SourceAddressMatch c = b \<Longrightarrow> c\<lparr>md_SourceAddressMatch := b\<rparr> = c"
  by (cases c) simp

lemma same_SourcePortMatch: "md_SourcePortMatch c = b \<Longrightarrow> c\<lparr>md_SourcePortMatch := b\<rparr> = c"
  by (cases c) simp

lemma same_DestinationAddressMatch:
  "md_DestinationAddressMatch c = b \<Longrightarrow> c\<lparr>md_DestinationAddressMatch := b\<rparr> = c"
  by (cases c) simp

lemma same_DestinationPortMatch:
  "md_DestinationPortMatch c = b \<Longrightarrow> c\<lparr>md_DestinationPortMatch := b\<rparr> = c"
  by (cases c) simp

lemma same_DidMatch: "md_DidMatch c = b \<Longrightarrow> c\<lparr>md_DidMatch := b\<rparr> = c"
  by (cases c) simp

lemmas same_flags =
  same_SourceAddressMatch same_SourcePortMatch same_DestinationAddressMatch
  same_DestinationPortMatch same_DidMatch

lemma base_eq_imp_core_eq: "base c = base d \<Longrightarrow> core c = core d"
  by (metis core_updates(8))

lemma base_reads:
  "md_IPCIDRMatchSource (base c) = md_IPCIDRMatchSource c"
  "md_IPCIDRAcceptEmpty (base c) = md_IPCIDRAcceptEmpty c"
  "md_IgnoreDestinationIPCIDRMatch (base c) = md_IgnoreDestinationIPCIDRMatch c"
  by (simp_all add: base_def)

lemma core_Ignore [simp]:
  "md_IgnoreDestinationIPCIDRMatch (core c) = md_IgnoreDestinationIPCIDRMatch c"
  by (simp add: core_def ResetRuleCache_def)

section \<open>Functions of packages outside the repository\<close>

text \<open>
  \<open>'dm\<close>, \<open>'ag\<close> and \<open>'ip\<close> stand for \<open>domain.Matcher\<close>, \<open>domain.AdGuardMatcher\<close> and
  \<open>netipx.IPSet\<close>. \<open>IPSetBuild\<close> is what \<open>netipx.IPSetBuilder\<close> returns for the sequence of
  \<open>AddPrefix\<close> and \<open>Add\<close> calls; a compiled regular expression is the predicate its
  \<open>MatchString\<close> method decides.
\<close>

record ('dm, 'ag, 'ip) lib =
  IsIP :: "Socksaddr \<Rightarrow> bool"
  IsIPv4 :: "Socksaddr \<Rightarrow> bool"
  IsIPv6 :: "Socksaddr \<Rightarrow> bool"
  IsFqdn :: "Socksaddr \<Rightarrow> bool"
  Socksaddr_IsValid :: "Socksaddr \<Rightarrow> bool"
  ParseSocksaddrHostPort :: "string \<Rightarrow> port \<Rightarrow> Socksaddr"
  IsPublicAddr :: "addr \<Rightarrow> bool"
  NewMatcher :: "string list \<Rightarrow> string list \<Rightarrow> bool \<Rightarrow> 'dm"
  Matcher_Match :: "'dm \<Rightarrow> string \<Rightarrow> bool"
  NewAdGuardMatcher :: "string list \<Rightarrow> 'ag"
  AdGuardMatcher_Match :: "'ag \<Rightarrow> string \<Rightarrow> bool"
  IPSetBuild :: "(Prefix + addr) list \<Rightarrow> 'ip result"
  IPSet_Contains :: "'ip \<Rightarrow> addr \<Rightarrow> bool"
  Compile :: "string \<Rightarrow> (string \<Rightarrow> bool) result"
  ParsePrefix :: "string \<Rightarrow> Prefix result"
  ParseAddr :: "string \<Rightarrow> addr result"
  ToLower :: "string \<Rightarrow> string"
  EqualFold :: "string \<Rightarrow> string \<Rightarrow> bool"
  Prefixable_Build :: "Prefix option \<Rightarrow> Prefix \<Rightarrow> Prefix"

section \<open>The run-time environment\<close>

record NetworkInterface =
  if_Name :: string
  if_Addresses :: "Prefix list"
  if_Type :: InterfaceType
  if_Expensive :: bool
  if_Constrained :: bool

record preferred_routes =
  PreferredDomain :: "string \<Rightarrow> bool"
  PreferredAddress :: "addr \<Rightarrow> bool"

text \<open>\<open>Outbounds\<close> gives, for a tag, the outbound's type and its preferred routes if it supports
  them (\<open>adapter.OutboundWithPreferredRoutes\<close>).\<close>

record env =
  DefaultNetworkInterface :: "NetworkInterface option"
  WIFI_SSID :: string
  WIFI_BSSID :: string
  DefaultInterface :: "NetworkInterface option"
  Interfaces :: "NetworkInterface list"
  NetworkInterfaces :: "NetworkInterface list"
  ClashServer :: "string option"
  Outbounds :: "string \<Rightarrow> (string \<times> preferred_routes option) option"

end
