(* ===== verification/Rule_Abstract.thy ===== *)
theory Rule_Abstract
  imports Inbound_Context
begin

text \<open>
  The matching machinery every rule shares (\<open>route/rule/rule_abstract.go\<close>):
  \<open>abstractDefaultRule\<close> with its grouped items and the match flags it keeps in the metadata,
  and \<open>abstractLogicalRule\<close>. The item type and the item's \<open>Match\<close> are parameters, because the
  same code serves headless rules (whose items never contain rule sets) and route and DNS
  rules (whose items may). \<open>rule_item\<close> and \<open>pure_item\<close> are the contracts an item type owes.
\<close>

section \<open>Default rules\<close>

record ('i, 'a) abstractDefaultRule =
  items :: "'i list"
  sourceAddressItems :: "'i list"
  sourcePortItems :: "'i list"
  destinationAddressItems :: "'i list"
  destinationIPCIDRItems :: "'i list"
  destinationPortItems :: "'i list"
  allItems :: "'i list"
  invert :: bool
  action :: "'a option"

type_synonym 'i item_match = "'i \<Rightarrow> InboundContext \<Rightarrow> bool \<times> InboundContext"

text \<open>\<open>Start\<close> starts the items in the order of \<open>allItems\<close> and stops at the first error. The
  group lists hold the same item pointers, so they show the started items too.\<close>

fun start_items :: "('i \<Rightarrow> 'i result) \<Rightarrow> 'i list \<Rightarrow> unit result" where
  "start_items start [] = Inr ()"
| "start_items start (i # is) = bind_result (start i) (\<lambda>_. start_items start is)"

definition started :: "('i \<Rightarrow> 'i result) \<Rightarrow> 'i \<Rightarrow> 'i" where
  "started start i = (case start i of Inl _ \<Rightarrow> i | Inr i' \<Rightarrow> i')"

definition adr_Start ::
  "('i \<Rightarrow> 'i result) \<Rightarrow> ('i, 'a) abstractDefaultRule \<Rightarrow> ('i, 'a) abstractDefaultRule result" where
  "adr_Start start r =
     bind_result (start_items start (allItems r)) (\<lambda>_.
       (let st = map (started start) in
        Inr (r\<lparr>items := st (items r),
               sourceAddressItems := st (sourceAddressItems r),
               sourcePortItems := st (sourcePortItems r),
               destinationAddressItems := st (destinationAddressItems r),
               destinationIPCIDRItems := st (destinationIPCIDRItems r),
               destinationPortItems := st (destinationPortItems r),
               allItems := st (allItems r)\<rparr>)))"

text \<open>One group: skipped when it is empty or its flag is already set, otherwise \<open>DidMatch\<close> is
  set and the flag with the first item that matches.\<close>

definition match_group ::
  "'i item_match \<Rightarrow> bool \<Rightarrow> 'i list \<Rightarrow> (InboundContext \<Rightarrow> bool) \<Rightarrow> (InboundContext \<Rightarrow> InboundContext) \<Rightarrow>
   InboundContext \<Rightarrow> InboundContext" where
  "match_group im enabled grp flag set_flag c =
     (if enabled \<and> length grp > 0 \<and> \<not> flag c
      then (case any_st im grp (c\<lparr>md_DidMatch := True\<rparr>) of (b, d) \<Rightarrow> if b then set_flag d else d)
      else c)"

text \<open>The loop over \<open>r.items\<close>: an item that is not a rule set marks \<open>DidMatch\<close> before it is
  asked; the first item that does not match ends the loop.\<close>

fun match_items :: "'i item_match \<Rightarrow> ('i \<Rightarrow> bool) \<Rightarrow> 'i list \<Rightarrow> InboundContext \<Rightarrow> bool \<times> InboundContext" where
  "match_items im isRuleSet [] c = (True, c)"
| "match_items im isRuleSet (i # is) c =
     (case im i (if isRuleSet i then c else c\<lparr>md_DidMatch := True\<rparr>) of
        (b, d) \<Rightarrow> if b then match_items im isRuleSet is d else (False, d))"

definition match_groups ::
  "'i item_match \<Rightarrow> ('i, 'a) abstractDefaultRule \<Rightarrow> InboundContext \<Rightarrow> InboundContext" where
  "match_groups im r c =
     (let c1 = match_group im True (sourceAddressItems r)
                 md_SourceAddressMatch (md_SourceAddressMatch_update (\<lambda>_. True)) c;
          c2 = match_group im True (sourcePortItems r)
                 md_SourcePortMatch (md_SourcePortMatch_update (\<lambda>_. True)) c1;
          c3 = match_group im True (destinationAddressItems r)
                 md_DestinationAddressMatch (md_DestinationAddressMatch_update (\<lambda>_. True)) c2;
          c4 = match_group im (\<not> md_IgnoreDestinationIPCIDRMatch c3) (destinationIPCIDRItems r)
                 md_DestinationAddressMatch (md_DestinationAddressMatch_update (\<lambda>_. True)) c3
      in match_group im True (destinationPortItems r)
           md_DestinationPortMatch (md_DestinationPortMatch_update (\<lambda>_. True)) c4)"

definition adr_Match ::
  "'i item_match \<Rightarrow> ('i \<Rightarrow> bool) \<Rightarrow> ('i, 'a) abstractDefaultRule \<Rightarrow> InboundContext \<Rightarrow> bool \<times> InboundContext" where
  "adr_Match im isRuleSet r c =
     (if length (allItems r) = 0 then (True, c)
      else (case match_items im isRuleSet (items r) (match_groups im r c) of (b, m) \<Rightarrow>
        if \<not> b then (invert r, m)
        else if length (sourceAddressItems r) > 0 \<and> \<not> md_SourceAddressMatch m then (invert r, m)
        else if length (sourcePortItems r) > 0 \<and> \<not> md_SourcePortMatch m then (invert r, m)
        else if ((\<not> md_IgnoreDestinationIPCIDRMatch m \<and> length (destinationIPCIDRItems r) > 0)
                 \<or> length (destinationAddressItems r) > 0) \<and> \<not> md_DestinationAddressMatch m
             then (invert r, m)
        else if length (destinationPortItems r) > 0 \<and> \<not> md_DestinationPortMatch m then (invert r, m)
        else if \<not> md_DidMatch m then (True, m)
        else (\<not> invert r, m)))"

lemma snd_adr_Match:
  "snd (adr_Match im isRuleSet r c) =
     (if allItems r = [] then c else snd (match_items im isRuleSet (items r) (match_groups im r c)))"
  by (cases "match_items im isRuleSet (items r) (match_groups im r c)") (simp add: adr_Match_def)

section \<open>Logical rules\<close>

datatype mode = ModeAnd | ModeOr

text \<open>\<open>abstractLogicalRule.Match\<close>: the rule cache is reset before every sub-rule.\<close>

definition logical_Match ::
  "('r \<Rightarrow> InboundContext \<Rightarrow> bool \<times> InboundContext) \<Rightarrow> 'r list \<Rightarrow> mode \<Rightarrow> bool \<Rightarrow>
   InboundContext \<Rightarrow> bool \<times> InboundContext" where
  "logical_Match match rules md neg c =
     (let f = (\<lambda>r c. match r (ResetRuleCache c)) in
      case md of
        ModeAnd \<Rightarrow> (case all_st f rules c of (b, d) \<Rightarrow> (b \<noteq> neg, d))
      | ModeOr \<Rightarrow> (case any_st f rules c of (b, d) \<Rightarrow> (b \<noteq> neg, d)))"

lemma logical_Match_cong [fundef_cong]:
  assumes "rs = rs'" "md = md'" "neg = neg'" "c = c'"
    and "\<And>r c. r \<in> set rs' \<Longrightarrow> f r c = g r c"
  shows "logical_Match f rs md neg c = logical_Match g rs' md' neg' c'"
proof -
  have "all_st (\<lambda>r c. f r (ResetRuleCache c)) rs c = all_st (\<lambda>r c. g r (ResetRuleCache c)) rs' c'"
    and "any_st (\<lambda>r c. f r (ResetRuleCache c)) rs c = any_st (\<lambda>r c. g r (ResetRuleCache c)) rs' c'"
    using assms by (auto intro!: all_st_cong any_st_cong)
  then show ?thesis using assms(1-4) by (cases md') (simp_all add: logical_Match_def)
qed

text \<open>
  Whenever every sub-rule answers, from a reset cache, with a value \<open>den\<close> that depends on the
  connection alone and leaves the connection alone, so does the logical rule.
\<close>

definition logical_holds :: "('r \<Rightarrow> bool) \<Rightarrow> 'r list \<Rightarrow> mode \<Rightarrow> bool \<Rightarrow> bool" where
  "logical_holds den rules md neg =
     ((case md of ModeAnd \<Rightarrow> list_all den rules | ModeOr \<Rightarrow> list_ex den rules) \<noteq> neg)"

lemma logical_Match_spec:
  assumes "\<And>r c. r \<in> set rs \<Longrightarrow> fst (match r (ResetRuleCache c)) = den r (core c)"
    and "\<And>r c. r \<in> set rs \<Longrightarrow> core (snd (match r c)) = core c"
  shows "fst (logical_Match match rs md neg c) = logical_holds (\<lambda>r. den r (core c)) rs md neg"
    and "core (snd (logical_Match match rs md neg c)) = core c"
proof -
  let ?f = "\<lambda>r c. match r (ResetRuleCache c)"
  have step: "fst (?f r d) = den r (core c) \<and> core (snd (?f r d)) = core c"
    if "r \<in> set rs" "core d = core c" for r d
    using assms that by simp
  note all = all_st_view [of rs core "core c" ?f "\<lambda>r. den r (core c)", OF step refl]
  note any = any_st_view [of rs core "core c" ?f "\<lambda>r. den r (core c)", OF step refl]
  show "fst (logical_Match match rs md neg c) = logical_holds (\<lambda>r. den r (core c)) rs md neg"
    using all(1) any(1)
    by (cases md) (simp_all add: logical_Match_def logical_holds_def list_all_iff list_ex_iff case_prod_beta)
  show "core (snd (logical_Match match rs md neg c)) = core c"
    using all(2) any(2) by (cases md) (simp_all add: logical_Match_def Let_def case_prod_beta)
qed

section \<open>What a rule asks for\<close>

text \<open>
  The declarative reading. A rule asks for all of its \<open>items\<close>, and for each non-empty group
  one matching member; the two destination address groups count as one, and the IP-CIDR
  group is left out while \<open>IgnoreDestinationIPCIDRMatch\<close> is set. A flag that is already set in
  the metadata satisfies its group.
\<close>

definition any_item :: "('i \<Rightarrow> InboundContext \<Rightarrow> bool) \<Rightarrow> 'i list \<Rightarrow> InboundContext \<Rightarrow> bool" where
  "any_item pm is c = list_ex (\<lambda>i. pm i c) is"

definition active_ipcidr :: "('i, 'a) abstractDefaultRule \<Rightarrow> InboundContext \<Rightarrow> 'i list" where
  "active_ipcidr r c = (if md_IgnoreDestinationIPCIDRMatch c then [] else destinationIPCIDRItems r)"

text \<open>Whether a group is asked at all, or \<open>DidMatch\<close> was set before.\<close>

definition groups_did :: "('i, 'a) abstractDefaultRule \<Rightarrow> InboundContext \<Rightarrow> bool" where
  "groups_did r c \<longleftrightarrow> md_DidMatch c
     \<or> sourceAddressItems r \<noteq> [] \<and> \<not> md_SourceAddressMatch c
     \<or> sourcePortItems r \<noteq> [] \<and> \<not> md_SourcePortMatch c
     \<or> (destinationAddressItems r \<noteq> [] \<or> active_ipcidr r c \<noteq> []) \<and> \<not> md_DestinationAddressMatch c
     \<or> destinationPortItems r \<noteq> [] \<and> \<not> md_DestinationPortMatch c"

definition flags_after ::
  "('i \<Rightarrow> InboundContext \<Rightarrow> bool) \<Rightarrow> ('i, 'a) abstractDefaultRule \<Rightarrow> InboundContext \<Rightarrow> InboundContext" where
  "flags_after pm r c = c\<lparr>
     md_SourceAddressMatch := md_SourceAddressMatch c \<or> any_item pm (sourceAddressItems r) c,
     md_SourcePortMatch := md_SourcePortMatch c \<or> any_item pm (sourcePortItems r) c,
     md_DestinationAddressMatch := md_DestinationAddressMatch c
        \<or> any_item pm (destinationAddressItems r) c \<or> any_item pm (active_ipcidr r c) c,
     md_DestinationPortMatch := md_DestinationPortMatch c \<or> any_item pm (destinationPortItems r) c,
     md_DidMatch := groups_did r c \<or> items r \<noteq> []\<rparr>"

definition conditions_ok ::
  "('i \<Rightarrow> InboundContext \<Rightarrow> bool) \<Rightarrow> ('i, 'a) abstractDefaultRule \<Rightarrow> InboundContext \<Rightarrow> bool" where
  "conditions_ok pm r c =
     (list_all (\<lambda>i. pm i c) (items r)
      \<and> (sourceAddressItems r = [] \<or> md_SourceAddressMatch c \<or> any_item pm (sourceAddressItems r) c)
      \<and> (sourcePortItems r = [] \<or> md_SourcePortMatch c \<or> any_item pm (sourcePortItems r) c)
      \<and> (destinationAddressItems r = [] \<and> active_ipcidr r c = [] \<or> md_DestinationAddressMatch c
         \<or> any_item pm (destinationAddressItems r) c \<or> any_item pm (active_ipcidr r c) c)
      \<and> (destinationPortItems r = [] \<or> md_DestinationPortMatch c \<or> any_item pm (destinationPortItems r) c))"

definition rule_holds ::
  "('i \<Rightarrow> InboundContext \<Rightarrow> bool) \<Rightarrow> ('i, 'a) abstractDefaultRule \<Rightarrow> InboundContext \<Rightarrow> bool" where
  "rule_holds pm r c =
     (allItems r = []
      \<or> (if conditions_ok pm r c then \<not> md_DidMatch (flags_after pm r c) \<or> \<not> invert r else invert r))"

section \<open>The contracts of an item type\<close>

text \<open>An item may write the rule cache of the metadata and nothing else.\<close>

locale rule_item =
  fixes im :: "'i item_match" and isRuleSet :: "'i \<Rightarrow> bool"
  assumes frame: "core (snd (im i c)) = core c"
begin

lemma any_st_frame: "core (snd (any_st im is c)) = core c"
proof (induction "is" arbitrary: c)
  case Nil
  then show ?case by simp
next
  case (Cons i "is")
  obtain b d where "im i c = (b, d)" by fastforce
  moreover from this have "core d = core c" using frame [of i c] by simp
  ultimately show ?case using Cons.IH [of d] by simp
qed

lemma match_items_frame: "core (snd (match_items im isRuleSet is c)) = core c"
proof (induction "is" arbitrary: c)
  case Nil
  then show ?case by simp
next
  case (Cons i "is")
  obtain b d where im: "im i (if isRuleSet i then c else c\<lparr>md_DidMatch := True\<rparr>) = (b, d)" by fastforce
  moreover from this have "core d = core c"
    using frame [of i "if isRuleSet i then c else c\<lparr>md_DidMatch := True\<rparr>"] by (auto split: if_splits)
  ultimately show ?case using Cons.IH [of d] by simp
qed

lemma match_group_frame:
  assumes "\<And>d. core (set_flag d) = core d"
  shows "core (match_group im e g flag set_flag c) = core c"
  using any_st_frame [of g "c\<lparr>md_DidMatch := True\<rparr>"] assms
  by (auto simp: match_group_def split: prod.splits)

lemma match_groups_frame: "core (match_groups im r c) = core c"
  by (simp add: match_groups_def Let_def match_group_frame)

lemma adr_Match_frame: "core (snd (adr_Match im isRuleSet r c)) = core c"
  by (simp add: snd_adr_Match match_items_frame match_groups_frame)

end

text \<open>A pure item answers from the connection and the IP-CIDR switches and writes nothing.\<close>

locale pure_item =
  fixes pm :: "'i \<Rightarrow> InboundContext \<Rightarrow> bool" and im :: "'i item_match" and isRuleSet :: "'i \<Rightarrow> bool"
  assumes im_pure: "im i c = (pm i c, c)"
    and pm_base: "pm i (base c) = pm i c"
    and not_RuleSet: "\<not> isRuleSet i"
begin

lemma pm_cong: "base c = base d \<Longrightarrow> pm i c = pm i d"
  by (metis pm_base)

lemma any_item_cong: "base c = base d \<Longrightarrow> any_item pm is c = any_item pm is d"
  by (simp add: any_item_def list_ex_iff pm_cong [of c d])

lemma any_st_im: "any_st im is c = (any_item pm is c, c)"
  by (simp add: any_st_pure [where p = "\<lambda>i. pm i c"] im_pure any_item_def list_ex_iff)

lemma match_items_im:
  "match_items im isRuleSet is c =
     (list_all (\<lambda>i. pm i c) is, if is = [] then c else c\<lparr>md_DidMatch := True\<rparr>)"
proof (induction "is" arbitrary: c)
  case Nil
  then show ?case by simp
next
  case (Cons i "is")
  have pm: "pm j (c\<lparr>md_DidMatch := True\<rparr>) = pm j c" for j
    by (rule pm_cong) simp
  show ?case using Cons.IH [of "c\<lparr>md_DidMatch := True\<rparr>"] by (simp add: not_RuleSet im_pure pm)
qed

lemma match_group_im:
  "match_group im e g flag set_flag c =
     (if e \<and> g \<noteq> [] \<and> \<not> flag c
      then (if any_item pm g c then set_flag (c\<lparr>md_DidMatch := True\<rparr>) else c\<lparr>md_DidMatch := True\<rparr>)
      else c)"
  using any_item_cong [of "c\<lparr>md_DidMatch := True\<rparr>" c] by (simp add: match_group_def any_st_im)

lemma any_item_Nil [simp]: "\<not> any_item pm [] c"
  by (simp add: any_item_def)

lemma group_SourceAddress:
  "match_group im e g md_SourceAddressMatch (md_SourceAddressMatch_update (\<lambda>_. True)) c =
     c\<lparr>md_SourceAddressMatch := md_SourceAddressMatch c \<or> e \<and> any_item pm g c,
       md_DidMatch := md_DidMatch c \<or> e \<and> g \<noteq> [] \<and> \<not> md_SourceAddressMatch c\<rparr>"
  by (cases "g = []") (auto simp: match_group_im same_flags)

lemma group_SourcePort:
  "match_group im e g md_SourcePortMatch (md_SourcePortMatch_update (\<lambda>_. True)) c =
     c\<lparr>md_SourcePortMatch := md_SourcePortMatch c \<or> e \<and> any_item pm g c,
       md_DidMatch := md_DidMatch c \<or> e \<and> g \<noteq> [] \<and> \<not> md_SourcePortMatch c\<rparr>"
  by (cases "g = []") (auto simp: match_group_im same_flags)

lemma group_DestinationAddress:
  "match_group im e g md_DestinationAddressMatch (md_DestinationAddressMatch_update (\<lambda>_. True)) c =
     c\<lparr>md_DestinationAddressMatch := md_DestinationAddressMatch c \<or> e \<and> any_item pm g c,
       md_DidMatch := md_DidMatch c \<or> e \<and> g \<noteq> [] \<and> \<not> md_DestinationAddressMatch c\<rparr>"
  by (cases "g = []") (auto simp: match_group_im same_flags)

lemma group_DestinationPort:
  "match_group im e g md_DestinationPortMatch (md_DestinationPortMatch_update (\<lambda>_. True)) c =
     c\<lparr>md_DestinationPortMatch := md_DestinationPortMatch c \<or> e \<and> any_item pm g c,
       md_DidMatch := md_DidMatch c \<or> e \<and> g \<noteq> [] \<and> \<not> md_DestinationPortMatch c\<rparr>"
  by (cases "g = []") (auto simp: match_group_im same_flags)

lemma any_item_updates [simp]:
  "any_item pm g (c\<lparr>md_SourceAddressMatch := b\<rparr>) = any_item pm g c"
  "any_item pm g (c\<lparr>md_SourcePortMatch := b\<rparr>) = any_item pm g c"
  "any_item pm g (c\<lparr>md_DestinationAddressMatch := b\<rparr>) = any_item pm g c"
  "any_item pm g (c\<lparr>md_DestinationPortMatch := b\<rparr>) = any_item pm g c"
  "any_item pm g (c\<lparr>md_DidMatch := b\<rparr>) = any_item pm g c"
  by (rule any_item_cong, simp)+

lemmas group_flags = group_SourceAddress group_SourcePort group_DestinationAddress group_DestinationPort

lemma match_groups_im:
  "match_groups im r c = (flags_after pm r c)\<lparr>md_DidMatch := groups_did r c\<rparr>"
proof -
  have ip: "any_item pm (active_ipcidr r c) c \<longleftrightarrow>
      \<not> md_IgnoreDestinationIPCIDRMatch c \<and> any_item pm (destinationIPCIDRItems r) c"
    "active_ipcidr r c \<noteq> [] \<longleftrightarrow> \<not> md_IgnoreDestinationIPCIDRMatch c \<and> destinationIPCIDRItems r \<noteq> []"
    by (simp_all add: active_ipcidr_def)
  show ?thesis
    by (cases "destinationAddressItems r = []"; cases "md_DestinationAddressMatch c";
        simp add: match_groups_def Let_def group_flags flags_after_def groups_did_def ip disj_assoc)
qed

theorem adr_Match_im:
  "adr_Match im isRuleSet r c = (rule_holds pm r c, if allItems r = [] then c else flags_after pm r c)"
proof (cases "allItems r = []")
  case True
  then show ?thesis by (simp add: adr_Match_def rule_holds_def)
next
  case False
  define m where "m = flags_after pm r c"
  have base_m: "base m = base c" by (simp add: m_def flags_after_def)
  have pm_m: "pm i (m\<lparr>md_DidMatch := b\<rparr>) = pm i c" for i b
    by (rule pm_cong) (simp add: base_m)
  have did: "md_DidMatch m \<longleftrightarrow> groups_did r c \<or> items r \<noteq> []"
    by (simp add: m_def flags_after_def)
  have "match_items im isRuleSet (items r) (match_groups im r c) = (list_all (\<lambda>i. pm i c) (items r), m)"
    by (cases "items r = []")
      (simp_all add: match_items_im match_groups_im did pm_m same_DidMatch flip: m_def)
  moreover have flags: "md_IgnoreDestinationIPCIDRMatch m = md_IgnoreDestinationIPCIDRMatch c"
    "md_SourceAddressMatch m = (md_SourceAddressMatch c \<or> any_item pm (sourceAddressItems r) c)"
    "md_SourcePortMatch m = (md_SourcePortMatch c \<or> any_item pm (sourcePortItems r) c)"
    "md_DestinationAddressMatch m = (md_DestinationAddressMatch c
        \<or> any_item pm (destinationAddressItems r) c \<or> any_item pm (active_ipcidr r c) c)"
    "md_DestinationPortMatch m = (md_DestinationPortMatch c \<or> any_item pm (destinationPortItems r) c)"
    by (simp_all add: m_def flags_after_def)
  moreover have "((\<not> md_IgnoreDestinationIPCIDRMatch c \<and> destinationIPCIDRItems r \<noteq> [])
                 \<or> destinationAddressItems r \<noteq> []) \<longleftrightarrow>
      \<not> (destinationAddressItems r = [] \<and> active_ipcidr r c = [])"
    by (auto simp: active_ipcidr_def)
  ultimately show ?thesis using False
    unfolding adr_Match_def rule_holds_def conditions_ok_def m_def [symmetric] by simp
qed

end

sublocale pure_item \<subseteq> rule_item
  by unfold_locales (simp add: im_pure)

end
