(* ===== verification/Rule_Builder.thy ===== *)
theory Rule_Builder
  imports Rule_Abstract
begin

text \<open>
  The constructors of default rules (\<open>NewDefaultRule\<close>, \<open>NewDefaultDNSRule\<close>,
  \<open>NewDefaultHeadlessRule\<close>) are long sequences of \<open>if option given { build item; append it to its
  group and to allItems }\<close>. Each such statement is a step \<open>opt_item\<close>, a constructor is a list of
  steps run by \<open>run_steps\<close>, and the invariant of the built rule is proved once for a step.
\<close>

datatype group = Items | SourceAddress | SourcePort | DestinationAddress | DestinationIPCIDR | DestinationPort

text \<open>\<open>rule.<group> = append(rule.<group>, item); rule.allItems = append(rule.allItems, item)\<close>\<close>

definition put_item :: "group \<Rightarrow> 'i \<Rightarrow> ('i, 'a) abstractDefaultRule \<Rightarrow> ('i, 'a) abstractDefaultRule" where
  "put_item g i r =
     (case g of
        Items \<Rightarrow> r\<lparr>items := items r @ [i]\<rparr>
      | SourceAddress \<Rightarrow> r\<lparr>sourceAddressItems := sourceAddressItems r @ [i]\<rparr>
      | SourcePort \<Rightarrow> r\<lparr>sourcePortItems := sourcePortItems r @ [i]\<rparr>
      | DestinationAddress \<Rightarrow> r\<lparr>destinationAddressItems := destinationAddressItems r @ [i]\<rparr>
      | DestinationIPCIDR \<Rightarrow> r\<lparr>destinationIPCIDRItems := destinationIPCIDRItems r @ [i]\<rparr>
      | DestinationPort \<Rightarrow> r\<lparr>destinationPortItems := destinationPortItems r @ [i]\<rparr>)
     \<lparr>allItems := allItems r @ [i]\<rparr>"

definition empty_rule :: "bool \<Rightarrow> 'a option \<Rightarrow> ('i, 'a) abstractDefaultRule" where
  "empty_rule neg act =
     \<lparr>items = [], sourceAddressItems = [], sourcePortItems = [], destinationAddressItems = [],
      destinationIPCIDRItems = [], destinationPortItems = [], allItems = [], invert = neg, action = act\<rparr>"

type_synonym ('i, 'a) build_step =
  "('i, 'a) abstractDefaultRule \<Rightarrow> ('i, 'a) abstractDefaultRule result"

definition opt_item :: "bool \<Rightarrow> group \<Rightarrow> 'i result \<Rightarrow> ('i, 'a) build_step" where
  "opt_item given g mk r = (if given then bind_result mk (\<lambda>i. Inr (put_item g i r)) else Inr r)"

text \<open>An option that is rejected whenever it is given.\<close>

definition reject_if :: "bool \<Rightarrow> error \<Rightarrow> ('i, 'a) build_step" where
  "reject_if given err r = (if given then Inl err else Inr r)"

text \<open>\<open>return nil, E.Cause(err, what)\<close> around a fallible item constructor.\<close>

definition cause :: "string \<Rightarrow> 'x result \<Rightarrow> 'x result" where
  "cause what r = (case r of Inl e \<Rightarrow> Inl (E_Cause e [S what]) | Inr x \<Rightarrow> Inr x)"

lemma cause_Inr [simp]: "cause what r = Inr x \<longleftrightarrow> r = Inr x"
  by (cases r) (simp_all add: cause_def)

section \<open>The invariant of a built rule\<close>

text \<open>Every item is in exactly one group and in \<open>allItems\<close>: the groups are a partition.\<close>

definition group_items :: "('i, 'a) abstractDefaultRule \<Rightarrow> 'i list" where
  "group_items r = items r @ sourceAddressItems r @ sourcePortItems r @ destinationAddressItems r
     @ destinationIPCIDRItems r @ destinationPortItems r"

definition wf_rule :: "('i, 'a) abstractDefaultRule \<Rightarrow> bool" where
  "wf_rule r \<longleftrightarrow> set (allItems r) = set (group_items r) \<and> length (allItems r) = length (group_items r)"

lemma wf_empty_rule [simp]: "wf_rule (empty_rule neg act)"
  by (simp add: wf_rule_def group_items_def empty_rule_def)

lemma wf_put_item: "wf_rule r \<Longrightarrow> wf_rule (put_item g i r)"
  by (cases g) (auto simp: wf_rule_def group_items_def put_item_def)

lemma put_item_invert [simp]:
  "invert (put_item g i r) = invert r" "action (put_item g i r) = action r"
  by (cases g; simp add: put_item_def)+

lemma opt_item_Inr: "opt_item given g mk r = Inr r' \<longleftrightarrow>
    (if given then \<exists>i. mk = Inr i \<and> r' = put_item g i r else r' = r)"
  by (auto simp: opt_item_def bind_result_Inr_iff)

lemma reject_if_Inr: "reject_if given err r = Inr r' \<longleftrightarrow> \<not> given \<and> r' = r"
  by (auto simp: reject_if_def)

text \<open>A step keeps the invariant, the inversion and the action.\<close>

definition good_step :: "('i, 'a) build_step \<Rightarrow> bool" where
  "good_step f \<longleftrightarrow> (\<forall>r r'. wf_rule r \<longrightarrow> f r = Inr r' \<longrightarrow>
     wf_rule r' \<and> invert r' = invert r \<and> action r' = action r \<and> (allItems r' = [] \<longrightarrow> r' = r))"

lemma put_item_nonempty [simp]: "allItems (put_item g i r) \<noteq> []"
  by (cases g) (simp_all add: put_item_def)

lemma good_opt_item [intro!, simp]: "good_step (opt_item given g mk)"
  by (auto simp: good_step_def opt_item_Inr wf_put_item split: if_splits)

lemma good_reject_if [intro!, simp]: "good_step (reject_if given err)"
  by (auto simp: good_step_def reject_if_Inr)

lemma good_if [intro!, simp]: "good_step f1 \<Longrightarrow> good_step f2 \<Longrightarrow> good_step (if c then f1 else f2)"
  by simp

lemma run_good_steps:
  assumes "run_steps fs (empty_rule neg act) = Inr r" and "list_all good_step fs"
  shows "wf_rule r \<and> invert r = neg \<and> action r = act"
proof (rule run_steps_invariant [OF assms(1)])
  show "wf_rule (empty_rule neg act) \<and> invert (empty_rule neg act :: ('a, 'b) abstractDefaultRule) = neg
      \<and> action (empty_rule neg act :: ('a, 'b) abstractDefaultRule) = act"
    by (simp add: empty_rule_def wf_rule_def group_items_def)
  show "wf_rule v \<and> invert v = neg \<and> action v = act"
    if "f \<in> set fs" "wf_rule u \<and> invert u = neg \<and> action u = act" "f u = Inr v" for f u v
    using that assms(2) by (auto simp: list_all_iff good_step_def)
qed

text \<open>In a rule with the invariant an empty \<open>allItems\<close> means there is no condition at all.\<close>

lemma wf_rule_no_items: "wf_rule r \<Longrightarrow> allItems r = [] \<longleftrightarrow> group_items r = []"
  by (auto simp: wf_rule_def)

section \<open>Which options fill a group\<close>

definition group_of :: "group \<Rightarrow> ('i, 'a) abstractDefaultRule \<Rightarrow> 'i list" where
  "group_of g r =
     (case g of
        Items \<Rightarrow> items r
      | SourceAddress \<Rightarrow> sourceAddressItems r
      | SourcePort \<Rightarrow> sourcePortItems r
      | DestinationAddress \<Rightarrow> destinationAddressItems r
      | DestinationIPCIDR \<Rightarrow> destinationIPCIDRItems r
      | DestinationPort \<Rightarrow> destinationPortItems r)"

lemma group_of_put_item:
  "group_of g (put_item h i r) = (if g = h then group_of g r @ [i] else group_of g r)"
  by (cases g; cases h; simp add: group_of_def put_item_def)

text \<open>\<open>fills g b f\<close>: a successful run of step \<open>f\<close> adds to group \<open>g\<close> exactly when \<open>b\<close>.\<close>

definition fills :: "group \<Rightarrow> bool \<Rightarrow> ('i, 'a) build_step \<Rightarrow> bool" where
  "fills g b f \<longleftrightarrow> (\<forall>r r'. f r = Inr r' \<longrightarrow> (group_of g r' \<noteq> [] \<longleftrightarrow> group_of g r \<noteq> [] \<or> b))"

lemma fills_opt_item [intro!]: "b = (given \<and> h = g) \<Longrightarrow> fills g b (opt_item given h mk)"
  by (auto simp: fills_def opt_item_Inr group_of_put_item split: if_splits)

lemma fills_reject_if [intro!]: "\<not> b \<Longrightarrow> fills g b (reject_if given err)"
  by (simp add: fills_def reject_if_Inr)

lemma fills_if [intro!]:
  "(c \<Longrightarrow> fills g b f1) \<Longrightarrow> (\<not> c \<Longrightarrow> fills g b f2) \<Longrightarrow> fills g b (if c then f1 else f2)"
  by simp

lemma fills_Nil: "list_all2 (fills g) [] []"
  by simp

lemma fills_Cons:
  "fills g b f \<Longrightarrow> list_all2 (fills g) bs fs \<Longrightarrow> list_all2 (fills g) (b # bs) (f # fs)"
  by simp

lemmas fills_intros = fills_Nil fills_Cons fills_opt_item fills_reject_if fills_if

lemma run_steps_fills:
  assumes "list_all2 (fills g) bs fs" and "run_steps fs r = Inr r'"
  shows "group_of g r' \<noteq> [] \<longleftrightarrow> group_of g r \<noteq> [] \<or> True \<in> set bs"
  using assms
proof (induction arbitrary: r rule: list_all2_induct)
  case Nil
  then show ?case by simp
next
  case (Cons b bs f fs)
  from Cons.prems obtain u where "f r = Inr u" and "run_steps fs u = Inr r'"
    by (auto simp: bind_result_Inr_iff)
  with Cons.IH Cons.hyps(1) show ?case by (auto simp: fills_def)
qed

lemma group_of_empty_rule [simp]: "group_of g (empty_rule neg act) = []"
  by (cases g) (simp_all add: group_of_def empty_rule_def)

text \<open>\<open>only_puts g P f\<close>: step \<open>f\<close> puts into group \<open>g\<close> only items that satisfy \<open>P\<close>.\<close>

definition only_puts :: "group \<Rightarrow> ('i \<Rightarrow> bool) \<Rightarrow> ('i, 'a) build_step \<Rightarrow> bool" where
  "only_puts g P f \<longleftrightarrow>
     (\<forall>r r'. f r = Inr r' \<longrightarrow> (\<forall>i\<in>set (group_of g r). P i) \<longrightarrow> (\<forall>i\<in>set (group_of g r'). P i))"

lemma only_puts_opt_item [intro!]:
  "(\<And>i. given \<Longrightarrow> g = h \<Longrightarrow> mk = Inr i \<Longrightarrow> P i) \<Longrightarrow> only_puts g P (opt_item given h mk)"
  by (auto simp: only_puts_def opt_item_Inr group_of_put_item split: if_splits)

lemma only_puts_if [intro!]: "only_puts g P f1 \<Longrightarrow> only_puts g P f2 \<Longrightarrow> only_puts g P (if c then f1 else f2)"
  by simp

lemma run_steps_only_puts:
  assumes "run_steps fs (empty_rule neg act) = Inr r" and "list_all (only_puts g P) fs"
  shows "\<forall>i\<in>set (group_of g r). P i"
  by (rule run_steps_invariant [OF assms(1), of "\<lambda>r. \<forall>i\<in>set (group_of g r). P i"])
    (use assms(2) in \<open>auto simp: list_all_iff only_puts_def group_of_empty_rule\<close>)

end
