(* ===== verification/Rule_Items.thy ===== *)
theory Rule_Items
  imports Inbound_Context
begin

text \<open>
  The rule items of \<open>route/rule/rule_item_*.go\<close>: one constructor per Go type with the type's
  fields, one definition per \<open>New...\<close> function and one equation of \<open>leaf_Match\<close> per \<open>Match\<close>
  method. All of them but \<open>RuleSetItem\<close> (theory \<open>Rule_Sets\<close>) only read the metadata, so their
  \<open>Match\<close> is a predicate.
\<close>

section \<open>The items\<close>

record rangeItem =
  ri_start :: port
  ri_end :: port

datatype (dead 'dm, dead 'ag, dead 'ip) leaf_item =
    InboundItem "string list" "string \<Rightarrow> bool"
  | IPVersionItem bool
  | QueryTypeItem "16 word list" "16 word \<Rightarrow> bool"
  | NetworkItem "string list" "string \<Rightarrow> bool"
  | AuthUserItem "string list" "string \<Rightarrow> bool"
  | ProtocolItem "string list" "string \<Rightarrow> bool"
  | ClientItem "string list" "string \<Rightarrow> bool"
  | DomainItem 'dm string
  | DomainKeywordItem "string list"
  | DomainRegexItem "(string \<Rightarrow> bool) list" string
  | AdGuardDomainItem 'ag
  | IPCIDRItem 'ip bool string
  | IPIsPrivateItem bool
  | IPAcceptAnyItem
  | PortItem "port list" "port \<Rightarrow> bool" bool
  | PortRangeItem bool "string list" "rangeItem list"
  | TunnelSourceItem "string list" "string \<Rightarrow> bool"
  | TunnelDestinationItem "string list" "string \<Rightarrow> bool"
  | ProcessItem "string list" "string \<Rightarrow> bool"
  | ProcessPathItem "string list" "string \<Rightarrow> bool"
  | ProcessPathRegexItem "(string \<Rightarrow> bool) list" string
  | PackageNameItem "string list" "string \<Rightarrow> bool"
  | UserItem "string list" "string \<Rightarrow> bool"
  | UserIdItem "int list" "int \<Rightarrow> bool"
  | OutboundItem "string list" "string \<Rightarrow> bool" bool
  | ClashModeItem bool string
  | NetworkTypeItem "InterfaceType list"
  | NetworkIsExpensiveItem
  | NetworkIsConstrainedItem
  | WIFISSIDItem "string list" "string \<Rightarrow> bool"
  | WIFIBSSIDItem "string list" "string \<Rightarrow> bool"
  | InterfaceAddressItem "(string \<times> Prefix list) list"
  | NetworkInterfaceAddressItem "(InterfaceType \<times> Prefix list) list"
  | DefaultInterfaceAddressItem "Prefix list"
  | PreferredByItem "string list" "preferred_routes list"

section \<open>Constructors that cannot fail\<close>

definition NewInboundRule where [item_simps]:
  "NewInboundRule inbounds = InboundItem inbounds (member_map inbounds)"

definition NewIPVersionItem where [item_simps]: "NewIPVersionItem isIPv6 = IPVersionItem isIPv6"

definition NewQueryTypeItem where [item_simps]:
  "NewQueryTypeItem typeList = QueryTypeItem typeList (member_map typeList)"

definition NewNetworkItem where [item_simps]:
  "NewNetworkItem networks = NetworkItem networks (member_map networks)"

definition NewAuthUserItem where [item_simps]:
  "NewAuthUserItem users = AuthUserItem users (member_map users)"

definition NewProtocolItem where [item_simps]:
  "NewProtocolItem protocols = ProtocolItem protocols (member_map protocols)"

definition NewClientItem where [item_simps]:
  "NewClientItem clients = ClientItem clients (member_map clients)"

definition NewDomainKeywordItem where [item_simps]:
  "NewDomainKeywordItem keywords = DomainKeywordItem keywords"

definition NewRawDomainItem where [item_simps]:
  "NewRawDomainItem matcher = DomainItem matcher ''domain/domain_suffix=<binary>''"

definition NewAdGuardDomainItem where [item_simps]:
  "NewAdGuardDomainItem L ruleLines = AdGuardDomainItem (NewAdGuardMatcher L ruleLines)"

definition NewRawAdGuardDomainItem where [item_simps]:
  "NewRawAdGuardDomainItem matcher = AdGuardDomainItem matcher"

definition NewRawIPCIDRItem where [item_simps]:
  "NewRawIPCIDRItem isSource ipSet = IPCIDRItem ipSet isSource
     ((if isSource then ''source_ip_cidr='' else ''ip_cidr='') @ ''<binary>'')"

definition NewIPIsPrivateItem where [item_simps]: "NewIPIsPrivateItem isSource = IPIsPrivateItem isSource"

definition NewIPAcceptAnyItem where [item_simps]: "NewIPAcceptAnyItem = IPAcceptAnyItem"

definition NewPortItem where [item_simps]:
  "NewPortItem isSource ports = PortItem ports (member_map ports) isSource"

definition NewTunnelSourceItem where [item_simps]:
  "NewTunnelSourceItem sources = TunnelSourceItem sources (member_map sources)"

definition NewTunnelDestinationItem where [item_simps]:
  "NewTunnelDestinationItem destinations = TunnelDestinationItem destinations (member_map destinations)"

definition NewProcessItem where [item_simps]:
  "NewProcessItem processNameList = ProcessItem processNameList (member_map processNameList)"

definition NewProcessPathItem where [item_simps]:
  "NewProcessPathItem processNameList = ProcessPathItem processNameList (member_map processNameList)"

definition NewPackageNameItem where [item_simps]:
  "NewPackageNameItem packageNameList = PackageNameItem packageNameList (member_map packageNameList)"

definition NewUserItem where [item_simps]: "NewUserItem users = UserItem users (member_map users)"

definition NewUserIDItem where [item_simps]:
  "NewUserIDItem userIdList = UserIdItem userIdList (member_map userIdList)"

definition NewOutboundRule where [item_simps]:
  "NewOutboundRule outbounds =
     OutboundItem outbounds (member_map (filter (\<lambda>o'. o' \<noteq> ''any'') outbounds)) (''any'' \<in> set outbounds)"

definition NewClashModeItem where [item_simps]: "NewClashModeItem mode = ClashModeItem False mode"

definition NewNetworkTypeItem where [item_simps]: "NewNetworkTypeItem networkType = NetworkTypeItem networkType"

definition NewWIFISSIDItem where [item_simps]:
  "NewWIFISSIDItem ssidList = WIFISSIDItem ssidList (member_map ssidList)"

definition NewWIFIBSSIDItem where [item_simps]:
  "NewWIFIBSSIDItem bssidList = WIFIBSSIDItem bssidList (member_map bssidList)"

definition NewPreferredByItem where [item_simps]: "NewPreferredByItem outboundTags = PreferredByItem outboundTags []"

text \<open>
  The address items turn every \<open>*Prefixable\<close> into a prefix; a Go map built from the entries
  keeps the last value of a key. Iterating over the map is iterating over its keys in some
  order, on which neither \<open>Match\<close> depends.
\<close>

definition build_prefixes :: "('dm, 'ag, 'ip) lib \<Rightarrow> Prefix option list \<Rightarrow> Prefix list" where
  "build_prefixes L ps = map (\<lambda>p. Prefixable_Build L p zeroPrefix) ps"

definition map_of_entries :: "('k \<times> 'v) list \<Rightarrow> ('k \<times> 'v) list" where
  "map_of_entries es = fold (\<lambda>(k, v) m. (k, v) # filter (\<lambda>(k', _). k' \<noteq> k) m) es []"

definition NewInterfaceAddressItem where [item_simps]:
  "NewInterfaceAddressItem L entries =
     InterfaceAddressItem (map_of_entries (map (\<lambda>(k, v). (k, build_prefixes L v)) entries))"

definition NewNetworkInterfaceAddressItem where [item_simps]:
  "NewNetworkInterfaceAddressItem L entries =
     NetworkInterfaceAddressItem (map_of_entries (map (\<lambda>(k, v). (k, build_prefixes L v)) entries))"

definition NewDefaultInterfaceAddressItem where [item_simps]:
  "NewDefaultInterfaceAddressItem L interfaceAddresses =
     DefaultInterfaceAddressItem (build_prefixes L interfaceAddresses)"

section \<open>Constructors that parse their options\<close>

text \<open>\<open>strings.Join(xs, sep)\<close> and the abbreviating descriptions built from it.\<close>

fun Join :: "string list \<Rightarrow> string \<Rightarrow> string" where
  "Join [] sep = []"
| "Join [x] sep = x"
| "Join (x # y # xs) sep = x @ sep @ Join (y # xs) sep"

definition describe_list :: "string list \<Rightarrow> string" where
  "describe_list xs =
     (if length xs = 1 then hd xs
      else if length xs > 3 then ''['' @ Join (take 3 xs) '' '' @ ''...]''
      else ''['' @ Join xs '' '' @ '']'')"

definition NewDomainItem ::
  "('dm, 'ag, 'ip) lib \<Rightarrow> string list \<Rightarrow> string list \<Rightarrow> ('dm, 'ag, 'ip) leaf_item result" where
  "NewDomainItem L domains domainSuffixes =
     (if [] \<in> set domains then Inl (E_New [S ''domain: empty item is not allowed''])
      else if [] \<in> set domainSuffixes then Inl (E_New [S ''domain_suffix: empty item is not allowed''])
      else
        let d1 = (if length domains > 0 then ''domain='' @ describe_list domains else []);
            d2 = (if length domainSuffixes > 0
                  then (if length d1 > 0 then d1 @ '' '' else d1) @ ''domain_suffix='' @ describe_list domainSuffixes
                  else d1)
        in Inr (DomainItem (NewMatcher L domains domainSuffixes False) d2))"

text \<open>Compiling the expressions in order; the first that does not compile is the error.\<close>

fun compile_all :: "('dm, 'ag, 'ip) lib \<Rightarrow> nat \<Rightarrow> string list \<Rightarrow> (string \<Rightarrow> bool) list result" where
  "compile_all L i [] = Inr []"
| "compile_all L i (regex # rest) =
     (case Compile L regex of
        Inl err \<Rightarrow> Inl (E_Cause err [S ''parse expression '', N i])
      | Inr matcher \<Rightarrow> bind_result (compile_all L (Suc i) rest) (\<lambda>ms. Inr (matcher # ms)))"

definition describe_regex :: "string list \<Rightarrow> string" where
  "describe_regex expressions =
     (if length expressions = 1 then hd expressions
      else if length expressions > 3 then ''['' @ Join (take 3 expressions) '' '' @ '']''
      else ''['' @ Join expressions '' '' @ '']'')"

definition NewDomainRegexItem ::
  "('dm, 'ag, 'ip) lib \<Rightarrow> string list \<Rightarrow> ('dm, 'ag, 'ip) leaf_item result" where
  "NewDomainRegexItem L expressions =
     bind_result (compile_all L 0 expressions)
       (\<lambda>matchers. Inr (DomainRegexItem matchers (''domain_regex='' @ describe_regex expressions)))"

definition NewProcessPathRegexItem ::
  "('dm, 'ag, 'ip) lib \<Rightarrow> string list \<Rightarrow> ('dm, 'ag, 'ip) leaf_item result" where
  "NewProcessPathRegexItem L expressions =
     bind_result (compile_all L 0 expressions)
       (\<lambda>matchers. Inr (ProcessPathRegexItem matchers (''process_path_regex='' @ describe_regex expressions)))"

text \<open>A CIDR string is a prefix or else a single address; the error reported is the prefix
  parser's.\<close>

fun parse_cidrs :: "('dm, 'ag, 'ip) lib \<Rightarrow> nat \<Rightarrow> string list \<Rightarrow> (Prefix + addr) list result" where
  "parse_cidrs L i [] = Inr []"
| "parse_cidrs L i (prefixString # rest) =
     (case ParsePrefix L prefixString of
        Inr pfx \<Rightarrow> bind_result (parse_cidrs L (Suc i) rest) (\<lambda>ps. Inr (Inl pfx # ps))
      | Inl err \<Rightarrow>
         (case ParseAddr L prefixString of
            Inr a \<Rightarrow> bind_result (parse_cidrs L (Suc i) rest) (\<lambda>ps. Inr (Inr a # ps))
          | Inl _ \<Rightarrow> Inl (E_Cause err [S ''parse ['', N i, S '']''])))"

definition NewIPCIDRItem ::
  "('dm, 'ag, 'ip) lib \<Rightarrow> bool \<Rightarrow> string list \<Rightarrow> ('dm, 'ag, 'ip) leaf_item result" where
  "NewIPCIDRItem L isSource prefixStrings =
     bind_result (parse_cidrs L 0 prefixStrings) (\<lambda>ps.
     bind_result (IPSetBuild L ps) (\<lambda>ipSet.
       Inr (IPCIDRItem ipSet isSource
         ((if isSource then ''source_ip_cidr='' else ''ip_cidr='') @ describe_list prefixStrings))))"

definition ErrBadPortRange :: error where
  "ErrBadPortRange = E_New [S ''bad port range'']"

text \<open>One port range: at least one colon; nothing before the first colon is 0, nothing after
  it is 65535.\<close>

definition parse_port_range :: "string \<Rightarrow> rangeItem result" where
  "parse_port_range portRange =
     (case index_byte CHR '':'' portRange of
        None \<Rightarrow> Inl (E_Extend ErrBadPortRange portRange)
      | Some subIndex \<Rightarrow>
         bind_result
           (if subIndex > 0
            then (case ParseUint (take subIndex portRange) 16 of
                    None \<Rightarrow> Inl (E_Cause (E_Lib ''strconv.ParseUint'') [Err (E_Extend ErrBadPortRange portRange)])
                  | Some v \<Rightarrow> Inr v)
            else Inr 0) (\<lambda>start.
         bind_result
           (if subIndex = length portRange - 1 then Inr 0xFFFF
            else (case ParseUint (drop (subIndex + 1) portRange) 16 of
                    None \<Rightarrow> Inl (E_Cause (E_Lib ''strconv.ParseUint'') [Err (E_Extend ErrBadPortRange portRange)])
                  | Some v \<Rightarrow> Inr v)) (\<lambda>end'.
         Inr \<lparr>ri_start = of_nat start, ri_end = of_nat end'\<rparr>)))"

lemma parse_port_range_Itoa:
  fixes a b :: "16 word"
  shows "parse_port_range (Itoa (unat a) @ '':'' @ Itoa (unat b)) = Inr \<lparr>ri_start = a, ri_end = b\<rparr>"
proof -
  have "unat x < 2 ^ 16" for x :: "16 word" using unsigned_less [of x] by simp
  then have p: "ParseUint (Itoa (unat x)) 16 = Some (unat x)" for x :: "16 word" by (simp add: ParseUint_Itoa)
  have i: "index_byte CHR '':'' (Itoa (unat a) @ '':'' @ Itoa (unat b)) = Some (length (Itoa (unat a)))"
    using index_byte_append [OF Itoa_no_colon] by simp
  have "length (Itoa (unat b)) > 0" by simp
  then show ?thesis using p [of a] p [of b] unfolding parse_port_range_def i by simp
qed

fun parse_port_ranges :: "string list \<Rightarrow> rangeItem list result" where
  "parse_port_ranges [] = Inr []"
| "parse_port_ranges (r # rest) =
     bind_result (parse_port_range r) (\<lambda>ri. bind_result (parse_port_ranges rest) (\<lambda>rs. Inr (ri # rs)))"

definition NewPortRangeItem :: "bool \<Rightarrow> string list \<Rightarrow> ('dm, 'ag, 'ip) leaf_item result" where
  "NewPortRangeItem isSource rangeList =
     bind_result (parse_port_ranges rangeList) (\<lambda>rs. Inr (PortRangeItem isSource rangeList rs))"

section \<open>Starting items\<close>

fun start_preferred :: "env \<Rightarrow> string list \<Rightarrow> preferred_routes list result" where
  "start_preferred V [] = Inr []"
| "start_preferred V (outboundTag # rest) =
     (case Outbounds V outboundTag of
        None \<Rightarrow> Inl (E_New [S ''outbound not found: '', S outboundTag])
      | Some (ty, None) \<Rightarrow> Inl (E_New [S ''outbound type does not support preferred routes: '', S ty])
      | Some (ty, Some routes) \<Rightarrow> bind_result (start_preferred V rest) (\<lambda>rs. Inr (routes # rs)))"

definition leaf_Start :: "env \<Rightarrow> ('dm, 'ag, 'ip) leaf_item \<Rightarrow> ('dm, 'ag, 'ip) leaf_item result" where
  "leaf_Start V item = (case item of
     ClashModeItem _ mode \<Rightarrow> Inr (ClashModeItem (ClashServer V \<noteq> None) mode)
   | PreferredByItem tags outs \<Rightarrow>
       bind_result (start_preferred V tags) (\<lambda>rs. Inr (PreferredByItem tags (outs @ rs)))
   | _ \<Rightarrow> Inr item)"

section \<open>Matching\<close>

text \<open>One definition per \<open>Match\<close> method; \<open>leaf_Match\<close> dispatches on the item's type.\<close>

text \<open>The host name a domain item looks at: the sniffed domain, else the destination's name.\<close>

definition domainHost :: "InboundContext \<Rightarrow> string" where
  "domainHost m = (if md_Domain m \<noteq> [] then md_Domain m else sa_Fqdn (md_Destination m))"

text \<open>\<open>filepath.Base\<close> on a slash-separated path.\<close>

definition path_Base :: "string \<Rightarrow> string" where
  "path_Base path =
     (if path = [] then ''.''
      else (let p = rev (dropWhile (\<lambda>c. c = CHR ''/'') (rev path)) in
            if p = [] then ''/'' else rev (takeWhile (\<lambda>c. c \<noteq> CHR ''/'') (rev p))))"

definition IPCIDR_Match :: "('dm, 'ag, 'ip) lib \<Rightarrow> 'ip \<Rightarrow> bool \<Rightarrow> InboundContext \<Rightarrow> bool" where
  "IPCIDR_Match L ipSet isSource m =
     (if isSource \<or> md_IPCIDRMatchSource m then IPSet_Contains L ipSet (sa_Addr (md_Source m))
      else if IsIP L (md_Destination m) then IPSet_Contains L ipSet (sa_Addr (md_Destination m))
      else if md_DestinationAddresses m \<noteq> [] then list_ex (IPSet_Contains L ipSet) (md_DestinationAddresses m)
      else md_IPCIDRAcceptEmpty m)"

definition IPIsPrivate_Match :: "('dm, 'ag, 'ip) lib \<Rightarrow> bool \<Rightarrow> InboundContext \<Rightarrow> bool" where
  "IPIsPrivate_Match L isSource m =
     (let destination = (if isSource then sa_Addr (md_Source m) else sa_Addr (md_Destination m)) in
      if Addr_IsValid destination then \<not> IsPublicAddr L destination
      else if \<not> isSource then list_ex (\<lambda>a. \<not> IsPublicAddr L a) (md_DestinationAddresses m)
      else False)"

definition PreferredBy_Match :: "preferred_routes list \<Rightarrow> ('dm, 'ag, 'ip) lib \<Rightarrow> InboundContext \<Rightarrow> bool" where
  "PreferredBy_Match outs L m =
     (domainHost m \<noteq> [] \<and> list_ex (\<lambda>o'. PreferredDomain o' (domainHost m)) outs
      \<or> IsIP L (md_Destination m) \<and> list_ex (\<lambda>o'. PreferredAddress o' (sa_Addr (md_Destination m))) outs
      \<or> list_ex (\<lambda>a. list_ex (\<lambda>o'. PreferredAddress o' a) outs) (md_DestinationAddresses m))"

definition InterfaceAddress_Match :: "env \<Rightarrow> (string \<times> Prefix list) list \<Rightarrow> bool" where
  "InterfaceAddress_Match V entries =
     list_all (\<lambda>(ifName, addresses).
       case find (\<lambda>it. if_Name it = ifName) (Interfaces V) of
         None \<Rightarrow> False
       | Some iface \<Rightarrow>
           if_Name iface \<noteq> [] \<and>
           \<not> list_all (\<lambda>address. list_all (\<lambda>it. \<not> Prefix_Overlaps address it) (if_Addresses iface)) addresses)
       entries"

definition NetworkInterfaceAddress_Match :: "env \<Rightarrow> (InterfaceType \<times> Prefix list) list \<Rightarrow> bool" where
  "NetworkInterfaceAddress_Match V entries =
     list_all (\<lambda>(ifType, addresses).
       list_ex (\<lambda>ni. if_Type ni = ifType \<and>
         list_ex (\<lambda>it. list_ex (\<lambda>p. Prefix_Overlaps p it) addresses) (if_Addresses ni)) (NetworkInterfaces V))
       entries"

definition DefaultInterfaceAddress_Match :: "env \<Rightarrow> Prefix list \<Rightarrow> bool" where
  "DefaultInterfaceAddress_Match V interfaceAddresses =
     (case DefaultInterface V of
        None \<Rightarrow> False
      | Some ni \<Rightarrow>
          list_all (\<lambda>address. \<not> list_all (\<lambda>it. \<not> Prefix_Overlaps address it) (if_Addresses ni)) interfaceAddresses)"

definition InboundItem_Match where [item_simps]:
  "InboundItem_Match inboundMap m =
     inboundMap (md_Inbound m)"

definition IPVersionItem_Match where [item_simps]:
  "IPVersionItem_Match L isIPv6 m =
     (md_IPVersion m \<noteq> 0 \<and> (md_IPVersion m = 6) = isIPv6 \<or>
      IsIP L (md_Destination m) \<and> IsIPv6 L (md_Destination m) = isIPv6)"

definition QueryTypeItem_Match where [item_simps]:
  "QueryTypeItem_Match typeMap m =
     (if md_QueryType m = 0 then False else typeMap (md_QueryType m))"

definition NetworkItem_Match where [item_simps]:
  "NetworkItem_Match networkMap m =
     networkMap (md_Network m)"

definition AuthUserItem_Match where [item_simps]:
  "AuthUserItem_Match userMap m =
     userMap (md_User m)"

definition ProtocolItem_Match where [item_simps]:
  "ProtocolItem_Match protocolMap m =
     protocolMap (md_Protocol m)"

definition ClientItem_Match where [item_simps]:
  "ClientItem_Match clientMap m =
     clientMap (md_Client m)"

definition DomainItem_Match where [item_simps]:
  "DomainItem_Match L matcher m =
     (if domainHost m = [] then False else Matcher_Match L matcher (ToLower L (domainHost m)))"

definition DomainKeywordItem_Match where [item_simps]:
  "DomainKeywordItem_Match L keywords m =
     (if domainHost m = [] then False
      else list_ex (\<lambda>keyword. str_Contains (ToLower L (domainHost m)) keyword) keywords)"

definition DomainRegexItem_Match where [item_simps]:
  "DomainRegexItem_Match L matchers m =
     (if domainHost m = [] then False
      else list_ex (\<lambda>matcher. matcher (ToLower L (domainHost m))) matchers)"

definition AdGuardDomainItem_Match where [item_simps]:
  "AdGuardDomainItem_Match L matcher m =
     (if domainHost m = [] then False else AdGuardMatcher_Match L matcher (ToLower L (domainHost m)))"

definition IPAcceptAnyItem_Match where [item_simps]:
  "IPAcceptAnyItem_Match m =
     (md_DestinationAddresses m \<noteq> [])"

definition PortItem_Match where [item_simps]:
  "PortItem_Match portMap isSource m =
     (if isSource then portMap (sa_Port (md_Source m)) else portMap (sa_Port (md_Destination m)))"

definition PortRangeItem_Match where [item_simps]:
  "PortRangeItem_Match isSource portRangeList m =
     (let port = (if isSource then sa_Port (md_Source m) else sa_Port (md_Destination m)) in
      list_ex (\<lambda>r. ri_start r \<le> port \<and> port \<le> ri_end r) portRangeList)"

definition TunnelSourceItem_Match where [item_simps]:
  "TunnelSourceItem_Match sourceMap m =
     sourceMap (md_TunnelSource m)"

definition TunnelDestinationItem_Match where [item_simps]:
  "TunnelDestinationItem_Match destinationMap m =
     destinationMap (md_TunnelDestination m)"

definition ProcessItem_Match where [item_simps]:
  "ProcessItem_Match processMap m =
     (case md_ProcessInfo m of None \<Rightarrow> False
      | Some p \<Rightarrow> if ProcessPath p = [] then False else processMap (path_Base (ProcessPath p)))"

definition ProcessPathItem_Match where [item_simps]:
  "ProcessPathItem_Match processMap m =
     (case md_ProcessInfo m of None \<Rightarrow> False
      | Some p \<Rightarrow> if ProcessPath p = [] then False else processMap (ProcessPath p))"

definition ProcessPathRegexItem_Match where [item_simps]:
  "ProcessPathRegexItem_Match matchers m =
     (case md_ProcessInfo m of None \<Rightarrow> False
      | Some p \<Rightarrow> if ProcessPath p = [] then False else list_ex (\<lambda>matcher. matcher (ProcessPath p)) matchers)"

definition PackageNameItem_Match where [item_simps]:
  "PackageNameItem_Match packageMap m =
     (case md_ProcessInfo m of None \<Rightarrow> False
      | Some p \<Rightarrow> if AndroidPackageName p = [] then False else packageMap (AndroidPackageName p))"

definition UserItem_Match where [item_simps]:
  "UserItem_Match userMap m =
     (case md_ProcessInfo m of None \<Rightarrow> False
      | Some p \<Rightarrow> if UserName p = [] then False else userMap (UserName p))"

definition UserIdItem_Match where [item_simps]:
  "UserIdItem_Match userIdMap m =
     (case md_ProcessInfo m of None \<Rightarrow> False
      | Some p \<Rightarrow> if UserId p = -1 then False else userIdMap (UserId p))"

definition OutboundItem_Match where [item_simps]:
  "OutboundItem_Match outboundMap matchAny m =
     (if matchAny then md_Outbound m \<noteq> [] else outboundMap (md_Outbound m))"

definition ClashModeItem_Match where [item_simps]:
  "ClashModeItem_Match L V started mode =
     (if \<not> started then False
      else (case ClashServer V of None \<Rightarrow> False | Some now \<Rightarrow> EqualFold L now mode))"

definition NetworkTypeItem_Match where [item_simps]:
  "NetworkTypeItem_Match V networkType =
     (case DefaultNetworkInterface V of None \<Rightarrow> False | Some ni \<Rightarrow> if_Type ni \<in> set networkType)"

definition NetworkIsExpensiveItem_Match where [item_simps]:
  "NetworkIsExpensiveItem_Match V =
     (case DefaultNetworkInterface V of None \<Rightarrow> False | Some ni \<Rightarrow> if_Expensive ni)"

definition NetworkIsConstrainedItem_Match where [item_simps]:
  "NetworkIsConstrainedItem_Match V =
     (case DefaultNetworkInterface V of None \<Rightarrow> False | Some ni \<Rightarrow> if_Constrained ni)"

definition WIFISSIDItem_Match where [item_simps]:
  "WIFISSIDItem_Match V ssidMap =
     ssidMap (WIFI_SSID V)"

definition WIFIBSSIDItem_Match where [item_simps]:
  "WIFIBSSIDItem_Match V bssidMap =
     bssidMap (WIFI_BSSID V)"

primrec leaf_Match ::
  "('dm, 'ag, 'ip) lib \<Rightarrow> env \<Rightarrow> ('dm, 'ag, 'ip) leaf_item \<Rightarrow> InboundContext \<Rightarrow> bool" where
  "leaf_Match L V (InboundItem _ inboundMap) m = InboundItem_Match inboundMap m"
| "leaf_Match L V (IPVersionItem isIPv6) m = IPVersionItem_Match L isIPv6 m"
| "leaf_Match L V (QueryTypeItem _ typeMap) m = QueryTypeItem_Match typeMap m"
| "leaf_Match L V (NetworkItem _ networkMap) m = NetworkItem_Match networkMap m"
| "leaf_Match L V (AuthUserItem _ userMap) m = AuthUserItem_Match userMap m"
| "leaf_Match L V (ProtocolItem _ protocolMap) m = ProtocolItem_Match protocolMap m"
| "leaf_Match L V (ClientItem _ clientMap) m = ClientItem_Match clientMap m"
| "leaf_Match L V (DomainItem matcher _) m = DomainItem_Match L matcher m"
| "leaf_Match L V (DomainKeywordItem keywords) m = DomainKeywordItem_Match L keywords m"
| "leaf_Match L V (DomainRegexItem matchers _) m = DomainRegexItem_Match L matchers m"
| "leaf_Match L V (AdGuardDomainItem matcher) m = AdGuardDomainItem_Match L matcher m"
| "leaf_Match L V (IPCIDRItem ipSet isSource _) m = IPCIDR_Match L ipSet isSource m"
| "leaf_Match L V (IPIsPrivateItem isSource) m = IPIsPrivate_Match L isSource m"
| "leaf_Match L V IPAcceptAnyItem m = IPAcceptAnyItem_Match m"
| "leaf_Match L V (PortItem _ portMap isSource) m = PortItem_Match portMap isSource m"
| "leaf_Match L V (PortRangeItem isSource _ portRangeList) m = PortRangeItem_Match isSource portRangeList m"
| "leaf_Match L V (TunnelSourceItem _ sourceMap) m = TunnelSourceItem_Match sourceMap m"
| "leaf_Match L V (TunnelDestinationItem _ destinationMap) m = TunnelDestinationItem_Match destinationMap m"
| "leaf_Match L V (ProcessItem _ processMap) m = ProcessItem_Match processMap m"
| "leaf_Match L V (ProcessPathItem _ processMap) m = ProcessPathItem_Match processMap m"
| "leaf_Match L V (ProcessPathRegexItem matchers _) m = ProcessPathRegexItem_Match matchers m"
| "leaf_Match L V (PackageNameItem _ packageMap) m = PackageNameItem_Match packageMap m"
| "leaf_Match L V (UserItem _ userMap) m = UserItem_Match userMap m"
| "leaf_Match L V (UserIdItem _ userIdMap) m = UserIdItem_Match userIdMap m"
| "leaf_Match L V (OutboundItem _ outboundMap matchAny) m = OutboundItem_Match outboundMap matchAny m"
| "leaf_Match L V (ClashModeItem started mode) m = ClashModeItem_Match L V started mode"
| "leaf_Match L V (NetworkTypeItem networkType) m = NetworkTypeItem_Match V networkType"
| "leaf_Match L V NetworkIsExpensiveItem m = NetworkIsExpensiveItem_Match V"
| "leaf_Match L V NetworkIsConstrainedItem m = NetworkIsConstrainedItem_Match V"
| "leaf_Match L V (WIFISSIDItem _ ssidMap) m = WIFISSIDItem_Match V ssidMap"
| "leaf_Match L V (WIFIBSSIDItem _ bssidMap) m = WIFIBSSIDItem_Match V bssidMap"
| "leaf_Match L V (InterfaceAddressItem entries) m = InterfaceAddress_Match V entries"
| "leaf_Match L V (NetworkInterfaceAddressItem entries) m = NetworkInterfaceAddress_Match V entries"
| "leaf_Match L V (DefaultInterfaceAddressItem addrs) m = DefaultInterfaceAddress_Match V addrs"
| "leaf_Match L V (PreferredByItem _ outs) m = PreferredBy_Match outs L m"

end
