(* ===== verification/Rule_Options.thy ===== *)
theory Rule_Options
  imports Inbound_Context
begin

text \<open>
  The option structs a configuration is decoded into (package \<open>option\<close>): conditions and actions of
  route, DNS and headless rules. A \<open>badoption.Listable\<close> is a slice that may be nil, a pointer an
  \<open>option\<close>, a \<open>*badjson.TypedMap\<close> the list of its entries. The zero value of a struct is spelled
  out because \<open>IsValid\<close> compares with it.
\<close>

section \<open>Shared option structs\<close>

record TLSFragmentOptions =
  tf_Enabled :: bool
  tf_Size :: string
  tf_Sleep :: string
  tf_Method :: string
  tf_Range :: string

definition zeroTLSFragmentOptions where
  "zeroTLSFragmentOptions = \<lparr>
     tf_Enabled = False, tf_Size = [], tf_Sleep = [], tf_Method = [], tf_Range = []\<rparr>"

record DomainResolveOptions =
  dro_Server :: string
  dro_Strategy :: DomainStrategy
  dro_DisableCache :: bool
  dro_RewriteTTL :: "32 word option"
  dro_ClientSubnet :: "Prefix option"

definition zeroDomainResolveOptions where
  "zeroDomainResolveOptions = \<lparr>
     dro_Server = [], dro_Strategy = 0, dro_DisableCache = False, dro_RewriteTTL = None,
     dro_ClientSubnet = None\<rparr>"

record DialerOptions =
  do_Detour :: string
  do_BindInterface :: string
  do_Inet4BindAddress :: "addr option"
  do_Inet6BindAddress :: "addr option"
  do_BindAddressNoPort :: bool
  do_ProtectPath :: string
  do_RoutingMark :: "32 word"
  do_ReuseAddr :: bool
  do_NetNs :: string
  do_ConnectTimeout :: duration
  do_TCPFastOpen :: bool
  do_TCPMultiPath :: bool
  do_DisableTCPKeepAlive :: bool
  do_TCPKeepAlive :: duration
  do_TCPKeepAliveInterval :: duration
  do_UDPFragment :: "bool option"
  do_UDPFragmentDefault :: bool
  do_DomainResolver :: "DomainResolveOptions option"
  do_NetworkStrategy :: "NetworkStrategy option"
  do_NetworkType :: "InterfaceType slice"
  do_FallbackNetworkType :: "InterfaceType slice"
  do_FallbackDelay :: duration
  do_DomainStrategy :: DomainStrategy
  do_TLSFragment :: TLSFragmentOptions

definition zeroDialerOptions where
  "zeroDialerOptions = \<lparr>
     do_Detour = [], do_BindInterface = [], do_Inet4BindAddress = None, do_Inet6BindAddress = None,
     do_BindAddressNoPort = False, do_ProtectPath = [], do_RoutingMark = 0, do_ReuseAddr = False,
     do_NetNs = [], do_ConnectTimeout = 0, do_TCPFastOpen = False, do_TCPMultiPath = False,
     do_DisableTCPKeepAlive = False, do_TCPKeepAlive = 0, do_TCPKeepAliveInterval = 0,
     do_UDPFragment = None, do_UDPFragmentDefault = False, do_DomainResolver = None,
     do_NetworkStrategy = None, do_NetworkType = None, do_FallbackNetworkType = None,
     do_FallbackDelay = 0, do_DomainStrategy = 0, do_TLSFragment = zeroTLSFragmentOptions\<rparr>"

section \<open>Rule actions\<close>

record RawRouteOptionsActionOptions =
  ro_OverrideAddress :: string
  ro_OverridePort :: "16 word"
  ro_OverrideTunnelDestination :: string
  ro_NetworkStrategy :: "NetworkStrategy option"
  ro_FallbackDelay :: "32 word"
  ro_UDPDisableDomainUnmapping :: bool
  ro_UDPConnect :: bool
  ro_UDPTimeout :: duration
  ro_TLSFragment :: bool
  ro_TLSFragmentFallbackDelay :: duration
  ro_TLSRecordFragment :: bool

definition zeroRawRouteOptionsActionOptions where
  "zeroRawRouteOptionsActionOptions = \<lparr>
     ro_OverrideAddress = [], ro_OverridePort = 0, ro_OverrideTunnelDestination = [],
     ro_NetworkStrategy = None, ro_FallbackDelay = 0, ro_UDPDisableDomainUnmapping = False,
     ro_UDPConnect = False, ro_UDPTimeout = 0, ro_TLSFragment = False,
     ro_TLSFragmentFallbackDelay = 0, ro_TLSRecordFragment = False\<rparr>"

record RouteActionOptions =
  ra_Outbound :: string
  ra_Raw :: RawRouteOptionsActionOptions

definition zeroRouteActionOptions where
  "zeroRouteActionOptions = \<lparr>ra_Outbound = [], ra_Raw = zeroRawRouteOptionsActionOptions\<rparr>"

record DNSRouteActionOptions =
  dra_Server :: string
  dra_Strategy :: DomainStrategy
  dra_DisableCache :: bool
  dra_RewriteTTL :: "32 word option"
  dra_ClientSubnet :: "Prefix option"
  dra_BypassIfFailed :: bool

definition zeroDNSRouteActionOptions where
  "zeroDNSRouteActionOptions = \<lparr>
     dra_Server = [], dra_Strategy = 0, dra_DisableCache = False, dra_RewriteTTL = None,
     dra_ClientSubnet = None, dra_BypassIfFailed = False\<rparr>"

record DNSRouteOptionsActionOptions =
  droa_Strategy :: DomainStrategy
  droa_DisableCache :: bool
  droa_RewriteTTL :: "32 word option"
  droa_ClientSubnet :: "Prefix option"

definition zeroDNSRouteOptionsActionOptions where
  "zeroDNSRouteOptionsActionOptions = \<lparr>
     droa_Strategy = 0, droa_DisableCache = False, droa_RewriteTTL = None, droa_ClientSubnet = None\<rparr>"

record RejectActionOptions =
  rj_Method :: string
  rj_NoDrop :: bool

definition zeroRejectActionOptions where
  "zeroRejectActionOptions = \<lparr>
     rj_Method = [], rj_NoDrop = False\<rparr>"

record RouteActionSniff =
  so_Sniffer :: "string slice"
  so_Timeout :: duration

definition zeroRouteActionSniff where
  "zeroRouteActionSniff = \<lparr>
     so_Sniffer = None, so_Timeout = 0\<rparr>"

record RouteActionResolve =
  rs_Server :: string
  rs_Strategy :: DomainStrategy
  rs_DisableCache :: bool
  rs_RewriteTTL :: "32 word option"
  rs_ClientSubnet :: "Prefix option"

definition zeroRouteActionResolve where
  "zeroRouteActionResolve = \<lparr>
     rs_Server = [], rs_Strategy = 0, rs_DisableCache = False, rs_RewriteTTL = None,
     rs_ClientSubnet = None\<rparr>"

text \<open>A DNS record: the owner name of its header, and the rest, which the rule engine never looks
  into.\<close>

record 'rr RR =
  rr_Name :: string
  rr_rest :: 'rr

record 'rr DNSRecordOptions =
  rec_RR :: "'rr RR"
  fromBase64 :: bool

record 'rr DNSRouteActionPredefined =
  pd_Rcode :: "int option"
  pd_Answer :: "'rr DNSRecordOptions slice"
  pd_Ns :: "'rr DNSRecordOptions slice"
  pd_Extra :: "'rr DNSRecordOptions slice"

definition zeroDNSRouteActionPredefined where
  "zeroDNSRouteActionPredefined = \<lparr>pd_Rcode = None, pd_Answer = None, pd_Ns = None, pd_Extra = None\<rparr>"

record RuleAction =
  ac_Action :: string
  ac_RouteOptions :: RouteActionOptions
  ac_RouteOptionsOptions :: RawRouteOptionsActionOptions
  ac_DirectOptions :: DialerOptions
  ac_BypassOptions :: RouteActionOptions
  ac_RejectOptions :: RejectActionOptions
  ac_SniffOptions :: RouteActionSniff
  ac_ResolveOptions :: RouteActionResolve

definition zeroRuleAction where
  "zeroRuleAction = \<lparr>
     ac_Action = [], ac_RouteOptions = zeroRouteActionOptions,
     ac_RouteOptionsOptions = zeroRawRouteOptionsActionOptions, ac_DirectOptions = zeroDialerOptions,
     ac_BypassOptions = zeroRouteActionOptions, ac_RejectOptions = zeroRejectActionOptions,
     ac_SniffOptions = zeroRouteActionSniff, ac_ResolveOptions = zeroRouteActionResolve\<rparr>"

record 'rr DNSRuleAction =
  da_Action :: string
  da_RouteOptions :: DNSRouteActionOptions
  da_RouteOptionsOptions :: DNSRouteOptionsActionOptions
  da_RejectOptions :: RejectActionOptions
  da_PredefinedOptions :: "'rr DNSRouteActionPredefined"

definition zeroDNSRuleAction where
  "zeroDNSRuleAction = \<lparr>
     da_Action = [], da_RouteOptions = zeroDNSRouteActionOptions,
     da_RouteOptionsOptions = zeroDNSRouteOptionsActionOptions,
     da_RejectOptions = zeroRejectActionOptions, da_PredefinedOptions = zeroDNSRouteActionPredefined\<rparr>"

section \<open>Conditions\<close>

record RawDefaultRule =
  dr_Inbound :: "string slice"
  dr_IPVersion :: int
  dr_Network :: "string slice"
  dr_AuthUser :: "string slice"
  dr_Protocol :: "string slice"
  dr_Client :: "string slice"
  dr_Domain :: "string slice"
  dr_DomainSuffix :: "string slice"
  dr_DomainKeyword :: "string slice"
  dr_DomainRegex :: "string slice"
  dr_Geosite :: "string slice"
  dr_SourceGeoIP :: "string slice"
  dr_GeoIP :: "string slice"
  dr_SourceIPCIDR :: "string slice"
  dr_SourceIPIsPrivate :: bool
  dr_IPCIDR :: "string slice"
  dr_IPIsPrivate :: bool
  dr_SourcePort :: "16 word slice"
  dr_SourcePortRange :: "string slice"
  dr_Port :: "16 word slice"
  dr_PortRange :: "string slice"
  dr_ProcessName :: "string slice"
  dr_ProcessPath :: "string slice"
  dr_ProcessPathRegex :: "string slice"
  dr_PackageName :: "string slice"
  dr_User :: "string slice"
  dr_UserID :: "int slice"
  dr_ClashMode :: string
  dr_NetworkType :: "InterfaceType slice"
  dr_NetworkIsExpensive :: bool
  dr_NetworkIsConstrained :: bool
  dr_WIFISSID :: "string slice"
  dr_WIFIBSSID :: "string slice"
  dr_RuleSet :: "string slice"
  dr_RuleSetIPCIDRMatchSource :: bool
  dr_Invert :: bool
  dr_Deprecated_RulesetIPCIDRMatchSource :: bool
  dr_TunnelSource :: "string slice"
  dr_TunnelDestination :: "string slice"
  dr_InterfaceAddress :: "(string \<times> Prefix option list) list option"
  dr_NetworkInterfaceAddress :: "(InterfaceType \<times> Prefix option list) list option"
  dr_DefaultInterfaceAddress :: "Prefix option slice"
  dr_PreferredBy :: "string slice"

definition zeroRawDefaultRule where
  "zeroRawDefaultRule = \<lparr>
     dr_Inbound = None, dr_IPVersion = 0, dr_Network = None, dr_AuthUser = None,
     dr_Protocol = None, dr_Client = None, dr_Domain = None, dr_DomainSuffix = None,
     dr_DomainKeyword = None, dr_DomainRegex = None, dr_Geosite = None, dr_SourceGeoIP = None,
     dr_GeoIP = None, dr_SourceIPCIDR = None, dr_SourceIPIsPrivate = False, dr_IPCIDR = None,
     dr_IPIsPrivate = False, dr_SourcePort = None, dr_SourcePortRange = None, dr_Port = None,
     dr_PortRange = None, dr_ProcessName = None, dr_ProcessPath = None, dr_ProcessPathRegex = None,
     dr_PackageName = None, dr_User = None, dr_UserID = None, dr_ClashMode = [],
     dr_NetworkType = None, dr_NetworkIsExpensive = False, dr_NetworkIsConstrained = False,
     dr_WIFISSID = None, dr_WIFIBSSID = None, dr_RuleSet = None,
     dr_RuleSetIPCIDRMatchSource = False, dr_Invert = False,
     dr_Deprecated_RulesetIPCIDRMatchSource = False, dr_TunnelSource = None,
     dr_TunnelDestination = None, dr_InterfaceAddress = None, dr_NetworkInterfaceAddress = None,
     dr_DefaultInterfaceAddress = None, dr_PreferredBy = None\<rparr>"

record RawDefaultDNSRule =
  dn_Inbound :: "string slice"
  dn_IPVersion :: int
  dn_QueryType :: "16 word slice"
  dn_Network :: "string slice"
  dn_AuthUser :: "string slice"
  dn_Protocol :: "string slice"
  dn_Domain :: "string slice"
  dn_DomainSuffix :: "string slice"
  dn_DomainKeyword :: "string slice"
  dn_DomainRegex :: "string slice"
  dn_Geosite :: "string slice"
  dn_SourceGeoIP :: "string slice"
  dn_GeoIP :: "string slice"
  dn_IPCIDR :: "string slice"
  dn_IPIsPrivate :: bool
  dn_IPAcceptAny :: bool
  dn_SourceIPCIDR :: "string slice"
  dn_SourceIPIsPrivate :: bool
  dn_SourcePort :: "16 word slice"
  dn_SourcePortRange :: "string slice"
  dn_Port :: "16 word slice"
  dn_PortRange :: "string slice"
  dn_ProcessName :: "string slice"
  dn_ProcessPath :: "string slice"
  dn_ProcessPathRegex :: "string slice"
  dn_PackageName :: "string slice"
  dn_User :: "string slice"
  dn_UserID :: "int slice"
  dn_Outbound :: "string slice"
  dn_ClashMode :: string
  dn_NetworkType :: "InterfaceType slice"
  dn_NetworkIsExpensive :: bool
  dn_NetworkIsConstrained :: bool
  dn_WIFISSID :: "string slice"
  dn_WIFIBSSID :: "string slice"
  dn_RuleSet :: "string slice"
  dn_RuleSetIPCIDRMatchSource :: bool
  dn_RuleSetIPCIDRAcceptEmpty :: bool
  dn_Invert :: bool
  dn_TunnelSource :: "string slice"
  dn_TunnelDestination :: "string slice"
  dn_InterfaceAddress :: "(string \<times> Prefix option list) list option"
  dn_NetworkInterfaceAddress :: "(InterfaceType \<times> Prefix option list) list option"
  dn_DefaultInterfaceAddress :: "Prefix option slice"
  dn_Deprecated_RulesetIPCIDRMatchSource :: bool

definition zeroRawDefaultDNSRule where
  "zeroRawDefaultDNSRule = \<lparr>
     dn_Inbound = None, dn_IPVersion = 0, dn_QueryType = None, dn_Network = None,
     dn_AuthUser = None, dn_Protocol = None, dn_Domain = None, dn_DomainSuffix = None,
     dn_DomainKeyword = None, dn_DomainRegex = None, dn_Geosite = None, dn_SourceGeoIP = None,
     dn_GeoIP = None, dn_IPCIDR = None, dn_IPIsPrivate = False, dn_IPAcceptAny = False,
     dn_SourceIPCIDR = None, dn_SourceIPIsPrivate = False, dn_SourcePort = None,
     dn_SourcePortRange = None, dn_Port = None, dn_PortRange = None, dn_ProcessName = None,
     dn_ProcessPath = None, dn_ProcessPathRegex = None, dn_PackageName = None, dn_User = None,
     dn_UserID = None, dn_Outbound = None, dn_ClashMode = [], dn_NetworkType = None,
     dn_NetworkIsExpensive = False, dn_NetworkIsConstrained = False, dn_WIFISSID = None,
     dn_WIFIBSSID = None, dn_RuleSet = None, dn_RuleSetIPCIDRMatchSource = False,
     dn_RuleSetIPCIDRAcceptEmpty = False, dn_Invert = False, dn_TunnelSource = None,
     dn_TunnelDestination = None, dn_InterfaceAddress = None, dn_NetworkInterfaceAddress = None,
     dn_DefaultInterfaceAddress = None, dn_Deprecated_RulesetIPCIDRMatchSource = False\<rparr>"

record ('dm, 'ag, 'ip) DefaultHeadlessRule =
  hr_QueryType :: "16 word slice"
  hr_Network :: "string slice"
  hr_Domain :: "string slice"
  hr_DomainSuffix :: "string slice"
  hr_DomainKeyword :: "string slice"
  hr_DomainRegex :: "string slice"
  hr_SourceIPCIDR :: "string slice"
  hr_IPCIDR :: "string slice"
  hr_SourcePort :: "16 word slice"
  hr_SourcePortRange :: "string slice"
  hr_Port :: "16 word slice"
  hr_PortRange :: "string slice"
  hr_ProcessName :: "string slice"
  hr_ProcessPath :: "string slice"
  hr_ProcessPathRegex :: "string slice"
  hr_PackageName :: "string slice"
  hr_NetworkType :: "InterfaceType slice"
  hr_NetworkIsExpensive :: bool
  hr_NetworkIsConstrained :: bool
  hr_WIFISSID :: "string slice"
  hr_WIFIBSSID :: "string slice"
  hr_Invert :: bool
  hr_DomainMatcher :: "'dm option"
  hr_SourceIPSet :: "'ip option"
  hr_IPSet :: "'ip option"
  hr_AdGuardDomain :: "string slice"
  hr_AdGuardDomainMatcher :: "'ag option"
  hr_TunnelSource :: "string slice"
  hr_TunnelDestination :: "string slice"
  hr_NetworkInterfaceAddress :: "(InterfaceType \<times> Prefix option list) list option"
  hr_DefaultInterfaceAddress :: "Prefix option slice"

definition zeroDefaultHeadlessRule where
  "zeroDefaultHeadlessRule = \<lparr>
     hr_QueryType = None, hr_Network = None, hr_Domain = None, hr_DomainSuffix = None,
     hr_DomainKeyword = None, hr_DomainRegex = None, hr_SourceIPCIDR = None, hr_IPCIDR = None,
     hr_SourcePort = None, hr_SourcePortRange = None, hr_Port = None, hr_PortRange = None,
     hr_ProcessName = None, hr_ProcessPath = None, hr_ProcessPathRegex = None,
     hr_PackageName = None, hr_NetworkType = None, hr_NetworkIsExpensive = False,
     hr_NetworkIsConstrained = False, hr_WIFISSID = None, hr_WIFIBSSID = None, hr_Invert = False,
     hr_DomainMatcher = None, hr_SourceIPSet = None, hr_IPSet = None, hr_AdGuardDomain = None,
     hr_AdGuardDomainMatcher = None, hr_TunnelSource = None, hr_TunnelDestination = None,
     hr_NetworkInterfaceAddress = None, hr_DefaultInterfaceAddress = None\<rparr>"

end
