(* ===== verification/Option_Rules.thy ===== *)
theory Option_Rules
  imports Rule_Options
begin

text \<open>
  The recursive rule options (\<open>Rule\<close>, \<open>DNSRule\<close>, \<open>HeadlessRule\<close> of package \<open>option\<close>), their
  validity checks and the versions of a rule-set. \<open>LogicalOptions\<close> is kept as its three fields
  \<open>Mode\<close>, \<open>Rules\<close>, \<open>Invert\<close> (and the action) inside the constructor, so that the recursion through
  \<open>Rules\<close> is structural. \<open>reflect.DeepEqual\<close> with a zero value is equality of records.
\<close>

section \<open>Constants\<close>

abbreviation RuleTypeDefault :: string where "RuleTypeDefault \<equiv> ''default''"
abbreviation RuleTypeLogical :: string where "RuleTypeLogical \<equiv> ''logical''"
abbreviation LogicalTypeAnd :: string where "LogicalTypeAnd \<equiv> ''and''"
abbreviation LogicalTypeOr :: string where "LogicalTypeOr \<equiv> ''or''"

text \<open>\<open>common.All\<close> with a predicate that may panic.\<close>

fun all_result :: "('x \<Rightarrow> bool result) \<Rightarrow> 'x list \<Rightarrow> bool result" where
  "all_result f [] = Inr True"
| "all_result f (x # xs) = bind_result (f x) (\<lambda>b. if b then all_result f xs else Inr False)"

lemma all_result_cong [fundef_cong]:
  assumes "xs = ys" and "\<And>x. x \<in> set ys \<Longrightarrow> f x = g x"
  shows "all_result f xs = all_result g ys"
proof -
  have "all_result f ys = all_result g ys" if "\<And>x. x \<in> set ys \<Longrightarrow> f x = g x"
    using that by (induction ys) (auto intro!: arg_cong2 [where f = bind_result])
  then show ?thesis using assms by simp
qed

lemma all_result_True: "all_result f xs = Inr True \<longleftrightarrow> (\<forall>x\<in>set xs. f x = Inr True)"
  by (induction xs) (auto simp: bind_result_Inr_iff)

text \<open>\<open>E.Cause(err, "sub rule[", i, "]")\<close>\<close>

definition sub_rule_error :: "nat \<Rightarrow> error \<Rightarrow> error" where
  "sub_rule_error i err = E_Cause err [S ''sub rule['', N i, S '']'']"

section \<open>Headless rules and rule-sets\<close>

definition DefaultHeadlessRule_IsValid :: "('dm, 'ag, 'ip) DefaultHeadlessRule \<Rightarrow> bool" where
  "DefaultHeadlessRule_IsValid r \<longleftrightarrow> r \<noteq> zeroDefaultHeadlessRule\<lparr>hr_Invert := hr_Invert r\<rparr>"

datatype (dead 'dm, dead 'ag, dead 'ip) HeadlessRule =
  HeadlessRule (hl_Type: string) (hl_Default: "('dm, 'ag, 'ip) DefaultHeadlessRule")
    (hl_Mode: string) (hl_Rules: "('dm, 'ag, 'ip) HeadlessRule list") (hl_Invert: bool)

fun HeadlessRule_IsValid :: "('dm, 'ag, 'ip) HeadlessRule \<Rightarrow> bool result" where
  "HeadlessRule_IsValid (HeadlessRule ty d mode rules neg) =
     (if ty = RuleTypeDefault \<or> ty = [] then Inr (DefaultHeadlessRule_IsValid d)
      else if ty = RuleTypeLogical
      then (if length rules > 0 then all_result HeadlessRule_IsValid rules else Inr False)
      else Inl (Panic [S ''unknown rule type: '', S ty]))"

definition LogicalHeadlessRule_IsValid :: "('dm, 'ag, 'ip) HeadlessRule list \<Rightarrow> bool result" where
  "LogicalHeadlessRule_IsValid rules =
     (if length rules > 0 then all_result HeadlessRule_IsValid rules else Inr False)"

record ('dm, 'ag, 'ip) PlainRuleSetCompat =
  rsc_Version :: "8 word"
  rsc_Rules :: "('dm, 'ag, 'ip) HeadlessRule list"

definition RuleSetVersion1 :: "8 word" where "RuleSetVersion1 = 1"
definition RuleSetVersion2 :: "8 word" where "RuleSetVersion2 = 2"
definition RuleSetVersion3 :: "8 word" where "RuleSetVersion3 = 3"
definition RuleSetVersion4 :: "8 word" where "RuleSetVersion4 = 4"
definition RuleSetVersionCurrent :: "8 word" where "RuleSetVersionCurrent = RuleSetVersion4"

lemmas ruleset_versions =
  RuleSetVersion1_def RuleSetVersion2_def RuleSetVersion3_def RuleSetVersion4_def RuleSetVersionCurrent_def

definition Upgrade ::
  "('dm, 'ag, 'ip) PlainRuleSetCompat \<Rightarrow> ('dm, 'ag, 'ip) HeadlessRule list result" where
  "Upgrade r =
     (if rsc_Version r \<in> {RuleSetVersion1, RuleSetVersion2, RuleSetVersion3, RuleSetVersion4}
      then Inr (rsc_Rules r)
      else Inl (E_New [S (''unknown rule-set version: '' @ Itoa (unat (rsc_Version r)))]))"

section \<open>Route rules\<close>

record DefaultRule =
  rule_Raw :: RawDefaultRule
  rule_Action :: RuleAction

definition zeroDefaultRule :: DefaultRule where
  "zeroDefaultRule = \<lparr>rule_Raw = zeroRawDefaultRule, rule_Action = zeroRuleAction\<rparr>"

definition DefaultRule_IsValid :: "DefaultRule \<Rightarrow> bool" where
  "DefaultRule_IsValid r \<longleftrightarrow>
     r \<noteq> zeroDefaultRule\<lparr>rule_Raw := zeroRawDefaultRule\<lparr>dr_Invert := dr_Invert (rule_Raw r)\<rparr>\<rparr>"

datatype Rule =
  Rule (ru_Type: string) (ru_Default: DefaultRule)
    (ru_Mode: string) (ru_Rules: "Rule list") (ru_Invert: bool) (ru_Action: RuleAction)

fun Rule_IsValid :: "Rule \<Rightarrow> bool result" where
  "Rule_IsValid (Rule ty d mode rules neg act) =
     (if ty = RuleTypeDefault then Inr (DefaultRule_IsValid d)
      else if ty = RuleTypeLogical
      then (if length rules > 0 then all_result Rule_IsValid rules else Inr False)
      else Inl (Panic [S ''unknown rule type: '', S ty]))"

definition LogicalRule_IsValid :: "Rule list \<Rightarrow> bool result" where
  "LogicalRule_IsValid rules = (if length rules > 0 then all_result Rule_IsValid rules else Inr False)"

section \<open>DNS rules\<close>

record 'rr DefaultDNSRule =
  dnsrule_Raw :: RawDefaultDNSRule
  dnsrule_Action :: "'rr DNSRuleAction"

definition zeroDefaultDNSRule :: "'rr DefaultDNSRule" where
  "zeroDefaultDNSRule = \<lparr>dnsrule_Raw = zeroRawDefaultDNSRule, dnsrule_Action = zeroDNSRuleAction\<rparr>"

definition DefaultDNSRule_IsValid :: "'rr DefaultDNSRule \<Rightarrow> bool" where
  "DefaultDNSRule_IsValid r \<longleftrightarrow>
     r \<noteq> zeroDefaultDNSRule\<lparr>dnsrule_Raw := zeroRawDefaultDNSRule\<lparr>dn_Invert := dn_Invert (dnsrule_Raw r)\<rparr>\<rparr>"

datatype (dead 'rr) DNSRule =
  DNSRule (dl_Type: string) (dl_Default: "'rr DefaultDNSRule")
    (dl_Mode: string) (dl_Rules: "'rr DNSRule list") (dl_Invert: bool) (dl_Action: "'rr DNSRuleAction")

fun DNSRule_IsValid :: "'rr DNSRule \<Rightarrow> bool result" where
  "DNSRule_IsValid (DNSRule ty d mode rules neg act) =
     (if ty = RuleTypeDefault then Inr (DefaultDNSRule_IsValid d)
      else if ty = RuleTypeLogical
      then (if length rules > 0 then all_result DNSRule_IsValid rules else Inr False)
      else Inl (Panic [S ''unknown DNS rule type: '', S ty]))"

definition LogicalDNSRule_IsValid :: "'rr DNSRule list \<Rightarrow> bool result" where
  "LogicalDNSRule_IsValid rules = (if length rules > 0 then all_result DNSRule_IsValid rules else Inr False)"

end
