(* ===== verification/Headless_Rules.thy ===== *)
theory Headless_Rules
  imports Rule_Builder Rule_Items Option_Rules
begin

text \<open>
  Headless rules (\<open>route/rule/rule_headless.go\<close>): the rules a rule-set consists of. Their items are
  the leaf items, which only read the metadata, so \<open>pure_item\<close> is interpreted here on
  \<open>leaf_Match\<close> and gives the meaning of a default rule; \<open>headless_holds\<close> extends it to logical rules.
\<close>

section \<open>Leaf items are pure\<close>

lemma leaf_Match_base: "leaf_Match L V i (base c) = leaf_Match L V i c"
  by (cases i)
    (simp_all add: base_def item_simps domainHost_def IPCIDR_Match_def IPIsPrivate_Match_def PreferredBy_Match_def
      cong: option.case_cong)

definition leaf_im :: "('dm, 'ag, 'ip) lib \<Rightarrow> env \<Rightarrow> ('dm, 'ag, 'ip) leaf_item item_match" where
  "leaf_im L V i c = (leaf_Match L V i c, c)"

interpretation leaf: pure_item "leaf_Match L V" "leaf_im L V" "\<lambda>_. False"
  by unfold_locales (simp_all add: leaf_im_def leaf_Match_base)

section \<open>Construction\<close>

datatype (dead 'dm, dead 'ag, dead 'ip) headless_rule =
    DefaultHeadless "(('dm, 'ag, 'ip) leaf_item, unit) abstractDefaultRule"
  | LogicalHeadless "('dm, 'ag, 'ip) headless_rule list" mode bool

type_synonym ('dm, 'ag, 'ip) leaf_step = "(('dm, 'ag, 'ip) leaf_item, unit) build_step"

definition headless_address_steps ::
  "('dm, 'ag, 'ip) lib \<Rightarrow> ('dm, 'ag, 'ip) DefaultHeadlessRule \<Rightarrow> ('dm, 'ag, 'ip) leaf_step list" where
  "headless_address_steps L o' = [
     opt_item (nonempty (hr_Network o')) Items (Inr (NewNetworkItem (elems (hr_Network o')))),
     (if nonempty (hr_Domain o') \<or> nonempty (hr_DomainSuffix o')
      then opt_item True DestinationAddress (NewDomainItem L (elems (hr_Domain o')) (elems (hr_DomainSuffix o')))
      else opt_item (not_nil (hr_DomainMatcher o')) DestinationAddress
             (Inr (NewRawDomainItem (the (hr_DomainMatcher o'))))),
     opt_item (nonempty (hr_DomainKeyword o')) DestinationAddress
       (Inr (NewDomainKeywordItem (elems (hr_DomainKeyword o')))),
     opt_item (nonempty (hr_DomainRegex o')) DestinationAddress
       (cause ''domain_regex'' (NewDomainRegexItem L (elems (hr_DomainRegex o')))),
     (if nonempty (hr_SourceIPCIDR o')
      then opt_item True SourceAddress (cause ''source_ip_cidr'' (NewIPCIDRItem L True (elems (hr_SourceIPCIDR o'))))
      else opt_item (not_nil (hr_SourceIPSet o')) SourceAddress
             (Inr (NewRawIPCIDRItem True (the (hr_SourceIPSet o'))))),
     (if nonempty (hr_IPCIDR o')
      then opt_item True DestinationIPCIDR (cause ''ipcidr'' (NewIPCIDRItem L False (elems (hr_IPCIDR o'))))
      else opt_item (not_nil (hr_IPSet o')) DestinationIPCIDR
             (Inr (NewRawIPCIDRItem False (the (hr_IPSet o'))))),
     opt_item (nonempty (hr_SourcePort o')) SourcePort (Inr (NewPortItem True (elems (hr_SourcePort o')))),
     opt_item (nonempty (hr_SourcePortRange o')) SourcePort
       (cause ''source_port_range'' (NewPortRangeItem True (elems (hr_SourcePortRange o')))),
     opt_item (nonempty (hr_Port o')) DestinationPort (Inr (NewPortItem False (elems (hr_Port o')))),
     opt_item (nonempty (hr_PortRange o')) DestinationPort
       (cause ''port_range'' (NewPortRangeItem False (elems (hr_PortRange o'))))]"

text \<open>\<open>nm\<close> tells whether the context has a network manager.\<close>

definition headless_process_steps ::
  "('dm, 'ag, 'ip) lib \<Rightarrow> bool \<Rightarrow> ('dm, 'ag, 'ip) DefaultHeadlessRule \<Rightarrow> ('dm, 'ag, 'ip) leaf_step list" where
  "headless_process_steps L nm o' = [
     opt_item (nonempty (hr_TunnelSource o')) Items (Inr (NewTunnelSourceItem (elems (hr_TunnelSource o')))),
     opt_item (nonempty (hr_TunnelDestination o')) Items
       (Inr (NewTunnelDestinationItem (elems (hr_TunnelDestination o')))),
     opt_item (nonempty (hr_ProcessName o')) Items (Inr (NewProcessItem (elems (hr_ProcessName o')))),
     opt_item (nonempty (hr_ProcessPath o')) Items (Inr (NewProcessPathItem (elems (hr_ProcessPath o')))),
     opt_item (nonempty (hr_ProcessPathRegex o')) Items
       (cause ''process_path_regex'' (NewProcessPathRegexItem L (elems (hr_ProcessPathRegex o')))),
     opt_item (nonempty (hr_PackageName o')) Items (Inr (NewPackageNameItem (elems (hr_PackageName o')))),
     opt_item (nm \<and> nonempty (hr_NetworkType o')) Items (Inr (NewNetworkTypeItem (elems (hr_NetworkType o')))),
     opt_item (nm \<and> hr_NetworkIsExpensive o') Items (Inr NetworkIsExpensiveItem),
     opt_item (nm \<and> hr_NetworkIsConstrained o') Items (Inr NetworkIsConstrainedItem),
     opt_item (nm \<and> nonempty (hr_WIFISSID o')) Items (Inr (NewWIFISSIDItem (elems (hr_WIFISSID o')))),
     opt_item (nm \<and> nonempty (hr_WIFIBSSID o')) Items (Inr (NewWIFIBSSIDItem (elems (hr_WIFIBSSID o')))),
     opt_item (nm \<and> nonempty (hr_NetworkInterfaceAddress o')) Items
       (Inr (NewNetworkInterfaceAddressItem L (elems (hr_NetworkInterfaceAddress o')))),
     opt_item (nm \<and> nonempty (hr_DefaultInterfaceAddress o')) Items
       (Inr (NewDefaultInterfaceAddressItem L (elems (hr_DefaultInterfaceAddress o')))),
     (if nonempty (hr_AdGuardDomain o')
      then opt_item True DestinationAddress (Inr (NewAdGuardDomainItem L (elems (hr_AdGuardDomain o'))))
      else opt_item (not_nil (hr_AdGuardDomainMatcher o')) DestinationAddress
             (Inr (NewRawAdGuardDomainItem (the (hr_AdGuardDomainMatcher o')))))]"

definition NewDefaultHeadlessRule ::
  "('dm, 'ag, 'ip) lib \<Rightarrow> bool \<Rightarrow> ('dm, 'ag, 'ip) DefaultHeadlessRule \<Rightarrow>
   (('dm, 'ag, 'ip) leaf_item, unit) abstractDefaultRule result" where
  "NewDefaultHeadlessRule L nm o' =
     run_steps (headless_address_steps L o' @ headless_process_steps L nm o') (empty_rule (hr_Invert o') None)"

text \<open>The mode switch of the logical constructors.\<close>

definition parse_mode :: "string \<Rightarrow> mode result" where
  "parse_mode s = (if s = LogicalTypeAnd then Inr ModeAnd else if s = LogicalTypeOr then Inr ModeOr
     else Inl (E_New [S ''unknown logical mode: '', S s]))"

text \<open>\<open>if !options.IsValid() { return nil, E.New("missing conditions") }\<close>\<close>

definition require_valid :: "bool result \<Rightarrow> 'x result \<Rightarrow> 'x result" where
  "require_valid v k = bind_result v (\<lambda>b. if b then k else Inl (E_New [S ''missing conditions'']))"

lemma require_valid_Inr [simp]: "require_valid v k = Inr x \<longleftrightarrow> v = Inr True \<and> k = Inr x"
  by (auto simp: require_valid_def bind_result_Inr_iff)

lemma require_valid_cong [fundef_cong]: "v = v' \<Longrightarrow> k = k' \<Longrightarrow> require_valid v k = require_valid v' k'"
  by simp

text \<open>\<open>NewLogicalHeadlessRule\<close>: the mode is checked before the sub-rules (\<open>rules\<close>, the outcome of
  building them) are.\<close>

definition NewLogicalHeadlessRule ::
  "string \<Rightarrow> ('dm, 'ag, 'ip) headless_rule list result \<Rightarrow> bool \<Rightarrow> ('dm, 'ag, 'ip) headless_rule result" where
  "NewLogicalHeadlessRule md rules neg =
     bind_result (parse_mode md) (\<lambda>m. bind_result rules (\<lambda>rs. Inr (LogicalHeadless rs m neg)))"

lemma NewLogicalHeadlessRule_Inr [simp]:
  "NewLogicalHeadlessRule md rules neg = Inr r \<longleftrightarrow>
     (\<exists>m rs. parse_mode md = Inr m \<and> rules = Inr rs \<and> r = LogicalHeadless rs m neg)"
  by (auto simp: NewLogicalHeadlessRule_def bind_result_Inr_iff)

fun NewHeadlessRule ::
  "('dm, 'ag, 'ip) lib \<Rightarrow> bool \<Rightarrow> ('dm, 'ag, 'ip) HeadlessRule \<Rightarrow> ('dm, 'ag, 'ip) headless_rule result" where
  "NewHeadlessRule L nm (HeadlessRule ty d md rules neg) =
     (if ty = [] \<or> ty = RuleTypeDefault
      then require_valid (Inr (DefaultHeadlessRule_IsValid d))
             (bind_result (NewDefaultHeadlessRule L nm d) (\<lambda>r. Inr (DefaultHeadless r)))
      else if ty = RuleTypeLogical
      then require_valid (LogicalHeadlessRule_IsValid rules)
             (NewLogicalHeadlessRule md (map_result sub_rule_error 0 (NewHeadlessRule L nm) rules) neg)
      else Inl (E_New [S ''unknown rule type: '', S ty]))"

section \<open>Matching\<close>

fun headless_Match ::
  "('dm, 'ag, 'ip) lib \<Rightarrow> env \<Rightarrow> ('dm, 'ag, 'ip) headless_rule \<Rightarrow> InboundContext \<Rightarrow> bool \<times> InboundContext" where
  "headless_Match L V (DefaultHeadless r) c = adr_Match (leaf_im L V) (\<lambda>_. False) r c"
| "headless_Match L V (LogicalHeadless rs md neg) c = logical_Match (headless_Match L V) rs md neg c"

text \<open>The declarative meaning of a headless rule on a connection whose rule cache is empty.\<close>

fun headless_holds :: "('dm, 'ag, 'ip) lib \<Rightarrow> env \<Rightarrow> ('dm, 'ag, 'ip) headless_rule \<Rightarrow> InboundContext \<Rightarrow> bool" where
  "headless_holds L V (DefaultHeadless r) c = rule_holds (leaf_Match L V) r c"
| "headless_holds L V (LogicalHeadless rs md neg) c =
     ((case md of ModeAnd \<Rightarrow> list_all (\<lambda>r. headless_holds L V r c) rs
                | ModeOr \<Rightarrow> list_ex (\<lambda>r. headless_holds L V r c) rs) \<noteq> neg)"

lemma headless_Match_frame: "core (snd (headless_Match L V r c)) = core c"
proof (induction r arbitrary: c)
  case (DefaultHeadless r)
  show ?case by (simp add: leaf.adr_Match_frame)
next
  case (LogicalHeadless rs md neg)
  show ?case
  proof (cases md)
    case ModeAnd
    have "core (snd (all_st (\<lambda>r c. headless_Match L V r (ResetRuleCache c)) rs d)) = core d" for d
      using LogicalHeadless
      by (induction rs arbitrary: d) (auto split: prod.splits, metis core_updates(10) snd_conv, metis core_updates(10) snd_conv)
    then show ?thesis using ModeAnd by (simp add: logical_Match_def Let_def case_prod_beta)
  next
    case ModeOr
    have "core (snd (any_st (\<lambda>r c. headless_Match L V r (ResetRuleCache c)) rs d)) = core d" for d
      using LogicalHeadless
      by (induction rs arbitrary: d) (auto split: prod.splits, metis core_updates(10) snd_conv, metis core_updates(10) snd_conv)
    then show ?thesis using ModeOr by (simp add: logical_Match_def Let_def case_prod_beta)
  qed
qed

lemma headless_Match_holds:
  "fst (headless_Match L V r (ResetRuleCache c)) = headless_holds L V r (core c)"
proof (induction r arbitrary: c)
  case (DefaultHeadless r)
  show ?case by (simp add: leaf.adr_Match_im core_def)
next
  case (LogicalHeadless rs md neg)
  have "fst (logical_Match (headless_Match L V) rs md neg (ResetRuleCache c)) =
      logical_holds (\<lambda>r. headless_holds L V r (core (ResetRuleCache c))) rs md neg"
    by (rule logical_Match_spec) (auto simp: LogicalHeadless.IH headless_Match_frame)
  then show ?case by (cases md) (simp_all add: logical_holds_def)
qed

end
