(* ===== verification/Rule_Sets.thy ===== *)
theory Rule_Sets
  imports Headless_Rules
begin

text \<open>
  Rule-sets (\<open>route/rule/rule_set.go\<close>, \<open>rule_set_local.go\<close>, \<open>rule_set_remote.go\<close>) and the rule item that
  refers to them (\<open>rule_item_rule_set.go\<close>). A rule-set is a record that the owner of the router
  mutates (reloads, reference counts, callbacks); an item refers to it by its tag, and reads the
  current state of the store \<open>tag \<rightharpoonup> rule_set\<close>.
\<close>

section \<open>What a rule-set contains\<close>

fun extractIPSetFromRule :: "('dm, 'ag, 'ip) headless_rule \<Rightarrow> 'ip list" where
  "extractIPSetFromRule (DefaultHeadless rule) =
     concat (map (\<lambda>item. case item of IPCIDRItem ipSet _ _ \<Rightarrow> [ipSet] | _ \<Rightarrow> []) (destinationIPCIDRItems rule))"
| "extractIPSetFromRule (LogicalHeadless rules _ _) = concat (map extractIPSetFromRule rules)"

fun HasHeadlessRule ::
  "(('dm, 'ag, 'ip) DefaultHeadlessRule \<Rightarrow> bool) \<Rightarrow> ('dm, 'ag, 'ip) HeadlessRule \<Rightarrow> bool" where
  "HasHeadlessRule cond (HeadlessRule ty d _ rules _) =
     (if ty = RuleTypeDefault then cond d
      else if ty = RuleTypeLogical then list_ex (HasHeadlessRule cond) rules
      else False)"

text \<open>\<open>HasHeadlessRule(rules, cond)\<close> on a slice of rules.\<close>

definition HasHeadlessRules ::
  "(('dm, 'ag, 'ip) DefaultHeadlessRule \<Rightarrow> bool) \<Rightarrow> ('dm, 'ag, 'ip) HeadlessRule list \<Rightarrow> bool" where
  "HasHeadlessRules cond rules = list_ex (HasHeadlessRule cond) rules"

definition isProcessHeadlessRule :: "('dm, 'ag, 'ip) DefaultHeadlessRule \<Rightarrow> bool" where
  "isProcessHeadlessRule r \<longleftrightarrow> nonempty (hr_ProcessName r) \<or> nonempty (hr_ProcessPath r)
     \<or> nonempty (hr_ProcessPathRegex r) \<or> nonempty (hr_PackageName r)"

definition isWIFIHeadlessRule :: "('dm, 'ag, 'ip) DefaultHeadlessRule \<Rightarrow> bool" where
  "isWIFIHeadlessRule r \<longleftrightarrow> nonempty (hr_WIFISSID r) \<or> nonempty (hr_WIFIBSSID r)"

definition isIPCIDRHeadlessRule :: "('dm, 'ag, 'ip) DefaultHeadlessRule \<Rightarrow> bool" where
  "isIPCIDRHeadlessRule r \<longleftrightarrow> nonempty (hr_IPCIDR r) \<or> not_nil (hr_IPSet r)"

record RuleSetMetadata =
  ContainsProcessRule :: bool
  ContainsWIFIRule :: bool
  ContainsIPCIDRRule :: bool

definition compute_metadata :: "('dm, 'ag, 'ip) HeadlessRule list \<Rightarrow> RuleSetMetadata" where
  "compute_metadata rules = \<lparr>
     ContainsProcessRule = HasHeadlessRules isProcessHeadlessRule rules,
     ContainsWIFIRule = HasHeadlessRules isWIFIHeadlessRule rules,
     ContainsIPCIDRRule = HasHeadlessRules isIPCIDRHeadlessRule rules\<rparr>"

section \<open>The state a local and a remote rule-set share\<close>

text \<open>
  \<open>rs_callbacks\<close> is the list of registered callbacks with the identity of their list element,
  \<open>rs_next\<close> the next identity. \<open>rs_refs\<close> is the atomic reference counter.
\<close>

record ('dm, 'ag, 'ip, 'cb) rule_set =
  rs_tag :: string
  rs_rules :: "('dm, 'ag, 'ip) headless_rule list"
  rs_metadata :: RuleSetMetadata
  rs_callbacks :: "(nat \<times> 'cb) list"
  rs_next :: nat
  rs_refs :: int

definition RuleSet_ExtractIPSet :: "('dm, 'ag, 'ip, 'cb, 'z) rule_set_scheme \<Rightarrow> 'ip list" where
  "RuleSet_ExtractIPSet s = concat (map extractIPSetFromRule (rs_rules s))"

definition IncRef :: "('dm, 'ag, 'ip, 'cb, 'z) rule_set_scheme \<Rightarrow> ('dm, 'ag, 'ip, 'cb, 'z) rule_set_scheme" where
  "IncRef s = s\<lparr>rs_refs := rs_refs s + 1\<rparr>"

definition DecRef ::
  "('dm, 'ag, 'ip, 'cb, 'z) rule_set_scheme \<Rightarrow> ('dm, 'ag, 'ip, 'cb, 'z) rule_set_scheme result" where
  "DecRef s = (let s' = s\<lparr>rs_refs := rs_refs s - 1\<rparr> in
     if rs_refs s' < 0 then Inl (Panic [S ''rule-set: negative refs'']) else Inr s')"

definition Cleanup :: "('dm, 'ag, 'ip, 'cb, 'z) rule_set_scheme \<Rightarrow> ('dm, 'ag, 'ip, 'cb, 'z) rule_set_scheme" where
  "Cleanup s = (if rs_refs s = 0 then s\<lparr>rs_rules := []\<rparr> else s)"

definition RegisterCallback ::
  "'cb \<Rightarrow> ('dm, 'ag, 'ip, 'cb, 'z) rule_set_scheme \<Rightarrow> nat \<times> ('dm, 'ag, 'ip, 'cb, 'z) rule_set_scheme" where
  "RegisterCallback cb s =
     (rs_next s, s\<lparr>rs_callbacks := rs_callbacks s @ [(rs_next s, cb)], rs_next := Suc (rs_next s)\<rparr>)"

definition UnregisterCallback ::
  "nat \<Rightarrow> ('dm, 'ag, 'ip, 'cb, 'z) rule_set_scheme \<Rightarrow> ('dm, 'ag, 'ip, 'cb, 'z) rule_set_scheme" where
  "UnregisterCallback element s = s\<lparr>rs_callbacks := filter (\<lambda>(e, _). e \<noteq> element) (rs_callbacks s)\<rparr>"

definition RuleSet_Match ::
  "('dm, 'ag, 'ip) lib \<Rightarrow> env \<Rightarrow> ('dm, 'ag, 'ip, 'cb, 'z) rule_set_scheme \<Rightarrow> InboundContext \<Rightarrow>
   bool \<times> InboundContext" where
  "RuleSet_Match L V s c = any_st (headless_Match L V) (rs_rules s) c"

text \<open>\<open>E.Cause(err, "parse rule_set.rules.[", i, "]")\<close>\<close>

definition parse_rule_error :: "nat \<Rightarrow> error \<Rightarrow> error" where
  "parse_rule_error i err = E_Cause err [S ''parse rule_set.rules.['', N i, S '']'']"

text \<open>
  \<open>reloadRules\<close>: all rules are built before anything is replaced; the second component is the
  snapshot of the callbacks that are then called, in order.
\<close>

definition reloadRules ::
  "('dm, 'ag, 'ip) lib \<Rightarrow> bool \<Rightarrow> ('dm, 'ag, 'ip) HeadlessRule list \<Rightarrow> ('dm, 'ag, 'ip, 'cb, 'z) rule_set_scheme \<Rightarrow>
   (('dm, 'ag, 'ip, 'cb, 'z) rule_set_scheme \<times> 'cb list) result" where
  "reloadRules L nm headlessRules s =
     bind_result (map_result parse_rule_error 0 (NewHeadlessRule L nm) headlessRules) (\<lambda>rules.
       Inr (s\<lparr>rs_rules := rules, rs_metadata := compute_metadata headlessRules\<rparr>, map snd (rs_callbacks s)))"

section \<open>Local rule-sets\<close>

abbreviation RuleSetTypeInline :: string where "RuleSetTypeInline \<equiv> ''inline''"
abbreviation RuleSetTypeLocal :: string where "RuleSetTypeLocal \<equiv> ''local''"
abbreviation RuleSetTypeRemote :: string where "RuleSetTypeRemote \<equiv> ''remote''"
abbreviation RuleSetFormatSource :: string where "RuleSetFormatSource \<equiv> ''source''"
abbreviation RuleSetFormatBinary :: string where "RuleSetFormatBinary \<equiv> ''binary''"

record RemoteRuleSetOptions =
  URL :: string
  DownloadDetour :: string
  UpdateInterval :: duration

record ('dm, 'ag, 'ip) RuleSetOptions =
  ro_Type :: string
  ro_Tag :: string
  ro_Format :: string
  ro_Inline :: "('dm, 'ag, 'ip) HeadlessRule list"
  ro_LocalPath :: string
  ro_Remote :: RemoteRuleSetOptions

text \<open>
  The two decoders of rule-set content: \<open>json.UnmarshalExtended\<close> and \<open>srs.Read\<close>.
\<close>

record ('dm, 'ag, 'ip) decoders =
  dec_source :: "bytes \<Rightarrow> ('dm, 'ag, 'ip) PlainRuleSetCompat result"
  dec_binary :: "bytes \<Rightarrow> ('dm, 'ag, 'ip) PlainRuleSetCompat result"

record ('dm, 'ag, 'ip, 'cb) local_rule_set = "('dm, 'ag, 'ip, 'cb) rule_set" +
  fileFormat :: string
  watcher :: "string option"

text \<open>\<open>read path\<close> is the outcome of \<open>os.ReadFile(path)\<close> (or of opening and reading the file).\<close>

definition reloadFile ::
  "('dm, 'ag, 'ip) lib \<Rightarrow> bool \<Rightarrow> ('dm, 'ag, 'ip) decoders \<Rightarrow> (string \<Rightarrow> bytes result) \<Rightarrow> string \<Rightarrow>
   ('dm, 'ag, 'ip, 'cb) local_rule_set \<Rightarrow> (('dm, 'ag, 'ip, 'cb) local_rule_set \<times> 'cb list) result" where
  "reloadFile L nm D read path s =
     bind_result
       (if fileFormat s = RuleSetFormatSource \<or> fileFormat s = []
        then bind_result (read path) (dec_source D)
        else if fileFormat s = RuleSetFormatBinary
        then bind_result (read path) (dec_binary D)
        else Inl (E_New [S ''unknown rule-set format: '', S (fileFormat s)])) (\<lambda>ruleSet.
     bind_result (Upgrade ruleSet) (\<lambda>rules. reloadRules L nm rules s))"

definition emptyRuleSetMetadata :: RuleSetMetadata where
  "emptyRuleSetMetadata =
     \<lparr>ContainsProcessRule = False, ContainsWIFIRule = False, ContainsIPCIDRRule = False\<rparr>"

text \<open>\<open>abspath\<close> is \<open>filemanager.BasePath\<close> followed by \<open>filepath.Abs\<close>, \<open>watch\<close> the outcome of
  \<open>fswatch.NewWatcher\<close>.\<close>

definition NewLocalRuleSet ::
  "('dm, 'ag, 'ip) lib \<Rightarrow> bool \<Rightarrow> ('dm, 'ag, 'ip) decoders \<Rightarrow> (string \<Rightarrow> bytes result) \<Rightarrow>
   (string \<Rightarrow> string) \<Rightarrow> (string \<Rightarrow> unit result) \<Rightarrow> ('dm, 'ag, 'ip) RuleSetOptions \<Rightarrow>
   ('dm, 'ag, 'ip, 'cb) local_rule_set result" where
  "NewLocalRuleSet L nm D read abspath watch options =
     (let ruleSet = \<lparr>rs_tag = ro_Tag options, rs_rules = [], rs_metadata = emptyRuleSetMetadata,
                     rs_callbacks = [], rs_next = 0, rs_refs = 0,
                     fileFormat = ro_Format options, watcher = None\<rparr> in
      if ro_Type options = RuleSetTypeInline
      then if length (ro_Inline options) = 0 then Inl (E_New [S ''empty inline rule-set''])
           else bind_result (reloadRules L nm (ro_Inline options) ruleSet) (\<lambda>(s, _). Inr s)
      else (let filePath = abspath (ro_LocalPath options) in
        bind_result (reloadFile L nm D read filePath ruleSet) (\<lambda>(s, _).
        bind_result (watch filePath) (\<lambda>_. Inr (s\<lparr>watcher := Some filePath\<rparr>)))))"

text \<open>The watcher's callback: a reload that fails is only logged.\<close>

definition watcher_callback ::
  "('dm, 'ag, 'ip) lib \<Rightarrow> bool \<Rightarrow> ('dm, 'ag, 'ip) decoders \<Rightarrow> (string \<Rightarrow> bytes result) \<Rightarrow> string \<Rightarrow>
   ('dm, 'ag, 'ip, 'cb) local_rule_set \<Rightarrow> ('dm, 'ag, 'ip, 'cb) local_rule_set" where
  "watcher_callback L nm D read path s =
     (case reloadFile L nm D read path s of Inl _ \<Rightarrow> s | Inr (s', _) \<Rightarrow> s')"

definition local_Close :: "('dm, 'ag, 'ip, 'cb) local_rule_set \<Rightarrow> ('dm, 'ag, 'ip, 'cb) local_rule_set" where
  "local_Close s = s\<lparr>rs_rules := []\<rparr>"

section \<open>Remote rule-sets\<close>

type_synonym time = int

record SavedBinary =
  sb_Content :: bytes
  sb_LastUpdated :: time
  sb_LastEtag :: string

text \<open>The zero \<open>time.Time\<close>; every reading of the clock is a later instant.\<close>

definition zeroTime :: time where "zeroTime = 0"

record ('dm, 'ag, 'ip, 'cb) remote_rule_set = "('dm, 'ag, 'ip, 'cb) rule_set" +
  rr_options :: "('dm, 'ag, 'ip) RuleSetOptions"
  updateInterval :: duration
  dialer :: "string option"
  lastUpdated :: time
  lastEtag :: string

definition hours :: "int \<Rightarrow> duration" where "hours n = n * 3600 * 1000000000"

definition NewRemoteRuleSet ::
  "('dm, 'ag, 'ip) RuleSetOptions \<Rightarrow> ('dm, 'ag, 'ip, 'cb) remote_rule_set" where
  "NewRemoteRuleSet options =
     \<lparr>rs_tag = ro_Tag options, rs_rules = [], rs_metadata = emptyRuleSetMetadata,
      rs_callbacks = [], rs_next = 0, rs_refs = 0, rr_options = options,
      updateInterval = (if UpdateInterval (ro_Remote options) > 0 then UpdateInterval (ro_Remote options) else hours 24),
      dialer = None, lastUpdated = zeroTime, lastEtag = []\<rparr>"

definition loadBytes ::
  "('dm, 'ag, 'ip) lib \<Rightarrow> bool \<Rightarrow> ('dm, 'ag, 'ip) decoders \<Rightarrow> bytes \<Rightarrow>
   ('dm, 'ag, 'ip, 'cb) remote_rule_set \<Rightarrow> (('dm, 'ag, 'ip, 'cb) remote_rule_set \<times> 'cb list) result" where
  "loadBytes L nm D content s =
     bind_result
       (if ro_Format (rr_options s) = RuleSetFormatSource then dec_source D content
        else if ro_Format (rr_options s) = RuleSetFormatBinary then dec_binary D content
        else Inl (E_New [S ''unknown rule-set format: '', S (ro_Format (rr_options s))])) (\<lambda>ruleSet.
     bind_result (Upgrade ruleSet) (\<lambda>plainRules.
     bind_result (map_result parse_rule_error 0 (NewHeadlessRule L nm) plainRules) (\<lambda>rules.
       Inr (s\<lparr>rs_metadata := compute_metadata plainRules, rs_rules := rules\<rparr>, map snd (rs_callbacks s)))))"

text \<open>
  The cache file is \<open>None\<close> when there is none; \<open>save_ok\<close> is whether writing to it succeeds.
  \<open>outbound\<close> and \<open>default_outbound\<close> are the outbound manager's answers.
\<close>

type_synonym cache_file = "(string \<Rightarrow> SavedBinary option) option"

definition LoadRuleSet :: "cache_file \<Rightarrow> string \<Rightarrow> SavedBinary option" where
  "LoadRuleSet cf tag = (case cf of None \<Rightarrow> None | Some m \<Rightarrow> m tag)"

definition SaveRuleSet :: "bool \<Rightarrow> cache_file \<Rightarrow> string \<Rightarrow> SavedBinary \<Rightarrow> cache_file" where
  "SaveRuleSet save_ok cf tag sb =
     (case cf of None \<Rightarrow> None | Some m \<Rightarrow> if save_ok then Some (m(tag \<mapsto> sb)) else Some m)"

definition StartContext ::
  "('dm, 'ag, 'ip) lib \<Rightarrow> bool \<Rightarrow> ('dm, 'ag, 'ip) decoders \<Rightarrow> (string \<Rightarrow> bool) \<Rightarrow> string \<Rightarrow> cache_file \<Rightarrow>
   ('dm, 'ag, 'ip, 'cb) remote_rule_set \<Rightarrow> (('dm, 'ag, 'ip, 'cb) remote_rule_set \<times> 'cb list) result" where
  "StartContext L nm D outbound default_outbound cf s =
     (let detour = DownloadDetour (ro_Remote (rr_options s)) in
      bind_result
        (if detour \<noteq> []
         then (if outbound detour then Inr detour else Inl (E_New [S ''download detour not found: '', S detour]))
         else Inr default_outbound) (\<lambda>dl.
      (let s1 = s\<lparr>dialer := Some dl\<rparr> in
       case LoadRuleSet cf (ro_Tag (rr_options s)) of
         None \<Rightarrow> Inr (s1, [])
       | Some savedSet \<Rightarrow>
          (case loadBytes L nm D (sb_Content savedSet) s1 of
             Inl err \<Rightarrow> Inl (E_Cause err [S ''restore cached rule-set''])
           | Inr (s2, cbs) \<Rightarrow>
              Inr (s2\<lparr>lastUpdated := sb_LastUpdated savedSet, lastEtag := sb_LastEtag savedSet\<rparr>, cbs)))))"

text \<open>The HTTP exchange: a transport error, or a status, an entity tag and a body that may fail
  to be read.\<close>

datatype http_response = HttpError error | Response (Status: nat) (Etag: string) (Body: "bytes result")

definition fetch ::
  "('dm, 'ag, 'ip) lib \<Rightarrow> bool \<Rightarrow> ('dm, 'ag, 'ip) decoders \<Rightarrow> (string \<Rightarrow> string \<Rightarrow> http_response) \<Rightarrow> time \<Rightarrow> bool \<Rightarrow>
   cache_file \<Rightarrow> ('dm, 'ag, 'ip, 'cb) remote_rule_set \<Rightarrow>
   error option \<times> ('dm, 'ag, 'ip, 'cb) remote_rule_set \<times> cache_file \<times> 'cb list" where
  "fetch L nm D http now save_ok cf s =
     (let tag = ro_Tag (rr_options s) in
      case http (URL (ro_Remote (rr_options s))) (lastEtag s) of
        HttpError err \<Rightarrow> (Some err, s, cf, [])
      | Response status etag body \<Rightarrow>
         if status = 304
         then (let s1 = s\<lparr>lastUpdated := now\<rparr>;
                   cf1 = (case LoadRuleSet cf tag of
                            None \<Rightarrow> cf
                          | Some saved \<Rightarrow> SaveRuleSet save_ok cf tag (saved\<lparr>sb_LastUpdated := now\<rparr>))
               in (None, s1, cf1, []))
         else if status \<noteq> 200 then (Some (E_New [S ''unexpected status: '', N status]), s, cf, [])
         else (case bind_result body (\<lambda>content. loadBytes L nm D content s) of
                 Inl err \<Rightarrow> (Some err, s, cf, [])
               | Inr (s1, cbs) \<Rightarrow>
                  (let s2 = (if etag \<noteq> [] then s1\<lparr>lastEtag := etag\<rparr> else s1);
                       s3 = s2\<lparr>lastUpdated := now\<rparr>
                   in (None, s3,
                       SaveRuleSet save_ok cf tag
                         \<lparr>sb_Content = (case body of Inr content \<Rightarrow> content | Inl _ \<Rightarrow> []),
                          sb_LastUpdated = now, sb_LastEtag = lastEtag s3\<rparr>, cbs))))"

definition updateOnce ::
  "('dm, 'ag, 'ip) lib \<Rightarrow> bool \<Rightarrow> ('dm, 'ag, 'ip) decoders \<Rightarrow> (string \<Rightarrow> string \<Rightarrow> http_response) \<Rightarrow> time \<Rightarrow> bool \<Rightarrow>
   cache_file \<Rightarrow> ('dm, 'ag, 'ip, 'cb) remote_rule_set \<Rightarrow> ('dm, 'ag, 'ip, 'cb) remote_rule_set \<times> cache_file" where
  "updateOnce L nm D http now save_ok cf s =
     (case fetch L nm D http now save_ok cf s of
        (Some _, s', cf', _) \<Rightarrow> (s', cf')
      | (None, s', cf', _) \<Rightarrow> (if rs_refs s' = 0 then s'\<lparr>rs_rules := []\<rparr> else s', cf'))"

definition remote_Close :: "('dm, 'ag, 'ip, 'cb) remote_rule_set \<Rightarrow> ('dm, 'ag, 'ip, 'cb) remote_rule_set" where
  "remote_Close s = s\<lparr>rs_rules := []\<rparr>"

section \<open>The metadata describes the rules\<close>

text \<open>Every rule of the option tree names its type; the JSON decoder always fills it in.\<close>

fun typed :: "('dm, 'ag, 'ip) HeadlessRule \<Rightarrow> bool" where
  "typed (HeadlessRule ty _ _ rules _) \<longleftrightarrow> ty \<noteq> [] \<and> list_all typed rules"

definition is_IPCIDRItem :: "('dm, 'ag, 'ip) leaf_item \<Rightarrow> bool" where
  "is_IPCIDRItem i = (case i of IPCIDRItem _ _ _ \<Rightarrow> True | _ \<Rightarrow> False)"

lemma is_IPCIDRItem_iff: "is_IPCIDRItem i \<longleftrightarrow> (\<exists>ipSet src descr. i = IPCIDRItem ipSet src descr)"
  by (cases i) (simp_all add: is_IPCIDRItem_def)

lemma NewIPCIDRItem_is: "NewIPCIDRItem L b ps = Inr i \<Longrightarrow> is_IPCIDRItem i"
  by (auto simp: NewIPCIDRItem_def bind_result_Inr_iff is_IPCIDRItem_def)

lemma NewRawIPCIDRItem_is: "is_IPCIDRItem (NewRawIPCIDRItem b ipset)"
  by (simp add: NewRawIPCIDRItem_def is_IPCIDRItem_def)

lemma headless_steps_good:
  "list_all good_step (headless_address_steps L o' @ headless_process_steps L nm o')"
  by (simp add: headless_address_steps_def headless_process_steps_def)

lemma NewDefaultHeadlessRule_wf:
  assumes "NewDefaultHeadlessRule L nm o' = Inr r"
  shows "wf_rule r \<and> invert r = hr_Invert o' \<and> action r = None"
  using run_good_steps [OF assms [unfolded NewDefaultHeadlessRule_def] headless_steps_good] .

lemma headless_steps_ipcidr:
  "list_all2 (fills DestinationIPCIDR)
     ([False, False, False, False, False, isIPCIDRHeadlessRule o', False, False, False, False]
      @ [False, False, False, False, False, False, False, False, False, False, False, False, False, False])
     (headless_address_steps L o' @ headless_process_steps L nm o')"
  unfolding headless_address_steps_def headless_process_steps_def
  by (simp only: append.simps, intro fills_intros)
    (simp_all add: isIPCIDRHeadlessRule_def)

lemma headless_steps_only_IPCIDR:
  "list_all (only_puts DestinationIPCIDR is_IPCIDRItem)
     (headless_address_steps L o' @ headless_process_steps L nm o')"
  unfolding headless_address_steps_def headless_process_steps_def append.simps list.pred_inject
  by (intro conjI TrueI only_puts_opt_item only_puts_if)
    (auto simp: NewIPCIDRItem_is NewRawIPCIDRItem_is)

lemma NewDefaultHeadlessRule_ipcidr:
  assumes "NewDefaultHeadlessRule L nm o' = Inr r"
  shows "destinationIPCIDRItems r \<noteq> [] \<longleftrightarrow> isIPCIDRHeadlessRule o'"
    and "\<forall>i\<in>set (destinationIPCIDRItems r). is_IPCIDRItem i"
  using run_steps_fills [OF headless_steps_ipcidr assms [unfolded NewDefaultHeadlessRule_def]]
    run_steps_only_puts [OF assms [unfolded NewDefaultHeadlessRule_def] headless_steps_only_IPCIDR]
  by (auto simp: group_of_def [of DestinationIPCIDR r])

lemma extract_nonempty:
  "\<forall>i\<in>set xs. is_IPCIDRItem i \<Longrightarrow>
   concat (map (\<lambda>item. case item of IPCIDRItem ipSet _ _ \<Rightarrow> [ipSet] | _ \<Rightarrow> []) xs) \<noteq> [] \<longleftrightarrow> xs \<noteq> []"
  by (cases xs) (auto simp: is_IPCIDRItem_iff)

text \<open>A rule with a condition on the destination IP address.\<close>

fun has_ipcidr :: "('dm, 'ag, 'ip) headless_rule \<Rightarrow> bool" where
  "has_ipcidr (DefaultHeadless r) \<longleftrightarrow> destinationIPCIDRItems r \<noteq> []"
| "has_ipcidr (LogicalHeadless rs _ _) \<longleftrightarrow> list_ex has_ipcidr rs"

lemma NewHeadlessRule_ipcidr:
  assumes "NewHeadlessRule L nm o' = Inr r" and "typed o'"
  shows "(HasHeadlessRule isIPCIDRHeadlessRule o' \<longleftrightarrow> has_ipcidr r) \<and> (extractIPSetFromRule r \<noteq> [] \<longleftrightarrow> has_ipcidr r)"
  using assms
proof (induction o' arbitrary: r)
  case (HeadlessRule ty d md rules neg)
  show ?case
  proof (cases "ty = RuleTypeDefault")
    case True
    with HeadlessRule.prems obtain q where "NewDefaultHeadlessRule L nm d = Inr q" "r = DefaultHeadless q"
      by (auto simp: bind_result_Inr_iff)
    with True show ?thesis using NewDefaultHeadlessRule_ipcidr [of L nm d q] extract_nonempty by auto
  next
    case False
    with HeadlessRule.prems obtain rs m where ty: "ty = RuleTypeLogical"
      and rs: "map_result sub_rule_error 0 (NewHeadlessRule L nm) rules = Inr rs"
      and r: "r = LogicalHeadless rs m neg"
      by (auto simp: bind_result_Inr_iff split: if_splits)
    have "list_all2 (\<lambda>x y. (HasHeadlessRule isIPCIDRHeadlessRule x \<longleftrightarrow> has_ipcidr y)
        \<and> (extractIPSetFromRule y \<noteq> [] \<longleftrightarrow> has_ipcidr y)) rules rs"
      using rs HeadlessRule.IH HeadlessRule.prems(2)
      by (auto simp: map_result_Inr list_all_iff intro: list.rel_mono_strong)
    then have "(list_ex (HasHeadlessRule isIPCIDRHeadlessRule) rules \<longleftrightarrow> list_ex has_ipcidr rs)
        \<and> (concat (map extractIPSetFromRule rs) \<noteq> [] \<longleftrightarrow> list_ex has_ipcidr rs)"
      by (induction rule: list_all2_induct) auto
    with ty r show ?thesis by simp
  qed
qed

lemma reloadRules_Inr:
  "reloadRules L nm opts s = Inr (s', cbs) \<longleftrightarrow>
     (\<exists>rules. list_all2 (\<lambda>x y. NewHeadlessRule L nm x = Inr y) opts rules
        \<and> s' = s\<lparr>rs_rules := rules, rs_metadata := compute_metadata opts\<rparr> \<and> cbs = map snd (rs_callbacks s))"
  by (auto simp: reloadRules_def bind_result_Inr_iff map_result_Inr)

lemma metadata_ipcidr:
  assumes "list_all2 (\<lambda>x y. NewHeadlessRule L nm x = Inr y) opts rules" and "list_all typed opts"
  shows "(ContainsIPCIDRRule (compute_metadata opts) \<longleftrightarrow> list_ex has_ipcidr rules)
    \<and> (concat (map extractIPSetFromRule rules) \<noteq> [] \<longleftrightarrow> list_ex has_ipcidr rules)"
  using assms unfolding compute_metadata_def HasHeadlessRules_def
  by (induction rule: list_all2_induct) (auto simp: NewHeadlessRule_ipcidr)

section \<open>Updates\<close>

lemma loadBytes_Inr:
  "loadBytes L nm D content s = Inr (s', cbs) \<Longrightarrow>
     \<exists>rules md. s' = s\<lparr>rs_metadata := md, rs_rules := rules\<rparr>
       \<and> (\<forall>t. rr_options t = rr_options s \<longrightarrow>
            loadBytes L nm D content t
              = Inr (t\<lparr>rs_metadata := md, rs_rules := rules\<rparr>, map snd (rs_callbacks t)))"
  by (auto simp: loadBytes_def bind_result_Inr_iff split: if_splits; blast)

text \<open>The cache entry of a rule-set restores its rules, its metadata and the two values that
  control the next download.\<close>

definition persisted ::
  "('dm, 'ag, 'ip) lib \<Rightarrow> bool \<Rightarrow> ('dm, 'ag, 'ip) decoders \<Rightarrow> cache_file \<Rightarrow>
   ('dm, 'ag, 'ip, 'cb) remote_rule_set \<Rightarrow> bool" where
  "persisted L nm D cf s \<longleftrightarrow>
     (case LoadRuleSet cf (ro_Tag (rr_options s)) of
        None \<Rightarrow> False
      | Some sb \<Rightarrow> sb_LastUpdated sb = lastUpdated s \<and> sb_LastEtag sb = lastEtag s
          \<and> loadBytes L nm D (sb_Content sb) s = Inr (s, map snd (rs_callbacks s)))"

lemma loadBytes_persist:
  assumes "loadBytes L nm D content s = Inr (s', cbs)" and "rr_options t = rr_options s"
    and "rs_rules t = rs_rules s'" and "rs_metadata t = rs_metadata s'"
  shows "loadBytes L nm D content t = Inr (t, map snd (rs_callbacks t))"
proof -
  from loadBytes_Inr [OF assms(1)] obtain rules md where
    s': "s' = s\<lparr>rs_metadata := md, rs_rules := rules\<rparr>"
    and t: "loadBytes L nm D content t = Inr (t\<lparr>rs_metadata := md, rs_rules := rules\<rparr>, map snd (rs_callbacks t))"
    using assms(2) by auto
  moreover have "t\<lparr>rs_metadata := md, rs_rules := rules\<rparr> = t"
    using s' assms(3,4) by (cases t) simp
  ultimately show ?thesis by simp
qed

lemma SaveRuleSet_lookup [simp]:
  "LoadRuleSet (SaveRuleSet True (Some m) tag sb) tag = Some sb"
  by (simp add: LoadRuleSet_def SaveRuleSet_def)

lemma fetch_frame:
  assumes "fetch L nm D http now ok cf s = (e, s', cf', cbs)"
  shows "rr_options s' = rr_options s" and "rs_refs s' = rs_refs s" and "rs_callbacks s' = rs_callbacks s"
    and "e \<noteq> None \<Longrightarrow> s' = s \<and> cf' = cf \<and> cbs = []"
  using assms
  by (auto simp: fetch_def Let_def bind_result_Inr_iff dest!: loadBytes_Inr
      split: http_response.splits if_splits sum.splits)

lemma fetch_persists:
  assumes f: "fetch L nm D http now True (Some m) s = (None, s', cf', cbs)"
    and "Status (http (URL (ro_Remote (rr_options s))) (lastEtag s)) \<noteq> 304 \<or> persisted L nm D (Some m) s"
  shows "persisted L nm D cf' s'"
proof -
  obtain status etag body where r: "http (URL (ro_Remote (rr_options s))) (lastEtag s) = Response status etag body"
    using f by (cases "http (URL (ro_Remote (rr_options s))) (lastEtag s)") (auto simp: fetch_def Let_def)
  show ?thesis
  proof (cases "status = 304")
    case True
    with r assms(2) obtain sb where sb: "LoadRuleSet (Some m) (ro_Tag (rr_options s)) = Some sb"
      "sb_LastEtag sb = lastEtag s"
      "loadBytes L nm D (sb_Content sb) s = Inr (s, map snd (rs_callbacks s))"
      by (auto simp: persisted_def split: option.splits)
    from f r True sb have s': "s' = s\<lparr>lastUpdated := now\<rparr>"
      and cf': "cf' = SaveRuleSet True (Some m) (ro_Tag (rr_options s)) (sb\<lparr>sb_LastUpdated := now\<rparr>)"
      by (auto simp: fetch_def Let_def)
    have "loadBytes L nm D (sb_Content sb) s' = Inr (s', map snd (rs_callbacks s'))"
      by (rule loadBytes_persist [OF sb(3)]) (simp_all add: s')
    then show ?thesis using sb(2) by (simp add: persisted_def s' cf')
  next
    case False
    with f r obtain content s1 cbs1 where body: "body = Inr content"
      and l: "loadBytes L nm D content s = Inr (s1, cbs1)"
      and s': "s' = (if etag \<noteq> [] then s1\<lparr>lastEtag := etag\<rparr> else s1)\<lparr>lastUpdated := now\<rparr>"
      and cf': "cf' = SaveRuleSet True (Some m) (ro_Tag (rr_options s))
          \<lparr>sb_Content = content, sb_LastUpdated = now, sb_LastEtag = lastEtag s'\<rparr>"
      by (auto simp: fetch_def Let_def bind_result_def split: if_splits sum.splits)
    from loadBytes_Inr [OF l] have opt: "rr_options s1 = rr_options s" by auto
    have "loadBytes L nm D content s' = Inr (s', map snd (rs_callbacks s'))"
      by (rule loadBytes_persist [OF l]) (simp_all add: s' opt)
    moreover have "rr_options s' = rr_options s" "lastUpdated s' = now" by (simp_all add: s' opt)
    ultimately show ?thesis by (simp add: persisted_def cf')
  qed
qed

lemma NewRemoteRuleSet_fields [simp]:
  "rr_options (NewRemoteRuleSet o') = o'" "rs_callbacks (NewRemoteRuleSet o') = []"
  by (simp_all add: NewRemoteRuleSet_def)

lemma StartContext_restores:
  fixes s :: "('dm, 'ag, 'ip, 'cb) remote_rule_set"
  assumes "persisted L nm D cf s" and "DownloadDetour (ro_Remote (rr_options s)) = []"
  shows "\<exists>t :: ('dm, 'ag, 'ip, 'cb) remote_rule_set.
     StartContext L nm D outbound def cf (NewRemoteRuleSet (rr_options s)) = Inr (t, [])
     \<and> rs_rules t = rs_rules s \<and> rs_metadata t = rs_metadata s
     \<and> lastUpdated t = lastUpdated s \<and> lastEtag t = lastEtag s"
proof -
  let ?n = "(NewRemoteRuleSet (rr_options s))\<lparr>dialer := Some def\<rparr> :: ('dm, 'ag, 'ip, 'cb) remote_rule_set"
  from assms(1) obtain sb where sb: "LoadRuleSet cf (ro_Tag (rr_options s)) = Some sb"
    "sb_LastUpdated sb = lastUpdated s" "sb_LastEtag sb = lastEtag s"
    "loadBytes L nm D (sb_Content sb) s = Inr (s, map snd (rs_callbacks s))"
    by (auto simp: persisted_def split: option.splits)
  from loadBytes_Inr [OF sb(4)] obtain rules md where
    s: "s = s\<lparr>rs_metadata := md, rs_rules := rules\<rparr>"
    and load: "\<And>t :: ('dm, 'ag, 'ip, 'cb) remote_rule_set. rr_options t = rr_options s \<Longrightarrow>
      loadBytes L nm D (sb_Content sb) t = Inr (t\<lparr>rs_metadata := md, rs_rules := rules\<rparr>, map snd (rs_callbacks t))"
    by blast
  have n: "loadBytes L nm D (sb_Content sb) ?n = Inr (?n\<lparr>rs_metadata := md, rs_rules := rules\<rparr>, [])"
    using load [of ?n] by simp
  have "rs_metadata s = md" "rs_rules s = rules"
    using arg_cong [OF s, of rs_metadata] arg_cong [OF s, of rs_rules] by simp_all
  then show ?thesis using sb n assms(2) by (simp add: StartContext_def)
qed

end
