(* ===== verification/Rule_Set_Items.thy ===== *)
theory Rule_Set_Items
  imports Rule_Sets
begin

text \<open>
  Matching a rule-set, the item that refers to rule-sets (\<open>route/rule/rule_item_rule_set.go\<close>) and the
  item type of route and DNS rules. An item that refers to rule-sets writes the rule cache, so it is
  an instance of \<open>rule_item\<close> and not of \<open>pure_item\<close>.
\<close>

section \<open>Matching a rule-set\<close>

lemma RuleSet_Match_frame: "core (snd (RuleSet_Match L V s c)) = core c"
proof -
  have "core (snd (any_st (headless_Match L V) rs d)) = core d" for rs d
  proof (induction rs arbitrary: d)
    case Nil
    then show ?case by simp
  next
    case (Cons r rs)
    obtain b e where "headless_Match L V r d = (b, e)" by fastforce
    with headless_Match_frame [of L V r d] Cons.IH [of e] show ?case by simp
  qed
  then show ?thesis by (simp add: RuleSet_Match_def)
qed

text \<open>\<open>d\<close> has the connection and switches of \<open>c\<close>, and at least its flags.\<close>

definition more_flags :: "InboundContext \<Rightarrow> InboundContext \<Rightarrow> bool" where
  "more_flags c d \<longleftrightarrow> base d = base c
     \<and> (md_SourceAddressMatch c \<longrightarrow> md_SourceAddressMatch d)
     \<and> (md_SourcePortMatch c \<longrightarrow> md_SourcePortMatch d)
     \<and> (md_DestinationAddressMatch c \<longrightarrow> md_DestinationAddressMatch d)
     \<and> (md_DestinationPortMatch c \<longrightarrow> md_DestinationPortMatch d)"

lemma more_flags_refl [simp]: "more_flags c c"
  by (simp add: more_flags_def)

lemma more_flags_trans: "more_flags c d \<Longrightarrow> more_flags d e \<Longrightarrow> more_flags c e"
  by (auto simp: more_flags_def)

lemma more_flags_after: "more_flags c (flags_after pm r c)"
  by (simp add: more_flags_def flags_after_def)

lemma active_ipcidr_cong: "base d = base c \<Longrightarrow> active_ipcidr r d = active_ipcidr r c"
  by (metis active_ipcidr_def base_reads(3))

lemma rule_holds_plain: "\<not> invert r \<Longrightarrow> rule_holds pm r c \<longleftrightarrow> allItems r = [] \<or> conditions_ok pm r c"
  by (simp add: rule_holds_def)

text \<open>A rule that is not inverted and holds keeps holding when more flags are set.\<close>

lemma rule_holds_mono:
  assumes "more_flags c d" and "\<not> invert r" and "rule_holds (leaf_Match L V) r c"
  shows "rule_holds (leaf_Match L V) r d"
proof -
  have b: "base d = base c" using assms(1) by (simp add: more_flags_def)
  note same = leaf.pm_cong [OF b] leaf.any_item_cong [OF b] active_ipcidr_cong [OF b]
  show ?thesis
    using assms unfolding rule_holds_plain [OF assms(2)] conditions_ok_def same more_flags_def by blast
qed

text \<open>A default rule without inversion, as rule-sets mostly have.\<close>

definition plain :: "('dm, 'ag, 'ip) headless_rule \<Rightarrow> bool" where
  "plain r = (case r of DefaultHeadless q \<Rightarrow> \<not> invert q | LogicalHeadless _ _ _ \<Rightarrow> False)"

lemma plain_obtain: "plain r \<Longrightarrow> (\<And>q. r = DefaultHeadless q \<Longrightarrow> \<not> invert q \<Longrightarrow> P) \<Longrightarrow> P"
  by (auto simp: plain_def split: headless_rule.splits)

lemma RuleSet_Match_complete_aux:
  assumes "list_all plain rs" and "r \<in> set rs" and "more_flags c d" and "headless_holds L V r c"
  shows "fst (any_st (headless_Match L V) rs d)"
  using assms
proof (induction rs arbitrary: d)
  case Nil
  then show ?case by simp
next
  case (Cons p ps)
  then obtain q where q: "p = DefaultHeadless q" "\<not> invert q" by (auto elim: plain_obtain)
  let ?d = "if allItems q = [] then d else flags_after (leaf_Match L V) q d"
  have m: "more_flags c ?d" using Cons.prems(3) by (simp add: more_flags_trans [OF _ more_flags_after])
  show ?case
  proof (cases "r = p")
    case True
    then show ?thesis using rule_holds_mono [OF Cons.prems(3) q(2)] Cons.prems(4) q by (simp add: leaf.adr_Match_im)
  next
    case False
    then show ?thesis using Cons.IH [OF _ _ m] Cons.prems q by (simp add: leaf.adr_Match_im)
  qed
qed

text \<open>Rules that constrain the destination address alone (the usual domain and IP lists).\<close>

definition address_only :: "('dm, 'ag, 'ip) headless_rule \<Rightarrow> bool" where
  "address_only r = (case r of
     DefaultHeadless q \<Rightarrow> \<not> invert q \<and> wf_rule q \<and> allItems q \<noteq> [] \<and> items q = [] \<and> sourceAddressItems q = []
       \<and> sourcePortItems q = [] \<and> destinationPortItems q = []
   | LogicalHeadless _ _ _ \<Rightarrow> False)"

text \<open>Contexts that differ in \<open>DidMatch\<close> only.\<close>

definition same_but_did :: "InboundContext \<Rightarrow> InboundContext \<Rightarrow> bool" where
  "same_but_did c d \<longleftrightarrow> d\<lparr>md_DidMatch := True\<rparr> = c\<lparr>md_DidMatch := True\<rparr>"

lemma same_but_did_reads:
  assumes "same_but_did c d"
  shows "base d = base c" "md_SourceAddressMatch d = md_SourceAddressMatch c"
    "md_SourcePortMatch d = md_SourcePortMatch c"
    "md_DestinationAddressMatch d = md_DestinationAddressMatch c"
    "md_DestinationPortMatch d = md_DestinationPortMatch c"
proof -
  note eq = assms [unfolded same_but_did_def]
  show "base d = base c" using arg_cong [OF eq, of base] by simp
  show "md_SourceAddressMatch d = md_SourceAddressMatch c"
    using arg_cong [OF eq, of md_SourceAddressMatch] by simp
  show "md_SourcePortMatch d = md_SourcePortMatch c" using arg_cong [OF eq, of md_SourcePortMatch] by simp
  show "md_DestinationAddressMatch d = md_DestinationAddressMatch c"
    using arg_cong [OF eq, of md_DestinationAddressMatch] by simp
  show "md_DestinationPortMatch d = md_DestinationPortMatch c"
    using arg_cong [OF eq, of md_DestinationPortMatch] by simp
qed

lemma rule_holds_same_but_did:
  assumes "same_but_did c d" and "\<not> invert r"
  shows "rule_holds (leaf_Match L V) r d = rule_holds (leaf_Match L V) r c"
proof -
  note b = same_but_did_reads(1) [OF assms(1)]
  note same = leaf.pm_cong [OF b] leaf.any_item_cong [OF b] active_ipcidr_cong [OF b]
    same_but_did_reads(2-5) [OF assms(1)]
  show ?thesis unfolding rule_holds_plain [OF assms(2)] conditions_ok_def same ..
qed

lemma address_only_fails:
  assumes "address_only (DefaultHeadless q)" and "\<not> rule_holds (leaf_Match L V) q c"
  shows "same_but_did c (flags_after (leaf_Match L V) q c)"
proof -
  have "\<not> any_item (leaf_Match L V) (destinationAddressItems q) c"
    "\<not> any_item (leaf_Match L V) (active_ipcidr q c) c"
    using assms by (auto simp: address_only_def rule_holds_def conditions_ok_def split: if_splits)
  then have "flags_after (leaf_Match L V) q c = c\<lparr>md_DidMatch := groups_did q c \<or> items q \<noteq> []\<rparr>"
    using assms(1) by (simp add: address_only_def flags_after_def any_item_def same_flags)
  then show ?thesis by (simp add: same_but_did_def)
qed

lemma same_but_did_trans: "same_but_did c d \<Longrightarrow> same_but_did d e \<Longrightarrow> same_but_did c e"
  by (simp add: same_but_did_def)

lemma RuleSet_Match_exact_aux:
  assumes "list_all address_only rs" and "same_but_did c d"
  shows "fst (any_st (headless_Match L V) rs d) \<longleftrightarrow> (\<exists>r\<in>set rs. headless_holds L V r c)"
  using assms
proof (induction rs arbitrary: d)
  case Nil
  then show ?case by simp
next
  case (Cons p ps)
  then obtain q where q: "p = DefaultHeadless q" "\<not> invert q" "allItems q \<noteq> []" "address_only (DefaultHeadless q)"
    by (auto simp: address_only_def split: headless_rule.splits)
  show ?case
  proof (cases "rule_holds (leaf_Match L V) q d")
    case True
    then show ?thesis using q rule_holds_same_but_did [OF Cons.prems(2) q(2)] by (simp add: leaf.adr_Match_im)
  next
    case False
    have "same_but_did c (flags_after (leaf_Match L V) q d)"
      using same_but_did_trans [OF Cons.prems(2) address_only_fails [OF q(4) False]] .
    then show ?thesis
      using Cons.IH Cons.prems False q rule_holds_same_but_did [OF Cons.prems(2) q(2)] by (simp add: leaf.adr_Match_im)
  qed
qed

section \<open>Items of route and DNS rules\<close>

text \<open>\<open>RuleSetItem tagList setList ipCidrMatchSource ipCidrAcceptEmpty\<close>: \<open>setList\<close> holds the tags
  of the rule-sets the item was resolved to by \<open>Start\<close>.\<close>

datatype (dead 'dm, dead 'ag, dead 'ip) any_item =
    Leaf "('dm, 'ag, 'ip) leaf_item"
  | RuleSetItem "string list" "string list" bool bool

type_synonym ('dm, 'ag, 'ip, 'cb) store = "string \<Rightarrow> ('dm, 'ag, 'ip, 'cb) rule_set option"

definition isRuleSet :: "('dm, 'ag, 'ip) any_item \<Rightarrow> bool" where
  "isRuleSet i = (case i of RuleSetItem _ _ _ _ \<Rightarrow> True | Leaf _ \<Rightarrow> False)"

definition NewRuleSetItem :: "string list \<Rightarrow> bool \<Rightarrow> bool \<Rightarrow> ('dm, 'ag, 'ip) any_item" where
  "NewRuleSetItem tagList ipCIDRMatchSource ipCidrAcceptEmpty =
     RuleSetItem tagList [] ipCIDRMatchSource ipCidrAcceptEmpty"

text \<open>The loop of \<open>RuleSetItem.Start\<close> resolves the tags in order and counts the references.\<close>

fun resolve_tags ::
  "('dm, 'ag, 'ip, 'cb) store \<Rightarrow> string list \<Rightarrow> string list \<Rightarrow>
   (string list \<times> ('dm, 'ag, 'ip, 'cb) store) result" where
  "resolve_tags G [] setList = Inr (setList, G)"
| "resolve_tags G (tag # tags) setList =
     (case G tag of
        None \<Rightarrow> Inl (E_New [S ''rule-set not found: '', S tag])
      | Some ruleSet \<Rightarrow> resolve_tags (G(tag \<mapsto> IncRef ruleSet)) tags (setList @ [tag]))"

definition any_item_Start ::
  "env \<Rightarrow> ('dm, 'ag, 'ip) any_item \<Rightarrow> ('dm, 'ag, 'ip, 'cb) store \<Rightarrow>
   (('dm, 'ag, 'ip) any_item \<times> ('dm, 'ag, 'ip, 'cb) store) result" where
  "any_item_Start V i G = (case i of
     Leaf l \<Rightarrow> bind_result (leaf_Start V l) (\<lambda>l'. Inr (Leaf l', G))
   | RuleSetItem tagList setList ms ae \<Rightarrow>
       bind_result (resolve_tags G tagList setList) (\<lambda>(sl, G'). Inr (RuleSetItem tagList sl ms ae, G')))"

definition RuleSetItem_Match ::
  "('dm, 'ag, 'ip) lib \<Rightarrow> env \<Rightarrow> ('dm, 'ag, 'ip, 'cb) store \<Rightarrow> string list \<Rightarrow> bool \<Rightarrow> bool \<Rightarrow>
   InboundContext \<Rightarrow> bool \<times> InboundContext" where
  "RuleSetItem_Match L V G setList ms ae c =
     any_st (\<lambda>tag c. case G tag of None \<Rightarrow> (False, c) | Some s \<Rightarrow> RuleSet_Match L V s c) setList
       (c\<lparr>md_IPCIDRMatchSource := ms, md_IPCIDRAcceptEmpty := ae\<rparr>)"

definition ContainsDestinationIPCIDRRule ::
  "('dm, 'ag, 'ip, 'cb) store \<Rightarrow> ('dm, 'ag, 'ip) any_item \<Rightarrow> bool" where
  "ContainsDestinationIPCIDRRule G i = (case i of
     Leaf _ \<Rightarrow> False
   | RuleSetItem _ setList ms _ \<Rightarrow>
       if ms then False
       else list_ex (\<lambda>tag. case G tag of None \<Rightarrow> False | Some s \<Rightarrow> ContainsIPCIDRRule (rs_metadata s)) setList)"

definition any_item_Match ::
  "('dm, 'ag, 'ip) lib \<Rightarrow> env \<Rightarrow> ('dm, 'ag, 'ip, 'cb) store \<Rightarrow> ('dm, 'ag, 'ip) any_item item_match" where
  "any_item_Match L V G i c = (case i of
     Leaf l \<Rightarrow> leaf_im L V l c
   | RuleSetItem _ setList ms ae \<Rightarrow> RuleSetItem_Match L V G setList ms ae c)"

lemma RuleSetItem_Match_frame: "core (snd (RuleSetItem_Match L V G setList ms ae c)) = core c"
proof -
  have "core (snd (any_st (\<lambda>tag c. case G tag of None \<Rightarrow> (False, c) | Some s \<Rightarrow> RuleSet_Match L V s c) tags d)) = core d"
    for tags d
  proof (induction tags arbitrary: d)
    case Nil
    then show ?case by simp
  next
    case (Cons tag tags)
    obtain b e where e: "(case G tag of None \<Rightarrow> (False, d) | Some s \<Rightarrow> RuleSet_Match L V s d) = (b, e)" by fastforce
    then have "core e = core d"
      using RuleSet_Match_frame [of L V "the (G tag)" d] by (cases "G tag") auto
    with e Cons.IH [of e] show ?case by simp
  qed
  then show ?thesis by (simp add: RuleSetItem_Match_def)
qed

interpretation item: rule_item "any_item_Match L V G" isRuleSet
  by unfold_locales (simp add: any_item_Match_def leaf_im_def RuleSetItem_Match_frame split: any_item.splits)

end
