(* ===== verification/Rule_Actions.thy ===== *)
theory Rule_Actions
  imports Rule_Items Option_Rules
begin

text \<open>
  Rule actions (\<open>route/rule/rule_action.go\<close>): the action types with their fields, their construction
  from the options, the flood control of \<open>reject\<close>, the sniffer table and the predefined DNS answers.
\<close>

section \<open>Names\<close>

abbreviation RuleActionTypeRoute :: string where "RuleActionTypeRoute \<equiv> ''route''"
abbreviation RuleActionTypeRouteOptions :: string where "RuleActionTypeRouteOptions \<equiv> ''route-options''"
abbreviation RuleActionTypeDirect :: string where "RuleActionTypeDirect \<equiv> ''direct''"
abbreviation RuleActionTypeBypass :: string where "RuleActionTypeBypass \<equiv> ''bypass''"
abbreviation RuleActionTypeReject :: string where "RuleActionTypeReject \<equiv> ''reject''"
abbreviation RuleActionTypeHijackDNS :: string where "RuleActionTypeHijackDNS \<equiv> ''hijack-dns''"
abbreviation RuleActionTypeSniff :: string where "RuleActionTypeSniff \<equiv> ''sniff''"
abbreviation RuleActionTypeResolve :: string where "RuleActionTypeResolve \<equiv> ''resolve''"
abbreviation RuleActionTypePredefined :: string where "RuleActionTypePredefined \<equiv> ''predefined''"
abbreviation RuleActionRejectMethodDefault :: string where "RuleActionRejectMethodDefault \<equiv> ''default''"
abbreviation RuleActionRejectMethodDrop :: string where "RuleActionRejectMethodDrop \<equiv> ''drop''"
abbreviation RuleActionRejectMethodReply :: string where "RuleActionRejectMethodReply \<equiv> ''reply''"

text \<open>How addresses, prefixes and durations are printed is the standard library's business.\<close>

record fmt =
  Addr_String :: "addr \<Rightarrow> string"
  AddrString :: "Socksaddr \<Rightarrow> string"
  Prefix_String :: "Prefix \<Rightarrow> string"
  Duration_String :: "duration \<Rightarrow> string"

definition InterfaceType_String :: "InterfaceType \<Rightarrow> string" where
  "InterfaceType_String t =
     (if t = 0 then ''wifi'' else if t = 1 then ''cellular'' else if t = 2 then ''ethernet''
      else if t = 3 then ''other'' else Itoa (unat t))"

definition NetworkStrategy_String :: "NetworkStrategy \<Rightarrow> string" where
  "NetworkStrategy_String s =
     (if s = 0 then ''default'' else if s = 1 then ''fallback'' else if s = 2 then ''hybrid''
      else Itoa (unat s))"

definition DomainStrategy_String :: "DomainStrategy \<Rightarrow> string result" where
  "DomainStrategy_String s =
     (if s = 0 then Inr [] else if s = 1 then Inr ''prefer_ipv4'' else if s = 2 then Inr ''prefer_ipv6''
      else if s = 3 then Inr ''ipv4_only'' else if s = 4 then Inr ''ipv6_only''
      else Inl (Panic [S ''unknown domain strategy: '', N (unat s)]))"

section \<open>The actions\<close>

record RuleActionRouteOptions =
  OverrideAddress :: Socksaddr
  OverridePort :: port
  OverrideTunnelDestination :: string
  act_NetworkStrategy :: "NetworkStrategy option"
  act_NetworkType :: "InterfaceType slice"
  act_FallbackNetworkType :: "InterfaceType slice"
  act_FallbackDelay :: duration
  act_UDPDisableDomainUnmapping :: bool
  act_UDPConnect :: bool
  act_UDPTimeout :: duration
  act_TLSFragment :: bool
  act_TLSFragmentFallbackDelay :: duration
  act_TLSRecordFragment :: bool
  act_BypassIfFailed :: bool

record RuleActionDNSRouteOptions =
  dns_Strategy :: DomainStrategy
  dns_DisableCache :: bool
  dns_RewriteTTL :: "32 word option"
  dns_ClientSubnet :: Prefix
  dns_BypassIfFailed :: bool

datatype StreamSniffer = TLSClientHello | HTTPHost | StreamDomainNameQuery | BitTorrent | SSH | RDP
datatype PacketSniffer = QUICClientHello | DomainNameQuery | STUNMessage | UTP | UDPTracker | DTLSRecord | NTP

record RuleActionSniff =
  SnifferNames :: "string list"
  StreamSniffers :: "StreamSniffer list"
  PacketSniffers :: "PacketSniffer list"
  sn_Timeout :: duration
  OverrideDestination :: bool

record RuleActionResolve =
  rv_Server :: string
  rv_Strategy :: DomainStrategy
  rv_DisableCache :: bool
  rv_RewriteTTL :: "32 word option"
  rv_ClientSubnet :: Prefix

record 'rr RuleActionPredefined =
  pr_Rcode :: int
  pr_Answer :: "'rr RR list"
  pr_Ns :: "'rr RR list"
  pr_Extra :: "'rr RR list"

text \<open>\<open>RuleActionReject method noDrop dropCounter\<close> keeps the times of the recent rejections.\<close>

datatype (dead 'dl, dead 'rr) rule_action =
    RuleActionRoute string RuleActionRouteOptions
  | RuleActionBypass string RuleActionRouteOptions
  | RuleActionRouteOptionsAction RuleActionRouteOptions
  | RuleActionDNSRoute string RuleActionDNSRouteOptions
  | RuleActionDNSRouteOptionsAction RuleActionDNSRouteOptions
  | RuleActionDirect 'dl string
  | RuleActionReject string bool "int list"
  | RuleActionHijackDNS
  | RuleActionSniffAction RuleActionSniff
  | RuleActionResolveAction RuleActionResolve
  | RuleActionPredefinedAction "'rr RuleActionPredefined"

definition action_Type :: "('dl, 'rr) rule_action \<Rightarrow> string" where
  "action_Type a = (case a of
     RuleActionRoute _ _ \<Rightarrow> RuleActionTypeRoute
   | RuleActionBypass _ _ \<Rightarrow> RuleActionTypeBypass
   | RuleActionRouteOptionsAction _ \<Rightarrow> RuleActionTypeRouteOptions
   | RuleActionDNSRoute _ _ \<Rightarrow> RuleActionTypeRoute
   | RuleActionDNSRouteOptionsAction _ \<Rightarrow> RuleActionTypeRouteOptions
   | RuleActionDirect _ _ \<Rightarrow> RuleActionTypeDirect
   | RuleActionReject _ _ _ \<Rightarrow> RuleActionTypeReject
   | RuleActionHijackDNS \<Rightarrow> RuleActionTypeHijackDNS
   | RuleActionSniffAction _ \<Rightarrow> RuleActionTypeSniff
   | RuleActionResolveAction _ \<Rightarrow> RuleActionTypeResolve
   | RuleActionPredefinedAction _ \<Rightarrow> RuleActionTypePredefined)"

section \<open>Sniffers\<close>

text \<open>One iteration of \<open>RuleActionSniff.build\<close>: the sniffers a protocol name stands for.\<close>

definition sniffers_of :: "string \<Rightarrow> (StreamSniffer list \<times> PacketSniffer list) option" where
  "sniffers_of name =
     (if name = ''tls'' then Some ([TLSClientHello], [])
      else if name = ''http'' then Some ([HTTPHost], [])
      else if name = ''quic'' then Some ([], [QUICClientHello])
      else if name = ''dns'' then Some ([StreamDomainNameQuery], [DomainNameQuery])
      else if name = ''stun'' then Some ([], [STUNMessage])
      else if name = ''bittorrent'' then Some ([BitTorrent], [UTP, UDPTracker])
      else if name = ''dtls'' then Some ([], [DTLSRecord])
      else if name = ''ssh'' then Some ([SSH], [])
      else if name = ''rdp'' then Some ([RDP], [])
      else if name = ''ntp'' then Some ([], [NTP])
      else None)"

fun build_sniffers :: "string list \<Rightarrow> RuleActionSniff \<Rightarrow> RuleActionSniff result" where
  "build_sniffers [] r = Inr r"
| "build_sniffers (name # names) r =
     (case sniffers_of name of
        None \<Rightarrow> Inl (E_New [S ''unknown sniffer: '', S name])
      | Some (ss, ps) \<Rightarrow>
          build_sniffers names
            (r\<lparr>StreamSniffers := StreamSniffers r @ ss, PacketSniffers := PacketSniffers r @ ps\<rparr>))"

definition RuleActionSniff_build :: "RuleActionSniff \<Rightarrow> RuleActionSniff result" where
  "RuleActionSniff_build r = build_sniffers (SnifferNames r) r"

section \<open>Construction\<close>

text \<open>The options copied by all three route-like actions; each action then sets, or leaves at its
  zero value, the fields the constructor handles differently.\<close>

definition common_route_options ::
  "('dm, 'ag, 'ip) lib \<Rightarrow> RawRouteOptionsActionOptions \<Rightarrow> RuleActionRouteOptions" where
  "common_route_options L o' = \<lparr>
     OverrideAddress = ParseSocksaddrHostPort L (ro_OverrideAddress o') 0,
     OverridePort = ro_OverridePort o',
     OverrideTunnelDestination = [],
     act_NetworkStrategy = ro_NetworkStrategy o',
     act_NetworkType = None,
     act_FallbackNetworkType = None,
     act_FallbackDelay = uint (ro_FallbackDelay o'),
     act_UDPDisableDomainUnmapping = ro_UDPDisableDomainUnmapping o',
     act_UDPConnect = ro_UDPConnect o',
     act_UDPTimeout = 0,
     act_TLSFragment = ro_TLSFragment o',
     act_TLSFragmentFallbackDelay = ro_TLSFragmentFallbackDelay o',
     act_TLSRecordFragment = ro_TLSRecordFragment o',
     act_BypassIfFailed = False\<rparr>"

fun hex_digits :: "nat \<Rightarrow> string" where
  "hex_digits n = (let d = [''0123456789abcdef'' ! (n mod 16)] in
     if n < 16 then d else hex_digits (n div 16) @ d)"

declare hex_digits.simps [simp del]

text \<open>\<open>append\<close> a description when the option is given.\<close>

definition describe :: "bool \<Rightarrow> string \<Rightarrow> string list" where
  "describe given d = (if given then [d] else [])"

definition Direct_Descriptions :: "fmt \<Rightarrow> DialerOptions \<Rightarrow> string list result" where
  "Direct_Descriptions F d =
     bind_result (if do_DomainStrategy d \<noteq> 0 then DomainStrategy_String (do_DomainStrategy d) else Inr []) (\<lambda>strategy.
     Inr (describe (do_BindInterface d \<noteq> []) (''bind_interface='' @ do_BindInterface d)
        @ describe (not_nil (do_Inet4BindAddress d))
            (''inet4_bind_address='' @ Addr_String F (case do_Inet4BindAddress d of Some a \<Rightarrow> a | None \<Rightarrow> Addr4 0))
        @ describe (not_nil (do_Inet6BindAddress d))
            (''inet6_bind_address='' @ Addr_String F (case do_Inet6BindAddress d of Some a \<Rightarrow> a | None \<Rightarrow> Addr6 0 []))
        @ describe (do_RoutingMark d \<noteq> 0) (''routing_mark=0x'' @ hex_digits (unat (do_RoutingMark d)))
        @ describe (do_ReuseAddr d) ''reuse_addr''
        @ describe (do_ConnectTimeout d \<noteq> 0) (''connect_timeout='' @ Duration_String F (do_ConnectTimeout d))
        @ describe (do_TCPFastOpen d) ''tcp_fast_open''
        @ describe (do_TCPMultiPath d) ''tcp_multi_path''
        @ describe (not_nil (do_UDPFragment d))
            (''udp_fragment='' @ (if do_UDPFragment d = Some True then ''true'' else ''false''))
        @ describe (do_DomainStrategy d \<noteq> 0) (''domain_strategy='' @ strategy)
        @ describe (do_FallbackDelay d \<noteq> 0) (''fallback_delay='' @ Duration_String F (do_FallbackDelay d))))"

definition direct_description :: "string list \<Rightarrow> string" where
  "direct_description ds = (case ds of
     [] \<Rightarrow> []
   | [d0] \<Rightarrow> ''('' @ d0 @ '')''
   | [d0, d1] \<Rightarrow> ''('' @ d0 @ '','' @ d1 @ '')''
   | d0 # d1 # _ \<Rightarrow> ''('' @ d0 @ '','' @ d1 @ '',...)'')"

text \<open>\<open>newDialer\<close> is \<open>dialer.New(ctx, _, false)\<close> on the context at hand. \<open>Inr None\<close> is the nil action.\<close>

definition NewRuleAction ::
  "('dm, 'ag, 'ip) lib \<Rightarrow> fmt \<Rightarrow> (DialerOptions \<Rightarrow> 'dl result) \<Rightarrow> RuleAction \<Rightarrow> ('dl, 'rr) rule_action option result" where
  "NewRuleAction L F newDialer a =
     (let ty = ac_Action a in
      if ty = [] then Inr None
      else if ty = RuleActionTypeRoute
      then Inr (Some (RuleActionRoute (ra_Outbound (ac_RouteOptions a))
             ((common_route_options L (ra_Raw (ac_RouteOptions a)))
               \<lparr>OverrideTunnelDestination := ro_OverrideTunnelDestination (ra_Raw (ac_RouteOptions a))\<rparr>)))
      else if ty = RuleActionTypeRouteOptions
      then Inr (Some (RuleActionRouteOptionsAction
             ((common_route_options L (ac_RouteOptionsOptions a))
               \<lparr>act_UDPTimeout := ro_UDPTimeout (ac_RouteOptionsOptions a)\<rparr>)))
      else if ty = RuleActionTypeBypass
      then Inr (Some (RuleActionBypass (ra_Outbound (ac_BypassOptions a))
             (common_route_options L (ra_Raw (ac_BypassOptions a)))))
      else if ty = RuleActionTypeDirect
      then bind_result (newDialer (ac_DirectOptions a)) (\<lambda>dl.
           bind_result (Direct_Descriptions F (ac_DirectOptions a)) (\<lambda>ds.
           Inr (Some (RuleActionDirect dl (direct_description ds)))))
      else if ty = RuleActionTypeReject
      then Inr (Some (RuleActionReject (rj_Method (ac_RejectOptions a)) (rj_NoDrop (ac_RejectOptions a)) []))
      else if ty = RuleActionTypeHijackDNS then Inr (Some RuleActionHijackDNS)
      else if ty = RuleActionTypeSniff
      then bind_result (RuleActionSniff_build \<lparr>SnifferNames = elems (so_Sniffer (ac_SniffOptions a)),
             StreamSniffers = [], PacketSniffers = [], sn_Timeout = so_Timeout (ac_SniffOptions a),
             OverrideDestination = False\<rparr>) (\<lambda>s. Inr (Some (RuleActionSniffAction s)))
      else if ty = RuleActionTypeResolve
      then Inr (Some (RuleActionResolveAction \<lparr>rv_Server = rs_Server (ac_ResolveOptions a),
             rv_Strategy = rs_Strategy (ac_ResolveOptions a),
             rv_DisableCache = rs_DisableCache (ac_ResolveOptions a),
             rv_RewriteTTL = rs_RewriteTTL (ac_ResolveOptions a),
             rv_ClientSubnet = Prefixable_Build L (rs_ClientSubnet (ac_ResolveOptions a)) zeroPrefix\<rparr>))
      else Inl (Panic [S ''unknown rule action: '', S ty]))"

text \<open>\<open>netip.Prefix(common.PtrValueOrDefault(p))\<close>\<close>

definition PtrValueOrDefault_Prefix :: "Prefix option \<Rightarrow> Prefix" where
  "PtrValueOrDefault_Prefix p = (case p of None \<Rightarrow> zeroPrefix | Some x \<Rightarrow> x)"

text \<open>\<open>DNSRCode.Build\<close> and \<open>DNSRecordOptions.Build\<close> of \<open>option/dns_record.go\<close>.\<close>

definition DNSRCode_Build :: "int option \<Rightarrow> int" where
  "DNSRCode_Build r = (case r of None \<Rightarrow> 0 | Some c \<Rightarrow> c)"

definition DNSRecordOptions_Build :: "'rr DNSRecordOptions \<Rightarrow> 'rr RR" where
  "DNSRecordOptions_Build o' = rec_RR o'"

definition NewDNSRuleAction :: "'rr DNSRuleAction \<Rightarrow> ('dl, 'rr) rule_action option result" where
  "NewDNSRuleAction a =
     (let ty = da_Action a in
      if ty = [] then Inr None
      else if ty = RuleActionTypeRoute
      then Inr (Some (RuleActionDNSRoute (dra_Server (da_RouteOptions a)) \<lparr>
             dns_Strategy = dra_Strategy (da_RouteOptions a),
             dns_DisableCache = dra_DisableCache (da_RouteOptions a),
             dns_RewriteTTL = dra_RewriteTTL (da_RouteOptions a),
             dns_ClientSubnet = PtrValueOrDefault_Prefix (dra_ClientSubnet (da_RouteOptions a)),
             dns_BypassIfFailed = dra_BypassIfFailed (da_RouteOptions a)\<rparr>))
      else if ty = RuleActionTypeRouteOptions
      then Inr (Some (RuleActionDNSRouteOptionsAction \<lparr>
             dns_Strategy = droa_Strategy (da_RouteOptionsOptions a),
             dns_DisableCache = droa_DisableCache (da_RouteOptionsOptions a),
             dns_RewriteTTL = droa_RewriteTTL (da_RouteOptionsOptions a),
             dns_ClientSubnet = PtrValueOrDefault_Prefix (droa_ClientSubnet (da_RouteOptionsOptions a)),
             dns_BypassIfFailed = False\<rparr>))
      else if ty = RuleActionTypeReject
      then Inr (Some (RuleActionReject (rj_Method (da_RejectOptions a)) (rj_NoDrop (da_RejectOptions a)) []))
      else if ty = RuleActionTypePredefined
      then Inr (Some (RuleActionPredefinedAction \<lparr>
             pr_Rcode = DNSRCode_Build (pd_Rcode (da_PredefinedOptions a)),
             pr_Answer = map DNSRecordOptions_Build (elems (pd_Answer (da_PredefinedOptions a))),
             pr_Ns = map DNSRecordOptions_Build (elems (pd_Ns (da_PredefinedOptions a))),
             pr_Extra = map DNSRecordOptions_Build (elems (pd_Extra (da_PredefinedOptions a)))\<rparr>))
      else Inl (Panic [S ''unknown rule action: '', S ty]))"

section \<open>Descriptions\<close>

definition Route_Descriptions :: "('dm, 'ag, 'ip) lib \<Rightarrow> fmt \<Rightarrow> RuleActionRouteOptions \<Rightarrow> string list" where
  "Route_Descriptions L F r =
     describe (Socksaddr_IsValid L (OverrideAddress r)) (''override-address='' @ AddrString F (OverrideAddress r))
     @ describe (OverridePort r > 0) (''override-port='' @ Itoa (unat (OverridePort r)))
     @ describe (OverrideTunnelDestination r \<noteq> []) (''override-tunnel-destination='' @ OverrideTunnelDestination r)
     @ describe (not_nil (act_NetworkStrategy r))
         (''network-strategy='' @ NetworkStrategy_String (case act_NetworkStrategy r of Some s \<Rightarrow> s | None \<Rightarrow> 0))
     @ describe (not_nil (act_NetworkType r))
         (''network-type='' @ Join (map InterfaceType_String (elems (act_NetworkType r))) '','')
     @ describe (not_nil (act_FallbackNetworkType r))
         (''fallback-network-type='' @ Join (map InterfaceType_String (elems (act_NetworkType r))) '','')
     @ describe (act_FallbackDelay r > 0) (''fallback-delay='' @ Duration_String F (act_FallbackDelay r))
     @ describe (act_UDPDisableDomainUnmapping r) ''udp-disable-domain-unmapping''
     @ describe (act_UDPConnect r) ''udp-connect''
     @ describe (act_UDPTimeout r > 0) ''udp-timeout''
     @ describe (act_TLSFragment r) ''tls-fragment''
     @ describe (act_TLSFragmentFallbackDelay r > 0)
         (''tls-fragment-fallback-delay='' @ Duration_String F (act_TLSFragmentFallbackDelay r))
     @ describe (act_TLSRecordFragment r) ''tls-record-fragment''"

definition DNS_Descriptions :: "fmt \<Rightarrow> RuleActionDNSRouteOptions \<Rightarrow> string list" where
  "DNS_Descriptions F r =
     describe (dns_DisableCache r) ''disable-cache''
     @ describe (not_nil (dns_RewriteTTL r))
         (''rewrite-ttl='' @ Itoa (unat (case dns_RewriteTTL r of Some t \<Rightarrow> t | None \<Rightarrow> 0)))
     @ describe (Prefix_IsValid (dns_ClientSubnet r)) (''client-subnet='' @ Prefix_String F (dns_ClientSubnet r))"

definition Sniff_String :: "fmt \<Rightarrow> RuleActionSniff \<Rightarrow> string" where
  "Sniff_String F r =
     (if length (SnifferNames r) = 0 \<and> sn_Timeout r = 0 then ''sniff''
      else if length (SnifferNames r) > 0 \<and> sn_Timeout r = 0 then ''sniff('' @ Join (SnifferNames r) '','' @ '')''
      else if length (SnifferNames r) = 0 \<and> sn_Timeout r > 0 then ''sniff('' @ Duration_String F (sn_Timeout r) @ '')''
      else ''sniff('' @ Join (SnifferNames r) '','' @ '','' @ Duration_String F (sn_Timeout r) @ '')'')"

definition Resolve_String :: "fmt \<Rightarrow> RuleActionResolve \<Rightarrow> string result" where
  "Resolve_String F r =
     bind_result (if rv_Strategy r \<noteq> 0 then DomainStrategy_String (rv_Strategy r) else Inr []) (\<lambda>strategy.
     (let options =
        describe (rv_Server r \<noteq> []) (rv_Server r)
        @ describe (rv_Strategy r \<noteq> 0) strategy
        @ describe (rv_DisableCache r) ''disable_cache''
        @ describe (not_nil (rv_RewriteTTL r))
            (''rewrite_ttl='' @ Itoa (unat (case rv_RewriteTTL r of Some t \<Rightarrow> t | None \<Rightarrow> 0)))
        @ describe (Prefix_IsValid (rv_ClientSubnet r)) (''client_subnet='' @ Prefix_String F (rv_ClientSubnet r))
      in Inr (if length options = 0 then ''resolve'' else ''resolve('' @ Join options '','' @ '')'')))"

text \<open>\<open>rcode\<close> and \<open>rr_String\<close> are \<open>dns.RcodeToString\<close> and \<open>dns.RR.String\<close>.\<close>

definition action_String ::
  "('dm, 'ag, 'ip) lib \<Rightarrow> fmt \<Rightarrow> (int \<Rightarrow> string) \<Rightarrow> ('rr RR \<Rightarrow> string) \<Rightarrow> ('dl, 'rr) rule_action \<Rightarrow> string result" where
  "action_String L F rcode rr_String a = (case a of
     RuleActionRoute outbound r \<Rightarrow> Inr (''route('' @ Join (outbound # Route_Descriptions L F r) '','' @ '')'')
   | RuleActionBypass outbound r \<Rightarrow>
       Inr (if outbound = [] then ''bypass()''
            else ''bypass('' @ Join (outbound # Route_Descriptions L F r) '','' @ '')'')
   | RuleActionRouteOptionsAction r \<Rightarrow> Inr (''route-options('' @ Join (Route_Descriptions L F r) '','' @ '')'')
   | RuleActionDNSRoute server r \<Rightarrow> Inr (''route('' @ Join (server # DNS_Descriptions F r) '','' @ '')'')
   | RuleActionDNSRouteOptionsAction r \<Rightarrow> Inr (''route-options('' @ Join (DNS_Descriptions F r) '','' @ '')'')
   | RuleActionDirect _ description \<Rightarrow> Inr (''direct'' @ description)
   | RuleActionReject method _ _ \<Rightarrow>
       Inr (if method = RuleActionRejectMethodDefault then ''reject'' else ''reject('' @ method @ '')'')
   | RuleActionHijackDNS \<Rightarrow> Inr ''hijack-dns''
   | RuleActionSniffAction r \<Rightarrow> Inr (Sniff_String F r)
   | RuleActionResolveAction r \<Rightarrow> Resolve_String F r
   | RuleActionPredefinedAction r \<Rightarrow>
       Inr (''predefined('' @ Join (rcode (pr_Rcode r) # map rr_String (pr_Answer r) @ map rr_String (pr_Ns r)
              @ map rr_String (pr_Extra r)) '','' @ '')''))"

section \<open>Reject\<close>

text \<open>Times and durations are nanoseconds.\<close>

definition second :: duration where "second = 1000000000"

datatype reject_cause = ErrReset | ErrDrop

text \<open>
  \<open>RuleActionReject.Error\<close> on a call at time \<open>now\<close>: the \<open>RejectedError\<close> it returns, if any, and the new
  \<open>dropCounter\<close>. The whole body runs under \<open>dropAccess\<close>.
\<close>

definition RejectError ::
  "string \<Rightarrow> bool \<Rightarrow> int \<Rightarrow> int list \<Rightarrow> (reject_cause option \<times> int list) result" where
  "RejectError method noDrop now dropCounter =
     (if method = RuleActionRejectMethodDefault
      then if noDrop then Inr (Some ErrReset, dropCounter)
           else (let counter = filter (\<lambda>t. now - t \<le> 30 * second) dropCounter @ [now] in
                 if length counter > 50 then Inr (Some ErrDrop, counter) else Inr (Some ErrReset, counter))
      else if method = RuleActionRejectMethodDrop then Inr (Some ErrDrop, dropCounter)
      else if method = RuleActionRejectMethodReply then Inr (None, dropCounter)
      else Inl (Panic [S ''unknown reject method: '', S method]))"

text \<open>The state after calls at the given times, oldest first.\<close>

definition reject_run :: "int list \<Rightarrow> int list \<Rightarrow> int list" where
  "reject_run ts counter =
     fold (\<lambda>now c. case RejectError RuleActionRejectMethodDefault False now c of
             Inr (_, c') \<Rightarrow> c' | Inl _ \<Rightarrow> c) ts counter"

definition recent :: "int \<Rightarrow> int list \<Rightarrow> int list" where
  "recent now ts = filter (\<lambda>t. now - t \<le> 30 * second) ts"

lemma reject_step:
  "(case RejectError RuleActionRejectMethodDefault False now c of Inr (_, c') \<Rightarrow> c' | Inl _ \<Rightarrow> c) =
     recent now c @ [now]"
  by (simp add: RejectError_def Let_def recent_def)

lemma recent_append [simp]: "recent now (xs @ ys) = recent now xs @ recent now ys"
  by (simp add: recent_def)

lemma recent_recent: "u \<le> now \<Longrightarrow> recent now (recent u ts) = recent now ts"
  by (induction ts) (auto simp: recent_def)

text \<open>With a clock that does not run backwards the counter holds the calls of the last 30 seconds.\<close>

lemma reject_run_recent:
  assumes "sorted (ts @ [now])"
  shows "recent now (reject_run ts []) = recent now ts"
  using assms
proof (induction ts rule: rev_induct)
  case Nil
  then show ?case by (simp add: reject_run_def)
next
  case (snoc u ts)
  have "recent now (reject_run (ts @ [u]) []) = recent now (recent u (reject_run ts []) @ [u])"
    by (simp add: reject_run_def reject_step)
  moreover have "recent now (recent u (reject_run ts [])) = recent now (reject_run ts [])"
    using snoc.prems by (intro recent_recent) (simp add: sorted_append)
  moreover have "recent now (reject_run ts []) = recent now ts"
    using snoc by (simp add: sorted_append)
  ultimately show ?case by simp
qed

section \<open>Predefined answers\<close>

definition HasSuffix :: "string \<Rightarrow> string \<Rightarrow> bool" where
  "HasSuffix s suf = suffix suf s"

definition rewriteRecords :: "'rr RR list \<Rightarrow> string \<Rightarrow> 'rr RR list" where
  "rewriteRecords records question =
     map (\<lambda>it. if HasPrefix (rr_Name it) ''*''
               then if HasSuffix question (drop 1 (rr_Name it)) then it\<lparr>rr_Name := question\<rparr> else it
               else it) records"

record ('q, 'rr) Msg =
  msg_Id :: "16 word"
  msg_Response :: bool
  msg_Authoritative :: bool
  msg_RecursionDesired :: bool
  msg_RecursionAvailable :: bool
  msg_Rcode :: int
  msg_Question :: "(string \<times> 'q) list"
  msg_Answer :: "'rr RR list"
  msg_Ns :: "'rr RR list"
  msg_Extra :: "'rr RR list"

text \<open>\<open>request.Question[0]\<close> of a request without a question panics.\<close>

definition Predefined_Response :: "'rr RuleActionPredefined \<Rightarrow> ('q, 'rr) Msg \<Rightarrow> ('q, 'rr) Msg result" where
  "Predefined_Response r request =
     (case msg_Question request of
        [] \<Rightarrow> Inl (Panic [S ''index out of range''])
      | (name, _) # _ \<Rightarrow> Inr \<lparr>
          msg_Id = msg_Id request, msg_Response = True, msg_Authoritative = True,
          msg_RecursionDesired = True, msg_RecursionAvailable = True, msg_Rcode = pr_Rcode r,
          msg_Question = msg_Question request,
          msg_Answer = rewriteRecords (pr_Answer r) name,
          msg_Ns = rewriteRecords (pr_Ns r) name,
          msg_Extra = rewriteRecords (pr_Extra r) name\<rparr>)"

section \<open>Specifications\<close>

lemma build_sniffers_spec:
  "build_sniffers names r =
     (case find (\<lambda>n. sniffers_of n = None) names of
        Some n \<Rightarrow> Inl (E_New [S ''unknown sniffer: '', S n])
      | None \<Rightarrow> Inr (r\<lparr>StreamSniffers := StreamSniffers r @ concat (map (\<lambda>n. fst (the (sniffers_of n))) names),
                      PacketSniffers := PacketSniffers r @ concat (map (\<lambda>n. snd (the (sniffers_of n))) names)\<rparr>))"
proof (induction names arbitrary: r)
  case Nil
  then show ?case by simp
next
  case (Cons n names)
  then show ?case by (cases "sniffers_of n") (auto split: option.splits)
qed

lemma HasPrefix_star: "HasPrefix s ''*'' \<longleftrightarrow> (\<exists>t. s = CHR ''*'' # t)"
  by (cases s) (auto simp: HasPrefix_def)

lemma rewriteRecords_spec:
  "list_all2 (\<lambda>it it'. rr_rest it' = rr_rest it
     \<and> rr_Name it' = (if \<exists>suf. rr_Name it = CHR ''*'' # suf \<and> suffix suf name then name else rr_Name it))
     records (rewriteRecords records name)"
  by (induction records) (auto simp: rewriteRecords_def HasPrefix_star HasSuffix_def)

end
