(* ===== verification/Route_Rules.thy ===== *)
theory Route_Rules
  imports Rule_Set_Items Rule_Actions
begin

text \<open>
  Route rules (\<open>route/rule/rule_default.go\<close>): construction from the options, start and matching of
  default and logical rules. The rule trees are shared with the DNS rules.
\<close>

section \<open>Rules\<close>

datatype (dead 'i, dead 'a) rule_tree =
    DefaultR "('i, 'a) abstractDefaultRule"
  | LogicalR "('i, 'a) rule_tree list" mode bool "'a option"

type_synonym ('dm, 'ag, 'ip, 'dl, 'rr) rule = "(('dm, 'ag, 'ip) any_item, ('dl, 'rr) rule_action) rule_tree"

fun tree_Action :: "('i, 'a) rule_tree \<Rightarrow> 'a option" where
  "tree_Action (DefaultR r) = action r"
| "tree_Action (LogicalR _ _ _ act) = act"

section \<open>Construction of a default rule\<close>

type_synonym ('dm, 'ag, 'ip, 'dl, 'rr) rule_step =
  "(('dm, 'ag, 'ip) any_item, ('dl, 'rr) rule_action) build_step"

definition leaf_result :: "('dm, 'ag, 'ip) leaf_item result \<Rightarrow> ('dm, 'ag, 'ip) any_item result" where
  "leaf_result r = bind_result r (\<lambda>i. Inr (Leaf i))"

lemma leaf_result_Inr [simp]: "leaf_result r = Inr i \<longleftrightarrow> (\<exists>l. r = Inr l \<and> i = Leaf l)"
  by (auto simp: leaf_result_def bind_result_Inr_iff)

definition opt_leaf :: "bool \<Rightarrow> group \<Rightarrow> ('dm, 'ag, 'ip) leaf_item result \<Rightarrow> (('dm, 'ag, 'ip) any_item, 'a) build_step" where
  "opt_leaf given g mk = opt_item given g (leaf_result mk)"

lemma good_opt_leaf [intro!, simp]: "good_step (opt_leaf given g mk)"
  by (simp add: opt_leaf_def)

lemma fills_opt_leaf: "b = (given \<and> h = g) \<Longrightarrow> fills g b (opt_leaf given h mk)"
  by (auto simp: opt_leaf_def)

text \<open>The \<open>IPVersion\<close> switch.\<close>

definition ip_version_step :: "int \<Rightarrow> (('dm, 'ag, 'ip) any_item, 'a) build_step" where
  "ip_version_step v =
     (if v > 0
      then if v = 4 \<or> v = 6 then opt_leaf True Items (Inr (NewIPVersionItem (v = 6)))
           else reject_if True (E_New [S ''invalid ip version: '', N (nat v)])
      else opt_leaf False Items (Inr (NewIPVersionItem False)))"

lemma good_ip_version_step [intro!, simp]: "good_step (ip_version_step v)"
  by (simp add: ip_version_step_def)

definition geosite_error :: error where
  "geosite_error = E_New [S ''geosite database is deprecated in sing-box 1.8.0 and removed in sing-box 1.12.0'']"

definition geoip_error :: error where
  "geoip_error = E_New [S ''geoip database is deprecated in sing-box 1.8.0 and removed in sing-box 1.12.0'']"

definition route_basic_steps ::
  "('dm, 'ag, 'ip) lib \<Rightarrow> RawDefaultRule \<Rightarrow> ('dm, 'ag, 'ip, 'dl, 'rr) rule_step list" where
  "route_basic_steps L o' = [
     opt_leaf (nonempty (dr_Inbound o')) Items (Inr (NewInboundRule (elems (dr_Inbound o')))),
     ip_version_step (dr_IPVersion o'),
     opt_leaf (nonempty (dr_Network o')) Items (Inr (NewNetworkItem (elems (dr_Network o')))),
     opt_leaf (nonempty (dr_AuthUser o')) Items (Inr (NewAuthUserItem (elems (dr_AuthUser o')))),
     opt_leaf (nonempty (dr_Protocol o')) Items (Inr (NewProtocolItem (elems (dr_Protocol o')))),
     opt_leaf (nonempty (dr_Client o')) Items (Inr (NewClientItem (elems (dr_Client o')))),
     opt_leaf (nonempty (dr_Domain o') \<or> nonempty (dr_DomainSuffix o')) DestinationAddress
       (NewDomainItem L (elems (dr_Domain o')) (elems (dr_DomainSuffix o'))),
     opt_leaf (nonempty (dr_DomainKeyword o')) DestinationAddress
       (Inr (NewDomainKeywordItem (elems (dr_DomainKeyword o')))),
     opt_leaf (nonempty (dr_DomainRegex o')) DestinationAddress (NewDomainRegexItem L (elems (dr_DomainRegex o'))),
     reject_if (nonempty (dr_Geosite o')) geosite_error,
     reject_if (nonempty (dr_SourceGeoIP o')) geoip_error,
     reject_if (nonempty (dr_GeoIP o')) geoip_error,
     opt_leaf (nonempty (dr_SourceIPCIDR o')) SourceAddress
       (cause ''source_ip_cidr'' (NewIPCIDRItem L True (elems (dr_SourceIPCIDR o')))),
     opt_leaf (dr_SourceIPIsPrivate o') SourceAddress (Inr (NewIPIsPrivateItem True)),
     opt_leaf (nonempty (dr_IPCIDR o')) DestinationIPCIDR
       (cause ''ipcidr'' (NewIPCIDRItem L False (elems (dr_IPCIDR o')))),
     opt_leaf (dr_IPIsPrivate o') DestinationIPCIDR (Inr (NewIPIsPrivateItem False))]"

definition route_port_steps :: "RawDefaultRule \<Rightarrow> ('dm, 'ag, 'ip, 'dl, 'rr) rule_step list" where
  "route_port_steps o' = [
     opt_leaf (nonempty (dr_SourcePort o')) SourcePort (Inr (NewPortItem True (elems (dr_SourcePort o')))),
     opt_leaf (nonempty (dr_SourcePortRange o')) SourcePort
       (cause ''source_port_range'' (NewPortRangeItem True (elems (dr_SourcePortRange o')))),
     opt_leaf (nonempty (dr_Port o')) DestinationPort (Inr (NewPortItem False (elems (dr_Port o')))),
     opt_leaf (nonempty (dr_PortRange o')) DestinationPort
       (cause ''port_range'' (NewPortRangeItem False (elems (dr_PortRange o'))))]"

definition route_process_steps ::
  "('dm, 'ag, 'ip) lib \<Rightarrow> RawDefaultRule \<Rightarrow> ('dm, 'ag, 'ip, 'dl, 'rr) rule_step list" where
  "route_process_steps L o' = [
     opt_leaf (nonempty (dr_TunnelSource o')) Items (Inr (NewTunnelSourceItem (elems (dr_TunnelSource o')))),
     opt_leaf (nonempty (dr_TunnelDestination o')) Items
       (Inr (NewTunnelDestinationItem (elems (dr_TunnelDestination o')))),
     opt_leaf (nonempty (dr_ProcessName o')) Items (Inr (NewProcessItem (elems (dr_ProcessName o')))),
     opt_leaf (nonempty (dr_ProcessPath o')) Items (Inr (NewProcessPathItem (elems (dr_ProcessPath o')))),
     opt_leaf (nonempty (dr_ProcessPathRegex o')) Items
       (cause ''process_path_regex'' (NewProcessPathRegexItem L (elems (dr_ProcessPathRegex o')))),
     opt_leaf (nonempty (dr_PackageName o')) Items (Inr (NewPackageNameItem (elems (dr_PackageName o')))),
     opt_leaf (nonempty (dr_User o')) Items (Inr (NewUserItem (elems (dr_User o')))),
     opt_leaf (nonempty (dr_UserID o')) Items (Inr (NewUserIDItem (elems (dr_UserID o')))),
     opt_leaf (dr_ClashMode o' \<noteq> []) Items (Inr (NewClashModeItem (dr_ClashMode o')))]"

definition route_network_steps ::
  "('dm, 'ag, 'ip) lib \<Rightarrow> RawDefaultRule \<Rightarrow> ('dm, 'ag, 'ip, 'dl, 'rr) rule_step list" where
  "route_network_steps L o' = [
     opt_leaf (nonempty (dr_NetworkType o')) Items (Inr (NewNetworkTypeItem (elems (dr_NetworkType o')))),
     opt_leaf (dr_NetworkIsExpensive o') Items (Inr NetworkIsExpensiveItem),
     opt_leaf (dr_NetworkIsConstrained o') Items (Inr NetworkIsConstrainedItem),
     opt_leaf (nonempty (dr_WIFISSID o')) Items (Inr (NewWIFISSIDItem (elems (dr_WIFISSID o')))),
     opt_leaf (nonempty (dr_WIFIBSSID o')) Items (Inr (NewWIFIBSSIDItem (elems (dr_WIFIBSSID o')))),
     opt_leaf (nonempty (dr_InterfaceAddress o')) Items
       (Inr (NewInterfaceAddressItem L (elems (dr_InterfaceAddress o')))),
     opt_leaf (nonempty (dr_NetworkInterfaceAddress o')) Items
       (Inr (NewNetworkInterfaceAddressItem L (elems (dr_NetworkInterfaceAddress o')))),
     opt_leaf (nonempty (dr_DefaultInterfaceAddress o')) Items
       (Inr (NewDefaultInterfaceAddressItem L (elems (dr_DefaultInterfaceAddress o')))),
     opt_leaf (nonempty (dr_PreferredBy o')) Items (Inr (NewPreferredByItem (elems (dr_PreferredBy o')))),
     opt_item (nonempty (dr_RuleSet o')) Items
       (Inr (NewRuleSetItem (elems (dr_RuleSet o'))
          (dr_RuleSetIPCIDRMatchSource o' \<or> dr_Deprecated_RulesetIPCIDRMatchSource o') False))]"

text \<open>What the constructors take from their context: the library, the printing functions and
  \<open>dialer.New\<close>.\<close>

record ('dm, 'ag, 'ip, 'dl) ctx =
  cx_lib :: "('dm, 'ag, 'ip) lib"
  cx_fmt :: fmt
  cx_newDialer :: "DialerOptions \<Rightarrow> 'dl result"

definition NewDefaultRule ::
  "('dm, 'ag, 'ip, 'dl) ctx \<Rightarrow> DefaultRule \<Rightarrow>
   (('dm, 'ag, 'ip) any_item, ('dl, 'rr) rule_action) abstractDefaultRule result" where
  "NewDefaultRule cx o' =
     bind_result (cause ''action'' (NewRuleAction (cx_lib cx) (cx_fmt cx) (cx_newDialer cx) (rule_Action o')))
       (\<lambda>act. run_steps (route_basic_steps (cx_lib cx) (rule_Raw o') @ route_port_steps (rule_Raw o')
                 @ route_process_steps (cx_lib cx) (rule_Raw o') @ route_network_steps (cx_lib cx) (rule_Raw o'))
              (empty_rule (dr_Invert (rule_Raw o')) act))"

section \<open>Construction of a rule\<close>

text \<open>A route action needs an outbound when \<open>checkOutbound\<close>.\<close>

definition require_outbound :: "bool \<Rightarrow> RuleAction \<Rightarrow> 'x result \<Rightarrow> 'x result" where
  "require_outbound checkOutbound act k =
     (if (ac_Action act = [] \<or> ac_Action act = RuleActionTypeRoute) \<and> ra_Outbound (ac_RouteOptions act) = [] \<and> checkOutbound
      then Inl (E_New [S ''missing outbound field'']) else k)"

lemma require_outbound_cong [fundef_cong]:
  "b = b' \<Longrightarrow> a = a' \<Longrightarrow> k = k' \<Longrightarrow> require_outbound b a k = require_outbound b' a' k'"
  by simp

definition NewLogicalRule ::
  "('dm, 'ag, 'ip, 'dl) ctx \<Rightarrow> RuleAction \<Rightarrow> string \<Rightarrow> ('dm, 'ag, 'ip, 'dl, 'rr) rule list result \<Rightarrow> bool \<Rightarrow>
   ('dm, 'ag, 'ip, 'dl, 'rr) rule result" where
  "NewLogicalRule cx act md rules neg =
     bind_result (cause ''action'' (NewRuleAction (cx_lib cx) (cx_fmt cx) (cx_newDialer cx) act)) (\<lambda>a.
     bind_result (parse_mode md) (\<lambda>m. bind_result rules (\<lambda>rs. Inr (LogicalR rs m neg a))))"

lemma NewLogicalRule_Inr [simp]:
  "NewLogicalRule cx act md rules neg = Inr r \<longleftrightarrow>
     (\<exists>a m rs. NewRuleAction (cx_lib cx) (cx_fmt cx) (cx_newDialer cx) act = Inr a \<and> parse_mode md = Inr m
        \<and> rules = Inr rs \<and> r = LogicalR rs m neg a)"
  by (auto simp: NewLogicalRule_def bind_result_Inr_iff)

fun NewRule ::
  "('dm, 'ag, 'ip, 'dl) ctx \<Rightarrow> bool \<Rightarrow> Rule \<Rightarrow> ('dm, 'ag, 'ip, 'dl, 'rr) rule result" where
  "NewRule cx checkOutbound (Rule ty d md rules neg act) =
     (if ty = [] \<or> ty = RuleTypeDefault
      then require_valid (Inr (DefaultRule_IsValid d))
             (require_outbound checkOutbound (rule_Action d)
               (bind_result (NewDefaultRule cx d) (\<lambda>r. Inr (DefaultR r))))
      else if ty = RuleTypeLogical
      then require_valid (LogicalRule_IsValid rules)
             (require_outbound checkOutbound act
               (NewLogicalRule cx act md (map_result sub_rule_error 0 (NewRule cx False) rules) neg))
      else Inl (E_New [S ''unknown rule type: '', S ty]))"

section \<open>Start\<close>

text \<open>\<open>Start\<close> starts the items of \<open>allItems\<close>; the groups hold the same pointers.\<close>

definition item_started ::
  "env \<Rightarrow> ('dm, 'ag, 'ip, 'cb) store \<Rightarrow> ('dm, 'ag, 'ip) any_item \<Rightarrow> ('dm, 'ag, 'ip) any_item result" where
  "item_started V G i = bind_result (any_item_Start V i G) (\<lambda>(i', _). Inr i')"

definition store_after ::
  "env \<Rightarrow> ('dm, 'ag, 'ip) any_item list \<Rightarrow> ('dm, 'ag, 'ip, 'cb) store \<Rightarrow> ('dm, 'ag, 'ip, 'cb) store" where
  "store_after V is G =
     fold (\<lambda>i G. case any_item_Start V i G of Inr (_, G') \<Rightarrow> G' | Inl _ \<Rightarrow> G) is G"

fun tree_Start ::
  "env \<Rightarrow> (('dm, 'ag, 'ip) any_item, 'a) rule_tree \<Rightarrow> ('dm, 'ag, 'ip, 'cb) store \<Rightarrow>
   ((('dm, 'ag, 'ip) any_item, 'a) rule_tree \<times> ('dm, 'ag, 'ip, 'cb) store) result"
and trees_Start ::
  "env \<Rightarrow> (('dm, 'ag, 'ip) any_item, 'a) rule_tree list \<Rightarrow> ('dm, 'ag, 'ip, 'cb) store \<Rightarrow>
   ((('dm, 'ag, 'ip) any_item, 'a) rule_tree list \<times> ('dm, 'ag, 'ip, 'cb) store) result" where
  "tree_Start V (DefaultR r) G =
     bind_result (adr_Start (item_started V G) r) (\<lambda>r'. Inr (DefaultR r', store_after V (allItems r) G))"
| "tree_Start V (LogicalR rs md neg act) G =
     bind_result (trees_Start V rs G) (\<lambda>(rs', G'). Inr (LogicalR rs' md neg act, G'))"
| "trees_Start V [] G = Inr ([], G)"
| "trees_Start V (r # rs) G =
     bind_result (tree_Start V r G) (\<lambda>(r', G').
     bind_result (trees_Start V rs G') (\<lambda>(rs', G''). Inr (r' # rs', G'')))"

section \<open>Matching\<close>

fun rule_Match ::
  "('dm, 'ag, 'ip) lib \<Rightarrow> env \<Rightarrow> ('dm, 'ag, 'ip, 'cb) store \<Rightarrow> (('dm, 'ag, 'ip) any_item, 'a) rule_tree \<Rightarrow>
   InboundContext \<Rightarrow> bool \<times> InboundContext" where
  "rule_Match L V G (DefaultR r) c = adr_Match (any_item_Match L V G) isRuleSet r c"
| "rule_Match L V G (LogicalR rs md neg _) c = logical_Match (rule_Match L V G) rs md neg c"

lemma logical_Match_frame:
  assumes "\<And>r c. r \<in> set rs \<Longrightarrow> core (snd (f r c)) = core c"
  shows "core (snd (logical_Match f rs md neg c)) = core c"
proof (rule logical_Match_spec(2) [where den = "\<lambda>r c. fst (f r c)"])
  show "fst (f r (ResetRuleCache c)) = fst (f r (core c))" for r c by (simp add: core_def)
qed (rule assms)

lemma rule_Match_frame: "core (snd (rule_Match L V G r c)) = core c"
proof (induction r arbitrary: c)
  case (DefaultR r)
  show ?case by (simp add: item.adr_Match_frame)
next
  case (LogicalR rs md neg act)
  then show ?case by (simp add: logical_Match_frame)
qed

text \<open>The meaning of a rule on a connection: what it answers from an empty rule cache.\<close>

fun rule_means ::
  "('dm, 'ag, 'ip) lib \<Rightarrow> env \<Rightarrow> ('dm, 'ag, 'ip, 'cb) store \<Rightarrow> (('dm, 'ag, 'ip) any_item, 'a) rule_tree \<Rightarrow>
   InboundContext \<Rightarrow> bool" where
  "rule_means L V G (DefaultR r) c = fst (adr_Match (any_item_Match L V G) isRuleSet r (core c))"
| "rule_means L V G (LogicalR rs md neg _) c =
     ((case md of ModeAnd \<Rightarrow> list_all (\<lambda>r. rule_means L V G r c) rs
                | ModeOr \<Rightarrow> list_ex (\<lambda>r. rule_means L V G r c) rs) \<noteq> neg)"

lemma rule_means_core: "rule_means L V G r (core c) = rule_means L V G r c"
  by (induction r) (auto simp: list_all_iff list_ex_iff split: mode.splits)

lemma rule_Match_means: "fst (rule_Match L V G r (ResetRuleCache c)) = rule_means L V G r c"
proof (induction r arbitrary: c)
  case (DefaultR r)
  show ?case by (simp add: core_def)
next
  case (LogicalR rs md neg act)
  have "fst (logical_Match (rule_Match L V G) rs md neg (ResetRuleCache c)) =
      logical_holds (\<lambda>r. rule_means L V G r (core (ResetRuleCache c))) rs md neg"
    by (rule logical_Match_spec) (auto simp: LogicalR.IH rule_Match_frame rule_means_core)
  then show ?case by (cases md) (simp_all add: logical_holds_def rule_means_core)
qed

end
