(* ===== verification/DNS_Rules.thy ===== *)
theory DNS_Rules
  imports Route_Rules
begin

text \<open>
  DNS rules (\<open>route/rule/rule_dns.go\<close>). A DNS rule is asked twice: before the query, when no address
  is known (\<open>Match\<close>, which switches the IP-CIDR conditions off), and for a rule \<open>WithAddressLimit\<close>
  again on the response (\<open>MatchAddressLimit\<close>).
\<close>

section \<open>Construction\<close>

definition dns_basic_steps ::
  "('dm, 'ag, 'ip) lib \<Rightarrow> RawDefaultDNSRule \<Rightarrow> ('dm, 'ag, 'ip, 'dl, 'rr) rule_step list" where
  "dns_basic_steps L o' = [
     opt_leaf (nonempty (dn_Inbound o')) Items (Inr (NewInboundRule (elems (dn_Inbound o')))),
     ip_version_step (dn_IPVersion o'),
     opt_leaf (nonempty (dn_QueryType o')) Items (Inr (NewQueryTypeItem (elems (dn_QueryType o')))),
     opt_leaf (nonempty (dn_Network o')) Items (Inr (NewNetworkItem (elems (dn_Network o')))),
     opt_leaf (nonempty (dn_AuthUser o')) Items (Inr (NewAuthUserItem (elems (dn_AuthUser o')))),
     opt_leaf (nonempty (dn_Protocol o')) Items (Inr (NewProtocolItem (elems (dn_Protocol o')))),
     opt_leaf (nonempty (dn_Domain o') \<or> nonempty (dn_DomainSuffix o')) DestinationAddress
       (NewDomainItem L (elems (dn_Domain o')) (elems (dn_DomainSuffix o'))),
     opt_leaf (nonempty (dn_DomainKeyword o')) DestinationAddress
       (Inr (NewDomainKeywordItem (elems (dn_DomainKeyword o')))),
     opt_leaf (nonempty (dn_DomainRegex o')) DestinationAddress
       (cause ''domain_regex'' (NewDomainRegexItem L (elems (dn_DomainRegex o')))),
     reject_if (nonempty (dn_Geosite o')) geosite_error,
     reject_if (nonempty (dn_SourceGeoIP o')) geoip_error,
     reject_if (nonempty (dn_GeoIP o')) geoip_error]"

definition dns_address_steps ::
  "('dm, 'ag, 'ip) lib \<Rightarrow> RawDefaultDNSRule \<Rightarrow> ('dm, 'ag, 'ip, 'dl, 'rr) rule_step list" where
  "dns_address_steps L o' = [
     opt_leaf (nonempty (dn_SourceIPCIDR o')) SourceAddress
       (cause ''source_ip_cidr'' (NewIPCIDRItem L True (elems (dn_SourceIPCIDR o')))),
     opt_leaf (nonempty (dn_IPCIDR o')) DestinationIPCIDR
       (cause ''ip_cidr'' (NewIPCIDRItem L False (elems (dn_IPCIDR o')))),
     opt_leaf (dn_SourceIPIsPrivate o') SourceAddress (Inr (NewIPIsPrivateItem True)),
     opt_leaf (dn_IPIsPrivate o') DestinationIPCIDR (Inr (NewIPIsPrivateItem False)),
     opt_leaf (dn_IPAcceptAny o') DestinationIPCIDR (Inr NewIPAcceptAnyItem),
     opt_leaf (nonempty (dn_SourcePort o')) SourcePort (Inr (NewPortItem True (elems (dn_SourcePort o')))),
     opt_leaf (nonempty (dn_SourcePortRange o')) SourcePort
       (cause ''source_port_range'' (NewPortRangeItem True (elems (dn_SourcePortRange o')))),
     opt_leaf (nonempty (dn_Port o')) DestinationPort (Inr (NewPortItem False (elems (dn_Port o')))),
     opt_leaf (nonempty (dn_PortRange o')) DestinationPort
       (cause ''port_range'' (NewPortRangeItem False (elems (dn_PortRange o'))))]"

definition dns_process_steps ::
  "('dm, 'ag, 'ip) lib \<Rightarrow> RawDefaultDNSRule \<Rightarrow> ('dm, 'ag, 'ip, 'dl, 'rr) rule_step list" where
  "dns_process_steps L o' = [
     opt_leaf (nonempty (dn_TunnelSource o')) Items (Inr (NewTunnelSourceItem (elems (dn_TunnelSource o')))),
     opt_leaf (nonempty (dn_TunnelDestination o')) Items
       (Inr (NewTunnelDestinationItem (elems (dn_TunnelDestination o')))),
     opt_leaf (nonempty (dn_ProcessName o')) Items (Inr (NewProcessItem (elems (dn_ProcessName o')))),
     opt_leaf (nonempty (dn_ProcessPath o')) Items (Inr (NewProcessPathItem (elems (dn_ProcessPath o')))),
     opt_leaf (nonempty (dn_ProcessPathRegex o')) Items
       (cause ''process_path_regex'' (NewProcessPathRegexItem L (elems (dn_ProcessPathRegex o')))),
     opt_leaf (nonempty (dn_PackageName o')) Items (Inr (NewPackageNameItem (elems (dn_PackageName o')))),
     opt_leaf (nonempty (dn_User o')) Items (Inr (NewUserItem (elems (dn_User o')))),
     opt_leaf (nonempty (dn_UserID o')) Items (Inr (NewUserIDItem (elems (dn_UserID o')))),
     opt_leaf (nonempty (dn_Outbound o')) Items (Inr (NewOutboundRule (elems (dn_Outbound o')))),
     opt_leaf (dn_ClashMode o' \<noteq> []) Items (Inr (NewClashModeItem (dn_ClashMode o')))]"

definition dns_network_steps ::
  "('dm, 'ag, 'ip) lib \<Rightarrow> RawDefaultDNSRule \<Rightarrow> ('dm, 'ag, 'ip, 'dl, 'rr) rule_step list" where
  "dns_network_steps L o' = [
     opt_leaf (nonempty (dn_NetworkType o')) Items (Inr (NewNetworkTypeItem (elems (dn_NetworkType o')))),
     opt_leaf (dn_NetworkIsExpensive o') Items (Inr NetworkIsExpensiveItem),
     opt_leaf (dn_NetworkIsConstrained o') Items (Inr NetworkIsConstrainedItem),
     opt_leaf (nonempty (dn_WIFISSID o')) Items (Inr (NewWIFISSIDItem (elems (dn_WIFISSID o')))),
     opt_leaf (nonempty (dn_WIFIBSSID o')) Items (Inr (NewWIFIBSSIDItem (elems (dn_WIFIBSSID o')))),
     opt_leaf (nonempty (dn_InterfaceAddress o')) Items
       (Inr (NewInterfaceAddressItem L (elems (dn_InterfaceAddress o')))),
     opt_leaf (nonempty (dn_NetworkInterfaceAddress o')) Items
       (Inr (NewNetworkInterfaceAddressItem L (elems (dn_NetworkInterfaceAddress o')))),
     opt_leaf (nonempty (dn_DefaultInterfaceAddress o')) Items
       (Inr (NewDefaultInterfaceAddressItem L (elems (dn_DefaultInterfaceAddress o')))),
     opt_item (nonempty (dn_RuleSet o')) Items
       (Inr (NewRuleSetItem (elems (dn_RuleSet o'))
          (dn_RuleSetIPCIDRMatchSource o' \<or> dn_Deprecated_RulesetIPCIDRMatchSource o')
          (dn_RuleSetIPCIDRAcceptEmpty o')))]"

definition NewDefaultDNSRule ::
  "('dm, 'ag, 'ip, 'dl) ctx \<Rightarrow> 'rr DefaultDNSRule \<Rightarrow>
   (('dm, 'ag, 'ip) any_item, ('dl, 'rr) rule_action) abstractDefaultRule result" where
  "NewDefaultDNSRule cx o' =
     bind_result (NewDNSRuleAction (dnsrule_Action o'))
       (\<lambda>act. run_steps (dns_basic_steps (cx_lib cx) (dnsrule_Raw o') @ dns_address_steps (cx_lib cx) (dnsrule_Raw o')
                 @ dns_process_steps (cx_lib cx) (dnsrule_Raw o') @ dns_network_steps (cx_lib cx) (dnsrule_Raw o'))
              (empty_rule (dn_Invert (dnsrule_Raw o')) act))"

definition require_server :: "bool \<Rightarrow> 'rr DNSRuleAction \<Rightarrow> 'x result \<Rightarrow> 'x result" where
  "require_server checkServer act k =
     (if (da_Action act = [] \<or> da_Action act = RuleActionTypeRoute) \<and> dra_Server (da_RouteOptions act) = [] \<and> checkServer
      then Inl (E_New [S ''missing server field'']) else k)"

lemma require_server_cong [fundef_cong]:
  "b = b' \<Longrightarrow> a = a' \<Longrightarrow> k = k' \<Longrightarrow> require_server b a k = require_server b' a' k'"
  by simp

definition NewLogicalDNSRule ::
  "'rr DNSRuleAction \<Rightarrow> string \<Rightarrow> ('dm, 'ag, 'ip, 'dl, 'rr) rule list result \<Rightarrow> bool \<Rightarrow>
   ('dm, 'ag, 'ip, 'dl, 'rr) rule result" where
  "NewLogicalDNSRule act md rules neg =
     bind_result (NewDNSRuleAction act) (\<lambda>a.
     bind_result (parse_mode md) (\<lambda>m. bind_result rules (\<lambda>rs. Inr (LogicalR rs m neg a))))"

lemma NewLogicalDNSRule_Inr [simp]:
  "NewLogicalDNSRule act md rules neg = Inr r \<longleftrightarrow>
     (\<exists>a m rs. NewDNSRuleAction act = Inr a \<and> parse_mode md = Inr m \<and> rules = Inr rs \<and> r = LogicalR rs m neg a)"
  by (auto simp: NewLogicalDNSRule_def bind_result_Inr_iff)

fun NewDNSRule ::
  "('dm, 'ag, 'ip, 'dl) ctx \<Rightarrow> bool \<Rightarrow> 'rr DNSRule \<Rightarrow> ('dm, 'ag, 'ip, 'dl, 'rr) rule result" where
  "NewDNSRule cx checkServer (DNSRule ty d md rules neg act) =
     (if ty = [] \<or> ty = RuleTypeDefault
      then require_valid (Inr (DefaultDNSRule_IsValid d))
             (require_server checkServer (dnsrule_Action d)
               (bind_result (NewDefaultDNSRule cx d) (\<lambda>r. Inr (DefaultR r))))
      else if ty = RuleTypeLogical
      then require_valid (LogicalDNSRule_IsValid rules)
             (require_server checkServer act
               (NewLogicalDNSRule act md (map_result sub_rule_error 0 (NewDNSRule cx False) rules) neg))
      else Inl (E_New [S ''unknown rule type: '', S ty]))"

section \<open>Matching\<close>

definition default_WithAddressLimit ::
  "('dm, 'ag, 'ip, 'cb) store \<Rightarrow> (('dm, 'ag, 'ip) any_item, 'a) abstractDefaultRule \<Rightarrow> bool" where
  "default_WithAddressLimit G r =
     (if length (destinationIPCIDRItems r) > 0 then True
      else list_ex (\<lambda>rawRule. isRuleSet rawRule \<and> ContainsDestinationIPCIDRRule G rawRule) (items r))"

definition default_dns_Match ::
  "('dm, 'ag, 'ip) lib \<Rightarrow> env \<Rightarrow> ('dm, 'ag, 'ip, 'cb) store \<Rightarrow> (('dm, 'ag, 'ip) any_item, 'a) abstractDefaultRule \<Rightarrow>
   InboundContext \<Rightarrow> bool \<times> InboundContext" where
  "default_dns_Match L V G r c =
     (case adr_Match (any_item_Match L V G) isRuleSet r (c\<lparr>md_IgnoreDestinationIPCIDRMatch := True\<rparr>) of
        (b, d) \<Rightarrow> (b, d\<lparr>md_IgnoreDestinationIPCIDRMatch := False\<rparr>))"

definition default_MatchAddressLimit ::
  "('dm, 'ag, 'ip) lib \<Rightarrow> env \<Rightarrow> ('dm, 'ag, 'ip, 'cb) store \<Rightarrow> (('dm, 'ag, 'ip) any_item, 'a) abstractDefaultRule \<Rightarrow>
   InboundContext \<Rightarrow> bool \<times> InboundContext" where
  "default_MatchAddressLimit L V G r c = adr_Match (any_item_Match L V G) isRuleSet r c"

fun WithAddressLimit ::
  "('dm, 'ag, 'ip, 'cb) store \<Rightarrow> (('dm, 'ag, 'ip) any_item, 'a) rule_tree \<Rightarrow> bool" where
  "WithAddressLimit G (DefaultR r) = default_WithAddressLimit G r"
| "WithAddressLimit G (LogicalR rs _ _ _) = list_ex (WithAddressLimit G) rs"

fun dns_Match ::
  "('dm, 'ag, 'ip) lib \<Rightarrow> env \<Rightarrow> ('dm, 'ag, 'ip, 'cb) store \<Rightarrow> (('dm, 'ag, 'ip) any_item, 'a) rule_tree \<Rightarrow>
   InboundContext \<Rightarrow> bool \<times> InboundContext" where
  "dns_Match L V G (DefaultR r) c = default_dns_Match L V G r c"
| "dns_Match L V G (LogicalR rs md neg _) c = logical_Match (dns_Match L V G) rs md neg c"

fun MatchAddressLimit ::
  "('dm, 'ag, 'ip) lib \<Rightarrow> env \<Rightarrow> ('dm, 'ag, 'ip, 'cb) store \<Rightarrow> (('dm, 'ag, 'ip) any_item, 'a) rule_tree \<Rightarrow>
   InboundContext \<Rightarrow> bool \<times> InboundContext" where
  "MatchAddressLimit L V G (DefaultR r) c = default_MatchAddressLimit L V G r c"
| "MatchAddressLimit L V G (LogicalR rs md neg _) c = logical_Match (MatchAddressLimit L V G) rs md neg c"

lemmas default_dns_defs = default_WithAddressLimit_def default_dns_Match_def default_MatchAddressLimit_def

definition BypassIfFailed :: "(('dm, 'ag, 'ip) any_item, ('dl, 'rr) rule_action) rule_tree \<Rightarrow> bool" where
  "BypassIfFailed r = (case tree_Action r of
     Some (RuleActionDNSRoute _ o') \<Rightarrow> dns_BypassIfFailed o' | _ \<Rightarrow> False)"

section \<open>Switching the IP-CIDR conditions off\<close>

text \<open>\<open>ignoring\<close> is what \<open>Match\<close> does to the metadata; a function of the metadata is indifferent when it
  commutes with it.\<close>

definition ignoring :: "InboundContext \<Rightarrow> InboundContext" where
  "ignoring c = c\<lparr>md_IgnoreDestinationIPCIDRMatch := True\<rparr>"

definition indifferent :: "(InboundContext \<Rightarrow> bool \<times> InboundContext) \<Rightarrow> bool" where
  "indifferent f \<longleftrightarrow> (\<forall>c. f (ignoring c) = apsnd ignoring (f c))"

lemma indifferentD: "indifferent f \<Longrightarrow> f (ignoring c) = apsnd ignoring (f c)"
  by (simp add: indifferent_def)

lemma ignoring_reads [simp]:
  "md_SourceAddressMatch (ignoring c) = md_SourceAddressMatch c"
  "md_SourcePortMatch (ignoring c) = md_SourcePortMatch c"
  "md_DestinationAddressMatch (ignoring c) = md_DestinationAddressMatch c"
  "md_DestinationPortMatch (ignoring c) = md_DestinationPortMatch c"
  "md_DidMatch (ignoring c) = md_DidMatch c"
  "md_IgnoreDestinationIPCIDRMatch (ignoring c)"
  by (simp_all add: ignoring_def)

lemma ignoring_updates:
  "(ignoring c)\<lparr>md_SourceAddressMatch := b\<rparr> = ignoring (c\<lparr>md_SourceAddressMatch := b\<rparr>)"
  "(ignoring c)\<lparr>md_SourcePortMatch := b\<rparr> = ignoring (c\<lparr>md_SourcePortMatch := b\<rparr>)"
  "(ignoring c)\<lparr>md_DestinationAddressMatch := b\<rparr> = ignoring (c\<lparr>md_DestinationAddressMatch := b\<rparr>)"
  "(ignoring c)\<lparr>md_DestinationPortMatch := b\<rparr> = ignoring (c\<lparr>md_DestinationPortMatch := b\<rparr>)"
  "(ignoring c)\<lparr>md_DidMatch := b\<rparr> = ignoring (c\<lparr>md_DidMatch := b\<rparr>)"
  "(ignoring c)\<lparr>md_IPCIDRMatchSource := b\<rparr> = ignoring (c\<lparr>md_IPCIDRMatchSource := b\<rparr>)"
  "(ignoring c)\<lparr>md_IPCIDRAcceptEmpty := b\<rparr> = ignoring (c\<lparr>md_IPCIDRAcceptEmpty := b\<rparr>)"
  "ResetRuleCache (ignoring c) = ignoring (ResetRuleCache c)"
  by (simp_all add: ignoring_def ResetRuleCache_def)

lemma any_st_indifferent:
  "(\<And>x. x \<in> set xs \<Longrightarrow> indifferent (f x)) \<Longrightarrow> indifferent (any_st f xs)"
  unfolding indifferent_def
proof (induction xs)
  case Nil
  then show ?case by simp
next
  case (Cons x xs)
  show ?case
  proof
    fix c :: InboundContext
    obtain b d where "f x c = (b, d)" by fastforce
    then show "any_st f (x # xs) (ignoring c) = apsnd ignoring (any_st f (x # xs) c)"
      using Cons by (cases b) auto
  qed
qed

lemma all_st_indifferent:
  "(\<And>x. x \<in> set xs \<Longrightarrow> indifferent (f x)) \<Longrightarrow> indifferent (all_st f xs)"
  unfolding indifferent_def
proof (induction xs)
  case Nil
  then show ?case by simp
next
  case (Cons x xs)
  show ?case
  proof
    fix c :: InboundContext
    obtain b d where "f x c = (b, d)" by fastforce
    then show "all_st f (x # xs) (ignoring c) = apsnd ignoring (all_st f (x # xs) c)"
      using Cons by (cases b) auto
  qed
qed

lemma match_items_indifferent:
  "(\<And>i. i \<in> set is \<Longrightarrow> indifferent (im i)) \<Longrightarrow> indifferent (match_items im rs is)"
  unfolding indifferent_def
proof (induction "is")
  case Nil
  then show ?case by simp
next
  case (Cons i "is")
  show ?case
  proof
    fix c :: InboundContext
    let ?c = "if rs i then c else c\<lparr>md_DidMatch := True\<rparr>"
    have ig: "(if rs i then ignoring c else (ignoring c)\<lparr>md_DidMatch := True\<rparr>) = ignoring ?c"
      by (simp add: ignoring_updates)
    obtain b d where f: "im i ?c = (b, d)" by fastforce
    have "im i (ignoring ?c) = (b, ignoring d)" using Cons.prems f by simp
    then show "match_items im rs (i # is) (ignoring c) = apsnd ignoring (match_items im rs (i # is) c)"
      using Cons f by (cases b) (simp_all add: ig)
  qed
qed

lemma match_group_ignoring:
  assumes "\<And>i. i \<in> set g \<Longrightarrow> indifferent (im i)" and "\<And>d. flag (ignoring d) = flag d"
    and "\<And>d. set_flag (ignoring d) = ignoring (set_flag d)"
  shows "match_group im e g flag set_flag (ignoring c) = ignoring (match_group im e g flag set_flag c)"
proof -
  obtain b d where "any_st im g (c\<lparr>md_DidMatch := True\<rparr>) = (b, d)" by fastforce
  moreover from this have "any_st im g (ignoring (c\<lparr>md_DidMatch := True\<rparr>)) = (b, ignoring d)"
    using indifferentD [OF any_st_indifferent [of g im, OF assms(1)]] by simp
  ultimately show ?thesis by (simp add: match_group_def assms(2,3) ignoring_updates)
qed

lemma match_group_Nil [simp]: "match_group im e [] flag set_flag c = c"
  by (simp add: match_group_def)

lemma adr_Match_indifferent:
  assumes none: "destinationIPCIDRItems r = []"
    and ind: "\<And>i. i \<in> set (group_items r) \<Longrightarrow> indifferent (im i)"
  shows "indifferent (adr_Match im rs r)"
  unfolding indifferent_def
proof
  fix c
  have grp: "match_groups im r (ignoring c) = ignoring (match_groups im r c)"
    using ind unfolding match_groups_def Let_def none match_group_Nil
    by (simp add: match_group_ignoring ignoring_updates group_items_def)
  obtain b m where m: "match_items im rs (items r) (match_groups im r c) = (b, m)" by fastforce
  have "indifferent (match_items im rs (items r))"
    using ind by (intro match_items_indifferent) (simp add: group_items_def)
  then have "match_items im rs (items r) (match_groups im r (ignoring c)) = (b, ignoring m)"
    using m grp by (simp add: indifferentD)
  with m none show "adr_Match im rs r (ignoring c) = apsnd ignoring (adr_Match im rs r c)"
    by (simp add: adr_Match_def)
qed

lemma logical_Match_indifferent:
  assumes "\<And>r. r \<in> set rs \<Longrightarrow> indifferent (f r)"
  shows "indifferent (logical_Match f rs md neg)"
proof -
  have r: "indifferent (\<lambda>c. f r (ResetRuleCache c))" if "r \<in> set rs" for r
    using assms [OF that] by (simp add: indifferent_def ignoring_updates)
  note all_st_indifferent [of rs "\<lambda>r c. f r (ResetRuleCache c)", OF r]
    and any_st_indifferent [of rs "\<lambda>r c. f r (ResetRuleCache c)", OF r]
  then show ?thesis
    by (cases md) (simp_all add: indifferent_def logical_Match_def Let_def case_prod_beta)
qed

lemma leaf_indifferent: "indifferent (leaf_im L V i)"
proof -
  have "leaf_Match L V i (ignoring c) = leaf_Match L V i c" for c
    by (cases i)
      (simp_all add: ignoring_def item_simps domainHost_def IPCIDR_Match_def IPIsPrivate_Match_def PreferredBy_Match_def
        cong: option.case_cong)
  then show ?thesis by (simp add: indifferent_def leaf_im_def)
qed

lemma headless_indifferent: "\<not> has_ipcidr r \<Longrightarrow> indifferent (headless_Match L V r)"
proof (induction r)
  case (DefaultHeadless r)
  then have "indifferent (adr_Match (leaf_im L V) (\<lambda>_. False) r)"
    by (intro adr_Match_indifferent leaf_indifferent) simp
  then show ?case by (simp add: indifferent_def)
next
  case (LogicalHeadless rs md neg)
  then have "indifferent (logical_Match (headless_Match L V) rs md neg)"
    by (intro logical_Match_indifferent) (auto simp: list_ex_iff)
  then show ?case by (simp add: indifferent_def)
qed

section \<open>When the second check is needed\<close>

text \<open>The metadata of a rule-set does not deny IP-CIDR rules it has; \<open>reloadRules\<close> and \<open>loadBytes\<close>
  establish this.\<close>

definition metadata_ok :: "('dm, 'ag, 'ip, 'cb, 'z) rule_set_scheme \<Rightarrow> bool" where
  "metadata_ok s \<longleftrightarrow> (list_ex has_ipcidr (rs_rules s) \<longrightarrow> ContainsIPCIDRRule (rs_metadata s))"

definition store_ok :: "('dm, 'ag, 'ip, 'cb) store \<Rightarrow> bool" where
  "store_ok G \<longleftrightarrow> (\<forall>tag s. G tag = Some s \<longrightarrow> metadata_ok s)"

text \<open>No rule-set is matched against the source address.\<close>

definition not_match_source :: "('dm, 'ag, 'ip) any_item \<Rightarrow> bool" where
  "not_match_source i = (case i of RuleSetItem _ _ ms _ \<Rightarrow> \<not> ms | Leaf _ \<Rightarrow> True)"

fun tree_not_match_source :: "(('dm, 'ag, 'ip) any_item, 'a) rule_tree \<Rightarrow> bool" where
  "tree_not_match_source (DefaultR r) \<longleftrightarrow> list_all not_match_source (allItems r)"
| "tree_not_match_source (LogicalR rs _ _ _) \<longleftrightarrow> list_all tree_not_match_source rs"

fun tree_wf :: "(('dm, 'ag, 'ip) any_item, 'a) rule_tree \<Rightarrow> bool" where
  "tree_wf (DefaultR r) \<longleftrightarrow> wf_rule r
     \<and> list_all (\<lambda>i. \<not> isRuleSet i) (sourceAddressItems r @ sourcePortItems r @ destinationAddressItems r
         @ destinationIPCIDRItems r @ destinationPortItems r)"
| "tree_wf (LogicalR rs _ _ _) \<longleftrightarrow> list_all tree_wf rs"

lemma item_indifferent:
  assumes "store_ok G" and "not_match_source i" and "\<not> ContainsDestinationIPCIDRRule G i"
  shows "indifferent (any_item_Match L V G i)"
proof (cases i)
  case (Leaf l)
  then show ?thesis using leaf_indifferent [of L V l] by (simp add: indifferent_def any_item_Match_def)
next
  case (RuleSetItem tags setList ms ae)
  let ?f = "\<lambda>tag c. case G tag of None \<Rightarrow> (False, c) | Some s \<Rightarrow> RuleSet_Match L V s c"
  have "indifferent (?f tag)" if "tag \<in> set setList" for tag
  proof (cases "G tag")
    case None
    then show ?thesis by (simp add: indifferent_def)
  next
    case (Some s)
    then have "\<not> ContainsIPCIDRRule (rs_metadata s)"
      using assms(2,3) that RuleSetItem
      by (auto simp: ContainsDestinationIPCIDRRule_def not_match_source_def list_ex_iff split: if_splits)
    then have "\<not> list_ex has_ipcidr (rs_rules s)" using assms(1) Some by (auto simp: store_ok_def metadata_ok_def)
    then have "indifferent (any_st (headless_Match L V) (rs_rules s))"
      by (intro any_st_indifferent headless_indifferent) (auto simp: list_ex_iff)
    then show ?thesis using Some by (simp add: indifferent_def RuleSet_Match_def)
  qed
  then have "indifferent (any_st ?f setList)" by (rule any_st_indifferent)
  then show ?thesis using RuleSetItem
    by (simp add: indifferent_def any_item_Match_def RuleSetItem_Match_def ignoring_updates)
qed

lemma default_indifferent:
  assumes "store_ok G" and "tree_wf (DefaultR r)" and "tree_not_match_source (DefaultR r)"
    and "\<not> WithAddressLimit G (DefaultR r)"
  shows "indifferent (adr_Match (any_item_Match L V G) isRuleSet r)"
proof (rule adr_Match_indifferent)
  show "destinationIPCIDRItems r = []" using assms(4) by (auto simp: default_dns_defs split: if_splits)
  fix i
  assume i: "i \<in> set (group_items r)"
  have "set (group_items r) = set (allItems r)" using assms(2) by (simp add: wf_rule_def)
  with i assms(3) have "not_match_source i" by (auto simp: list_all_iff)
  moreover have "\<not> ContainsDestinationIPCIDRRule G i"
  proof (cases "isRuleSet i")
    case True
    with i assms(2) have "i \<in> set (items r)" by (auto simp: group_items_def list_all_iff)
    with assms(4) True show ?thesis by (auto simp: default_dns_defs list_ex_iff split: if_splits)
  next
    case False
    then show ?thesis by (auto simp: ContainsDestinationIPCIDRRule_def isRuleSet_def split: any_item.splits)
  qed
  ultimately show "indifferent (any_item_Match L V G i)" using item_indifferent assms(1) by blast
qed

lemma ignoring_back: "\<not> md_IgnoreDestinationIPCIDRMatch d \<Longrightarrow> (ignoring d)\<lparr>md_IgnoreDestinationIPCIDRMatch := False\<rparr> = d"
  by (cases d) (simp add: ignoring_def)

lemma core_Ignore_eq: "core c = core d \<Longrightarrow> md_IgnoreDestinationIPCIDRMatch c = md_IgnoreDestinationIPCIDRMatch d"
  by (metis core_Ignore)

lemma MatchAddressLimit_frame: "core (snd (MatchAddressLimit L V G r c)) = core c"
proof (induction r arbitrary: c)
  case (DefaultR r)
  show ?case by (simp add: default_dns_defs item.adr_Match_frame)
next
  case (LogicalR rs md neg act)
  then show ?case by (simp add: logical_Match_frame)
qed

text \<open>Logical rules whose sub-rules answer alike answer alike.\<close>

lemma st_eq_on:
  assumes "\<And>r c. r \<in> set rs \<Longrightarrow> P c \<Longrightarrow> f r c = g r c" and "\<And>r c. r \<in> set rs \<Longrightarrow> P c \<Longrightarrow> P (snd (g r c))" and "P c"
  shows "all_st f rs c = all_st g rs c" and "any_st f rs c = any_st g rs c"
proof -
  have "all_st f rs c = all_st g rs c \<and> any_st f rs c = any_st g rs c"
    using assms
  proof (induction rs arbitrary: c)
    case Nil
    then show ?case by simp
  next
    case (Cons r rs)
    obtain b d where g: "g r c = (b, d)" by fastforce
    have "f r c = (b, d)" "P d"
      using Cons.prems(1) [of r c] Cons.prems(2) [of r c] Cons.prems(3) g by auto
    with g Cons.IH [of d] Cons.prems(1,2) show ?case by auto
  qed
  then show "all_st f rs c = all_st g rs c" and "any_st f rs c = any_st g rs c" by auto
qed

lemma dns_Match_MatchAddressLimit:
  assumes "store_ok G" and "tree_wf r" and "tree_not_match_source r" and "\<not> WithAddressLimit G r"
    and "\<not> md_IgnoreDestinationIPCIDRMatch c"
  shows "dns_Match L V G r c = MatchAddressLimit L V G r c"
  using assms(2-)
proof (induction r arbitrary: c)
  case (DefaultR r)
  obtain b d where m: "adr_Match (any_item_Match L V G) isRuleSet r c = (b, d)" by fastforce
  have "md_IgnoreDestinationIPCIDRMatch d = md_IgnoreDestinationIPCIDRMatch c"
    using item.adr_Match_frame [of L V G r c] m by (intro core_Ignore_eq) simp
  moreover have "adr_Match (any_item_Match L V G) isRuleSet r (ignoring c) = (b, ignoring d)"
    using indifferentD [OF default_indifferent [OF assms(1) DefaultR.prems(1,2,3)]] m by simp
  ultimately show ?case using m DefaultR.prems(4) by (simp add: default_dns_defs ignoring_def [symmetric] ignoring_back)
next
  case (LogicalR rs md neg act)
  let ?P = "\<lambda>c. \<not> md_IgnoreDestinationIPCIDRMatch c"
  let ?f = "\<lambda>r c. dns_Match L V G r (ResetRuleCache c)" and ?g = "\<lambda>r c. MatchAddressLimit L V G r (ResetRuleCache c)"
  have eq: "?f r c = ?g r c" if "r \<in> set rs" "?P c" for r c
    using LogicalR that by (auto simp: list_all_iff list_ex_iff ResetRuleCache_def)
  have keep: "?P (snd (?g r c))" if "?P c" for r c
    using that MatchAddressLimit_frame [of L V G r "ResetRuleCache c"] core_Ignore_eq [of "snd (?g r c)" c] by simp
  have "all_st ?f rs c = all_st ?g rs c" "any_st ?f rs c = any_st ?g rs c"
    using st_eq_on [of rs ?P ?f ?g c, OF eq keep LogicalR.prems(4)] by auto
  then show ?case by (cases md) (simp_all add: logical_Match_def Let_def)
qed

end
