(* ===== verification/Router.thy ===== *)
theory Router
  imports Route_Rules
begin

text \<open>
  The router (\<open>route/route.go\<close>): the preparation of the metadata and the rule loop of \<open>matchRule\<close>, and
  what \<open>routeConnection\<close>, \<open>routePacketConnection\<close> and \<open>PreMatch\<close> make of the selected rule. Sniffing, name
  resolution, the process searcher and the outbound manager are fields of the router record.
\<close>

section \<open>The router\<close>

record fakeip_store =
  fs_Contains :: "addr \<Rightarrow> bool"
  fs_Lookup :: "addr \<Rightarrow> string option"

text \<open>What \<open>actionSniff\<close> returns: a new buffer or new packets, the metadata, and a fatal error.\<close>

type_synonym ('buf, 'pkt) sniff_result = "'buf option \<times> 'pkt list \<times> InboundContext \<times> error option"

record ('dm, 'ag, 'ip, 'cb, 'dl, 'rr, 'buf, 'pkt) router =
  rt_lib :: "('dm, 'ag, 'ip) lib"
  rt_env :: env
  rt_store :: "('dm, 'ag, 'ip, 'cb) store"
  rt_rules :: "('dm, 'ag, 'ip, 'dl, 'rr) rule list"
  processSearcher :: "(string \<Rightarrow> addr \<times> port \<Rightarrow> addr \<times> port \<Rightarrow> ConnectionOwner result) option"
  rt_FakeIP :: "fakeip_store option"
  LookupReverseMapping :: "addr \<Rightarrow> string option"
  Transport :: "string \<Rightarrow> bool"
  dns_Lookup :: "InboundContext \<Rightarrow> string \<Rightarrow> RuleActionResolve \<Rightarrow> addr list result"
  actionSniff :: "RuleActionSniff \<Rightarrow> 'buf list \<Rightarrow> 'pkt list \<Rightarrow> InboundContext \<Rightarrow> ('buf, 'pkt) sniff_result"
  Outbound :: "string \<Rightarrow> string list option"
  DefaultOutbound :: "string \<times> string list"
  Inbound_Get :: "string \<Rightarrow> (bool \<times> bool) option"
  reserved_fqdns :: "(string \<times> string) list"

text \<open>\<open>Outbound tag\<close> gives the networks of the outbound with that tag; \<open>Inbound_Get tag\<close> whether the
  inbound accepts injected TCP and UDP connections; \<open>reserved_fqdns\<close> are the destinations of the
  multiplexing protocols with the error each is refused with.\<close>

abbreviation NetworkTCP :: string where "NetworkTCP \<equiv> ''tcp''"
abbreviation NetworkUDP :: string where "NetworkUDP \<equiv> ''udp''"
abbreviation NetworkICMP :: string where "NetworkICMP \<equiv> ''icmp''"

definition AddrPort :: "Socksaddr \<Rightarrow> addr \<times> port" where
  "AddrPort a = (sa_Addr a, sa_Port a)"

section \<open>Resolving\<close>

definition actionResolve ::
  "('dm, 'ag, 'ip, 'cb, 'dl, 'rr, 'buf, 'pkt) router \<Rightarrow> RuleActionResolve \<Rightarrow> InboundContext \<Rightarrow> InboundContext result" where
  "actionResolve R act c =
     (if IsFqdn (rt_lib R) (md_Destination c)
      then if rv_Server act \<noteq> [] \<and> \<not> Transport R (rv_Server act)
           then Inl (E_New [S ''DNS server not found: '', S (rv_Server act)])
           else bind_result (dns_Lookup R c (sa_Fqdn (md_Destination c)) act)
                  (\<lambda>addresses. Inr (c\<lparr>md_DestinationAddresses := addresses\<rparr>))
      else Inr c)"

section \<open>Preparing the metadata\<close>

definition find_process ::
  "('dm, 'ag, 'ip, 'cb, 'dl, 'rr, 'buf, 'pkt) router \<Rightarrow> InboundContext \<Rightarrow> InboundContext" where
  "find_process R c =
     (case processSearcher R of
        None \<Rightarrow> c
      | Some search \<Rightarrow>
         if md_ProcessInfo c \<noteq> None then c
         else (let originDestination =
                 (if Socksaddr_IsValid (rt_lib R) (md_OriginDestination c) then AddrPort (md_OriginDestination c)
                  else if IsIP (rt_lib R) (md_Destination c) then AddrPort (md_Destination c)
                  else (AddrInvalid, 0)) in
               case search (md_Network c) (AddrPort (md_Source c)) originDestination of
                 Inl _ \<Rightarrow> c
               | Inr processInfo \<Rightarrow> c\<lparr>md_ProcessInfo := Some processInfo\<rparr>))"

definition map_fakeip ::
  "('dm, 'ag, 'ip, 'cb, 'dl, 'rr, 'buf, 'pkt) router \<Rightarrow> InboundContext \<Rightarrow> InboundContext result" where
  "map_fakeip R c =
     (let dest = md_Destination c; a = sa_Addr dest;
          reverse = (if md_Domain c = []
                     then (case LookupReverseMapping R a of
                             None \<Rightarrow> Inr c | Some domain \<Rightarrow> Inr (c\<lparr>md_Domain := domain\<rparr>))
                     else Inr c)
      in case rt_FakeIP R of
           None \<Rightarrow> reverse
         | Some st \<Rightarrow>
            if Addr_IsValid a \<and> fs_Contains st a
            then (case fs_Lookup st a of
                    None \<Rightarrow> Inl (E_New [S ''missing fakeip record, try enable `experimental.cache_file`''])
                  | Some domain \<Rightarrow>
                     Inr (if domain \<noteq> []
                          then c\<lparr>md_OriginDestination := dest,
                                 md_Destination := \<lparr>sa_Addr = AddrInvalid, sa_Port = sa_Port dest, sa_Fqdn = domain\<rparr>,
                                 md_FakeIP := True\<rparr>
                          else c))
            else reverse)"

definition set_ip_version ::
  "('dm, 'ag, 'ip, 'cb, 'dl, 'rr, 'buf, 'pkt) router \<Rightarrow> InboundContext \<Rightarrow> InboundContext" where
  "set_ip_version R c =
     (if IsIPv4 (rt_lib R) (md_Destination c) then c\<lparr>md_IPVersion := 4\<rparr>
      else if IsIPv6 (rt_lib R) (md_Destination c) then c\<lparr>md_IPVersion := 6\<rparr> else c)"

text \<open>The state of the rule loop: metadata, sniffed buffers and packets.\<close>

record ('buf, 'pkt) match_state =
  ms_md :: InboundContext
  ms_buffers :: "'buf list"
  ms_packets :: "'pkt list"

definition zeroInboundOptions :: InboundOptions where
  "zeroInboundOptions = \<lparr>SniffEnabled = False, SniffOverrideDestination = False, SniffTimeout = 0,
     io_DomainStrategy = 0, io_UDPDisableDomainUnmapping = False, Detour = []\<rparr>"

text \<open>The deprecated inbound options act like a sniff and a resolve rule in front of the rules. A
  fatal error keeps the buffers read so far.\<close>

definition inbound_options ::
  "('dm, 'ag, 'ip, 'cb, 'dl, 'rr, 'buf, 'pkt) router \<Rightarrow> bool \<Rightarrow> InboundContext \<Rightarrow>
   error option \<times> ('buf, 'pkt) match_state" where
  "inbound_options R preMatch c =
     (let io = md_InboundOptions c in
      if io = zeroInboundOptions then (None, \<lparr>ms_md = c, ms_buffers = [], ms_packets = []\<rparr>)
      else
        (let (newBuffer, newPackets, c1, newErr) =
               (if \<not> preMatch \<and> SniffEnabled io
                then actionSniff R \<lparr>SnifferNames = [], StreamSniffers = [], PacketSniffers = [],
                       sn_Timeout = SniffTimeout io, OverrideDestination = SniffOverrideDestination io\<rparr> [] [] c
                else (None, [], c, None));
             bufs = (case newBuffer of Some b \<Rightarrow> [b] | None \<Rightarrow> []);
             pkts = (case newBuffer of Some _ \<Rightarrow> [] | None \<Rightarrow> newPackets);
             st = (\<lambda>c. \<lparr>ms_md = c, ms_buffers = bufs, ms_packets = pkts\<rparr>)
         in case newErr of
              Some e \<Rightarrow> (Some e, st c1)
            | None \<Rightarrow>
               (case (if io_DomainStrategy io \<noteq> 0
                      then actionResolve R \<lparr>rv_Server = [], rv_Strategy = io_DomainStrategy io, rv_DisableCache = False,
                             rv_RewriteTTL = None, rv_ClientSubnet = zeroPrefix\<rparr> c1
                      else Inr c1) of
                  Inl e \<Rightarrow> (Some e, st c1)
                | Inr c2 \<Rightarrow>
                   (let c3 = (if io_UDPDisableDomainUnmapping io then c2\<lparr>md_UDPDisableDomainUnmapping := True\<rparr> else c2)
                    in (None, st (c3\<lparr>md_InboundOptions := zeroInboundOptions\<rparr>))))))"

section \<open>The rule loop\<close>

definition apply_route_options ::
  "('dm, 'ag, 'ip) lib \<Rightarrow> RuleActionRouteOptions \<Rightarrow> InboundContext \<Rightarrow> InboundContext" where
  "apply_route_options L ro c0 =
     (let c1 = (if (Socksaddr_IsValid L (OverrideAddress ro) \<or> OverridePort ro > 0)
                   \<and> \<not> Socksaddr_IsValid L (md_RouteOriginalDestination c0)
                then c0\<lparr>md_RouteOriginalDestination := md_Destination c0\<rparr> else c0);
          c2 = (if Socksaddr_IsValid L (OverrideAddress ro)
                then c1\<lparr>md_Destination := \<lparr>sa_Addr = sa_Addr (OverrideAddress ro),
                          sa_Port = sa_Port (md_Destination c1), sa_Fqdn = sa_Fqdn (OverrideAddress ro)\<rparr>,
                        md_DestinationAddresses := []\<rparr> else c1);
          c3 = (if OverridePort ro > 0
                then c2\<lparr>md_Destination := \<lparr>sa_Addr = sa_Addr (md_Destination c2), sa_Port = OverridePort ro,
                          sa_Fqdn = sa_Fqdn (md_Destination c2)\<rparr>\<rparr> else c2);
          c4 = (if OverrideTunnelDestination ro \<noteq> []
                then c3\<lparr>md_TunnelDestination := OverrideTunnelDestination ro\<rparr> else c3);
          c5 = (if not_nil (act_NetworkStrategy ro) then c4\<lparr>md_NetworkStrategy := act_NetworkStrategy ro\<rparr> else c4);
          c6 = (if nonempty (act_NetworkType ro) then c5\<lparr>md_NetworkType := elems (act_NetworkType ro)\<rparr> else c5);
          c7 = (if nonempty (act_FallbackNetworkType ro)
                then c6\<lparr>md_FallbackNetworkType := elems (act_FallbackNetworkType ro)\<rparr> else c6);
          c8 = (if act_FallbackDelay ro \<noteq> 0 then c7\<lparr>md_FallbackDelay := act_FallbackDelay ro\<rparr> else c7);
          c9 = (if act_UDPDisableDomainUnmapping ro then c8\<lparr>md_UDPDisableDomainUnmapping := True\<rparr> else c8);
          c10 = (if act_UDPConnect ro then c9\<lparr>md_UDPConnect := True\<rparr> else c9);
          c11 = (if act_UDPTimeout ro > 0 then c10\<lparr>md_UDPTimeout := act_UDPTimeout ro\<rparr> else c10);
          c12 = (if act_TLSFragment ro
                 then c11\<lparr>md_TLSFragment := True, md_TLSFragmentFallbackDelay := act_TLSFragmentFallbackDelay ro\<rparr>
                 else c11)
      in if act_TLSRecordFragment ro then c12\<lparr>md_TLSRecordFragment := True\<rparr> else c12)"

datatype ('dm, 'ag, 'ip, 'dl, 'rr) match_outcome =
    Selected "('dm, 'ag, 'ip, 'dl, 'rr) rule" nat
  | NoRule
  | Fatal error

definition route_options_of :: "('dl, 'rr) rule_action \<Rightarrow> RuleActionRouteOptions option" where
  "route_options_of a = (case a of
     RuleActionRoute _ ro \<Rightarrow> Some ro | RuleActionRouteOptionsAction ro \<Rightarrow> Some ro | _ \<Rightarrow> None)"

text \<open>One matched rule: its options are applied, then its action either ends the loop or lets it
  go on (\<open>NoRule\<close>).\<close>

definition run_action ::
  "('dm, 'ag, 'ip, 'cb, 'dl, 'rr, 'buf, 'pkt) router \<Rightarrow> bool \<Rightarrow> bool \<Rightarrow> ('dm, 'ag, 'ip, 'dl, 'rr) rule \<Rightarrow> nat \<Rightarrow>
   ('buf, 'pkt) match_state \<Rightarrow> ('dm, 'ag, 'ip, 'dl, 'rr) match_outcome \<times> ('buf, 'pkt) match_state" where
  "run_action R preMatch supportBypass r i st0 =
     (case tree_Action r of
        None \<Rightarrow> (Fatal (Panic [S ''nil action'']), st0)
      | Some a \<Rightarrow>
         (let st = (case route_options_of a of
                      Some ro \<Rightarrow> st0\<lparr>ms_md := apply_route_options (rt_lib R) ro (ms_md st0)\<rparr>
                    | None \<Rightarrow> st0)
          in case a of
               RuleActionSniffAction s \<Rightarrow>
                 if \<not> preMatch
                 then (case actionSniff R s (ms_buffers st) (ms_packets st) (ms_md st) of
                         (newBuffer, newPackets, c, newErr) \<Rightarrow>
                           (let st1 = \<lparr>ms_md = c,
                                  ms_buffers = ms_buffers st @ (case newBuffer of Some b \<Rightarrow> [b] | None \<Rightarrow> []),
                                  ms_packets = ms_packets st @ (case newBuffer of Some _ \<Rightarrow> [] | None \<Rightarrow> newPackets)\<rparr>
                            in case newErr of Some e \<Rightarrow> (Fatal e, st1) | None \<Rightarrow> (NoRule, st1)))
                 else if md_Network (ms_md st) \<noteq> NetworkICMP then (Selected r i, st) else (NoRule, st)
             | RuleActionResolveAction v \<Rightarrow>
                 (case actionResolve R v (ms_md st) of
                    Inl e \<Rightarrow> (Fatal e, st) | Inr c \<Rightarrow> (NoRule, st\<lparr>ms_md := c\<rparr>))
             | RuleActionBypass outbound _ \<Rightarrow>
                 if \<not> supportBypass \<and> outbound = [] then (NoRule, st) else (Selected r i, st)
             | _ \<Rightarrow>
                 if action_Type a = RuleActionTypeRoute \<or> action_Type a = RuleActionTypeReject
                    \<or> action_Type a = RuleActionTypeHijackDNS
                 then (Selected r i, st) else (NoRule, st)))"

fun match_loop ::
  "('dm, 'ag, 'ip, 'cb, 'dl, 'rr, 'buf, 'pkt) router \<Rightarrow> bool \<Rightarrow> bool \<Rightarrow> nat \<Rightarrow> ('dm, 'ag, 'ip, 'dl, 'rr) rule list \<Rightarrow>
   ('buf, 'pkt) match_state \<Rightarrow> ('dm, 'ag, 'ip, 'dl, 'rr) match_outcome \<times> ('buf, 'pkt) match_state" where
  "match_loop R preMatch supportBypass i [] st = (NoRule, st)"
| "match_loop R preMatch supportBypass i (r # rs) st =
     (case rule_Match (rt_lib R) (rt_env R) (rt_store R) r (ResetRuleCache (ms_md st)) of
        (matched, c) \<Rightarrow>
          (let st1 = st\<lparr>ms_md := c\<rparr> in
           if \<not> matched then match_loop R preMatch supportBypass (Suc i) rs st1
           else (case run_action R preMatch supportBypass r i st1 of
                   (NoRule, st2) \<Rightarrow> match_loop R preMatch supportBypass (Suc i) rs st2
                 | (outcome, st2) \<Rightarrow> (outcome, st2))))"

definition matchRule ::
  "('dm, 'ag, 'ip, 'cb, 'dl, 'rr, 'buf, 'pkt) router \<Rightarrow> bool \<Rightarrow> bool \<Rightarrow> InboundContext \<Rightarrow>
   ('dm, 'ag, 'ip, 'dl, 'rr) match_outcome \<times> ('buf, 'pkt) match_state" where
  "matchRule R preMatch supportBypass c0 =
     (let c1 = find_process R c0 in
      case map_fakeip R c1 of
        Inl e \<Rightarrow> (Fatal e, \<lparr>ms_md = c1, ms_buffers = [], ms_packets = []\<rparr>)
      | Inr c2 \<Rightarrow>
         (case inbound_options R preMatch (set_ip_version R c2) of
            (Some e, st) \<Rightarrow> (Fatal e, st)
          | (None, st) \<Rightarrow> match_loop R preMatch supportBypass 0 (rt_rules R) st))"

section \<open>Routing a connection\<close>

text \<open>
  What becomes of a connection: an error, injection into another inbound, a rejection, the DNS
  hijacker, or an outbound (by tag) with the metadata, the sniffed data and the rule that selected it.
\<close>

datatype ('buf, 'pkt) route_result =
    RouteError error
  | Injected string InboundContext
  | Rejected "(reject_cause option \<times> int list) result"
  | Hijacked "('buf, 'pkt) match_state"
  | Routed string "('buf, 'pkt) match_state"

definition detour_inbound :: "InboundContext \<Rightarrow> InboundContext" where
  "detour_inbound c = c\<lparr>md_LastInbound := md_Inbound c, md_Inbound := md_InboundDetour c, md_InboundDetour := []\<rparr>"

text \<open>The detour of both functions; \<open>proto\<close> names the protocol in the error.\<close>

definition inject ::
  "('dm, 'ag, 'ip, 'cb, 'dl, 'rr, 'buf, 'pkt) router \<Rightarrow> string \<Rightarrow> (bool \<times> bool \<Rightarrow> bool) \<Rightarrow> InboundContext \<Rightarrow>
   ('buf, 'pkt) route_result" where
  "inject R proto injectable c =
     (let detour = md_InboundDetour c in
      if md_LastInbound c = detour then RouteError (E_New [S ''routing loop on detour: '', S detour])
      else (case Inbound_Get R detour of
              None \<Rightarrow> RouteError (E_New [S ''inbound detour not found: '', S detour])
            | Some caps \<Rightarrow>
               if \<not> injectable caps
               then RouteError (E_New [S (''inbound detour is not '' @ proto @ '' injectable: ''), S detour])
               else Injected detour (detour_inbound c)))"

text \<open>An outbound that must exist and support the network.\<close>

definition use_outbound ::
  "('dm, 'ag, 'ip, 'cb, 'dl, 'rr, 'buf, 'pkt) router \<Rightarrow> string \<Rightarrow> string \<Rightarrow> string \<Rightarrow> ('buf, 'pkt) match_state \<Rightarrow>
   ('buf, 'pkt) route_result" where
  "use_outbound R proto network tag st =
     (case Outbound R tag of
        None \<Rightarrow> RouteError (E_New [S ''outbound not found: '', S tag])
      | Some networks \<Rightarrow>
         if network \<notin> set networks then RouteError (E_New [S (proto @ '' is not supported by outbound: ''), S tag])
         else Routed tag st)"

definition use_default ::
  "('dm, 'ag, 'ip, 'cb, 'dl, 'rr, 'buf, 'pkt) router \<Rightarrow> string \<Rightarrow> string \<Rightarrow> ('buf, 'pkt) match_state \<Rightarrow>
   ('buf, 'pkt) route_result" where
  "use_default R message network st =
     (case DefaultOutbound R of (tag, networks) \<Rightarrow>
        if network \<notin> set networks then RouteError (E_New [S message, S tag]) else Routed tag st)"

text \<open>The switch on the selected rule's action. \<open>Panic [S ''nil outbound'']\<close> is the use of the outbound
  that no branch has set.\<close>

definition finish_route ::
  "('dm, 'ag, 'ip, 'cb, 'dl, 'rr, 'buf, 'pkt) router \<Rightarrow> string \<Rightarrow> string \<Rightarrow> string \<Rightarrow> int \<Rightarrow>
   ('dm, 'ag, 'ip, 'dl, 'rr) match_outcome \<times> ('buf, 'pkt) match_state \<Rightarrow> ('buf, 'pkt) route_result" where
  "finish_route R proto network default_message now res =
     (case res of
        (Fatal e, _) \<Rightarrow> RouteError e
      | (NoRule, st) \<Rightarrow> use_default R default_message network st
      | (Selected r _, st) \<Rightarrow>
         (case tree_Action r of
            Some (RuleActionRoute tag _) \<Rightarrow> use_outbound R proto network tag st
          | Some (RuleActionBypass tag _) \<Rightarrow>
              if tag = [] then RouteError (Panic [S ''nil outbound'']) else use_outbound R proto network tag st
          | Some (RuleActionReject method noDrop counter) \<Rightarrow>
              if method = RuleActionRejectMethodReply
              then RouteError (E_New [S (''reject method `reply` is not supported for '' @ proto @ '' connections'')])
              else Rejected (RejectError method noDrop now counter)
          | Some RuleActionHijackDNS \<Rightarrow> Hijacked st
          | _ \<Rightarrow> RouteError (Panic [S ''nil outbound''])))"

definition routeConnection ::
  "('dm, 'ag, 'ip, 'cb, 'dl, 'rr, 'buf, 'pkt) router \<Rightarrow> int \<Rightarrow> InboundContext \<Rightarrow> ('buf, 'pkt) route_result" where
  "routeConnection R now c =
     (if md_InboundDetour c \<noteq> [] then inject R ''TCP'' fst c
      else (let c1 = c\<lparr>md_Network := NetworkTCP\<rparr> in
            case map_of (reserved_fqdns R) (sa_Fqdn (md_Destination c1)) of
              Some message \<Rightarrow> RouteError (E_New [S message])
            | None \<Rightarrow> finish_route R ''TCP'' NetworkTCP ''TCP is not supported by default outbound: '' now
                        (matchRule R False False c1)))"

definition routePacketConnection ::
  "('dm, 'ag, 'ip, 'cb, 'dl, 'rr, 'buf, 'pkt) router \<Rightarrow> int \<Rightarrow> InboundContext \<Rightarrow> ('buf, 'pkt) route_result" where
  "routePacketConnection R now c =
     (if md_InboundDetour c \<noteq> [] then inject R ''UDP'' snd c
      else finish_route R ''UDP'' NetworkUDP ''UDP is not supported by outbound: '' now
             (matchRule R False False (c\<lparr>md_Network := NetworkUDP\<rparr>)))"

section \<open>First match\<close>

abbreviation means ::
  "('dm, 'ag, 'ip, 'cb, 'dl, 'rr, 'buf, 'pkt) router \<Rightarrow> ('dm, 'ag, 'ip, 'dl, 'rr) rule \<Rightarrow> InboundContext \<Rightarrow> bool" where
  "means R \<equiv> rule_means (rt_lib R) (rt_env R) (rt_store R)"

lemma means_core_cong: "core c = core d \<Longrightarrow> means R r c = means R r d"
  by (metis rule_means_core)

lemma match_loop_step:
  "\<exists>c. core c = core (ms_md st) \<and>
     match_loop R p sb i (r # rs) st =
       (if \<not> means R r (ms_md st) then match_loop R p sb (Suc i) rs (st\<lparr>ms_md := c\<rparr>)
        else (case run_action R p sb r i (st\<lparr>ms_md := c\<rparr>) of
                (NoRule, st2) \<Rightarrow> match_loop R p sb (Suc i) rs st2
              | (outcome, st2) \<Rightarrow> (outcome, st2)))"
proof -
  obtain b c where m: "rule_Match (rt_lib R) (rt_env R) (rt_store R) r (ResetRuleCache (ms_md st)) = (b, c)"
    by fastforce
  have "core c = core (ms_md st)"
    using rule_Match_frame [of "rt_lib R" "rt_env R" "rt_store R" r "ResetRuleCache (ms_md st)"] m by simp
  moreover have "b = means R r (ms_md st)"
    using rule_Match_means [of "rt_lib R" "rt_env R" "rt_store R" r "ms_md st"] m by simp
  ultimately show ?thesis using m by (intro exI [of _ c]) (simp add: Let_def)
qed

lemma match_loop_skip:
  assumes "\<forall>r\<in>set ps. \<not> means R r (ms_md st)"
  shows "\<exists>c. core c = core (ms_md st) \<and>
     match_loop R p sb i (ps @ rs) st = match_loop R p sb (i + length ps) rs (st\<lparr>ms_md := c\<rparr>)"
  using assms
proof (induction ps arbitrary: i st)
  case Nil
  then show ?case by (intro exI [of _ "ms_md st"]) simp
next
  case (Cons r ps)
  from match_loop_step [of st R p sb i r "ps @ rs"] Cons.prems obtain c where
    c: "core c = core (ms_md st)"
    and m: "match_loop R p sb i ((r # ps) @ rs) st = match_loop R p sb (Suc i) (ps @ rs) (st\<lparr>ms_md := c\<rparr>)"
    by auto
  have "\<forall>q\<in>set ps. \<not> means R q (ms_md (st\<lparr>ms_md := c\<rparr>))"
    using Cons.prems by (simp add: means_core_cong [OF c])
  from Cons.IH [OF this, of "Suc i"] obtain d where
    "core d = core c" "match_loop R p sb (Suc i) (ps @ rs) (st\<lparr>ms_md := c\<rparr>)
       = match_loop R p sb (Suc i + length ps) rs (st\<lparr>ms_md := d\<rparr>)" by auto
  then show ?case using c m by (intro exI [of _ d]) simp
qed

definition final_action :: "('dl, 'rr) rule_action \<Rightarrow> bool" where
  "final_action a \<longleftrightarrow> action_Type a \<in> {RuleActionTypeRoute, RuleActionTypeReject, RuleActionTypeHijackDNS}"

lemma run_action_final:
  "tree_Action r = Some a \<Longrightarrow> final_action a \<Longrightarrow>
   run_action R p sb r i st =
     (Selected r i, case route_options_of a of
        Some ro \<Rightarrow> st\<lparr>ms_md := apply_route_options (rt_lib R) ro (ms_md st)\<rparr> | None \<Rightarrow> st)"
  by (cases a) (simp_all add: run_action_def final_action_def action_Type_def Let_def)

lemma match_loop_first:
  assumes "\<forall>r\<in>set ps. \<not> means R r (ms_md st)" and "means R r (ms_md st)"
    and "tree_Action r = Some a" and "final_action a"
  shows "fst (match_loop R p sb i (ps @ r # rs) st) = Selected r (i + length ps)"
proof -
  from match_loop_skip [OF assms(1), of p sb i "r # rs"] obtain c where c: "core c = core (ms_md st)"
    and m: "match_loop R p sb i (ps @ r # rs) st = match_loop R p sb (i + length ps) (r # rs) (st\<lparr>ms_md := c\<rparr>)"
    by blast
  from match_loop_step [of "st\<lparr>ms_md := c\<rparr>" R p sb "i + length ps" r rs] obtain d where
    "match_loop R p sb (i + length ps) (r # rs) (st\<lparr>ms_md := c\<rparr>) =
       (case run_action R p sb r (i + length ps) (st\<lparr>ms_md := d\<rparr>) of
          (NoRule, st2) \<Rightarrow> match_loop R p sb (Suc (i + length ps)) rs st2
        | (outcome, st2) \<Rightarrow> (outcome, st2))"
    using assms(2) means_core_cong [OF c, of R r] by auto
  then show ?thesis unfolding m by (simp add: run_action_final [OF assms(3,4)])
qed

lemma match_loop_none:
  assumes "\<forall>r\<in>set rs. \<not> means R r (ms_md st)"
  shows "\<exists>c. core c = core (ms_md st) \<and> match_loop R p sb i rs st = (NoRule, st\<lparr>ms_md := c\<rparr>)"
  using match_loop_skip [OF assms, of p sb i "[]"] by simp

text \<open>Outside of pre-matching a selected rule is one of the list and names what to do with the
  connection.\<close>

definition routable :: "('dl, 'rr) rule_action option \<Rightarrow> bool" where
  "routable a = (case a of
     Some (RuleActionRoute _ _) \<Rightarrow> True | Some (RuleActionBypass tag _) \<Rightarrow> tag \<noteq> []
   | Some (RuleActionReject _ _ _) \<Rightarrow> True | Some RuleActionHijackDNS \<Rightarrow> True | _ \<Rightarrow> False)"

definition route_kind :: "('dl, 'rr) rule_action option \<Rightarrow> bool" where
  "route_kind a = (case a of Some (RuleActionDNSRoute _ _) \<Rightarrow> False | _ \<Rightarrow> True)"

lemma run_action_selected:
  assumes "run_action R False False r i st = (Selected q j, st')" and "route_kind (tree_Action r)"
  shows "q = r \<and> j = i \<and> routable (tree_Action r)"
proof (cases "tree_Action r")
  case None
  then show ?thesis using assms by (simp add: run_action_def)
next
  case (Some a)
  then show ?thesis using assms
    by (cases a)
      (auto simp: run_action_def action_Type_def routable_def route_kind_def Let_def
        split: if_splits prod.splits option.splits sum.splits)
qed

lemma match_loop_selected:
  assumes "match_loop R False False i rs st = (Selected r j, st')" and "\<forall>q\<in>set rs. route_kind (tree_Action q)"
  shows "i \<le> j \<and> j - i < length rs \<and> rs ! (j - i) = r \<and> routable (tree_Action r)"
  using assms
proof (induction rs arbitrary: i st)
  case Nil
  then show ?case by simp
next
  case (Cons q rs)
  from match_loop_step [of st R False False i q rs] obtain c where
    step: "match_loop R False False i (q # rs) st =
       (if \<not> means R q (ms_md st) then match_loop R False False (Suc i) rs (st\<lparr>ms_md := c\<rparr>)
        else (case run_action R False False q i (st\<lparr>ms_md := c\<rparr>) of
                (NoRule, st2) \<Rightarrow> match_loop R False False (Suc i) rs st2
              | (outcome, st2) \<Rightarrow> (outcome, st2)))" by blast
  have tl: "i \<le> j \<and> j - i < length (q # rs) \<and> (q # rs) ! (j - i) = r \<and> routable (tree_Action r)"
    if "match_loop R False False (Suc i) rs st2 = (Selected r j, st')" for st2
    using Cons.IH [OF that] Cons.prems(2) by (auto simp: nth_Cons' Suc_diff_le)
  show ?case
  proof (cases "run_action R False False q i (st\<lparr>ms_md := c\<rparr>)")
    case (Pair out st2)
    then show ?thesis
      using Cons.prems step tl run_action_selected [of R q i "st\<lparr>ms_md := c\<rparr>" r j st']
      by (cases out) (auto split: if_splits)
  qed
qed

section \<open>Rules built from options\<close>

lemma NewRuleAction_kind: "NewRuleAction L F nd a = Inr act \<Longrightarrow> route_kind act"
  by (auto simp: NewRuleAction_def Let_def route_kind_def bind_result_Inr_iff split: if_splits)

lemma route_steps_good:
  "list_all good_step (route_basic_steps L o' @ route_port_steps o' @ route_process_steps L o' @ route_network_steps L o')"
  by (simp add: route_basic_steps_def route_port_steps_def route_process_steps_def route_network_steps_def)

lemma NewDefaultRule_wf:
  assumes "NewDefaultRule cx o' = Inr r"
  shows "wf_rule r \<and> invert r = dr_Invert (rule_Raw o')
    \<and> NewRuleAction (cx_lib cx) (cx_fmt cx) (cx_newDialer cx) (rule_Action o') = Inr (action r)"
proof -
  from assms obtain act where
    act: "NewRuleAction (cx_lib cx) (cx_fmt cx) (cx_newDialer cx) (rule_Action o') = Inr act"
    and run: "run_steps (route_basic_steps (cx_lib cx) (rule_Raw o') @ route_port_steps (rule_Raw o')
      @ route_process_steps (cx_lib cx) (rule_Raw o') @ route_network_steps (cx_lib cx) (rule_Raw o'))
      (empty_rule (dr_Invert (rule_Raw o')) act) = Inr r"
    by (auto simp: NewDefaultRule_def bind_result_Inr_iff)
  from run_good_steps [OF run route_steps_good] act show ?thesis by simp
qed

lemma NewRule_kind:
  assumes "NewRule cx chk o' = Inr r"
  shows "route_kind (tree_Action r)"
proof (cases o')
  case (Rule ty d md rules neg act)
  then show ?thesis
    using assms
    by (auto simp: bind_result_Inr_iff require_outbound_def dest!: NewDefaultRule_wf
        intro: NewRuleAction_kind split: if_splits)
qed

end
