(* ===== verification/Rule_Invariants.thy ===== *)
theory Rule_Invariants
  imports DNS_Rules Router
begin

text \<open>
  Invariants of route and DNS rules from construction to start: the groups partition the items, rule-set
  items are in no address or port group, starting keeps both, and the reference counters of the
  rule-sets account for every tag an item was resolved to.
\<close>

section \<open>Construction\<close>

lemma only_puts_opt_leaf [simp]: "only_puts g (\<lambda>i. \<not> isRuleSet i) (opt_leaf given h mk)"
  by (auto simp: opt_leaf_def only_puts_def opt_item_Inr group_of_put_item isRuleSet_def split: if_splits)

lemma only_puts_reject_if [simp]: "only_puts g P (reject_if given err)"
  by (simp add: only_puts_def reject_if_Inr)

lemma only_puts_ip_version [simp]: "only_puts g (\<lambda>i. \<not> isRuleSet i) (ip_version_step v)"
  by (simp add: ip_version_step_def)

lemma only_puts_other_group [simp]: "g \<noteq> h \<Longrightarrow> only_puts g P (opt_item given h mk)"
  by (auto simp: only_puts_def opt_item_Inr group_of_put_item split: if_splits)

lemma tree_wf_groups:
  assumes "wf_rule r" and "\<And>g. g \<noteq> Items \<Longrightarrow> \<forall>i\<in>set (group_of g r). \<not> isRuleSet i"
  shows "tree_wf (DefaultR r)"
  using assms(1) assms(2) [of SourceAddress] assms(2) [of SourcePort] assms(2) [of DestinationAddress]
    assms(2) [of DestinationIPCIDR] assms(2) [of DestinationPort]
  by (auto simp: group_of_def list_all_iff)

lemma list_all2_result:
  "list_all2 (\<lambda>x y. f x = Inr y) xs ys \<Longrightarrow> y \<in> set ys \<Longrightarrow> \<exists>x\<in>set xs. f x = Inr y"
  by (induction rule: list_all2_induct) auto

lemma dns_steps_good:
  "list_all good_step (dns_basic_steps L o' @ dns_address_steps L o' @ dns_process_steps L o' @ dns_network_steps L o')"
  by (simp add: dns_basic_steps_def dns_address_steps_def dns_process_steps_def dns_network_steps_def)

lemma dns_steps_only:
  "g \<noteq> Items \<Longrightarrow> list_all (only_puts g (\<lambda>i. \<not> isRuleSet i))
     (dns_basic_steps L o' @ dns_address_steps L o' @ dns_process_steps L o' @ dns_network_steps L o')"
  by (simp add: dns_basic_steps_def dns_address_steps_def dns_process_steps_def dns_network_steps_def)

lemma route_steps_only:
  "g \<noteq> Items \<Longrightarrow> list_all (only_puts g (\<lambda>i. \<not> isRuleSet i))
     (route_basic_steps L o' @ route_port_steps o' @ route_process_steps L o' @ route_network_steps L o')"
  by (simp add: route_basic_steps_def route_port_steps_def route_process_steps_def route_network_steps_def)

lemma NewDefaultDNSRule_wf:
  assumes "NewDefaultDNSRule cx o' = Inr r"
  shows "tree_wf (DefaultR r) \<and> invert r = dn_Invert (dnsrule_Raw o')"
proof -
  from assms obtain act where
    run: "run_steps (dns_basic_steps (cx_lib cx) (dnsrule_Raw o') @ dns_address_steps (cx_lib cx) (dnsrule_Raw o')
      @ dns_process_steps (cx_lib cx) (dnsrule_Raw o') @ dns_network_steps (cx_lib cx) (dnsrule_Raw o'))
      (empty_rule (dn_Invert (dnsrule_Raw o')) act) = Inr r"
    by (auto simp: NewDefaultDNSRule_def bind_result_Inr_iff)
  note good = run_good_steps [OF run dns_steps_good]
  have "tree_wf (DefaultR r)"
    by (rule tree_wf_groups) (use good run_steps_only_puts [OF run dns_steps_only] in auto)
  with good show ?thesis by simp
qed

lemma NewDefaultRule_tree_wf:
  assumes "NewDefaultRule cx o' = Inr r"
  shows "tree_wf (DefaultR r)"
proof -
  from assms obtain act where
    run: "run_steps (route_basic_steps (cx_lib cx) (rule_Raw o') @ route_port_steps (rule_Raw o')
      @ route_process_steps (cx_lib cx) (rule_Raw o') @ route_network_steps (cx_lib cx) (rule_Raw o'))
      (empty_rule (dr_Invert (rule_Raw o')) act) = Inr r"
    by (auto simp: NewDefaultRule_def bind_result_Inr_iff)
  show ?thesis
    by (rule tree_wf_groups)
      (use run_good_steps [OF run route_steps_good] run_steps_only_puts [OF run route_steps_only] in auto)
qed

lemma NewDNSRule_tree_wf: "NewDNSRule cx chk o' = Inr r \<Longrightarrow> tree_wf r"
proof (induction o' arbitrary: r chk)
  case (DNSRule ty d md rules neg act)
  show ?case
  proof (cases "ty = [] \<or> ty = RuleTypeDefault")
    case True
    with DNSRule.prems obtain q where "NewDefaultDNSRule cx d = Inr q" "r = DefaultR q"
      by (auto simp: bind_result_Inr_iff require_server_def split: if_splits)
    then show ?thesis using NewDefaultDNSRule_wf by blast
  next
    case False
    with DNSRule.prems obtain rs m a where
      rs: "list_all2 (\<lambda>x y. NewDNSRule cx False x = Inr y) rules rs" and r: "r = LogicalR rs m neg a"
      by (auto simp: bind_result_Inr_iff require_server_def map_result_Inr split: if_splits)
    have "tree_wf y" if "y \<in> set rs" for y
      using list_all2_result [OF rs that] DNSRule.IH by blast
    then show ?thesis by (simp add: r list_all_iff)
  qed
qed

lemma NewRule_tree_wf: "NewRule cx chk o' = Inr r \<Longrightarrow> tree_wf r"
proof (induction o' arbitrary: r chk)
  case (Rule ty d md rules neg act)
  show ?case
  proof (cases "ty = [] \<or> ty = RuleTypeDefault")
    case True
    with Rule.prems obtain q where "NewDefaultRule cx d = Inr q" "r = DefaultR q"
      by (auto simp: bind_result_Inr_iff require_outbound_def split: if_splits)
    then show ?thesis using NewDefaultRule_tree_wf by blast
  next
    case False
    with Rule.prems obtain rs m a where
      rs: "list_all2 (\<lambda>x y. NewRule cx False x = Inr y) rules rs" and r: "r = LogicalR rs m neg a"
      by (auto simp: bind_result_Inr_iff require_outbound_def map_result_Inr split: if_splits)
    have "tree_wf y" if "y \<in> set rs" for y
      using list_all2_result [OF rs that] Rule.IH by blast
    then show ?thesis by (simp add: r list_all_iff)
  qed
qed

section \<open>Start\<close>

lemma adr_Start_groups:
  assumes "adr_Start start r = Inr r'"
  shows "r' = r\<lparr>items := map (started start) (items r),
               sourceAddressItems := map (started start) (sourceAddressItems r),
               sourcePortItems := map (started start) (sourcePortItems r),
               destinationAddressItems := map (started start) (destinationAddressItems r),
               destinationIPCIDRItems := map (started start) (destinationIPCIDRItems r),
               destinationPortItems := map (started start) (destinationPortItems r),
               allItems := map (started start) (allItems r)\<rparr>"
  using assms by (auto simp: adr_Start_def bind_result_Inr_iff Let_def)

lemma item_started_kind: "isRuleSet (started (item_started V G) i) = isRuleSet i"
  by (auto simp: started_def item_started_def any_item_Start_def isRuleSet_def bind_result_def
      split: any_item.splits sum.splits prod.splits)

lemma item_started_source: "not_match_source (started (item_started V G) i) = not_match_source i"
  by (auto simp: started_def item_started_def any_item_Start_def not_match_source_def bind_result_def
      split: any_item.splits sum.splits prod.splits)

lemma default_Start_invariants:
  assumes "adr_Start (item_started V G) r = Inr r'"
  shows "tree_wf (DefaultR r) \<Longrightarrow> tree_wf (DefaultR r')"
    and "tree_not_match_source (DefaultR r) \<Longrightarrow> tree_not_match_source (DefaultR r')"
  unfolding adr_Start_groups [OF assms]
  by (auto simp: wf_rule_def group_items_def list_all_iff item_started_kind item_started_source image_Un)

lemma tree_Start_wf:
  fixes r :: "(('dm, 'ag, 'ip) any_item, 'a) rule_tree" and G G' G'' :: "('dm, 'ag, 'ip, 'cb) store"
    and rs :: "(('dm, 'ag, 'ip) any_item, 'a) rule_tree list"
  shows "(tree_Start V r G = Inr (r', G') \<longrightarrow> tree_wf r \<longrightarrow> tree_wf r')
   \<and> (tree_Start V r G = Inr (r', G') \<longrightarrow> tree_not_match_source r \<longrightarrow> tree_not_match_source r')"
  "(trees_Start V rs G = Inr (rs', G'') \<longrightarrow> list_all tree_wf rs \<longrightarrow> list_all tree_wf rs')
   \<and> (trees_Start V rs G = Inr (rs', G'') \<longrightarrow> list_all tree_not_match_source rs \<longrightarrow> list_all tree_not_match_source rs')"
proof (induction V r G and V rs G arbitrary: r' G' and rs' G'' rule: tree_Start_trees_Start.induct)
  case (1 V r G)
  then show ?case using default_Start_invariants by (auto simp: bind_result_Inr_iff simp del: tree_wf.simps tree_not_match_source.simps)
next
  case (2 V rs md neg act G)
  then show ?case by (auto simp: bind_result_Inr_iff)
next
  case (3 V G)
  then show ?case by simp
next
  case (4 V r rs G)
  then show ?case by (fastforce simp: bind_result_Inr_iff)
qed

section \<open>Reference counting\<close>

text \<open>The tags an item refers to, in the order \<open>Start\<close> resolves them.\<close>

definition tags_of :: "('dm, 'ag, 'ip) any_item \<Rightarrow> string list" where
  "tags_of i = (case i of RuleSetItem tags _ _ _ \<Rightarrow> tags | Leaf _ \<Rightarrow> [])"

lemma resolve_tags_refs:
  assumes "resolve_tags G tags sl = Inr (sl', G')"
  shows "sl' = sl @ tags \<and>
    (\<forall>t. map_option rs_refs (G' t) = map_option (\<lambda>s. rs_refs s + int (count_list tags t)) (G t)) \<and>
    (\<forall>t. map_option rs_rules (G' t) = map_option rs_rules (G t)) \<and> dom G' = dom G \<and> set tags \<subseteq> dom G"
  using assms
proof (induction tags arbitrary: G sl)
  case Nil
  then show ?case by simp
next
  case (Cons tag tags)
  then obtain s where s: "G tag = Some s" and r: "resolve_tags (G(tag \<mapsto> IncRef s)) tags (sl @ [tag]) = Inr (sl', G')"
    by (auto split: option.splits)
  note ih = Cons.IH [OF r]
  have refs: "map_option rs_refs (G' t) = map_option (\<lambda>u. rs_refs u + int (count_list (tag # tags) t)) (G t)" for t
    using ih s by (cases "t = tag") (auto simp: IncRef_def)
  have rules: "map_option rs_rules (G' t) = map_option rs_rules (G t)" for t
    using ih s by (cases "t = tag") (auto simp: IncRef_def)
  have eq: "dom (G(tag \<mapsto> IncRef s)) = dom G" using s by (auto simp: insert_absorb domIff)
  from ih have "dom G' = dom (G(tag \<mapsto> IncRef s)) \<and> set tags \<subseteq> dom (G(tag \<mapsto> IncRef s))" by blast
  then have dom: "dom G' = dom G \<and> set (tag # tags) \<subseteq> dom G" unfolding eq using s by auto
  show ?case using ih refs rules dom by simp
qed

lemma item_Start_refs:
  assumes "any_item_Start V i G = Inr (i', G')"
  shows "\<forall>t. map_option rs_refs (G' t) = map_option (\<lambda>s. rs_refs s + int (count_list (tags_of i) t)) (G t)"
    and "\<forall>t. map_option rs_rules (G' t) = map_option rs_rules (G t)" and "set (tags_of i) \<subseteq> dom G" and "dom G' = dom G"
  using assms
  by (cases i; auto simp: any_item_Start_def tags_of_def bind_result_Inr_iff map_option.identity option.map_ident
        dest!: resolve_tags_refs)+

text \<open>\<open>G'\<close> is \<open>G\<close> after resolving the given tags: the counters grow by the occurrences, the rules and
  the tags stay.\<close>

definition counted :: "string list \<Rightarrow> ('dm, 'ag, 'ip, 'cb) store \<Rightarrow> ('dm, 'ag, 'ip, 'cb) store \<Rightarrow> bool" where
  "counted tags G G' \<longleftrightarrow>
     (\<forall>t. map_option rs_refs (G' t) = map_option (\<lambda>s. rs_refs s + int (count_list tags t)) (G t)) \<and>
     (\<forall>t. map_option rs_rules (G' t) = map_option rs_rules (G t)) \<and> set tags \<subseteq> dom G"

lemma counted_dom:
  assumes "counted tags G G'"
  shows "dom G' = dom G"
proof -
  have "map_option rs_refs (G' t) = None \<longleftrightarrow> G t = None" for t
    using assms unfolding counted_def by simp
  then show ?thesis by (simp add: dom_def)
qed

lemma counted_Nil: "counted [] G G"
  by (simp add: counted_def option.map_ident map_option.identity)

lemma counted_append:
  assumes "counted xs G H" and "counted ys H K"
  shows "counted (xs @ ys) G K"
proof -
  have "map_option rs_refs (K t) = map_option (\<lambda>s. rs_refs s + int (count_list (xs @ ys) t)) (G t)" for t
  proof -
    have "map_option rs_refs (H t) = map_option (\<lambda>s. rs_refs s + int (count_list xs t)) (G t)"
      and "map_option rs_refs (K t) = map_option (\<lambda>s. rs_refs s + int (count_list ys t)) (H t)"
      using assms unfolding counted_def by blast+
    then show ?thesis by (cases "G t"; cases "H t") (auto simp: add.assoc)
  qed
  moreover have "map_option rs_rules (K t) = map_option rs_rules (G t)" for t
    using assms by (auto simp: counted_def)
  moreover have "set (xs @ ys) \<subseteq> dom G"
    using assms counted_dom [OF assms(1)] by (auto simp: counted_def)
  ultimately show ?thesis by (simp add: counted_def)
qed

lemma item_Start_counted: "any_item_Start V i G = Inr (i', G') \<Longrightarrow> counted (tags_of i) G G'"
  using item_Start_refs unfolding counted_def by blast

lemma resolve_tags_total: "set tags \<subseteq> dom G \<Longrightarrow> \<exists>r. resolve_tags G tags sl = Inr r"
proof (induction tags arbitrary: G sl)
  case Nil
  then show ?case by simp
next
  case (Cons tag tags)
  then obtain s where s: "G tag = Some s" by auto
  have "set tags \<subseteq> dom (G(tag \<mapsto> IncRef s))" using Cons.prems by auto
  from Cons.IH [OF this, of "sl @ [tag]"] show ?case by (simp only: resolve_tags.simps s option.simps)
qed

text \<open>Whether an item starts depends on which tags exist only.\<close>

lemma item_Start_dom:
  assumes "any_item_Start V i G = Inr (i', G')" and "dom H = dom G"
  shows "\<exists>x. any_item_Start V i H = Inr x"
proof (cases i)
  case (Leaf l)
  then show ?thesis using assms(1) by (auto simp: any_item_Start_def bind_result_Inr_iff)
next
  case (RuleSetItem tags sl ms ae)
  have "set tags \<subseteq> dom H" using item_Start_refs(3) [OF assms(1)] assms(2) RuleSetItem by (simp add: tags_of_def)
  from resolve_tags_total [OF this, of sl] RuleSetItem show ?thesis
    by (auto simp: any_item_Start_def split: prod.splits)
qed

lemma store_after_counted:
  assumes "start_items (item_started V G) is = Inr ()" and "dom H = dom G"
  shows "counted (concat (map tags_of is)) H (store_after V is H)"
  using assms
proof (induction "is" arbitrary: H)
  case Nil
  then show ?case by (simp add: counted_Nil store_after_def)
next
  case (Cons i "is")
  then obtain i' G' where g: "any_item_Start V i G = Inr (i', G')"
    by (auto simp: bind_result_Inr_iff item_started_def)
  from item_Start_dom [OF g Cons.prems(2)] obtain j H' where h: "any_item_Start V i H = Inr (j, H')" by auto
  have c: "counted (tags_of i) H H'" by (rule item_Start_counted [OF h])
  have "start_items (item_started V G) is = Inr ()" using Cons.prems(1) by (auto simp: bind_result_Inr_iff)
  from Cons.IH [OF this, of H'] counted_dom [OF c] Cons.prems(2)
  have "counted (concat (map tags_of is)) H' (store_after V is H')" by simp
  then show ?case using counted_append [OF c] h by (simp add: store_after_def)
qed

fun tree_tags :: "(('dm, 'ag, 'ip) any_item, 'a) rule_tree \<Rightarrow> string list" where
  "tree_tags (DefaultR r) = concat (map tags_of (allItems r))"
| "tree_tags (LogicalR rs _ _ _) = concat (map tree_tags rs)"

lemma tree_Start_counted:
  fixes r :: "(('dm, 'ag, 'ip) any_item, 'a) rule_tree" and G G' G'' :: "('dm, 'ag, 'ip, 'cb) store"
    and rs :: "(('dm, 'ag, 'ip) any_item, 'a) rule_tree list"
  shows "tree_Start V r G = Inr (r', G') \<longrightarrow> counted (tree_tags r) G G'"
    and "trees_Start V rs G = Inr (rs', G'') \<longrightarrow> counted (concat (map tree_tags rs)) G G''"
proof (induction V r G and V rs G arbitrary: r' G' and rs' G'' rule: tree_Start_trees_Start.induct)
  case (1 V r G)
  then show ?case using store_after_counted [of V G "allItems r" G]
    by (auto simp: bind_result_Inr_iff adr_Start_def)
next
  case (2 V rs md neg act G)
  then show ?case by (auto simp: bind_result_Inr_iff)
next
  case (3 V G)
  then show ?case by (simp add: counted_Nil)
next
  case (4 V r rs G)
  then show ?case by (fastforce simp: bind_result_Inr_iff intro: counted_append)
qed

end
