(* ===== verification/Samples.thy ===== *)
theory Samples
  imports Rule_Invariants
begin

text \<open>
  Concrete instances for the witnesses: a small library (domain matchers are lists of names, IP sets
  lists of prefixes and addresses), an idle environment, connections, rules and a router.
\<close>

type_synonym sample_lib = "(string list, string list, (Prefix + addr) list) lib"

definition sample_lib :: sample_lib where
  "sample_lib = \<lparr>
     IsIP = (\<lambda>a. Addr_IsValid (sa_Addr a)),
     IsIPv4 = (\<lambda>a. Addr_Is4 (sa_Addr a)),
     IsIPv6 = (\<lambda>a. Addr_Is6 (sa_Addr a)),
     IsFqdn = (\<lambda>a. sa_Fqdn a \<noteq> []),
     Socksaddr_IsValid = (\<lambda>a. Addr_IsValid (sa_Addr a) \<or> sa_Fqdn a \<noteq> []),
     ParseSocksaddrHostPort = (\<lambda>host port. \<lparr>sa_Addr = AddrInvalid, sa_Port = port, sa_Fqdn = host\<rparr>),
     IsPublicAddr = (\<lambda>a. True),
     NewMatcher = (\<lambda>domains suffixes legacy. domains),
     Matcher_Match = (\<lambda>m host. host \<in> set m),
     NewAdGuardMatcher = (\<lambda>rules. rules),
     AdGuardMatcher_Match = (\<lambda>m host. host \<in> set m),
     IPSetBuild = Inr,
     IPSet_Contains = (\<lambda>s a. list_ex (\<lambda>x. case x of Inl p \<Rightarrow> Prefix_Contains p a | Inr b \<Rightarrow> a = b) s),
     Compile = (\<lambda>e. Inr (\<lambda>s. s = e)),
     ParsePrefix = (\<lambda>s. Inl (E_Lib s)),
     ParseAddr = (\<lambda>s. if s = ''1.1.1.1'' then Inr (Addr4 0x01010101) else Inl (E_Lib s)),
     ToLower = (\<lambda>s. s),
     EqualFold = (\<lambda>a b. a = b),
     Prefixable_Build = (\<lambda>p d. case p of Some x \<Rightarrow> x | None \<Rightarrow> d)\<rparr>"

definition sample_env :: env where
  "sample_env = \<lparr>
     DefaultNetworkInterface = None, WIFI_SSID = [], WIFI_BSSID = [], DefaultInterface = None,
     Interfaces = [], NetworkInterfaces = [], ClashServer = None, Outbounds = (\<lambda>_. None)\<rparr>"

text \<open>A connection to a host name and port.\<close>

definition conn :: "string \<Rightarrow> port \<Rightarrow> InboundContext" where
  "conn host p = zeroInboundContext\<lparr>md_Destination := \<lparr>sa_Addr = AddrInvalid, sa_Port = p, sa_Fqdn = host\<rparr>\<rparr>"

text \<open>A headless rule that asks for a host name and a port.\<close>

definition domain_rule :: "string \<Rightarrow> (string list, string list, (Prefix + addr) list) headless_rule" where
  "domain_rule host = DefaultHeadless (put_item DestinationAddress (DomainItem [host] []) (empty_rule False None))"

definition domain_port_rule :: "string \<Rightarrow> port \<Rightarrow> (string list, string list, (Prefix + addr) list) headless_rule" where
  "domain_port_rule host p =
     DefaultHeadless (put_item DestinationPort (NewPortItem False [p])
       (put_item DestinationAddress (DomainItem [host] []) (empty_rule False None)))"

definition sample_set ::
  "(string list, string list, (Prefix + addr) list) headless_rule list \<Rightarrow>
   (string list, string list, (Prefix + addr) list, unit) rule_set" where
  "sample_set rules = \<lparr>rs_tag = ''s'', rs_rules = rules,
     rs_metadata = \<lparr>ContainsProcessRule = False, ContainsWIFIRule = False, ContainsIPCIDRRule = False\<rparr>,
     rs_callbacks = [], rs_next = 0, rs_refs = 0\<rparr>"

text \<open>A route rule for a host name.\<close>

definition route_to :: "string \<Rightarrow> (unit, unit) rule_action" where
  "route_to tag = RuleActionRoute tag \<lparr>
     OverrideAddress = zeroSocksaddr, OverridePort = 0, OverrideTunnelDestination = [],
     act_NetworkStrategy = None, act_NetworkType = None, act_FallbackNetworkType = None,
     act_FallbackDelay = 0, act_UDPDisableDomainUnmapping = False, act_UDPConnect = False,
     act_UDPTimeout = 0, act_TLSFragment = False, act_TLSFragmentFallbackDelay = 0,
     act_TLSRecordFragment = False, act_BypassIfFailed = False\<rparr>"

definition host_rule ::
  "string \<Rightarrow> (unit, unit) rule_action \<Rightarrow> (string list, string list, (Prefix + addr) list, unit, unit) rule" where
  "host_rule host act = DefaultR (put_item DestinationAddress (Leaf (DomainItem [host] [])) (empty_rule False (Some act)))"

definition sample_router ::
  "(string list, string list, (Prefix + addr) list, unit, unit) rule list \<Rightarrow>
   (string list, string list, (Prefix + addr) list, unit, unit, unit, unit, unit) router" where
  "sample_router rules = \<lparr>
     rt_lib = sample_lib, rt_env = sample_env, rt_store = Map.empty, rt_rules = rules,
     processSearcher = None, rt_FakeIP = None, LookupReverseMapping = (\<lambda>_. None),
     Transport = (\<lambda>_. False), dns_Lookup = (\<lambda>_ _ _. Inr []),
     actionSniff = (\<lambda>_ _ _ c. (None, [], c, None)),
     Outbound = (\<lambda>tag. if tag = ''proxy'' then Some [''tcp''] else None),
     DefaultOutbound = (''direct'', [''tcp'', ''udp'']),
     Inbound_Get = (\<lambda>_. None), reserved_fqdns = []\<rparr>"

definition start_state :: "InboundContext \<Rightarrow> (unit, unit) match_state" where
  "start_state c = \<lparr>ms_md = c, ms_buffers = [], ms_packets = []\<rparr>"

lemmas sample_defs =
  sample_lib_def sample_env_def conn_def domain_rule_def domain_port_rule_def sample_set_def
  route_to_def host_rule_def sample_router_def start_state_def

lemmas sample_eval =
  sample_defs zeroInboundContext_def zeroSocksaddr_def empty_rule_def put_item_def item_simps
  domainHost_def rule_holds_def conditions_ok_def any_item_def active_ipcidr_def flags_after_def groups_did_def

section \<open>A route rule built from options\<close>

definition sample_ctx :: "(string list, string list, (Prefix + addr) list, unit) ctx" where
  "sample_ctx = \<lparr>cx_lib = sample_lib,
     cx_fmt = \<lparr>Addr_String = (\<lambda>_. []), AddrString = (\<lambda>_. []), Prefix_String = (\<lambda>_. []), Duration_String = (\<lambda>_. [])\<rparr>,
     cx_newDialer = (\<lambda>_. Inr ())\<rparr>"

definition sample_rule_options :: Rule where
  "sample_rule_options =
     Rule ''default''
       \<lparr>rule_Raw = zeroRawDefaultRule\<lparr>dr_Domain := Some [''b'']\<rparr>,
        rule_Action = zeroRuleAction\<lparr>ac_Action := ''route'',
          ac_RouteOptions := \<lparr>ra_Outbound = ''proxy'', ra_Raw = zeroRawRouteOptionsActionOptions\<rparr>\<rparr>\<rparr>
       [] [] False zeroRuleAction"

definition sample_built_rule :: "(string list, string list, (Prefix + addr) list, unit, unit) rule" where
  "sample_built_rule =
     DefaultR (put_item DestinationAddress (Leaf (DomainItem [''b''] ''domain=b'')) (empty_rule False (Some (route_to ''proxy''))))"

lemma sample_NewRule: "NewRule sample_ctx True sample_rule_options = Inr sample_built_rule"
  by (simp add: sample_rule_options_def sample_built_rule_def sample_ctx_def require_valid_def require_outbound_def
      DefaultRule_IsValid_def zeroDefaultRule_def zeroRawDefaultRule_def zeroRuleAction_def zeroRouteActionOptions_def
      zeroRawRouteOptionsActionOptions_def NewDefaultRule_def cause_def NewRuleAction_def common_route_options_def
      route_basic_steps_def route_port_steps_def route_process_steps_def route_network_steps_def
      ip_version_step_def opt_leaf_def opt_item_def reject_if_def leaf_result_def NewDomainItem_def describe_list_def
      empty_rule_def put_item_def route_to_def sample_lib_def zeroSocksaddr_def Let_def)

section \<open>A DNS rule built from options\<close>

definition sample_dns_options :: "unit DNSRule" where
  "sample_dns_options =
     DNSRule ''default''
       \<lparr>dnsrule_Raw = zeroRawDefaultDNSRule\<lparr>dn_RuleSet := Some [''s'']\<rparr>,
        dnsrule_Action = zeroDNSRuleAction\<lparr>da_Action := ''reject''\<rparr>\<rparr>
       [] [] False zeroDNSRuleAction"

definition sample_dns_rule :: "string list \<Rightarrow> (string list, string list, (Prefix + addr) list, unit, unit) rule" where
  "sample_dns_rule sets =
     DefaultR (put_item Items (RuleSetItem [''s''] sets False False) (empty_rule False (Some (RuleActionReject [] False []))))"

definition sample_store :: "(string list, string list, (Prefix + addr) list, unit) store" where
  "sample_store = [''s'' \<mapsto> sample_set [domain_rule ''a'']]"

lemma sample_NewDNSRule: "NewDNSRule sample_ctx True sample_dns_options = Inr (sample_dns_rule [])"
  by (simp add: sample_dns_options_def sample_dns_rule_def require_valid_def require_server_def NewDNSRuleAction_def
      DefaultDNSRule_IsValid_def zeroDefaultDNSRule_def zeroRawDefaultDNSRule_def zeroDNSRuleAction_def
      zeroRejectActionOptions_def
      NewDefaultDNSRule_def dns_basic_steps_def dns_address_steps_def dns_process_steps_def dns_network_steps_def
      ip_version_step_def opt_leaf_def opt_item_def reject_if_def NewRuleSetItem_def
      empty_rule_def put_item_def Let_def)

lemma sample_dns_Start:
  "tree_Start sample_env (sample_dns_rule []) sample_store =
     Inr (sample_dns_rule [''s''], sample_store(''s'' \<mapsto> IncRef (sample_set [domain_rule ''a''])))"
  by (simp add: sample_dns_rule_def adr_Start_def item_started_def started_def any_item_Start_def
      sample_store_def store_after_def empty_rule_def put_item_def Let_def)

section \<open>Headless rules from options\<close>

definition ip_options :: "(string list, string list, (Prefix + addr) list) HeadlessRule" where
  "ip_options = HeadlessRule ''default'' (zeroDefaultHeadlessRule\<lparr>hr_IPCIDR := Some [''1.1.1.1'']\<rparr>) [] [] False"

definition domain_options :: "(string list, string list, (Prefix + addr) list) HeadlessRule" where
  "domain_options = HeadlessRule ''default'' (zeroDefaultHeadlessRule\<lparr>hr_Domain := Some [''a'']\<rparr>) [] [] False"

lemmas headless_eval =
  require_valid_def DefaultHeadlessRule_IsValid_def zeroDefaultHeadlessRule_def NewDefaultHeadlessRule_def
  headless_address_steps_def headless_process_steps_def opt_item_def cause_def NewDomainItem_def describe_list_def
  NewIPCIDRItem_def

lemma domain_options_build:
  "NewHeadlessRule sample_lib False domain_options =
     Inr (DefaultHeadless (put_item DestinationAddress (DomainItem [''a''] ''domain=a'') (empty_rule False None)))"
  by (simp add: domain_options_def headless_eval empty_rule_def put_item_def sample_lib_def)

lemma ip_options_build:
  "NewHeadlessRule sample_lib False ip_options =
     Inr (DefaultHeadless (put_item DestinationIPCIDR
       (IPCIDRItem [Inr (Addr4 0x01010101)] False ''ip_cidr=1.1.1.1'') (empty_rule False None)))"
  by (simp add: ip_options_def headless_eval empty_rule_def put_item_def sample_lib_def)

section \<open>A remote rule-set\<close>

definition sample_remote_options :: "(string list, string list, (Prefix + addr) list) RuleSetOptions" where
  "sample_remote_options = \<lparr>ro_Type = ''remote'', ro_Tag = ''s'', ro_Format = ''source'', ro_Inline = [],
     ro_LocalPath = [], ro_Remote = \<lparr>URL = ''u'', DownloadDetour = [], UpdateInterval = 0\<rparr>\<rparr>"

definition sample_decoders :: "(string list, string list, (Prefix + addr) list) decoders" where
  "sample_decoders = \<lparr>dec_source = (\<lambda>_. Inr \<lparr>rsc_Version = 1, rsc_Rules = [domain_options]\<rparr>),
     dec_binary = (\<lambda>_. Inl (E_Lib []))\<rparr>"

definition sample_remote :: "(string list, string list, (Prefix + addr) list, unit) remote_rule_set" where
  "sample_remote = NewRemoteRuleSet sample_remote_options"

lemma sample_remote_fields [simp]:
  "rr_options sample_remote = sample_remote_options" "lastEtag sample_remote = []" "rs_callbacks sample_remote = []"
  by (simp_all add: sample_remote_def NewRemoteRuleSet_def)

definition sample_http :: "string \<Rightarrow> string \<Rightarrow> http_response" where
  "sample_http url etag = Response 200 ''e1'' (Inr [7])"

lemma sample_load:
  "\<exists>s'. loadBytes sample_lib False sample_decoders [7] sample_remote = Inr (s', [])"
  by (simp add: loadBytes_def sample_decoders_def sample_remote_options_def Upgrade_def ruleset_versions
      domain_options_build)

lemma sample_fetch:
  "\<exists>s' cf. fetch sample_lib False sample_decoders sample_http 5 True (Some Map.empty) sample_remote = (None, s', cf, [])"
  using sample_load by (auto simp: fetch_def sample_http_def Let_def)

end
