(* ===== verification/Binary_IO.thy ===== *)
theory Binary_IO
  imports Netip
begin

unbundle bit_operations_syntax

text \<open>
  Reading and writing binary data, as far as Go's packages \<open>io\<close>, \<open>encoding/binary\<close> and \<open>net/netip\<close>
  define it. A reader is a function from the remaining input to a value and the rest of the input, or
  an error; what a writer writes is a list of bytes. The locale \<open>codec\<close> is the contract between a
  reader and a writer, from which the round trip of counted sequences follows.
\<close>

type_synonym 'a reader = "bytes \<Rightarrow> ('a \<times> bytes) result"

section \<open>Bytes, flags and big-endian numbers\<close>

definition io_EOF :: error where "io_EOF = E_Lib ''EOF''"
definition io_ErrUnexpectedEOF :: error where "io_ErrUnexpectedEOF = E_Lib ''unexpected EOF''"
definition os_ErrInvalid :: error where "os_ErrInvalid = E_Lib ''invalid argument''"

fun ReadByte :: "8 word reader" where
  "ReadByte [] = Inl io_EOF"
| "ReadByte (b # bs) = Inr (b, bs)"

definition ReadFull :: "nat \<Rightarrow> bytes reader" where
  "ReadFull n bs =
     (if n \<le> length bs then Inr (take n bs, drop n bs)
      else if bs = [] then Inl io_EOF else Inl io_ErrUnexpectedEOF)"

text \<open>\<open>binary.Read\<close> and \<open>binary.Write\<close> of a \<open>bool\<close>: any byte but 0 is true.\<close>

definition ReadBool :: "bool reader" where
  "ReadBool bs = bind_result (ReadByte bs) (\<lambda>(b, rest). Inr (b \<noteq> 0, rest))"

definition WriteBool :: "bool \<Rightarrow> bytes" where
  "WriteBool b = [if b then 1 else 0]"

definition be_value :: "bytes \<Rightarrow> nat" where
  "be_value bs = foldl (\<lambda>n b. n * 256 + unat b) 0 bs"

fun be_bytes :: "nat \<Rightarrow> nat \<Rightarrow> bytes" where
  "be_bytes 0 n = []"
| "be_bytes (Suc k) n = be_bytes k (n div 256) @ [word_of_nat n]"

definition ReadUint64 :: "nat reader" where
  "ReadUint64 bs = bind_result (ReadFull 8 bs) (\<lambda>(x, rest). Inr (be_value x, rest))"

definition WriteUint64 :: "nat \<Rightarrow> bytes" where
  "WriteUint64 n = be_bytes 8 n"

lemma length_be_bytes [simp]: "length (be_bytes k n) = k"
  by (induction k arbitrary: n) auto

lemma be_value_snoc: "be_value (bs @ [b]) = be_value bs * 256 + unat b"
  by (simp add: be_value_def)

lemma be_value_be_bytes: "be_value (be_bytes k n) = n mod 256 ^ k"
proof (induction k arbitrary: n)
  case 0
  then show ?case by (simp add: be_value_def)
next
  case (Suc k)
  have "unat (word_of_nat n :: 8 word) = n mod 256" by (simp add: unat_of_nat take_bit_eq_mod)
  moreover have "n mod 256 ^ Suc k = n div 256 mod 256 ^ k * 256 + n mod 256"
    by (simp add: mod_mult2_eq mult.commute)
  ultimately show ?case by (simp add: be_value_snoc Suc.IH)
qed

lemma ReadFull_append [codec]: "length x = n \<Longrightarrow> ReadFull n (x @ rest) = Inr (x, rest)"
  by (simp add: ReadFull_def)

lemma ReadBool_WriteBool [codec]: "ReadBool (WriteBool b @ rest) = Inr (b, rest)"
  by (simp add: ReadBool_def WriteBool_def)

lemma ReadUint64_WriteUint64 [codec]: "n < 2 ^ 64 \<Longrightarrow> ReadUint64 (WriteUint64 n @ rest) = Inr (n, rest)"
  by (simp add: ReadUint64_def WriteUint64_def ReadFull_append be_value_be_bytes)

section \<open>Variable-length numbers\<close>

text \<open>\<open>binary.ReadUvarint\<close>: seven bits per byte, at most ten bytes, and at most one bit in the tenth.\<close>

definition errOverflow :: error where "errOverflow = E_Lib ''binary: varint overflows a 64-bit integer''"

function ReadUvarint_loop :: "nat \<Rightarrow> 64 word \<Rightarrow> 64 word reader" where
  "ReadUvarint_loop i x bs =
     (if i < 10
      then (case bs of
              [] \<Rightarrow> Inl (if i > 0 then io_ErrUnexpectedEOF else io_EOF)
            | b # rest \<Rightarrow>
                if b < 0x80
                then (if i = 9 \<and> b > 1 then Inl errOverflow else Inr (x OR push_bit (7 * i) (ucast b), rest))
                else ReadUvarint_loop (Suc i) (x OR push_bit (7 * i) (ucast (b AND 0x7F))) rest)
      else Inl errOverflow)"
  by pat_completeness auto
termination by (relation "measure (\<lambda>(i, _). 10 - i)") auto

declare ReadUvarint_loop.simps [simp del]

definition ReadUvarint :: "64 word reader" where
  "ReadUvarint bs = ReadUvarint_loop 0 0 bs"

fun PutUvarint :: "nat \<Rightarrow> bytes" where
  "PutUvarint n =
     (if n < 128 then [word_of_nat n] else word_of_nat (n mod 128 + 128) # PutUvarint (n div 128))"

declare PutUvarint.simps [simp del]

text \<open>A reader that succeeds has consumed input.\<close>

lemma ReadByte_consumes: "ReadByte bs = Inr (b, rest) \<Longrightarrow> length bs = Suc (length rest)"
  by (cases bs) auto

lemma ReadBool_consumes: "ReadBool bs = Inr (b, rest) \<Longrightarrow> length rest < length bs"
  by (cases bs) (auto simp: ReadBool_def)

lemma ReadUvarint_consumes: "ReadUvarint bs = Inr (n, rest) \<Longrightarrow> length rest < length bs"
proof -
  have "ReadUvarint_loop i x bs = Inr (n, rest) \<Longrightarrow> length rest < length bs" for i x
  proof (induction i x bs rule: ReadUvarint_loop.induct)
    case (1 i x bs)
    then show ?case
      by (subst (asm) (2) ReadUvarint_loop.simps) (force split: if_splits list.splits)
  qed
  then show "ReadUvarint bs = Inr (n, rest) \<Longrightarrow> length rest < length bs" by (simp add: ReadUvarint_def)
qed

text \<open>Adding the next seven bits above the ones read so far is addition.\<close>

lemma or_push_bit_of_nat:
  assumes "a < 2 ^ k"
  shows "(word_of_nat a :: 64 word) OR push_bit k (word_of_nat d) = word_of_nat (a + d * 2 ^ k)"
proof -
  have "take_bit k a AND push_bit k d = 0" by (auto simp: bit_eq_iff bit_simps)
  then have "a AND push_bit k d = 0" using assms by (simp add: take_bit_nat_eq_self)
  then have "a OR push_bit k d = a + d * 2 ^ k" by (simp add: disjunctive_add_eq_or [symmetric] push_bit_eq_mult)
  then show ?thesis by (metis of_nat_or_eq push_bit_of_nat)
qed

lemma ucast_byte_of_nat: "d < 256 \<Longrightarrow> (ucast (word_of_nat d :: 8 word) :: 64 word) = word_of_nat d"
  by (simp add: unsigned_of_nat take_bit_nat_eq_self)

lemma low_bits_of_nat: "(word_of_nat n :: 8 word) AND 0x7F = word_of_nat (n mod 128)"
proof -
  have "(0x7F :: 8 word) = mask 7" by (simp add: mask_eq_exp_minus_1)
  then have "(word_of_nat n :: 8 word) AND 0x7F = take_bit 7 (word_of_nat n)" by (simp only: take_bit_eq_mask)
  also have "\<dots> = word_of_nat (take_bit 7 n)" by (simp only: take_bit_of_nat)
  finally show ?thesis by (simp add: take_bit_eq_mod)
qed

lemma byte_less_iff: "d < 256 \<Longrightarrow> k < 256 \<Longrightarrow> (word_of_nat d :: 8 word) < word_of_nat k \<longleftrightarrow> d < k"
  by (simp add: word_less_nat_alt unat_of_nat take_bit_nat_eq_self)

lemma ReadUvarint_loop_PutUvarint:
  assumes "a < 2 ^ (7 * i)" and "a + n * 2 ^ (7 * i) < 2 ^ 64" and "i < 10" and "n > 0 \<or> i = 0"
  shows "ReadUvarint_loop i (word_of_nat a) (PutUvarint n @ rest) = Inr (word_of_nat (a + n * 2 ^ (7 * i)), rest)"
  using assms
proof (induction n arbitrary: i a rule: PutUvarint.induct)
  case (1 n)
  show ?case
  proof (cases "n < 128")
    case True
    have "n \<le> 1" if "i = 9"
    proof -
      have "n * 2 ^ 63 < 2 * (2 :: nat) ^ 63" using 1(3) that by simp
      then show ?thesis by simp
    qed
    then have small: "\<not> (i = 9 \<and> (1 :: 8 word) < word_of_nat n)"
      using byte_less_iff [of 1 n] True by auto
    have "(word_of_nat n :: 8 word) < 0x80" using byte_less_iff [of n 128] True by simp
    then show ?thesis
      using small True \<open>i < 10\<close> or_push_bit_of_nat [OF 1(2), of n]
      by (subst PutUvarint.simps, subst ReadUvarint_loop.simps) (simp add: ucast_byte_of_nat)
  next
    case False
    let ?d = "n mod 128" and ?a = "a + n mod 128 * 2 ^ (7 * i)"
    have "n * 2 ^ (7 * i) = (n mod 128 + n div 128 * 128) * 2 ^ (7 * i)" by simp
    also have "\<dots> = n mod 128 * 2 ^ (7 * i) + n div 128 * (128 * 2 ^ (7 * i))"
      by (simp only: add_mult_distrib mult.assoc)
    finally have split: "?a + n div 128 * 2 ^ (7 * Suc i) = a + n * 2 ^ (7 * i)" by (simp add: power_add)
    have "?d \<le> 127" using mod_less_divisor [of 128 n] by linarith
    then have "?d * 2 ^ (7 * i) \<le> 127 * 2 ^ (7 * i)" by (rule mult_le_mono1)
    with 1(2) have "?a < 128 * 2 ^ (7 * i)" by linarith
    then have a: "?a < 2 ^ (7 * Suc i)" by (simp add: power_add)
    have "128 * 2 ^ (7 * i) \<le> n * 2 ^ (7 * i)" using False by simp
    with 1(3) have "128 * 2 ^ (7 * i) < (2 :: nat) ^ 64" by linarith
    then have "2 ^ (7 * Suc i) < (2 :: nat) ^ 64" by (simp add: power_add)
    then have i: "Suc i < 10" by (simp only: power_strict_increasing_iff, simp)
    have "\<not> (word_of_nat (n mod 128 + 128) :: 8 word) < 0x80" using byte_less_iff [of "n mod 128 + 128" 128] by simp
    then have "ReadUvarint_loop i (word_of_nat a) (PutUvarint n @ rest)
        = ReadUvarint_loop (Suc i) (word_of_nat ?a) (PutUvarint (n div 128) @ rest)"
      using False \<open>i < 10\<close> or_push_bit_of_nat [OF 1(2), of ?d] low_bits_of_nat [of "n mod 128 + 128"]
      by (subst PutUvarint.simps, subst ReadUvarint_loop.simps) (simp add: ucast_byte_of_nat)
    also have "\<dots> = Inr (word_of_nat (?a + n div 128 * 2 ^ (7 * Suc i)), rest)"
      by (rule 1(1) [OF False a _ i]) (use 1(3) split False in \<open>simp_all only: div_greater_zero_iff, auto\<close>)
    finally show ?thesis by (simp only: split)
  qed
qed

theorem ReadUvarint_PutUvarint [codec]: "ReadUvarint (PutUvarint (unat n) @ rest) = Inr (n, rest)"
proof -
  have "unat n < 2 ^ 64" using unsigned_less [of n] by simp
  from ReadUvarint_loop_PutUvarint [of 0 0 "unat n"] this show ?thesis by (simp add: ReadUvarint_def)
qed

section \<open>Strings as bytes\<close>

definition str_bytes :: "string \<Rightarrow> bytes" where "str_bytes s = map (\<lambda>c. word_of_nat (of_char c)) s"

definition bytes_str :: "bytes \<Rightarrow> string" where "bytes_str b = map (\<lambda>x. char_of (unat x)) b"

lemma bytes_str_str_bytes [simp]: "bytes_str (str_bytes s) = s"
proof -
  have "unat (word_of_nat (of_char c) :: 8 word) = of_char c" for c
    using nat_of_char_less_256 [of c] by (simp add: unat_of_nat take_bit_nat_eq_self)
  then show ?thesis by (simp add: bytes_str_def str_bytes_def comp_def)
qed

lemma str_bytes_bytes_str: "str_bytes (bytes_str bs) = bs"
proof -
  have "unat b < 2 ^ LENGTH(8)" for b :: "8 word" by (rule unsigned_less)
  then have "word_of_nat (of_char (char_of (unat b) :: char)) = b" for b :: "8 word" by simp
  then show ?thesis by (simp add: bytes_str_def str_bytes_def comp_def)
qed

lemma str_bytes_inj [simp]: "str_bytes a = str_bytes b \<longleftrightarrow> a = b"
  by (metis bytes_str_str_bytes)

lemma length_str_bytes [simp]: "length (str_bytes s) = length s"
  by (simp add: str_bytes_def)

section \<open>Addresses and prefixes as bytes\<close>

definition AsSlice :: "addr \<Rightarrow> bytes" where
  "AsSlice a = (case a of AddrInvalid \<Rightarrow> [] | Addr4 w \<Rightarrow> be_bytes 4 (unat w) | Addr6 v _ \<Rightarrow> be_bytes 16 (unat v))"

text \<open>\<open>netip.AddrFromSlice\<close>, with the zero \<open>Addr\<close> for a slice of another length.\<close>

definition AddrFromSlice :: "bytes \<Rightarrow> addr" where
  "AddrFromSlice bs =
     (if length bs = 4 then Addr4 (word_of_nat (be_value bs))
      else if length bs = 16 then Addr6 (word_of_nat (be_value bs)) []
      else AddrInvalid)"

definition withoutZone :: "addr \<Rightarrow> addr" where
  "withoutZone a = (case a of Addr6 v _ \<Rightarrow> Addr6 v [] | _ \<Rightarrow> a)"

definition PrefixFrom :: "addr \<Rightarrow> nat \<Rightarrow> Prefix" where
  "PrefixFrom a bits =
     \<lparr>pf_Addr = withoutZone a, pf_bits = (if Addr_IsValid a \<and> bits \<le> BitLen a then Some bits else None)\<rparr>"

definition Is4In6 :: "addr \<Rightarrow> bool" where
  "Is4In6 a = (case a of Addr6 v _ \<Rightarrow> drop_bit 32 v = 0xFFFF | _ \<Rightarrow> False)"

text \<open>\<open>uint8(prefix.Bits())\<close>: \<open>Bits\<close> is -1 for an invalid prefix.\<close>

definition Bits8 :: "Prefix \<Rightarrow> 8 word" where
  "Bits8 p = (case pf_bits p of None \<Rightarrow> - 1 | Some n \<Rightarrow> word_of_nat n)"

text \<open>Addresses that survive every conversion between slices and addresses.\<close>

definition plain_addr :: "addr \<Rightarrow> bool" where
  "plain_addr a \<longleftrightarrow> Addr_IsValid a \<and> \<not> hasZone a \<and> \<not> Is4In6 a"

lemma unat_lt: "unat (w :: 'a :: len word) < 2 ^ LENGTH('a)"
  by (rule unsigned_less)

lemma AddrFromSlice_AsSlice: "\<not> hasZone a \<Longrightarrow> AddrFromSlice (AsSlice a) = a"
proof (cases a)
  case (Addr4 w)
  then show ?thesis using unat_lt [of w] by (simp add: AddrFromSlice_def AsSlice_def be_value_be_bytes)
next
  case (Addr6 v z)
  then show "\<not> hasZone a \<Longrightarrow> ?thesis" using unat_lt [of v]
    by (simp add: AddrFromSlice_def AsSlice_def be_value_be_bytes)
qed (simp add: AddrFromSlice_def AsSlice_def)

lemma PrefixFrom_parts:
  assumes "pf_bits p = Some n" and "n \<le> BitLen (pf_Addr p)" and "plain_addr (pf_Addr p)"
  shows "PrefixFrom (pf_Addr p) (unat (Bits8 p)) = p"
proof -
  have "n < 256" using assms(2) by (cases "pf_Addr p") auto
  then have "unat (Bits8 p) = n" using assms(1) by (simp add: Bits8_def unat_of_nat take_bit_nat_eq_self)
  moreover have "withoutZone (pf_Addr p) = pf_Addr p"
    using assms(3) by (cases "pf_Addr p") (auto simp: withoutZone_def plain_addr_def)
  ultimately show ?thesis using assms by (cases p) (simp add: PrefixFrom_def plain_addr_def)
qed

section \<open>The contract between a reader and a writer\<close>

text \<open>A loop that reads \<open>n\<close> values and stops at the first error.\<close>

fun read_n :: "'a reader \<Rightarrow> nat \<Rightarrow> 'a list reader" where
  "read_n rd 0 bs = Inr ([], bs)"
| "read_n rd (Suc n) bs =
     (case rd bs of
        Inl e \<Rightarrow> Inl e
      | Inr (x, bs1) \<Rightarrow> bind_result (read_n rd n bs1) (\<lambda>(xs, rest). Inr (x # xs, rest)))"

text \<open>A sequence of writes that stops at the first error.\<close>

fun write_all :: "bytes result list \<Rightarrow> bytes result" where
  "write_all [] = Inr []"
| "write_all (w # ws) = bind_result w (\<lambda>bs. bind_result (write_all ws) (\<lambda>cs. Inr (bs @ cs)))"

lemma write_all_cong [fundef_cong]: "ws = vs \<Longrightarrow> write_all ws = write_all vs"
  by simp

lemma write_all_map_Inr [simp]: "write_all (map (\<lambda>x. Inr (f x)) xs) = Inr (concat (map f xs))"
  by (induction xs) auto

lemma write_all_Inr_member: "write_all ws = Inr bs \<Longrightarrow> w \<in> set ws \<Longrightarrow> \<exists>b. w = Inr b"
  by (induction ws arbitrary: bs) (auto simp: bind_result_Inr_iff)

text \<open>
  What is written for \<open>x\<close> is read back as \<open>img x\<close> (the same value, or its image in the format), and
  the reader stops exactly where the written data ends. \<open>ok\<close> restricts the values the format can hold.
\<close>

locale codec =
  fixes rd :: "'a reader" and wr :: "'b \<Rightarrow> bytes result" and img :: "'b \<Rightarrow> 'a" and ok :: "'b \<Rightarrow> bool"
  assumes decode: "ok x \<Longrightarrow> wr x = Inr bs \<Longrightarrow> rd (bs @ rest) = Inr (img x, rest)"
begin

lemma read_n_written:
  assumes "write_all (map wr xs) = Inr bs" and "list_all ok xs"
  shows "read_n rd (length xs) (bs @ rest) = Inr (map img xs, rest)"
  using assms
proof (induction xs arbitrary: bs)
  case Nil
  then show ?case by simp
next
  case (Cons x xs)
  then obtain a b where "wr x = Inr a" "write_all (map wr xs) = Inr b" "bs = a @ b"
    by (auto simp: bind_result_Inr_iff)
  with Cons decode [of x a "b @ rest"] show ?case by simp
qed

text \<open>So the format is prefix-free up to the image.\<close>

lemma unique_image:
  assumes "ok x" and "ok y" and "wr x = Inr a" and "wr y = Inr b" and "a @ r = b @ s"
  shows "img x = img y \<and> r = s"
  using decode [OF assms(1,3), of r] decode [OF assms(2,4), of s] assms(5) by simp

end

interpretation flag: codec ReadBool "\<lambda>b. Inr (WriteBool b)" id "\<lambda>_. True"
  by unfold_locales (auto simp: codec)

interpretation uvarint: codec ReadUvarint "\<lambda>n. Inr (PutUvarint (unat n))" id "\<lambda>_. True"
  by unfold_locales (auto simp: codec)

end
