(* ===== verification/Srs.thy ===== *)
theory Srs
  imports Headless_Rules Binary_IO
begin

text \<open>
  The binary rule-set format (package \<open>common/srs\<close>): \<open>Read\<close> and \<open>Write\<close> with the tagged items of a
  default rule, nested logical rules, IP sets and prefixes. The wire formats of other modules (the \<open>varbin\<close>
  values, the domain matchers) and the compression are fields of \<open>codec_lib\<close>; \<open>codec_ok\<close> states what
  they document, namely that a value is read back as it was written. Output goes to a buffer in memory,
  so a write itself does not fail.
\<close>

section \<open>What other modules provide\<close>

text \<open>
  \<open>ip_ranges\<close> and \<open>ip_of_ranges\<close> are the two conversions between a \<open>netipx.IPSet\<close> and the struct of its
  ranges; \<open>max_rules\<close> and \<open>max_ranges\<close> are the longest slices \<open>make\<close> can allocate for rules and ranges.
\<close>

record ('dm, 'ag, 'ip) codec_lib =
  vb_WriteUvarint :: "64 word \<Rightarrow> bytes"
  vb_ReadStrings :: "string slice reader"
  vb_WriteStrings :: "string list \<Rightarrow> bytes"
  vb_ReadUint16s :: "16 word slice reader"
  vb_WriteUint16s :: "16 word list \<Rightarrow> bytes"
  vb_ReadUint8s :: "8 word slice reader"
  vb_WriteUint8s :: "8 word list \<Rightarrow> bytes"
  vb_ReadBytes :: "bytes reader"
  vb_WriteBytes :: "bytes \<Rightarrow> bytes"
  vb_ReadUint8 :: "8 word reader"
  vb_ReadRanges :: "nat \<Rightarrow> (bytes \<times> bytes) list reader"
  vb_WriteRange :: "bytes \<times> bytes \<Rightarrow> bytes"
  ReadMatcher :: "'dm reader"
  Matcher_Write :: "'dm \<Rightarrow> bytes result"
  Matcher_Dump :: "'dm \<Rightarrow> string slice \<times> string slice"
  ReadAdGuardMatcher :: "'ag reader"
  AdGuardMatcher_Write :: "'ag \<Rightarrow> bytes result"
  AdGuardMatcher_Dump :: "'ag \<Rightarrow> string slice"
  ip_ranges :: "'ip \<Rightarrow> (addr \<times> addr) list"
  ip_of_ranges :: "(addr \<times> addr) list \<Rightarrow> 'ip"
  IPSet_Prefixes :: "'ip \<Rightarrow> Prefix list"
  netip_Prefix_String :: "Prefix \<Rightarrow> string"
  M_AddrFromIP :: "bytes \<Rightarrow> addr"
  TypedMap_Put :: "(InterfaceType \<times> Prefix option list) list \<Rightarrow> InterfaceType \<Rightarrow> Prefix option list \<Rightarrow>
    (InterfaceType \<times> Prefix option list) list"
  zlib_Reader :: "bytes \<Rightarrow> bytes result"
  zlib_Writer :: "bytes \<Rightarrow> bytes"
  max_rules :: nat
  max_ranges :: nat

type_synonym ('dm, 'ag, 'ip) rule_options = "('dm, 'ag, 'ip) DefaultHeadlessRule"

section \<open>Item tags\<close>

abbreviation (input) ruleItemQueryType :: "8 word" where "ruleItemQueryType \<equiv> 0"
abbreviation (input) ruleItemNetwork :: "8 word" where "ruleItemNetwork \<equiv> 1"
abbreviation (input) ruleItemDomain :: "8 word" where "ruleItemDomain \<equiv> 2"
abbreviation (input) ruleItemDomainKeyword :: "8 word" where "ruleItemDomainKeyword \<equiv> 3"
abbreviation (input) ruleItemDomainRegex :: "8 word" where "ruleItemDomainRegex \<equiv> 4"
abbreviation (input) ruleItemSourceIPCIDR :: "8 word" where "ruleItemSourceIPCIDR \<equiv> 5"
abbreviation (input) ruleItemIPCIDR :: "8 word" where "ruleItemIPCIDR \<equiv> 6"
abbreviation (input) ruleItemSourcePort :: "8 word" where "ruleItemSourcePort \<equiv> 7"
abbreviation (input) ruleItemSourcePortRange :: "8 word" where "ruleItemSourcePortRange \<equiv> 8"
abbreviation (input) ruleItemPort :: "8 word" where "ruleItemPort \<equiv> 9"
abbreviation (input) ruleItemPortRange :: "8 word" where "ruleItemPortRange \<equiv> 10"
abbreviation (input) ruleItemProcessName :: "8 word" where "ruleItemProcessName \<equiv> 11"
abbreviation (input) ruleItemProcessPath :: "8 word" where "ruleItemProcessPath \<equiv> 12"
abbreviation (input) ruleItemPackageName :: "8 word" where "ruleItemPackageName \<equiv> 13"
abbreviation (input) ruleItemWIFISSID :: "8 word" where "ruleItemWIFISSID \<equiv> 14"
abbreviation (input) ruleItemWIFIBSSID :: "8 word" where "ruleItemWIFIBSSID \<equiv> 15"
abbreviation (input) ruleItemAdGuardDomain :: "8 word" where "ruleItemAdGuardDomain \<equiv> 16"
abbreviation (input) ruleItemProcessPathRegex :: "8 word" where "ruleItemProcessPathRegex \<equiv> 17"
abbreviation (input) ruleItemNetworkType :: "8 word" where "ruleItemNetworkType \<equiv> 18"
abbreviation (input) ruleItemNetworkIsExpensive :: "8 word" where "ruleItemNetworkIsExpensive \<equiv> 19"
abbreviation (input) ruleItemNetworkIsConstrained :: "8 word" where "ruleItemNetworkIsConstrained \<equiv> 20"
abbreviation (input) ruleItemNetworkInterfaceAddress :: "8 word" where "ruleItemNetworkInterfaceAddress \<equiv> 21"
abbreviation (input) ruleItemDefaultInterfaceAddress :: "8 word" where "ruleItemDefaultInterfaceAddress \<equiv> 22"
abbreviation (input) ruleItemFinal :: "8 word" where "ruleItemFinal \<equiv> 0xFF"

definition MagicBytes :: bytes where "MagicBytes = [0x53, 0x52, 0x53]"

section \<open>IP sets and prefixes\<close>

definition readIPSet :: "('dm, 'ag, 'ip) codec_lib \<Rightarrow> 'ip reader" where
  "readIPSet K bs =
     bind_result (ReadByte bs) (\<lambda>(version, bs1).
     if version \<noteq> 1 then Inl os_ErrInvalid
     else bind_result (ReadUint64 bs1) (\<lambda>(n, bs2).
     if n > max_ranges K then Inl (Panic [S ''makeslice: len out of range''])
     else bind_result (vb_ReadRanges K n bs2) (\<lambda>(ranges, bs3).
       Inr (ip_of_ranges K (map (\<lambda>(from, to). (M_AddrFromIP K from, M_AddrFromIP K to)) ranges), bs3))))"

definition writeIPSet :: "('dm, 'ag, 'ip) codec_lib \<Rightarrow> 'ip \<Rightarrow> bytes" where
  "writeIPSet K ipSet =
     (let dataList = map (\<lambda>(from, to). (AsSlice from, AsSlice to)) (ip_ranges K ipSet) in
      [1] @ WriteUint64 (length dataList) @ concat (map (vb_WriteRange K) dataList))"

definition readPrefix :: "('dm, 'ag, 'ip) codec_lib \<Rightarrow> Prefix reader" where
  "readPrefix K bs =
     bind_result (vb_ReadBytes K bs) (\<lambda>(addrSlice, bs1).
     bind_result (vb_ReadUint8 K bs1) (\<lambda>(prefixBits, bs2).
       Inr (PrefixFrom (M_AddrFromIP K addrSlice) (unat prefixBits), bs2)))"

definition writePrefix :: "('dm, 'ag, 'ip) codec_lib \<Rightarrow> Prefix \<Rightarrow> bytes" where
  "writePrefix K p = vb_WriteBytes K (AsSlice (pf_Addr p)) @ [Bits8 p]"

definition writeRuleItemCIDR ::
  "('dm, 'ag, 'ip) lib \<Rightarrow> ('dm, 'ag, 'ip) codec_lib \<Rightarrow> 8 word \<Rightarrow> string list \<Rightarrow> bytes result" where
  "writeRuleItemCIDR L K itemType value =
     bind_result (parse_cidrs L 0 value) (\<lambda>ps.
     bind_result (IPSetBuild L ps) (\<lambda>ipSet. Inr (itemType # writeIPSet K ipSet)))"

section \<open>Writing default rules\<close>

definition writeRuleItemString :: "('dm, 'ag, 'ip) codec_lib \<Rightarrow> 8 word \<Rightarrow> string list \<Rightarrow> bytes result" where
  "writeRuleItemString K itemType value = Inr (itemType # vb_WriteStrings K value)"

definition writeRuleItemUint8 :: "('dm, 'ag, 'ip) codec_lib \<Rightarrow> 8 word \<Rightarrow> 8 word list \<Rightarrow> bytes result" where
  "writeRuleItemUint8 K itemType value = Inr (itemType # vb_WriteUint8s K value)"

definition writeRuleItemUint16 :: "('dm, 'ag, 'ip) codec_lib \<Rightarrow> 8 word \<Rightarrow> 16 word list \<Rightarrow> bytes result" where
  "writeRuleItemUint16 K itemType value = Inr (itemType # vb_WriteUint16s K value)"

text \<open>The loop over prefixes of the two interface address items, with its count.\<close>

definition writePrefixes :: "('dm, 'ag, 'ip) lib \<Rightarrow> ('dm, 'ag, 'ip) codec_lib \<Rightarrow> Prefix option list \<Rightarrow> bytes" where
  "writePrefixes L K ps =
     vb_WriteUvarint K (word_of_nat (length ps)) @
     concat (map (\<lambda>p. writePrefix K (Prefixable_Build L p zeroPrefix)) ps)"

definition writeEntry ::
  "('dm, 'ag, 'ip) lib \<Rightarrow> ('dm, 'ag, 'ip) codec_lib \<Rightarrow> InterfaceType \<times> Prefix option list \<Rightarrow> bytes" where
  "writeEntry L K entry = fst entry # writePrefixes L K (snd entry)"

text \<open>\<open>if given { if generateVersion < v { return E.New(what) }; write }\<close>\<close>

definition opt_write :: "bool \<Rightarrow> bytes result \<Rightarrow> bytes result" where
  "opt_write given w = (if given then w else Inr [])"

definition since :: "8 word \<Rightarrow> 8 word \<Rightarrow> string \<Rightarrow> bytes result \<Rightarrow> bytes result" where
  "since generateVersion v what w = (if generateVersion < v then Inl (E_New [S what]) else w)"

definition write_address_items ::
  "('dm, 'ag, 'ip) lib \<Rightarrow> ('dm, 'ag, 'ip) codec_lib \<Rightarrow> ('dm, 'ag, 'ip) rule_options \<Rightarrow> 8 word \<Rightarrow> bytes result list" where
  "write_address_items L K r v = [
     opt_write (nonempty (hr_QueryType r)) (writeRuleItemUint16 K ruleItemQueryType (elems (hr_QueryType r))),
     opt_write (nonempty (hr_Network r)) (writeRuleItemString K ruleItemNetwork (elems (hr_Network r))),
     opt_write (nonempty (hr_Domain r) \<or> nonempty (hr_DomainSuffix r))
       (bind_result (Matcher_Write K
          (NewMatcher L (elems (hr_Domain r)) (elems (hr_DomainSuffix r)) (v = RuleSetVersion1)))
        (\<lambda>bs. Inr (ruleItemDomain # bs))),
     opt_write (nonempty (hr_DomainKeyword r)) (writeRuleItemString K ruleItemDomainKeyword (elems (hr_DomainKeyword r))),
     opt_write (nonempty (hr_DomainRegex r)) (writeRuleItemString K ruleItemDomainRegex (elems (hr_DomainRegex r))),
     opt_write (nonempty (hr_SourceIPCIDR r))
       (cause ''source_ip_cidr'' (writeRuleItemCIDR L K ruleItemSourceIPCIDR (elems (hr_SourceIPCIDR r)))),
     opt_write (nonempty (hr_IPCIDR r))
       (cause ''ipcidr'' (writeRuleItemCIDR L K ruleItemIPCIDR (elems (hr_IPCIDR r)))),
     opt_write (nonempty (hr_SourcePort r)) (writeRuleItemUint16 K ruleItemSourcePort (elems (hr_SourcePort r))),
     opt_write (nonempty (hr_SourcePortRange r))
       (writeRuleItemString K ruleItemSourcePortRange (elems (hr_SourcePortRange r))),
     opt_write (nonempty (hr_Port r)) (writeRuleItemUint16 K ruleItemPort (elems (hr_Port r))),
     opt_write (nonempty (hr_PortRange r)) (writeRuleItemString K ruleItemPortRange (elems (hr_PortRange r)))]"

definition write_process_items ::
  "('dm, 'ag, 'ip) lib \<Rightarrow> ('dm, 'ag, 'ip) codec_lib \<Rightarrow> ('dm, 'ag, 'ip) rule_options \<Rightarrow> 8 word \<Rightarrow> bytes result list" where
  "write_process_items L K r v = [
     opt_write (nonempty (hr_ProcessName r)) (writeRuleItemString K ruleItemProcessName (elems (hr_ProcessName r))),
     opt_write (nonempty (hr_ProcessPath r)) (writeRuleItemString K ruleItemProcessPath (elems (hr_ProcessPath r))),
     opt_write (nonempty (hr_ProcessPathRegex r))
       (writeRuleItemString K ruleItemProcessPathRegex (elems (hr_ProcessPathRegex r))),
     opt_write (nonempty (hr_PackageName r)) (writeRuleItemString K ruleItemPackageName (elems (hr_PackageName r))),
     opt_write (nonempty (hr_NetworkType r))
       (since v RuleSetVersion3 ''`network_type` rule item is only supported in version 3 or later''
         (writeRuleItemUint8 K ruleItemNetworkType (elems (hr_NetworkType r)))),
     opt_write (hr_NetworkIsExpensive r)
       (since v RuleSetVersion3 ''`network_is_expensive` rule item is only supported in version 3 or later''
         (Inr [ruleItemNetworkIsExpensive])),
     opt_write (hr_NetworkIsConstrained r)
       (since v RuleSetVersion3 ''`network_is_constrained` rule item is only supported in version 3 or later''
         (Inr [ruleItemNetworkIsConstrained])),
     opt_write (nonempty (hr_NetworkInterfaceAddress r))
       (since v RuleSetVersion4 ''`network_interface_address` rule item is only supported in version 4 or later''
         (Inr (ruleItemNetworkInterfaceAddress #
               vb_WriteUvarint K (word_of_nat (length (elems (hr_NetworkInterfaceAddress r)))) @
               concat (map (writeEntry L K) (elems (hr_NetworkInterfaceAddress r)))))),
     opt_write (nonempty (hr_DefaultInterfaceAddress r))
       (since v RuleSetVersion4 ''`default_interface_address` rule item is only supported in version 4 or later''
         (Inr (ruleItemDefaultInterfaceAddress # writePrefixes L K (elems (hr_DefaultInterfaceAddress r))))),
     opt_write (nonempty (hr_WIFISSID r)) (writeRuleItemString K ruleItemWIFISSID (elems (hr_WIFISSID r))),
     opt_write (nonempty (hr_WIFIBSSID r)) (writeRuleItemString K ruleItemWIFIBSSID (elems (hr_WIFIBSSID r))),
     opt_write (nonempty (hr_AdGuardDomain r))
       (since v RuleSetVersion2 ''AdGuard rule items is only supported in version 2 or later''
         (bind_result (AdGuardMatcher_Write K (NewAdGuardMatcher L (elems (hr_AdGuardDomain r))))
           (\<lambda>bs. Inr (ruleItemAdGuardDomain # bs))))]"

definition writeDefaultRule ::
  "('dm, 'ag, 'ip) lib \<Rightarrow> ('dm, 'ag, 'ip) codec_lib \<Rightarrow> ('dm, 'ag, 'ip) rule_options \<Rightarrow> 8 word \<Rightarrow> bytes result" where
  "writeDefaultRule L K r v =
     bind_result (write_all (write_address_items L K r v @ write_process_items L K r v))
       (\<lambda>bs. Inr (0 # bs @ [ruleItemFinal] @ WriteBool (hr_Invert r)))"

section \<open>Reading default rules\<close>

text \<open>\<open>readRuleItemString\<close>, \<open>readRuleItemUint8\<close> and \<open>readRuleItemUint16\<close>\<close>

definition readRuleItemString :: "('dm, 'ag, 'ip) codec_lib \<Rightarrow> string slice reader" where
  "readRuleItemString K = vb_ReadStrings K"

definition readRuleItemUint8 :: "('dm, 'ag, 'ip) codec_lib \<Rightarrow> 8 word slice reader" where
  "readRuleItemUint8 K = vb_ReadUint8s K"

definition readRuleItemUint16 :: "('dm, 'ag, 'ip) codec_lib \<Rightarrow> 16 word slice reader" where
  "readRuleItemUint16 K = vb_ReadUint16s K"

text \<open>Reading a value and storing it in a field of the rule.\<close>

definition read_into :: "'x reader \<Rightarrow> ('x \<Rightarrow> 'r) \<Rightarrow> 'r reader" where
  "read_into rd upd bs = bind_result (rd bs) (\<lambda>(x, rest). Inr (upd x, rest))"

lemma read_into_cong [fundef_cong]:
  "\<lbrakk>bs = bs'; rd bs' = rd' bs'; upd = upd'\<rbrakk> \<Longrightarrow> read_into rd upd bs = read_into rd' upd' bs'"
  by (simp add: read_into_def)

definition readPrefixes :: "('dm, 'ag, 'ip) codec_lib \<Rightarrow> Prefix option list reader" where
  "readPrefixes K bs =
     bind_result (ReadUvarint bs) (\<lambda>(prefixCount, bs1).
     bind_result (read_n (readPrefix K) (unat prefixCount) bs1) (\<lambda>(value, bs2). Inr (map Some value, bs2)))"

fun readEntries ::
  "('dm, 'ag, 'ip) codec_lib \<Rightarrow> nat \<Rightarrow> (InterfaceType \<times> Prefix option list) list \<Rightarrow>
   (InterfaceType \<times> Prefix option list) list reader" where
  "readEntries K 0 m bs = Inr (m, bs)"
| "readEntries K (Suc n) m bs =
     bind_result (ReadByte bs) (\<lambda>(key, bs1).
     bind_result (readPrefixes K bs1) (\<lambda>(value, bs2). readEntries K n (TypedMap_Put K m key value) bs2))"

text \<open>The items up to \<open>network_type\<close> and the items after it, in two parts of one switch.\<close>

definition read_plain_item ::
  "('dm, 'ag, 'ip) codec_lib \<Rightarrow> bool \<Rightarrow> 8 word \<Rightarrow> 8 word \<Rightarrow> ('dm, 'ag, 'ip) rule_options \<Rightarrow>
   ('dm, 'ag, 'ip) rule_options reader" where
  "read_plain_item K recov lastItemType t r =
     (if t = ruleItemDomainKeyword then read_into (readRuleItemString K) (\<lambda>x. r\<lparr>hr_DomainKeyword := x\<rparr>)
      else if t = ruleItemDomainRegex then read_into (readRuleItemString K) (\<lambda>x. r\<lparr>hr_DomainRegex := x\<rparr>)
      else if t = ruleItemSourcePort then read_into (readRuleItemUint16 K) (\<lambda>x. r\<lparr>hr_SourcePort := x\<rparr>)
      else if t = ruleItemSourcePortRange then read_into (readRuleItemString K) (\<lambda>x. r\<lparr>hr_SourcePortRange := x\<rparr>)
      else if t = ruleItemPort then read_into (readRuleItemUint16 K) (\<lambda>x. r\<lparr>hr_Port := x\<rparr>)
      else if t = ruleItemPortRange then read_into (readRuleItemString K) (\<lambda>x. r\<lparr>hr_PortRange := x\<rparr>)
      else if t = ruleItemProcessName then read_into (readRuleItemString K) (\<lambda>x. r\<lparr>hr_ProcessName := x\<rparr>)
      else if t = ruleItemProcessPath then read_into (readRuleItemString K) (\<lambda>x. r\<lparr>hr_ProcessPath := x\<rparr>)
      else if t = ruleItemProcessPathRegex then read_into (readRuleItemString K) (\<lambda>x. r\<lparr>hr_ProcessPathRegex := x\<rparr>)
      else if t = ruleItemPackageName then read_into (readRuleItemString K) (\<lambda>x. r\<lparr>hr_PackageName := x\<rparr>)
      else if t = ruleItemWIFISSID then read_into (readRuleItemString K) (\<lambda>x. r\<lparr>hr_WIFISSID := x\<rparr>)
      else if t = ruleItemWIFIBSSID then read_into (readRuleItemString K) (\<lambda>x. r\<lparr>hr_WIFIBSSID := x\<rparr>)
      else if t = ruleItemNetworkType then read_into (readRuleItemUint8 K) (\<lambda>x. r\<lparr>hr_NetworkType := x\<rparr>)
      else if t = ruleItemNetworkIsExpensive then (\<lambda>bs. Inr (r\<lparr>hr_NetworkIsExpensive := True\<rparr>, bs))
      else if t = ruleItemNetworkIsConstrained then (\<lambda>bs. Inr (r\<lparr>hr_NetworkIsConstrained := True\<rparr>, bs))
      else (\<lambda>bs. Inl (E_New [S ''unknown rule item type: '', N (unat t), S '', last type: '', N (unat lastItemType)])))"

definition read_item ::
  "('dm, 'ag, 'ip) codec_lib \<Rightarrow> bool \<Rightarrow> 8 word \<Rightarrow> 8 word \<Rightarrow> ('dm, 'ag, 'ip) rule_options \<Rightarrow>
   ('dm, 'ag, 'ip) rule_options reader" where
  "read_item K recov lastItemType t r =
     (if t = ruleItemQueryType then read_into (readRuleItemUint16 K) (\<lambda>x. r\<lparr>hr_QueryType := Some (elems x)\<rparr>)
      else if t = ruleItemNetwork then read_into (readRuleItemString K) (\<lambda>x. r\<lparr>hr_Network := x\<rparr>)
      else if t = ruleItemDomain
      then read_into (ReadMatcher K) (\<lambda>m.
        let r1 = r\<lparr>hr_DomainMatcher := Some m\<rparr> in
        if recov then r1\<lparr>hr_Domain := fst (Matcher_Dump K m), hr_DomainSuffix := snd (Matcher_Dump K m)\<rparr> else r1)
      else if t = ruleItemSourceIPCIDR
      then read_into (readIPSet K) (\<lambda>x.
        let r1 = r\<lparr>hr_SourceIPSet := Some x\<rparr> in
        if recov then r1\<lparr>hr_SourceIPCIDR := Some (map (netip_Prefix_String K) (IPSet_Prefixes K x))\<rparr> else r1)
      else if t = ruleItemIPCIDR
      then read_into (readIPSet K) (\<lambda>x.
        let r1 = r\<lparr>hr_IPSet := Some x\<rparr> in
        if recov then r1\<lparr>hr_IPCIDR := Some (map (netip_Prefix_String K) (IPSet_Prefixes K x))\<rparr> else r1)
      else if t = ruleItemAdGuardDomain
      then read_into (ReadAdGuardMatcher K) (\<lambda>m.
        let r1 = r\<lparr>hr_AdGuardDomainMatcher := Some m\<rparr> in
        if recov then r1\<lparr>hr_AdGuardDomain := AdGuardMatcher_Dump K m\<rparr> else r1)
      else if t = ruleItemNetworkInterfaceAddress
      then (\<lambda>bs. bind_result (ReadUvarint bs) (\<lambda>(size, bs1).
        read_into (readEntries K (unat size) []) (\<lambda>m. r\<lparr>hr_NetworkInterfaceAddress := Some m\<rparr>) bs1))
      else if t = ruleItemDefaultInterfaceAddress
      then read_into (readPrefixes K) (\<lambda>value.
        r\<lparr>hr_DefaultInterfaceAddress := (if value = [] then None else Some value)\<rparr>)
      else read_plain_item K recov lastItemType t r)"

text \<open>
  The loop of \<open>readDefaultRule\<close>. The guard says that the readers of other modules do not give back more
  input than they got; \<open>read_items_step\<close> below removes it for such readers.
\<close>

definition no_progress :: error where "no_progress = Panic [S ''reader grew its input'']"

function read_items ::
  "('dm, 'ag, 'ip) codec_lib \<Rightarrow> bool \<Rightarrow> 8 word \<Rightarrow> ('dm, 'ag, 'ip) rule_options \<Rightarrow>
   ('dm, 'ag, 'ip) rule_options reader" where
  "read_items K recov lastItemType r bs =
     (case bs of
        [] \<Rightarrow> Inl io_EOF
      | t # bs1 \<Rightarrow>
          if t = ruleItemFinal then read_into ReadBool (\<lambda>b. r\<lparr>hr_Invert := b\<rparr>) bs1
          else (case read_item K recov lastItemType t r bs1 of
                  Inl err \<Rightarrow> Inl err
                | Inr (r', bs2) \<Rightarrow>
                    if length bs2 \<le> length bs1 then read_items K recov t r' bs2 else Inl no_progress))"
  by pat_completeness auto
termination by (relation "measure (\<lambda>(_, _, _, _, bs). length bs)") auto

declare read_items.simps [simp del]

definition readDefaultRule ::
  "('dm, 'ag, 'ip) codec_lib \<Rightarrow> bool \<Rightarrow> ('dm, 'ag, 'ip) rule_options reader" where
  "readDefaultRule K recov = read_items K recov 0 zeroDefaultHeadlessRule"

section \<open>Rules and files\<close>

definition read_rule_error :: "string \<Rightarrow> nat \<Rightarrow> error \<Rightarrow> error" where
  "read_rule_error what i err = E_Cause err [S what, N i, S '']'']"

function readRule :: "('dm, 'ag, 'ip) codec_lib \<Rightarrow> bool \<Rightarrow> ('dm, 'ag, 'ip) HeadlessRule reader"
  and readLogicalRule ::
    "('dm, 'ag, 'ip) codec_lib \<Rightarrow> bool \<Rightarrow> (string \<times> ('dm, 'ag, 'ip) HeadlessRule list \<times> bool) reader"
  and readRules ::
    "('dm, 'ag, 'ip) codec_lib \<Rightarrow> bool \<Rightarrow> string \<Rightarrow> nat \<Rightarrow> nat \<Rightarrow> ('dm, 'ag, 'ip) HeadlessRule list reader" where
  "readRule K recov bs =
     (case ReadByte bs of
        Inl err \<Rightarrow> Inl err
      | Inr (ruleType, bs1) \<Rightarrow>
          if ruleType = 0
          then read_into (readDefaultRule K recov) (\<lambda>d. HeadlessRule RuleTypeDefault d [] [] False) bs1
          else if ruleType = 1
          then (case readLogicalRule K recov bs1 of
                  Inl err \<Rightarrow> Inl err
                | Inr ((md, rules, neg), rest) \<Rightarrow>
                    Inr (HeadlessRule RuleTypeLogical zeroDefaultHeadlessRule md rules neg, rest))
          else Inl (E_New [S ''unknown rule type: '', N (unat ruleType)]))"
| "readLogicalRule K recov bs =
     (case ReadByte bs of
        Inl err \<Rightarrow> Inl err
      | Inr (md, bs1) \<Rightarrow>
          if md \<noteq> 0 \<and> md \<noteq> 1 then Inl (E_New [S ''unknown logical mode: '', N (unat md)])
          else (case ReadUvarint bs1 of
                  Inl err \<Rightarrow> Inl err
                | Inr (n, bs2) \<Rightarrow>
                    if unat n > max_rules K then Inl (Panic [S ''makeslice: len out of range''])
                    else (case readRules K recov ''read logical rule ['' 0 (unat n) bs2 of
                            Inl err \<Rightarrow> Inl err
                          | Inr (rules, bs3) \<Rightarrow>
                              read_into ReadBool (\<lambda>neg. (if md = 0 then LogicalTypeAnd else LogicalTypeOr, rules, neg)) bs3)))"
| "readRules K recov what i n bs =
     (if n = 0 then Inr ([], bs)
      else (case readRule K recov bs of
              Inl err \<Rightarrow> Inl (read_rule_error what i err)
            | Inr (rule, bs1) \<Rightarrow>
                if length bs1 < length bs
                then read_into (readRules K recov what (Suc i) (n - 1)) (\<lambda>rules. rule # rules) bs1
                else Inl no_progress))"
  by pat_completeness auto
termination
  by (relation "measure (\<lambda>x. case x of Inl (_, _, bs) \<Rightarrow> 2 * length bs
        | Inr (Inl (_, _, bs)) \<Rightarrow> 2 * length bs
        | Inr (Inr (_, _, _, _, n, bs)) \<Rightarrow> 2 * length bs + 1)")
    (auto dest!: ReadByte_consumes ReadUvarint_consumes)

declare readRule.simps [simp del] readLogicalRule.simps [simp del] readRules.simps [simp del]

definition Read :: "('dm, 'ag, 'ip) codec_lib \<Rightarrow> bool \<Rightarrow> bytes \<Rightarrow> ('dm, 'ag, 'ip) PlainRuleSetCompat result" where
  "Read K recov bs =
     bind_result (ReadFull 3 bs) (\<lambda>(magicBytes, bs1).
     if magicBytes \<noteq> MagicBytes then Inl (E_New [S ''invalid sing-box rule-set file''])
     else bind_result (ReadByte bs1) (\<lambda>(version, bs2).
     if version > RuleSetVersionCurrent then Inl (E_New [S ''unsupported version: '', N (unat version)])
     else bind_result (zlib_Reader K bs2) (\<lambda>bs3.
     bind_result (ReadUvarint bs3) (\<lambda>(n, bs4).
     if unat n > max_rules K then Inl (Panic [S ''makeslice: len out of range''])
     else bind_result (readRules K recov ''read rule['' 0 (unat n) bs4) (\<lambda>(rules, _).
       Inr \<lparr>rsc_Version = version, rsc_Rules = rules\<rparr>)))))"

text \<open>\<open>writeLogicalRule\<close>: the mode is checked before the \<open>n\<close> sub-rules (\<open>body\<close>, the outcome of writing
  them) are written.\<close>

definition writeLogicalRule ::
  "('dm, 'ag, 'ip) codec_lib \<Rightarrow> string \<Rightarrow> nat \<Rightarrow> bytes result \<Rightarrow> bool \<Rightarrow> bytes result" where
  "writeLogicalRule K md n body neg =
     bind_result (if md = LogicalTypeAnd then Inr 0 else if md = LogicalTypeOr then Inr 1
       else Inl (Panic [S ''unknown logical mode: '', S md])) (\<lambda>m.
     bind_result body (\<lambda>bs. Inr (1 # m # vb_WriteUvarint K (word_of_nat n) @ bs @ WriteBool neg)))"

fun writeRule ::
  "('dm, 'ag, 'ip) lib \<Rightarrow> ('dm, 'ag, 'ip) codec_lib \<Rightarrow> 8 word \<Rightarrow> ('dm, 'ag, 'ip) HeadlessRule \<Rightarrow> bytes result" where
  "writeRule L K v (HeadlessRule ty d md rules neg) =
     (if ty = RuleTypeDefault then writeDefaultRule L K d v
      else if ty = RuleTypeLogical
      then writeLogicalRule K md (length rules) (write_all (map (writeRule L K v) rules)) neg
      else Inl (Panic [S ''unknown rule type: '', S ty]))"

definition Write ::
  "('dm, 'ag, 'ip) lib \<Rightarrow> ('dm, 'ag, 'ip) codec_lib \<Rightarrow> ('dm, 'ag, 'ip) HeadlessRule list \<Rightarrow> 8 word \<Rightarrow> bytes result" where
  "Write L K rules generateVersion =
     bind_result (write_all (map (writeRule L K generateVersion) rules)) (\<lambda>bs.
       Inr (MagicBytes @ [generateVersion] @
            zlib_Writer K (vb_WriteUvarint K (word_of_nat (length rules)) @ bs)))"

section \<open>What the formats of other modules promise\<close>

definition codec_ok :: "('dm, 'ag, 'ip) codec_lib \<Rightarrow> bool" where
  "codec_ok K \<longleftrightarrow>
     (\<forall>n rest. ReadUvarint (vb_WriteUvarint K n @ rest) = Inr (n, rest)) \<and>
     (\<forall>xs rest. xs \<noteq> [] \<longrightarrow> vb_ReadStrings K (vb_WriteStrings K xs @ rest) = Inr (Some xs, rest)) \<and>
     (\<forall>xs rest. xs \<noteq> [] \<longrightarrow> vb_ReadUint16s K (vb_WriteUint16s K xs @ rest) = Inr (Some xs, rest)) \<and>
     (\<forall>xs rest. xs \<noteq> [] \<longrightarrow> vb_ReadUint8s K (vb_WriteUint8s K xs @ rest) = Inr (Some xs, rest)) \<and>
     (\<forall>x rest. vb_ReadBytes K (vb_WriteBytes K x @ rest) = Inr (x, rest)) \<and>
     (\<forall>b rest. vb_ReadUint8 K (b # rest) = Inr (b, rest)) \<and>
     (\<forall>ds rest. ds \<noteq> [] \<longrightarrow>
        vb_ReadRanges K (length ds) (concat (map (vb_WriteRange K) ds) @ rest) = Inr (ds, rest)) \<and>
     (\<forall>m bs rest. Matcher_Write K m = Inr bs \<longrightarrow> ReadMatcher K (bs @ rest) = Inr (m, rest)) \<and>
     (\<forall>m bs rest. AdGuardMatcher_Write K m = Inr bs \<longrightarrow> ReadAdGuardMatcher K (bs @ rest) = Inr (m, rest)) \<and>
     (\<forall>s. ip_of_ranges K (ip_ranges K s) = s) \<and>
     (\<forall>a. plain_addr a \<longrightarrow> M_AddrFromIP K (AsSlice a) = a) \<and>
     (\<forall>m k v. k \<notin> fst ` set m \<longrightarrow> TypedMap_Put K m k v = m @ [(k, v)]) \<and>
     (\<forall>bs. zlib_Reader K (zlib_Writer K bs) = Inr bs) \<and>
     max_rules K < 2 ^ 63 \<and> max_ranges K < 2 ^ 63"

lemma codec_okD [codec]:
  assumes "codec_ok K"
  shows "ReadUvarint (vb_WriteUvarint K n @ rest) = Inr (n, rest)"
    and "xs \<noteq> [] \<Longrightarrow> vb_ReadStrings K (vb_WriteStrings K xs @ rest) = Inr (Some xs, rest)"
    and "ps \<noteq> [] \<Longrightarrow> vb_ReadUint16s K (vb_WriteUint16s K ps @ rest) = Inr (Some ps, rest)"
    and "ts \<noteq> [] \<Longrightarrow> vb_ReadUint8s K (vb_WriteUint8s K ts @ rest) = Inr (Some ts, rest)"
    and "vb_ReadBytes K (vb_WriteBytes K x @ rest) = Inr (x, rest)"
    and "vb_ReadUint8 K (b # rest) = Inr (b, rest)"
    and "ds \<noteq> [] \<Longrightarrow>
        vb_ReadRanges K (length ds) (concat (map (vb_WriteRange K) ds) @ rest) = Inr (ds, rest)"
    and "Matcher_Write K m = Inr bs \<Longrightarrow> ReadMatcher K (bs @ rest) = Inr (m, rest)"
    and "AdGuardMatcher_Write K ag = Inr bs \<Longrightarrow> ReadAdGuardMatcher K (bs @ rest) = Inr (ag, rest)"
    and "ip_of_ranges K (ip_ranges K s) = s"
    and "plain_addr a \<Longrightarrow> M_AddrFromIP K (AsSlice a) = a"
    and "k \<notin> fst ` set es \<Longrightarrow> TypedMap_Put K es k v = es @ [(k, v)]"
    and "zlib_Reader K (zlib_Writer K bs) = Inr bs"
    and "max_rules K < 2 ^ 63" and "max_ranges K < 2 ^ 63"
  using assms by (simp_all add: codec_ok_def)

section \<open>Round trip of prefixes and IP sets\<close>

definition prefix_ok :: "Prefix \<Rightarrow> bool" where
  "prefix_ok p \<longleftrightarrow> plain_addr (pf_Addr p) \<and> (case pf_bits p of None \<Rightarrow> False | Some n \<Rightarrow> n \<le> BitLen (pf_Addr p))"

definition ip_ok :: "('dm, 'ag, 'ip) codec_lib \<Rightarrow> 'ip \<Rightarrow> bool" where
  "ip_ok K s \<longleftrightarrow> ip_ranges K s \<noteq> [] \<and> length (ip_ranges K s) \<le> max_ranges K
     \<and> list_all (\<lambda>(a, b). plain_addr a \<and> plain_addr b) (ip_ranges K s)"

interpretation prefixes: codec "readPrefix K" "\<lambda>p. Inr (writePrefix K p)" id "\<lambda>p. codec_ok K \<and> prefix_ok p"
proof unfold_locales
  fix p :: Prefix and bs rest :: bytes
  assume ok: "codec_ok K \<and> prefix_ok p" and w: "Inr (writePrefix K p) = (Inr bs :: bytes result)"
  then obtain n where "pf_bits p = Some n" "n \<le> BitLen (pf_Addr p)" "plain_addr (pf_Addr p)"
    by (auto simp: prefix_ok_def split: option.splits)
  with PrefixFrom_parts ok w show "readPrefix K (bs @ rest) = Inr (id p, rest)"
    by (auto simp: readPrefix_def writePrefix_def codec_okD)
qed

interpretation ipsets: codec "readIPSet K" "\<lambda>s. Inr (writeIPSet K s)" id "\<lambda>s. codec_ok K \<and> ip_ok K s"
proof unfold_locales
  fix s :: 'c and bs rest :: bytes
  assume ok: "codec_ok K \<and> ip_ok K s" and w: "Inr (writeIPSet K s) = (Inr bs :: bytes result)"
  let ?ds = "map (\<lambda>(from, to). (AsSlice from, AsSlice to)) (ip_ranges K s)"
  from ok have K: "codec_ok K" and s: "ip_ok K s" by auto
  have ds: "?ds \<noteq> []" using s by (simp add: ip_ok_def)
  have n: "length (ip_ranges K s) < 2 ^ 64" using s codec_okD(15) [OF K] by (simp add: ip_ok_def)
  have again: "map ((\<lambda>(from, to). (M_AddrFromIP K from, M_AddrFromIP K to)) \<circ> (\<lambda>(from, to). (AsSlice from, AsSlice to)))
      (ip_ranges K s) = ip_ranges K s"
    using s by (auto simp: ip_ok_def list_all_iff codec_okD(11) [OF K] intro!: map_idI)
  have "bs = 1 # WriteUint64 (length ?ds) @ concat (map (vb_WriteRange K) ?ds)"
    using w by (simp add: writeIPSet_def Let_def)
  moreover have "length ?ds \<le> max_ranges K" using s by (simp add: ip_ok_def)
  ultimately show "readIPSet K (bs @ rest) = Inr (id s, rest)"
    using n again codec_okD(7) [OF K ds, of rest] codec_okD(10) [OF K, of s]
    by (simp add: readIPSet_def ReadUint64_WriteUint64)
qed

section \<open>Round trip of default rules\<close>

definition build_prefix :: "('dm, 'ag, 'ip) lib \<Rightarrow> Prefix option \<Rightarrow> Prefix" where
  "build_prefix L p = Prefixable_Build L p zeroPrefix"

lemma readPrefixes_writePrefixes:
  assumes K: "codec_ok K" and "list_all (prefix_ok \<circ> build_prefix L) ps" and "length ps < 2 ^ 64"
  shows "readPrefixes K (writePrefixes L K ps @ rest) = Inr (map (Some \<circ> build_prefix L) ps, rest)"
proof -
  let ?qs = "map (build_prefix L) ps"
  have "unat (word_of_nat (length ps) :: 64 word) = length ps"
    using assms(3) by (simp add: unat_of_nat take_bit_nat_eq_self)
  moreover have "read_n (readPrefix K) (length ?qs) (concat (map (writePrefix K) ?qs) @ rest) = Inr (map id ?qs, rest)"
    by (rule prefixes.read_n_written) (use assms in \<open>simp_all add: list_all_iff del: map_map\<close>)
  ultimately show ?thesis
    by (simp add: readPrefixes_def writePrefixes_def codec_okD(1) [OF K] build_prefix_def [abs_def] comp_def)
qed

definition entry_ok :: "('dm, 'ag, 'ip) lib \<Rightarrow> InterfaceType \<times> Prefix option list \<Rightarrow> bool" where
  "entry_ok L e \<longleftrightarrow> list_all (prefix_ok \<circ> build_prefix L) (snd e) \<and> length (snd e) < 2 ^ 64"

definition entry_image ::
  "('dm, 'ag, 'ip) lib \<Rightarrow> InterfaceType \<times> Prefix option list \<Rightarrow> InterfaceType \<times> Prefix option list" where
  "entry_image L e = (fst e, map (Some \<circ> build_prefix L) (snd e))"

lemma readEntries_writeEntry:
  assumes "codec_ok K" and "list_all (entry_ok L) es" and "distinct (map fst es)" and "fst ` set m \<inter> fst ` set es = {}"
  shows "readEntries K (length es) m (concat (map (writeEntry L K) es) @ rest) = Inr (m @ map (entry_image L) es, rest)"
  using assms
proof (induction es arbitrary: m)
  case Nil
  then show ?case by simp
next
  case (Cons e es)
  let ?m = "TypedMap_Put K m (fst e) (map (Some \<circ> build_prefix L) (snd e))"
  have m: "?m = m @ [entry_image L e]"
    using Cons.prems codec_okD(12) [OF Cons.prems(1)] by (auto simp: entry_image_def)
  have "readPrefixes K (writePrefixes L K (snd e) @ concat (map (writeEntry L K) es) @ rest)
      = Inr (map (Some \<circ> build_prefix L) (snd e), concat (map (writeEntry L K) es) @ rest)"
    using Cons.prems by (intro readPrefixes_writePrefixes) (auto simp: entry_ok_def)
  moreover have "readEntries K (length es) ?m (concat (map (writeEntry L K) es) @ rest) = Inr (?m @ map (entry_image L) es, rest)"
    using Cons.prems unfolding m by (intro Cons.IH) (auto simp: entry_image_def)
  ultimately show ?case using m by (simp add: writeEntry_def [of L K e])
qed

text \<open>
  Written bytes \<open>bs\<close> advance the item loop when reading them applies \<open>u\<close> to the rule read so far and
  leaves the loop in front of the bytes that follow.
\<close>

definition advances ::
  "('dm, 'ag, 'ip) codec_lib \<Rightarrow> bool \<Rightarrow> bytes \<Rightarrow> (('dm, 'ag, 'ip) rule_options \<Rightarrow> ('dm, 'ag, 'ip) rule_options) \<Rightarrow> bool" where
  "advances K recov bs u \<longleftrightarrow>
     (\<forall>lst r rest. \<exists>lst'. read_items K recov lst r (bs @ rest) = read_items K recov lst' (u r) rest)"

definition writes :: "('dm, 'ag, 'ip) codec_lib \<Rightarrow> bool \<Rightarrow> bytes result \<Rightarrow>
    (('dm, 'ag, 'ip) rule_options \<Rightarrow> ('dm, 'ag, 'ip) rule_options) \<Rightarrow> bool" where
  "writes K recov w u \<longleftrightarrow> (\<forall>bs. w = Inr bs \<longrightarrow> advances K recov bs u)"

lemma advances_item:
  assumes "t \<noteq> ruleItemFinal" and "\<And>lst r rest. read_item K recov lst t r (bs @ rest) = Inr (u r, rest)"
  shows "advances K recov (t # bs) u"
  unfolding advances_def
proof (intro allI exI)
  fix lst r rest
  show "read_items K recov lst r ((t # bs) @ rest) = read_items K recov t (u r) rest"
    using assms by (subst read_items.simps) simp
qed

lemma write_all_advances:
  assumes "list_all2 (writes K recov) ws us" and "write_all ws = Inr bs"
  shows "advances K recov bs (fold (\<lambda>u. u) us)"
  using assms
proof (induction arbitrary: bs rule: list_all2_induct)
  case Nil
  then show ?case by (auto simp: advances_def)
next
  case (Cons w ws u us)
  then obtain a b where "w = Inr a" and b: "write_all ws = Inr b" and bs: "bs = a @ b"
    by (auto simp: bind_result_Inr_iff)
  then have a: "advances K recov a u" using Cons.hyps(1) by (simp add: writes_def)
  show ?case unfolding advances_def
  proof (intro allI)
    fix lst r rest
    obtain l1 where 1: "read_items K recov lst r (a @ b @ rest) = read_items K recov l1 (u r) (b @ rest)"
      using a unfolding advances_def by blast
    obtain l2 where "read_items K recov l1 (u r) (b @ rest) = read_items K recov l2 (fold (\<lambda>u. u) us (u r)) rest"
      using Cons.IH [OF b] unfolding advances_def by blast
    with 1 show "\<exists>lst'. read_items K recov lst r (bs @ rest) = read_items K recov lst' (fold (\<lambda>u. u) (u # us) r) rest"
      using bs by auto
  qed
qed

lemma writes_opt:
  assumes "given \<Longrightarrow> writes K recov w u" and "\<And>r. \<not> given \<Longrightarrow> u r = r"
  shows "writes K recov (opt_write given w) u"
  using assms by (auto simp: writes_def opt_write_def advances_def)

lemma writes_since: "writes K recov w u \<Longrightarrow> writes K recov (since v n what w) u"
  by (auto simp: writes_def since_def)

lemma writes_strings:
  assumes "codec_ok K" and "t \<noteq> ruleItemFinal"
    and "\<And>lst r bs. read_item K recov lst t r bs = read_into (readRuleItemString K) (upd r) bs"
    and "\<And>r. u r = (if nonempty s then upd r s else r)"
  shows "writes K recov (opt_write (nonempty s) (writeRuleItemString K t (elems s))) u"
  by (rule writes_opt, unfold writes_def writeRuleItemString_def, clarsimp, rule advances_item)
    (use assms in \<open>auto simp: read_into_def readRuleItemString_def codec_okD nonempty_def elems_def split: option.splits\<close>)

lemma writes_uint16s:
  assumes "codec_ok K" and "t \<noteq> ruleItemFinal"
    and "\<And>lst r bs. read_item K recov lst t r bs = read_into (readRuleItemUint16 K) (upd r) bs"
    and "\<And>r. u r = (if nonempty s then upd r s else r)"
  shows "writes K recov (opt_write (nonempty s) (writeRuleItemUint16 K t (elems s))) u"
  by (rule writes_opt, unfold writes_def writeRuleItemUint16_def, clarsimp, rule advances_item)
    (use assms in \<open>auto simp: read_into_def readRuleItemUint16_def codec_okD nonempty_def elems_def split: option.splits\<close>)

text \<open>The IP set of a list of prefixes and addresses, as \<open>writeRuleItemCIDR\<close> builds it.\<close>

definition cidr_set :: "('dm, 'ag, 'ip) lib \<Rightarrow> string list \<Rightarrow> 'ip result" where
  "cidr_set L xs = bind_result (parse_cidrs L 0 xs) (IPSetBuild L)"

definition built :: "'x result \<Rightarrow> 'x option" where
  "built w = (case w of Inl _ \<Rightarrow> None | Inr x \<Rightarrow> Some x)"

definition cidr_ok :: "('dm, 'ag, 'ip) lib \<Rightarrow> ('dm, 'ag, 'ip) codec_lib \<Rightarrow> string slice \<Rightarrow> bool" where
  "cidr_ok L K xs \<longleftrightarrow> (case cidr_set L (elems xs) of Inl _ \<Rightarrow> True | Inr s \<Rightarrow> nonempty xs \<longrightarrow> ip_ok K s)"

text \<open>Rules the format can hold: IP sets and prefixes of plain addresses, and lists that can be counted.\<close>

definition default_ok :: "('dm, 'ag, 'ip) lib \<Rightarrow> ('dm, 'ag, 'ip) codec_lib \<Rightarrow> ('dm, 'ag, 'ip) rule_options \<Rightarrow> bool" where
  "default_ok L K r \<longleftrightarrow> cidr_ok L K (hr_SourceIPCIDR r) \<and> cidr_ok L K (hr_IPCIDR r)
     \<and> list_all (entry_ok L) (elems (hr_NetworkInterfaceAddress r))
     \<and> distinct (map fst (elems (hr_NetworkInterfaceAddress r)))
     \<and> length (elems (hr_NetworkInterfaceAddress r)) < 2 ^ 64
     \<and> list_all (prefix_ok \<circ> build_prefix L) (elems (hr_DefaultInterfaceAddress r))
     \<and> length (elems (hr_DefaultInterfaceAddress r)) < 2 ^ 64"

text \<open>
  The image of a default rule in the format: empty slices become nil, domains, prefixes and AdGuard lines
  become matchers (and, with \<open>recover\<close>, what the matchers dump), prefixes are resolved, and the two
  tunnel conditions are lost.
\<close>

definition keep :: "'x slice \<Rightarrow> 'x slice" where
  "keep s = (if nonempty s then s else None)"

definition domain_matcher :: "('dm, 'ag, 'ip) lib \<Rightarrow> 8 word \<Rightarrow> ('dm, 'ag, 'ip) rule_options \<Rightarrow> 'dm option" where
  "domain_matcher L v r =
     (if nonempty (hr_Domain r) \<or> nonempty (hr_DomainSuffix r)
      then Some (NewMatcher L (elems (hr_Domain r)) (elems (hr_DomainSuffix r)) (v = RuleSetVersion1)) else None)"

definition ip_matcher :: "('dm, 'ag, 'ip) lib \<Rightarrow> string slice \<Rightarrow> 'ip option" where
  "ip_matcher L s = (if nonempty s then built (cidr_set L (elems s)) else None)"

definition adguard_matcher :: "('dm, 'ag, 'ip) lib \<Rightarrow> string slice \<Rightarrow> 'ag option" where
  "adguard_matcher L s = (if nonempty s then Some (NewAdGuardMatcher L (elems s)) else None)"

definition dump_ip :: "('dm, 'ag, 'ip) codec_lib \<Rightarrow> bool \<Rightarrow> 'ip option \<Rightarrow> string slice" where
  "dump_ip K recov s =
     (if recov then map_option (\<lambda>x. map (netip_Prefix_String K) (IPSet_Prefixes K x)) s else None)"

definition compile_default ::
  "('dm, 'ag, 'ip) lib \<Rightarrow> ('dm, 'ag, 'ip) codec_lib \<Rightarrow> bool \<Rightarrow> 8 word \<Rightarrow> ('dm, 'ag, 'ip) rule_options \<Rightarrow>
   ('dm, 'ag, 'ip) rule_options" where
  "compile_default L K recov v r = \<lparr>
     hr_QueryType = keep (hr_QueryType r), hr_Network = keep (hr_Network r),
     hr_Domain = (if recov then Option.bind (domain_matcher L v r) (fst \<circ> Matcher_Dump K) else None),
     hr_DomainSuffix = (if recov then Option.bind (domain_matcher L v r) (snd \<circ> Matcher_Dump K) else None),
     hr_DomainKeyword = keep (hr_DomainKeyword r), hr_DomainRegex = keep (hr_DomainRegex r),
     hr_SourceIPCIDR = dump_ip K recov (ip_matcher L (hr_SourceIPCIDR r)),
     hr_IPCIDR = dump_ip K recov (ip_matcher L (hr_IPCIDR r)),
     hr_SourcePort = keep (hr_SourcePort r), hr_SourcePortRange = keep (hr_SourcePortRange r),
     hr_Port = keep (hr_Port r), hr_PortRange = keep (hr_PortRange r),
     hr_ProcessName = keep (hr_ProcessName r), hr_ProcessPath = keep (hr_ProcessPath r),
     hr_ProcessPathRegex = keep (hr_ProcessPathRegex r), hr_PackageName = keep (hr_PackageName r),
     hr_NetworkType = keep (hr_NetworkType r), hr_NetworkIsExpensive = hr_NetworkIsExpensive r,
     hr_NetworkIsConstrained = hr_NetworkIsConstrained r,
     hr_WIFISSID = keep (hr_WIFISSID r), hr_WIFIBSSID = keep (hr_WIFIBSSID r), hr_Invert = hr_Invert r,
     hr_DomainMatcher = domain_matcher L v r,
     hr_SourceIPSet = ip_matcher L (hr_SourceIPCIDR r), hr_IPSet = ip_matcher L (hr_IPCIDR r),
     hr_AdGuardDomain = (if recov then Option.bind (adguard_matcher L (hr_AdGuardDomain r)) (AdGuardMatcher_Dump K) else None),
     hr_AdGuardDomainMatcher = adguard_matcher L (hr_AdGuardDomain r),
     hr_TunnelSource = None, hr_TunnelDestination = None,
     hr_NetworkInterfaceAddress = map_option (map (entry_image L)) (keep (hr_NetworkInterfaceAddress r)),
     hr_DefaultInterfaceAddress = map_option (map (Some \<circ> build_prefix L)) (keep (hr_DefaultInterfaceAddress r))\<rparr>"

text \<open>What reading each written item does to the rule read so far, item by item in the order of writing.\<close>

definition address_updates ::
  "('dm, 'ag, 'ip) lib \<Rightarrow> ('dm, 'ag, 'ip) codec_lib \<Rightarrow> bool \<Rightarrow> 8 word \<Rightarrow> ('dm, 'ag, 'ip) rule_options \<Rightarrow>
   (('dm, 'ag, 'ip) rule_options \<Rightarrow> ('dm, 'ag, 'ip) rule_options) list" where
  "address_updates L K recov v d = [
     hr_QueryType_update (\<lambda>x. if nonempty (hr_QueryType d) then hr_QueryType d else x),
     hr_Network_update (\<lambda>x. if nonempty (hr_Network d) then hr_Network d else x),
     hr_DomainMatcher_update (\<lambda>x. if nonempty (hr_Domain d) \<or> nonempty (hr_DomainSuffix d) then domain_matcher L v d else x) \<circ>
       hr_Domain_update (\<lambda>x. if (nonempty (hr_Domain d) \<or> nonempty (hr_DomainSuffix d)) \<and> recov
         then Option.bind (domain_matcher L v d) (fst \<circ> Matcher_Dump K) else x) \<circ>
       hr_DomainSuffix_update (\<lambda>x. if (nonempty (hr_Domain d) \<or> nonempty (hr_DomainSuffix d)) \<and> recov
         then Option.bind (domain_matcher L v d) (snd \<circ> Matcher_Dump K) else x),
     hr_DomainKeyword_update (\<lambda>x. if nonempty (hr_DomainKeyword d) then hr_DomainKeyword d else x),
     hr_DomainRegex_update (\<lambda>x. if nonempty (hr_DomainRegex d) then hr_DomainRegex d else x),
     hr_SourceIPSet_update (\<lambda>x. if nonempty (hr_SourceIPCIDR d) then ip_matcher L (hr_SourceIPCIDR d) else x) \<circ>
       hr_SourceIPCIDR_update (\<lambda>x. if nonempty (hr_SourceIPCIDR d) \<and> recov then dump_ip K True (ip_matcher L (hr_SourceIPCIDR d)) else x),
     hr_IPSet_update (\<lambda>x. if nonempty (hr_IPCIDR d) then ip_matcher L (hr_IPCIDR d) else x) \<circ>
       hr_IPCIDR_update (\<lambda>x. if nonempty (hr_IPCIDR d) \<and> recov then dump_ip K True (ip_matcher L (hr_IPCIDR d)) else x),
     hr_SourcePort_update (\<lambda>x. if nonempty (hr_SourcePort d) then hr_SourcePort d else x),
     hr_SourcePortRange_update (\<lambda>x. if nonempty (hr_SourcePortRange d) then hr_SourcePortRange d else x),
     hr_Port_update (\<lambda>x. if nonempty (hr_Port d) then hr_Port d else x),
     hr_PortRange_update (\<lambda>x. if nonempty (hr_PortRange d) then hr_PortRange d else x)]"

definition process_updates ::
  "('dm, 'ag, 'ip) lib \<Rightarrow> ('dm, 'ag, 'ip) codec_lib \<Rightarrow> bool \<Rightarrow> 8 word \<Rightarrow> ('dm, 'ag, 'ip) rule_options \<Rightarrow>
   (('dm, 'ag, 'ip) rule_options \<Rightarrow> ('dm, 'ag, 'ip) rule_options) list" where
  "process_updates L K recov v d = [
     hr_ProcessName_update (\<lambda>x. if nonempty (hr_ProcessName d) then hr_ProcessName d else x),
     hr_ProcessPath_update (\<lambda>x. if nonempty (hr_ProcessPath d) then hr_ProcessPath d else x),
     hr_ProcessPathRegex_update (\<lambda>x. if nonempty (hr_ProcessPathRegex d) then hr_ProcessPathRegex d else x),
     hr_PackageName_update (\<lambda>x. if nonempty (hr_PackageName d) then hr_PackageName d else x),
     hr_NetworkType_update (\<lambda>x. if nonempty (hr_NetworkType d) then hr_NetworkType d else x),
     hr_NetworkIsExpensive_update (\<lambda>x. hr_NetworkIsExpensive d \<or> x),
     hr_NetworkIsConstrained_update (\<lambda>x. hr_NetworkIsConstrained d \<or> x),
     hr_NetworkInterfaceAddress_update (\<lambda>x. if nonempty (hr_NetworkInterfaceAddress d)
         then Some (map (entry_image L) (elems (hr_NetworkInterfaceAddress d))) else x),
     hr_DefaultInterfaceAddress_update (\<lambda>x. if nonempty (hr_DefaultInterfaceAddress d)
         then Some (map (Some \<circ> build_prefix L) (elems (hr_DefaultInterfaceAddress d))) else x),
     hr_WIFISSID_update (\<lambda>x. if nonempty (hr_WIFISSID d) then hr_WIFISSID d else x),
     hr_WIFIBSSID_update (\<lambda>x. if nonempty (hr_WIFIBSSID d) then hr_WIFIBSSID d else x),
     hr_AdGuardDomainMatcher_update (\<lambda>x. if nonempty (hr_AdGuardDomain d) then adguard_matcher L (hr_AdGuardDomain d) else x) \<circ>
       hr_AdGuardDomain_update (\<lambda>x. if nonempty (hr_AdGuardDomain d) \<and> recov
         then Option.bind (adguard_matcher L (hr_AdGuardDomain d)) (AdGuardMatcher_Dump K) else x)]"

text \<open>An item that is not written leaves its field at the zero value, which is also its image.\<close>

lemma images_unwritten:
  "(if nonempty s then s else None) = keep s"
  "(if nonempty s then Some (f (elems s)) else None) = map_option f (keep s)"
  "(if nonempty q then ip_matcher L q else None) = ip_matcher L q"
  "(if nonempty q \<and> recov then dump_ip K True (ip_matcher L q) else None) = dump_ip K recov (ip_matcher L q)"
  "(if nonempty q then adguard_matcher L q else None) = adguard_matcher L q"
  "(if nonempty q \<and> recov then Option.bind (adguard_matcher L q) g else None) =
     (if recov then Option.bind (adguard_matcher L q) g else None)"
  "(if nonempty (hr_Domain d) \<or> nonempty (hr_DomainSuffix d) then domain_matcher L v d else None) = domain_matcher L v d"
  "(if (nonempty (hr_Domain d) \<or> nonempty (hr_DomainSuffix d)) \<and> recov then Option.bind (domain_matcher L v d) h else None) =
     (if recov then Option.bind (domain_matcher L v d) h else None)"
  by (auto simp: keep_def ip_matcher_def adguard_matcher_def domain_matcher_def dump_ip_def elems_def split: option.splits)

lemma updates_compile:
  "(fold (\<lambda>u. u) (address_updates L K recov v d @ process_updates L K recov v d) zeroDefaultHeadlessRule)
     \<lparr>hr_Invert := hr_Invert d\<rparr> = compile_default L K recov v d"
  unfolding address_updates_def process_updates_def compile_default_def zeroDefaultHeadlessRule_def
  by (rule DefaultHeadlessRule.equality) (simp_all add: images_unwritten cong: if_cong)

lemma writes_item:
  assumes "t \<noteq> ruleItemFinal"
    and "\<And>bs. w = Inr bs \<Longrightarrow>
      \<exists>b. bs = t # b \<and> (\<forall>lst r rest. read_item K recov lst t r (b @ rest) = Inr (u r, rest))"
  shows "writes K recov w u"
  unfolding writes_def
proof (intro allI impI)
  fix bs
  assume "w = Inr bs"
  from assms(2) [OF this] obtain b where "bs = t # b"
    and "\<forall>lst r rest. read_item K recov lst t r (b @ rest) = Inr (u r, rest)" by blast
  then show "advances K recov bs u" using advances_item [OF assms(1), of K recov b u] by simp
qed

lemma update_same [simp]:
  "hr_QueryType_update (\<lambda>x. x) r = r"
  "hr_Network_update (\<lambda>x. x) r = r"
  "hr_Domain_update (\<lambda>x. x) r = r"
  "hr_DomainSuffix_update (\<lambda>x. x) r = r"
  "hr_DomainKeyword_update (\<lambda>x. x) r = r"
  "hr_DomainRegex_update (\<lambda>x. x) r = r"
  "hr_SourceIPCIDR_update (\<lambda>x. x) r = r"
  "hr_IPCIDR_update (\<lambda>x. x) r = r"
  "hr_SourcePort_update (\<lambda>x. x) r = r"
  "hr_SourcePortRange_update (\<lambda>x. x) r = r"
  "hr_Port_update (\<lambda>x. x) r = r"
  "hr_PortRange_update (\<lambda>x. x) r = r"
  "hr_ProcessName_update (\<lambda>x. x) r = r"
  "hr_ProcessPath_update (\<lambda>x. x) r = r"
  "hr_ProcessPathRegex_update (\<lambda>x. x) r = r"
  "hr_PackageName_update (\<lambda>x. x) r = r"
  "hr_NetworkType_update (\<lambda>x. x) r = r"
  "hr_NetworkIsExpensive_update (\<lambda>x. x) r = r"
  "hr_NetworkIsConstrained_update (\<lambda>x. x) r = r"
  "hr_WIFISSID_update (\<lambda>x. x) r = r"
  "hr_WIFIBSSID_update (\<lambda>x. x) r = r"
  "hr_DomainMatcher_update (\<lambda>x. x) r = r"
  "hr_SourceIPSet_update (\<lambda>x. x) r = r"
  "hr_IPSet_update (\<lambda>x. x) r = r"
  "hr_AdGuardDomain_update (\<lambda>x. x) r = r"
  "hr_AdGuardDomainMatcher_update (\<lambda>x. x) r = r"
  "hr_NetworkInterfaceAddress_update (\<lambda>x. x) r = r"
  "hr_DefaultInterfaceAddress_update (\<lambda>x. x) r = r"
  by (cases r; simp)+


text \<open>The switch of the reader, tag by tag.\<close>

lemma read_item_plain:
  "read_item K recov l ruleItemDomainKeyword r = read_into (readRuleItemString K) (\<lambda>x. r\<lparr>hr_DomainKeyword := x\<rparr>)"
  "read_item K recov l ruleItemDomainRegex r = read_into (readRuleItemString K) (\<lambda>x. r\<lparr>hr_DomainRegex := x\<rparr>)"
  "read_item K recov l ruleItemSourcePort r = read_into (readRuleItemUint16 K) (\<lambda>x. r\<lparr>hr_SourcePort := x\<rparr>)"
  "read_item K recov l ruleItemSourcePortRange r = read_into (readRuleItemString K) (\<lambda>x. r\<lparr>hr_SourcePortRange := x\<rparr>)"
  "read_item K recov l ruleItemPort r = read_into (readRuleItemUint16 K) (\<lambda>x. r\<lparr>hr_Port := x\<rparr>)"
  "read_item K recov l ruleItemPortRange r = read_into (readRuleItemString K) (\<lambda>x. r\<lparr>hr_PortRange := x\<rparr>)"
  "read_item K recov l ruleItemProcessName r = read_into (readRuleItemString K) (\<lambda>x. r\<lparr>hr_ProcessName := x\<rparr>)"
  "read_item K recov l ruleItemProcessPath r = read_into (readRuleItemString K) (\<lambda>x. r\<lparr>hr_ProcessPath := x\<rparr>)"
  "read_item K recov l ruleItemProcessPathRegex r = read_into (readRuleItemString K) (\<lambda>x. r\<lparr>hr_ProcessPathRegex := x\<rparr>)"
  "read_item K recov l ruleItemPackageName r = read_into (readRuleItemString K) (\<lambda>x. r\<lparr>hr_PackageName := x\<rparr>)"
  "read_item K recov l ruleItemWIFISSID r = read_into (readRuleItemString K) (\<lambda>x. r\<lparr>hr_WIFISSID := x\<rparr>)"
  "read_item K recov l ruleItemWIFIBSSID r = read_into (readRuleItemString K) (\<lambda>x. r\<lparr>hr_WIFIBSSID := x\<rparr>)"
  "read_item K recov l ruleItemNetworkType r = read_into (readRuleItemUint8 K) (\<lambda>x. r\<lparr>hr_NetworkType := x\<rparr>)"
  "read_item K recov l ruleItemNetwork r = read_into (readRuleItemString K) (\<lambda>x. r\<lparr>hr_Network := x\<rparr>)"
  "read_item K recov l ruleItemNetworkIsExpensive r = (\<lambda>bs. Inr (r\<lparr>hr_NetworkIsExpensive := True\<rparr>, bs))"
  "read_item K recov l ruleItemNetworkIsConstrained r = (\<lambda>bs. Inr (r\<lparr>hr_NetworkIsConstrained := True\<rparr>, bs))"
  "read_item K recov l ruleItemQueryType r = read_into (readRuleItemUint16 K) (\<lambda>x. r\<lparr>hr_QueryType := Some (elems x)\<rparr>)"
  by (simp_all add: read_item_def read_plain_item_def)

lemma read_item_matchers:
  "read_item K recov l ruleItemDomain r = read_into (ReadMatcher K) (\<lambda>m.
     let r1 = r\<lparr>hr_DomainMatcher := Some m\<rparr> in
     if recov then r1\<lparr>hr_Domain := fst (Matcher_Dump K m), hr_DomainSuffix := snd (Matcher_Dump K m)\<rparr> else r1)"
  "read_item K recov l ruleItemSourceIPCIDR r = read_into (readIPSet K) (\<lambda>x.
     let r1 = r\<lparr>hr_SourceIPSet := Some x\<rparr> in
     if recov then r1\<lparr>hr_SourceIPCIDR := Some (map (netip_Prefix_String K) (IPSet_Prefixes K x))\<rparr> else r1)"
  "read_item K recov l ruleItemIPCIDR r = read_into (readIPSet K) (\<lambda>x.
     let r1 = r\<lparr>hr_IPSet := Some x\<rparr> in
     if recov then r1\<lparr>hr_IPCIDR := Some (map (netip_Prefix_String K) (IPSet_Prefixes K x))\<rparr> else r1)"
  "read_item K recov l ruleItemAdGuardDomain r = read_into (ReadAdGuardMatcher K) (\<lambda>m.
     let r1 = r\<lparr>hr_AdGuardDomainMatcher := Some m\<rparr> in
     if recov then r1\<lparr>hr_AdGuardDomain := AdGuardMatcher_Dump K m\<rparr> else r1)"
  "read_item K recov l ruleItemNetworkInterfaceAddress r = (\<lambda>bs. bind_result (ReadUvarint bs) (\<lambda>(size, bs1).
     read_into (readEntries K (unat size) []) (\<lambda>m. r\<lparr>hr_NetworkInterfaceAddress := Some m\<rparr>) bs1))"
  "read_item K recov l ruleItemDefaultInterfaceAddress r = read_into (readPrefixes K) (\<lambda>value.
     r\<lparr>hr_DefaultInterfaceAddress := (if value = [] then None else Some value)\<rparr>)"
  by (simp_all add: read_item_def)

lemma writes_uint8s:
  assumes "codec_ok K"
  shows "writes K recov (opt_write (nonempty s) (since v n what (writeRuleItemUint8 K ruleItemNetworkType (elems s))))
    (hr_NetworkType_update (\<lambda>x. if nonempty s then s else x))"
proof (rule writes_opt)
  assume "nonempty s"
  then obtain xs where xs: "s = Some xs" "xs \<noteq> []" by (cases s) auto
  show "writes K recov (since v n what (writeRuleItemUint8 K ruleItemNetworkType (elems s)))
    (hr_NetworkType_update (\<lambda>x. if nonempty s then s else x))"
    by (rule writes_since, rule writes_item [of ruleItemNetworkType])
      (simp_all add: writeRuleItemUint8_def read_item_plain read_into_def readRuleItemUint8_def xs codec_okD(4) [OF assms])
qed simp

lemma writes_domain:
  assumes "codec_ok K"
  shows "writes K recov (opt_write c (bind_result (Matcher_Write K m) (\<lambda>bs. Inr (ruleItemDomain # bs))))
    (hr_DomainMatcher_update (\<lambda>x. if c then Some m else x) \<circ>
     hr_Domain_update (\<lambda>x. if c \<and> recov then fst (Matcher_Dump K m) else x) \<circ>
     hr_DomainSuffix_update (\<lambda>x. if c \<and> recov then snd (Matcher_Dump K m) else x))"
  by (cases recov; rule writes_opt, rule writes_item [of ruleItemDomain])
    (auto simp: bind_result_Inr_iff read_item_matchers read_into_def Let_def codec_okD(8) [OF assms])

lemma writes_adguard:
  assumes "codec_ok K"
  shows "writes K recov (opt_write c (since v n what (bind_result (AdGuardMatcher_Write K m) (\<lambda>bs. Inr (ruleItemAdGuardDomain # bs)))))
    (hr_AdGuardDomainMatcher_update (\<lambda>x. if c then Some m else x) \<circ>
     hr_AdGuardDomain_update (\<lambda>x. if c \<and> recov then AdGuardMatcher_Dump K m else x))"
  by (cases recov; rule writes_opt, rule writes_since, rule writes_item [of ruleItemAdGuardDomain])
    (auto simp: bind_result_Inr_iff read_item_matchers read_into_def Let_def codec_okD(9) [OF assms])

lemma writeRuleItemCIDR_cidr_set:
  "writeRuleItemCIDR L K t xs = bind_result (cidr_set L xs) (\<lambda>x. Inr (t # writeIPSet K x))"
  by (cases "parse_cidrs L 0 xs") (simp_all add: writeRuleItemCIDR_def cidr_set_def)

lemma readIPSet_written: "codec_ok K \<Longrightarrow> ip_ok K x \<Longrightarrow> readIPSet K (writeIPSet K x @ rest) = Inr (x, rest)"
  using ipsets.decode [of K x "writeIPSet K x" rest] by simp

lemma writes_source_cidr:
  assumes "codec_ok K" and "cidr_ok L K s"
  shows "writes K recov (opt_write (nonempty s) (cause what (writeRuleItemCIDR L K ruleItemSourceIPCIDR (elems s))))
    (hr_SourceIPSet_update (\<lambda>x. if nonempty s then ip_matcher L s else x) \<circ>
     hr_SourceIPCIDR_update (\<lambda>x. if nonempty s \<and> recov then dump_ip K True (ip_matcher L s) else x))"
  by (cases recov; rule writes_opt, rule writes_item [of ruleItemSourceIPCIDR])
    (use assms(2) in \<open>auto simp: writeRuleItemCIDR_cidr_set read_item_matchers read_into_def bind_result_Inr_iff Let_def
      cidr_ok_def ip_matcher_def built_def dump_ip_def readIPSet_written [OF assms(1)]\<close>)

lemma writes_cidr:
  assumes "codec_ok K" and "cidr_ok L K s"
  shows "writes K recov (opt_write (nonempty s) (cause what (writeRuleItemCIDR L K ruleItemIPCIDR (elems s))))
    (hr_IPSet_update (\<lambda>x. if nonempty s then ip_matcher L s else x) \<circ>
     hr_IPCIDR_update (\<lambda>x. if nonempty s \<and> recov then dump_ip K True (ip_matcher L s) else x))"
  by (cases recov; rule writes_opt, rule writes_item [of ruleItemIPCIDR])
    (use assms(2) in \<open>auto simp: writeRuleItemCIDR_cidr_set read_item_matchers read_into_def bind_result_Inr_iff Let_def
      cidr_ok_def ip_matcher_def built_def dump_ip_def readIPSet_written [OF assms(1)]\<close>)

lemma writes_flags:
  "writes K recov (opt_write c (since v n what (Inr [ruleItemNetworkIsExpensive]))) (hr_NetworkIsExpensive_update (\<lambda>x. c \<or> x))"
  "writes K recov (opt_write c (since v n what (Inr [ruleItemNetworkIsConstrained]))) (hr_NetworkIsConstrained_update (\<lambda>x. c \<or> x))"
  by (rule writes_opt, rule writes_since, rule writes_item [of ruleItemNetworkIsExpensive];
      simp add: read_item_plain)
    (rule writes_opt, rule writes_since, rule writes_item [of ruleItemNetworkIsConstrained]; simp add: read_item_plain)

lemma writes_network_addresses:
  assumes "codec_ok K" and "list_all (entry_ok L) (elems s)" and "distinct (map fst (elems s))" and "length (elems s) < 2 ^ 64"
  shows "writes K recov (opt_write (nonempty s) (since v n what
      (Inr (ruleItemNetworkInterfaceAddress # vb_WriteUvarint K (word_of_nat (length (elems s))) @ concat (map (writeEntry L K) (elems s))))))
    (hr_NetworkInterfaceAddress_update (\<lambda>x. if nonempty s then Some (map (entry_image L) (elems s)) else x))"
proof -
  have "unat (word_of_nat (length (elems s)) :: 64 word) = length (elems s)"
    using assms(4) by (simp add: unat_of_nat take_bit_nat_eq_self)
  then show ?thesis
    by (intro writes_opt writes_since writes_item [of ruleItemNetworkInterfaceAddress])
      (auto simp: read_item_matchers read_into_def codec_okD(1) [OF assms(1)]
        readEntries_writeEntry [OF assms(1,2,3), of "[]"])
qed

lemma writes_default_addresses:
  assumes "codec_ok K" and "list_all (prefix_ok \<circ> build_prefix L) (elems s)" and "length (elems s) < 2 ^ 64"
  shows "writes K recov (opt_write (nonempty s) (since v n what
      (Inr (ruleItemDefaultInterfaceAddress # writePrefixes L K (elems s)))))
    (hr_DefaultInterfaceAddress_update (\<lambda>x. if nonempty s then Some (map (Some \<circ> build_prefix L) (elems s)) else x))"
  by (rule writes_opt, rule writes_since, rule writes_item [of ruleItemDefaultInterfaceAddress])
    (auto simp: read_item_matchers read_into_def readPrefixes_writePrefixes [OF assms] nonempty_def)

lemma Some_elems: "nonempty s \<Longrightarrow> Some (elems s) = s"
  by (cases s) simp_all

lemma address_items_written:
  assumes K: "codec_ok K" and d: "default_ok L K d"
  shows "list_all2 (writes K recov) (write_address_items L K d v) (address_updates L K recov v d)"
proof -
  have dom: "writes K recov (opt_write (nonempty (hr_Domain d) \<or> nonempty (hr_DomainSuffix d))
       (bind_result (Matcher_Write K (NewMatcher L (elems (hr_Domain d)) (elems (hr_DomainSuffix d)) (v = RuleSetVersion1)))
         (\<lambda>bs. Inr (ruleItemDomain # bs)))) (address_updates L K recov v d ! 2)"
    using writes_domain [OF K, of recov _ "NewMatcher L (elems (hr_Domain d)) (elems (hr_DomainSuffix d)) (v = RuleSetVersion1)"]
    by (simp add: address_updates_def domain_matcher_def comp_def cong: if_cong)
  then show ?thesis
    unfolding write_address_items_def address_updates_def
    by (auto intro!: writes_strings [OF K] writes_uint16s [OF K] writes_source_cidr [OF K] writes_cidr [OF K]
      simp: read_item_plain Some_elems d [unfolded default_ok_def])
qed

lemma process_items_written:
  assumes K: "codec_ok K" and d: "default_ok L K d"
  shows "list_all2 (writes K recov) (write_process_items L K d v) (process_updates L K recov v d)"
proof -
  have ad: "writes K recov (opt_write (nonempty (hr_AdGuardDomain d))
       (since v RuleSetVersion2 ''AdGuard rule items is only supported in version 2 or later''
         (bind_result (AdGuardMatcher_Write K (NewAdGuardMatcher L (elems (hr_AdGuardDomain d))))
           (\<lambda>bs. Inr (ruleItemAdGuardDomain # bs))))) (process_updates L K recov v d ! 11)"
    using writes_adguard [OF K, of recov _ v RuleSetVersion2 _ "NewAdGuardMatcher L (elems (hr_AdGuardDomain d))"]
    by (simp add: process_updates_def adguard_matcher_def cong: if_cong)
  with d [unfolded default_ok_def] show ?thesis
    unfolding write_process_items_def process_updates_def
    by (auto intro!: writes_strings [OF K] writes_uint8s [OF K] writes_flags writes_network_addresses [OF K]
        writes_default_addresses [OF K] simp: read_item_plain Some_elems)
qed

theorem readDefaultRule_writeDefaultRule:
  assumes K: "codec_ok K" and d: "default_ok L K d" and w: "writeDefaultRule L K d v = Inr bs"
  shows "\<exists>b. bs = 0 # b \<and> readDefaultRule K recov (b @ rest) = Inr (compile_default L K recov v d, rest)"
proof -
  let ?ws = "write_address_items L K d v @ write_process_items L K d v"
  let ?us = "address_updates L K recov v d @ process_updates L K recov v d"
  obtain b where b: "write_all ?ws = Inr b" and bs: "bs = 0 # b @ [ruleItemFinal] @ WriteBool (hr_Invert d)"
    using w by (auto simp: writeDefaultRule_def bind_result_Inr_iff)
  let ?tail = "[ruleItemFinal] @ WriteBool (hr_Invert d) @ rest"
  have "list_all2 (writes K recov) ?ws ?us"
    by (intro list_all2_appendI address_items_written process_items_written K d)
  from write_all_advances [OF this b]
  obtain l where "read_items K recov 0 zeroDefaultHeadlessRule (b @ ?tail) =
      read_items K recov l (fold (\<lambda>u. u) ?us zeroDefaultHeadlessRule) ?tail"
    unfolding advances_def by blast
  also have "\<dots> = Inr ((fold (\<lambda>u. u) ?us zeroDefaultHeadlessRule)\<lparr>hr_Invert := hr_Invert d\<rparr>, rest)"
    by (subst read_items.simps) (simp add: read_into_def ReadBool_WriteBool del: fold_append)
  also have "\<dots> = Inr (compile_default L K recov v d, rest)" by (simp only: updates_compile)
  finally show ?thesis using bs by (simp add: readDefaultRule_def)
qed

section \<open>Round trip of rules and files\<close>

fun compile_rule ::
  "('dm, 'ag, 'ip) lib \<Rightarrow> ('dm, 'ag, 'ip) codec_lib \<Rightarrow> bool \<Rightarrow> 8 word \<Rightarrow> ('dm, 'ag, 'ip) HeadlessRule \<Rightarrow>
   ('dm, 'ag, 'ip) HeadlessRule" where
  "compile_rule L K recov v (HeadlessRule ty d md rules neg) =
     (if ty = RuleTypeDefault then HeadlessRule ty (compile_default L K recov v d) [] [] False
      else HeadlessRule ty zeroDefaultHeadlessRule md (map (compile_rule L K recov v) rules) neg)"

fun rule_ok :: "('dm, 'ag, 'ip) lib \<Rightarrow> ('dm, 'ag, 'ip) codec_lib \<Rightarrow> ('dm, 'ag, 'ip) HeadlessRule \<Rightarrow> bool" where
  "rule_ok L K (HeadlessRule ty d md rules neg) \<longleftrightarrow>
     (if ty = RuleTypeDefault then default_ok L K d
      else list_all (rule_ok L K) rules \<and> length rules \<le> max_rules K)"

lemma readRule_default:
  "readDefaultRule K recov b = Inr (d, rest) \<Longrightarrow>
   readRule K recov (0 # b) = Inr (HeadlessRule RuleTypeDefault d [] [] False, rest)"
  by (subst readRule.simps) (simp add: read_into_def)

text \<open>What is written for a rule is not empty, so reading it makes progress.\<close>

lemma writeRule_nonempty: "writeRule L K v r = Inr bs \<Longrightarrow> bs \<noteq> []"
  by (cases r) (auto simp: writeDefaultRule_def writeLogicalRule_def bind_result_Inr_iff split: if_splits)

lemma readRules_written:
  assumes "write_all (map (writeRule L K v) rs) = Inr bs"
    and "\<And>r b rest. r \<in> set rs \<Longrightarrow> writeRule L K v r = Inr b \<Longrightarrow>
      readRule K recov (b @ rest) = Inr (compile_rule L K recov v r, rest)"
  shows "readRules K recov what i (length rs) (bs @ rest) = Inr (map (compile_rule L K recov v) rs, rest)"
  using assms
proof (induction rs arbitrary: bs i)
  case Nil
  then show ?case by (subst readRules.simps) simp
next
  case (Cons r rs)
  then obtain a b where a: "writeRule L K v r = Inr a" and b: "write_all (map (writeRule L K v) rs) = Inr b"
    and bs: "bs = a @ b" by (auto simp: bind_result_Inr_iff)
  have "readRule K recov (a @ b @ rest) = Inr (compile_rule L K recov v r, b @ rest)"
    using Cons.prems(2) a by simp
  moreover have "readRules K recov what (Suc i) (length rs) (b @ rest) = Inr (map (compile_rule L K recov v) rs, rest)"
    using Cons.IH [OF b] Cons.prems(2) by simp
  moreover have "a \<noteq> []" using a by (rule writeRule_nonempty)
  ultimately show ?case using bs by (subst readRules.simps) (simp add: read_into_def)
qed

lemma readRule_writeRule:
  assumes K: "codec_ok K" and "rule_ok L K r" and "writeRule L K v r = Inr bs"
  shows "readRule K recov (bs @ rest) = Inr (compile_rule L K recov v r, rest)"
  using assms(2,3)
proof (induction r arbitrary: bs rest)
  case (HeadlessRule ty d md rules neg)
  show ?case
  proof (cases "ty = RuleTypeDefault")
    case True
    with HeadlessRule.prems readDefaultRule_writeDefaultRule [OF K, of L d v bs recov rest] obtain b where
      "bs = 0 # b" "readDefaultRule K recov (b @ rest) = Inr (compile_default L K recov v d, rest)" by auto
    with True show ?thesis by (simp add: readRule_default)
  next
    case False
    with HeadlessRule.prems obtain m b where ty: "ty = RuleTypeLogical"
      and m: "md = LogicalTypeAnd \<and> m = 0 \<or> md = LogicalTypeOr \<and> m = 1"
      and b: "write_all (map (writeRule L K v) rules) = Inr b"
      and bs: "bs = 1 # m # vb_WriteUvarint K (word_of_nat (length rules)) @ b @ WriteBool neg"
      by (auto simp: writeLogicalRule_def bind_result_Inr_iff split: if_splits)
    have len: "length rules \<le> max_rules K" and ok: "list_all (rule_ok L K) rules"
      using HeadlessRule.prems(1) False by simp_all
    then have n: "unat (word_of_nat (length rules) :: 64 word) = length rules"
      using codec_okD(14) [OF K] by (simp add: unat_of_nat take_bit_nat_eq_self)
    have "readRules K recov ''read logical rule ['' 0 (length rules) (b @ WriteBool neg @ rest)
        = Inr (map (compile_rule L K recov v) rules, WriteBool neg @ rest)"
      by (rule readRules_written [OF b]) (use HeadlessRule.IH ok in \<open>auto simp: list_all_iff\<close>)
    then have "readLogicalRule K recov (m # vb_WriteUvarint K (word_of_nat (length rules)) @ b @ WriteBool neg @ rest)
        = Inr ((md, map (compile_rule L K recov v) rules, neg), rest)"
      using m n len by (subst readLogicalRule.simps)
        (auto simp: codec_okD(1) [OF K] read_into_def ReadBool_WriteBool)
    then show ?thesis using ty bs by (subst readRule.simps) simp
  qed
qed

interpretation rules: codec "readRule K recov" "writeRule L K v" "compile_rule L K recov v" "\<lambda>r. codec_ok K \<and> rule_ok L K r"
  by unfold_locales (auto intro: readRule_writeRule)

lemma Read_Write:
  assumes K: "codec_ok K" and "list_all (rule_ok L K) rs" and "length rs \<le> max_rules K"
    and "v \<le> RuleSetVersionCurrent" and "Write L K rs v = Inr bs"
  shows "Read K recov bs = Inr \<lparr>rsc_Version = v, rsc_Rules = map (compile_rule L K recov v) rs\<rparr>"
proof -
  obtain b where b: "write_all (map (writeRule L K v) rs) = Inr b"
    and bs: "bs = MagicBytes @ [v] @ zlib_Writer K (vb_WriteUvarint K (word_of_nat (length rs)) @ b)"
    using assms(5) by (auto simp: Write_def bind_result_Inr_iff)
  have n: "unat (word_of_nat (length rs) :: 64 word) = length rs"
    using assms(3) codec_okD(14) [OF K] by (simp add: unat_of_nat take_bit_nat_eq_self)
  have "readRules K recov ''read rule['' 0 (length rs) (b @ []) = Inr (map (compile_rule L K recov v) rs, [])"
    by (rule readRules_written [OF b]) (use assms(2) K in \<open>auto simp: list_all_iff intro: rules.decode\<close>)
  then show ?thesis
    using bs n assms(3,4)
    by (simp add: Read_def ReadFull_append [of MagicBytes] MagicBytes_def codec_okD(13) [OF K] codec_okD(1) [OF K] ReadFull_def)
qed

section \<open>Progress\<close>

text \<open>Readers of other modules only consume input.\<close>

definition shrinks :: "'x reader \<Rightarrow> bool" where
  "shrinks rd \<longleftrightarrow> (\<forall>bs x rest. rd bs = Inr (x, rest) \<longrightarrow> length rest \<le> length bs)"

definition codec_shrinks :: "('dm, 'ag, 'ip) codec_lib \<Rightarrow> bool" where
  "codec_shrinks K \<longleftrightarrow> shrinks (vb_ReadStrings K) \<and> shrinks (vb_ReadUint16s K) \<and> shrinks (vb_ReadUint8s K)
     \<and> shrinks (vb_ReadBytes K) \<and> shrinks (vb_ReadUint8 K) \<and> (\<forall>n. shrinks (vb_ReadRanges K n))
     \<and> shrinks (ReadMatcher K) \<and> shrinks (ReadAdGuardMatcher K)"

lemma shrinksD: "shrinks rd \<Longrightarrow> rd bs = Inr (x, rest) \<Longrightarrow> length rest \<le> length bs"
  by (auto simp: shrinks_def)

lemma shrinks_primitive [simp, intro]: "shrinks ReadByte" "shrinks ReadBool" "shrinks ReadUvarint" "shrinks ReadUint64"
proof -
  show "shrinks ReadByte" unfolding shrinks_def by (auto dest: ReadByte_consumes)
  show "shrinks ReadBool" unfolding shrinks_def by (auto dest: ReadBool_consumes)
  show "shrinks ReadUvarint" unfolding shrinks_def by (auto dest: ReadUvarint_consumes)
  show "shrinks ReadUint64" by (auto simp: shrinks_def ReadUint64_def ReadFull_def bind_result_Inr_iff split: if_splits)
qed

lemma shrinks_bind [intro]:
  assumes "shrinks rd" and "\<And>x. shrinks (f x)"
  shows "shrinks (\<lambda>bs. bind_result (rd bs) (\<lambda>(x, rest). f x rest))"
  unfolding shrinks_def
proof (intro allI impI)
  fix bs y rest
  assume "bind_result (rd bs) (\<lambda>(x, rest). f x rest) = Inr (y, rest)"
  then obtain x r where 1: "rd bs = Inr (x, r)" and 2: "f x r = Inr (y, rest)" by (auto simp: bind_result_Inr_iff)
  from shrinksD [OF assms(1) 1] shrinksD [OF assms(2) 2] show "length rest \<le> length bs" by simp
qed

lemma shrinks_return [simp, intro]: "shrinks (\<lambda>bs. Inr (x, bs))" "shrinks (\<lambda>bs. Inl e)"
  by (simp_all add: shrinks_def)

lemma shrinks_if [intro]: "shrinks f \<Longrightarrow> shrinks g \<Longrightarrow> shrinks (\<lambda>bs. if c then f bs else g bs)"
  by (cases c) simp_all

lemma shrinks_read_into [intro]: "shrinks rd \<Longrightarrow> shrinks (read_into rd upd)"
  by (auto simp: shrinks_def read_into_def bind_result_Inr_iff)

lemma shrinks_read_n [intro]: "shrinks rd \<Longrightarrow> shrinks (read_n rd n)"
proof (induction n)
  case 0
  then show ?case by (simp add: shrinks_def)
next
  case (Suc n)
  show ?case unfolding shrinks_def
  proof (intro allI impI)
    fix bs y rest
    assume "read_n rd (Suc n) bs = Inr (y, rest)"
    then obtain x r xs where 1: "rd bs = Inr (x, r)" and 2: "read_n rd n r = Inr (xs, rest)"
      by (auto simp: bind_result_Inr_iff split: sum.splits)
    from shrinksD [OF Suc.prems 1] shrinksD [OF Suc.IH [OF Suc.prems] 2] show "length rest \<le> length bs" by simp
  qed
qed

lemma shrinks_readers:
  assumes "codec_shrinks K"
  shows "shrinks (readPrefix K)" "shrinks (readPrefixes K)" "shrinks (readIPSet K)" "shrinks (readEntries K n m)"
proof -
  note K = assms [unfolded codec_shrinks_def]
  show 1: "shrinks (readPrefix K)" unfolding readPrefix_def [abs_def] using K by blast
  show 2: "shrinks (readPrefixes K)" unfolding readPrefixes_def [abs_def] using 1 by blast
  show "shrinks (readIPSet K)" unfolding readIPSet_def [abs_def]
    by (intro shrinks_bind shrinks_if shrinks_return shrinks_primitive) (use K in simp)
  show "shrinks (readEntries K n m)"
  proof (induction n arbitrary: m)
    case 0
    then show ?case by (simp add: shrinks_def)
  next
    case (Suc n)
    then show ?case unfolding readEntries.simps [abs_def] using 2 by blast
  qed
qed

lemma shrinks_read_item:
  assumes "codec_shrinks K"
  shows "shrinks (read_item K recov lst t r)"
proof -
  note K = assms [unfolded codec_shrinks_def] and R = shrinks_readers [OF assms]
  have "shrinks (read_plain_item K recov lst t r)"
    using K unfolding read_plain_item_def readRuleItemString_def readRuleItemUint8_def readRuleItemUint16_def
    by (auto simp: shrinks_read_into)
  moreover have "shrinks (\<lambda>bs. bind_result (ReadUvarint bs) (\<lambda>(size, bs1).
        read_into (readEntries K (unat size) []) (\<lambda>m. r\<lparr>hr_NetworkInterfaceAddress := Some m\<rparr>) bs1))"
    using R by blast
  ultimately show ?thesis
    using K R unfolding read_item_def readRuleItemString_def readRuleItemUint16_def by (simp add: shrinks_read_into)
qed

text \<open>So the guards of the model are never the reason of an error, and a rule takes at least one byte.\<close>

theorem read_items_step:
  assumes "codec_shrinks K" and "t \<noteq> ruleItemFinal"
  shows "read_items K recov lst r (t # bs) =
    bind_result (read_item K recov lst t r bs) (\<lambda>(r', rest). read_items K recov t r' rest)"
  using assms(2) shrinksD [OF shrinks_read_item [OF assms(1)], of recov lst t r bs]
  by (subst read_items.simps) (auto simp: bind_result_def split: sum.splits)

lemma shrinks_readDefaultRule:
  assumes "codec_shrinks K"
  shows "shrinks (readDefaultRule K recov)"
proof -
  have "read_items K recov lst r bs = Inr (d, rest) \<Longrightarrow> length rest \<le> length bs" for lst r bs d rest
  proof (induction K recov lst r bs rule: read_items.induct)
    case (1 K recov lst r bs)
    show ?case
    proof (cases bs)
      case (Cons t bs1)
      show ?thesis
      proof (cases "t = ruleItemFinal")
        case True
        then have "read_into ReadBool (\<lambda>b. r\<lparr>hr_Invert := b\<rparr>) bs1 = Inr (d, rest)"
          using 1(2) Cons by (subst (asm) read_items.simps) simp
        from shrinksD [OF shrinks_read_into this] show ?thesis using Cons by simp
      next
        case False
        with 1(2) Cons obtain r' bs2 where "read_item K recov lst t r bs1 = Inr (r', bs2)" "length bs2 \<le> length bs1"
          and "read_items K recov t r' bs2 = Inr (d, rest)"
          by (subst (asm) read_items.simps) (auto split: sum.splits if_splits)
        with 1(1) [OF Cons False] show ?thesis using Cons by fastforce
      qed
    qed (use 1(2) in \<open>simp add: read_items.simps\<close>)
  qed
  then show ?thesis by (auto simp: shrinks_def readDefaultRule_def)
qed

lemma readers_consume:
  "codec_shrinks K \<Longrightarrow> readRule K recov bs = Inr (x, rest) \<Longrightarrow> length rest < length bs"
  "codec_shrinks K \<Longrightarrow> readLogicalRule K recov bs = Inr (y, rest) \<Longrightarrow> length rest < length bs"
  "codec_shrinks K \<Longrightarrow> readRules K recov what i n bs = Inr (xs, rest) \<Longrightarrow> length rest \<le> length bs"
proof (induction K recov bs and K recov bs and K recov what i n bs arbitrary: x rest and y rest and xs rest
    rule: readRule_readLogicalRule_readRules.induct)
  case (1 K recov bs)
  note d = shrinksD [OF shrinks_read_into [OF shrinks_readDefaultRule [OF 1(2)]]]
  show ?case
    using 1(3) ReadByte_consumes [of bs] 1(1) [OF _ _ _ _ 1(2)] d
    by (subst (asm) readRule.simps) (fastforce split: sum.splits if_splits)
next
  case (2 K recov bs)
  from 2(3) obtain m bs1 n bs2 rules bs3 where byte: "ReadByte bs = Inr (m, bs1)" "\<not> (m \<noteq> 0 \<and> m \<noteq> 1)"
    and count: "ReadUvarint bs1 = Inr (n, bs2)" "\<not> max_rules K < unat n"
    and subs: "readRules K recov ''read logical rule ['' 0 (unat n) bs2 = Inr (rules, bs3)"
    and flag: "read_into ReadBool (\<lambda>neg. (if m = 0 then LogicalTypeAnd else LogicalTypeOr, rules, neg)) bs3 = Inr (y, rest)"
    by (subst (asm) readLogicalRule.simps) (fastforce split: sum.splits if_splits prod.splits)
  have "length bs3 \<le> length bs2" by (rule 2(1) [OF byte(1) _ byte(2) count(1) _ count(2) 2(2) subs]) simp_all
  moreover have "length rest \<le> length bs3" using shrinksD [OF shrinks_read_into [OF shrinks_primitive(2)] flag] .
  ultimately show ?case using ReadByte_consumes [OF byte(1)] ReadUvarint_consumes [OF count(1)] by simp
next
  case (3 K recov what i n bs)
  show ?case
    using 3(4) 3(2) [OF _ _ _ _ 3(3)]
    by (subst (asm) readRules.simps) (fastforce simp: read_into_def bind_result_Inr_iff split: sum.splits if_splits)
qed

theorem readRules_step:
  assumes "codec_shrinks K"
  shows "readRules K recov what i (Suc n) bs =
    (case readRule K recov bs of
       Inl err \<Rightarrow> Inl (read_rule_error what i err)
     | Inr (rule, bs1) \<Rightarrow> read_into (readRules K recov what (Suc i) n) (\<lambda>rules. rule # rules) bs1)"
  using readers_consume(1) [OF assms, of recov bs] by (subst readRules.simps) (auto split: sum.splits)

end
