(* ===== verification/Srs_Semantics.thy ===== *)
theory Srs_Semantics
  imports Srs Rule_Sets
begin

text \<open>
  A compiled rule-set means what its source means: the rules built from the image of the source options
  in the binary format match exactly the connections the rules built from the source options match.
  The two differ in their descriptions and in how matchers are made, so rules are compared item by
  item up to what the items match.
\<close>

section \<open>Items and rules that match the same\<close>

definition same_item :: "('dm, 'ag, 'ip) lib \<Rightarrow> ('dm, 'ag, 'ip) leaf_item \<Rightarrow> ('dm, 'ag, 'ip) leaf_item \<Rightarrow> bool" where
  "same_item L i j \<longleftrightarrow> (\<forall>V c. leaf_Match L V j c = leaf_Match L V i c)"

lemma same_item_refl [simp]: "same_item L i i"
  by (simp add: same_item_def)

definition same_default ::
  "('dm, 'ag, 'ip) lib \<Rightarrow> (('dm, 'ag, 'ip) leaf_item, 'a) abstractDefaultRule \<Rightarrow>
   (('dm, 'ag, 'ip) leaf_item, 'a) abstractDefaultRule \<Rightarrow> bool" where
  "same_default L r r' \<longleftrightarrow>
     (\<forall>g. list_all2 (same_item L) (group_of g r) (group_of g r')) \<and> list_all2 (same_item L) (allItems r) (allItems r')
     \<and> invert r' = invert r"

lemma allItems_put_item [simp]: "allItems (put_item g i r) = allItems r @ [i]"
  by (cases g) (simp_all add: put_item_def)

lemma same_put_item:
  "same_default L r r' \<Longrightarrow> same_item L i j \<Longrightarrow> same_default L (put_item g i r) (put_item g j r')"
  by (auto simp: same_default_def group_of_put_item intro: list_all2_appendI)

lemma any_item_same:
  "list_all2 (same_item L) xs ys \<Longrightarrow> any_item (leaf_Match L V) ys c = any_item (leaf_Match L V) xs c"
  unfolding any_item_def by (induction rule: list_all2_induct) (auto simp: same_item_def)

lemma list_all_same:
  "list_all2 (same_item L) xs ys \<Longrightarrow> list_all (\<lambda>i. leaf_Match L V i c) ys = list_all (\<lambda>i. leaf_Match L V i c) xs"
  by (induction rule: list_all2_induct) (auto simp: same_item_def)

lemma list_all2_Nil_iff: "list_all2 P xs ys \<Longrightarrow> ys = [] \<longleftrightarrow> xs = []"
  by (auto dest: list_all2_lengthD)

lemma same_defaultD:
  assumes "same_default L r r'"
  shows "list_all2 (same_item L) (items r) (items r')"
    and "list_all2 (same_item L) (sourceAddressItems r) (sourceAddressItems r')"
    and "list_all2 (same_item L) (sourcePortItems r) (sourcePortItems r')"
    and "list_all2 (same_item L) (destinationAddressItems r) (destinationAddressItems r')"
    and "list_all2 (same_item L) (destinationIPCIDRItems r) (destinationIPCIDRItems r')"
    and "list_all2 (same_item L) (destinationPortItems r) (destinationPortItems r')"
    and "list_all2 (same_item L) (allItems r) (allItems r')" and "invert r' = invert r"
  using assms unfolding same_default_def
  by (metis group_of_def group.case)+

lemma same_default_Match:
  assumes "same_default L r r'"
  shows "adr_Match (leaf_im L V) (\<lambda>_. False) r' c = adr_Match (leaf_im L V) (\<lambda>_. False) r c"
proof -
  note d = same_defaultD [OF assms]
  have ip: "list_all2 (same_item L) (active_ipcidr r c) (active_ipcidr r' c)"
    using d(5) by (simp add: active_ipcidr_def)
  note any = d(2,3,4,6) [THEN any_item_same, of V c] ip [THEN any_item_same, of V c]
  note nil = d(1-7) [THEN list_all2_Nil_iff] ip [THEN list_all2_Nil_iff]
  have "groups_did r' c = groups_did r c" using nil by (simp add: groups_did_def)
  then have f: "flags_after (leaf_Match L V) r' c = flags_after (leaf_Match L V) r c"
    unfolding flags_after_def by (simp only: any nil)
  have "conditions_ok (leaf_Match L V) r' c = conditions_ok (leaf_Match L V) r c"
    unfolding conditions_ok_def by (simp only: any nil list_all_same [OF d(1)])
  then show ?thesis unfolding leaf.adr_Match_im rule_holds_def by (simp only: f nil d(8))
qed

text \<open>Steps of a constructor that keep rules alike.\<close>

definition same_step ::
  "('dm, 'ag, 'ip) lib \<Rightarrow> (('dm, 'ag, 'ip) leaf_item, 'a) build_step \<Rightarrow> (('dm, 'ag, 'ip) leaf_item, 'a) build_step \<Rightarrow> bool" where
  "same_step L f f' \<longleftrightarrow>
     (\<forall>r r' q. same_default L r r' \<longrightarrow> f r = Inr q \<longrightarrow> (\<exists>q'. f' r' = Inr q' \<and> same_default L q q'))"

lemma same_opt_item:
  assumes "given' = given" and "\<And>i. given \<Longrightarrow> mk = Inr i \<Longrightarrow> \<exists>j. mk' = Inr j \<and> same_item L i j"
  shows "same_step L (opt_item given g mk) (opt_item given' g mk')"
  unfolding same_step_def
proof (intro allI impI)
  fix r r' q
  assume rr: "same_default L r r'" and q: "opt_item given g mk r = Inr q"
  show "\<exists>q'. opt_item given' g mk' r' = Inr q' \<and> same_default L q q'"
  proof (cases given)
    case True
    with q obtain i where i: "mk = Inr i" "q = put_item g i r" by (auto simp: opt_item_Inr)
    with assms(2) True obtain j where "mk' = Inr j" "same_item L i j" by blast
    with True assms(1) i same_put_item [OF rr] show ?thesis by (simp add: opt_item_def)
  next
    case False
    with q rr assms(1) show ?thesis by (simp add: opt_item_def)
  qed
qed

lemma same_opt_item_eq: "given' = given \<Longrightarrow> (given \<Longrightarrow> mk' = mk) \<Longrightarrow> same_step L (opt_item given g mk) (opt_item given' g mk')"
  by (rule same_opt_item) auto

lemma same_if: "(c \<Longrightarrow> same_step L f f') \<Longrightarrow> (\<not> c \<Longrightarrow> same_step L g f') \<Longrightarrow> same_step L (if c then f else g) f'"
  by simp

lemma run_same_steps:
  assumes "list_all2 (same_step L) fs fs'" and "same_default L r r'" and "run_steps fs r = Inr q"
  shows "\<exists>q'. run_steps fs' r' = Inr q' \<and> same_default L q q'"
  using assms
proof (induction arbitrary: r r' rule: list_all2_induct)
  case Nil
  then show ?case by simp
next
  case (Cons f fs f' fs')
  then obtain u where "f r = Inr u" "run_steps fs u = Inr q" by (auto simp: bind_result_Inr_iff)
  moreover from this Cons obtain u' where "f' r' = Inr u'" "same_default L u u'" unfolding same_step_def by blast
  ultimately show ?case using Cons.IH [of u u'] by auto
qed

section \<open>Source rules and their compiled images\<close>

text \<open>
  A rule decoded from JSON has no ready-made matchers; the two tunnel conditions, which the format cannot
  hold, are excluded.
\<close>

definition source_default :: "('dm, 'ag, 'ip) rule_options \<Rightarrow> bool" where
  "source_default d \<longleftrightarrow> hr_DomainMatcher d = None \<and> hr_SourceIPSet d = None \<and> hr_IPSet d = None
     \<and> hr_AdGuardDomainMatcher d = None \<and> \<not> nonempty (hr_TunnelSource d) \<and> \<not> nonempty (hr_TunnelDestination d)"

fun source_rule :: "('dm, 'ag, 'ip) HeadlessRule \<Rightarrow> bool" where
  "source_rule (HeadlessRule ty d md rules neg) \<longleftrightarrow>
     (ty = RuleTypeDefault \<and> source_default d \<or> ty = RuleTypeLogical \<and> list_all source_rule rules)"

text \<open>\<open>Prefixable.Build\<close> gives back the prefix it was made of.\<close>

definition prefixable_ok :: "('dm, 'ag, 'ip) lib \<Rightarrow> bool" where
  "prefixable_ok L \<longleftrightarrow> (\<forall>p q. Prefixable_Build L (Some p) q = p)"

lemma nonempty_keep [simp]: "nonempty (keep s) = nonempty s" "nonempty s \<Longrightarrow> elems (keep s) = elems s"
  by (simp_all add: keep_def)

lemma build_prefixes_image:
  "prefixable_ok L \<Longrightarrow> build_prefixes L (map (Some \<circ> build_prefix L) ps) = build_prefixes L ps"
  by (simp add: build_prefixes_def build_prefix_def prefixable_ok_def)

lemma network_addresses_image:
  assumes "prefixable_ok L"
  shows "NewNetworkInterfaceAddressItem L (map (entry_image L) es) = NewNetworkInterfaceAddressItem L es"
proof -
  have "map ((\<lambda>(k, v). (k, build_prefixes L v)) \<circ> entry_image L) es = map (\<lambda>(k, v). (k, build_prefixes L v)) es"
    by (rule map_cong [OF refl]) (auto simp: entry_image_def build_prefixes_image [OF assms])
  then show ?thesis unfolding NewNetworkInterfaceAddressItem_def by (simp only: map_map)
qed

lemma nonempty_map_keep [simp]:
  "nonempty (map_option (map f) (keep s)) = nonempty s"
  "nonempty s \<Longrightarrow> elems (map_option (map f) (keep s)) = map f (elems s)"
  by (cases s; simp add: keep_def)+

lemma same_domain:
  assumes "v \<noteq> RuleSetVersion1" and "NewDomainItem L (elems (hr_Domain d)) (elems (hr_DomainSuffix d)) = Inr i"
    and "nonempty (hr_Domain d) \<or> nonempty (hr_DomainSuffix d)"
  shows "same_item L i (NewRawDomainItem (the (domain_matcher L v d)))"
  using assms by (auto simp: NewDomainItem_def domain_matcher_def NewRawDomainItem_def same_item_def DomainItem_Match_def Let_def split: if_splits)

lemma same_cidr:
  assumes "NewIPCIDRItem L src (elems s) = Inr i" and "nonempty s"
  shows "ip_matcher L s \<noteq> None \<and> same_item L i (NewRawIPCIDRItem src (the (ip_matcher L s)))"
  using assms
  by (auto simp: NewIPCIDRItem_def ip_matcher_def built_def cidr_set_def bind_result_Inr_iff NewRawIPCIDRItem_def same_item_def)

lemma compiled_fields:
  "hr_Network (compile_default L K False v d) = keep (hr_Network d)"
  "hr_Domain (compile_default L K False v d) = None"
  "hr_DomainSuffix (compile_default L K False v d) = None"
  "hr_DomainMatcher (compile_default L K False v d) = domain_matcher L v d"
  "hr_DomainKeyword (compile_default L K False v d) = keep (hr_DomainKeyword d)"
  "hr_DomainRegex (compile_default L K False v d) = keep (hr_DomainRegex d)"
  "hr_SourceIPCIDR (compile_default L K False v d) = None"
  "hr_SourceIPSet (compile_default L K False v d) = ip_matcher L (hr_SourceIPCIDR d)"
  "hr_IPCIDR (compile_default L K False v d) = None"
  "hr_IPSet (compile_default L K False v d) = ip_matcher L (hr_IPCIDR d)"
  "hr_SourcePort (compile_default L K False v d) = keep (hr_SourcePort d)"
  "hr_SourcePortRange (compile_default L K False v d) = keep (hr_SourcePortRange d)"
  "hr_Port (compile_default L K False v d) = keep (hr_Port d)"
  "hr_PortRange (compile_default L K False v d) = keep (hr_PortRange d)"
  "hr_ProcessName (compile_default L K False v d) = keep (hr_ProcessName d)"
  "hr_ProcessPath (compile_default L K False v d) = keep (hr_ProcessPath d)"
  "hr_ProcessPathRegex (compile_default L K False v d) = keep (hr_ProcessPathRegex d)"
  "hr_PackageName (compile_default L K False v d) = keep (hr_PackageName d)"
  "hr_NetworkType (compile_default L K False v d) = keep (hr_NetworkType d)"
  "hr_NetworkIsExpensive (compile_default L K False v d) = hr_NetworkIsExpensive d"
  "hr_NetworkIsConstrained (compile_default L K False v d) = hr_NetworkIsConstrained d"
  "hr_WIFISSID (compile_default L K False v d) = keep (hr_WIFISSID d)"
  "hr_WIFIBSSID (compile_default L K False v d) = keep (hr_WIFIBSSID d)"
  "hr_Invert (compile_default L K False v d) = hr_Invert d"
  "hr_AdGuardDomain (compile_default L K False v d) = None"
  "hr_AdGuardDomainMatcher (compile_default L K False v d) = adguard_matcher L (hr_AdGuardDomain d)"
  "hr_TunnelSource (compile_default L K False v d) = None"
  "hr_TunnelDestination (compile_default L K False v d) = None"
  "hr_NetworkInterfaceAddress (compile_default L K False v d) =
     map_option (map (entry_image L)) (keep (hr_NetworkInterfaceAddress d))"
  "hr_DefaultInterfaceAddress (compile_default L K False v d) =
     map_option (map (Some \<circ> build_prefix L)) (keep (hr_DefaultInterfaceAddress d))"
  by (simp_all add: compile_default_def dump_ip_def)

lemma same_domain_step:
  assumes "v \<noteq> RuleSetVersion1" and "hr_DomainMatcher d = None"
  shows "same_step L
    (if nonempty (hr_Domain d) \<or> nonempty (hr_DomainSuffix d)
     then opt_item True DestinationAddress (NewDomainItem L (elems (hr_Domain d)) (elems (hr_DomainSuffix d)))
     else opt_item (not_nil (hr_DomainMatcher d)) DestinationAddress (Inr (NewRawDomainItem (the (hr_DomainMatcher d)))))
    (opt_item (not_nil (domain_matcher L v d)) DestinationAddress (Inr (NewRawDomainItem (the (domain_matcher L v d)))))"
proof (rule same_if)
  assume c: "nonempty (hr_Domain d) \<or> nonempty (hr_DomainSuffix d)"
  show "same_step L (opt_item True DestinationAddress (NewDomainItem L (elems (hr_Domain d)) (elems (hr_DomainSuffix d))))
    (opt_item (not_nil (domain_matcher L v d)) DestinationAddress (Inr (NewRawDomainItem (the (domain_matcher L v d)))))"
    by (rule same_opt_item) (use c same_domain [OF assms(1) _ c] in \<open>auto simp: domain_matcher_def\<close>)
qed (rule same_opt_item_eq, use assms in \<open>auto simp: domain_matcher_def\<close>)

lemma same_cidr_step:
  assumes "given = None"
  shows "same_step L
    (if nonempty s then opt_item True g (cause what (NewIPCIDRItem L src (elems s)))
     else opt_item (not_nil given) g (Inr (NewRawIPCIDRItem src (the given))))
    (opt_item (not_nil (ip_matcher L s)) g (Inr (NewRawIPCIDRItem src (the (ip_matcher L s)))))"
proof (cases "nonempty s")
  case True
  have "same_step L (opt_item True g (cause what (NewIPCIDRItem L src (elems s))))
    (opt_item (not_nil (ip_matcher L s)) g (Inr (NewRawIPCIDRItem src (the (ip_matcher L s)))))"
    unfolding same_step_def
  proof (intro allI impI)
    fix r r' q
    assume rr: "same_default L r r'" and "opt_item True g (cause what (NewIPCIDRItem L src (elems s))) r = Inr q"
    then obtain i where "NewIPCIDRItem L src (elems s) = Inr i" "q = put_item g i r" by (auto simp: opt_item_Inr)
    with same_cidr [OF _ True, of L src i] same_put_item [OF rr]
    show "\<exists>q'. opt_item (not_nil (ip_matcher L s)) g (Inr (NewRawIPCIDRItem src (the (ip_matcher L s)))) r' = Inr q'
        \<and> same_default L q q'"
      by (auto simp: opt_item_def)
  qed
  with True show ?thesis by simp
next
  case False
  with assms show ?thesis by (auto simp: ip_matcher_def intro: same_opt_item_eq)
qed

lemma nil_branch:
  "(if nonempty None then a else b) = b" "(if nonempty None \<or> nonempty None then a else b) = b"
  by simp_all

lemma same_address_steps:
  assumes "v \<noteq> RuleSetVersion1" and "source_default d"
  shows "list_all2 (same_step L) (headless_address_steps L d) (headless_address_steps L (compile_default L K False v d))"
proof -
  have src: "hr_DomainMatcher d = None" "hr_SourceIPSet d = None" "hr_IPSet d = None"
    using assms(2) by (simp_all add: source_default_def)
  show ?thesis
    unfolding headless_address_steps_def compiled_fields nil_branch list_all2_Cons
    by (intro conjI same_opt_item_eq same_domain_step [OF assms(1) src(1)] same_cidr_step [OF src(2)] same_cidr_step [OF src(3)])
      simp_all
qed

lemma same_process_steps:
  assumes "prefixable_ok L" and "source_default d"
  shows "list_all2 (same_step L) (headless_process_steps L nm d) (headless_process_steps L nm (compile_default L K False v d))"
  using assms(2) unfolding headless_process_steps_def compiled_fields
  by (auto simp: source_default_def network_addresses_image [OF assms(1)] NewDefaultInterfaceAddressItem_def
      build_prefixes_image [OF assms(1)] adguard_matcher_def NewAdGuardDomainItem_def NewRawAdGuardDomainItem_def
      intro!: same_opt_item_eq)

lemma same_NewDefaultHeadlessRule:
  assumes "v \<noteq> RuleSetVersion1" and "prefixable_ok L" and "source_default d" and "NewDefaultHeadlessRule L nm d = Inr r"
  shows "\<exists>r'. NewDefaultHeadlessRule L nm (compile_default L K False v d) = Inr r' \<and> same_default L r r'"
proof -
  have "list_all2 (same_step L) (headless_address_steps L d @ headless_process_steps L nm d)
     (headless_address_steps L (compile_default L K False v d) @ headless_process_steps L nm (compile_default L K False v d))"
    using assms by (intro list_all2_appendI same_address_steps same_process_steps)
  moreover have "same_default L (empty_rule (hr_Invert d) None :: (('a, 'b, 'c) leaf_item, unit) abstractDefaultRule)
      (empty_rule (hr_Invert d) None)"
    by (simp add: same_default_def) (simp add: empty_rule_def)
  ultimately show ?thesis
    using assms(4) unfolding NewDefaultHeadlessRule_def compiled_fields by (rule run_same_steps)
qed

section \<open>Rule-sets\<close>

definition same_rule :: "('dm, 'ag, 'ip) lib \<Rightarrow> ('dm, 'ag, 'ip) headless_rule \<Rightarrow> ('dm, 'ag, 'ip) headless_rule \<Rightarrow> bool" where
  "same_rule L r r' \<longleftrightarrow> (\<forall>V c. headless_Match L V r' c = headless_Match L V r c)"

lemma same_any_st:
  "list_all2 (same_rule L) rs rs' \<Longrightarrow> any_st (headless_Match L V) rs' c = any_st (headless_Match L V) rs c"
  by (induction arbitrary: c rule: list_all2_induct) (auto simp: same_rule_def split: prod.splits)

lemma same_logical:
  assumes "list_all2 (same_rule L) rs rs'"
  shows "same_rule L (LogicalHeadless rs md neg) (LogicalHeadless rs' md neg)"
proof -
  have "all_st (\<lambda>r c. headless_Match L V r (ResetRuleCache c)) rs' c = all_st (\<lambda>r c. headless_Match L V r (ResetRuleCache c)) rs c"
    and "any_st (\<lambda>r c. headless_Match L V r (ResetRuleCache c)) rs' c = any_st (\<lambda>r c. headless_Match L V r (ResetRuleCache c)) rs c" for V c
    using assms by (induction arbitrary: c rule: list_all2_induct) (auto simp: same_rule_def split: prod.splits)
  then show ?thesis by (cases md) (simp_all add: same_rule_def logical_Match_def)
qed

lemma same_rules_list:
  assumes "list_all2 (\<lambda>o' h. f o' = Inr h) os hs"
    and "\<And>o' h. o' \<in> set os \<Longrightarrow> f o' = Inr h \<Longrightarrow> \<exists>h'. f (g o') = Inr h' \<and> P h h'"
  shows "\<exists>hs'. list_all2 (\<lambda>o' h. f o' = Inr h) (map g os) hs' \<and> list_all2 P hs hs'"
  using assms
proof (induction rule: list_all2_induct)
  case Nil
  then show ?case by simp
next
  case (Cons o' os h hs)
  from Cons.prems [of o'] Cons.hyps(1) obtain h' where "f (g o') = Inr h'" "P h h'" by auto
  moreover from Cons.IH Cons.prems obtain hs' where "list_all2 (\<lambda>o' h. f o' = Inr h) (map g os) hs'" "list_all2 P hs hs'"
    by (meson list.set_intros(2))
  ultimately show ?case by (intro exI [of _ "h' # hs'"]) simp
qed

lemma same_NewHeadlessRule:
  assumes "v \<noteq> RuleSetVersion1" and "prefixable_ok L"
    and "source_rule o'" and "HeadlessRule_IsValid (compile_rule L K False v o') = Inr True"
    and "NewHeadlessRule L nm o' = Inr h"
  shows "\<exists>h'. NewHeadlessRule L nm (compile_rule L K False v o') = Inr h' \<and> same_rule L h h'"
  using assms(3-5)
proof (induction o' arbitrary: h)
  case (HeadlessRule ty d md rules neg)
  show ?case
  proof (cases "ty = RuleTypeDefault")
    case True
    with HeadlessRule.prems obtain r where r: "NewDefaultHeadlessRule L nm d = Inr r" "h = DefaultHeadless r"
      by (auto simp: bind_result_Inr_iff)
    have "source_default d" using True HeadlessRule.prems(1) by simp
    from same_NewDefaultHeadlessRule [OF assms(1,2) this r(1), of K] obtain r' where
      "NewDefaultHeadlessRule L nm (compile_default L K False v d) = Inr r'" "same_default L r r'" by blast
    then show ?thesis using True HeadlessRule.prems(2) r(2)
      by (auto simp: bind_result_Inr_iff same_rule_def same_default_Match)
  next
    case False
    with HeadlessRule.prems obtain m hs where ty: "ty = RuleTypeLogical" and m: "parse_mode md = Inr m"
      and hs: "list_all2 (\<lambda>o' h. NewHeadlessRule L nm o' = Inr h) rules hs" and h: "h = LogicalHeadless hs m neg"
      by (auto simp: map_result_Inr)
    have valid: "\<forall>x\<in>set rules. HeadlessRule_IsValid (compile_rule L K False v x) = Inr True"
      and ne: "rules \<noteq> []" and src: "list_all source_rule rules"
      using HeadlessRule.prems(1,2) ty by (auto simp: all_result_True split: if_splits)
    obtain hs' where "list_all2 (\<lambda>o' h. NewHeadlessRule L nm o' = Inr h) (map (compile_rule L K False v) rules) hs'"
      and "list_all2 (same_rule L) hs hs'"
      using same_rules_list [OF hs, of "compile_rule L K False v" "same_rule L"] HeadlessRule.IH valid src
      by (auto simp: list_all_iff)
    then show ?thesis using ty m ne valid h
      by (intro exI [of _ "LogicalHeadless hs' m neg"])
        (simp add: map_result_Inr LogicalHeadlessRule_IsValid_def all_result_True same_logical)
  qed
qed

lemma same_reload:
  assumes "v \<noteq> RuleSetVersion1" and "prefixable_ok L" and "list_all source_rule opts"
    and "\<forall>o'\<in>set opts. HeadlessRule_IsValid (compile_rule L K False v o') = Inr True"
    and "reloadRules L nm opts s = Inr (s1, cbs)"
  shows "\<exists>s2. reloadRules L nm (map (compile_rule L K False v) opts) s = Inr (s2, cbs)
    \<and> (\<forall>V c. RuleSet_Match L V s2 c = RuleSet_Match L V s1 c)"
proof -
  obtain hs where hs: "list_all2 (\<lambda>o' h. NewHeadlessRule L nm o' = Inr h) opts hs" and s1: "rs_rules s1 = hs"
    and cbs: "cbs = map snd (rs_callbacks s)"
    using assms(5) by (auto simp: reloadRules_Inr map_result_Inr)
  obtain hs' where "list_all2 (\<lambda>o' h. NewHeadlessRule L nm o' = Inr h) (map (compile_rule L K False v) opts) hs'"
    and same: "list_all2 (same_rule L) hs hs'"
    using same_rules_list [OF hs, of "compile_rule L K False v" "same_rule L"] same_NewHeadlessRule [OF assms(1,2)] assms(3,4)
    by (auto simp: list_all_iff)
  then have "reloadRules L nm (map (compile_rule L K False v) opts) s =
      Inr (s\<lparr>rs_rules := hs', rs_metadata := compute_metadata (map (compile_rule L K False v) opts)\<rparr>, cbs)"
    using cbs by (auto simp: reloadRules_Inr)
  then show ?thesis using s1 same_any_st [OF same] by (auto simp: RuleSet_Match_def)
qed

end
