(* ===== verification/Srs_Samples.thy ===== *)
theory Srs_Samples
  imports Samples Srs_Semantics
begin

text \<open>
  A concrete instance of the formats the binary rule-set format rests on, used by the witnesses: sequences
  of byte strings with an explicit mark before every element, no compression, IP sets as lists of ranges.
  All promises of \<open>codec_ok\<close> and \<open>codec_shrinks\<close> are proved for it.
\<close>

section \<open>Sequences of byte strings\<close>

definition enc_one :: "bytes \<Rightarrow> bytes" where
  "enc_one x = 2 # concat (map (\<lambda>b. [1, b]) x)"

definition enc_many :: "bytes list \<Rightarrow> bytes" where
  "enc_many xs = concat (map enc_one xs) @ [0]"

function dec_many :: "bytes list \<Rightarrow> bytes list reader" where
  "dec_many acc bs =
     (case bs of
        [] \<Rightarrow> Inl io_EOF
      | t # bs1 \<Rightarrow>
          if t = 0 then Inr (rev acc, bs1)
          else if t = 2 then dec_many ([] # acc) bs1
          else (case (acc, bs1) of
                  (cur # done', b # bs2) \<Rightarrow> dec_many ((cur @ [b]) # done') bs2
                | _ \<Rightarrow> Inl io_EOF))"
  by pat_completeness auto
termination by (relation "measure (\<lambda>(_, bs). length bs)") auto

declare dec_many.simps [simp del]

lemma dec_many_bytes:
  "dec_many (cur # acc) (concat (map (\<lambda>b. [1, b]) x) @ rest) = dec_many ((cur @ x) # acc) rest"
proof (induction x arbitrary: cur)
  case Nil
  then show ?case by simp
next
  case (Cons b x)
  then show ?case by (subst dec_many.simps) simp
qed

lemma dec_many_items: "dec_many acc (concat (map enc_one xs) @ rest) = dec_many (rev xs @ acc) rest"
proof (induction xs arbitrary: acc)
  case Nil
  then show ?case by simp
next
  case (Cons x xs)
  have "dec_many acc (enc_one x @ concat (map enc_one xs) @ rest) =
      dec_many ([] # acc) (concat (map (\<lambda>b. [1, b]) x) @ concat (map enc_one xs) @ rest)"
    by (subst dec_many.simps) (simp add: enc_one_def)
  also have "\<dots> = dec_many (x # acc) (concat (map enc_one xs) @ rest)" by (simp add: dec_many_bytes)
  finally show ?case using Cons.IH by simp
qed

lemma dec_many_enc_many: "dec_many [] (enc_many xs @ rest) = Inr (xs, rest)"
proof -
  have "dec_many [] (concat (map enc_one xs) @ 0 # rest) = dec_many (rev xs) (0 # rest)"
    using dec_many_items [of "[]" xs "0 # rest"] by simp
  also have "\<dots> = Inr (xs, rest)" by (subst dec_many.simps) simp
  finally show ?thesis by (simp add: enc_many_def)
qed

lemma shrinks_dec_many: "shrinks (dec_many acc)"
proof -
  have "dec_many acc bs = Inr (x, rest) \<Longrightarrow> length rest \<le> length bs" for bs x rest
  proof (induction acc bs rule: dec_many.induct)
    case (1 acc bs)
    then show ?case
      by (subst (asm) (3) dec_many.simps) (fastforce split: list.splits if_splits)
  qed
  then show ?thesis by (auto simp: shrinks_def)
qed

lemma uint16_bytes: "word_of_nat (be_value (be_bytes 2 (unat (p :: 16 word)))) = p"
  using unat_lt [of p] by (simp add: be_value_be_bytes)

section \<open>The codec\<close>

type_synonym srs_ip = "(addr \<times> addr) list"

definition srs_lib :: "(string list, string list, srs_ip) lib" where
  "srs_lib = \<lparr>
     IsIP = (\<lambda>a. Addr_IsValid (sa_Addr a)),
     IsIPv4 = (\<lambda>a. Addr_Is4 (sa_Addr a)),
     IsIPv6 = (\<lambda>a. Addr_Is6 (sa_Addr a)),
     IsFqdn = (\<lambda>a. sa_Fqdn a \<noteq> []),
     Socksaddr_IsValid = (\<lambda>a. Addr_IsValid (sa_Addr a) \<or> sa_Fqdn a \<noteq> []),
     ParseSocksaddrHostPort = (\<lambda>host port. \<lparr>sa_Addr = AddrInvalid, sa_Port = port, sa_Fqdn = host\<rparr>),
     IsPublicAddr = (\<lambda>a. True),
     NewMatcher = (\<lambda>domains suffixes legacy. domains),
     Matcher_Match = (\<lambda>m host. host \<in> set m),
     NewAdGuardMatcher = (\<lambda>rules. rules),
     AdGuardMatcher_Match = (\<lambda>m host. host \<in> set m),
     IPSetBuild = (\<lambda>ps. Inr (map (\<lambda>x. case x of Inl p \<Rightarrow> (pf_Addr p, pf_Addr p) | Inr a \<Rightarrow> (a, a)) ps)),
     IPSet_Contains = (\<lambda>s a. list_ex (\<lambda>(from, to). a = from) s),
     Compile = (\<lambda>e. Inr (\<lambda>s. s = e)),
     ParsePrefix = (\<lambda>s. Inl (E_Lib s)),
     ParseAddr = (\<lambda>s. if s = ''1.1.1.1'' then Inr (Addr4 0x01010101) else Inl (E_Lib s)),
     ToLower = (\<lambda>s. s),
     EqualFold = (\<lambda>a b. a = b),
     Prefixable_Build = (\<lambda>p d. case p of Some x \<Rightarrow> x | None \<Rightarrow> d)\<rparr>"

definition dec_strings :: "string list reader" where
  "dec_strings = read_into (dec_many []) (map bytes_str)"

definition enc_strings :: "string list \<Rightarrow> bytes" where
  "enc_strings xs = enc_many (map str_bytes xs)"

definition dec_range :: "(bytes \<times> bytes) reader" where
  "dec_range = read_into (dec_many []) (\<lambda>xs. (hd xs, hd (tl xs)))"

definition srs_codec :: "(string list, string list, srs_ip) codec_lib" where
  "srs_codec = \<lparr>
     vb_WriteUvarint = (\<lambda>n. PutUvarint (unat n)),
     vb_ReadStrings = read_into dec_strings Some,
     vb_WriteStrings = enc_strings,
     vb_ReadUint16s = read_into (dec_many []) (\<lambda>xs. Some (map (\<lambda>x. word_of_nat (be_value x)) xs)),
     vb_WriteUint16s = (\<lambda>ps. enc_many (map (\<lambda>p. be_bytes 2 (unat p)) ps)),
     vb_ReadUint8s = read_into (dec_many []) (\<lambda>xs. Some (map hd xs)),
     vb_WriteUint8s = (\<lambda>ts. enc_many (map (\<lambda>t. [t]) ts)),
     vb_ReadBytes = read_into (dec_many []) hd,
     vb_WriteBytes = (\<lambda>x. enc_many [x]),
     vb_ReadUint8 = ReadByte,
     vb_ReadRanges = (\<lambda>n. read_n dec_range n),
     vb_WriteRange = (\<lambda>(a, b). enc_many [a, b]),
     ReadMatcher = dec_strings,
     Matcher_Write = (\<lambda>m. Inr (enc_strings m)),
     Matcher_Dump = (\<lambda>m. (Some m, None)),
     ReadAdGuardMatcher = dec_strings,
     AdGuardMatcher_Write = (\<lambda>m. Inr (enc_strings m)),
     AdGuardMatcher_Dump = Some,
     ip_ranges = (\<lambda>s. s),
     ip_of_ranges = (\<lambda>rs. rs),
     IPSet_Prefixes = (\<lambda>s. []),
     netip_Prefix_String = (\<lambda>p. []),
     M_AddrFromIP = AddrFromSlice,
     TypedMap_Put = (\<lambda>m k v. filter (\<lambda>(k', _). k' \<noteq> k) m @ [(k, v)]),
     zlib_Reader = Inr,
     zlib_Writer = (\<lambda>bs. bs),
     max_rules = 1000,
     max_ranges = 1000\<rparr>"

lemma dec_strings_enc_strings [simp]: "dec_strings (enc_strings xs @ rest) = Inr (xs, rest)"
  by (simp add: dec_strings_def enc_strings_def read_into_def dec_many_enc_many comp_def)

interpretation ranges: codec dec_range "\<lambda>d. Inr (case d of (a, b) \<Rightarrow> enc_many [a, b])" id "\<lambda>_. True"
  by unfold_locales (auto simp: dec_range_def read_into_def dec_many_enc_many)

lemma srs_codec_ok: "codec_ok srs_codec"
proof -
  have "read_n dec_range (length ds) (concat (map (\<lambda>(a, b). enc_many [a, b]) ds) @ rest) = Inr (ds, rest)" for ds rest
    using ranges.read_n_written [of ds "concat (map (\<lambda>(a, b). enc_many [a, b]) ds)" rest] by (simp add: list_all_iff)
  moreover have "filter (\<lambda>(k', _). k' \<noteq> k) m = m" if "k \<notin> fst ` set m" for k and m :: "(InterfaceType \<times> Prefix option list) list"
    using that by (force simp: filter_id_conv)
  ultimately show ?thesis
    by (auto simp: codec_ok_def srs_codec_def read_into_def dec_many_enc_many ReadUvarint_PutUvarint uint16_bytes comp_def
      AddrFromSlice_AsSlice plain_addr_def split_def)
qed

lemma srs_codec_shrinks: "codec_shrinks srs_codec"
  by (auto simp: codec_shrinks_def srs_codec_def dec_strings_def dec_range_def intro!: shrinks_read_into shrinks_dec_many shrinks_read_n)

lemma srs_prefixable: "prefixable_ok srs_lib"
  by (simp add: prefixable_ok_def srs_lib_def)

section \<open>A source rule-set\<close>

definition srs_options :: "(string list, string list, srs_ip) rule_options" where
  "srs_options = zeroDefaultHeadlessRule\<lparr>hr_Domain := Some [''a''], hr_IPCIDR := Some [''1.1.1.1''], hr_Port := Some [443]\<rparr>"

definition srs_rules :: "(string list, string list, srs_ip) HeadlessRule list" where
  "srs_rules = [HeadlessRule RuleTypeDefault srs_options [] [] False,
     HeadlessRule RuleTypeLogical zeroDefaultHeadlessRule LogicalTypeAnd
       [HeadlessRule RuleTypeDefault srs_options [] [] False] True]"

lemma srs_cidr_set: "cidr_set srs_lib [''1.1.1.1''] = Inr [(Addr4 0x01010101, Addr4 0x01010101)]"
  by (simp add: cidr_set_def srs_lib_def)

lemma srs_default_ok: "default_ok srs_lib srs_codec srs_options"
  by (simp add: default_ok_def cidr_ok_def srs_options_def zeroDefaultHeadlessRule_def srs_cidr_set ip_ok_def srs_codec_def
      plain_addr_def Is4In6_def) (simp add: cidr_set_def srs_lib_def)

lemma srs_rules_ok: "list_all (rule_ok srs_lib srs_codec) srs_rules"
  by (simp add: srs_rules_def srs_default_ok) (simp add: srs_codec_def)

lemma srs_write_items:
  "\<exists>bs. writeDefaultRule srs_lib srs_codec srs_options 2 = Inr bs"
  by (simp add: writeDefaultRule_def write_address_items_def write_process_items_def opt_write_def srs_options_def
      zeroDefaultHeadlessRule_def writeRuleItemCIDR_cidr_set srs_cidr_set writeRuleItemUint16_def cause_def)
    (simp add: srs_codec_def)

lemma srs_write: "\<exists>bs. Write srs_lib srs_codec srs_rules 2 = Inr bs"
  using srs_write_items by (auto simp: Write_def srs_rules_def writeLogicalRule_def)

lemma srs_source: "list_all source_rule srs_rules"
  by (simp add: srs_rules_def source_default_def srs_options_def zeroDefaultHeadlessRule_def)

lemma IsValid_port: "hr_Port d \<noteq> None \<Longrightarrow> DefaultHeadlessRule_IsValid d"
  unfolding DefaultHeadlessRule_IsValid_def
proof
  assume port: "hr_Port d \<noteq> None" and zero: "d = zeroDefaultHeadlessRule\<lparr>hr_Invert := hr_Invert d\<rparr>"
  have none: "hr_Port d = None" if "d = zeroDefaultHeadlessRule\<lparr>hr_Invert := e\<rparr>" for e
    using that by (simp add: zeroDefaultHeadlessRule_def)
  from none [OF zero] port show False by simp
qed

lemma srs_valid:
  "\<forall>o'\<in>set srs_rules. HeadlessRule_IsValid (compile_rule srs_lib srs_codec False 2 o') = Inr True"
proof -
  have "hr_Port (compile_default srs_lib srs_codec False 2 srs_options) \<noteq> None"
    by (simp add: compiled_fields keep_def srs_options_def)
  then have "DefaultHeadlessRule_IsValid (compile_default srs_lib srs_codec False 2 srs_options)" by (rule IsValid_port)
  then show ?thesis by (simp add: srs_rules_def)
qed

definition srs_set :: "(string list, string list, srs_ip, unit) rule_set" where
  "srs_set = \<lparr>rs_tag = ''s'', rs_rules = [], rs_metadata = emptyRuleSetMetadata,
     rs_callbacks = [], rs_next = 0, rs_refs = 0\<rparr>"

lemma srs_reload: "\<exists>s1. reloadRules srs_lib False srs_rules srs_set = Inr (s1, [])"
proof -
  have "DefaultHeadlessRule_IsValid srs_options"
    by (rule IsValid_port) (simp add: srs_options_def)
  moreover obtain r where "NewDefaultHeadlessRule srs_lib False srs_options = Inr r"
    by (simp add: headless_eval srs_options_def srs_lib_def)
  ultimately show ?thesis
    by (auto simp: reloadRules_def srs_set_def srs_rules_def parse_mode_def NewLogicalHeadlessRule_def LogicalHeadlessRule_IsValid_def
        require_valid_def)
qed

end
