(* ===== verification/Url_History.thy ===== *)
theory Url_History
  imports Inbound_Context
begin

text \<open>
  What the outbound groups share: an outbound as its tag and networks, the record of a URL test
  (\<open>adapter/experimental.go\<close>), and the storage of the last test of every outbound
  (\<open>common/urltest/urltest.go\<close>). A group's \<open>Now()\<close> is a function of the group's tag, \<open>None\<close> for an
  outbound that is not a group.
\<close>

section \<open>Outbounds\<close>

record outbound =
  ob_Tag :: string
  ob_Network :: "string list"

abbreviation (input) GTCP :: string where "GTCP \<equiv> ''tcp''"
abbreviation (input) GUDP :: string where "GUDP \<equiv> ''udp''"

text \<open>\<open>RealTag\<close> of \<open>protocol/group/selector.go\<close>.\<close>

definition RealTag :: "(string \<Rightarrow> string option) \<Rightarrow> outbound \<Rightarrow> string" where
  "RealTag Now detour = (case Now (ob_Tag detour) of Some now \<Rightarrow> now | None \<Rightarrow> ob_Tag detour)"

text \<open>The loop with which every group resolves its tags when it starts; \<open>manager\<close> is
  \<open>OutboundManager.Outbound\<close>.\<close>

fun lookup_outbounds :: "(string \<Rightarrow> outbound option) \<Rightarrow> nat \<Rightarrow> string list \<Rightarrow> outbound list result" where
  "lookup_outbounds manager i [] = Inr []"
| "lookup_outbounds manager i (tag # tags) =
     (case manager tag of
        None \<Rightarrow> Inl (E_New [S ''outbound '', N i, S '' not found: '', S tag])
      | Some detour \<Rightarrow> bind_result (lookup_outbounds manager (Suc i) tags) (\<lambda>outs. Inr (detour # outs)))"

lemma lookup_outbounds_Inr:
  "lookup_outbounds manager i tags = Inr outs \<longleftrightarrow> list_all2 (\<lambda>tag out. manager tag = Some out) tags outs"
proof (induction tags arbitrary: i outs)
  case Nil
  then show ?case by auto
next
  case (Cons tag tags)
  then show ?case by (cases outs) (auto simp: bind_result_Inr_iff split: option.splits)
qed

section \<open>URL test results\<close>

record 'info URLTestHistory =
  his_Time :: int
  his_Delay :: "16 word"
  his_IpInfo :: "'info option"
  his_IsFromCache :: bool

text \<open>The storage maps a tag to a pointer to its history, which may be nil.\<close>

type_synonym 'info storage = "string \<Rightarrow> 'info URLTestHistory option option"

definition LoadURLTestHistory :: "'info storage \<Rightarrow> string \<Rightarrow> 'info URLTestHistory option" where
  "LoadURLTestHistory H tag = (case H tag of None \<Rightarrow> None | Some p \<Rightarrow> p)"

text \<open>An entry that exists is updated in place: its delay and time, and its IP information when there is
  a new one. A nil entry is dereferenced, which panics.\<close>

definition StoreURLTestHistory ::
  "'info storage \<Rightarrow> string \<Rightarrow> 'info URLTestHistory option \<Rightarrow> 'info storage result" where
  "StoreURLTestHistory H tag history =
     (case (H tag, history) of
        (Some None, Some _) \<Rightarrow> Inl (Panic [S ''nil pointer dereference''])
      | (Some (Some old), Some new) \<Rightarrow>
          Inr (H(tag \<mapsto> Some (old\<lparr>his_Delay := his_Delay new, his_Time := his_Time new,
            his_IpInfo := (case his_IpInfo new of None \<Rightarrow> his_IpInfo old | Some i \<Rightarrow> Some i)\<rparr>)))
      | _ \<Rightarrow> Inr (H(tag \<mapsto> history)))"

definition DeleteURLTestHistory :: "int \<Rightarrow> 'info storage \<Rightarrow> string \<Rightarrow> 'info storage result" where
  "DeleteURLTestHistory now H tag =
     StoreURLTestHistory H tag (Some \<lparr>his_Time = now, his_Delay = 65535, his_IpInfo = None, his_IsFromCache = False\<rparr>)"

definition AddOnlyIpToHistory ::
  "'info storage \<Rightarrow> string \<Rightarrow> 'info URLTestHistory option \<Rightarrow> 'info storage result" where
  "AddOnlyIpToHistory H tag history =
     (case (H tag, history) of
        (Some None, Some _) \<Rightarrow> Inl (Panic [S ''nil pointer dereference''])
      | (Some (Some old), Some new) \<Rightarrow> Inr (H(tag \<mapsto> Some (old\<lparr>his_IpInfo := his_IpInfo new\<rparr>)))
      | _ \<Rightarrow> Inr (H(tag \<mapsto> history)))"

text \<open>No entry is nil: storing a history never panics, and the next load returns it.\<close>

definition no_nil :: "'info storage \<Rightarrow> bool" where
  "no_nil H \<longleftrightarrow> (\<forall>tag. H tag \<noteq> Some None)"

lemma Store_Load:
  assumes "no_nil H"
  shows "\<exists>H' h'. StoreURLTestHistory H tag (Some h) = Inr H' \<and> no_nil H' \<and> LoadURLTestHistory H' tag = Some h'
    \<and> his_Delay h' = his_Delay h \<and> his_Time h' = his_Time h
    \<and> (\<forall>t. t \<noteq> tag \<longrightarrow> LoadURLTestHistory H' t = LoadURLTestHistory H t)"
  using assms
  by (auto simp: StoreURLTestHistory_def LoadURLTestHistory_def no_nil_def split: option.splits)

text \<open>Deleting a history keeps an entry with the delay of a timeout.\<close>

lemma Delete_Load:
  assumes "no_nil H"
  shows "\<exists>H' h'. DeleteURLTestHistory now H tag = Inr H' \<and> no_nil H' \<and> LoadURLTestHistory H' tag = Some h'
    \<and> his_Delay h' = 65535"
  using Store_Load [OF assms, of tag] by (fastforce simp: DeleteURLTestHistory_def)

end
