(* ===== verification/Float64.thy ===== *)
theory Float64
  imports Prelude Complex_Main "HOL-Library.Log_Nat"
begin

text \<open>
  The part of Go's \<open>float64\<close> arithmetic the load balancer uses: every operation gives the exact result
  rounded to 53 significant bits, ties to even. Values are rationals; overflow to infinity and the
  subnormal range do not occur in the computations modelled (magnitudes between 1 and 2 to the 62).
\<close>

section \<open>Rounding to an integer, ties to even\<close>

definition rne :: "rat \<Rightarrow> int" where
  "rne x =
     (let f = \<lfloor>x\<rfloor>; d = x - of_int f in
      if d < 1 / 2 then f else if d > 1 / 2 then f + 1 else if even f then f else f + 1)"

lemma rne_ge: "of_int m \<le> x \<Longrightarrow> m \<le> rne x"
proof -
  assume "of_int m \<le> x"
  then have "m \<le> \<lfloor>x\<rfloor>" by (simp add: le_floor_iff)
  then show ?thesis by (auto simp: rne_def Let_def)
qed

lemma rne_le: "x \<le> of_int m \<Longrightarrow> rne x \<le> m"
proof -
  assume x: "x \<le> of_int m"
  show ?thesis
  proof (cases "\<lfloor>x\<rfloor> < m")
    case True
    then show ?thesis by (auto simp: rne_def Let_def)
  next
    case False
    then have "of_int m \<le> x" by (simp add: le_floor_iff not_less)
    with x have "x = of_int m" by simp
    then show ?thesis by (simp add: rne_def Let_def)
  qed
qed

section \<open>The binary exponent\<close>

definition ilog2 :: "rat \<Rightarrow> int" where
  "ilog2 x =
     (case quotient_of x of (p, q) \<Rightarrow>
        let a = int (floorlog 2 (nat p)) - int (floorlog 2 (nat q)) in
        if 2 powi a \<le> x then a else a - 1)"

lemma floorlog_rat_bounds:
  assumes "0 < p"
  shows "(2 :: rat) powi (int (floorlog 2 (nat p)) - 1) \<le> of_int p" and "of_int p < (2 :: rat) powi int (floorlog 2 (nat p))"
proof -
  define n where "n = floorlog 2 (nat p)"
  have "2 ^ (n - 1) \<le> nat p \<and> nat p < 2 ^ n"
    unfolding n_def by (rule floorlog_bounds) (use assms in simp_all)
  then have b: "2 ^ (n - 1) \<le> nat p" "nat p < 2 ^ n" by simp_all
  have k: "n > 0" using b(2) assms by (cases n) simp_all
  have "(of_nat (nat p) :: rat) = of_int p" using assms by simp
  moreover from b have "(of_nat (2 ^ (n - 1)) :: rat) \<le> of_nat (nat p)" "(of_nat (nat p) :: rat) < of_nat (2 ^ n)"
    by (simp_all only: of_nat_le_iff of_nat_less_iff)
  moreover have "(2 :: rat) powi (int n - 1) = of_nat (2 ^ (n - 1))"
    using k power_int_of_nat [of "2 :: rat" "n - 1"] by (simp add: of_nat_diff)
  moreover have "(2 :: rat) powi int n = of_nat (2 ^ n)" by (simp add: power_int_of_nat)
  ultimately show "(2 :: rat) powi (int (floorlog 2 (nat p)) - 1) \<le> of_int p"
    and "of_int p < (2 :: rat) powi int (floorlog 2 (nat p))"
    unfolding n_def [symmetric] by (simp_all only:)
qed

lemma ilog2_bounds:
  assumes "0 < x"
  shows "2 powi ilog2 x \<le> x" and "x < 2 powi (ilog2 x + 1)"
proof -
  obtain p q where pq: "quotient_of x = (p, q)" by (cases "quotient_of x")
  have q: "0 < q" and x: "x = of_int p / of_int q"
    using quotient_of_denom_pos [OF pq] quotient_of_div [OF pq] by auto
  have p: "0 < p" using assms q x by (simp add: zero_less_divide_iff)
  let ?k = "int (floorlog 2 (nat p))" and ?l = "int (floorlog 2 (nat q))"
  note P = floorlog_rat_bounds [OF p] and Q = floorlog_rat_bounds [OF q]
  have "2 powi (?k - 1) / 2 powi ?l \<le> x"
    unfolding x by (rule frac_le) (use P Q p q in \<open>auto intro: less_imp_le\<close>)
  then have low: "2 powi (?k - ?l - 1) \<le> x" by (simp add: power_int_diff)
  have "x < 2 powi ?k / 2 powi (?l - 1)"
    unfolding x by (rule frac_less) (use P Q p q in auto)
  then have high: "x < 2 powi (?k - ?l + 1)" by (simp add: power_int_diff power_int_add field_simps)
  show "2 powi ilog2 x \<le> x" and "x < 2 powi (ilog2 x + 1)"
    using low high by (auto simp: ilog2_def pq Let_def)
qed

section \<open>Rounding to 53 bits\<close>

definition fl64_pos :: "rat \<Rightarrow> rat" where
  "fl64_pos x = (let e = ilog2 x - 52 in of_int (rne (x / 2 powi e)) * 2 powi e)"

definition fl64 :: "rat \<Rightarrow> rat" where
  "fl64 x = (if x = 0 then 0 else if x > 0 then fl64_pos x else - fl64_pos (- x))"

definition fmul :: "rat \<Rightarrow> rat \<Rightarrow> rat" where "fmul x y = fl64 (x * y)"
definition fdiv :: "rat \<Rightarrow> rat \<Rightarrow> rat" where "fdiv x y = fl64 (x / y)"

lemma powi_int_le: "0 \<le> k \<Longrightarrow> (2 :: rat) powi k = of_int (2 ^ nat k)"
  by (simp add: power_int_def)

text \<open>Rounding does not go below an integer of at most 53 bits, nor above a power of two.\<close>

lemma fl64_ge:
  assumes "of_int n \<le> x" and "0 < n" and "n \<le> 2 ^ 53"
  shows "of_int n \<le> fl64 x"
proof -
  define e where "e = ilog2 x - 52"
  have pos: "0 < x" using assms(1,2) by (meson less_le_trans of_int_0_less_iff)
  have pe: "(0 :: rat) < 2 powi e" by simp
  have fl: "fl64 x = of_int (rne (x / 2 powi e)) * 2 powi e"
    using pos by (simp add: fl64_def fl64_pos_def e_def Let_def)
  show ?thesis
  proof (cases "e \<le> 0")
    case True
    have "(of_int (n * 2 ^ nat (- e)) :: rat) = of_int n / 2 powi e"
      using True powi_int_le [of "- e"] by (simp add: power_int_minus field_simps)
    also have "\<dots> \<le> x / 2 powi e" using assms(1) pe by (simp add: divide_right_mono)
    finally have "n * 2 ^ nat (- e) \<le> rne (x / 2 powi e)" by (rule rne_ge)
    then have "of_int (n * 2 ^ nat (- e)) \<le> (of_int (rne (x / 2 powi e)) :: rat)" by (simp only: of_int_le_iff)
    then have "of_int n / 2 powi e \<le> (of_int (rne (x / 2 powi e)) :: rat)"
      using \<open>of_int (n * 2 ^ nat (- e)) = of_int n / 2 powi e\<close> by simp
    then show ?thesis using pe by (simp add: fl pos_divide_le_eq)
  next
    case False
    have "2 powi (e + 52) \<le> x" using ilog2_bounds(1) [OF pos] by (simp add: e_def)
    then have "(of_int (2 ^ 52) :: rat) \<le> x / 2 powi e" using pe by (simp add: power_int_add pos_le_divide_eq mult.commute)
    then have "2 ^ 52 \<le> rne (x / 2 powi e)" by (rule rne_ge)
    then have "(of_int (2 ^ 52) :: rat) \<le> of_int (rne (x / 2 powi e))" by (simp only: of_int_le_iff)
    moreover have "(2 :: rat) \<le> 2 powi e" using False by (metis power_int_1_right power_int_increasing one_le_numeral not_le zless_imp_add1_zle add_0)
    ultimately have "of_int (2 ^ 52) * 2 \<le> fl64 x" unfolding fl by (intro mult_mono) auto
    moreover have "(of_int n :: rat) \<le> of_int (2 ^ 53)" using assms(3) by (simp only: of_int_le_iff)
    ultimately show ?thesis by simp
  qed
qed

lemma fl64_le:
  assumes "0 < x" and "x \<le> 2 ^ k"
  shows "fl64 x \<le> 2 ^ k"
proof -
  define e where "e = ilog2 x - 52"
  have pe: "(0 :: rat) < 2 powi e" by simp
  have fl: "fl64 x = of_int (rne (x / 2 powi e)) * 2 powi e"
    using assms(1) by (simp add: fl64_def fl64_pos_def e_def Let_def)
  have "2 powi (e + 52) \<le> (2 :: rat) powi int k"
    using ilog2_bounds(1) [OF assms(1)] assms(2) by (simp add: e_def power_int_of_nat)
  then have "e + 52 \<le> int k"
    using power_int_strict_increasing [of "int k" "e + 52" "2 :: rat"] by (meson not_le one_less_numeral_iff semiring_norm(76))
  then have k: "(2 :: rat) ^ k = of_int (2 ^ nat (int k - e)) * 2 powi e"
    using powi_int_le [of "int k - e"] power_int_add [of "2 :: rat" "int k - e" e] by (simp add: power_int_of_nat)
  have "x / 2 powi e \<le> of_int (2 ^ nat (int k - e))" using assms(2) pe by (simp add: k pos_divide_le_eq)
  then have "rne (x / 2 powi e) \<le> 2 ^ nat (int k - e)" by (rule rne_le)
  then have "of_int (rne (x / 2 powi e)) \<le> (of_int (2 ^ nat (int k - e)) :: rat)" by (simp only: of_int_le_iff)
  then show ?thesis unfolding fl k using pe by (intro mult_right_mono) auto
qed

lemma fl64_le_int:
  assumes "0 < x" and "x \<le> of_int n" and "n < 2 ^ 53"
  shows "fl64 x \<le> of_int n"
proof -
  define e where "e = ilog2 x - 52"
  have pe: "(0 :: rat) < 2 powi e" by simp
  have fl: "fl64 x = of_int (rne (x / 2 powi e)) * 2 powi e"
    using assms(1) by (simp add: fl64_def fl64_pos_def e_def Let_def)
  have "2 powi (e + 52) \<le> (of_int n :: rat)" using ilog2_bounds(1) [OF assms(1)] assms(2) by (simp add: e_def)
  also have "\<dots> < of_int (2 ^ 53)" using assms(3) by (simp only: of_int_less_iff)
  also have "\<dots> = 2 powi 53" by (simp add: power_int_def)
  finally have "\<not> 53 \<le> e + 52" using power_int_increasing [of 53 "e + 52" "2 :: rat"] by auto
  then have n: "(of_int (n * 2 ^ nat (- e)) :: rat) = of_int n / 2 powi e"
    using powi_int_le [of "- e"] by (simp add: power_int_minus field_simps)
  have "x / 2 powi e \<le> of_int n / 2 powi e" using assms(2) pe by (simp add: divide_right_mono)
  then have "rne (x / 2 powi e) \<le> n * 2 ^ nat (- e)" unfolding n [symmetric] by (rule rne_le)
  then have "(of_int (rne (x / 2 powi e)) :: rat) \<le> of_int n / 2 powi e" unfolding n [symmetric] by (simp only: of_int_le_iff)
  then show ?thesis using pe by (simp add: fl pos_le_divide_eq)
qed

lemma fl64_nonneg: "0 \<le> x \<Longrightarrow> 0 \<le> fl64 x"
proof -
  have "0 \<le> rne y" if "0 \<le> y" for y using rne_ge [of 0 y] that by simp
  then show "0 \<le> x \<Longrightarrow> 0 \<le> fl64 x" by (auto simp: fl64_def fl64_pos_def Let_def intro!: mult_nonneg_nonneg)
qed

text \<open>The conversion to an integer type truncates.\<close>

definition trunc :: "rat \<Rightarrow> int" where
  "trunc x = (if x \<ge> 0 then \<lfloor>x\<rfloor> else \<lceil>x\<rceil>)"

lemma trunc_ge: "of_int n \<le> x \<Longrightarrow> 0 \<le> n \<Longrightarrow> n \<le> trunc x"
  by (simp add: trunc_def le_floor_iff)

section \<open>Durations in seconds\<close>

text \<open>\<open>Duration.Seconds()\<close> of a duration in nanoseconds that is not negative: \<open>float64(sec) + float64(nsec)/1e9\<close>.\<close>

definition Seconds :: "int \<Rightarrow> rat" where
  "Seconds d = fl64 (of_int (d div 1000000000) + fdiv (of_int (d mod 1000000000)) 1000000000)"

text \<open>Converted back to whole seconds, the result is not above the next full second.\<close>

lemma trunc_Seconds:
  assumes "0 \<le> d" and "d \<le> 1000000000 * n" and "n < 2 ^ 53"
  shows "0 \<le> trunc (Seconds d)" and "trunc (Seconds d) \<le> n"
proof -
  let ?s = "d div 1000000000" and ?r = "d mod 1000000000"
  have sr: "d = 1000000000 * ?s + ?r" "0 \<le> ?r" "?r < 1000000000" "0 \<le> ?s" using assms(1) by simp_all
  have f: "0 \<le> fdiv (of_int ?r) 1000000000 \<and> fdiv (of_int ?r) 1000000000 \<le> 1 \<and> (?r = 0 \<longrightarrow> fdiv (of_int ?r) 1000000000 = 0)"
  proof (cases "?r = 0")
    case True
    then show ?thesis by (simp add: fdiv_def fl64_def)
  next
    case False
    then have r: "0 < ?r" using sr(2) by simp
    have pos: "0 < (of_int ?r :: rat) / 1000000000" using r by simp
    have "(of_int ?r :: rat) < of_int 1000000000" using sr(3) by (simp only: of_int_less_iff)
    then have "(of_int ?r :: rat) / 1000000000 \<le> of_int 1" by simp
    then have "fl64 (of_int ?r / 1000000000) \<le> of_int 1" by (intro fl64_le_int [OF pos]) simp_all
    moreover have "0 \<le> fl64 (of_int ?r / 1000000000)" using fl64_nonneg pos by simp
    ultimately show ?thesis using False by (simp add: fdiv_def)
  qed
  have x0: "0 \<le> of_int ?s + fdiv (of_int ?r) 1000000000" using f sr(4) by simp
  have xn: "of_int ?s + fdiv (of_int ?r) 1000000000 \<le> of_int n"
  proof (cases "?r = 0")
    case True
    then have "?s \<le> n" using sr(1) assms(2) by simp
    then show ?thesis using f True by (simp only: of_int_le_iff add_0_right simp_thms)
  next
    case False
    then have "?s + 1 \<le> n" using sr(1,2) assms(2) by linarith
    then have "of_int (?s + 1) \<le> (of_int n :: rat)" by (simp only: of_int_le_iff)
    then show ?thesis using f by (simp add: add_mono order_trans)
  qed
  have "0 \<le> Seconds d \<and> Seconds d \<le> of_int n"
  proof (cases "of_int ?s + fdiv (of_int ?r) 1000000000 = 0")
    case True
    then show ?thesis using xn by (simp add: Seconds_def fl64_def)
  next
    case False
    then have "0 < of_int ?s + fdiv (of_int ?r) 1000000000" using x0 by simp
    then show ?thesis unfolding Seconds_def using fl64_le_int [OF _ xn assms(3)] fl64_nonneg by simp
  qed
  then show "0 \<le> trunc (Seconds d)" and "trunc (Seconds d) \<le> n"
    by (auto simp: trunc_def floor_le_iff)
qed

end
