(* ===== verification/Jump_Hash.thy ===== *)
theory Jump_Hash
  imports Float64
begin

unbundle bit_operations_syntax

text \<open>
  \<open>jumpHash\<close> of \<open>protocol/group/balancer/common.go\<close>: a consistent hash that maps a 64-bit key to one of
  \<open>buckets\<close> buckets. The loop multiplies by at least 1 at each turn, in \<open>float64\<close> arithmetic; that
  the candidate \<open>j\<close> still grows after rounding is what makes it end.
\<close>

definition jump_key :: "64 word \<Rightarrow> 64 word" where
  "jump_key key = key * 2862933555777941757 + 1"

text \<open>\<open>int64(float64(b+1) * (float64(int64(1)<<31) / float64((key>>33)+1)))\<close>\<close>

definition jump_next :: "64 word \<Rightarrow> int \<Rightarrow> int" where
  "jump_next key b = trunc (fmul (of_int (b + 1)) (fdiv (2 ^ 31) (of_nat (unat (drop_bit 33 key) + 1))))"

lemma key_high_bits: "unat (drop_bit 33 (key :: 64 word)) < 2 ^ 31"
proof -
  have "unat key < 2 ^ 64" using unsigned_less [of key] by simp
  then have "unat key div 2 ^ 33 < 2 ^ 31" by (simp add: less_mult_imp_div_less)
  then show ?thesis by (simp only: unat_drop_bit_eq drop_bit_eq_div [of 33 "unat key"])
qed

text \<open>The quotient is at least 1 and at most 2 to the 31, and both are representable.\<close>

lemma jump_factor:
  fixes key :: "64 word"
  defines "f \<equiv> fdiv (2 ^ 31) (of_nat (unat (drop_bit 33 key) + 1))"
  shows "1 \<le> f" and "f \<le> 2 ^ 31"
proof -
  let ?d = "of_nat (unat (drop_bit 33 key) + 1) :: rat"
  have d: "1 \<le> ?d" "?d \<le> 2 ^ 31"
  proof -
    show "1 \<le> ?d" by (simp only: of_nat_add of_nat_1 le_add_same_cancel2 of_nat_0_le_iff)
    have "unat (drop_bit 33 key) + 1 \<le> 2 ^ 31" using key_high_bits [of key] by simp
    then have "?d \<le> of_nat (2 ^ 31)" by (simp only: of_nat_le_iff)
    then show "?d \<le> 2 ^ 31" by simp
  qed
  then have "1 \<le> 2 ^ 31 / ?d" by (simp add: le_divide_eq)
  then have "of_int 1 \<le> fl64 (2 ^ 31 / ?d)" by (intro fl64_ge) auto
  then show "1 \<le> f" by (simp add: f_def fdiv_def)
  have "2 ^ 31 / ?d \<le> 2 ^ 31" using d(1) by (simp add: divide_le_eq)
  moreover have "0 < 2 ^ 31 / ?d" using d(1) by simp
  ultimately show "f \<le> 2 ^ 31" unfolding f_def fdiv_def by (intro fl64_le)
qed

lemma jump_next_grows:
  assumes "0 \<le> b" and "b < 2 ^ 53"
  shows "b < jump_next key b"
proof -
  let ?f = "fdiv (2 ^ 31) (of_nat (unat (drop_bit 33 key) + 1))"
  have "of_int (b + 1) * 1 \<le> of_int (b + 1) * ?f"
    using jump_factor(1) [of key] assms(1) by (intro mult_left_mono) auto
  then have "of_int (b + 1) \<le> fl64 (of_int (b + 1) * ?f)" using assms by (intro fl64_ge) auto
  then have "b + 1 \<le> jump_next key b" unfolding jump_next_def fmul_def using assms(1) by (intro trunc_ge) auto
  then show ?thesis by simp
qed

text \<open>The conversion to \<open>int64\<close> is in range: the loop variables are exact integers.\<close>

lemma jump_next_bound:
  assumes "0 \<le> b" and "b < 2 ^ 31"
  shows "jump_next key b \<le> 2 ^ 62"
proof -
  let ?f = "fdiv (2 ^ 31) (of_nat (unat (drop_bit 33 key) + 1))"
  have "of_int (b + 1) \<le> (of_int (2 ^ 31) :: rat)" using assms(2) by (simp only: of_int_le_iff)
  then have "of_int (b + 1) * ?f \<le> of_int (2 ^ 31) * 2 ^ 31"
    using jump_factor [of key] assms(1) by (intro mult_mono) auto
  also have "\<dots> = 2 ^ 62" by simp
  finally have "of_int (b + 1) * ?f \<le> 2 ^ 62" .
  moreover have "0 < of_int (b + 1) * ?f" using jump_factor(1) [of key] assms(1) by simp
  ultimately have "fl64 (of_int (b + 1) * ?f) \<le> 2 ^ 62" by (intro fl64_le)
  then have "fl64 (of_int (b + 1) * ?f) \<le> of_int (2 ^ 62)" by simp
  then show ?thesis unfolding jump_next_def fmul_def trunc_def
    by (auto simp: floor_le_iff ceiling_le_iff)
qed

lemma sint32_less: "sint (w :: 32 word) < 2 ^ 31"
  using sint_lt [of w] by simp

text \<open>
  \<open>buckets\<close> is an \<open>int32\<close>. The \<open>int64\<close> variables \<open>b\<close> and \<open>j\<close> start at 0 and only grow, within the bounds
  above, so they are natural numbers here.
\<close>

function jump_loop :: "64 word \<Rightarrow> nat \<Rightarrow> nat \<Rightarrow> 32 word \<Rightarrow> nat" where
  "jump_loop key b j buckets =
     (if int j < sint buckets
      then let key' = jump_key key in jump_loop key' j (nat (jump_next key' (int j))) buckets
      else b)"
  by pat_completeness auto

termination
proof (relation "measure (\<lambda>(_, _, j, buckets). nat (sint buckets) - j)")
  fix key key' :: "64 word" and b j :: nat and buckets :: "32 word"
  assume j: "int j < sint buckets"
  then have "int j < 2 ^ 53" using sint32_less [of buckets] by simp
  then have "int j < jump_next key' (int j)" by (intro jump_next_grows) auto
  with j show "((key', j, nat (jump_next key' (int j)), buckets), (key, b, j, buckets))
      \<in> measure (\<lambda>(_, _, j, buckets). nat (sint buckets) - j)" by auto
qed simp

declare jump_loop.simps [simp del]

definition jumpHash :: "64 word \<Rightarrow> 32 word \<Rightarrow> 32 word" where
  "jumpHash key buckets = word_of_nat (jump_loop key 0 0 buckets)"

lemma jump_loop_bound: "int b < sint buckets \<or> int j < sint buckets \<Longrightarrow> int (jump_loop key b j buckets) < sint buckets"
proof (induction key b j buckets rule: jump_loop.induct)
  case (1 key b j buckets)
  then show ?case by (subst jump_loop.simps) (auto simp: Let_def)
qed

theorem jumpHash_bound:
  assumes "0 < n" and "n < 2 ^ 31"
  shows "unat (jumpHash key (word_of_nat n)) < n"
proof -
  have s: "sint (word_of_nat n :: 32 word) = int n"
    using assms(2) by (simp add: signed_of_nat signed_take_bit_int_eq_self)
  have "int (jump_loop key 0 0 (word_of_nat n)) < sint (word_of_nat n :: 32 word)"
    by (rule jump_loop_bound) (use assms(1) s in simp)
  then have "jump_loop key 0 0 (word_of_nat n) < n" using s by simp
  then show ?thesis using assms(2) by (simp add: jumpHash_def unat_of_nat take_bit_nat_eq_self)
qed

lemma jumpHash_one: "jumpHash key 1 = 0"
  using jumpHash_bound [of 1 key] by (simp add: unat_eq_0)

text \<open>
  Consistency: the sequence of candidates does not depend on the number of buckets, so with one more
  bucket a key stays where it was or moves to the new bucket.
\<close>

lemma jump_loop_consistent:
  assumes "sint buckets' = sint buckets + 1" and "0 \<le> sint buckets"
  shows "jump_loop key b j buckets' = jump_loop key b j buckets \<or> int (jump_loop key b j buckets') = sint buckets"
  using assms
proof (induction key b j buckets rule: jump_loop.induct)
  case (1 key b j buckets)
  let ?key = "jump_key key"
  let ?j = "nat (jump_next ?key (int j))"
  consider "int j < sint buckets" | "int j = sint buckets" | "int j > sint buckets" by linarith
  then show ?case
  proof cases
    case 1
    from "1.IH" [OF 1 refl "1.prems"] 1 "1.prems" show ?thesis
      by (subst (1 2 3) jump_loop.simps) (simp add: Let_def)
  next
    case 2
    then have "int j < 2 ^ 53" using sint32_less [of buckets] by simp
    then have "int j < jump_next ?key (int j)" by (intro jump_next_grows) auto
    then have "\<not> int ?j < sint buckets'" using 2 "1.prems" by simp
    then have "jump_loop ?key j ?j buckets' = j" by (subst jump_loop.simps) simp
    then have "jump_loop key b j buckets' = j" using 2 "1.prems" by (subst jump_loop.simps) (simp add: Let_def)
    then show ?thesis using 2 by simp
  next
    case 3
    then show ?thesis using "1.prems" by (subst (1 2) jump_loop.simps) simp
  qed
qed

theorem jumpHash_consistent:
  assumes "0 < n" and "Suc n < 2 ^ 31"
  shows "unat (jumpHash key (word_of_nat (Suc n))) = unat (jumpHash key (word_of_nat n)) \<or>
    unat (jumpHash key (word_of_nat (Suc n))) = n"
proof -
  have s: "sint (word_of_nat m :: 32 word) = int m" if "m < 2 ^ 31" for m
    using that by (simp add: signed_of_nat signed_take_bit_int_eq_self)
  have "jump_loop key 0 0 (word_of_nat (Suc n)) = jump_loop key 0 0 (word_of_nat n) \<or>
      int (jump_loop key 0 0 (word_of_nat (Suc n))) = sint (word_of_nat n :: 32 word)"
    by (rule jump_loop_consistent) (use assms s [of n] s [of "Suc n"] in \<open>simp_all del: of_nat_Suc\<close>)
  then have "jumpHash key (word_of_nat (Suc n)) = jumpHash key (word_of_nat n) \<or>
      jumpHash key (word_of_nat (Suc n)) = word_of_nat n"
    using s [of n] assms(2) by (auto simp: jumpHash_def simp del: of_nat_Suc)
  then show ?thesis using assms(2) by (auto simp: unat_of_nat take_bit_nat_eq_self simp del: of_nat_Suc)
qed

end
