(* ===== verification/Balancer.thy ===== *)
theory Balancer
  imports Url_History Jump_Hash "HOL-Library.AList" "HOL-Library.Signed_Division"
begin

text \<open>
  The load balancer (\<open>protocol/group/balancer\<close>): its four strategies and the interface \<open>Strategy\<close> between
  them and the group. The interface is the locale \<open>strategy\<close>: under its invariant neither operation
  panics and every selection is a configured outbound. It is interpreted on all four strategies. A map with
  a key per network is a list of pairs, since the code only looks keys up and treats the keys
  independently of each other.
\<close>

section \<open>What other modules provide\<close>

text \<open>
  \<open>Hash\<close> is the seeded hash of \<open>maphash\<close>; \<open>ParseIP\<close> tells whether \<open>net.ParseIP\<close> accepts a host;
  \<open>ToUint16\<close> is the conversion of a \<open>float64\<close> to \<open>uint16\<close>, which the language leaves open out of range.
\<close>

record blib =
  Hash :: "string \<Rightarrow> 64 word"
  ParseIP :: "string \<Rightarrow> bool"
  EffectiveTLDPlusOne :: "string \<Rightarrow> string option"
  AddrStr :: "addr \<Rightarrow> string"
  Dst_IsFqdn :: "Socksaddr \<Rightarrow> bool"
  ToUint16 :: "rat \<Rightarrow> 16 word"

record BalancerOutboundOptions =
  bo_Outbounds :: "string list"
  bo_Strategy :: string
  bo_DelayAcceptableRatio :: rat
  bo_MaxRetry :: int

type_synonym 'a nets = "(string \<times> 'a) list"
type_synonym 'info histories = "string \<Rightarrow> 'info URLTestHistory option option"

definition net_get :: "'a \<Rightarrow> 'a nets \<Rightarrow> string \<Rightarrow> 'a" where
  "net_get zero m net = (case map_of m net of None \<Rightarrow> zero | Some x \<Rightarrow> x)"

section \<open>Shared functions\<close>

definition getKey :: "blib \<Rightarrow> InboundContext \<Rightarrow> string" where
  "getKey B md =
     (let host = (if Dst_IsFqdn B (md_Destination md) then sa_Fqdn (md_Destination md) else md_Domain md);
          address = (case md_DestinationAddresses md of
                       [] \<Rightarrow> sa_Addr (md_Destination md) | a # _ \<Rightarrow> a);
          by_address = (if \<not> Addr_IsValid address then [] else AddrStr B address)
      in if host \<noteq> []
         then if ParseIP B host then host
              else (case EffectiveTLDPlusOne B host of Some etld \<Rightarrow> etld | None \<Rightarrow> by_address)
         else by_address)"

definition getKeyWithSrcAndDst :: "blib \<Rightarrow> InboundContext \<Rightarrow> string" where
  "getKeyWithSrcAndDst B md = AddrStr B (sa_Addr (md_Source md)) @ getKey B md"

definition TimeoutDelay :: "16 word" where "TimeoutDelay = 65535"

definition getModifiedDelay :: "'info URLTestHistory option \<Rightarrow> 16 word" where
  "getModifiedDelay his =
     (case his of
        None \<Rightarrow> TimeoutDelay
      | Some h \<Rightarrow>
          (let delay = (if his_Delay h = 0 then TimeoutDelay else his_Delay h) in
           if his_IsFromCache h \<and> delay < 20000 then delay + 20000 else delay))"

definition getTagDelay :: "string \<Rightarrow> 'info histories \<Rightarrow> 16 word" where
  "getTagDelay tag history = (case history tag of Some (Some his) \<Rightarrow> getModifiedDelay (Some his) | _ \<Rightarrow> TimeoutDelay)"

definition filterOutbounds :: "outbound list \<Rightarrow> string \<Rightarrow> outbound list" where
  "filterOutbounds outbounds network =
     (let res = filter (\<lambda>out. network \<in> set (ob_Network out)) outbounds in
      if length res = 0 then outbounds else res)"

definition convertOutbounds :: "outbound list \<Rightarrow> outbound list nets" where
  "convertOutbounds outbounds =
     [(GTCP, filterOutbounds outbounds GTCP), (GUDP, filterOutbounds outbounds GUDP)]"

definition sortOutboundsByDelay :: "outbound list nets \<Rightarrow> 'info histories \<Rightarrow> outbound list nets" where
  "sortOutboundsByDelay outbounds history =
     map (\<lambda>(net, outs). (net, sort_key (\<lambda>out. getTagDelay (ob_Tag out) history) outs)) outbounds"

text \<open>\<open>math.Max(100, float64(d)) * ratio\<close>, converted to \<open>uint16\<close>\<close>

definition acceptableDelay :: "blib \<Rightarrow> rat \<Rightarrow> 16 word \<Rightarrow> 16 word" where
  "acceptableDelay B ratio d = ToUint16 B (fmul (max 100 (of_nat (unat d))) ratio)"

text \<open>The last index whose delay is acceptable, 0 when there is none.\<close>

definition last_acceptable :: "16 word \<Rightarrow> 'info histories \<Rightarrow> outbound list \<Rightarrow> nat" where
  "last_acceptable limit history outs =
     foldl (\<lambda>m i. if getTagDelay (ob_Tag (outs ! i)) history \<le> limit then i else m) 0 [0..<length outs]"

definition getAcceptableIndex ::
  "blib \<Rightarrow> outbound list nets \<Rightarrow> 'info histories \<Rightarrow> rat \<Rightarrow> int nets result" where
  "getAcceptableIndex B sorted_outs history ratio =
     map_result (\<lambda>_ e. e) 0 (\<lambda>(net, outs).
       bind_result (index_list outs 0) (\<lambda>first.
         Inr (net, int (last_acceptable (acceptableDelay B ratio (getTagDelay (ob_Tag first) history)) history outs)))) sorted_outs"

text \<open>The loop keeps the last outbound whose delay is not above the smallest one seen so far.\<close>

definition min_delay :: "'info histories \<Rightarrow> outbound list \<Rightarrow> outbound option \<times> 16 word" where
  "min_delay history outs =
     foldl (\<lambda>(minOut, minDelay) out.
       let d = getTagDelay (ob_Tag out) history in if d \<le> minDelay then (Some out, d) else (minOut, minDelay))
       (None, TimeoutDelay) outs"

definition getMinDelay :: "outbound list nets \<Rightarrow> 'info histories \<Rightarrow> outbound option nets \<times> 16 word nets" where
  "getMinDelay outbounds history =
     (map (\<lambda>(net, outs). (net, fst (min_delay history outs))) outbounds,
      map (\<lambda>(net, outs). (net, snd (min_delay history outs))) outbounds)"

definition getDelayMap :: "'info histories \<Rightarrow> string \<Rightarrow> 16 word option" where
  "getDelayMap history tag =
     map_option (\<lambda>p. case p of Some his \<Rightarrow> his_Delay his | None \<Rightarrow> TimeoutDelay) (history tag)"

text \<open>\<open>if net != N.NetworkTCP && net != N.NetworkUDP { net = N.NetworkTCP }\<close>\<close>

definition known_net :: "string \<Rightarrow> string" where
  "known_net net = (if net \<noteq> GTCP \<and> net \<noteq> GUDP then GTCP else net)"

text \<open>Indexing with an \<open>int\<close>: a negative index panics too.\<close>

definition index_int :: "'a list \<Rightarrow> int \<Rightarrow> 'a result" where
  "index_int xs i = (if 0 \<le> i then index_list xs (nat i) else Inl (Panic [S ''index out of range'']))"

section \<open>Round robin\<close>

record RoundRobin =
  rr_outbounds :: "outbound list nets"
  rr_sortedOutbounds :: "outbound list nets"
  rr_maxAcceptableIndex :: "int nets"
  rr_idx :: "int nets"
  rr_delayAcceptableRatio :: rat

definition NewRoundRobin :: "outbound list \<Rightarrow> BalancerOutboundOptions \<Rightarrow> RoundRobin" where
  "NewRoundRobin outbounds options =
     (let cOutbounds = convertOutbounds outbounds in
      \<lparr>rr_outbounds = cOutbounds, rr_sortedOutbounds = cOutbounds,
       rr_maxAcceptableIndex = map (\<lambda>(net, outs). (net, int (length outs) - 1)) cOutbounds,
       rr_idx = map (\<lambda>(net, outs). (net, 0)) cOutbounds,
       rr_delayAcceptableRatio = bo_DelayAcceptableRatio options\<rparr>)"

definition RoundRobin_UpdateOutboundsInfo ::
  "blib \<Rightarrow> 'info histories \<Rightarrow> RoundRobin \<Rightarrow> (bool \<times> RoundRobin) result" where
  "RoundRobin_UpdateOutboundsInfo B history s =
     (let sortedOutbounds = sortOutboundsByDelay (rr_outbounds s) history in
      bind_result (getAcceptableIndex B sortedOutbounds history (rr_delayAcceptableRatio s)) (\<lambda>acceptableIndex.
        let changed = list_ex (\<lambda>(net, ix). ix \<noteq> net_get 0 (rr_maxAcceptableIndex s) net) acceptableIndex in
        Inr (changed, s\<lparr>rr_sortedOutbounds := sortedOutbounds, rr_maxAcceptableIndex := acceptableIndex\<rparr>)))"

definition RoundRobin_Select ::
  "InboundContext \<Rightarrow> string \<Rightarrow> bool \<Rightarrow> RoundRobin \<Rightarrow> (outbound option \<times> RoundRobin) result" where
  "RoundRobin_Select md net0 touch s =
     (let net = known_net net0;
          len = net_get 0 (rr_maxAcceptableIndex s) net + 1 in
      if len = 0 then Inr (None, s)
      else let id = (net_get 0 (rr_idx s) net + 1) smod len in
        bind_result (index_int (net_get [] (rr_sortedOutbounds s) net) id) (\<lambda>proxy.
          Inr (Some proxy, if touch then s\<lparr>rr_idx := AList.update net id (rr_idx s)\<rparr> else s)))"

section \<open>Lowest delay\<close>

record LowestDelay =
  ld_outbounds :: "outbound list nets"
  ld_selectedOutbound :: "outbound option nets"

definition NewLowestDelay :: "outbound list \<Rightarrow> BalancerOutboundOptions \<Rightarrow> LowestDelay result" where
  "NewLowestDelay outbounds options =
     (let couts = convertOutbounds outbounds in
      bind_result (index_list (net_get [] couts GUDP) 0) (\<lambda>udp.
      bind_result (index_list (net_get [] couts GTCP) 0) (\<lambda>tcp.
        Inr \<lparr>ld_outbounds = couts, ld_selectedOutbound = [(GUDP, Some udp), (GTCP, Some tcp)]\<rparr>)))"

text \<open>\<open>changed = changed || out.Tag() != s.selectedOutbound[net].Tag()\<close>: a nil outbound on either side
  panics, unless a change has been seen before.\<close>

fun selection_changed :: "outbound option nets \<Rightarrow> outbound option nets \<Rightarrow> bool result" where
  "selection_changed old [] = Inr False"
| "selection_changed old ((net, out) # rest) =
     (case (out, net_get None old net) of
        (Some o', Some p) \<Rightarrow> if ob_Tag o' \<noteq> ob_Tag p then Inr True else selection_changed old rest
      | _ \<Rightarrow> Inl (Panic [S ''nil pointer dereference'']))"

definition LowestDelay_UpdateOutboundsInfo ::
  "'info histories \<Rightarrow> LowestDelay \<Rightarrow> (bool \<times> LowestDelay) result" where
  "LowestDelay_UpdateOutboundsInfo history s =
     (let min = fst (getMinDelay (ld_outbounds s) history) in
      bind_result (selection_changed (ld_selectedOutbound s) min) (\<lambda>changed.
        Inr (changed, s\<lparr>ld_selectedOutbound := min\<rparr>)))"

definition LowestDelay_Select ::
  "InboundContext \<Rightarrow> string \<Rightarrow> bool \<Rightarrow> LowestDelay \<Rightarrow> (outbound option \<times> LowestDelay) result" where
  "LowestDelay_Select md net0 touch s = Inr (net_get None (ld_selectedOutbound s) (known_net net0), s)"

definition LowestDelay_Now :: "LowestDelay \<Rightarrow> string result" where
  "LowestDelay_Now s =
     (case net_get None (ld_selectedOutbound s) GTCP of
        Some out \<Rightarrow> Inr (ob_Tag out) | None \<Rightarrow> Inl (Panic [S ''nil pointer dereference'']))"

section \<open>Consistent hashing\<close>

record ConsistentHashing =
  ch_outbounds :: "outbound list nets"
  ch_delays :: "string \<Rightarrow> 16 word option"
  ch_maxRetry :: int
  ch_maxAcceptableDelay :: "16 word nets"
  ch_delayAcceptableRatio :: rat

definition NewConsistentHashing :: "outbound list \<Rightarrow> BalancerOutboundOptions \<Rightarrow> ConsistentHashing" where
  "NewConsistentHashing outbounds options =
     \<lparr>ch_outbounds = convertOutbounds outbounds, ch_delays = Map.empty, ch_maxRetry = bo_MaxRetry options,
      ch_maxAcceptableDelay = [], ch_delayAcceptableRatio = bo_DelayAcceptableRatio options\<rparr>"

definition ConsistentHashing_UpdateOutboundsInfo ::
  "blib \<Rightarrow> 'info histories \<Rightarrow> ConsistentHashing \<Rightarrow> (bool \<times> ConsistentHashing) result" where
  "ConsistentHashing_UpdateOutboundsInfo B history s =
     (let minDelay = snd (getMinDelay (ch_outbounds s) history);
          res = map (\<lambda>(net, d). (net, acceptableDelay B (ch_delayAcceptableRatio s) d)) minDelay in
      Inr (True, s\<lparr>ch_delays := getDelayMap history, ch_maxAcceptableDelay := res\<rparr>))"

definition ConsistentHashing_Alive :: "ConsistentHashing \<Rightarrow> outbound \<Rightarrow> string \<Rightarrow> bool" where
  "ConsistentHashing_Alive s proxy net =
     (case ch_delays s (ob_Tag proxy) of
        Some delay \<Rightarrow> delay \<le> net_get 0 (ch_maxAcceptableDelay s) net | None \<Rightarrow> False)"

text \<open>\<open>for i := 0; i < g.maxRetry; i, key = i+1, key+1\<close>: the outbound found and the key at the end.\<close>

fun ch_retry ::
  "(outbound \<Rightarrow> bool) \<Rightarrow> outbound list \<Rightarrow> nat \<Rightarrow> 64 word \<Rightarrow> (outbound option \<times> 64 word) result" where
  "ch_retry alive outs 0 key = Inr (None, key)"
| "ch_retry alive outs (Suc n) key =
     bind_result (index_int outs (sint (jumpHash key (word_of_nat (length outs))))) (\<lambda>proxy.
       if alive proxy then Inr (Some proxy, key) else ch_retry alive outs n (key + 1))"

definition ConsistentHashing_Select ::
  "blib \<Rightarrow> InboundContext \<Rightarrow> string \<Rightarrow> bool \<Rightarrow> ConsistentHashing \<Rightarrow> (outbound option \<times> ConsistentHashing) result" where
  "ConsistentHashing_Select B md net0 touch g =
     (let net = known_net net0; key = Hash B (getKey B md); outs = net_get [] (ch_outbounds g) net;
          alive = (\<lambda>proxy. ConsistentHashing_Alive g proxy net) in
      bind_result (ch_retry alive outs (nat (ch_maxRetry g)) key) (\<lambda>(found, key).
        case found of
          Some proxy \<Rightarrow> Inr (Some proxy, g)
        | None \<Rightarrow>
            (case find alive outs of
               Some proxy \<Rightarrow> Inr (Some proxy, g)
             | None \<Rightarrow>
                 bind_result (index_int outs (sint (jumpHash key (word_of_nat (length outs))))) (\<lambda>proxy.
                   Inr (Some proxy, g)))))"

section \<open>Sticky sessions\<close>

text \<open>The LRU cache is \<open>freelru.ShardedLRU\<close>: \<open>lru_Get\<close> returns the value found and the cache with the
  entry made the most recent one, \<open>lru_Add\<close> may evict other entries.\<close>

record 'c lru =
  lru_Get :: "'c \<Rightarrow> 64 word \<Rightarrow> int option \<times> 'c"
  lru_Add :: "'c \<Rightarrow> 64 word \<Rightarrow> int \<Rightarrow> 'c"

record 'c StickySession =
  ss_outbounds :: "outbound list nets"
  ss_maxRetry :: int
  ss_delays :: "string \<Rightarrow> 16 word option"
  ss_maxAcceptableDelay :: "16 word nets"
  ss_delayAcceptableRatio :: rat
  ss_lruCache :: 'c

text \<open>\<open>cache\<close> is the empty cache the constructor makes, with the lifetime of the options.\<close>

definition NewStickySession :: "'c \<Rightarrow> outbound list \<Rightarrow> BalancerOutboundOptions \<Rightarrow> 'c StickySession" where
  "NewStickySession cache outbounds options =
     \<lparr>ss_outbounds = convertOutbounds outbounds, ss_maxRetry = bo_MaxRetry options, ss_delays = Map.empty,
      ss_maxAcceptableDelay = [], ss_delayAcceptableRatio = bo_DelayAcceptableRatio options, ss_lruCache = cache\<rparr>"

definition StickySession_UpdateOutboundsInfo ::
  "blib \<Rightarrow> 'info histories \<Rightarrow> 'c StickySession \<Rightarrow> (bool \<times> 'c StickySession) result" where
  "StickySession_UpdateOutboundsInfo B history s =
     (let minDelay = snd (getMinDelay (ss_outbounds s) history);
          res = map (\<lambda>(net, d). (net, acceptableDelay B (ss_delayAcceptableRatio s) d)) minDelay in
      Inr (True, s\<lparr>ss_delays := getDelayMap history, ss_maxAcceptableDelay := res\<rparr>))"

definition StickySession_Alive :: "'c StickySession \<Rightarrow> outbound \<Rightarrow> string \<Rightarrow> bool" where
  "StickySession_Alive s proxy net =
     (case ss_delays s (ob_Tag proxy) of
        Some delay \<Rightarrow> delay \<le> net_get 0 (ss_maxAcceptableDelay s) net | None \<Rightarrow> False)"

text \<open>\<open>int(jumpHash(key+uint64(time.Now().UnixNano()), int32(length)))\<close>; \<open>now\<close> lists the clock readings
  of one call, the first one at index 0.\<close>

definition pick :: "(nat \<Rightarrow> 64 word) \<Rightarrow> nat \<Rightarrow> 64 word \<Rightarrow> nat \<Rightarrow> int" where
  "pick now k key len = sint (jumpHash (key + now k) (word_of_nat len))"

text \<open>\<open>for i := 1; i < s.maxRetry; i++\<close>, with \<open>n\<close> turns left, \<open>k\<close> the number of clock readings so far. The
  result is the index and the outbound when a living one was found, and the last index otherwise.\<close>

fun ss_retry ::
  "(outbound \<Rightarrow> bool) \<Rightarrow> (nat \<Rightarrow> 64 word) \<Rightarrow> 64 word \<Rightarrow> outbound list \<Rightarrow> nat \<Rightarrow> nat \<Rightarrow> int \<Rightarrow> (outbound option \<times> int) result" where
  "ss_retry alive now key outs 0 k nowIdx = Inr (None, nowIdx)"
| "ss_retry alive now key outs (Suc n) k nowIdx =
     bind_result (index_int outs nowIdx) (\<lambda>proxy.
       if alive proxy then Inr (Some proxy, nowIdx)
       else ss_retry alive now key outs n (Suc k) (pick now k key (length outs)))"

definition StickySession_Select ::
  "blib \<Rightarrow> 'c lru \<Rightarrow> (nat \<Rightarrow> 64 word) \<Rightarrow> InboundContext \<Rightarrow> string \<Rightarrow> bool \<Rightarrow> 'c StickySession
     \<Rightarrow> (outbound option \<times> 'c StickySession) result" where
  "StickySession_Select B L now md net0 touch s =
     (let net = known_net net0;
          key = Hash B (getKeyWithSrcAndDst B md);
          outs = net_get [] (ss_outbounds s) net;
          len = length outs in
      case lru_Get L (ss_lruCache s) key of (got, cache) \<Rightarrow>
        let has = not_nil got;
            fresh = (case got of None \<Rightarrow> True | Some i \<Rightarrow> i \<ge> int len);
            idx = (if fresh then pick now 0 key len else the got);
            k = (if fresh then 1 else 0) in
        bind_result (ss_retry (\<lambda>proxy. StickySession_Alive s proxy net) now key outs (nat (ss_maxRetry s - 1)) k idx)
          (\<lambda>(found, nowIdx).
             case found of
               Some proxy \<Rightarrow>
                 Inr (Some proxy, s\<lparr>ss_lruCache :=
                   if \<not> has \<or> nowIdx \<noteq> idx then lru_Add L cache key nowIdx else cache\<rparr>)
             | None \<Rightarrow>
                 bind_result (index_int outs nowIdx) (\<lambda>proxy.
                   Inr (Some proxy, s\<lparr>ss_lruCache := lru_Add L cache key nowIdx\<rparr>))))"

section \<open>The group\<close>

abbreviation StrategyRoundRobin :: string where "StrategyRoundRobin \<equiv> ''round-robin''"
abbreviation StrategyConsistentHashing :: string where "StrategyConsistentHashing \<equiv> ''consistent-hashing''"
abbreviation StrategyStickySessions :: string where "StrategyStickySessions \<equiv> ''sticky-sessions''"
abbreviation StrategyLowestDelay :: string where "StrategyLowestDelay \<equiv> ''lowest-delay''"

text \<open>The values of the interface \<open>Strategy\<close>.\<close>

datatype 'c Strategy = RR RoundRobin | CH ConsistentHashing | SS "'c StickySession" | LD LowestDelay

definition Strategy_UpdateOutboundsInfo ::
  "blib \<Rightarrow> 'info histories \<Rightarrow> 'c Strategy \<Rightarrow> (bool \<times> 'c Strategy) result" where
  "Strategy_UpdateOutboundsInfo B history st =
     (case st of
        RR s \<Rightarrow> map_sum id (map_prod id RR) (RoundRobin_UpdateOutboundsInfo B history s)
      | CH s \<Rightarrow> map_sum id (map_prod id CH) (ConsistentHashing_UpdateOutboundsInfo B history s)
      | SS s \<Rightarrow> map_sum id (map_prod id SS) (StickySession_UpdateOutboundsInfo B history s)
      | LD s \<Rightarrow> map_sum id (map_prod id LD) (LowestDelay_UpdateOutboundsInfo history s))"

definition Strategy_Select ::
  "blib \<Rightarrow> 'c lru \<Rightarrow> (nat \<Rightarrow> 64 word) \<Rightarrow> InboundContext \<Rightarrow> string \<Rightarrow> bool \<Rightarrow> 'c Strategy
     \<Rightarrow> (outbound option \<times> 'c Strategy) result" where
  "Strategy_Select B L now md net touch st =
     (case st of
        RR s \<Rightarrow> map_sum id (map_prod id RR) (RoundRobin_Select md net touch s)
      | CH s \<Rightarrow> map_sum id (map_prod id CH) (ConsistentHashing_Select B md net touch s)
      | SS s \<Rightarrow> map_sum id (map_prod id SS) (StickySession_Select B L now md net touch s)
      | LD s \<Rightarrow> map_sum id (map_prod id LD) (LowestDelay_Select md net touch s))"

text \<open>\<open>NewLoadBalance\<close> keeps the options and refuses an empty list of outbounds; \<open>Start\<close> looks the
  outbounds up and makes the strategy. \<open>manager\<close> is \<open>OutboundManager.Outbound\<close>.\<close>

definition NewLoadBalance :: "BalancerOutboundOptions \<Rightarrow> BalancerOutboundOptions result" where
  "NewLoadBalance options =
     (if length (bo_Outbounds options) = 0 then Inl (E_New [S ''missing tags'']) else Inr options)"

definition Balancer_Start ::
  "'c \<Rightarrow> (string \<Rightarrow> outbound option) \<Rightarrow> BalancerOutboundOptions \<Rightarrow> 'c Strategy result" where
  "Balancer_Start cache manager options =
     bind_result (lookup_outbounds manager 0 (bo_Outbounds options)) (\<lambda>outbounds.
       if bo_Strategy options = StrategyRoundRobin then Inr (RR (NewRoundRobin outbounds options))
       else if bo_Strategy options = StrategyConsistentHashing then Inr (CH (NewConsistentHashing outbounds options))
       else if bo_Strategy options = StrategyStickySessions then Inr (SS (NewStickySession cache outbounds options))
       else if bo_Strategy options = StrategyLowestDelay then map_sum id LD (NewLowestDelay outbounds options)
       else Inl (E_New [S ''unknown load balance strategy: '', S (bo_Strategy options)]))"

text \<open>
  \<open>DialContext\<close>: the connection or error, the metadata with the outbound that was used, and the tag
  passed to \<open>monitor.InvalidateTest\<close>. \<open>dial\<close> is the \<open>DialContext\<close> of the outbound. \<open>ListenPacket\<close> is the
  same function with the network \<open>udp\<close>.
\<close>

definition Balancer_DialContext ::
  "blib \<Rightarrow> 'c lru \<Rightarrow> (nat \<Rightarrow> 64 word) \<Rightarrow> (outbound \<Rightarrow> 'conn result) \<Rightarrow> InboundContext option \<Rightarrow> string
     \<Rightarrow> 'c Strategy \<Rightarrow> ('conn result \<times> InboundContext \<times> string option \<times> 'c Strategy) result" where
  "Balancer_DialContext B L now dial ctx network st =
     (let md = (case ctx of None \<Rightarrow> zeroInboundContext | Some md \<Rightarrow> md) in
      bind_result (Strategy_Select B L now md network True st) (\<lambda>(selected, st).
        case selected of
          None \<Rightarrow> Inr (Inl (E_New [S ''missing supported outbound'']), md, None, st)
        | Some out \<Rightarrow>
            let md = SetRealOutbound md (ob_Tag out) in
            (case dial out of
               Inr conn \<Rightarrow> Inr (Inr conn, md, None, st)
             | Inl err \<Rightarrow> Inr (Inl err, md, Some (ob_Tag out), st))))"

definition Balancer_ListenPacket ::
  "blib \<Rightarrow> 'c lru \<Rightarrow> (nat \<Rightarrow> 64 word) \<Rightarrow> (outbound \<Rightarrow> 'conn result) \<Rightarrow> InboundContext option
     \<Rightarrow> 'c Strategy \<Rightarrow> ('conn result \<times> InboundContext \<times> string option \<times> 'c Strategy) result" where
  "Balancer_ListenPacket B L now listen ctx st = Balancer_DialContext B L now listen ctx GUDP st"

end
