(* ===== verification/Balancer_Contract.thy ===== *)
theory Balancer_Contract
  imports Balancer "HOL-Library.Multiset"
begin

text \<open>
  What a load balancing strategy promises its group. The locale \<open>strategy\<close> states the contract: from a
  state that satisfies the invariant neither operation panics, and a selection is an outbound of the group,
  one that supports the network when any of them does. It is interpreted on the four strategies and on the
  dispatch through the interface; the lemmas on runs of operations are proved once, inside the locale.
\<close>

section \<open>Outbounds per network\<close>

lemma filterOutbounds_subset: "set (filterOutbounds outs net) \<subseteq> set outs"
  by (auto simp: filterOutbounds_def Let_def)

lemma filterOutbounds_nonempty [simp]: "outs \<noteq> [] \<Longrightarrow> filterOutbounds outs net \<noteq> []"
  by (auto simp: filterOutbounds_def Let_def)

lemma filterOutbounds_length: "length (filterOutbounds outs net) \<le> length outs"
  by (auto simp: filterOutbounds_def Let_def)

lemma filterOutbounds_supports:
  assumes "out \<in> set (filterOutbounds outs net)" and "o' \<in> set outs" and "net \<in> set (ob_Network o')"
  shows "net \<in> set (ob_Network out)"
  using assms by (auto simp: filterOutbounds_def Let_def filter_empty_conv split: if_splits)

lemma known_net_cases: "known_net net = GTCP \<or> known_net net = GUDP"
  by (auto simp: known_net_def)

text \<open>The maps of the strategies have the two networks as their keys.\<close>

lemma net_get_convert: "net_get [] (convertOutbounds outs) (known_net net) = filterOutbounds outs (known_net net)"
  using known_net_cases [of net] by (auto simp: net_get_def convertOutbounds_def)

lemma net_get_map_convert:
  "net_get z (map (\<lambda>(net, outs). (net, f outs)) (convertOutbounds outs)) (known_net net)
     = f (filterOutbounds outs (known_net net))"
  using known_net_cases [of net] by (auto simp: net_get_def convertOutbounds_def)

lemma net_get_update: "net_get z (AList.update net v m) net' = (if net' = net then v else net_get z m net')"
  by (simp add: net_get_def update_conv)

section \<open>The contract\<close>

definition configured :: "outbound list \<Rightarrow> bool" where
  "configured outs \<longleftrightarrow> outs \<noteq> [] \<and> length outs < 2 ^ 31"

datatype 'info strategy_op =
    OpUpdate "'info histories"
  | OpSelect InboundContext string bool "nat \<Rightarrow> 64 word"

text \<open>A run of the operations of a strategy: the selections it made, with their networks.\<close>

fun run_ops ::
  "('info histories \<Rightarrow> 's \<Rightarrow> (bool \<times> 's) result)
     \<Rightarrow> ((nat \<Rightarrow> 64 word) \<Rightarrow> InboundContext \<Rightarrow> string \<Rightarrow> bool \<Rightarrow> 's \<Rightarrow> (outbound option \<times> 's) result)
     \<Rightarrow> 'info strategy_op list \<Rightarrow> 's \<Rightarrow> ((string \<times> outbound option) list \<times> 's) result" where
  "run_ops Update Select [] s = Inr ([], s)"
| "run_ops Update Select (OpUpdate h # ops) s =
     bind_result (Update h s) (\<lambda>(_, s). run_ops Update Select ops s)"
| "run_ops Update Select (OpSelect md net touch now # ops) s =
     bind_result (Select now md net touch s) (\<lambda>(out, s).
       bind_result (run_ops Update Select ops s) (\<lambda>(outs, s). Inr ((net, out) # outs, s)))"

definition good_selection :: "outbound list \<Rightarrow> string \<times> outbound option \<Rightarrow> bool" where
  "good_selection outs = (\<lambda>(net, sel). case sel of
     None \<Rightarrow> False
   | Some out \<Rightarrow> out \<in> set outs \<and>
       (list_ex (\<lambda>o'. known_net net \<in> set (ob_Network o')) outs \<longrightarrow> known_net net \<in> set (ob_Network out)))"

lemma good_selectionI:
  "out \<in> set (filterOutbounds outs (known_net net)) \<Longrightarrow> good_selection outs (net, Some out)"
  using filterOutbounds_subset [of outs "known_net net"] filterOutbounds_supports [of out outs "known_net net"]
  by (auto simp: good_selection_def list_ex_iff)

locale strategy =
  fixes Update :: "'info histories \<Rightarrow> 's \<Rightarrow> (bool \<times> 's) result"
    and Select :: "(nat \<Rightarrow> 64 word) \<Rightarrow> InboundContext \<Rightarrow> string \<Rightarrow> bool \<Rightarrow> 's \<Rightarrow> (outbound option \<times> 's) result"
    and inv :: "outbound list \<Rightarrow> 's \<Rightarrow> bool"
  assumes update_ok: "configured outs \<Longrightarrow> inv outs s \<Longrightarrow> \<exists>changed s'. Update h s = Inr (changed, s') \<and> inv outs s'"
    and select_ok: "configured outs \<Longrightarrow> inv outs s \<Longrightarrow>
      \<exists>out s'. Select now md net touch s = Inr (Some out, s') \<and> out \<in> set (filterOutbounds outs (known_net net)) \<and> inv outs s'"
begin

lemma run_ops_ok:
  assumes "configured outs" and "inv outs s"
  shows "\<exists>sels s'. run_ops Update Select ops s = Inr (sels, s') \<and> list_all (good_selection outs) sels \<and> inv outs s'"
  using assms(2)
proof (induction ops arbitrary: s)
  case Nil
  then show ?case by simp
next
  case (Cons op ops)
  show ?case
  proof (cases op)
    case (OpUpdate h)
    obtain changed s1 where "Update h s = Inr (changed, s1)" "inv outs s1"
      using update_ok [OF assms(1) Cons.prems] by blast
    with Cons.IH [of s1] OpUpdate show ?thesis by auto
  next
    case (OpSelect md net touch now)
    obtain out s1 where "Select now md net touch s = Inr (Some out, s1)" "inv outs s1"
      "out \<in> set (filterOutbounds outs (known_net net))"
      using select_ok [OF assms(1) Cons.prems] by blast
    with Cons.IH [of s1] OpSelect good_selectionI [of out outs net] show ?thesis by fastforce
  qed
qed

end

section \<open>Round robin\<close>

definition rr_net_ok :: "outbound list \<Rightarrow> RoundRobin \<Rightarrow> string \<Rightarrow> bool" where
  "rr_net_ok outs s net \<longleftrightarrow>
     mset (net_get [] (rr_sortedOutbounds s) net) = mset (filterOutbounds outs net) \<and>
     0 \<le> net_get 0 (rr_maxAcceptableIndex s) net \<and>
     net_get 0 (rr_maxAcceptableIndex s) net < int (length (filterOutbounds outs net)) \<and>
     0 \<le> net_get 0 (rr_idx s) net"

definition rr_inv :: "outbound list \<Rightarrow> RoundRobin \<Rightarrow> bool" where
  "rr_inv outs s \<longleftrightarrow> rr_outbounds s = convertOutbounds outs \<and> rr_net_ok outs s GTCP \<and> rr_net_ok outs s GUDP"

lemma rr_inv_net: "rr_inv outs s \<Longrightarrow> rr_net_ok outs s (known_net net)"
  using known_net_cases [of net] by (auto simp: rr_inv_def)

lemma last_acceptable_less: "outs \<noteq> [] \<Longrightarrow> last_acceptable limit history outs < length outs"
proof -
  have *: "foldl (\<lambda>m i. if P i then i else m) k is < n" if "k < n" "set is \<subseteq> {..<n}"
    for P :: "nat \<Rightarrow> bool" and k n "is"
    using that by (induction "is" arbitrary: k) auto
  show "outs \<noteq> [] \<Longrightarrow> ?thesis" unfolding last_acceptable_def by (rule *) auto
qed

text \<open>The outbounds of a network by delay, and the index the update computes for them.\<close>

definition by_delay :: "'info histories \<Rightarrow> outbound list \<Rightarrow> outbound list" where
  "by_delay history outs = sort_key (\<lambda>out. getTagDelay (ob_Tag out) history) outs"

definition delay_limit :: "blib \<Rightarrow> rat \<Rightarrow> 'info histories \<Rightarrow> outbound list \<Rightarrow> 16 word" where
  "delay_limit B ratio history outs =
     acceptableDelay B ratio (getTagDelay (ob_Tag (by_delay history outs ! 0)) history)"

definition max_index :: "blib \<Rightarrow> rat \<Rightarrow> 'info histories \<Rightarrow> outbound list \<Rightarrow> nat" where
  "max_index B ratio history outs = last_acceptable (delay_limit B ratio history outs) history (by_delay history outs)"

lemma by_delay_simps [simp]:
  "length (by_delay history outs) = length outs" "mset (by_delay history outs) = mset outs"
  "set (by_delay history outs) = set outs" "by_delay history outs = [] \<longleftrightarrow> outs = []"
proof -
  show l: "length (by_delay history outs) = length outs" and "mset (by_delay history outs) = mset outs"
    and "set (by_delay history outs) = set outs" by (simp_all add: by_delay_def)
  from l show "by_delay history outs = [] \<longleftrightarrow> outs = []" by (metis length_0_conv)
qed

lemma by_delay_sorted [simp]: "sorted (map (\<lambda>out. getTagDelay (ob_Tag out) history) (by_delay history outs))"
  by (simp add: by_delay_def)

lemma max_index_less: "outs \<noteq> [] \<Longrightarrow> max_index B ratio history outs < length outs"
  using last_acceptable_less [of "by_delay history outs"] by (simp add: max_index_def)

lemma sortOutboundsByDelay_convert:
  "sortOutboundsByDelay (convertOutbounds outs) history
     = map (\<lambda>(net, outs). (net, by_delay history outs)) (convertOutbounds outs)"
  by (simp add: sortOutboundsByDelay_def by_delay_def)

lemma getAcceptableIndex_convert:
  assumes "outs \<noteq> []"
  shows "getAcceptableIndex B (sortOutboundsByDelay (convertOutbounds outs) history) history ratio
      = Inr (map (\<lambda>(net, outs). (net, int (max_index B ratio history outs))) (convertOutbounds outs))"
  unfolding sortOutboundsByDelay_convert
  using assms by (simp add: getAcceptableIndex_def convertOutbounds_def index_list_def max_index_def delay_limit_def)

lemma RoundRobin_Update_eq:
  assumes "outs \<noteq> []" and "rr_outbounds s = convertOutbounds outs"
  shows "\<exists>changed. RoundRobin_UpdateOutboundsInfo B history s = Inr (changed, s\<lparr>
      rr_sortedOutbounds := map (\<lambda>(net, outs). (net, by_delay history outs)) (convertOutbounds outs),
      rr_maxAcceptableIndex := map (\<lambda>(net, outs).
        (net, int (max_index B (rr_delayAcceptableRatio s) history outs))) (convertOutbounds outs)\<rparr>)"
  using getAcceptableIndex_convert [OF assms(1), of B history "rr_delayAcceptableRatio s"] assms(2)
  by (simp add: RoundRobin_UpdateOutboundsInfo_def Let_def sortOutboundsByDelay_convert)

lemma smod_nonneg: "0 \<le> k \<Longrightarrow> 0 < l \<Longrightarrow> k smod l = k mod (l :: int)"
  by (cases "k = 0") (simp_all add: signed_modulo_int_def)

lemma index_int_less: "0 \<le> i \<Longrightarrow> i < int (length xs) \<Longrightarrow> index_int xs i = Inr (xs ! nat i)"
  by (simp add: index_int_def index_list_def nat_less_iff)

text \<open>The index of the next selection.\<close>

definition rr_next :: "RoundRobin \<Rightarrow> string \<Rightarrow> nat" where
  "rr_next s net = nat ((net_get 0 (rr_idx s) net + 1) mod (net_get 0 (rr_maxAcceptableIndex s) net + 1))"

lemma RoundRobin_Select_eq:
  fixes net0 :: string
  assumes "rr_inv outs s"
  defines "net \<equiv> known_net net0"
  shows "RoundRobin_Select md net0 touch s = Inr (Some (net_get [] (rr_sortedOutbounds s) net ! rr_next s net),
      if touch then s\<lparr>rr_idx := AList.update net (int (rr_next s net)) (rr_idx s)\<rparr> else s)"
    and "rr_next s net < length (net_get [] (rr_sortedOutbounds s) net)"
proof -
  let ?m = "net_get 0 (rr_maxAcceptableIndex s) net" and ?i = "net_get 0 (rr_idx s) net"
  have ok: "rr_net_ok outs s net" using rr_inv_net [OF assms(1)] by (simp add: net_def)
  then have len: "length (net_get [] (rr_sortedOutbounds s) net) = length (filterOutbounds outs net)"
    and m: "0 \<le> ?m" "?m < int (length (filterOutbounds outs net))" and i: "0 \<le> ?i"
    by (auto simp: rr_net_ok_def dest: mset_eq_length)
  have id: "0 \<le> (?i + 1) mod (?m + 1)" "(?i + 1) mod (?m + 1) < int (length (filterOutbounds outs net))"
    using m pos_mod_bound [of "?m + 1" "?i + 1"] by simp_all
  then show "rr_next s net < length (net_get [] (rr_sortedOutbounds s) net)"
    by (simp add: rr_next_def len nat_less_iff)
  from id show "RoundRobin_Select md net0 touch s = Inr (Some (net_get [] (rr_sortedOutbounds s) net ! rr_next s net),
      if touch then s\<lparr>rr_idx := AList.update net (int (rr_next s net)) (rr_idx s)\<rparr> else s)"
    using m i by (simp add: RoundRobin_Select_def Let_def smod_nonneg index_int_less len rr_next_def flip: net_def)
qed

lemma rr_inv_new: "configured outs \<Longrightarrow> rr_inv outs (NewRoundRobin outs options)"
  using filterOutbounds_nonempty [of outs GTCP] filterOutbounds_nonempty [of outs GUDP]
  by (auto simp: configured_def rr_inv_def rr_net_ok_def NewRoundRobin_def Let_def convertOutbounds_def net_get_def
      simp flip: length_greater_0_conv)

interpretation rr: strategy "RoundRobin_UpdateOutboundsInfo B" "\<lambda>_. RoundRobin_Select" rr_inv
proof unfold_locales
  fix outs s and h :: "'b histories"
  assume outs: "configured outs" and inv: "rr_inv outs s"
  have "outs \<noteq> []" using outs by (simp add: configured_def)
  then have "0 < length (filterOutbounds outs net)" for net by simp
  moreover obtain changed where "RoundRobin_UpdateOutboundsInfo B h s = Inr (changed, s\<lparr>
      rr_sortedOutbounds := map (\<lambda>(net, outs). (net, by_delay h outs)) (convertOutbounds outs),
      rr_maxAcceptableIndex := map (\<lambda>(net, outs).
        (net, int (max_index B (rr_delayAcceptableRatio s) h outs))) (convertOutbounds outs)\<rparr>)"
    using RoundRobin_Update_eq [OF \<open>outs \<noteq> []\<close>, of s B h] inv unfolding rr_inv_def by blast
  ultimately show "\<exists>changed s'. RoundRobin_UpdateOutboundsInfo B h s = Inr (changed, s') \<and> rr_inv outs s'"
    using inv max_index_less [of "filterOutbounds outs GTCP" B _ h] max_index_less [of "filterOutbounds outs GUDP" B _ h]
    by (auto simp: rr_inv_def rr_net_ok_def convertOutbounds_def net_get_def)
next
  fix outs s md net0 touch
  assume inv: "rr_inv outs s"
  let ?net = "known_net net0"
  have ok: "rr_net_ok outs s ?net" using inv by (rule rr_inv_net)
  have "net_get [] (rr_sortedOutbounds s) ?net ! rr_next s ?net \<in> set (net_get [] (rr_sortedOutbounds s) ?net)"
    using RoundRobin_Select_eq(2) [OF inv] by (rule nth_mem)
  then have "net_get [] (rr_sortedOutbounds s) ?net ! rr_next s ?net \<in> set (filterOutbounds outs ?net)"
    using ok by (auto simp: rr_net_ok_def dest: mset_eq_setD)
  moreover have "rr_inv outs (s\<lparr>rr_idx := AList.update ?net (int (rr_next s ?net)) (rr_idx s)\<rparr>)"
    using inv by (auto simp: rr_inv_def rr_net_ok_def net_get_update)
  ultimately show "\<exists>out s'. RoundRobin_Select md net0 touch s = Inr (Some out, s') \<and>
      out \<in> set (filterOutbounds outs ?net) \<and> rr_inv outs s'"
    using RoundRobin_Select_eq(1) [OF inv, of md net0 touch] inv by auto
qed

section \<open>Lowest delay\<close>

definition ld_inv :: "outbound list \<Rightarrow> LowestDelay \<Rightarrow> bool" where
  "ld_inv outs s \<longleftrightarrow> ld_outbounds s = convertOutbounds outs \<and>
     list_all (\<lambda>net. case net_get None (ld_selectedOutbound s) net of
       Some out \<Rightarrow> out \<in> set (filterOutbounds outs net) | None \<Rightarrow> False) [GTCP, GUDP]"

lemma ld_inv_net:
  assumes "ld_inv outs s"
  obtains out where "net_get None (ld_selectedOutbound s) (known_net net) = Some out"
    and "out \<in> set (filterOutbounds outs (known_net net))"
  using assms known_net_cases [of net] by (auto simp: ld_inv_def split: option.splits)

text \<open>The loop of \<open>getMinDelay\<close> on a non-empty list returns an element with the smallest delay.\<close>

lemma min_delay_spec:
  assumes "outs \<noteq> []"
  shows "\<exists>out\<in>set outs. min_delay history outs = (Some out, getTagDelay (ob_Tag out) history) \<and>
    (\<forall>o'\<in>set outs. getTagDelay (ob_Tag out) history \<le> getTagDelay (ob_Tag o') history)"
proof -
  let ?d = "\<lambda>out. getTagDelay (ob_Tag out) history"
  let ?f = "\<lambda>(minOut, minDelay) out. let d = ?d out in if d \<le> minDelay then (Some out, d) else (minOut, minDelay)"
  have *: "\<exists>out\<in>set (x # xs). foldl ?f (Some x, ?d x) xs = (Some out, ?d out) \<and> (\<forall>o'\<in>set (x # xs). ?d out \<le> ?d o')"
    for x xs
  proof (induction xs arbitrary: x)
    case Nil
    then show ?case by simp
  next
    case (Cons y ys)
    show ?case
    proof (cases "?d y \<le> ?d x")
      case True
      then show ?thesis using Cons [of y] by (force simp: Let_def intro: order_trans)
    next
      case False
      then have "?d x \<le> ?d y" by simp
      then show ?thesis using Cons [of x] False by (force simp: Let_def intro: order_trans)
    qed
  qed
  obtain x xs where outs: "outs = x # xs" using assms by (cases outs) auto
  have "unat (?d x) < 2 ^ LENGTH(16)" by (rule unsigned_less)
  then have "unat (?d x) \<le> 65535" by simp
  then have "?d x \<le> 65535" by (simp add: word_le_nat_alt)
  then have "min_delay history outs = foldl ?f (Some x, ?d x) xs"
    by (simp add: min_delay_def outs TimeoutDelay_def Let_def)
  then show ?thesis using * [of x xs] outs by simp
qed

lemma getMinDelay_net:
  "net_get None (fst (getMinDelay (convertOutbounds outs) history)) (known_net net)
     = fst (min_delay history (filterOutbounds outs (known_net net)))"
  using known_net_cases [of net] by (auto simp: getMinDelay_def net_get_def convertOutbounds_def)

lemma selection_changed_ok:
  assumes "list_all (\<lambda>(net, out). out \<noteq> None \<and> net_get None old net \<noteq> None) new"
  shows "\<exists>changed. selection_changed old new = Inr changed"
  using assms by (induction old new rule: selection_changed.induct) auto

lemma ld_inv_new:
  assumes "configured outs"
  shows "\<exists>s. NewLowestDelay outs options = Inr s \<and> ld_inv outs s"
proof -
  have "filterOutbounds outs net \<noteq> []" for net using assms by (simp add: configured_def)
  then have "filterOutbounds outs net ! 0 \<in> set (filterOutbounds outs net)" for net
    by (meson length_greater_0_conv nth_mem)
  then show ?thesis using assms
    by (simp add: NewLowestDelay_def Let_def convertOutbounds_def net_get_def index_list_def ld_inv_def configured_def)
qed

lemma ld_update:
  assumes "configured outs" and "ld_inv outs s"
  shows "\<exists>changed s'. LowestDelay_UpdateOutboundsInfo history s = Inr (changed, s') \<and> ld_inv outs s' \<and>
    ld_selectedOutbound s' = fst (getMinDelay (convertOutbounds outs) history)"
proof -
  have ne: "filterOutbounds outs net \<noteq> []" for net using assms(1) by (simp add: configured_def)
  obtain t u where t: "fst (min_delay history (filterOutbounds outs GTCP)) = Some t" "t \<in> set (filterOutbounds outs GTCP)"
    and u: "fst (min_delay history (filterOutbounds outs GUDP)) = Some u" "u \<in> set (filterOutbounds outs GUDP)"
    using min_delay_spec [OF ne, of _ history] by (metis fst_conv)
  have "\<exists>changed. selection_changed (ld_selectedOutbound s) (fst (getMinDelay (convertOutbounds outs) history)) = Inr changed"
    using assms(2) t u
    by (intro selection_changed_ok) (auto simp: ld_inv_def getMinDelay_def convertOutbounds_def split: option.splits)
  then show ?thesis using assms(2) t u
    by (auto simp: LowestDelay_UpdateOutboundsInfo_def Let_def ld_inv_def getMinDelay_def convertOutbounds_def net_get_def)
qed

interpretation ld: strategy LowestDelay_UpdateOutboundsInfo "\<lambda>_. LowestDelay_Select" ld_inv
proof unfold_locales
  fix outs s and h :: "'b histories"
  assume "configured outs" and "ld_inv outs s"
  then show "\<exists>changed s'. LowestDelay_UpdateOutboundsInfo h s = Inr (changed, s') \<and> ld_inv outs s'"
    using ld_update by blast
next
  fix outs s md net touch
  assume inv: "ld_inv outs s"
  then show "\<exists>out s'. LowestDelay_Select md net touch s = Inr (Some out, s') \<and>
      out \<in> set (filterOutbounds outs (known_net net)) \<and> ld_inv outs s'"
    by (rule ld_inv_net [of outs s net]) (simp add: LowestDelay_Select_def inv)
qed

section \<open>Consistent hashing\<close>

definition ch_inv :: "outbound list \<Rightarrow> ConsistentHashing \<Rightarrow> bool" where
  "ch_inv outs s \<longleftrightarrow> ch_outbounds s = convertOutbounds outs"

lemma sint_of_small: "n < 2 ^ 31 \<Longrightarrow> sint (word_of_nat n :: 32 word) = int n"
  by (simp add: signed_of_nat signed_take_bit_int_eq_self)

lemma sint_jumpHash:
  assumes "0 < n" and "n < 2 ^ 31"
  shows "0 \<le> sint (jumpHash key (word_of_nat n))" and "sint (jumpHash key (word_of_nat n)) < int n"
proof -
  have b: "unat (jumpHash key (word_of_nat n)) < n" using assms by (rule jumpHash_bound)
  then have "unat (jumpHash key (word_of_nat n)) < 2 ^ 31" using assms(2) by simp
  then have "sint (jumpHash key (word_of_nat n)) = int (unat (jumpHash key (word_of_nat n)))"
    using sint_of_small [of "unat (jumpHash key (word_of_nat n))"] by simp
  then show "0 \<le> sint (jumpHash key (word_of_nat n))" and "sint (jumpHash key (word_of_nat n)) < int n"
    using b by (simp_all only: of_nat_0_le_iff of_nat_less_iff)
qed

lemma configured_net:
  assumes "configured outs"
  shows "0 < length (filterOutbounds outs net)" and "length (filterOutbounds outs net) < 2 ^ 31"
  using assms filterOutbounds_length [of outs net] by (auto simp: configured_def)

lemma index_jumpHash:
  assumes "0 < length outs" and "length outs < 2 ^ 31"
  shows "\<exists>out\<in>set outs. index_int outs (sint (jumpHash key (word_of_nat (length outs)))) = Inr out"
  using sint_jumpHash [OF assms, of key] by (auto simp: index_int_less nat_less_iff intro!: nth_mem)

lemma ch_retry_ok:
  assumes "0 < length outs" and "length outs < 2 ^ 31"
  shows "\<exists>key'. ch_retry alive outs n key = Inr (None, key') \<or>
    (\<exists>out\<in>set outs. alive out \<and> ch_retry alive outs n key = Inr (Some out, key'))"
proof (induction n arbitrary: key)
  case 0
  then show ?case by simp
next
  case (Suc n)
  obtain out where "out \<in> set outs" "index_int outs (sint (jumpHash key (word_of_nat (length outs)))) = Inr out"
    using index_jumpHash [OF assms] by blast
  then show ?case using Suc [of "key + 1"] by auto
qed

text \<open>A selection is an outbound of the network, and it is a living one whenever there is one.\<close>

lemma ch_select:
  assumes "configured outs" and "ch_inv outs g"
  shows "\<exists>out. ConsistentHashing_Select B md net touch g = Inr (Some out, g) \<and>
    out \<in> set (filterOutbounds outs (known_net net)) \<and>
    ((\<exists>o'\<in>set (filterOutbounds outs (known_net net)). ConsistentHashing_Alive g o' (known_net net)) \<longrightarrow>
       ConsistentHashing_Alive g out (known_net net))"
proof -
  let ?net = "known_net net"
  let ?outs = "filterOutbounds outs ?net"
  let ?alive = "\<lambda>proxy. ConsistentHashing_Alive g proxy ?net"
  note len = configured_net [OF assms(1), of ?net]
  have eq: "net_get [] (ch_outbounds g) ?net = ?outs" using assms(2) by (simp add: ch_inv_def net_get_convert)
  consider (hit) key' out where "ch_retry ?alive ?outs (nat (ch_maxRetry g)) (Hash B (getKey B md)) = Inr (Some out, key')"
      "out \<in> set ?outs" "?alive out"
    | (miss) key' where "ch_retry ?alive ?outs (nat (ch_maxRetry g)) (Hash B (getKey B md)) = Inr (None, key')"
    using ch_retry_ok [OF len] by blast
  then show ?thesis
  proof cases
    case hit
    then show ?thesis by (simp add: ConsistentHashing_Select_def Let_def eq)
  next
    case miss
    show ?thesis
    proof (cases "find ?alive ?outs")
      case None
      then have "\<not> (\<exists>o'\<in>set ?outs. ?alive o')" by (auto simp: find_None_iff)
      moreover obtain out where "out \<in> set ?outs" "index_int ?outs (sint (jumpHash key' (word_of_nat (length ?outs)))) = Inr out"
        using index_jumpHash [OF len] by blast
      ultimately show ?thesis using miss None by (simp add: ConsistentHashing_Select_def Let_def eq)
    next
      case (Some out)
      then have "out \<in> set ?outs" "?alive out" by (auto simp: find_Some_iff)
      then show ?thesis using miss Some by (simp add: ConsistentHashing_Select_def Let_def eq)
    qed
  qed
qed

interpretation ch: strategy "ConsistentHashing_UpdateOutboundsInfo B" "\<lambda>_. ConsistentHashing_Select B" ch_inv
proof unfold_locales
  fix outs s and h :: "'b histories"
  assume "ch_inv outs s"
  then show "\<exists>changed s'. ConsistentHashing_UpdateOutboundsInfo B h s = Inr (changed, s') \<and> ch_inv outs s'"
    by (auto simp: ConsistentHashing_UpdateOutboundsInfo_def Let_def ch_inv_def)
next
  fix outs s md net touch
  assume "configured outs" and "ch_inv outs s"
  then show "\<exists>out s'. ConsistentHashing_Select B md net touch s = Inr (Some out, s') \<and>
      out \<in> set (filterOutbounds outs (known_net net)) \<and> ch_inv outs s'"
    using ch_select by blast
qed

section \<open>Sticky sessions\<close>

text \<open>
  What the code relies on of the LRU cache: \<open>Get\<close> returns a value that was added under that key, and
  neither operation makes up entries. \<open>entries\<close> are the pairs the cache holds.
\<close>

definition lru_ok :: "'c lru \<Rightarrow> ('c \<Rightarrow> (64 word \<times> int) set) \<Rightarrow> bool" where
  "lru_ok L entries \<longleftrightarrow>
     (\<forall>c k. (case fst (lru_Get L c k) of Some v \<Rightarrow> (k, v) \<in> entries c | None \<Rightarrow> True)
        \<and> entries (snd (lru_Get L c k)) \<subseteq> entries c) \<and>
     (\<forall>c k v. entries (lru_Add L c k v) \<subseteq> insert (k, v) (entries c))"

definition ss_inv :: "'c lru \<Rightarrow> ('c \<Rightarrow> (64 word \<times> int) set) \<Rightarrow> outbound list \<Rightarrow> 'c StickySession \<Rightarrow> bool" where
  "ss_inv L entries outs s \<longleftrightarrow> lru_ok L entries \<and> ss_outbounds s = convertOutbounds outs \<and>
     (\<forall>(k, i)\<in>entries (ss_lruCache s). 0 \<le> i)"

lemma pick_bounds:
  assumes "0 < len" and "len < 2 ^ 31"
  shows "0 \<le> pick now k key len" and "pick now k key len < int len"
  using sint_jumpHash [OF assms] by (simp_all add: pick_def)

lemma ss_retry_ok:
  assumes "0 < length outs" and "length outs < 2 ^ 31" and "0 \<le> i" and "i < int (length outs)"
  shows "\<exists>j. 0 \<le> j \<and> j < int (length outs) \<and> (ss_retry alive now key outs n k i = Inr (None, j) \<or>
    (alive (outs ! nat j) \<and> ss_retry alive now key outs n k i = Inr (Some (outs ! nat j), j)))"
  using assms(3,4)
proof (induction n arbitrary: k i)
  case 0
  then show ?case by auto
next
  case (Suc n)
  then have "index_int outs i = Inr (outs ! nat i)" by (simp add: index_int_less)
  then show ?case using Suc.prems Suc.IH [OF pick_bounds [OF assms(1,2)], of "Suc k" now k key] by auto
qed

lemma ss_inv_Get:
  assumes "ss_inv L entries outs s" and "lru_Get L (ss_lruCache s) key = (got, cache)"
  shows "entries cache \<subseteq> entries (ss_lruCache s)" and "got = Some i \<Longrightarrow> 0 \<le> i"
proof -
  from assms(1) have ok: "lru_ok L entries" and nn: "\<And>k i. (k, i) \<in> entries (ss_lruCache s) \<Longrightarrow> 0 \<le> i"
    by (auto simp: ss_inv_def)
  from ok have "(case fst (lru_Get L (ss_lruCache s) key) of Some v \<Rightarrow> (key, v) \<in> entries (ss_lruCache s) | None \<Rightarrow> True)"
    and c: "entries (snd (lru_Get L (ss_lruCache s) key)) \<subseteq> entries (ss_lruCache s)"
    unfolding lru_ok_def by blast+
  then show "got = Some i \<Longrightarrow> 0 \<le> i" using assms(2) nn by auto
  from c show "entries cache \<subseteq> entries (ss_lruCache s)" using assms(2) by simp
qed

lemma ss_inv_cache:
  assumes "ss_inv L entries outs s" and "entries cache \<subseteq> entries (ss_lruCache s)" and "0 \<le> j"
  shows "ss_inv L entries outs (s\<lparr>ss_lruCache := lru_Add L cache key j\<rparr>)"
    and "ss_inv L entries outs (s\<lparr>ss_lruCache := cache\<rparr>)"
proof -
  from assms(1) have "entries (lru_Add L cache key j) \<subseteq> insert (key, j) (entries cache)"
    by (simp add: ss_inv_def lru_ok_def)
  then show "ss_inv L entries outs (s\<lparr>ss_lruCache := lru_Add L cache key j\<rparr>)"
    using assms by (auto simp: ss_inv_def)
  show "ss_inv L entries outs (s\<lparr>ss_lruCache := cache\<rparr>)" using assms by (auto simp: ss_inv_def)
qed

lemma ss_select:
  assumes "configured outs" and "ss_inv L entries outs s"
  shows "\<exists>out s'. StickySession_Select B L now md net touch s = Inr (Some out, s') \<and>
    out \<in> set (filterOutbounds outs (known_net net)) \<and> ss_inv L entries outs s'"
proof -
  let ?net = "known_net net"
  let ?outs = "filterOutbounds outs ?net"
  let ?key = "Hash B (getKeyWithSrcAndDst B md)"
  note len = configured_net [OF assms(1), of ?net]
  have eq: "net_get [] (ss_outbounds s) ?net = ?outs" using assms(2) by (simp add: ss_inv_def net_get_convert)
  obtain got cache where g: "lru_Get L (ss_lruCache s) ?key = (got, cache)" by fastforce
  define fresh where "fresh = (case got of None \<Rightarrow> True | Some i \<Rightarrow> i \<ge> int (length ?outs))"
  define idx where "idx = (if fresh then pick now 0 ?key (length ?outs) else the got)"
  define res where "res = ss_retry (\<lambda>proxy. StickySession_Alive s proxy ?net) now ?key ?outs
    (nat (ss_maxRetry s - 1)) (if fresh then 1 else 0) idx"
  have c: "entries cache \<subseteq> entries (ss_lruCache s)" and v: "\<And>i. got = Some i \<Longrightarrow> 0 \<le> i"
    using ss_inv_Get [OF assms(2) g] by auto
  have "0 \<le> idx \<and> idx < int (length ?outs)"
    using pick_bounds [OF len, of now 0 ?key] v by (auto simp: idx_def fresh_def split: option.splits)
  then obtain j where j: "0 \<le> j" "j < int (length ?outs)"
    and r: "res = Inr (None, j) \<or> res = Inr (Some (?outs ! nat j), j)"
    unfolding res_def using ss_retry_ok [OF len, of idx] by blast
  have inv: "ss_inv L entries outs (s\<lparr>ss_lruCache := if b then lru_Add L cache ?key j else cache\<rparr>)" for b
    using ss_inv_cache [OF assms(2) c j(1)] by (cases b) simp_all
  have at_j: "?outs ! nat j \<in> set ?outs" "index_int ?outs j = Inr (?outs ! nat j)"
    using j by (simp_all add: nat_less_iff index_int_less)
  have sel: "StickySession_Select B L now md net touch s =
      bind_result res (\<lambda>(found, nowIdx).
         case found of
           Some proxy \<Rightarrow> Inr (Some proxy, s\<lparr>ss_lruCache :=
               if \<not> not_nil got \<or> nowIdx \<noteq> idx then lru_Add L cache ?key nowIdx else cache\<rparr>)
         | None \<Rightarrow> bind_result (index_int ?outs nowIdx) (\<lambda>proxy.
               Inr (Some proxy, s\<lparr>ss_lruCache := lru_Add L cache ?key nowIdx\<rparr>)))"
    unfolding StickySession_Select_def Let_def eq g prod.case res_def idx_def fresh_def ..
  from r show ?thesis
  proof
    assume "res = Inr (None, j)"
    then show ?thesis using at_j inv [of True] by (simp add: sel)
  next
    assume "res = Inr (Some (?outs ! nat j), j)"
    then show ?thesis using at_j(1) inv by (auto simp: sel)
  qed
qed

interpretation ss: strategy "StickySession_UpdateOutboundsInfo B" "StickySession_Select B L" "ss_inv L entries"
proof unfold_locales
  fix outs s and h :: "'c histories"
  assume "ss_inv L entries outs s"
  then show "\<exists>changed s'. StickySession_UpdateOutboundsInfo B h s = Inr (changed, s') \<and> ss_inv L entries outs s'"
    by (auto simp: StickySession_UpdateOutboundsInfo_def Let_def ss_inv_def)
next
  fix outs s now md net touch
  assume "configured outs" and "ss_inv L entries outs s"
  then show "\<exists>out s'. StickySession_Select B L now md net touch s = Inr (Some out, s') \<and>
      out \<in> set (filterOutbounds outs (known_net net)) \<and> ss_inv L entries outs s'"
    by (rule ss_select)
qed

text \<open>A session whose cached outbound is alive stays on it, and the cache keeps its entry.\<close>

lemma ss_sticky:
  assumes "configured outs" and "ss_inv L entries outs s"
    and "lru_Get L (ss_lruCache s) (Hash B (getKeyWithSrcAndDst B md)) = (Some i, cache)"
    and "i < int (length (filterOutbounds outs (known_net net)))"
    and "StickySession_Alive s (filterOutbounds outs (known_net net) ! nat i) (known_net net)"
    and "1 < ss_maxRetry s"
  shows "StickySession_Select B L now md net touch s
    = Inr (Some (filterOutbounds outs (known_net net) ! nat i), s\<lparr>ss_lruCache := cache\<rparr>)"
proof -
  have "net_get [] (ss_outbounds s) (known_net net) = filterOutbounds outs (known_net net)"
    using assms(2) by (simp add: ss_inv_def net_get_convert)
  moreover have "0 \<le> i" using ss_inv_Get(2) [OF assms(2,3)] by simp
  moreover have "nat (ss_maxRetry s - 1) = Suc (nat (ss_maxRetry s - 2))" using assms(6) by simp
  ultimately show ?thesis using assms(3-5) by (simp add: StickySession_Select_def Let_def index_int_less)
qed

section \<open>The strategy of a group\<close>

definition strategy_inv ::
  "'c lru \<Rightarrow> ('c \<Rightarrow> (64 word \<times> int) set) \<Rightarrow> outbound list \<Rightarrow> 'c Strategy \<Rightarrow> bool" where
  "strategy_inv L entries outs st =
     (case st of RR s \<Rightarrow> rr_inv outs s | CH s \<Rightarrow> ch_inv outs s | SS s \<Rightarrow> ss_inv L entries outs s | LD s \<Rightarrow> ld_inv outs s)"

interpretation group: strategy "Strategy_UpdateOutboundsInfo B" "Strategy_Select B L" "strategy_inv L entries"
proof unfold_locales
  fix outs st and h :: "'c histories"
  assume outs: "configured outs" and inv: "strategy_inv L entries outs st"
  show "\<exists>changed s'. Strategy_UpdateOutboundsInfo B h st = Inr (changed, s') \<and> strategy_inv L entries outs s'"
  proof (cases st)
    case (RR s)
    with rr.update_ok [OF outs, of s B h] inv show ?thesis
      by (auto simp: strategy_inv_def Strategy_UpdateOutboundsInfo_def)
  next
    case (CH s)
    with ch.update_ok [OF outs, of s B h] inv show ?thesis
      by (auto simp: strategy_inv_def Strategy_UpdateOutboundsInfo_def)
  next
    case (SS s)
    with ss.update_ok [OF outs, of L entries s B h] inv show ?thesis
      by (auto simp: strategy_inv_def Strategy_UpdateOutboundsInfo_def)
  next
    case (LD s)
    with ld.update_ok [OF outs, of s h] inv show ?thesis
      by (auto simp: strategy_inv_def Strategy_UpdateOutboundsInfo_def)
  qed
next
  fix outs st now md net touch
  assume outs: "configured outs" and inv: "strategy_inv L entries outs st"
  show "\<exists>out s'. Strategy_Select B L now md net touch st = Inr (Some out, s') \<and>
      out \<in> set (filterOutbounds outs (known_net net)) \<and> strategy_inv L entries outs s'"
  proof (cases st)
    case (RR s)
    with rr.select_ok [OF outs, of s md net touch] inv show ?thesis
      by (auto simp: strategy_inv_def Strategy_Select_def)
  next
    case (CH s)
    with ch.select_ok [OF outs, of s B md net touch] inv show ?thesis
      by (auto simp: strategy_inv_def Strategy_Select_def)
  next
    case (SS s)
    with ss.select_ok [OF outs, of L entries s B now md net touch] inv show ?thesis
      by (auto simp: strategy_inv_def Strategy_Select_def)
  next
    case (LD s)
    with ld.select_ok [OF outs, of s md net touch] inv show ?thesis
      by (auto simp: strategy_inv_def Strategy_Select_def)
  qed
qed

lemma Balancer_Start_inv:
  assumes "NewLoadBalance options0 = Inr options" and "length (bo_Outbounds options) < 2 ^ 31"
    and "Balancer_Start cache manager options = Inr st" and "lru_ok L entries" and "entries cache = {}"
  shows "\<exists>outs. list_all2 (\<lambda>tag out. manager tag = Some out) (bo_Outbounds options) outs \<and> configured outs
    \<and> strategy_inv L entries outs st"
proof -
  from assms(3) obtain outs where "lookup_outbounds manager 0 (bo_Outbounds options) = Inr outs"
    by (auto simp: Balancer_Start_def bind_result_Inr_iff)
  note l = this
  then have outs: "list_all2 (\<lambda>tag out. manager tag = Some out) (bo_Outbounds options) outs"
    by (simp add: lookup_outbounds_Inr)
  then have conf: "configured outs"
    using assms(1,2) by (auto simp: configured_def NewLoadBalance_def list_all2_lengthD split: if_splits)
  have "ss_inv L entries outs (NewStickySession cache outs options)" "ch_inv outs (NewConsistentHashing outs options)"
    using assms(4,5) by (simp_all add: ss_inv_def NewStickySession_def ch_inv_def NewConsistentHashing_def)
  then have "strategy_inv L entries outs st"
    using assms(3) l rr_inv_new [OF conf, of options] ld_inv_new [OF conf, of options]
    by (auto simp: Balancer_Start_def strategy_inv_def split: if_splits)
  then show ?thesis using outs conf by blast
qed

section \<open>Fairness of the round robin\<close>

text \<open>Repeated selections that touch the state.\<close>

fun rr_selects :: "nat \<Rightarrow> InboundContext \<Rightarrow> string \<Rightarrow> RoundRobin \<Rightarrow> (outbound option list \<times> RoundRobin) result" where
  "rr_selects 0 md net s = Inr ([], s)"
| "rr_selects (Suc n) md net s =
     bind_result (RoundRobin_Select md net True s) (\<lambda>(out, s).
       bind_result (rr_selects n md net s) (\<lambda>(outs, s). Inr (out # outs, s)))"

lemma rr_selects_eq:
  fixes net0 :: string
  assumes "configured outs" and "rr_inv outs s"
  defines "net \<equiv> known_net net0"
  defines "len \<equiv> nat (net_get 0 (rr_maxAcceptableIndex s) net + 1)"
  shows "\<exists>s'. rr_selects n md net0 s = Inr (map (\<lambda>k. Some (net_get [] (rr_sortedOutbounds s) net !
      ((nat (net_get 0 (rr_idx s) net) + 1 + k) mod len))) [0..<n], s')"
  using assms(2) unfolding len_def
proof (induction n arbitrary: s)
  case 0
  then show ?case by simp
next
  case (Suc n)
  let ?i = "net_get 0 (rr_idx s) net" and ?m = "net_get 0 (rr_maxAcceptableIndex s) net"
  let ?s = "s\<lparr>rr_idx := AList.update net (int (rr_next s net)) (rr_idx s)\<rparr>"
  have nn: "0 \<le> ?i" "0 \<le> ?m" using rr_inv_net [OF Suc.prems, of net0] by (simp_all add: rr_net_ok_def net_def)
  have next': "rr_next s net = (nat ?i + 1) mod nat (?m + 1)"
    using nn by (simp add: rr_next_def nat_mod_distrib nat_add_distrib)
  have inv: "rr_inv outs ?s" using rr.select_ok [OF assms(1) Suc.prems, of md net0 True]
    RoundRobin_Select_eq(1) [OF Suc.prems, of md net0 True] by (auto simp: net_def)
  have "Suc (a mod l + x) mod l = Suc (a + x) mod l" for a x l :: nat
    by (metis mod_Suc_eq mod_add_left_eq)
  then have "map (\<lambda>k. Some (xs ! ((a mod l + 1 + k) mod l))) [0..<n] = map (\<lambda>k. Some (xs ! ((a + k) mod l))) [1..<Suc n]"
    for xs :: "outbound list" and a l
    by (simp add: map_Suc_upt [symmetric] comp_def del: upt_Suc)
  then show ?case
    using Suc.IH [OF inv] RoundRobin_Select_eq(1) [OF Suc.prems, of md net0 True]
    by (fastforce simp add: net_get_update next' upt_conv_Cons simp flip: net_def simp del: upt_Suc)
qed

lemma rotate_take:
  assumes "0 < len" and "len \<le> length xs"
  shows "map (\<lambda>k. xs ! ((a + k) mod len)) [0..<len] = rotate a (take len xs)"
  using assms by (intro nth_equalityI) (auto simp: nth_rotate add.commute min_absorb2)

lemma mset_rotate_eq: "mset (rotate a ys) = mset ys"
  by (metis append_take_drop_id mset_append rotate_drop_take union_commute)

text \<open>One round visits the outbounds up to the acceptable index once each, in a rotated order.\<close>

lemma rr_round:
  fixes net0 :: string
  assumes "configured outs" and "rr_inv outs s"
  defines "net \<equiv> known_net net0"
  defines "len \<equiv> nat (net_get 0 (rr_maxAcceptableIndex s) net + 1)"
  shows "\<exists>sels s'. rr_selects len md net0 s = Inr (sels, s') \<and>
    mset sels = image_mset Some (mset (take len (net_get [] (rr_sortedOutbounds s) net)))"
proof -
  let ?xs = "net_get [] (rr_sortedOutbounds s) net" and ?a = "nat (net_get 0 (rr_idx s) net) + 1"
  have ok: "rr_net_ok outs s net" unfolding net_def using assms(2) by (rule rr_inv_net)
  then have len: "0 < len" "len \<le> length ?xs"
    by (auto simp: rr_net_ok_def len_def dest: mset_eq_length)
  have "map (\<lambda>k. ?xs ! ((?a + k) mod len)) [0..<len] = rotate ?a (take len ?xs)"
    using len by (rule rotate_take)
  then have "map (\<lambda>k. Some (?xs ! ((?a + k) mod len))) [0..<len] = map Some (rotate ?a (take len ?xs))"
    by (metis (no_types, lifting) list.map_comp comp_apply map_eq_conv)
  then show ?thesis
    using mset_rotate_eq [of ?a "take len ?xs"] rr_selects_eq [OF assms(1,2), where ?net0.0 = net0 and n = len and md = md] unfolding net_def [symmetric] len_def [symmetric] by auto
qed

lemma last_acceptable_snoc:
  "last_acceptable limit history (outs @ [out]) =
     (if getTagDelay (ob_Tag out) history \<le> limit then length outs else last_acceptable limit history outs)"
proof -
  have "foldl (\<lambda>m i. if getTagDelay (ob_Tag ((outs @ [out]) ! i)) history \<le> limit then i else m) k [0..<n]
    = foldl (\<lambda>m i. if getTagDelay (ob_Tag (outs ! i)) history \<le> limit then i else m) k [0..<n]"
    if "n \<le> length outs" for k n
    using that by (intro foldl_cong) (auto simp: nth_append)
  then show ?thesis by (simp add: last_acceptable_def)
qed

text \<open>On a list sorted by delay whose first element is acceptable, the outbounds up to the acceptable
  index are exactly the acceptable ones.\<close>

lemma take_last_acceptable:
  assumes "outs \<noteq> []" and "sorted (map (\<lambda>out. getTagDelay (ob_Tag out) history) outs)"
    and "getTagDelay (ob_Tag (outs ! 0)) history \<le> limit"
  shows "take (Suc (last_acceptable limit history outs)) outs = filter (\<lambda>out. getTagDelay (ob_Tag out) history \<le> limit) outs"
  using assms
proof (induction outs rule: rev_induct)
  case Nil
  then show ?case by simp
next
  case (snoc x xs)
  let ?P = "\<lambda>out. getTagDelay (ob_Tag out) history \<le> limit"
  show ?case
  proof (cases "?P x")
    case True
    then have "\<forall>y\<in>set xs. ?P y" using snoc.prems(2) by (auto simp: sorted_append intro: order_trans)
    then show ?thesis using True by (simp add: last_acceptable_snoc)
  next
    case False
    then have "xs \<noteq> []" using snoc.prems(3) by auto
    then show ?thesis using snoc False last_acceptable_less [OF \<open>xs \<noteq> []\<close>, of limit history]
      by (simp add: last_acceptable_snoc sorted_append nth_append)
  qed
qed

end
