(* ===== verification/Url_Test.thy ===== *)
theory Url_Test
  imports Url_History "HOL-Library.Multiset"
begin

text \<open>
  The URL test group (\<open>protocol/group/urltest.go\<close>): its options and defaults, the selection with its
  tolerance, a round of tests and the update of the selected outbounds, and the ticker that runs the
  rounds while the group is in use. Delays are 16-bit words, so the sum of a delay and the tolerance wraps
  around as in the code. \<open>Now\<close> gives the current outbound of a nested group.
\<close>

section \<open>The group\<close>

record URLTestGroup =
  ug_outbounds :: "outbound list"
  ug_interval :: duration
  ug_tolerance :: "16 word"
  ug_idleTimeout :: duration
  ug_checking :: bool
  ug_selectedOutboundTCP :: "outbound option"
  ug_selectedOutboundUDP :: "outbound option"
  ug_ticker :: bool
  ug_closed :: bool
  ug_started :: bool
  ug_lastActive :: int

text \<open>\<open>constant/timeout.go\<close>, in nanoseconds.\<close>

definition DefaultURLTestInterval :: duration where "DefaultURLTestInterval = 180 * 1000000000"
definition DefaultURLTestIdleTimeout :: duration where "DefaultURLTestIdleTimeout = 1800 * 1000000000"

definition NewURLTestGroup ::
  "outbound list \<Rightarrow> duration \<Rightarrow> 16 word \<Rightarrow> duration \<Rightarrow> URLTestGroup result" where
  "NewURLTestGroup outbounds interval0 tolerance0 idleTimeout0 =
     (let interval = (if interval0 = 0 then DefaultURLTestInterval else interval0);
          tolerance = (if tolerance0 = 0 then 50 else tolerance0);
          idleTimeout = (if idleTimeout0 = 0 then DefaultURLTestIdleTimeout else idleTimeout0) in
      if interval > idleTimeout
      then Inl (E_New [S ''interval must be less or equal than idle_timeout''])
      else Inr \<lparr>ug_outbounds = outbounds, ug_interval = interval, ug_tolerance = tolerance,
        ug_idleTimeout = idleTimeout, ug_checking = False, ug_selectedOutboundTCP = None,
        ug_selectedOutboundUDP = None, ug_ticker = False, ug_closed = False, ug_started = False,
        ug_lastActive = 0\<rparr>)"

record URLTestOutboundOptions =
  uo_Outbounds :: "string list"
  uo_Interval :: duration
  uo_Tolerance :: "16 word"
  uo_IdleTimeout :: duration

definition NewURLTest :: "URLTestOutboundOptions \<Rightarrow> URLTestOutboundOptions result" where
  "NewURLTest options =
     (if length (uo_Outbounds options) = 0 then Inl (E_New [S ''missing tags'']) else Inr options)"

definition URLTest_Start ::
  "(string \<Rightarrow> outbound option) \<Rightarrow> URLTestOutboundOptions \<Rightarrow> URLTestGroup result" where
  "URLTest_Start manager options =
     bind_result (lookup_outbounds manager 0 (uo_Outbounds options)) (\<lambda>outbounds.
       NewURLTestGroup outbounds (uo_Interval options) (uo_Tolerance options) (uo_IdleTimeout options))"

section \<open>Selection\<close>

text \<open>The loop over the outbounds, from the current choice and its delay.\<close>

fun select_loop ::
  "'info storage \<Rightarrow> (string \<Rightarrow> string option) \<Rightarrow> 16 word \<Rightarrow> string \<Rightarrow> outbound list
     \<Rightarrow> outbound option \<times> 16 word \<Rightarrow> outbound option \<times> 16 word" where
  "select_loop H Now tolerance network [] (minOutbound, minDelay) = (minOutbound, minDelay)"
| "select_loop H Now tolerance network (detour # rest) (minOutbound, minDelay) =
     (if network \<notin> set (ob_Network detour)
      then select_loop H Now tolerance network rest (minOutbound, minDelay)
      else case LoadURLTestHistory H (RealTag Now detour) of
             None \<Rightarrow> select_loop H Now tolerance network rest (minOutbound, minDelay)
           | Some history \<Rightarrow>
               if minDelay = 0 \<or> minDelay > his_Delay history + tolerance
               then select_loop H Now tolerance network rest (Some detour, his_Delay history)
               else select_loop H Now tolerance network rest (minOutbound, minDelay))"

definition selected_for :: "URLTestGroup \<Rightarrow> string \<Rightarrow> outbound option" where
  "selected_for g network =
     (if network = GTCP then ug_selectedOutboundTCP g
      else if network = GUDP then ug_selectedOutboundUDP g else None)"

definition select_start ::
  "'info storage \<Rightarrow> (string \<Rightarrow> string option) \<Rightarrow> URLTestGroup \<Rightarrow> string \<Rightarrow> outbound option \<times> 16 word" where
  "select_start H Now g network =
     (case selected_for g network of
        None \<Rightarrow> (None, 0)
      | Some selected \<Rightarrow>
          (case LoadURLTestHistory H (RealTag Now selected) of
             None \<Rightarrow> (None, 0) | Some history \<Rightarrow> (Some selected, his_Delay history)))"

definition URLTestGroup_Select ::
  "'info storage \<Rightarrow> (string \<Rightarrow> string option) \<Rightarrow> URLTestGroup \<Rightarrow> string \<Rightarrow> outbound option \<times> bool" where
  "URLTestGroup_Select H Now g network =
     (case fst (select_loop H Now (ug_tolerance g) network (ug_outbounds g) (select_start H Now g network)) of
        None \<Rightarrow> (find (\<lambda>detour. network \<in> set (ob_Network detour)) (ug_outbounds g), False)
      | Some minOutbound \<Rightarrow> (Some minOutbound, True))"

text \<open>\<open>performUpdateCheck\<close>; the second component tells whether the connections are interrupted.\<close>

definition update_selected :: "outbound option \<Rightarrow> outbound option \<times> bool \<Rightarrow> outbound option \<times> bool" where
  "update_selected current choice =
     (case choice of
        (None, _) \<Rightarrow> (current, False)
      | (Some outbound, exists') \<Rightarrow>
          if current = None \<or> (exists' \<and> Some outbound \<noteq> current)
          then (Some outbound, current \<noteq> None) else (current, False))"

definition performUpdateCheck ::
  "'info storage \<Rightarrow> (string \<Rightarrow> string option) \<Rightarrow> URLTestGroup \<Rightarrow> URLTestGroup \<times> bool" where
  "performUpdateCheck H Now g =
     (case update_selected (ug_selectedOutboundTCP g) (URLTestGroup_Select H Now g GTCP) of (tcp, updated) \<Rightarrow>
        let g = g\<lparr>ug_selectedOutboundTCP := tcp\<rparr> in
        case update_selected (ug_selectedOutboundUDP g) (URLTestGroup_Select H Now g GUDP) of (udp, updated') \<Rightarrow>
          (g\<lparr>ug_selectedOutboundUDP := udp\<rparr>, updated \<or> updated'))"

section \<open>A round of tests\<close>

text \<open>
  The tags that a round tests, with the tag of the group member they stand for. \<open>since tag\<close> is the clock
  when the loop looks at that tag.
\<close>

fun test_targets ::
  "'info storage \<Rightarrow> (string \<Rightarrow> string option) \<Rightarrow> (string \<Rightarrow> outbound option) \<Rightarrow> duration \<Rightarrow> bool \<Rightarrow> (string \<Rightarrow> int)
     \<Rightarrow> string list \<Rightarrow> outbound list \<Rightarrow> (string \<times> string \<times> outbound) list" where
  "test_targets H Now manager interval force clock checked [] = []"
| "test_targets H Now manager interval force clock checked (detour # rest) =
     (let realTag = RealTag Now detour in
      if realTag \<in> set checked then test_targets H Now manager interval force clock checked rest
      else if \<not> force \<and> (case LoadURLTestHistory H realTag of
                  None \<Rightarrow> False | Some history \<Rightarrow> clock realTag - his_Time history < interval)
      then test_targets H Now manager interval force clock checked rest
      else case manager realTag of
             None \<Rightarrow> test_targets H Now manager interval force clock (realTag # checked) rest
           | Some p \<Rightarrow> (ob_Tag detour, realTag, p)
                 # test_targets H Now manager interval force clock (realTag # checked) rest)"

text \<open>The outcome of one test, run by the batch: \<open>test p\<close> is what \<open>urltest.URLTest\<close> returns, at the time
  \<open>done realTag\<close>.\<close>

definition run_test ::
  "(outbound \<Rightarrow> 16 word result) \<Rightarrow> (string \<Rightarrow> int) \<Rightarrow> string \<times> string \<times> outbound
     \<Rightarrow> 'info storage \<times> (string \<rightharpoonup> 16 word) \<Rightarrow> ('info storage \<times> (string \<rightharpoonup> 16 word)) result" where
  "run_test test finished target st =
     (case (target, st) of ((tag, realTag, p), (H, result)) \<Rightarrow>
        case test p of
          Inl err \<Rightarrow> bind_result (DeleteURLTestHistory (finished realTag) H realTag) (\<lambda>H. Inr (H, result))
        | Inr t \<Rightarrow>
            bind_result (StoreURLTestHistory H realTag (Some \<lparr>his_Time = finished realTag, his_Delay = t,
                his_IpInfo = None, his_IsFromCache = False\<rparr>))
              (\<lambda>H. Inr (H, result(tag \<mapsto> t))))"

text \<open>\<open>urlTest\<close>, with the storage, the group and the delays it returns; the tests of the batch finish in the
  order \<open>order\<close> puts them in. A call while another one is running does nothing.\<close>

definition urlTest ::
  "(string \<Rightarrow> string option) \<Rightarrow> (string \<Rightarrow> outbound option) \<Rightarrow> (outbound \<Rightarrow> 16 word result) \<Rightarrow> (string \<Rightarrow> int)
     \<Rightarrow> (string \<Rightarrow> int) \<Rightarrow> ((string \<times> string \<times> outbound) list \<Rightarrow> (string \<times> string \<times> outbound) list)
     \<Rightarrow> bool \<Rightarrow> 'info storage \<Rightarrow> URLTestGroup
     \<Rightarrow> ('info storage \<times> URLTestGroup \<times> (string \<rightharpoonup> 16 word) \<times> bool) result" where
  "urlTest Now manager test clock finished order force H g =
     (if ug_checking g then Inr (H, g, Map.empty, False)
      else bind_result
        (run_steps (map (run_test test finished)
           (order (test_targets H Now manager (ug_interval g) force clock [] (ug_outbounds g)))) (H, Map.empty))
        (\<lambda>(H, result). case performUpdateCheck H Now g of (g, updated) \<Rightarrow> Inr (H, g, result, updated)))"

section \<open>Activity\<close>

definition UT_PostStart :: "int \<Rightarrow> URLTestGroup \<Rightarrow> URLTestGroup" where
  "UT_PostStart now g = g\<lparr>ug_started := True, ug_lastActive := now\<rparr>"

text \<open>\<open>Touch\<close>; the flag tells whether the goroutine \<open>loopCheck\<close> is started.\<close>

definition Touch :: "int \<Rightarrow> URLTestGroup \<Rightarrow> URLTestGroup \<times> bool" where
  "Touch now g =
     (if \<not> ug_started g then (g, False)
      else if ug_ticker g then (g\<lparr>ug_lastActive := now\<rparr>, False)
      else (g\<lparr>ug_ticker := True\<rparr>, True))"

text \<open>\<open>loopCheck\<close>: its start, and one turn at a tick of the ticker. The flags tell whether
  \<open>CheckOutbounds(false)\<close> is called and whether the loop goes on.\<close>

definition loopCheck_start :: "int \<Rightarrow> URLTestGroup \<Rightarrow> URLTestGroup \<times> bool" where
  "loopCheck_start now g =
     (if now - ug_lastActive g > ug_interval g then (g\<lparr>ug_lastActive := now\<rparr>, True) else (g, False))"

definition loopCheck_tick :: "int \<Rightarrow> URLTestGroup \<Rightarrow> URLTestGroup \<times> bool \<times> bool" where
  "loopCheck_tick now g =
     (if ug_closed g then (g, False, False)
      else if now - ug_lastActive g > ug_idleTimeout g then (g\<lparr>ug_ticker := False\<rparr>, False, False)
      else (g, True, True))"

definition UT_Close :: "URLTestGroup \<Rightarrow> URLTestGroup result" where
  "UT_Close g =
     (if \<not> ug_ticker g then Inr g
      else if ug_closed g then Inl (Panic [S ''close of closed channel''])
      else Inr (g\<lparr>ug_closed := True\<rparr>))"

section \<open>The outbound\<close>

definition URLTest_Now :: "URLTestGroup \<Rightarrow> string" where
  "URLTest_Now g =
     (case ug_selectedOutboundTCP g of
        Some out \<Rightarrow> ob_Tag out
      | None \<Rightarrow> (case ug_selectedOutboundUDP g of Some out \<Rightarrow> ob_Tag out | None \<Rightarrow> []))"

text \<open>
  \<open>DialContext\<close>, after \<open>Touch\<close>: \<open>NetworkName\<close> is \<open>N.NetworkName\<close>, \<open>dial\<close> the \<open>DialContext\<close> of an
  outbound. The result is the connection or the error, and the storage, in which a failed outbound gets the
  delay of a timeout.
\<close>

definition URLTest_DialContext ::
  "(string \<Rightarrow> string) \<Rightarrow> (outbound \<Rightarrow> 'conn result) \<Rightarrow> (string \<Rightarrow> string option) \<Rightarrow> int \<Rightarrow> string
     \<Rightarrow> 'info storage \<Rightarrow> URLTestGroup \<Rightarrow> ('conn result \<times> 'info storage) result" where
  "URLTest_DialContext NetworkName dial Now now network H g =
     (let name = NetworkName network in
      if name \<noteq> GTCP \<and> name \<noteq> GUDP then Inr (Inl (E_Extend (E_Lib ''unknown network'') network), H)
      else let out = (case selected_for g name of
                        Some out \<Rightarrow> Some out | None \<Rightarrow> fst (URLTestGroup_Select H Now g network)) in
        (case out of
           None \<Rightarrow> Inr (Inl (E_New [S ''missing supported outbound'']), H)
         | Some out \<Rightarrow>
             (case dial out of
                Inr conn \<Rightarrow> Inr (Inr conn, H)
              | Inl err \<Rightarrow> bind_result (DeleteURLTestHistory now H (ob_Tag out)) (\<lambda>H. Inr (Inl err, H)))))"

definition URLTest_ListenPacket ::
  "(outbound \<Rightarrow> 'conn result) \<Rightarrow> (string \<Rightarrow> string option) \<Rightarrow> int
     \<Rightarrow> 'info storage \<Rightarrow> URLTestGroup \<Rightarrow> ('conn result \<times> 'info storage) result" where
  "URLTest_ListenPacket listen Now now H g =
     (let out = (case ug_selectedOutboundUDP g of
                   Some out \<Rightarrow> Some out | None \<Rightarrow> fst (URLTestGroup_Select H Now g GUDP)) in
      case out of
        None \<Rightarrow> Inr (Inl (E_New [S ''missing supported outbound'']), H)
      | Some out \<Rightarrow>
          (case listen out of
             Inr conn \<Rightarrow> Inr (Inr conn, H)
           | Inl err \<Rightarrow> bind_result (DeleteURLTestHistory now H (ob_Tag out)) (\<lambda>H. Inr (Inl err, H))))"

section \<open>Properties of the selection\<close>

definition supports :: "string \<Rightarrow> outbound \<Rightarrow> bool" where
  "supports network detour \<longleftrightarrow> network \<in> set (ob_Network detour)"

text \<open>The outbound the loop ends with is the one it started from or a tested member of the list.\<close>

lemma select_loop_member:
  assumes "select_loop H Now tol network outs (start, d) = (Some out, d')"
  shows "start = Some out \<or> (out \<in> set outs \<and> supports network out \<and> LoadURLTestHistory H (RealTag Now out) \<noteq> None)"
  using assms
  by (induction outs arbitrary: start d)
    (fastforce simp: supports_def split: if_splits option.splits)+

text \<open>The delay goes with the outbound.\<close>

definition tracked :: "'info storage \<Rightarrow> (string \<Rightarrow> string option) \<Rightarrow> outbound option \<times> 16 word \<Rightarrow> bool" where
  "tracked H Now p = (case p of
     (None, d) \<Rightarrow> d = 0
   | (Some out, d) \<Rightarrow> map_option his_Delay (LoadURLTestHistory H (RealTag Now out)) = Some d)"

lemma select_loop_tracked: "tracked H Now p \<Longrightarrow> tracked H Now (select_loop H Now tol network outs p)"
  by (induction H Now tol network outs p rule: select_loop.induct) (auto simp: tracked_def split: option.splits)

lemma select_start_tracked: "tracked H Now (select_start H Now g network)"
  by (auto simp: tracked_def select_start_def split: option.splits)

text \<open>Delays that are not 0 and do not overflow with the tolerance: what the tests of working outbounds
  give.\<close>

definition sound_delays :: "'info storage \<Rightarrow> (string \<Rightarrow> string option) \<Rightarrow> 16 word \<Rightarrow> outbound list \<Rightarrow> bool" where
  "sound_delays H Now tol outs \<longleftrightarrow> list_all (\<lambda>detour.
     case LoadURLTestHistory H (RealTag Now detour) of None \<Rightarrow> True
     | Some h \<Rightarrow> his_Delay h \<noteq> 0 \<and> unat (his_Delay h) + unat tol < 2 ^ 16) outs"

lemma unat_add_small: "unat (a :: 16 word) + unat b < 2 ^ 16 \<Longrightarrow> unat (a + b) = unat a + unat b"
  by (simp add: unat_word_ariths take_bit_nat_eq_self)

lemma select_loop_tolerance:
  assumes "sound_delays H Now tol outs"
    and "select_loop H Now tol network outs (start, d) = (sel, d')"
  shows "(d \<noteq> 0 \<longrightarrow> d' \<noteq> 0 \<and> d' \<le> d) \<and>
    (\<forall>detour\<in>set outs. supports network detour \<longrightarrow> (\<forall>h. LoadURLTestHistory H (RealTag Now detour) = Some h \<longrightarrow>
      d' \<noteq> 0 \<and> unat d' \<le> unat (his_Delay h) + unat tol))"
  using assms
proof (induction outs arbitrary: start d)
  case Nil
  then show ?case by simp
next
  case (Cons x xs)
  have sound: "sound_delays H Now tol xs" using Cons.prems(1) by (simp add: sound_delays_def)
  show ?case
  proof (cases "supports network x \<and> LoadURLTestHistory H (RealTag Now x) \<noteq> None")
    case False
    then have "select_loop H Now tol network xs (start, d) = (sel, d')"
      using Cons.prems(2) by (auto simp: supports_def split: if_splits)
    with Cons.IH [OF sound] False show ?thesis by simp
  next
    case True
    then obtain h where net: "network \<in> set (ob_Network x)" and h: "LoadURLTestHistory H (RealTag Now x) = Some h"
      by (auto simp: supports_def)
    from h Cons.prems(1) have hd: "his_Delay h \<noteq> 0" "unat (his_Delay h) + unat tol < 2 ^ 16"
      by (simp_all add: sound_delays_def)
    note sum = unat_add_small [OF hd(2)]
    show ?thesis
    proof (cases "d = 0 \<or> d > his_Delay h + tol")
      case True
      then have "select_loop H Now tol network xs (Some x, his_Delay h) = (sel, d')"
        using Cons.prems(2) net h by simp
      from Cons.IH [OF sound this] have IH: "d' \<noteq> 0" "d' \<le> his_Delay h"
        and rest: "\<forall>detour\<in>set xs. supports network detour \<longrightarrow> (\<forall>h. LoadURLTestHistory H (RealTag Now detour) = Some h \<longrightarrow>
          d' \<noteq> 0 \<and> unat d' \<le> unat (his_Delay h) + unat tol)"
        using hd(1) by auto
      have "d \<noteq> 0 \<Longrightarrow> unat (his_Delay h) \<le> unat d" using True sum by (auto simp: word_less_nat_alt)
      then show ?thesis using IH rest h by (auto simp: word_le_nat_alt)
    next
      case False
      then have "select_loop H Now tol network xs (start, d) = (sel, d')" using Cons.prems(2) net h by simp
      from Cons.IH [OF sound this] False sum h show ?thesis by (auto simp: word_le_nat_alt word_less_nat_alt not_less)
    qed
  qed
qed

text \<open>With sound delays the selection is a tested outbound, and no tested outbound is faster by more than
  the tolerance.\<close>

lemma Select_within_tolerance:
  assumes "sound_delays H Now (ug_tolerance g) (ug_outbounds g)"
    and "out \<in> set (ug_outbounds g)" and "supports network out" and "LoadURLTestHistory H (RealTag Now out) \<noteq> None"
  shows "\<exists>sel h. URLTestGroup_Select H Now g network = (Some sel, True) \<and>
    LoadURLTestHistory H (RealTag Now sel) = Some h \<and>
    (\<forall>detour\<in>set (ug_outbounds g). supports network detour \<longrightarrow>
      (\<forall>h'. LoadURLTestHistory H (RealTag Now detour) = Some h' \<longrightarrow>
        unat (his_Delay h) \<le> unat (his_Delay h') + unat (ug_tolerance g)))"
proof -
  obtain start d where s: "select_start H Now g network = (start, d)" by fastforce
  obtain sel d' where l: "select_loop H Now (ug_tolerance g) network (ug_outbounds g) (start, d) = (sel, d')" by fastforce
  have tr: "tracked H Now (sel, d')"
    using select_loop_tracked [OF select_start_tracked, of H Now "ug_tolerance g" network "ug_outbounds g" g network] s l by simp
  note bound = select_loop_tolerance [OF assms(1) l]
  then have "d' \<noteq> 0" using assms(2-4) by auto
  with tr obtain o' h where "sel = Some o'" "LoadURLTestHistory H (RealTag Now o') = Some h" "his_Delay h = d'"
    by (auto simp: tracked_def split: option.splits)
  with s l bound show ?thesis by (auto simp: URLTestGroup_Select_def)
qed

section \<open>The selected outbounds\<close>

definition ut_inv :: "URLTestGroup \<Rightarrow> bool" where
  "ut_inv g \<longleftrightarrow> list_all (\<lambda>net. case selected_for g net of
     None \<Rightarrow> True | Some out \<Rightarrow> out \<in> set (ug_outbounds g) \<and> supports net out) [GTCP, GUDP]"

lemma Select_member:
  assumes "ut_inv g" and "URLTestGroup_Select H Now g net = (Some out, exists')"
  shows "out \<in> set (ug_outbounds g) \<and> supports net out"
proof -
  obtain start d where s: "select_start H Now g net = (start, d)" by fastforce
  obtain sel d' where l: "select_loop H Now (ug_tolerance g) net (ug_outbounds g) (start, d) = (sel, d')" by fastforce
  show ?thesis
  proof (cases sel)
    case None
    then have "find (\<lambda>detour. net \<in> set (ob_Network detour)) (ug_outbounds g) = Some out"
      using assms(2) s l by (simp add: URLTestGroup_Select_def)
    then show ?thesis by (auto simp: find_Some_iff supports_def)
  next
    case (Some o')
    then have o': "o' = out" using assms(2) s l by (simp add: URLTestGroup_Select_def)
    have "start = Some out \<Longrightarrow> selected_for g net = Some out"
      using s by (auto simp: select_start_def split: option.splits)
    then show ?thesis using select_loop_member [of H Now "ug_tolerance g" net "ug_outbounds g" start d out d'] l Some o' assms(1)
      by (auto simp: ut_inv_def selected_for_def split: if_splits)
  qed
qed

lemma Select_Some:
  assumes "out \<in> set (ug_outbounds g)" and "supports net out"
  shows "fst (URLTestGroup_Select H Now g net) \<noteq> None"
proof -
  have "find (\<lambda>detour. net \<in> set (ob_Network detour)) (ug_outbounds g) \<noteq> None"
    using assms by (auto simp: find_None_iff supports_def)
  then show ?thesis by (auto simp: URLTestGroup_Select_def split: option.splits)
qed

lemma update_selected_member:
  assumes "\<And>out e. choice = (Some out, e) \<Longrightarrow> P out" and "\<And>out. current = Some out \<Longrightarrow> P out"
    and "update_selected current choice = (Some out, updated)"
  shows "P out"
  using assms by (auto simp: update_selected_def split: if_splits option.splits prod.splits)

lemma performUpdateCheck_fields:
  "performUpdateCheck H Now g = (g', updated) \<Longrightarrow>
    g' = g\<lparr>ug_selectedOutboundTCP := fst (update_selected (ug_selectedOutboundTCP g) (URLTestGroup_Select H Now g GTCP)),
           ug_selectedOutboundUDP := fst (update_selected (ug_selectedOutboundUDP g) (URLTestGroup_Select H Now g GUDP))\<rparr>"
proof -
  have "URLTestGroup_Select H Now (g\<lparr>ug_selectedOutboundTCP := x\<rparr>) GUDP = URLTestGroup_Select H Now g GUDP" for x
    by (simp add: URLTestGroup_Select_def select_start_def selected_for_def cong: option.case_cong)
  then show "performUpdateCheck H Now g = (g', updated) \<Longrightarrow> ?thesis"
    by (auto simp: performUpdateCheck_def Let_def split: prod.splits)
qed

text \<open>An update check keeps the selections inside the group, and selects an outbound for every network
  that some member supports.\<close>

lemma performUpdateCheck_inv:
  assumes "ut_inv g" and "performUpdateCheck H Now g = (g', updated)"
  shows "ut_inv g'" and "net = GTCP \<or> net = GUDP \<Longrightarrow> out \<in> set (ug_outbounds g) \<Longrightarrow> supports net out \<Longrightarrow> selected_for g' net \<noteq> None"
proof -
  note f = performUpdateCheck_fields [OF assms(2)]
  have cur: "out \<in> set (ug_outbounds g) \<and> supports net out" if "selected_for g net = Some out" for net out
    using that assms(1) by (auto simp: ut_inv_def selected_for_def split: if_splits)
  have m: "out \<in> set (ug_outbounds g) \<and> supports net out"
    if "fst (update_selected (selected_for g net) (URLTestGroup_Select H Now g net)) = Some out" for net out
  proof -
    from that obtain u where "update_selected (selected_for g net) (URLTestGroup_Select H Now g net) = (Some out, u)"
      by (metis prod.collapse)
    then show ?thesis by (rule update_selected_member [rotated 2]) (use Select_member [OF assms(1)] cur in blast)+
  qed
  then show "ut_inv g'" using m [of GTCP] m [of GUDP] by (auto simp: f ut_inv_def selected_for_def split: option.splits)
  show "selected_for g' net \<noteq> None" if "net = GTCP \<or> net = GUDP" "out \<in> set (ug_outbounds g)" "supports net out"
    using Select_Some [OF that(2,3), of H Now] that(1)
    by (auto simp: f selected_for_def update_selected_def split: option.splits prod.splits)
qed

section \<open>What a round of tests leaves behind\<close>

abbreviation target_tags :: "(string \<times> string \<times> outbound) list \<Rightarrow> string list" where
  "target_tags targets \<equiv> map (\<lambda>target. fst (snd target)) targets"

lemma test_targets_distinct:
  "distinct (target_tags (test_targets H Now manager interval force clock checked outs)) \<and>
   set (target_tags (test_targets H Now manager interval force clock checked outs)) \<inter> set checked = {}"
proof (induction outs arbitrary: checked)
  case Nil
  then show ?case by simp
next
  case (Cons x xs)
  show ?case using Cons [of checked] Cons [of "RealTag Now x # checked"]
    by (force simp: Let_def split: option.split)
qed

text \<open>A forced round tests the real outbound of every member.\<close>

lemma test_targets_forced:
  assumes "detour \<in> set outs" and "manager (RealTag Now detour) = Some p" and "RealTag Now detour \<notin> set checked"
  shows "\<exists>tag. (tag, RealTag Now detour, p) \<in> set (test_targets H Now manager interval True clock checked outs)"
  using assms
proof (induction outs arbitrary: checked)
  case Nil
  then show ?case by simp
next
  case (Cons x xs)
  show ?case
  proof (cases "RealTag Now x = RealTag Now detour")
    case True
    then show ?thesis using Cons.prems by (auto simp: Let_def)
  next
    case False
    then show ?thesis using Cons.prems Cons.IH [of checked] Cons.IH [of "RealTag Now x # checked"]
      by (auto simp: Let_def split: option.split)
  qed
qed

text \<open>The delay a test leaves in the storage.\<close>

definition outcome :: "16 word result \<Rightarrow> 16 word" where
  "outcome r = (case r of Inl err \<Rightarrow> 65535 | Inr t \<Rightarrow> t)"

lemma run_test_ok:
  assumes "no_nil H"
  shows "\<exists>H' result' h. run_test test finished (tag, realTag, p) (H, result) = Inr (H', result') \<and> no_nil H' \<and>
    LoadURLTestHistory H' realTag = Some h \<and> his_Delay h = outcome (test p) \<and> his_Time h = finished realTag \<and>
    (\<forall>t. t \<noteq> realTag \<longrightarrow> LoadURLTestHistory H' t = LoadURLTestHistory H t)"
proof (cases "test p")
  case (Inl err)
  from Store_Load [OF assms, of realTag "\<lparr>his_Time = finished realTag, his_Delay = 65535, his_IpInfo = None, his_IsFromCache = False\<rparr>"]
  show ?thesis by (auto simp: run_test_def Inl outcome_def DeleteURLTestHistory_def)
next
  case (Inr t)
  from Store_Load [OF assms, of realTag "\<lparr>his_Time = finished realTag, his_Delay = t, his_IpInfo = None, his_IsFromCache = False\<rparr>"]
  show ?thesis by (auto simp: run_test_def Inr outcome_def)
qed

lemma run_tests_ok:
  assumes "no_nil H" and "distinct (target_tags targets)"
  shows "\<exists>H' result'. run_steps (map (run_test test finished) targets) (H, result) = Inr (H', result') \<and> no_nil H' \<and>
    (\<forall>(tag, realTag, p)\<in>set targets. \<exists>h. LoadURLTestHistory H' realTag = Some h \<and>
       his_Delay h = outcome (test p) \<and> his_Time h = finished realTag) \<and>
    (\<forall>t. t \<notin> set (target_tags targets) \<longrightarrow> LoadURLTestHistory H' t = LoadURLTestHistory H t)"
  using assms
proof (induction targets arbitrary: H result)
  case Nil
  then show ?case by simp
next
  case (Cons x xs)
  obtain tag realTag p where x: "x = (tag, realTag, p)" by (cases x)
  from run_test_ok [OF Cons.prems(1), of test finished tag realTag p result] obtain H1 r1 h where
    1: "run_test test finished x (H, result) = Inr (H1, r1)" "no_nil H1" "LoadURLTestHistory H1 realTag = Some h"
      "his_Delay h = outcome (test p)" "his_Time h = finished realTag"
      "\<forall>t. t \<noteq> realTag \<longrightarrow> LoadURLTestHistory H1 t = LoadURLTestHistory H t"
    unfolding x by blast
  from Cons.prems(2) have d: "distinct (target_tags xs)" "realTag \<notin> set (target_tags xs)" by (auto simp: x)
  from Cons.IH [OF 1(2) d(1), of r1] obtain H2 r2 where
    2: "run_steps (map (run_test test finished) xs) (H1, r1) = Inr (H2, r2)" "no_nil H2"
      "\<forall>(tag, realTag, p)\<in>set xs. \<exists>h. LoadURLTestHistory H2 realTag = Some h \<and> his_Delay h = outcome (test p) \<and> his_Time h = finished realTag"
      "\<forall>t. t \<notin> set (target_tags xs) \<longrightarrow> LoadURLTestHistory H2 t = LoadURLTestHistory H1 t"
    by blast
  have "LoadURLTestHistory H2 realTag = Some h" using 2(4) d(2) 1(3) by simp
  then show ?case using 1 2 by (auto simp: x)
qed

lemma order_targets:
  assumes "mset (order targets) = mset targets"
  shows "set (order targets) = set targets" and "distinct (target_tags targets) \<Longrightarrow> distinct (target_tags (order targets))"
proof -
  show "set (order targets) = set targets" using assms by (rule mset_eq_setD)
  have "mset (target_tags (order targets)) = mset (target_tags targets)" using assms by simp
  then show "distinct (target_tags targets) \<Longrightarrow> distinct (target_tags (order targets))"
    using mset_eq_imp_distinct_iff by blast
qed

text \<open>A forced round: it does not panic, whatever order the tests finish in; the storage then has the outcome
  of the test of every member, and the selections are members of the group.\<close>

lemma urlTest_forced:
  assumes "no_nil H" and "\<not> ug_checking g" and "\<And>targets. mset (order targets) = mset targets"
  shows "\<exists>H' g' result updated. urlTest Now manager test clock finished order True H g = Inr (H', g', result, updated) \<and>
    no_nil H' \<and> performUpdateCheck H' Now g = (g', updated) \<and>
    (\<forall>detour\<in>set (ug_outbounds g). \<forall>p. manager (RealTag Now detour) = Some p \<longrightarrow>
      (\<exists>h. LoadURLTestHistory H' (RealTag Now detour) = Some h \<and> his_Delay h = outcome (test p) \<and>
         his_Time h = finished (RealTag Now detour)))"
proof -
  let ?targets = "test_targets H Now manager (ug_interval g) True clock [] (ug_outbounds g)"
  note order = order_targets [of order ?targets, OF assms(3)]
  have "distinct (target_tags (order ?targets))"
    using order(2) test_targets_distinct [of H Now manager "ug_interval g" True clock "[]" "ug_outbounds g"] by blast
  from run_tests_ok [OF assms(1) this, of test finished Map.empty] obtain H' result where
    r: "run_steps (map (run_test test finished) (order ?targets)) (H, Map.empty) = Inr (H', result)" "no_nil H'"
    and t: "\<forall>(tag, realTag, p)\<in>set ?targets. \<exists>h. LoadURLTestHistory H' realTag = Some h \<and>
       his_Delay h = outcome (test p) \<and> his_Time h = finished realTag"
    unfolding order(1) by blast
  have "\<exists>h. LoadURLTestHistory H' (RealTag Now detour) = Some h \<and> his_Delay h = outcome (test p) \<and>
      his_Time h = finished (RealTag Now detour)"
    if "detour \<in> set (ug_outbounds g)" "manager (RealTag Now detour) = Some p" for detour p
    using test_targets_forced [of detour "ug_outbounds g" manager Now p "[]" H "ug_interval g" clock] that t by fastforce
  moreover obtain g' updated where "performUpdateCheck H' Now g = (g', updated)" by fastforce
  ultimately show ?thesis using r assms(2) by (auto simp: urlTest_def)
qed

text \<open>
  The sum of the delay of a failed outbound (65535) and the tolerance wraps around to the tolerance minus
  one, so a failed outbound that comes after a working one is taken for a faster one.
\<close>

lemma Select_failed:
  assumes "ug_outbounds g = [a, b]" and "supports net a" and "supports net b"
    and "selected_for g net = None \<or> selected_for g net = Some a"
    and "LoadURLTestHistory H (RealTag Now a) = Some ha" and "LoadURLTestHistory H (RealTag Now b) = Some hb"
    and "his_Delay hb = 65535" and "ug_tolerance g \<noteq> 0" and "ug_tolerance g \<le> his_Delay ha"
    and "unat (his_Delay ha) + unat (ug_tolerance g) < 2 ^ 16"
  shows "URLTestGroup_Select H Now g net = (Some b, True)"
proof -
  let ?d = "his_Delay ha" and ?t = "ug_tolerance g"
  have eq: "65535 + ?t = ?t - 1" by simp
  have "?t - 1 < ?d"
  proof -
    have "unat (?t - 1) = unat ?t - 1" using assms(8) by (simp add: unat_minus_one)
    moreover have "0 < unat ?t" using assms(8) by (simp add: unat_gt_0)
    ultimately show ?thesis using assms(9) by (simp add: word_less_nat_alt word_le_nat_alt)
  qed
  then have b: "?d > 65535 + ?t" unfolding eq .
  have a: "\<not> ?d > ?d + ?t" using unat_add_small [OF assms(10)] by (simp add: word_less_nat_alt)
  show ?thesis using assms(1-7) a b
    by (auto simp: URLTestGroup_Select_def select_start_def supports_def)
qed

end
