(* ===== verification/Selector.thy ===== *)
theory Selector
  imports Url_History
begin

text \<open>
  The manual selector (\<open>protocol/group/selector.go\<close>) and the group of connections that a change of the
  selection interrupts (\<open>common/interrupt/group.go\<close>). The cache file is the map from a selector's tag to
  the tag stored for it; \<open>store_ok\<close> tells whether writing it succeeds.
\<close>

section \<open>Interrupting connections\<close>

text \<open>The list of a group: every connection with its origin. \<open>Interrupt\<close> returns the connections it closes.\<close>

type_synonym 'conn interrupt_group = "('conn \<times> bool) list"

definition group_NewConn :: "'conn interrupt_group \<Rightarrow> 'conn \<Rightarrow> bool \<Rightarrow> 'conn interrupt_group" where
  "group_NewConn g conn isExternal = g @ [(conn, isExternal)]"

definition group_Interrupt :: "'conn interrupt_group \<Rightarrow> bool \<Rightarrow> 'conn interrupt_group \<times> 'conn list" where
  "group_Interrupt g interruptExternalConnections =
     (filter (\<lambda>(conn, isExternal). \<not> (\<not> isExternal \<or> interruptExternalConnections)) g,
      map fst (filter (\<lambda>(conn, isExternal). \<not> isExternal \<or> interruptExternalConnections) g))"

section \<open>The selector\<close>

record SelectorOutboundOptions =
  so_Outbounds :: "string list"
  so_Default :: string

record Selector =
  sel_tag :: string
  sel_tags :: "string list"
  sel_defaultTag :: string
  sel_outbounds :: "string \<Rightarrow> outbound option"
  sel_selected :: "outbound option"

definition NewSelector :: "string \<Rightarrow> SelectorOutboundOptions \<Rightarrow> Selector result" where
  "NewSelector tag options =
     (if length (so_Outbounds options) = 0 then Inl (E_New [S ''missing tags''])
      else Inr \<lparr>sel_tag = tag, sel_tags = so_Outbounds options, sel_defaultTag = so_Default options,
        sel_outbounds = Map.empty, sel_selected = None\<rparr>)"

fun selector_lookup ::
  "(string \<Rightarrow> outbound option) \<Rightarrow> nat \<Rightarrow> string list \<Rightarrow> (string \<Rightarrow> outbound option) \<Rightarrow> (string \<Rightarrow> outbound option) result" where
  "selector_lookup manager i [] outs = Inr outs"
| "selector_lookup manager i (tag # tags) outs =
     (case manager tag of
        None \<Rightarrow> Inl (E_New [S ''outbound '', N i, S '' not found: '', S tag])
      | Some detour \<Rightarrow> selector_lookup manager (Suc i) tags (outs(tag \<mapsto> detour)))"

text \<open>\<open>Start\<close>; \<open>cache\<close> is \<open>None\<close> without a cache file, and \<open>LoadSelected\<close> answers with the empty string for a
  selector it does not know.\<close>

definition LoadSelected :: "(string \<rightharpoonup> string) \<Rightarrow> string \<Rightarrow> string" where
  "LoadSelected cache tag = (case cache tag of None \<Rightarrow> [] | Some selected \<Rightarrow> selected)"

definition cached_selection :: "(string \<rightharpoonup> string) option \<Rightarrow> Selector \<Rightarrow> outbound option" where
  "cached_selection cache s =
     (case cache of
        None \<Rightarrow> None
      | Some file \<Rightarrow>
          if sel_tag s = [] then None
          else let selected = LoadSelected file (sel_tag s) in
               if selected \<noteq> [] then sel_outbounds s selected else None)"

definition Selector_Start ::
  "(string \<Rightarrow> outbound option) \<Rightarrow> (string \<rightharpoonup> string) option \<Rightarrow> Selector \<Rightarrow> Selector result" where
  "Selector_Start manager cache s0 =
     bind_result (selector_lookup manager 0 (sel_tags s0) (sel_outbounds s0)) (\<lambda>outs.
       let s = s0\<lparr>sel_outbounds := outs\<rparr> in
       case cached_selection cache s of
         Some detour \<Rightarrow> Inr (s\<lparr>sel_selected := Some detour\<rparr>)
       | None \<Rightarrow>
           if sel_defaultTag s \<noteq> []
           then (case sel_outbounds s (sel_defaultTag s) of
                   None \<Rightarrow> Inl (E_New [S ''default outbound not found: '', S (sel_defaultTag s)])
                 | Some detour \<Rightarrow> Inr (s\<lparr>sel_selected := Some detour\<rparr>))
           else bind_result (index_list (sel_tags s) 0) (\<lambda>tag.
             Inr (s\<lparr>sel_selected := sel_outbounds s tag\<rparr>)))"

definition Selector_Now :: "Selector \<Rightarrow> string result" where
  "Selector_Now s =
     (case sel_selected s of None \<Rightarrow> index_list (sel_tags s) 0 | Some selected \<Rightarrow> Inr (ob_Tag selected))"

definition Selector_Network :: "Selector \<Rightarrow> string list" where
  "Selector_Network s =
     (case sel_selected s of None \<Rightarrow> [GTCP, GUDP] | Some selected \<Rightarrow> ob_Network selected)"

text \<open>The body of \<open>SelectOutbound\<close>: the answer, the selector, the cache file, and whether the connections of the group are
  interrupted.\<close>

definition swap_selected ::
  "bool \<Rightarrow> string \<Rightarrow> Selector \<Rightarrow> (string \<rightharpoonup> string) option
     \<Rightarrow> bool \<times> Selector \<times> (string \<rightharpoonup> string) option \<times> bool" where
  "swap_selected store_ok tag s cache =
     (case sel_outbounds s tag of
        None \<Rightarrow> (False, s, cache, False)
      | Some detour \<Rightarrow>
          if sel_selected s = Some detour then (True, s, cache, False)
          else (True, s\<lparr>sel_selected := Some detour\<rparr>,
                (if sel_tag s \<noteq> [] \<and> store_ok
                 then map_option (\<lambda>file. file(sel_tag s \<mapsto> tag)) cache else cache), True))"

text \<open>\<open>pingSelected\<close>: the call on the monitor.\<close>

datatype ping = NoPing | TestNow string | SignalChange string

definition pingSelected ::
  "(string \<Rightarrow> string option) \<Rightarrow> (string \<Rightarrow> outbound option) \<Rightarrow> Selector \<Rightarrow> ping" where
  "pingSelected Now manager s =
     (case sel_selected s of
        None \<Rightarrow> NoPing
      | Some selected \<Rightarrow>
          let realTag = RealTag Now selected in
          (case manager realTag of
             None \<Rightarrow> NoPing
           | Some r \<Rightarrow> if Now (ob_Tag r) = None then TestNow realTag else SignalChange (sel_tag s)))"

text \<open>The deferred \<open>pingSelected\<close> runs on every return.\<close>

definition SelectOutbound ::
  "(string \<Rightarrow> string option) \<Rightarrow> (string \<Rightarrow> outbound option) \<Rightarrow> bool \<Rightarrow> string \<Rightarrow> Selector \<Rightarrow> (string \<rightharpoonup> string) option
     \<Rightarrow> bool \<times> Selector \<times> (string \<rightharpoonup> string) option \<times> bool \<times> ping" where
  "SelectOutbound Now manager store_ok tag s cache =
     (case swap_selected store_ok tag s cache of (ok, s', cache', interrupted) \<Rightarrow>
        (ok, s', cache', interrupted, pingSelected Now manager s'))"

section \<open>Properties\<close>

lemma selector_lookup_Inr:
  assumes "selector_lookup manager i tags outs = Inr outs'"
  shows "outs' = (\<lambda>t. if t \<in> set tags then manager t else outs t) \<and> (\<forall>t\<in>set tags. manager t \<noteq> None)"
  using assms
proof (induction tags arbitrary: i outs)
  case Nil
  then show ?case by auto
next
  case (Cons tag tags)
  then obtain d where d: "manager tag = Some d" "selector_lookup manager (Suc i) tags (outs(tag \<mapsto> d)) = Inr outs'"
    by (auto split: option.splits)
  from Cons.IH [OF d(2)] d(1) show ?case by auto
qed

text \<open>A started selector: its tags are all known, and its selection is one of them.\<close>

definition selector_inv :: "(string \<Rightarrow> outbound option) \<Rightarrow> Selector \<Rightarrow> bool" where
  "selector_inv manager s \<longleftrightarrow> sel_tags s \<noteq> [] \<and> list_all (\<lambda>t. manager t \<noteq> None) (sel_tags s) \<and>
     sel_outbounds s = (\<lambda>t. if t \<in> set (sel_tags s) then manager t else None) \<and>
     (case sel_selected s of None \<Rightarrow> False | Some out \<Rightarrow> list_ex (\<lambda>t. manager t = Some out) (sel_tags s))"

lemma Selector_Start_cases:
  assumes "Selector_Start manager cache s0 = Inr s" and "sel_outbounds s0 = Map.empty"
  obtains outs out t where "outs = (\<lambda>t. if t \<in> set (sel_tags s0) then manager t else None)"
    and "\<forall>t\<in>set (sel_tags s0). manager t \<noteq> None" and "t \<in> set (sel_tags s0)" and "manager t = Some out"
    and "s = s0\<lparr>sel_outbounds := outs, sel_selected := Some out\<rparr>"
proof -
  from assms obtain outs where l: "selector_lookup manager 0 (sel_tags s0) Map.empty = Inr outs"
    by (auto simp: Selector_Start_def bind_result_Inr_iff)
  from selector_lookup_Inr [OF l] have outs: "outs = (\<lambda>t. if t \<in> set (sel_tags s0) then manager t else None)"
    and known: "\<forall>t\<in>set (sel_tags s0). manager t \<noteq> None" by auto
  have mem: "outs t = Some out \<Longrightarrow> t \<in> set (sel_tags s0) \<and> manager t = Some out" for t out
    by (auto simp: outs split: if_splits)
  let ?s = "s0\<lparr>sel_outbounds := outs\<rparr>"
  have "\<exists>t out. outs t = Some out \<and> s = ?s\<lparr>sel_selected := Some out\<rparr>"
  proof (cases "cached_selection cache ?s")
    case (Some d)
    then have "\<exists>t. outs t = Some d" by (auto simp: cached_selection_def Let_def split: option.splits if_splits)
    then show ?thesis using assms l Some by (auto simp: Selector_Start_def Let_def)
  next
    case None
    then have s: "(if sel_defaultTag s0 \<noteq> []
           then (case outs (sel_defaultTag s0) of
                   None \<Rightarrow> Inl (E_New [S ''default outbound not found: '', S (sel_defaultTag s0)])
                 | Some detour \<Rightarrow> Inr (?s\<lparr>sel_selected := Some detour\<rparr>))
           else bind_result (index_list (sel_tags s0) 0) (\<lambda>tag. Inr (?s\<lparr>sel_selected := outs tag\<rparr>))) = Inr s"
      using assms l by (cases "sel_defaultTag s0 = []") (simp_all add: Selector_Start_def Let_def cong: option.case_cong)
    show ?thesis
    proof (cases "sel_defaultTag s0 = []")
      case True
      then have *: "sel_tags s0 \<noteq> []" "s = ?s\<lparr>sel_selected := outs (sel_tags s0 ! 0)\<rparr>"
        using s by (auto simp: index_list_def split: if_splits)
      then have "outs (sel_tags s0 ! 0) \<noteq> None" using known by (simp add: outs)
      then show ?thesis using *(2) by (metis option.collapse)
    next
      case False
      then show ?thesis using s by (auto split: option.splits)
    qed
  qed
  then obtain t out where "outs t = Some out" "s = ?s\<lparr>sel_selected := Some out\<rparr>" by blast
  then show thesis using that [OF outs known, of t out] mem by simp
qed

lemma Selector_Start_inv:
  assumes "NewSelector tag options = Inr s0" and "Selector_Start manager cache s0 = Inr s"
  shows "selector_inv manager s" and "sel_tag s = tag" and "sel_tags s = so_Outbounds options"
    and "sel_defaultTag s = so_Default options"
proof -
  from assms(1) have s0: "sel_tags s0 = so_Outbounds options" "sel_tags s0 \<noteq> []" "sel_tag s0 = tag"
    "sel_outbounds s0 = Map.empty" "sel_defaultTag s0 = so_Default options"
    by (auto simp: NewSelector_def split: if_splits)
  obtain outs out t where
    "outs = (\<lambda>t. if t \<in> set (sel_tags s0) then manager t else None)" "\<forall>t\<in>set (sel_tags s0). manager t \<noteq> None"
    "t \<in> set (sel_tags s0)" "manager t = Some out" and s: "s = s0\<lparr>sel_outbounds := outs, sel_selected := Some out\<rparr>"
    by (rule Selector_Start_cases [OF assms(2) s0(4)])
  then show "selector_inv manager s" using s0(2) by (auto simp: selector_inv_def list_all_iff list_ex_iff)
  show "sel_tag s = tag" "sel_tags s = so_Outbounds options" "sel_defaultTag s = so_Default options"
    using s s0 by simp_all
qed

lemma swap_selected_inv:
  assumes "selector_inv manager s" and "swap_selected store_ok tag s cache = (ok, s', cache', interrupted)"
  shows "selector_inv manager s'" and "ok \<longleftrightarrow> tag \<in> set (sel_tags s)"
    and "ok \<Longrightarrow> sel_selected s' = manager tag" and "\<not> ok \<Longrightarrow> s' = s \<and> cache' = cache \<and> \<not> interrupted"
    and "interrupted \<longleftrightarrow> sel_selected s' \<noteq> sel_selected s"
    and "sel_tag s' = sel_tag s \<and> sel_tags s' = sel_tags s \<and> sel_defaultTag s' = sel_defaultTag s \<and> sel_outbounds s' = sel_outbounds s"
  using assms
  by (auto simp: selector_inv_def swap_selected_def list_all_iff list_ex_iff split: option.splits if_splits)

text \<open>
  The selection a restart makes is the current one. Writing the cache file keeps this true, since
  \<open>SelectOutbound\<close> stores the tag of every change.
\<close>

definition restart_selects :: "(string \<Rightarrow> outbound option) \<Rightarrow> Selector \<Rightarrow> (string \<rightharpoonup> string) \<Rightarrow> bool" where
  "restart_selects manager s file \<longleftrightarrow>
     Selector_Start manager (Some file) (s\<lparr>sel_outbounds := Map.empty, sel_selected := None\<rparr>) = Inr s"

lemma selector_lookup_known:
  "\<forall>t\<in>set tags. manager t \<noteq> None \<Longrightarrow>
     selector_lookup manager i tags outs = Inr (\<lambda>t. if t \<in> set tags then manager t else outs t)"
  by (induction tags arbitrary: i outs) (auto intro!: ext)

lemma restart_kept:
  assumes "selector_inv manager s" and "sel_tag s \<noteq> []" and "[] \<notin> set (sel_tags s)" and "restart_selects manager s db"
    and "swap_selected True tag s (Some db) = (ok, s', cache', interrupted)"
  shows "\<exists>db'. cache' = Some db' \<and> restart_selects manager s' db'"
proof (cases "sel_outbounds s tag = None \<or> sel_selected s = sel_outbounds s tag")
  case True
  then have "s' = s" "cache' = Some db" using assms(5) by (auto simp: swap_selected_def split: option.splits)
  then show ?thesis using assms(4) by simp
next
  case False
  then obtain detour where d: "sel_outbounds s tag = Some detour" and new: "s' = s\<lparr>sel_selected := Some detour\<rparr>"
    and cf: "cache' = Some (db(sel_tag s \<mapsto> tag))"
    using assms(2,5) by (auto simp: swap_selected_def split: if_splits)
  from assms(1) have outs: "sel_outbounds s = (\<lambda>t. if t \<in> set (sel_tags s) then manager t else None)"
    and known: "\<forall>t\<in>set (sel_tags s). manager t \<noteq> None" by (auto simp: selector_inv_def list_all_iff)
  have "tag \<noteq> []" using d outs assms(3) by (auto split: if_splits)
  let ?s0 = "s\<lparr>sel_outbounds := Map.empty, sel_selected := None\<rparr>"
  have l: "selector_lookup manager 0 (sel_tags s) Map.empty = Inr (sel_outbounds s)"
    using selector_lookup_known [OF known, of 0 Map.empty] outs by simp
  have "cached_selection (Some (db(sel_tag s \<mapsto> tag))) (?s0\<lparr>sel_outbounds := sel_outbounds s\<rparr>) = Some detour"
    using assms(2) \<open>tag \<noteq> []\<close> d by (simp add: cached_selection_def LoadSelected_def)
  then have "Selector_Start manager (Some (db(sel_tag s \<mapsto> tag))) ?s0 = Inr (s\<lparr>sel_selected := Some detour\<rparr>)"
    using l by (simp add: Selector_Start_def Let_def)
  then show ?thesis using cf new by (simp add: restart_selects_def)
qed

text \<open>A sequence of selections with a cache file that can be written.\<close>

fun select_all ::
  "(string \<Rightarrow> string option) \<Rightarrow> (string \<Rightarrow> outbound option) \<Rightarrow> string list \<Rightarrow> Selector \<Rightarrow> (string \<rightharpoonup> string) option
     \<Rightarrow> Selector \<times> (string \<rightharpoonup> string) option" where
  "select_all Now manager [] s cache = (s, cache)"
| "select_all Now manager (tag # tags) s cache =
     (case SelectOutbound Now manager True tag s cache of (_, s, cache, _) \<Rightarrow> select_all Now manager tags s cache)"

lemma select_all_restart:
  assumes "selector_inv manager s" and "sel_tag s \<noteq> []" and "[] \<notin> set (sel_tags s)" and "restart_selects manager s db"
  shows "\<exists>s' db'. select_all Now manager ts s (Some db) = (s', Some db') \<and> restart_selects manager s' db' \<and>
    selector_inv manager s' \<and> sel_tag s' = sel_tag s \<and> sel_tags s' = sel_tags s \<and> sel_defaultTag s' = sel_defaultTag s"
  using assms
proof (induction ts arbitrary: s db)
  case Nil
  then show ?case by simp
next
  case (Cons t ts)
  obtain ok s1 cache1 i where 1: "swap_selected True t s (Some db) = (ok, s1, cache1, i)"
    using prod_cases4 by blast
  from restart_kept [OF Cons.prems 1] obtain db1 where f: "cache1 = Some db1" "restart_selects manager s1 db1" by blast
  from swap_selected_inv [OF Cons.prems(1) 1] have s1: "selector_inv manager s1"
    "sel_tag s1 = sel_tag s" "sel_tags s1 = sel_tags s" "sel_defaultTag s1 = sel_defaultTag s" by auto
  from Cons.IH [OF s1(1) _ _ f(2)] Cons.prems(2,3) show ?case by (simp add: SelectOutbound_def 1 f s1)
qed

lemma New_fresh:
  assumes "NewSelector tag options = Inr s0"
    and "sel_tag s = tag" and "sel_tags s = so_Outbounds options" and "sel_defaultTag s = so_Default options"
  shows "s\<lparr>sel_outbounds := Map.empty, sel_selected := None\<rparr> = s0"
  using assms by (cases s) (auto simp: NewSelector_def split: if_splits)

end
