(* ===== verification/Group_Properties.thy ===== *)
theory Group_Properties
  imports Balancer_Contract Url_Test Selector
begin

text \<open>
  The properties of the outbound groups: the load balancer and its strategies, the URL test group and the
  selector, with a small configuration on which each of them is applied.
\<close>

section \<open>A configuration\<close>

definition out_a :: outbound where "out_a = \<lparr>ob_Tag = ''a'', ob_Network = [GTCP, GUDP]\<rparr>"
definition out_b :: outbound where "out_b = \<lparr>ob_Tag = ''b'', ob_Network = [GTCP]\<rparr>"

definition manager_ab :: "string \<Rightarrow> outbound option" where
  "manager_ab tag = (if tag = ''a'' then Some out_a else if tag = ''b'' then Some out_b else None)"

definition history_ab :: "unit storage" where
  "history_ab tag =
     (if tag = ''a'' then Some (Some \<lparr>his_Time = 0, his_Delay = 300, his_IpInfo = None, his_IsFromCache = False\<rparr>)
      else if tag = ''b'' then Some (Some \<lparr>his_Time = 0, his_Delay = 120, his_IpInfo = None, his_IsFromCache = False\<rparr>)
      else None)"

definition sample_blib :: blib where
  "sample_blib = \<lparr>Hash = (\<lambda>s. of_nat (length s)), ParseIP = (\<lambda>_. False), EffectiveTLDPlusOne = (\<lambda>_. None),
     AddrStr = (\<lambda>_. ''addr''), Dst_IsFqdn = (\<lambda>_. False), ToUint16 = (\<lambda>x. of_int \<lfloor>x\<rfloor>)\<rparr>"

text \<open>A cache that keeps everything.\<close>

definition sample_lru :: "(64 word \<times> int) list lru" where
  "sample_lru = \<lparr>lru_Get = (\<lambda>c k. (map_of c k, c)), lru_Add = (\<lambda>c k v. (k, v) # c)\<rparr>"

lemma sample_lru_ok: "lru_ok sample_lru set"
  by (auto simp: lru_ok_def sample_lru_def split: option.splits dest: map_of_SomeD)

definition balancer_options :: "string \<Rightarrow> BalancerOutboundOptions" where
  "balancer_options name = \<lparr>bo_Outbounds = [''a'', ''b''], bo_Strategy = name, bo_DelayAcceptableRatio = 3,
     bo_MaxRetry = 3\<rparr>"

lemma configured_ab: "configured [out_a, out_b]"
  by (simp add: configured_def)

section \<open>The load balancer\<close>

text \<open>
  C12. A started load balancer, whatever its strategy, never panics and never comes back without an outbound:
  along any sequence of history updates and selections every selection is one of the configured outbounds,
  and it supports the requested network whenever one of them does.
\<close>

theorem balancer_safe:
  assumes "NewLoadBalance options = Inr options" and "length (bo_Outbounds options) < 2 ^ 31"
    and "Balancer_Start cache manager options = Inr st" and "lru_ok L entries" and "entries cache = {}"
  shows "\<exists>outs sels st'. list_all2 (\<lambda>tag out. manager tag = Some out) (bo_Outbounds options) outs \<and>
    run_ops (Strategy_UpdateOutboundsInfo B) (Strategy_Select B L) ops st = Inr (sels, st') \<and>
    list_all (good_selection outs) sels"
  using Balancer_Start_inv [OF assms] group.run_ops_ok [of _ L entries st B ops] by meson

theorem balancer_safe_witness:
  "\<exists>outs sels st'. list_all2 (\<lambda>tag out. manager_ab tag = Some out) [''a'', ''b''] outs \<and>
    run_ops (Strategy_UpdateOutboundsInfo sample_blib) (Strategy_Select sample_blib sample_lru)
      [OpUpdate history_ab, OpSelect zeroInboundContext GUDP True (\<lambda>_. 7)]
      (SS (NewStickySession [] [out_a, out_b] (balancer_options StrategyStickySessions))) = Inr (sels, st') \<and>
    list_all (good_selection outs) sels"
  using balancer_safe [of "balancer_options StrategyStickySessions" "[]" manager_ab
      "SS (NewStickySession [] [out_a, out_b] (balancer_options StrategyStickySessions))" sample_lru set
      sample_blib "[OpUpdate history_ab, OpSelect zeroInboundContext GUDP True (\<lambda>_. 7)]"] sample_lru_ok
  by (simp add: NewLoadBalance_def balancer_options_def Balancer_Start_def manager_ab_def)

text \<open>
  C13. The round robin is fair: after an update from the test results, one round of selections for a network
  visits each outbound up to the acceptable index exactly once, and when the fastest outbound is acceptable
  these are exactly the outbounds whose delay is within the acceptable limit.
\<close>

theorem round_robin_fair:
  fixes net :: string
  assumes "configured outs" and "rr_inv outs s" and "RoundRobin_UpdateOutboundsInfo B history s = Inr (changed, s')"
  defines "members \<equiv> filterOutbounds outs (known_net net)"
  defines "limit \<equiv> delay_limit B (rr_delayAcceptableRatio s) history members"
  shows "\<exists>n sels s''. rr_selects n md net s' = Inr (sels, s'') \<and> n = length sels \<and>
    mset sels = image_mset Some (mset (take n (by_delay history members))) \<and>
    (getTagDelay (ob_Tag (by_delay history members ! 0)) history \<le> limit \<longrightarrow>
       mset sels = image_mset Some (mset (filter (\<lambda>out. getTagDelay (ob_Tag out) history \<le> limit) members)))"
proof -
  let ?m = "max_index B (rr_delayAcceptableRatio s) history members"
  have ne: "members \<noteq> []" using assms(1) by (simp add: members_def configured_def)
  obtain changed' where u: "RoundRobin_UpdateOutboundsInfo B history s = Inr (changed', s\<lparr>
      rr_sortedOutbounds := map (\<lambda>(net, outs). (net, by_delay history outs)) (convertOutbounds outs),
      rr_maxAcceptableIndex := map (\<lambda>(net, outs).
        (net, int (max_index B (rr_delayAcceptableRatio s) history outs))) (convertOutbounds outs)\<rparr>)"
    using RoundRobin_Update_eq [of outs s B history] assms(1,2) by (auto simp: configured_def rr_inv_def)
  have inv: "rr_inv outs s'" using rr.update_ok [OF assms(1,2), of B history] assms(3) by auto
  have s': "net_get [] (rr_sortedOutbounds s') (known_net net) = by_delay history members"
    "net_get 0 (rr_maxAcceptableIndex s') (known_net net) = int ?m"
    using u assms(3) by (auto simp: net_get_map_convert members_def)
  have n: "nat (int ?m + 1) = Suc ?m" by simp
  from rr_round [OF assms(1) inv, of net md] obtain sels s'' where
    sels: "rr_selects (Suc ?m) md net s' = Inr (sels, s'')"
      "mset sels = image_mset Some (mset (take (Suc ?m) (by_delay history members)))"
    by (auto simp only: s' n)
  have len: "Suc ?m = length sels"
    using arg_cong [OF sels(2), of size] max_index_less [OF ne, of B "rr_delayAcceptableRatio s" history] by simp
  have "take (Suc ?m) (by_delay history members) = filter (\<lambda>out. getTagDelay (ob_Tag out) history \<le> limit) (by_delay history members)"
    if "getTagDelay (ob_Tag (by_delay history members ! 0)) history \<le> limit"
    unfolding max_index_def limit_def [symmetric] using that ne
    by (intro take_last_acceptable) simp_all
  then show ?thesis using sels len by (intro exI [of _ "Suc ?m"] exI [of _ sels] exI [of _ s'']) simp
qed

theorem round_robin_fair_witness:
  "\<exists>n sels s''. rr_selects n zeroInboundContext GTCP
      (snd (projr (RoundRobin_UpdateOutboundsInfo sample_blib history_ab (NewRoundRobin [out_a, out_b] (balancer_options []))))) = Inr (sels, s'') \<and>
    mset sels = {#Some out_a, Some out_b#}"
proof -
  let ?s = "NewRoundRobin [out_a, out_b] (balancer_options [])"
  have inv: "rr_inv [out_a, out_b] ?s" by (rule rr_inv_new [OF configured_ab])
  obtain changed s' where u: "RoundRobin_UpdateOutboundsInfo sample_blib history_ab ?s = Inr (changed, s')"
    using rr.update_ok [OF configured_ab inv] by blast
  have m: "filterOutbounds [out_a, out_b] (known_net GTCP) = [out_a, out_b]"
    by (simp add: filterOutbounds_def known_net_def out_a_def out_b_def)
  have d: "getTagDelay ''a'' history_ab = 300" "getTagDelay ''b'' history_ab = 120"
    by (simp_all add: getTagDelay_def history_ab_def getModifiedDelay_def)
  have b: "by_delay history_ab [out_a, out_b] = [out_b, out_a]"
    by (simp add: by_delay_def out_a_def out_b_def d)
  have l: "delay_limit sample_blib 3 history_ab [out_a, out_b] = 360"
    by (simp add: delay_limit_def b acceptableDelay_def out_b_def d sample_blib_def fmul_def) (code_simp)
  have r: "rr_delayAcceptableRatio ?s = 3" by (simp add: NewRoundRobin_def Let_def balancer_options_def)
  have p: "getTagDelay (ob_Tag ([out_b, out_a] ! 0)) history_ab \<le> 360" by (simp add: out_b_def d)
  have f: "filter (\<lambda>out. getTagDelay (ob_Tag out) history_ab \<le> 360) [out_a, out_b] = [out_a, out_b]"
    by (simp add: out_a_def out_b_def d)
  from round_robin_fair [OF configured_ab inv u, where net = GTCP and md = zeroInboundContext]
  obtain n sels s'' where 1: "rr_selects n zeroInboundContext GTCP s' = Inr (sels, s'')"
    and 2: "mset sels = image_mset Some (mset [out_a, out_b])"
    unfolding m b r l f using p by blast
  show ?thesis by (intro exI [of _ n] exI [of _ sels] exI [of _ s'']) (simp add: u 1 2)
qed

text \<open>
  Lowest delay: after an update from the test results a selection is an outbound of the network with the
  smallest delay among them, where an untested outbound counts as a timeout, and the answer of \<open>Now\<close> is the
  one selected for \<open>tcp\<close>.
\<close>

theorem lowest_delay_minimal:
  assumes "configured outs" and "ld_inv outs s" and "LowestDelay_UpdateOutboundsInfo history s = Inr (changed, s')"
  shows "\<exists>out. LowestDelay_Select md net touch s' = Inr (Some out, s') \<and>
    out \<in> set (filterOutbounds outs (known_net net)) \<and>
    (\<forall>o'\<in>set (filterOutbounds outs (known_net net)). getTagDelay (ob_Tag out) history \<le> getTagDelay (ob_Tag o') history) \<and>
    (known_net net = GTCP \<longrightarrow> LowestDelay_Now s' = Inr (ob_Tag out))"
proof -
  have ne: "filterOutbounds outs (known_net net) \<noteq> []" using assms(1) by (simp add: configured_def)
  have s': "ld_selectedOutbound s' = fst (getMinDelay (convertOutbounds outs) history)"
    using ld_update [OF assms(1,2), of history] assms(3) by auto
  from min_delay_spec [OF ne, of history] obtain out where out: "out \<in> set (filterOutbounds outs (known_net net))"
    "\<forall>o'\<in>set (filterOutbounds outs (known_net net)). getTagDelay (ob_Tag out) history \<le> getTagDelay (ob_Tag o') history"
    and "fst (min_delay history (filterOutbounds outs (known_net net))) = Some out" by auto
  then have "net_get None (ld_selectedOutbound s') (known_net net) = Some out" by (simp add: s' getMinDelay_net)
  then show ?thesis using out by (auto simp: LowestDelay_Select_def LowestDelay_Now_def)
qed

theorem lowest_delay_minimal_witness:
  "\<exists>out s s'. LowestDelay_UpdateOutboundsInfo history_ab s = Inr (True, s') \<and>
    LowestDelay_Select zeroInboundContext GTCP True s' = Inr (Some out, s') \<and> LowestDelay_Now s' = Inr (ob_Tag out)"
proof -
  obtain s where s: "NewLowestDelay [out_a, out_b] (balancer_options []) = Inr s" "ld_inv [out_a, out_b] s"
    using ld_inv_new [OF configured_ab] by blast
  have d: "getTagDelay ''a'' history_ab = 300" "getTagDelay ''b'' history_ab = 120"
    by (simp_all add: getTagDelay_def history_ab_def getModifiedDelay_def)
  obtain s' where u: "LowestDelay_UpdateOutboundsInfo history_ab s = Inr (True, s')"
    using s(1) by (auto simp: NewLowestDelay_def Let_def LowestDelay_UpdateOutboundsInfo_def convertOutbounds_def
        filterOutbounds_def index_list_def net_get_def getMinDelay_def min_delay_def TimeoutDelay_def d out_a_def out_b_def)
  have "known_net GTCP = GTCP" by (simp add: known_net_def)
  with lowest_delay_minimal [OF configured_ab s(2) u, of zeroInboundContext GTCP True] u show ?thesis by blast
qed

text \<open>
  C14. Jump consistent hashing, in 64-bit arithmetic and \<open>float64\<close>: the loop ends, its bucket is in range, and
  with one more bucket a key keeps its bucket or moves to the new one.
\<close>

theorem jump_hash_stable:
  assumes "0 < n" and "n + 1 < 2 ^ 31"
  shows "unat (jumpHash key (word_of_nat n)) < n \<and>
    unat (jumpHash key (word_of_nat (n + 1))) \<in> {unat (jumpHash key (word_of_nat n)), n}"
  using jumpHash_bound [of n key] jumpHash_consistent [of n key] assms by auto

theorem jump_hash_stable_witness:
  "unat (jumpHash 12345 (word_of_nat 5)) < 5 \<and>
    unat (jumpHash 12345 (word_of_nat (5 + 1))) \<in> {unat (jumpHash 12345 (word_of_nat 5)), 5}"
  by (rule jump_hash_stable) simp_all

text \<open>
  Consistent hashing selects an outbound that is alive whenever the network has one, without changing
  its state.
\<close>

theorem hashing_selects_alive:
  assumes "configured outs" and "ch_inv outs g"
    and "o' \<in> set (filterOutbounds outs (known_net net))" and "ConsistentHashing_Alive g o' (known_net net)"
  shows "\<exists>out. ConsistentHashing_Select B md net touch g = Inr (Some out, g) \<and>
    out \<in> set (filterOutbounds outs (known_net net)) \<and> ConsistentHashing_Alive g out (known_net net)"
  using ch_select [OF assms(1,2), of B md net touch] assms(3,4) by blast

definition hashing_ab :: ConsistentHashing where
  "hashing_ab = \<lparr>ch_outbounds = convertOutbounds [out_a, out_b], ch_delays = [''b'' \<mapsto> 120], ch_maxRetry = 1,
     ch_maxAcceptableDelay = [(GTCP, 300)], ch_delayAcceptableRatio = 3\<rparr>"

lemma members_ab: "filterOutbounds [out_a, out_b] GTCP = [out_a, out_b]" "known_net GTCP = GTCP"
  by (simp_all add: filterOutbounds_def known_net_def out_a_def out_b_def)

theorem hashing_selects_alive_witness:
  "\<exists>out. ConsistentHashing_Select sample_blib zeroInboundContext GTCP True hashing_ab = Inr (Some out, hashing_ab) \<and>
    ob_Tag out = ''b''"
proof -
  have inv: "ch_inv [out_a, out_b] hashing_ab" by (simp add: ch_inv_def hashing_ab_def)
  have al: "ConsistentHashing_Alive hashing_ab out (known_net GTCP) \<longleftrightarrow> ob_Tag out = ''b''" for out
    by (simp add: ConsistentHashing_Alive_def net_get_def hashing_ab_def members_ab)
  have "out_b \<in> set (filterOutbounds [out_a, out_b] (known_net GTCP))" by (simp add: members_ab)
  from hashing_selects_alive [OF configured_ab inv this, of sample_blib zeroInboundContext True] show ?thesis
    unfolding al by (auto simp: out_b_def)
qed

text \<open>
  A sticky session whose cached outbound is alive stays on it, whatever the clock says, and only
  refreshes its entry of the cache.
\<close>

theorem sticky_session_stays:
  assumes "configured outs" and "ss_inv L entries outs s" and "1 < ss_maxRetry s"
    and "lru_Get L (ss_lruCache s) (Hash B (getKeyWithSrcAndDst B md)) = (Some i, cache)"
    and "i < int (length (filterOutbounds outs (known_net net)))"
    and "StickySession_Alive s (filterOutbounds outs (known_net net) ! nat i) (known_net net)"
  shows "StickySession_Select B L now md net touch s
      = Inr (Some (filterOutbounds outs (known_net net) ! nat i), s\<lparr>ss_lruCache := cache\<rparr>)"
  using ss_sticky [OF assms(1,2,4-6,3)] .

definition sticky_ab :: "(64 word \<times> int) list StickySession" where
  "sticky_ab = \<lparr>ss_outbounds = convertOutbounds [out_a, out_b], ss_maxRetry = 2, ss_delays = [''b'' \<mapsto> 120],
     ss_maxAcceptableDelay = [(GTCP, 300)], ss_delayAcceptableRatio = 3,
     ss_lruCache = [(Hash sample_blib (getKeyWithSrcAndDst sample_blib zeroInboundContext), 1)]\<rparr>"

theorem sticky_session_stays_witness:
  "StickySession_Select sample_blib sample_lru (\<lambda>_. 0) zeroInboundContext GTCP True sticky_ab = Inr (Some out_b, sticky_ab)"
proof -
  have inv: "ss_inv sample_lru set [out_a, out_b] sticky_ab" by (simp add: ss_inv_def sticky_ab_def sample_lru_ok)
  have get: "lru_Get sample_lru (ss_lruCache sticky_ab) (Hash sample_blib (getKeyWithSrcAndDst sample_blib zeroInboundContext))
      = (Some 1, ss_lruCache sticky_ab)" by (simp add: sample_lru_def sticky_ab_def)
  have al: "StickySession_Alive sticky_ab ([out_a, out_b] ! nat 1) GTCP"
    by (simp add: StickySession_Alive_def net_get_def sticky_ab_def out_b_def)
  have keep: "sticky_ab\<lparr>ss_lruCache := ss_lruCache sticky_ab\<rparr> = sticky_ab" by (simp add: sticky_ab_def)
  have "1 < ss_maxRetry sticky_ab" by (simp add: sticky_ab_def)
  from sticky_session_stays [OF configured_ab inv this get, of GTCP "\<lambda>_. 0" True] al
  show ?thesis by (simp add: members_ab keep)
qed

section \<open>The URL test group\<close>


definition group_ab :: URLTestGroup where
  "group_ab = projr (NewURLTestGroup [out_a, out_b] 0 0 0)"

lemma group_ab_fields [simp]:
  "ug_outbounds group_ab = [out_a, out_b]" "ug_tolerance group_ab = 50" "ug_checking group_ab = False"
  "ug_selectedOutboundTCP group_ab = None" "ug_selectedOutboundUDP group_ab = None"
  by (simp_all add: group_ab_def NewURLTestGroup_def DefaultURLTestInterval_def DefaultURLTestIdleTimeout_def)


text \<open>
  C16. A forced round of tests does not panic and gives the same storage of delays whatever the order in which
  the tests finish: every member whose real outbound is known has its new delay, a failed one that of a
  timeout. The selections stay members of the group that support their network, and there is one for each
  network that some member supports.
\<close>

theorem url_test_round:
  assumes "no_nil H" and "\<not> ug_checking g" and "ut_inv g" and "\<And>targets. mset (order targets) = mset targets"
  shows "\<exists>H' g' result updated. urlTest Now manager test clock finished order True H g = Inr (H', g', result, updated) \<and>
    no_nil H' \<and> ut_inv g' \<and>
    (\<forall>detour p. detour \<in> set (ug_outbounds g) \<longrightarrow> manager (RealTag Now detour) = Some p \<longrightarrow>
      map_option his_Delay (LoadURLTestHistory H' (RealTag Now detour)) = Some (outcome (test p))) \<and>
    (\<forall>net out. net \<in> {GTCP, GUDP} \<longrightarrow> out \<in> set (ug_outbounds g) \<longrightarrow> supports net out \<longrightarrow> selected_for g' net \<noteq> None)"
proof -
  from urlTest_forced [OF assms(1,2,4), of Now manager test clock finished] obtain H' g' result updated where
    1: "urlTest Now manager test clock finished order True H g = Inr (H', g', result, updated)" "no_nil H'"
      "performUpdateCheck H' Now g = (g', updated)"
    and 2: "\<forall>detour\<in>set (ug_outbounds g). \<forall>p. manager (RealTag Now detour) = Some p \<longrightarrow>
      (\<exists>h. LoadURLTestHistory H' (RealTag Now detour) = Some h \<and> his_Delay h = outcome (test p) \<and>
         his_Time h = finished (RealTag Now detour))"
    by blast
  note inv = performUpdateCheck_inv [OF assms(3) 1(3)]
  have "\<forall>net out. net \<in> {GTCP, GUDP} \<longrightarrow> out \<in> set (ug_outbounds g) \<longrightarrow> supports net out \<longrightarrow> selected_for g' net \<noteq> None"
    using inv(2) by blast
  moreover have "\<forall>detour p. detour \<in> set (ug_outbounds g) \<longrightarrow> manager (RealTag Now detour) = Some p \<longrightarrow>
      map_option his_Delay (LoadURLTestHistory H' (RealTag Now detour)) = Some (outcome (test p))"
    using 2 by fastforce
  ultimately show ?thesis using 1 inv(1) by blast
qed

definition test_ab :: "outbound \<Rightarrow> 16 word result" where
  "test_ab p = (if ob_Tag p = ''a'' then Inr 300 else Inl (E_Lib ''i/o timeout''))"

theorem url_test_round_witness:
  "\<exists>H' g' result updated. urlTest (\<lambda>_. None) manager_ab test_ab (\<lambda>_. 0) (\<lambda>_. 1) rev True (Map.empty :: unit storage) group_ab
      = Inr (H', g', result, updated) \<and>
    map_option his_Delay (LoadURLTestHistory H' ''a'') = Some 300 \<and>
    map_option his_Delay (LoadURLTestHistory H' ''b'') = Some 65535 \<and> selected_for g' GUDP \<noteq> None"
proof -
  have "ut_inv group_ab" by (simp add: ut_inv_def selected_for_def)
  moreover have "no_nil (Map.empty :: unit storage)" by (simp add: no_nil_def)
  ultimately obtain H' g' result updated where
    1: "urlTest (\<lambda>_. None) manager_ab test_ab (\<lambda>_. 0) (\<lambda>_. 1) rev True (Map.empty :: unit storage) group_ab
      = Inr (H', g', result, updated)"
    and 2: "\<And>detour p. detour \<in> set (ug_outbounds group_ab) \<Longrightarrow> manager_ab (RealTag (\<lambda>_. None) detour) = Some p \<Longrightarrow>
      map_option his_Delay (LoadURLTestHistory H' (RealTag (\<lambda>_. None) detour)) = Some (outcome (test_ab p))"
    and 3: "\<And>net out. net \<in> {GTCP, GUDP} \<Longrightarrow> out \<in> set (ug_outbounds group_ab) \<Longrightarrow> supports net out \<Longrightarrow> selected_for g' net \<noteq> None"
    using url_test_round [of "Map.empty :: unit storage" group_ab rev "\<lambda>_. None" manager_ab test_ab "\<lambda>_. 0" "\<lambda>_. 1"]
    by fastforce
  have a: "map_option his_Delay (LoadURLTestHistory H' ''a'') = Some 300"
    using 2 [of out_a out_a] by (simp add: RealTag_def out_a_def manager_ab_def outcome_def test_ab_def)
  have b: "map_option his_Delay (LoadURLTestHistory H' ''b'') = Some 65535"
    using 2 [of out_b out_b] by (simp add: RealTag_def out_b_def manager_ab_def outcome_def test_ab_def)
  have "selected_for g' GUDP \<noteq> None" using 3 [of GUDP out_a] by (simp add: supports_def out_a_def)
  with 1 a b show ?thesis by blast
qed

text \<open>
  A failed outbound is selected: the delay recorded for it is 65535, and its 16-bit sum with the tolerance
  wraps around to less than the delay of the working outbound before it. After a forced round in which the
  first of two outbounds answers in \<open>d\<close> milliseconds, at least the tolerance, and the second one fails, the
  group has the failed one selected.
\<close>

theorem url_test_selects_failed:
  assumes "no_nil H" and "\<not> ug_checking g" and "\<And>targets. mset (order targets) = mset targets"
    and "ug_outbounds g = [a, b]" and "supports GTCP a" and "supports GTCP b"
    and "ug_selectedOutboundTCP g \<in> {None, Some a}" and "Now (ob_Tag a) = None" and "Now (ob_Tag b) = None"
    and "manager (ob_Tag a) = Some a" and "manager (ob_Tag b) = Some b" and "test a = Inr d" and "test b = Inl err"
    and "ug_tolerance g \<noteq> 0" and "ug_tolerance g \<le> d" and "unat d + unat (ug_tolerance g) < 2 ^ 16" and "a \<noteq> b"
  shows "\<exists>H' g' result updated. urlTest Now manager test clock finished order True H g = Inr (H', g', result, updated) \<and>
    ug_selectedOutboundTCP g' = Some b"
proof -
  from urlTest_forced [OF assms(1-3), of Now manager test clock finished] obtain H' g' result updated where
    1: "urlTest Now manager test clock finished order True H g = Inr (H', g', result, updated)"
      "performUpdateCheck H' Now g = (g', updated)"
    and 2: "\<forall>detour\<in>set (ug_outbounds g). \<forall>p. manager (RealTag Now detour) = Some p \<longrightarrow>
      (\<exists>h. LoadURLTestHistory H' (RealTag Now detour) = Some h \<and> his_Delay h = outcome (test p) \<and>
         his_Time h = finished (RealTag Now detour))"
    by blast
  have r: "RealTag Now a = ob_Tag a" "RealTag Now b = ob_Tag b" using assms(8,9) by (simp_all add: RealTag_def)
  obtain ha hb where h: "LoadURLTestHistory H' (RealTag Now a) = Some ha" "his_Delay ha = d"
      "LoadURLTestHistory H' (RealTag Now b) = Some hb" "his_Delay hb = 65535"
    using 2 assms(4,10-13) by (auto simp: r outcome_def)
  have "URLTestGroup_Select H' Now g GTCP = (Some b, True)"
    using Select_failed [OF assms(4-6) _ h(1,3,4) assms(14)] assms(7,15,16) h(2) by (auto simp: selected_for_def)
  then have "ug_selectedOutboundTCP g' = Some b"
    using performUpdateCheck_fields [OF 1(2)] assms(7,17) by (auto simp: update_selected_def)
  then show ?thesis using 1(1) by blast
qed

theorem url_test_selects_failed_witness:
  "\<exists>H' g' result updated. urlTest (\<lambda>_. None) manager_ab test_ab (\<lambda>_. 0) (\<lambda>_. 1) (\<lambda>ts. ts) True (Map.empty :: unit storage) group_ab
      = Inr (H', g', result, updated) \<and> ug_selectedOutboundTCP g' = Some out_b"
  by (rule url_test_selects_failed [where a = out_a and b = out_b and d = 300 and err = "E_Lib ''i/o timeout''"])
    (simp_all add: no_nil_def supports_def out_a_def out_b_def manager_ab_def test_ab_def)

section \<open>The selector\<close>

text \<open>
  C17. A selector survives a restart: after a start and any sequence of selections, with a cache file that can be
  written, starting a fresh selector with the same options from that file selects the same outbound, which is
  one of the configured ones.
\<close>

theorem selector_restart:
  assumes "NewSelector tag options = Inr s0" and "Selector_Start manager (Some db) s0 = Inr s"
    and "tag \<noteq> []" and "[] \<notin> set (so_Outbounds options)"
  shows "\<exists>s' db'. select_all Now manager ts s (Some db) = (s', Some db') \<and> Selector_Start manager (Some db') s0 = Inr s' \<and>
    selector_inv manager s'"
proof -
  note inv = Selector_Start_inv [OF assms(1,2)]
  have fresh: "s\<lparr>sel_outbounds := Map.empty, sel_selected := None\<rparr> = s0"
    by (rule New_fresh [OF assms(1) inv(2-4)])
  have "restart_selects manager s db" using assms(2) by (simp add: restart_selects_def fresh)
  from select_all_restart [OF inv(1) _ _ this, of Now ts] assms(3,4) obtain s' db' where
    1: "select_all Now manager ts s (Some db) = (s', Some db')" "restart_selects manager s' db'" "selector_inv manager s'"
      "sel_tag s' = tag" "sel_tags s' = so_Outbounds options" "sel_defaultTag s' = so_Default options"
    unfolding inv(2-4) by blast
  from 1(2) have "Selector_Start manager (Some db') s0 = Inr s'"
    unfolding restart_selects_def New_fresh [OF assms(1) 1(4-6)] .
  then show ?thesis using 1(1,3) by blast
qed

definition selector_ab :: Selector where
  "selector_ab = projr (NewSelector ''select'' \<lparr>so_Outbounds = [''a'', ''b''], so_Default = ''a''\<rparr>)"

theorem selector_restart_witness:
  "\<exists>s s' db'. Selector_Start manager_ab (Some Map.empty) selector_ab = Inr s \<and>
    select_all (\<lambda>_. None) manager_ab [''b'', ''c''] s (Some Map.empty) = (s', Some db') \<and>
    Selector_Start manager_ab (Some db') selector_ab = Inr s' \<and> Selector_Now s' = Inr ''b''"
proof -
  let ?o = "\<lparr>so_Outbounds = [''a'', ''b''], so_Default = ''a''\<rparr>"
  have n: "NewSelector ''select'' ?o = Inr selector_ab" by (simp add: selector_ab_def NewSelector_def)
  obtain s where s: "Selector_Start manager_ab (Some Map.empty) selector_ab = Inr s"
    by (simp add: selector_ab_def NewSelector_def Selector_Start_def manager_ab_def cached_selection_def LoadSelected_def Let_def)
  from selector_restart [OF n s, of "\<lambda>_. None" "[''b'', ''c'']"] obtain s' db' where
    1: "select_all (\<lambda>_. None) manager_ab [''b'', ''c''] s (Some Map.empty) = (s', Some db')" "Selector_Start manager_ab (Some db') selector_ab = Inr s'"
    by auto
  have "Selector_Now s' = Inr ''b''" using s 1(1)
    by (auto simp: selector_ab_def NewSelector_def Selector_Start_def manager_ab_def cached_selection_def LoadSelected_def Let_def
        SelectOutbound_def swap_selected_def Selector_Now_def out_a_def out_b_def split: if_splits)
  with s 1 show ?thesis by blast
qed

end
