(* ===== verification/DNS_Message.thy ===== *)
theory DNS_Message
  imports Rule_Actions Binary_IO
begin

text \<open>
  DNS messages as the client and the router handle them (package \<open>dns\<close> of \<open>github.com/miekg/dns\<close>), the fixed
  answers of \<open>dns/client.go\<close>, the addresses of an answer, the client subnet of
  \<open>dns/extension_edns0_subnet.go\<close> and the blocked addresses of \<open>dns/blocked_checker.go\<close>.
\<close>

section \<open>Messages\<close>

datatype edns_option =
    EDNS0_SUBNET (es_Family: "16 word") (es_SourceNetmask: "8 word") (es_SourceScope: "8 word") (es_Address: bytes)
  | EDNS0_Other "16 word" bytes

text \<open>A value of an HTTPS record: its key and its text.\<close>

type_synonym svcb_value = "16 word \<times> string"

datatype rdata =
    RD_A bytes | RD_AAAA bytes | RD_CNAME string | RD_SOA "32 word" | RD_HTTPS "svcb_value list"
  | RD_OPT "edns_option list" | RD_TXT "string list" | RD_MX "16 word" string | RD_Other bytes

record rr_body =
  hdr_Rrtype :: "16 word"
  hdr_Class :: "16 word"
  hdr_Ttl :: "32 word"
  hdr_data :: rdata

type_synonym dns_rr = "rr_body RR"
type_synonym qtype = "16 word"
type_synonym dns_msg = "(qtype \<times> 16 word, rr_body) Msg"
type_synonym question = "string \<times> qtype \<times> 16 word"

abbreviation (input) TypeA :: qtype where "TypeA \<equiv> 1"
abbreviation (input) TypeCNAME :: qtype where "TypeCNAME \<equiv> 5"
abbreviation (input) TypeAAAA :: qtype where "TypeAAAA \<equiv> 28"
abbreviation (input) TypeOPT :: qtype where "TypeOPT \<equiv> 41"
abbreviation (input) TypeHTTPS :: qtype where "TypeHTTPS \<equiv> 65"
abbreviation (input) ClassINET :: "16 word" where "ClassINET \<equiv> 1"
abbreviation (input) RcodeSuccess :: int where "RcodeSuccess \<equiv> 0"
abbreviation (input) RcodeFormatError :: int where "RcodeFormatError \<equiv> 1"
abbreviation (input) RcodeNameError :: int where "RcodeNameError \<equiv> 3"
abbreviation (input) RcodeRefused :: int where "RcodeRefused \<equiv> 5"
abbreviation (input) SVCB_IPV4HINT :: "16 word" where "SVCB_IPV4HINT \<equiv> 4"
abbreviation (input) SVCB_IPV6HINT :: "16 word" where "SVCB_IPV6HINT \<equiv> 6"

definition rr_Ttl :: "dns_rr \<Rightarrow> 32 word" where "rr_Ttl r = hdr_Ttl (rr_rest r)"
definition rr_type :: "dns_rr \<Rightarrow> qtype" where "rr_type r = hdr_Rrtype (rr_rest r)"
definition rr_data :: "dns_rr \<Rightarrow> rdata" where "rr_data r = hdr_data (rr_rest r)"

definition set_Ttl :: "32 word \<Rightarrow> dns_rr \<Rightarrow> dns_rr" where
  "set_Ttl ttl r = r\<lparr>rr_rest := (rr_rest r)\<lparr>hdr_Ttl := ttl\<rparr>\<rparr>"

lemma set_Ttl_simps [simp]: "rr_Ttl (set_Ttl ttl r) = ttl" "rr_type (set_Ttl ttl r) = rr_type r" "rr_data (set_Ttl ttl r) = rr_data r"
  "set_Ttl ttl (set_Ttl ttl' r) = set_Ttl ttl r"
  by (simp_all add: set_Ttl_def rr_Ttl_def rr_type_def rr_data_def)

text \<open>The loops over \<open>[][]dns.RR{response.Answer, response.Ns, response.Extra}\<close>.\<close>

definition msg_records :: "dns_msg \<Rightarrow> dns_rr list" where
  "msg_records m = msg_Answer m @ msg_Ns m @ msg_Extra m"

definition map_records :: "(dns_rr \<Rightarrow> dns_rr) \<Rightarrow> dns_msg \<Rightarrow> dns_msg" where
  "map_records f m = m\<lparr>msg_Answer := map f (msg_Answer m), msg_Ns := map f (msg_Ns m), msg_Extra := map f (msg_Extra m)\<rparr>"

lemma records_map [simp]: "msg_records (map_records f m) = map f (msg_records m)"
  by (simp add: msg_records_def map_records_def)

lemma map_records_keeps [simp]:
  "msg_Id (map_records f m) = msg_Id m" "msg_Rcode (map_records f m) = msg_Rcode m"
  "msg_Question (map_records f m) = msg_Question m" "msg_Answer (map_records f m) = map f (msg_Answer m)"
  by (simp_all add: map_records_def)

text \<open>The errors of the DNS client and of the DNS router: \<open>ErrDropped\<close> is \<open>tun.ErrDrop\<close>, \<open>DNSCause\<close> is \<open>E.Cause\<close>.\<close>

datatype dns_error =
    RcodeError int | ErrResponseRejected | ErrResponseRejectedCached | ErrNotCached
  | ErrDropped | RejectedError "reject_cause option" | DNSFail error | DNSCause dns_error "farg list"

text \<open>\<open>errors.As\<close> for a \<open>RcodeError\<close> and \<open>errors.Is\<close> for \<open>ErrResponseRejected\<close>, through the wrappers; the cached variant
  extends \<open>ErrResponseRejected\<close>.\<close>

fun as_rcode :: "dns_error \<Rightarrow> int option" where
  "as_rcode (RcodeError rcode) = Some rcode"
| "as_rcode (DNSCause e _) = as_rcode e"
| "as_rcode _ = None"

fun is_rejected :: "dns_error \<Rightarrow> bool" where
  "is_rejected ErrResponseRejected = True"
| "is_rejected ErrResponseRejectedCached = True"
| "is_rejected (DNSCause e _) = is_rejected e"
| "is_rejected _ = False"

section \<open>Fixed answers\<close>

definition FixedResponseStatus :: "dns_msg \<Rightarrow> int \<Rightarrow> dns_msg" where
  "FixedResponseStatus message rcode =
     \<lparr>msg_Id = msg_Id message, msg_Response = True, msg_Authoritative = True, msg_RecursionDesired = True,
      msg_RecursionAvailable = True, msg_Rcode = rcode, msg_Question = msg_Question message,
      msg_Answer = [], msg_Ns = [], msg_Extra = []\<rparr>"

definition fixed_header :: "16 word \<Rightarrow> question \<Rightarrow> dns_rr list \<Rightarrow> dns_msg" where
  "fixed_header ident q answer =
     \<lparr>msg_Id = ident, msg_Response = True, msg_Authoritative = True, msg_RecursionDesired = True,
      msg_RecursionAvailable = True, msg_Rcode = RcodeSuccess, msg_Question = [q],
      msg_Answer = answer, msg_Ns = [], msg_Extra = []\<rparr>"

definition new_rr :: "string \<Rightarrow> qtype \<Rightarrow> 32 word \<Rightarrow> rdata \<Rightarrow> dns_rr" where
  "new_rr name ty ttl d = \<lparr>rr_Name = name, rr_rest = \<lparr>hdr_Rrtype = ty, hdr_Class = ClassINET, hdr_Ttl = ttl, hdr_data = d\<rparr>\<rparr>"

definition FixedResponse :: "16 word \<Rightarrow> question \<Rightarrow> addr list \<Rightarrow> 32 word \<Rightarrow> dns_msg" where
  "FixedResponse ident q addresses timeToLive =
     (case q of (name, ty, cls) \<Rightarrow>
        fixed_header ident q (concat (map (\<lambda>address.
          if Addr_Is4 address \<and> ty = TypeA then [new_rr name TypeA timeToLive (RD_A (AsSlice address))]
          else if Addr_Is6 address \<and> ty = TypeAAAA then [new_rr name TypeAAAA timeToLive (RD_AAAA (AsSlice address))]
          else []) addresses)))"

definition FixedResponseCNAME :: "16 word \<Rightarrow> question \<Rightarrow> string \<Rightarrow> 32 word \<Rightarrow> dns_msg" where
  "FixedResponseCNAME ident q target timeToLive =
     fixed_header ident q [new_rr (fst q) TypeCNAME timeToLive (RD_CNAME target)]"

definition FixedResponseTXT :: "16 word \<Rightarrow> question \<Rightarrow> string list \<Rightarrow> 32 word \<Rightarrow> dns_msg" where
  "FixedResponseTXT ident q records timeToLive =
     fixed_header ident q [new_rr (fst q) TypeA timeToLive (RD_TXT records)]"

definition FixedResponseMX :: "16 word \<Rightarrow> question \<Rightarrow> (16 word \<times> string) list \<Rightarrow> 32 word \<Rightarrow> dns_msg" where
  "FixedResponseMX ident q records timeToLive =
     fixed_header ident q (map (\<lambda>(pref, host). new_rr (fst q) TypeA timeToLive (RD_MX pref host)) records)"

section \<open>Addresses of an answer\<close>

text \<open>
  Functions of other packages: \<open>AddrFromIP\<close> and \<open>ParseAddr\<close> of package \<open>metadata\<close> of \<open>sing\<close>; the names and the
  EDNS0 record of \<open>miekg/dns\<close>; \<open>GroupError\<close> is the error of a \<open>task.Group\<close> whose tasks failed with the given
  errors.
\<close>

record dns_lib =
  AddrFromIP :: "bytes \<Rightarrow> addr"
  dl_ParseAddr :: "string \<Rightarrow> addr"
  dl_IsFqdn :: "string \<Rightarrow> bool"
  dl_Fqdn :: "string \<Rightarrow> string"
  IsEdns0 :: "dns_msg \<Rightarrow> dns_rr option"
  SetEdns0 :: "dns_msg \<Rightarrow> 16 word \<Rightarrow> bool \<Rightarrow> dns_msg"
  OPT_Version :: "dns_rr \<Rightarrow> 8 word"
  OPT_UDPSize :: "dns_rr \<Rightarrow> 16 word"
  OPT_Do :: "dns_rr \<Rightarrow> bool"
  GroupError :: "dns_error list \<Rightarrow> dns_error"

definition record_addresses :: "dns_lib \<Rightarrow> dns_rr \<Rightarrow> addr list" where
  "record_addresses D r =
     (case rr_data r of
        RD_A ip \<Rightarrow> [AddrFromIP D ip]
      | RD_AAAA ip \<Rightarrow> [AddrFromIP D ip]
      | RD_HTTPS values \<Rightarrow>
          concat (map (\<lambda>(key, text). if key = SVCB_IPV4HINT \<or> key = SVCB_IPV6HINT
            then map (dl_ParseAddr D) (split_byte (CHR '','') text) else []) values)
      | _ \<Rightarrow> [])"

definition MessageToAddresses :: "dns_lib \<Rightarrow> dns_msg \<Rightarrow> addr list" where
  "MessageToAddresses D response =
     (if msg_Rcode response \<noteq> RcodeSuccess then [] else concat (map (record_addresses D) (msg_Answer response)))"

definition FqdnToDomain :: "dns_lib \<Rightarrow> string \<Rightarrow> string" where
  "FqdnToDomain D fqdn = (if dl_IsFqdn D fqdn then take (length fqdn - 1) fqdn else fqdn)"

text \<open>A fixed answer gives its addresses back, those of the family that was asked for.\<close>

lemma MessageToAddresses_Fixed:
  assumes "\<And>a. a \<in> set addresses \<Longrightarrow> AddrFromIP D (AsSlice a) = a"
  shows "MessageToAddresses D (FixedResponse ident (name, ty, cls) addresses ttl) =
    filter (\<lambda>a. (Addr_Is4 a \<and> ty = TypeA) \<or> (Addr_Is6 a \<and> ty = TypeAAAA)) addresses"
  using assms
  by (induction addresses)
    (auto simp: FixedResponse_def fixed_header_def MessageToAddresses_def record_addresses_def new_rr_def rr_data_def)

section \<open>The client subnet\<close>

definition is_subnet :: "edns_option \<Rightarrow> bool" where
  "is_subnet o' = (case o' of EDNS0_SUBNET _ _ _ _ \<Rightarrow> True | _ \<Rightarrow> False)"

fun index_where :: "('a \<Rightarrow> bool) \<Rightarrow> 'a list \<Rightarrow> nat option" where
  "index_where P [] = None"
| "index_where P (x # xs) = (if P x then Some 0 else map_option Suc (index_where P xs))"

text \<open>The loop \<open>findExists\<close>: the last record decides whether there is an OPT record, unless one with a subnet
  option ends the loop.\<close>

fun find_opt :: "nat \<Rightarrow> dns_rr list \<Rightarrow> nat option \<Rightarrow> nat option \<times> nat option" where
  "find_opt i [] opt = (opt, None)"
| "find_opt i (r # rs) opt =
     (case rr_data r of
        RD_OPT options \<Rightarrow>
          (case index_where is_subnet options of
             Some j \<Rightarrow> (Some i, Some j)
           | None \<Rightarrow> find_opt (Suc i) rs (Some i))
      | _ \<Rightarrow> find_opt (Suc i) rs None)"

text \<open>\<open>uint8(clientSubnet.Bits())\<close>, where \<open>Bits\<close> is -1 for the zero prefix.\<close>

definition prefix_bits8 :: "Prefix \<Rightarrow> 8 word" where
  "prefix_bits8 p = (case pf_bits p of Some n \<Rightarrow> word_of_nat n | None \<Rightarrow> 255)"

definition subnet_fields :: "Prefix \<Rightarrow> edns_option \<Rightarrow> edns_option" where
  "subnet_fields p o' =
     (case o' of
        EDNS0_SUBNET _ _ scope _ \<Rightarrow>
          EDNS0_SUBNET (if Addr_Is4 (pf_Addr p) then 1 else 2) (prefix_bits8 p) scope (AsSlice (pf_Addr p))
      | _ \<Rightarrow> o')"

definition set_subnet :: "Prefix \<Rightarrow> nat option \<Rightarrow> rdata \<Rightarrow> rdata" where
  "set_subnet p sub d =
     (case d of
        RD_OPT options \<Rightarrow>
          RD_OPT (case sub of
                    Some j \<Rightarrow> options[j := subnet_fields p (options ! j)]
                  | None \<Rightarrow> options @ [subnet_fields p (EDNS0_SUBNET 0 0 0 [])])
      | _ \<Rightarrow> d)"

definition SetClientSubnet :: "dns_msg \<Rightarrow> Prefix \<Rightarrow> dns_msg" where
  "SetClientSubnet message clientSubnet =
     (case find_opt 0 (msg_Extra message) None of
        (None, sub) \<Rightarrow>
          message\<lparr>msg_Extra := msg_Extra message @ [\<lparr>rr_Name = ''.'', rr_rest =
            \<lparr>hdr_Rrtype = TypeOPT, hdr_Class = 0, hdr_Ttl = 0, hdr_data = set_subnet clientSubnet None (RD_OPT [])\<rparr>\<rparr>]\<rparr>
      | (Some i, sub) \<Rightarrow>
          message\<lparr>msg_Extra := (msg_Extra message)[i := (msg_Extra message ! i)\<lparr>rr_rest :=
            (rr_rest (msg_Extra message ! i))\<lparr>hdr_data := set_subnet clientSubnet sub (rr_data (msg_Extra message ! i))\<rparr>\<rparr>]\<rparr>)"

section \<open>Blocked addresses\<close>

definition blockedPrefixes :: "Prefix list" where
  "blockedPrefixes = [\<lparr>pf_Addr = Addr4 0x0A000000, pf_bits = Some 8\<rparr>,
     \<lparr>pf_Addr = Addr6 0x20014188000206000000000000000000 [], pf_bits = Some 64\<rparr>]"

definition IsBlockedIP :: "addr \<Rightarrow> bool" where
  "IsBlockedIP ip \<longleftrightarrow> \<not> Addr_IsValid ip \<or> list_ex (\<lambda>p. Prefix_Contains p ip) blockedPrefixes"

definition FilterBlocked :: "addr list \<Rightarrow> addr list" where
  "FilterBlocked addrs = filter (\<lambda>ip. \<not> IsBlockedIP ip) addrs"

end
