(* ===== verification/DNS_Client.thy ===== *)
theory DNS_Client
  imports DNS_Message Float64
begin

text \<open>
  The DNS client (\<open>dns/client.go\<close>): the response cache with its lifetimes, the store of rejected responses, one
  exchange with a transport and the lookup of addresses. Times are in nanoseconds. The client makes one of two
  caches, keyed by the question or by the question and the tag of the transport; here it is one cache whose
  keys have the tag or not. An exchange is one step: a query that finds another one for the same question under
  way waits for it first, and the outcome of the wait is part of the context of the query.
\<close>

section \<open>Options and state\<close>

abbreviation (input) DomainStrategyAsIS :: DomainStrategy where "DomainStrategyAsIS \<equiv> 0"
abbreviation (input) DomainStrategyPreferIPv6 :: DomainStrategy where "DomainStrategyPreferIPv6 \<equiv> 2"
abbreviation (input) DomainStrategyIPv4Only :: DomainStrategy where "DomainStrategyIPv4Only \<equiv> 3"
abbreviation (input) DomainStrategyIPv6Only :: DomainStrategy where "DomainStrategyIPv6Only \<equiv> 4"

record DNSTransport =
  tr_Tag :: string
  tr_Type :: string
  tr_Legacy :: "(DomainStrategy \<times> Prefix) option"
  tr_Exchange :: "dns_msg \<Rightarrow> dns_error + dns_msg"

record DNSQueryOptions =
  qo_Transport :: "DNSTransport option"
  qo_Strategy :: DomainStrategy
  qo_LookupStrategy :: DomainStrategy
  qo_DisableCache :: bool
  qo_RewriteTTL :: "32 word option"
  qo_ClientSubnet :: Prefix

text \<open>The LRU cache is \<open>freelru.ShardedLRU\<close>; its operations take the time at which they are called.\<close>

type_synonym cache_key = "question \<times> string option"

record 'c dns_cache =
  dc_Get :: "int \<Rightarrow> 'c \<Rightarrow> cache_key \<Rightarrow> dns_msg option \<times> 'c"
  dc_GetWithLifetime :: "int \<Rightarrow> 'c \<Rightarrow> cache_key \<Rightarrow> (dns_msg \<times> int) option \<times> 'c"
  dc_Add :: "int \<Rightarrow> 'c \<Rightarrow> cache_key \<Rightarrow> dns_msg \<Rightarrow> 'c"
  dc_AddWithLifetime :: "int \<Rightarrow> 'c \<Rightarrow> cache_key \<Rightarrow> dns_msg \<Rightarrow> duration \<Rightarrow> 'c"
  dc_Remove :: "'c \<Rightarrow> cache_key \<Rightarrow> 'c"
  dc_Purge :: "'c \<Rightarrow> 'c"

record 'c Client =
  cl_disableCache :: bool
  cl_disableExpire :: bool
  cl_independentCache :: bool
  cl_clientSubnet :: Prefix
  cl_rdrc :: "(string \<times> string \<times> qtype) list option"
  cl_cache :: 'c

record ClientOptions =
  co_DisableCache :: bool
  co_DisableExpire :: bool
  co_IndependentCache :: bool
  co_ClientSubnet :: Prefix
  co_RDRC :: bool

definition NewClient :: "'c \<Rightarrow> ClientOptions \<Rightarrow> 'c Client" where
  "NewClient empty_cache options =
     \<lparr>cl_disableCache = co_DisableCache options, cl_disableExpire = co_DisableExpire options,
      cl_independentCache = co_IndependentCache options, cl_clientSubnet = co_ClientSubnet options,
      cl_rdrc = None, cl_cache = empty_cache\<rparr>"

text \<open>\<open>Start\<close> asks for the store of rejected responses; \<open>stored\<close> are its entries.\<close>

definition Client_Start :: "ClientOptions \<Rightarrow> (string \<times> string \<times> qtype) list \<Rightarrow> 'c Client \<Rightarrow> 'c Client" where
  "Client_Start options stored c = (if co_RDRC options then c\<lparr>cl_rdrc := Some stored\<rparr> else c)"

definition cache_key :: "'c Client \<Rightarrow> question \<Rightarrow> string \<Rightarrow> cache_key" where
  "cache_key c q tag = (q, if cl_independentCache c then Some tag else None)"

section \<open>Time to live\<close>

definition extractNegativeTTL :: "dns_msg \<Rightarrow> 32 word option" where
  "extractNegativeTTL response =
     (case find (\<lambda>r. case rr_data r of RD_SOA _ \<Rightarrow> True | _ \<Rightarrow> False) (msg_Ns response) of
        None \<Rightarrow> None
      | Some soa \<Rightarrow>
          (case rr_data soa of
             RD_SOA soaMinimum \<Rightarrow> Some (if rr_Ttl soa < soaMinimum then rr_Ttl soa else soaMinimum)
           | _ \<Rightarrow> None))"

definition smaller_ttl :: "32 word \<Rightarrow> dns_rr \<Rightarrow> 32 word" where
  "smaller_ttl ttl r = (if ttl = 0 \<or> rr_Ttl r > 0 \<and> rr_Ttl r < ttl then rr_Ttl r else ttl)"

definition response_ttl :: "DNSQueryOptions \<Rightarrow> dns_msg \<Rightarrow> 32 word" where
  "response_ttl options response =
     (let negative = (if msg_Answer response = [] then
                        (case extractNegativeTTL response of Some ttl \<Rightarrow> ttl | None \<Rightarrow> 0) else 0);
          timeToLive = (if negative = 0 then foldl smaller_ttl 0 (msg_records response) else negative) in
      case qo_RewriteTTL options of Some ttl \<Rightarrow> ttl | None \<Rightarrow> timeToLive)"

section \<open>The cache\<close>

text \<open>The message that is stored is the pointer the exchange goes on to finish, so the cache has the finished
  response.\<close>

definition storeCache ::
  "'c dns_cache \<Rightarrow> int \<Rightarrow> string \<Rightarrow> question \<Rightarrow> dns_msg \<Rightarrow> 32 word \<Rightarrow> 'c Client \<Rightarrow> 'c Client" where
  "storeCache K now tag q message timeToLive c =
     (if timeToLive = 0 then c
      else if cl_disableExpire c then c\<lparr>cl_cache := dc_Add K now (cl_cache c) (cache_key c q tag) message\<rparr>
      else c\<lparr>cl_cache := dc_AddWithLifetime K now (cl_cache c) (cache_key c q tag) message
               (1000000000 * int (unat timeToLive))\<rparr>)"

text \<open>The TTLs of a cached response, \<open>remaining\<close> nanoseconds before it expires.\<close>

definition age_response :: "int \<Rightarrow> dns_msg \<Rightarrow> dns_msg \<times> int" where
  "age_response remaining response =
     (let originTTL = int (unat (foldl smaller_ttl 0 (msg_records response)));
          nowTTL = max 0 (trunc (Seconds remaining)) in
      if originTTL > 0
      then (let duration = word_of_int (originTTL - nowTTL) in
            (map_records (\<lambda>r. set_Ttl (rr_Ttl r - duration) r) response, nowTTL))
      else (map_records (set_Ttl (word_of_int nowTTL)) response, nowTTL))"

definition loadResponse ::
  "'c dns_cache \<Rightarrow> int \<Rightarrow> question \<Rightarrow> string \<Rightarrow> 'c Client \<Rightarrow> (dns_msg \<times> int) option \<times> 'c Client" where
  "loadResponse K now q tag c =
     (let key = cache_key c q tag in
      if cl_disableExpire c
      then (case dc_Get K now (cl_cache c) key of
              (None, cache) \<Rightarrow> (None, c\<lparr>cl_cache := cache\<rparr>)
            | (Some response, cache) \<Rightarrow> (Some (response, 0), c\<lparr>cl_cache := cache\<rparr>))
      else (case dc_GetWithLifetime K now (cl_cache c) key of
              (None, cache) \<Rightarrow> (None, c\<lparr>cl_cache := cache\<rparr>)
            | (Some (response, expireAt), cache) \<Rightarrow>
                if now > expireAt then (None, c\<lparr>cl_cache := dc_Remove K cache key\<rparr>)
                else (Some (age_response (expireAt - now) response), c\<lparr>cl_cache := cache\<rparr>)))"

definition questionCache ::
  "dns_lib \<Rightarrow> 'c dns_cache \<Rightarrow> int \<Rightarrow> question \<Rightarrow> string \<Rightarrow> 'c Client \<Rightarrow> (dns_error + addr list) \<times> 'c Client" where
  "questionCache D K now q tag c =
     (case loadResponse K now q tag c of
        (None, c) \<Rightarrow> (Inl ErrNotCached, c)
      | (Some (response, _), c) \<Rightarrow>
          (if msg_Rcode response \<noteq> RcodeSuccess then Inl (RcodeError (msg_Rcode response))
           else Inr (MessageToAddresses D response), c))"

definition ClearCache :: "'c dns_cache \<Rightarrow> 'c Client \<Rightarrow> 'c Client" where
  "ClearCache K c = (if cl_disableCache c then c else c\<lparr>cl_cache := dc_Purge K (cl_cache c)\<rparr>)"

section \<open>One exchange\<close>

definition strategy_rejects :: "question \<Rightarrow> DomainStrategy \<Rightarrow> bool" where
  "strategy_rejects q strategy \<longleftrightarrow>
     (fst (snd q) = TypeA \<and> strategy = DomainStrategyIPv6Only) \<or>
     (fst (snd q) = TypeAAAA \<and> strategy = DomainStrategyIPv4Only)"

definition add_subnet :: "'c Client \<Rightarrow> DNSQueryOptions \<Rightarrow> dns_msg \<Rightarrow> dns_msg" where
  "add_subnet c options message =
     (let clientSubnet = (if \<not> Prefix_IsValid (qo_ClientSubnet options) then cl_clientSubnet c else qo_ClientSubnet options) in
      if Prefix_IsValid clientSubnet then SetClientSubnet message clientSubnet else message)"

definition isSimpleRequest :: "DNSQueryOptions \<Rightarrow> dns_msg \<Rightarrow> bool" where
  "isSimpleRequest options message \<longleftrightarrow>
     length (msg_Question message) = 1 \<and> length (msg_Ns message) = 0 \<and>
     (case msg_Extra message of
        [] \<Rightarrow> True
      | [r] \<Rightarrow> rr_type r = TypeOPT \<and> hdr_Class (rr_rest r) > 0 \<and> rr_Ttl r = 0 \<and> rr_data r = RD_OPT []
      | _ \<Rightarrow> False) \<and>
     \<not> Prefix_IsValid (qo_ClientSubnet options)"

definition filter_hints :: "DomainStrategy \<Rightarrow> dns_rr \<Rightarrow> dns_rr" where
  "filter_hints strategy r =
     (case rr_data r of
        RD_HTTPS values \<Rightarrow> r\<lparr>rr_rest := (rr_rest r)\<lparr>hdr_data := RD_HTTPS (filter (\<lambda>(key, _).
          if strategy = DomainStrategyIPv4Only then key \<noteq> SVCB_IPV6HINT else key \<noteq> SVCB_IPV4HINT) values)\<rparr>\<rparr>
      | _ \<Rightarrow> r)"

definition filter_https :: "question \<Rightarrow> DomainStrategy \<Rightarrow> dns_msg \<Rightarrow> dns_msg" where
  "filter_https q strategy response =
     (if fst (snd q) = TypeHTTPS \<and> (strategy = DomainStrategyIPv4Only \<or> strategy = DomainStrategyIPv6Only)
      then response\<lparr>msg_Answer := map (filter_hints strategy) (msg_Answer response)\<rparr> else response)"

definition fix_edns :: "dns_lib \<Rightarrow> dns_msg \<Rightarrow> dns_msg \<Rightarrow> dns_msg" where
  "fix_edns D message response =
     (case IsEdns0 D response of
        None \<Rightarrow> response
      | Some responseOpt \<Rightarrow>
          (let stripped = response\<lparr>msg_Extra := filter (\<lambda>it. rr_type it \<noteq> TypeOPT) (msg_Extra response)\<rparr> in
           case IsEdns0 D message of
             None \<Rightarrow> stripped
           | Some requestOpt \<Rightarrow>
               if OPT_Version D requestOpt < OPT_Version D responseOpt
               then SetEdns0 D stripped (OPT_UDPSize D responseOpt) (OPT_Do D responseOpt) else response))"

text \<open>
  The response is finished: the TTLs, the cache, the identifier and the EDNS0 record. The OPT record takes
  part in the loops over the TTLs like any other record.
\<close>

definition finish_response ::
  "dns_lib \<Rightarrow> 'c dns_cache \<Rightarrow> int \<Rightarrow> string \<Rightarrow> dns_msg \<Rightarrow> question \<Rightarrow> DNSQueryOptions \<Rightarrow> bool \<Rightarrow> dns_msg \<Rightarrow> 'c Client
     \<Rightarrow> dns_msg \<times> 'c Client" where
  "finish_response D K now tag message q options disableCache response c =
     (let response = filter_https q (qo_Strategy options) response;
          timeToLive = response_ttl options response;
          response = map_records (set_Ttl timeToLive) response;
          response = fix_edns D message (response\<lparr>msg_Id := msg_Id message\<rparr>) in
      (response, if \<not> disableCache then storeCache K now tag q response timeToLive c else c))"

text \<open>
  The check of a response by the rule that chose the transport. It reads and writes the metadata, whose type
  is \<open>'md\<close> here.
\<close>

type_synonym 'md checker = "(addr list \<Rightarrow> 'md \<Rightarrow> bool \<times> 'md) option"

definition check_response :: "dns_lib \<Rightarrow> 'md checker \<Rightarrow> dns_msg \<Rightarrow> 'md \<Rightarrow> bool \<times> 'md" where
  "check_response D checker response md =
     (case checker of
        None \<Rightarrow> (False, md)
      | Some check \<Rightarrow>
          if msg_Rcode response \<noteq> RcodeSuccess \<or> length (msg_Answer response) = 0 then (True, md)
          else apfst Not (check (MessageToAddresses D response) md))"

text \<open>
  The context of a query: the tag of the transport it came from, and the outcome of the wait for another query
  with the same question, an error when the timeout or the end of the context ends it.
\<close>

record dns_ctx =
  cx_transport :: "string option"
  cx_wait :: "int \<Rightarrow> question \<Rightarrow> dns_error option"

definition exchange_remote ::
  "dns_lib \<Rightarrow> 'c dns_cache \<Rightarrow> int \<Rightarrow> dns_ctx \<Rightarrow> DNSTransport \<Rightarrow> dns_msg \<Rightarrow> question \<Rightarrow> DNSQueryOptions
     \<Rightarrow> 'md checker \<Rightarrow> bool \<Rightarrow> 'md \<Rightarrow> 'c Client \<Rightarrow> (dns_error + dns_msg) \<times> 'md \<times> 'c Client" where
  "exchange_remote D K now ctx transport message q options checker disableCache md c =
     (let rdrc_key = (tr_Tag transport, fst q, fst (snd q)) in
      if cx_transport ctx = Some (tr_Tag transport)
      then (Inl (DNSFail (E_New [S ''DNS query loopback in transport['', S (tr_Tag transport), S '']''])), md, c)
      else if \<not> disableCache \<and> checker \<noteq> None \<and> (case cl_rdrc c of None \<Rightarrow> False | Some store \<Rightarrow> rdrc_key \<in> set store)
      then (Inl ErrResponseRejectedCached, md, c)
      else case (case tr_Exchange transport message of
                   Inl err \<Rightarrow> (case as_rcode err of Some rcode \<Rightarrow> Inr (FixedResponseStatus message rcode) | None \<Rightarrow> Inl err)
                 | Inr response \<Rightarrow> Inr response) of
             Inl err \<Rightarrow> (Inl err, md, c)
           | Inr response \<Rightarrow>
               (let disableCache = (disableCache \<or> (msg_Rcode response \<noteq> RcodeSuccess \<and> msg_Rcode response \<noteq> RcodeNameError)) in
                case check_response D checker response md of (rejected, md) \<Rightarrow>
                  if rejected
                  then (Inl ErrResponseRejected, md,
                        if disableCache then c else c\<lparr>cl_rdrc := map_option (\<lambda>store. rdrc_key # store) (cl_rdrc c)\<rparr>)
                  else case finish_response D K now (tr_Tag transport) message q options disableCache response c of
                         (response, c) \<Rightarrow> (Inr response, md, c)))"

definition Exchange ::
  "dns_lib \<Rightarrow> 'c dns_cache \<Rightarrow> int \<Rightarrow> int \<Rightarrow> dns_ctx \<Rightarrow> DNSTransport \<Rightarrow> dns_msg \<Rightarrow> DNSQueryOptions
     \<Rightarrow> 'md checker \<Rightarrow> 'md \<Rightarrow> 'c Client \<Rightarrow> (dns_error + dns_msg) \<times> 'md \<times> 'c Client" where
  "Exchange D K now now' ctx transport message options checker md c =
     (case msg_Question message of
        [] \<Rightarrow> (Inr (FixedResponseStatus message RcodeFormatError), md, c)
      | q # _ \<Rightarrow>
          if strategy_rejects q (qo_Strategy options) then (Inr (FixedResponseStatus message RcodeSuccess), md, c)
          else
            (let message = add_subnet c options message;
                 disableCache = (\<not> isSimpleRequest options message \<or> cl_disableCache c \<or> qo_DisableCache options) in
             case (if disableCache then None else cx_wait ctx now q) of
               Some err \<Rightarrow> (Inl err, md, c)
             | None \<Rightarrow>
             case (if disableCache then (None, c) else loadResponse K now q (tr_Tag transport) c) of
               (Some (response, _), c) \<Rightarrow> (Inr (response\<lparr>msg_Id := msg_Id message\<rparr>), md, c)
             | (None, c) \<Rightarrow> exchange_remote D K now' ctx transport message q options checker disableCache md c))"

section \<open>Lookup\<close>

definition lookup_message :: "question \<Rightarrow> dns_msg" where
  "lookup_message q = \<lparr>msg_Id = 0, msg_Response = False, msg_Authoritative = False, msg_RecursionDesired = True,
     msg_RecursionAvailable = False, msg_Rcode = RcodeSuccess, msg_Question = [q],
     msg_Answer = [], msg_Ns = [], msg_Extra = []\<rparr>"

text \<open>The clock is read once before the cache is asked and once for each cache operation of the exchange.\<close>

definition lookupToExchange ::
  "dns_lib \<Rightarrow> 'c dns_cache \<Rightarrow> (nat \<Rightarrow> int) \<Rightarrow> dns_ctx \<Rightarrow> DNSTransport \<Rightarrow> string \<Rightarrow> qtype \<Rightarrow> DNSQueryOptions
     \<Rightarrow> 'md checker \<Rightarrow> 'md \<Rightarrow> 'c Client \<Rightarrow> (dns_error + addr list) \<times> 'md \<times> 'c Client" where
  "lookupToExchange D K clock ctx transport name qType options checker md c =
     (let q = (name, qType, ClassINET);
          disableCache = (cl_disableCache c \<or> qo_DisableCache options) in
      case (if disableCache then (Inl ErrNotCached, c) else questionCache D K (clock 0) q (tr_Tag transport) c) of (cached, c) \<Rightarrow>
        if cached \<noteq> Inl ErrNotCached then (cached, md, c)
        else case Exchange D K (clock 1) (clock 2) ctx transport (lookup_message q) options checker md c of
               (Inl err, md, c) \<Rightarrow> (Inl err, md, c)
             | (Inr response, md, c) \<Rightarrow>
                 (if msg_Rcode response \<noteq> RcodeSuccess then Inl (RcodeError (msg_Rcode response))
                  else Inr (MessageToAddresses D response), md, c))"

definition sortAddresses :: "addr list \<Rightarrow> addr list \<Rightarrow> DomainStrategy \<Rightarrow> addr list" where
  "sortAddresses response4 response6 strategy =
     (if strategy = DomainStrategyPreferIPv6 then response6 @ response4 else response4 @ response6)"

text \<open>
  \<open>Lookup\<close>. The two exchanges of the task group run concurrently; the model runs the one for IPv4 first.
  A lookup without any address and without error returns the empty list.
\<close>

definition Client_Lookup ::
  "dns_lib \<Rightarrow> 'c dns_cache \<Rightarrow> (nat \<Rightarrow> int) \<Rightarrow> dns_ctx \<Rightarrow> DNSTransport \<Rightarrow> string \<Rightarrow> DNSQueryOptions
     \<Rightarrow> 'md checker \<Rightarrow> 'md \<Rightarrow> 'c Client \<Rightarrow> (dns_error + addr list) \<times> 'md \<times> 'c Client" where
  "Client_Lookup D K clock ctx transport domain options checker md c =
     (let dnsName = dl_Fqdn D (FqdnToDomain D domain);
          strategy = (if qo_LookupStrategy options \<noteq> DomainStrategyAsIS then qo_LookupStrategy options else qo_Strategy options) in
      if strategy = DomainStrategyIPv4Only
      then lookupToExchange D K clock ctx transport dnsName TypeA options checker md c
      else if strategy = DomainStrategyIPv6Only
      then lookupToExchange D K clock ctx transport dnsName TypeAAAA options checker md c
      else case lookupToExchange D K clock ctx transport dnsName TypeA options checker md c of (r4, md, c) \<Rightarrow>
        case lookupToExchange D K (\<lambda>i. clock (3 + i)) ctx transport dnsName TypeAAAA options checker md c of (r6, md, c) \<Rightarrow>
          let response4 = (case r4 of Inr addrs \<Rightarrow> addrs | Inl _ \<Rightarrow> []);
              response6 = (case r6 of Inr addrs \<Rightarrow> addrs | Inl _ \<Rightarrow> []);
              errors = (case r4 of Inl e \<Rightarrow> [e] | Inr _ \<Rightarrow> []) @ (case r6 of Inl e \<Rightarrow> [e] | Inr _ \<Rightarrow> []) in
          (if length response4 = 0 \<and> length response6 = 0
           then (if errors = [] then Inr [] else Inl (GroupError D errors))
           else Inr (sortAddresses response4 response6 strategy), md, c))"

section \<open>Lifetimes\<close>

text \<open>
  What the client relies on of the cache: an entry has the lifetime it was added with, and no entry is made up.
  \<open>entries now c k\<close> is the entry of \<open>k\<close> with its expiry.
\<close>

definition cache_ok :: "'c dns_cache \<Rightarrow> ('c \<Rightarrow> cache_key \<Rightarrow> (dns_msg \<times> int) option) \<Rightarrow> bool" where
  "cache_ok K entries \<longleftrightarrow>
     (\<forall>now c k r. fst (dc_GetWithLifetime K now c k) = Some r \<longrightarrow> entries c k = Some r) \<and>
     (\<forall>now c k. entries (snd (dc_GetWithLifetime K now c k)) \<subseteq>\<^sub>m entries c) \<and>
     (\<forall>now c k m lifetime. entries (dc_AddWithLifetime K now c k m lifetime) \<subseteq>\<^sub>m (entries c)(k \<mapsto> (m, now + lifetime))) \<and>
     (\<forall>c k. entries (dc_Remove K c k) \<subseteq>\<^sub>m (entries c)(k := None)) \<and>
     (\<forall>c. entries (dc_Purge K c) = Map.empty)"

text \<open>In a stored response all records have one TTL, and the entry expires that many seconds after \<open>now\<close> at the
  latest.\<close>

definition entry_ok :: "int \<Rightarrow> dns_msg \<times> int \<Rightarrow> bool" where
  "entry_ok now = (\<lambda>(m, expireAt). \<exists>ttl. ttl \<noteq> 0 \<and> list_all (\<lambda>r. rr_Ttl r = ttl) (msg_records m) \<and>
     expireAt \<le> now + 1000000000 * int (unat ttl))"

definition client_ok :: "('c \<Rightarrow> cache_key \<Rightarrow> (dns_msg \<times> int) option) \<Rightarrow> int \<Rightarrow> 'c Client \<Rightarrow> bool" where
  "client_ok entries now c \<longleftrightarrow> (\<forall>k e. entries (cl_cache c) k = Some e \<longrightarrow> entry_ok now e)"

lemma foldl_smaller_same:
  "list_all (\<lambda>r. rr_Ttl r = ttl) rs \<Longrightarrow> t = 0 \<or> t = ttl \<Longrightarrow> foldl smaller_ttl t rs = (if rs = [] then t else ttl)"
  by (induction rs arbitrary: t) (auto simp: smaller_ttl_def split: if_splits)

lemma age_response_ttl:
  assumes "ttl \<noteq> 0" and "list_all (\<lambda>r. rr_Ttl r = ttl) (msg_records m)"
    and "0 \<le> remaining" and "remaining \<le> 1000000000 * int (unat ttl)"
  shows "age_response remaining m = (map_records (set_Ttl (word_of_int (trunc (Seconds remaining)))) m, trunc (Seconds remaining))"
    and "0 \<le> trunc (Seconds remaining)" and "trunc (Seconds remaining) \<le> int (unat ttl)"
proof -
  have small: "int (unat ttl) < 2 ^ 53"
  proof -
    have "unat ttl < 2 ^ LENGTH(32)" by (rule unsigned_less)
    then have "int (unat ttl) < int (2 ^ LENGTH(32))" by (simp only: of_nat_less_iff)
    then show ?thesis by simp
  qed
  note t = trunc_Seconds [OF assms(3,4) small]
  show "0 \<le> trunc (Seconds remaining)" "trunc (Seconds remaining) \<le> int (unat ttl)" by (fact t)+
  let ?n = "trunc (Seconds remaining)"
  show "age_response remaining m = (map_records (set_Ttl (word_of_int ?n)) m, ?n)"
  proof (cases "msg_records m = []")
    case True
    then have "map_records f m = map_records g m" for f g by (simp add: msg_records_def map_records_def)
    then show ?thesis using True t(1) by (simp add: age_response_def Let_def)
  next
    case False
    have o: "foldl smaller_ttl 0 (msg_records m) = ttl" using foldl_smaller_same [OF assms(2)] False by simp
    have "ttl - word_of_int (int (unat ttl) - ?n) = word_of_int ?n" by (simp add: of_int_diff)
    then have "rr_Ttl r = ttl \<Longrightarrow> set_Ttl (rr_Ttl r - word_of_int (int (unat ttl) - ?n)) r = set_Ttl (word_of_int ?n) r" for r
      by (metis)
    then have "map_records (\<lambda>r. set_Ttl (rr_Ttl r - word_of_int (int (unat ttl) - ?n)) r) m = map_records (set_Ttl (word_of_int ?n)) m"
      using assms(2) unfolding map_records_def msg_records_def
      by (intro arg_cong3 [where f = "\<lambda>a n e. m\<lparr>msg_Answer := a, msg_Ns := n, msg_Extra := e\<rparr>"] map_cong refl) (auto simp: list_all_iff)
    then show ?thesis using t(1) assms(1) o by (simp add: age_response_def Let_def unat_gt_0)
  qed
qed

text \<open>
  An answer from the cache: every record has the same TTL, the whole seconds left before the entry expires, at
  most the TTL it was stored with; nothing else of the records changes. An expired entry is not used.
\<close>

lemma loadResponse_ok:
  assumes "cache_ok K entries" and "client_ok entries t0 c" and "\<not> cl_disableExpire c" and "t0 \<le> now"
    and "loadResponse K now q tag c = (Some (response, nowTTL), c')"
  shows "\<exists>m expireAt ttl. entries (cl_cache c) (cache_key c q tag) = Some (m, expireAt) \<and> now \<le> expireAt \<and>
    response = map_records (set_Ttl (word_of_int nowTTL)) m \<and> 0 \<le> nowTTL \<and> nowTTL \<le> int (unat ttl) \<and>
    list_all (\<lambda>r. rr_Ttl r = ttl) (msg_records m) \<and> client_ok entries t0 c'"
proof -
  let ?key = "cache_key c q tag"
  obtain m expireAt cache where g: "dc_GetWithLifetime K now (cl_cache c) ?key = (Some (m, expireAt), cache)"
    and now: "now \<le> expireAt" and r: "age_response (expireAt - now) m = (response, nowTTL)" and c': "c' = c\<lparr>cl_cache := cache\<rparr>"
    using assms(3,5) by (auto simp: loadResponse_def Let_def split: prod.splits option.splits if_splits)
  from assms(1) g have e: "entries (cl_cache c) ?key = Some (m, expireAt)" and sub: "entries cache \<subseteq>\<^sub>m entries (cl_cache c)"
    unfolding cache_ok_def by (metis fst_conv, metis snd_conv)
  from assms(2) e obtain ttl where ttl: "ttl \<noteq> 0" "list_all (\<lambda>r. rr_Ttl r = ttl) (msg_records m)"
    "expireAt \<le> t0 + 1000000000 * int (unat ttl)"
    unfolding client_ok_def entry_ok_def by fastforce
  then have b: "0 \<le> expireAt - now" "expireAt - now \<le> 1000000000 * int (unat ttl)" using now assms(4) by simp_all
  note a = age_response_ttl [OF ttl(1,2) b]
  have "client_ok entries t0 c'" using assms(2) sub unfolding c' client_ok_def map_le_def by (simp add: dom_def) metis
  then show ?thesis using e now a r ttl(2) by auto
qed

lemma loadResponse_client_ok:
  assumes "cache_ok K entries" and "client_ok entries t0 c" and "\<not> cl_disableExpire c"
    and "loadResponse K now q tag c = (res, c')"
  shows "client_ok entries t0 c'" and "cl_disableExpire c' = cl_disableExpire c"
proof -
  let ?key = "cache_key c q tag"
  obtain got cache where g: "dc_GetWithLifetime K now (cl_cache c) ?key = (got, cache)" by fastforce
  have sub: "entries cache \<subseteq>\<^sub>m entries (cl_cache c)" "entries (dc_Remove K cache ?key) \<subseteq>\<^sub>m (entries cache)(?key := None)"
    using assms(1) g unfolding cache_ok_def by (metis snd_conv, blast)
  have "cl_cache c' = cache \<or> cl_cache c' = dc_Remove K cache ?key" and eq: "cl_disableExpire c' = cl_disableExpire c"
    using assms(3,4) g by (auto simp: loadResponse_def Let_def split: option.splits prod.splits if_splits)
  then have "entries (cl_cache c') \<subseteq>\<^sub>m entries (cl_cache c)"
    using sub by (auto simp: map_le_def dom_def split: if_splits) (metis option.distinct(1))+
  then show "client_ok entries t0 c'" using assms(2) unfolding client_ok_def map_le_def by (simp add: dom_def) metis
  show "cl_disableExpire c' = cl_disableExpire c" by (fact eq)
qed

lemma map_le_upd: "m \<subseteq>\<^sub>m f(k \<mapsto> v) \<Longrightarrow> m a = Some x \<Longrightarrow> f a = Some x \<or> x = v"
  unfolding map_le_def by (metis domI fun_upd_apply option.inject)

lemma client_ok_later: "client_ok entries t0 c \<Longrightarrow> t0 \<le> t1 \<Longrightarrow> client_ok entries t1 c"
  unfolding client_ok_def entry_ok_def by fastforce

lemma fix_edns_none:
  assumes "IsEdns0 D message = None"
  shows "set (msg_records (fix_edns D message response)) \<subseteq> set (msg_records response)"
  using assms by (auto simp: fix_edns_def msg_records_def Let_def split: option.splits)

lemma finish_response_ok:
  assumes "cache_ok K entries" and "client_ok entries now c" and "\<not> cl_disableExpire c"
    and "IsEdns0 D message = None \<or> disableCache"
    and "finish_response D K now tag message q options disableCache response c = (response', c')"
  shows "client_ok entries now c'"
proof -
  define ttl where "ttl = response_ttl options (filter_https q (qo_Strategy options) response)"
  define final where "final = fix_edns D message
    ((map_records (set_Ttl ttl) (filter_https q (qo_Strategy options) response))\<lparr>msg_Id := msg_Id message\<rparr>)"
  have c': "c' = (if \<not> disableCache then storeCache K now tag q final ttl c else c)"
    using assms(5) by (auto simp: finish_response_def Let_def final_def ttl_def split: if_splits)
  show ?thesis
  proof (cases "disableCache \<or> ttl = 0")
    case True
    then show ?thesis using assms(2) by (auto simp: c' storeCache_def)
  next
    case False
    then have "IsEdns0 D message = None" using assms(4) by simp
    from fix_edns_none [OF this] have "list_all (\<lambda>r. rr_Ttl r = ttl) (msg_records final)"
      unfolding final_def by (fastforce simp: list_all_iff msg_records_def map_records_def)
    moreover define stored where "stored = (final, now + 1000000000 * int (unat ttl))"
    ultimately have e: "entry_ok now stored" using False by (auto simp: entry_ok_def)
    have add: "entries (dc_AddWithLifetime K now (cl_cache c) (cache_key c q tag) final (1000000000 * int (unat ttl)))
        \<subseteq>\<^sub>m (entries (cl_cache c))(cache_key c q tag \<mapsto> stored)"
      using assms(1) unfolding cache_ok_def stored_def by blast
    have "entries (cl_cache c') \<subseteq>\<^sub>m (entries (cl_cache c))(cache_key c q tag \<mapsto> stored)"
      using assms(3) False add by (simp add: c' storeCache_def stored_def del: of_nat_unat)
    then have "entries (cl_cache c') k = Some x \<Longrightarrow> entries (cl_cache c) k = Some x \<or> x = stored" for k x
      by (rule map_le_upd)
    then show ?thesis using e assms(2) unfolding client_ok_def by blast
  qed
qed

lemma exchange_remote_ok:
  assumes "cache_ok K entries" and "client_ok entries now c" and "\<not> cl_disableExpire c"
    and "IsEdns0 D message = None \<or> disableCache"
    and "exchange_remote D K now ctx transport message q options checker disableCache md c = (res, md', c')"
  shows "client_ok entries now c'"
proof -
  consider (same) "cl_cache c' = cl_cache c"
    | (finish) dis response response' where "disableCache \<longrightarrow> dis"
        "finish_response D K now (tr_Tag transport) message q options dis response c = (response', c')"
    using assms(5) unfolding exchange_remote_def Let_def
    by (auto split: if_splits sum.splits prod.splits option.splits)
  then show ?thesis
  proof cases
    case same
    then show ?thesis using assms(2) by (simp add: client_ok_def)
  next
    case finish
    then show ?thesis using finish_response_ok [OF assms(1-3) _ finish(2)] assms(4) by blast
  qed
qed

text \<open>A client subnet, also the one of the client itself, makes a request that is never cached.\<close>

lemma set_subnet_nonempty: "set_subnet p sub d = RD_OPT [] \<Longrightarrow> \<exists>j. sub = Some j \<and> d = RD_OPT []"
  by (auto simp: set_subnet_def split: rdata.splits option.splits)

lemma SetClientSubnet_not_simple: "\<not> isSimpleRequest options (SetClientSubnet message p)"
proof (cases "msg_Extra message")
  case Nil
  then show ?thesis
    by (auto simp: SetClientSubnet_def isSimpleRequest_def rr_data_def dest: set_subnet_nonempty)
next
  case (Cons r rs)
  obtain opt sub where f: "find_opt 0 (msg_Extra message) None = (opt, sub)" by fastforce
  show ?thesis
  proof (cases "opt = None \<or> rs \<noteq> []")
    case True
    have "length (msg_Extra (SetClientSubnet message p)) = length (msg_Extra message) + (if opt = None then 1 else 0)"
      by (cases opt) (simp_all add: SetClientSubnet_def f)
    then have "length (msg_Extra (SetClientSubnet message p)) \<ge> 2"
      using True Cons by (cases rs) auto
    then show ?thesis by (auto simp: isSimpleRequest_def split: list.splits)
  next
    case False
    then obtain options' where d: "rr_data r = RD_OPT options'" "opt = Some 0" "sub = index_where is_subnet options'"
      using f Cons by (auto split: rdata.splits option.splits)
    then have "msg_Extra (SetClientSubnet message p) = [r\<lparr>rr_rest := (rr_rest r)\<lparr>hdr_data := set_subnet p sub (RD_OPT options')\<rparr>\<rparr>]"
      using Cons False unfolding SetClientSubnet_def f d(2) by simp
    moreover have "set_subnet p sub (RD_OPT options') \<noteq> RD_OPT []"
      using d(3) set_subnet_nonempty [of p sub "RD_OPT options'"] by auto
    ultimately show ?thesis by (simp add: isSimpleRequest_def rr_data_def)
  qed
qed

text \<open>An exchange for a message without EDNS0 record keeps the lifetimes of the cache.\<close>

lemma Exchange_ok:
  assumes "cache_ok K entries" and "client_ok entries t0 c" and "\<not> cl_disableExpire c" and "t0 \<le> now'"
    and "IsEdns0 D message = None"
    and "Exchange D K now now' ctx transport message options checker md c = (res, md', c')"
  shows "client_ok entries now' c'"
proof (cases "msg_Question message")
  case Nil
  then show ?thesis using assms client_ok_later by (auto simp: Exchange_def)
next
  case (Cons q qs)
  define m where "m = add_subnet c options message"
  define dis where "dis = (\<not> isSimpleRequest options m \<or> cl_disableCache c \<or> qo_DisableCache options)"
  show ?thesis
  proof (cases "strategy_rejects q (qo_Strategy options)")
    case True
    then show ?thesis using assms Cons client_ok_later by (auto simp: Exchange_def)
  next
    case False
    obtain load c1 where l: "(if dis then (None, c) else loadResponse K now q (tr_Tag transport) c) = (load, c1)" by fastforce
    have c1: "client_ok entries now' c1" "\<not> cl_disableExpire c1"
    proof -
      have "client_ok entries t0 c1 \<and> \<not> cl_disableExpire c1"
        using l loadResponse_client_ok [OF assms(1-3)] assms(2,3) by (cases dis) auto
      then show "client_ok entries now' c1" "\<not> cl_disableExpire c1" using client_ok_later assms(4) by auto
    qed
    have edns: "IsEdns0 D m = None \<or> dis" if "\<not> dis"
    proof -
      have "m = message"
      proof (rule ccontr)
        assume "m \<noteq> message"
        then obtain p where m: "m = SetClientSubnet message p" by (auto simp: m_def add_subnet_def Let_def split: if_splits)
        have "isSimpleRequest options m" using that by (simp add: dis_def)
        then show False using SetClientSubnet_not_simple [of options message p] m by simp
      qed
      then show ?thesis using assms(5) by simp
    qed
    show ?thesis
    proof (cases "if dis then None else cx_wait ctx now q")
      case (Some err)
      then have "c' = c" using assms(6) Cons False by (simp add: Exchange_def m_def dis_def Let_def)
      then show ?thesis using assms(2,4) client_ok_later by blast
    next
      case wait: None
      show ?thesis
      proof (cases load)
        case None
        then have r: "exchange_remote D K now' ctx transport m q options checker dis md c1 = (res, md', c')"
          using assms(6) Cons False l wait by (simp add: Exchange_def m_def dis_def Let_def)
        have "IsEdns0 D m = None \<or> dis" using edns by blast
        then show ?thesis by (rule exchange_remote_ok [OF assms(1) c1 _ r])
      next
        case (Some hit)
        then have "c' = c1" using assms(6) Cons False l wait by (auto simp: Exchange_def m_def dis_def Let_def split: prod.splits)
        then show ?thesis using c1 by simp
      qed
    qed
  qed
qed

end
