(* ===== verification/DNS_Router.thy ===== *)
theory DNS_Router
  imports DNS_Client DNS_Rules
begin

text \<open>
  The DNS router (\<open>dns/router.go\<close>): the rule loop of \<open>matchDNS\<close>, the exchange of a message and the lookup of a
  domain. Both try the rules in order, ask the client with the transport a rule chooses, and go on with the next
  rule when the response is rejected or a rule is to be bypassed on failure. The metadata is the one context
  that the rules, and the checks of the responses, read and write.
\<close>

section \<open>The router\<close>

record ('dm, 'ag, 'ip, 'cb, 'dl, 'c) dns_router =
  dr_lib :: "('dm, 'ag, 'ip) lib"
  dr_env :: env
  dr_store :: "('dm, 'ag, 'ip, 'cb) store"
  dr_dns :: dns_lib
  dr_cache :: "'c dns_cache"
  dr_rules :: "('dm, 'ag, 'ip, 'dl, rr_body) rule list"
  dr_Transport :: "string \<Rightarrow> DNSTransport option"
  dr_Default :: DNSTransport
  dr_defaultDomainStrategy :: DomainStrategy
  dr_reverseMapping :: bool

abbreviation (input) DNSTypeFakeIP :: string where "DNSTypeFakeIP \<equiv> ''fakeip''"

definition DNS_Initialize ::
  "('dm, 'ag, 'ip, 'dl) ctx \<Rightarrow> rr_body DNSRule list \<Rightarrow> ('dm, 'ag, 'ip, 'dl, rr_body) rule list result" where
  "DNS_Initialize cx rules =
     map_result (\<lambda>i err. E_Cause err [S ''parse dns rule['', N i, S '']'']) 0 (NewDNSRule cx True) rules"

text \<open>The fields of \<open>option.DNSOptions\<close> that the router reads.\<close>

record DNSOptions =
  do_Strategy :: DomainStrategy
  do_DisableCache :: bool
  do_DisableExpire :: bool
  do_IndependentCache :: bool
  do_ClientSubnet :: "Prefix option"
  do_ReverseMapping :: bool

text \<open>
  \<open>NewRouter\<close>: the router has no rules yet. \<open>storeRDRC\<close> tells whether there is a cache file that stores rejected
  responses.
\<close>

definition client_options :: "bool \<Rightarrow> DNSOptions \<Rightarrow> ClientOptions" where
  "client_options storeRDRC options =
     \<lparr>co_DisableCache = do_DisableCache options, co_DisableExpire = do_DisableExpire options,
      co_IndependentCache = do_IndependentCache options,
      co_ClientSubnet = (case do_ClientSubnet options of None \<Rightarrow> zeroPrefix | Some p \<Rightarrow> p), co_RDRC = storeRDRC\<rparr>"

definition NewDNSRouter ::
  "('dm, 'ag, 'ip) lib \<Rightarrow> env \<Rightarrow> ('dm, 'ag, 'ip, 'cb) store \<Rightarrow> dns_lib \<Rightarrow> 'c dns_cache \<Rightarrow> (string \<Rightarrow> DNSTransport option)
     \<Rightarrow> DNSTransport \<Rightarrow> bool \<Rightarrow> 'c \<Rightarrow> DNSOptions \<Rightarrow> ('dm, 'ag, 'ip, 'cb, 'dl, 'c) dns_router \<times> 'c Client" where
  "NewDNSRouter L V G D K transports def_transport storeRDRC empty_cache options =
     (\<lparr>dr_lib = L, dr_env = V, dr_store = G, dr_dns = D, dr_cache = K, dr_rules = [], dr_Transport = transports,
       dr_Default = def_transport, dr_defaultDomainStrategy = do_Strategy options, dr_reverseMapping = do_ReverseMapping options\<rparr>,
      NewClient empty_cache (client_options storeRDRC options))"

text \<open>\<open>Start\<close> in the stage \<open>StartStateStart\<close>: the client, then the rules in order.\<close>

fun start_rules ::
  "env \<Rightarrow> nat \<Rightarrow> ('dm, 'ag, 'ip, 'dl, rr_body) rule list \<Rightarrow> ('dm, 'ag, 'ip, 'cb) store
     \<Rightarrow> (('dm, 'ag, 'ip, 'dl, rr_body) rule list \<times> ('dm, 'ag, 'ip, 'cb) store) result" where
  "start_rules V i [] G = Inr ([], G)"
| "start_rules V i (r # rs) G =
     (case tree_Start V r G of
        Inl err \<Rightarrow> Inl (E_Cause err [S ''initialize DNS rule['', N i, S '']''])
      | Inr (r', G') \<Rightarrow> bind_result (start_rules V (Suc i) rs G') (\<lambda>(rs', G''). Inr (r' # rs', G'')))"

definition DNS_Start ::
  "ClientOptions \<Rightarrow> (string \<times> string \<times> qtype) list \<Rightarrow> ('dm, 'ag, 'ip, 'cb, 'dl, 'c) dns_router \<Rightarrow> 'c Client
     \<Rightarrow> (('dm, 'ag, 'ip, 'cb, 'dl, 'c) dns_router \<times> 'c Client) result" where
  "DNS_Start options stored R c =
     bind_result (start_rules (dr_env R) 0 (dr_rules R) (dr_store R)) (\<lambda>(rules, G).
       Inr (R\<lparr>dr_rules := rules, dr_store := G\<rparr>, Client_Start options stored c))"

section \<open>Matching\<close>

definition set_options :: "bool \<Rightarrow> RuleActionDNSRouteOptions \<Rightarrow> DNSQueryOptions \<Rightarrow> DNSQueryOptions" where
  "set_options isFakeIP act options =
     (let o1 = (if dns_Strategy act \<noteq> DomainStrategyAsIS then options\<lparr>qo_Strategy := dns_Strategy act\<rparr> else options);
          o2 = (if isFakeIP \<or> dns_DisableCache act then o1\<lparr>qo_DisableCache := True\<rparr> else o1);
          o3 = (if dns_RewriteTTL act \<noteq> None then o2\<lparr>qo_RewriteTTL := dns_RewriteTTL act\<rparr> else o2) in
      if Prefix_IsValid (dns_ClientSubnet act) then o3\<lparr>qo_ClientSubnet := dns_ClientSubnet act\<rparr> else o3)"

definition legacy_options :: "DNSTransport \<Rightarrow> DNSQueryOptions \<Rightarrow> DNSQueryOptions" where
  "legacy_options transport options =
     (case tr_Legacy transport of
        None \<Rightarrow> options
      | Some (strategy, subnet) \<Rightarrow>
          let o1 = (if qo_Strategy options = DomainStrategyAsIS then options\<lparr>qo_Strategy := strategy\<rparr> else options) in
          if \<not> Prefix_IsValid (qo_ClientSubnet o1) then o1\<lparr>qo_ClientSubnet := subnet\<rparr> else o1)"

text \<open>The loop of \<open>matchDNS\<close> over the rules from index \<open>i\<close>: the transport, the rule with its index, the metadata
  and the options.\<close>

fun matchDNS ::
  "('dm, 'ag, 'ip, 'cb, 'dl, 'c) dns_router \<Rightarrow> bool \<Rightarrow> bool \<Rightarrow> nat \<Rightarrow> ('dm, 'ag, 'ip, 'dl, rr_body) rule list
     \<Rightarrow> InboundContext \<Rightarrow> DNSQueryOptions
     \<Rightarrow> DNSTransport option \<times> (nat \<times> ('dm, 'ag, 'ip, 'dl, rr_body) rule) option \<times> InboundContext \<times> DNSQueryOptions" where
  "matchDNS R allowFakeIP isAddressQuery i [] md options = (Some (dr_Default R), None, md, options)"
| "matchDNS R allowFakeIP isAddressQuery i (r # rs) md options =
     (if WithAddressLimit (dr_store R) r \<and> \<not> isAddressQuery
      then matchDNS R allowFakeIP isAddressQuery (Suc i) rs md options
      else case dns_Match (dr_lib R) (dr_env R) (dr_store R) r (ResetRuleCache md) of (matched, md) \<Rightarrow>
        if \<not> matched then matchDNS R allowFakeIP isAddressQuery (Suc i) rs md options
        else case tree_Action r of
               Some (RuleActionDNSRoute server act) \<Rightarrow>
                 (case dr_Transport R server of
                    None \<Rightarrow> matchDNS R allowFakeIP isAddressQuery (Suc i) rs md options
                  | Some transport \<Rightarrow>
                      let isFakeIP = (tr_Type transport = DNSTypeFakeIP) in
                      if isFakeIP \<and> \<not> allowFakeIP then matchDNS R allowFakeIP isAddressQuery (Suc i) rs md options
                      else (Some transport, Some (i, r), md, legacy_options transport (set_options isFakeIP act options)))
             | Some (RuleActionDNSRouteOptionsAction act) \<Rightarrow>
                 matchDNS R allowFakeIP isAddressQuery (Suc i) rs md (set_options False act options)
             | Some (RuleActionReject _ _ _) \<Rightarrow> (None, Some (i, r), md, options)
             | Some (RuleActionPredefinedAction _) \<Rightarrow> (None, Some (i, r), md, options)
             | _ \<Rightarrow> matchDNS R allowFakeIP isAddressQuery (Suc i) rs md options)"

definition default_strategy ::
  "('dm, 'ag, 'ip, 'cb, 'dl, 'c) dns_router \<Rightarrow> DNSQueryOptions \<Rightarrow> DNSQueryOptions" where
  "default_strategy R options =
     (if qo_Strategy options = DomainStrategyAsIS then options\<lparr>qo_Strategy := dr_defaultDomainStrategy R\<rparr> else options)"

definition isAddressQuery :: "dns_msg \<Rightarrow> bool" where
  "isAddressQuery message \<longleftrightarrow>
     list_ex (\<lambda>(_, ty, _). ty = TypeA \<or> ty = TypeAAAA \<or> ty = TypeHTTPS) (msg_Question message)"

text \<open>\<open>responseCheck\<close>: the rule is asked again with the addresses of the response.\<close>

definition responseCheck ::
  "('dm, 'ag, 'ip, 'cb, 'dl, 'c) dns_router \<Rightarrow> (nat \<times> ('dm, 'ag, 'ip, 'dl, rr_body) rule) option \<Rightarrow> InboundContext checker" where
  "responseCheck R sel =
     (case sel of
        None \<Rightarrow> None
      | Some (i, r) \<Rightarrow>
          if WithAddressLimit (dr_store R) r
          then Some (\<lambda>addrs md. MatchAddressLimit (dr_lib R) (dr_env R) (dr_store R) r (md\<lparr>md_DestinationAddresses := addrs\<rparr>))
          else None)"

section \<open>Exchange\<close>

text \<open>
  The client called with a nil transport, which happens for a reject action whose method is neither
  \<open>default\<close> nor \<open>drop\<close>: the first use of the transport panics, in the client or, after an error, where the router
  logs it. An answer that needs no transport is still returned.
\<close>

definition nil_panic :: dns_error where
  "nil_panic = DNSFail (Panic [S ''invalid memory address or nil pointer dereference''])"

definition Exchange_nil ::
  "'c dns_cache \<Rightarrow> int \<Rightarrow> dns_ctx \<Rightarrow> dns_msg \<Rightarrow> DNSQueryOptions \<Rightarrow> 'c Client \<Rightarrow> (dns_error + dns_msg) \<times> 'c Client" where
  "Exchange_nil K now ctx message options c =
     (case msg_Question message of
        [] \<Rightarrow> (Inr (FixedResponseStatus message RcodeFormatError), c)
      | q # _ \<Rightarrow>
          if strategy_rejects q (qo_Strategy options) then (Inr (FixedResponseStatus message RcodeSuccess), c)
          else let message = add_subnet c options message in
            if \<not> isSimpleRequest options message \<or> cl_disableCache c \<or> qo_DisableCache options
               \<or> cx_wait ctx now q \<noteq> None \<or> cl_independentCache c
            then (Inl nil_panic, c)
            else (case loadResponse K now q [] c of
                    (Some (response, _), c) \<Rightarrow> (Inr (response\<lparr>msg_Id := msg_Id message\<rparr>), c)
                  | (None, c) \<Rightarrow> (Inl nil_panic, c)))"

definition client_exchange ::
  "('dm, 'ag, 'ip, 'cb, 'dl, 'c) dns_router \<Rightarrow> (nat \<Rightarrow> int) \<Rightarrow> dns_ctx \<Rightarrow> DNSTransport option \<Rightarrow> dns_msg
     \<Rightarrow> DNSQueryOptions \<Rightarrow> InboundContext checker \<Rightarrow> InboundContext \<Rightarrow> 'c Client
     \<Rightarrow> (dns_error + dns_msg) \<times> InboundContext \<times> 'c Client" where
  "client_exchange R clock ctx transport message options check md c =
     (case transport of
        Some t \<Rightarrow> Exchange (dr_dns R) (dr_cache R) (clock 0) (clock 1) ctx t message options check md c
      | None \<Rightarrow> (case Exchange_nil (dr_cache R) (clock 0) ctx message options c of (r, c) \<Rightarrow> (r, md, c)))"

text \<open>The answers that need no exchange: \<open>reject\<close> with the methods \<open>default\<close> and \<open>drop\<close>, and predefined ones.\<close>

definition action_response :: "('dl, rr_body) rule_action option \<Rightarrow> dns_msg \<Rightarrow> (dns_error + dns_msg) option" where
  "action_response act message =
     (case act of
        Some (RuleActionReject method _ _) \<Rightarrow>
          if method = RuleActionRejectMethodDefault
          then Some (Inr \<lparr>msg_Id = msg_Id message, msg_Response = True, msg_Authoritative = False,
            msg_RecursionDesired = False, msg_RecursionAvailable = False, msg_Rcode = RcodeRefused,
            msg_Question = take 1 (msg_Question message), msg_Answer = [], msg_Ns = [], msg_Extra = []\<rparr>)
          else if method = RuleActionRejectMethodDrop then Some (Inl ErrDropped) else None
      | Some (RuleActionPredefinedAction p) \<Rightarrow>
          (case Predefined_Response p message of Inl e \<Rightarrow> Some (Inl (DNSFail e)) | Inr m \<Rightarrow> Some (Inr m))
      | _ \<Rightarrow> None)"

text \<open>A rule either passes the query on to the next rule or ends the loop.\<close>

lemma matchDNS_step:
  "(\<exists>md1 o1. matchDNS R fake aq i (r # rs) md options = matchDNS R fake aq (Suc i) rs md1 o1) \<or>
   (\<exists>t md1 o1. matchDNS R fake aq i (r # rs) md options = (t, Some (i, r), md1, o1))"
  by (auto simp: Let_def case_prod_beta split: option.split rule_action.split)

lemma matchDNS_index:
  "matchDNS R fake aq i rs md options = (t, Some (k, r), md', o') \<Longrightarrow> i \<le> k \<and> k < i + length rs \<and> r = rs ! (k - i)"
proof (induction rs arbitrary: i md options)
  case Nil
  then show ?case by simp
next
  case (Cons r' rs)
  from matchDNS_step [of R fake aq i r' rs md options] show ?case
  proof
    assume "\<exists>md1 o1. matchDNS R fake aq i (r' # rs) md options = matchDNS R fake aq (Suc i) rs md1 o1"
    then obtain md1 o1 where "matchDNS R fake aq (Suc i) rs md1 o1 = (t, Some (k, r), md', o')" using Cons.prems by auto
    from Cons.IH [OF this] show ?thesis by (auto simp: nth_Cons' Suc_diff_Suc)
  next
    assume "\<exists>t md1 o1. matchDNS R fake aq i (r' # rs) md options = (t, Some (i, r'), md1, o1)"
    then show ?thesis using Cons.prems by auto
  qed
qed

lemma matchDNS_advances:
  assumes "matchDNS R fake aq start (drop start (dr_rules R)) md options = (t, Some (i, r), md', o')"
  shows "start \<le> i \<and> i < length (dr_rules R) \<and> r = dr_rules R ! i"
  using matchDNS_index [OF assms] by auto

text \<open>
  The loop of \<open>Exchange\<close> from rule \<open>start\<close>: the response, whether the reverse mapping may take its addresses, the
  metadata and the client. \<open>clock start\<close> are the readings of the clock during that turn, \<open>ctxDone\<close> tells
  whether the context of the query has ended.
\<close>

definition may_map :: "DNSTransport option \<Rightarrow> bool" where
  "may_map transport = (case transport of None \<Rightarrow> True | Some t \<Rightarrow> tr_Type t \<noteq> DNSTypeFakeIP)"

function exchange_loop ::
  "('dm, 'ag, 'ip, 'cb, 'dl, 'c) dns_router \<Rightarrow> (nat \<Rightarrow> nat \<Rightarrow> int) \<Rightarrow> dns_ctx \<Rightarrow> bool \<Rightarrow> dns_msg \<Rightarrow> DNSQueryOptions
     \<Rightarrow> nat \<Rightarrow> InboundContext \<Rightarrow> 'c Client \<Rightarrow> (dns_error + dns_msg) \<times> bool \<times> InboundContext \<times> 'c Client" where
  "exchange_loop R clock ctx ctxDone message options start md c =
     (case matchDNS R True (isAddressQuery message) start (drop start (dr_rules R)) md options of
        (transport, sel, md, dnsOptions) \<Rightarrow>
          case (case sel of None \<Rightarrow> None | Some (i, r) \<Rightarrow> action_response (tree_Action r) message) of
            Some res \<Rightarrow> (res, False, md, c)
          | None \<Rightarrow>
              (let check = responseCheck R sel in
               case client_exchange R (clock start) ctx transport message (default_strategy R dnsOptions) check md c of
                 (res, md, c) \<Rightarrow>
                   (case (res, sel) of
                      (Inl err, Some (i, r)) \<Rightarrow>
                        (let rejected = is_rejected err;
                             bypass = (BypassIfFailed r \<and> \<not> ctxDone) in
                         if (check \<noteq> None \<and> rejected) \<or> bypass
                         then exchange_loop R clock ctx ctxDone message options (Suc i) md c
                         else (res, may_map transport, md, c))
                    | _ \<Rightarrow> (res, may_map transport, md, c))))"
  by pat_completeness auto

termination
  by (relation "measure (\<lambda>(R, _, _, _, _, _, start, _, _). length (dr_rules R) - start)")
    (auto dest!: sym [of _ "matchDNS _ _ _ _ _ _ _"] matchDNS_advances)

declare exchange_loop.simps [simp del]

text \<open>The entries the reverse mapping takes from a response: address, domain and lifetime.\<close>

definition reverse_entries :: "dns_lib \<Rightarrow> dns_msg \<Rightarrow> (addr \<times> string \<times> duration) list" where
  "reverse_entries D response =
     concat (map (\<lambda>r. case rr_data r of
         RD_A ip \<Rightarrow> [(AddrFromIP D ip, FqdnToDomain D (rr_Name r), int (unat (rr_Ttl r)) * 1000000000)]
       | RD_AAAA ip \<Rightarrow> [(AddrFromIP D ip, FqdnToDomain D (rr_Name r), int (unat (rr_Ttl r)) * 1000000000)]
       | _ \<Rightarrow> []) (msg_Answer response))"

definition query_metadata :: "dns_lib \<Rightarrow> question \<Rightarrow> InboundContext \<Rightarrow> InboundContext" where
  "query_metadata D q md =
     (let md = md\<lparr>md_Destination := zeroSocksaddr, md_QueryType := fst (snd q)\<rparr>;
          md = (if fst (snd q) = TypeA then md\<lparr>md_IPVersion := 4\<rparr>
                else if fst (snd q) = TypeAAAA then md\<lparr>md_IPVersion := 6\<rparr> else md) in
      md\<lparr>md_Domain := FqdnToDomain D (fst q)\<rparr>)"

text \<open>\<open>Exchange\<close>: the response, the new entries of the reverse mapping, and the client.\<close>

definition Router_Exchange ::
  "('dm, 'ag, 'ip, 'cb, 'dl, 'c) dns_router \<Rightarrow> (nat \<Rightarrow> nat \<Rightarrow> int) \<Rightarrow> dns_ctx \<Rightarrow> bool \<Rightarrow> InboundContext \<Rightarrow> dns_msg
     \<Rightarrow> DNSQueryOptions \<Rightarrow> 'c Client \<Rightarrow> (dns_error + dns_msg) \<times> (addr \<times> string \<times> duration) list \<times> 'c Client" where
  "Router_Exchange R clock ctx ctxDone md message options c =
     (case msg_Question message of
        [q] \<Rightarrow>
          (let md = query_metadata (dr_dns R) q md in
           case (case qo_Transport options of
                   Some transport \<Rightarrow>
                     (case Exchange (dr_dns R) (dr_cache R) (clock 0 0) (clock 0 1) ctx transport message
                             (default_strategy R (legacy_options transport options)) None md c of
                        (res, md, c) \<Rightarrow> (res, may_map (Some transport), md, c))
                 | None \<Rightarrow> exchange_loop R clock ctx ctxDone message options 0 md c) of
             (res, mapping, md, c) \<Rightarrow>
               (res, (case res of
                        Inr response \<Rightarrow> if dr_reverseMapping R \<and> mapping then reverse_entries (dr_dns R) response else []
                      | Inl _ \<Rightarrow> []), c))
      | _ \<Rightarrow>
          (Inr \<lparr>msg_Id = msg_Id message, msg_Response = True, msg_Authoritative = False, msg_RecursionDesired = False,
            msg_RecursionAvailable = False, msg_Rcode = RcodeFormatError, msg_Question = msg_Question message,
            msg_Answer = [], msg_Ns = [], msg_Extra = []\<rparr>, [], c))"

text \<open>The reverse mapping is an LRU cache; \<open>get\<close> is its lookup.\<close>

definition LookupReverseMapping ::
  "('dm, 'ag, 'ip, 'cb, 'dl, 'c) dns_router \<Rightarrow> ('m \<Rightarrow> addr \<Rightarrow> string option) \<Rightarrow> 'm \<Rightarrow> addr \<Rightarrow> string option" where
  "LookupReverseMapping R get mapping ip = (if \<not> dr_reverseMapping R then None else get mapping ip)"

definition DNS_ClearCache :: "('dm, 'ag, 'ip, 'cb, 'dl, 'c) dns_router \<Rightarrow> 'c Client \<Rightarrow> 'c Client" where
  "DNS_ClearCache R c = ClearCache (dr_cache R) c"

section \<open>Lookup\<close>

text \<open>\<open>printResult\<close>: an empty result without error becomes an error, and an error gets its context.\<close>

definition print_result :: "string \<Rightarrow> addr list \<times> dns_error option \<Rightarrow> addr list \<times> dns_error option" where
  "print_result domain = (\<lambda>(addrs, err).
     let err = (if err = None \<and> length addrs = 0 then Some (DNSFail (E_New [S ''empty result''])) else err) in
     (addrs, map_option (\<lambda>e. DNSCause e [S ''lookup '', S domain]) err))"

definition predefined_addresses :: "dns_lib \<Rightarrow> rr_body RuleActionPredefined \<Rightarrow> addr list" where
  "predefined_addresses D p =
     concat (map (\<lambda>r. case rr_data r of RD_A ip \<Rightarrow> [AddrFromIP D ip] | RD_AAAA ip \<Rightarrow> [AddrFromIP D ip] | _ \<Rightarrow> []) (pr_Answer p))"

text \<open>
  The loop of \<open>Lookup\<close> from rule \<open>start\<close>. The variables \<open>responseAddrs\<close> and \<open>err\<close> of the code live across the
  turns; \<open>drops\<close> are the drop counters of the reject actions, by rule.
\<close>

function lookup_loop ::
  "('dm, 'ag, 'ip, 'cb, 'dl, 'c) dns_router \<Rightarrow> (nat \<Rightarrow> nat \<Rightarrow> int) \<Rightarrow> dns_ctx \<Rightarrow> string \<Rightarrow> DNSQueryOptions
     \<Rightarrow> nat \<Rightarrow> addr list \<times> dns_error option \<Rightarrow> InboundContext \<Rightarrow> 'c Client \<Rightarrow> (nat \<Rightarrow> int list)
     \<Rightarrow> (addr list \<times> dns_error option) \<times> 'c Client \<times> (nat \<Rightarrow> int list)" where
  "lookup_loop R clock ctx domain options start vars md c drops =
     (case matchDNS R False True start (drop start (dr_rules R)) md options of
        (transport, sel, md, dnsOptions) \<Rightarrow>
          (case (case sel of None \<Rightarrow> None | Some (i, r) \<Rightarrow> map_option (\<lambda>a. (i, a)) (tree_Action r)) of
             Some (i, RuleActionReject method noDrop _) \<Rightarrow>
               (case RejectError method noDrop (clock start 0) (drops i) of
                  Inl e \<Rightarrow> (([], Some (DNSFail e)), c, drops)
                | Inr (why, counter) \<Rightarrow> (([], Some (RejectedError why)), c, drops(i := counter)))
           | Some (i, RuleActionPredefinedAction p) \<Rightarrow>
               (print_result domain
                  (if pr_Rcode p \<noteq> RcodeSuccess then (fst vars, Some (RcodeError (pr_Rcode p)))
                   else (FilterBlocked (fst vars @ predefined_addresses (dr_dns R) p), snd vars)), c, drops)
           | _ \<Rightarrow>
               (case transport of
                  None \<Rightarrow> (([], Some nil_panic), c, drops)
                | Some t \<Rightarrow>
                    (let check = responseCheck R sel in
                     case Client_Lookup (dr_dns R) (dr_cache R) (clock start) ctx t domain
                            (default_strategy R dnsOptions) check md c of
                       (res, md, c) \<Rightarrow>
                         (let vars = (case res of Inr addrs \<Rightarrow> (addrs, None) | Inl e \<Rightarrow> ([], Some e)) in
                          case sel of
                            None \<Rightarrow> (print_result domain vars, c, drops)
                          | Some (i, r) \<Rightarrow>
                              if length (fst vars) = 0 \<and> BypassIfFailed r
                              then lookup_loop R clock ctx domain options (Suc i) vars md c drops
                              else if check = None \<or> snd vars = None then (print_result domain vars, c, drops)
                              else lookup_loop R clock ctx domain options (Suc i) (print_result domain vars) md c drops)))))"
  by pat_completeness auto

termination
  by (relation "measure (\<lambda>(R, _, _, _, _, start, _, _, _, _). length (dr_rules R) - start)")
    (auto dest!: sym [of _ "matchDNS _ _ _ _ _ _ _"] matchDNS_advances)

declare lookup_loop.simps [simp del]

definition Router_Lookup ::
  "('dm, 'ag, 'ip, 'cb, 'dl, 'c) dns_router \<Rightarrow> (nat \<Rightarrow> nat \<Rightarrow> int) \<Rightarrow> dns_ctx \<Rightarrow> InboundContext \<Rightarrow> string
     \<Rightarrow> DNSQueryOptions \<Rightarrow> 'c Client \<Rightarrow> (nat \<Rightarrow> int list)
     \<Rightarrow> (addr list \<times> dns_error option) \<times> 'c Client \<times> (nat \<Rightarrow> int list)" where
  "Router_Lookup R clock ctx md domain options c drops =
     (let md = md\<lparr>md_Destination := zeroSocksaddr, md_Domain := FqdnToDomain (dr_dns R) domain\<rparr> in
      case qo_Transport options of
        Some transport \<Rightarrow>
          (let o1 = (case tr_Legacy transport of
                       None \<Rightarrow> options
                     | Some (_, subnet) \<Rightarrow>
                         let o1 = default_strategy R options in
                         if \<not> Prefix_IsValid (qo_ClientSubnet o1) then o1\<lparr>qo_ClientSubnet := subnet\<rparr> else o1) in
           case Client_Lookup (dr_dns R) (dr_cache R) (clock 0) ctx transport domain (default_strategy R o1) None md c of
             (res, md, c) \<Rightarrow>
               (print_result domain (case res of Inr addrs \<Rightarrow> (addrs, None) | Inl e \<Rightarrow> ([], Some e)), c, drops))
      | None \<Rightarrow> lookup_loop R clock ctx domain options 0 ([], None) md c drops)"

end
