(* ===== verification/DNS_Properties.thy ===== *)
theory DNS_Properties
  imports DNS_Router Samples
begin

text \<open>
  The properties of the DNS client and the DNS router, with small configurations on which they are applied.
\<close>

section \<open>The rule loop\<close>

lemma st_keeps:
  assumes "\<And>x c. x \<in> set xs \<Longrightarrow> P c \<Longrightarrow> P (snd (f x c))" and "P c"
  shows "P (snd (any_st f xs c))" and "P (snd (all_st f xs c))"
proof -
  have "P (snd (any_st f xs c)) \<and> P (snd (all_st f xs c))"
    using assms
  proof (induction xs arbitrary: c)
    case Nil
    then show ?case by simp
  next
    case (Cons x xs)
    obtain b d where "f x c = (b, d)" by fastforce
    moreover from this have "P d" using Cons.prems(1) [of x c] Cons.prems(2) by simp
    ultimately show ?case using Cons.IH [of d] Cons.prems(1) by simp
  qed
  then show "P (snd (any_st f xs c))" and "P (snd (all_st f xs c))" by auto
qed

text \<open>The first phase of matching keeps the connection.\<close>

lemma core_unignore: "core (d\<lparr>md_IgnoreDestinationIPCIDRMatch := b\<rparr>) = (core d)\<lparr>md_IgnoreDestinationIPCIDRMatch := b\<rparr>"
  by (simp add: core_def ResetRuleCache_def)

lemma dns_Match_frame: "\<not> md_IgnoreDestinationIPCIDRMatch c \<Longrightarrow> core (snd (dns_Match L V G r c)) = core c"
proof (induction r arbitrary: c)
  case (DefaultR r)
  let ?c = "c\<lparr>md_IgnoreDestinationIPCIDRMatch := True\<rparr>"
  obtain b d where m: "adr_Match (any_item_Match L V G) isRuleSet r ?c = (b, d)" by fastforce
  then have "core d = core ?c" using item.adr_Match_frame [of L V G r ?c] by simp
  then have "core (d\<lparr>md_IgnoreDestinationIPCIDRMatch := False\<rparr>) = core (c\<lparr>md_IgnoreDestinationIPCIDRMatch := False\<rparr>)"
    by (simp add: core_unignore)
  moreover have "c\<lparr>md_IgnoreDestinationIPCIDRMatch := False\<rparr> = c" using DefaultR.prems by (cases c) simp
  ultimately show ?case using m by (simp add: default_dns_Match_def)
next
  case (LogicalR rs md neg act)
  have "core (snd (dns_Match L V G r (ResetRuleCache d))) = core c" if "r \<in> set rs" "core d = core c" for r d
  proof -
    have "\<not> md_IgnoreDestinationIPCIDRMatch (ResetRuleCache d)"
      using core_Ignore_eq [OF that(2)] LogicalR.prems by (simp add: ResetRuleCache_def)
    then show ?thesis using LogicalR.IH [OF that(1), of "ResetRuleCache d"] that(2) by simp
  qed
  from st_keeps [where P = "\<lambda>d. core d = core c" and f = "\<lambda>r c. dns_Match L V G r (ResetRuleCache c)", OF this refl]
  show ?case by (cases md) (simp_all add: logical_Match_def Let_def case_prod_beta)
qed

text \<open>The rules that can end the loop: they choose a transport that may be used, or answer themselves.\<close>

definition ends_loop :: "('dm, 'ag, 'ip, 'cb, 'dl, 'c) dns_router \<Rightarrow> bool \<Rightarrow> ('dm, 'ag, 'ip, 'dl, rr_body) rule \<Rightarrow> bool" where
  "ends_loop R allowFakeIP r =
     (case tree_Action r of
        Some (RuleActionDNSRoute server act) \<Rightarrow>
          (case dr_Transport R server of None \<Rightarrow> False | Some t \<Rightarrow> tr_Type t \<noteq> ''fakeip'' \<or> allowFakeIP)
      | Some (RuleActionReject _ _ _) \<Rightarrow> True
      | Some (RuleActionPredefinedAction _) \<Rightarrow> True
      | _ \<Rightarrow> False)"

definition rule_applies ::
  "('dm, 'ag, 'ip, 'cb, 'dl, 'c) dns_router \<Rightarrow> bool \<Rightarrow> bool \<Rightarrow> InboundContext \<Rightarrow> ('dm, 'ag, 'ip, 'dl, rr_body) rule \<Rightarrow> bool" where
  "rule_applies R allowFakeIP aq md r \<longleftrightarrow>
     (WithAddressLimit (dr_store R) r \<longrightarrow> aq) \<and>
     fst (dns_Match (dr_lib R) (dr_env R) (dr_store R) r (ResetRuleCache md)) \<and> ends_loop R allowFakeIP r"

lemma matchDNS_applies:
  assumes "\<not> md_IgnoreDestinationIPCIDRMatch md"
  shows "if rule_applies R fake aq md r
    then \<exists>t o1 md1. matchDNS R fake aq i (r # rs) md options = (t, Some (i, r), md1, o1)
    else \<exists>md1 o1. matchDNS R fake aq i (r # rs) md options = matchDNS R fake aq (Suc i) rs md1 o1 \<and> core md1 = core md"
proof -
  obtain b d where m: "dns_Match (dr_lib R) (dr_env R) (dr_store R) r (ResetRuleCache md) = (b, d)" by fastforce
  have "\<not> md_IgnoreDestinationIPCIDRMatch (ResetRuleCache md)" using assms by (simp add: ResetRuleCache_def)
  from dns_Match_frame [OF this] m have d: "core d = core md" by (metis snd_conv core_updates(10))
  show ?thesis
  proof (cases "b \<and> (WithAddressLimit (dr_store R) r \<longrightarrow> aq)")
    case False
    then show ?thesis using m d by (auto simp: rule_applies_def)
  next
    case True
    then show ?thesis using m d
      by (cases "tree_Action r") (auto simp: rule_applies_def ends_loop_def Let_def split: rule_action.split option.split)
  qed
qed

declare matchDNS.simps(2) [simp del]

lemma rule_applies_core: "core md = core md' \<Longrightarrow> rule_applies R fake aq md r = rule_applies R fake aq md' r"
  by (simp add: rule_applies_def core_def)

lemma matchDNS_first:
  assumes "\<not> md_IgnoreDestinationIPCIDRMatch md"
  shows "case fst (snd (matchDNS R fake aq i rs md options)) of
      None \<Rightarrow> list_all (\<lambda>r. \<not> rule_applies R fake aq md r) rs
    | Some (k, r) \<Rightarrow> \<exists>pre post. rs = pre @ r # post \<and> k = i + length pre \<and> rule_applies R fake aq md r \<and>
        list_all (\<lambda>r. \<not> rule_applies R fake aq md r) pre"
  using assms
proof (induction rs arbitrary: i md options)
  case Nil
  then show ?case by simp
next
  case (Cons r rs)
  show ?case
  proof (cases "rule_applies R fake aq md r")
    case True
    then obtain t md1 o1 where "matchDNS R fake aq i (r # rs) md options = (t, Some (i, r), md1, o1)"
      using matchDNS_applies [OF Cons.prems, of R fake aq r i rs options] by auto
    then show ?thesis using True by (auto intro!: exI [of _ "[]"])
  next
    case False
    then obtain md1 o1 where s: "matchDNS R fake aq i (r # rs) md options = matchDNS R fake aq (Suc i) rs md1 o1"
      and core: "core md1 = core md"
      using matchDNS_applies [OF Cons.prems, of R fake aq r i rs options] by auto
    have "\<not> md_IgnoreDestinationIPCIDRMatch md1" using core_Ignore_eq [OF core] Cons.prems by simp
    note IH = Cons.IH [OF this, of "Suc i" o1]
    have ra: "rule_applies R fake aq md1 = rule_applies R fake aq md" using rule_applies_core [OF core] by blast
    show ?thesis
    proof (cases "fst (snd (matchDNS R fake aq (Suc i) rs md1 o1))")
      case None
      then show ?thesis using IH False by (simp add: s ra)
    next
      case (Some sel)
      then obtain k r' where sel: "fst (snd (matchDNS R fake aq (Suc i) rs md1 o1)) = Some (k, r')" by (cases sel) auto
      then obtain pre post where "rs = pre @ r' # post" "k = Suc i + length pre" "rule_applies R fake aq md r'"
        "list_all (\<lambda>r. \<not> rule_applies R fake aq md r) pre" using IH by (auto simp: ra)
      then show ?thesis unfolding s sel option.case prod.case using False
        by (intro exI [of _ "r # pre"] exI [of _ post]) simp
    qed
  qed
qed

lemma matchDNS_default: "fst (snd (matchDNS R fake aq i rs md options)) = None \<Longrightarrow>
    fst (matchDNS R fake aq i rs md options) = Some (dr_Default R)"
proof (induction rs arbitrary: i md options)
  case Nil
  then show ?case by simp
next
  case (Cons r rs)
  then show ?case using matchDNS_step [of R fake aq i r rs md options] by auto
qed

text \<open>
  C19. The rule loop of the DNS router takes the first rule that applies: among the rules that may be asked for
  this kind of query, that match the query, and whose action names a usable transport or is an answer itself,
  it returns the first, with its index; without such a rule it takes the default transport.
\<close>

theorem dns_first_match:
  assumes "\<not> md_IgnoreDestinationIPCIDRMatch md"
  shows "case matchDNS R fake aq 0 (dr_rules R) md options of
      (t, None, _, _) \<Rightarrow> t = Some (dr_Default R) \<and> list_all (\<lambda>r. \<not> rule_applies R fake aq md r) (dr_rules R)
    | (t, Some (k, r), _, _) \<Rightarrow> k < length (dr_rules R) \<and> r = dr_rules R ! k \<and> rule_applies R fake aq md r \<and>
        list_all (\<lambda>r. \<not> rule_applies R fake aq md r) (take k (dr_rules R))"
proof -
  obtain t sel md1 o1 where m: "matchDNS R fake aq 0 (dr_rules R) md options = (t, sel, md1, o1)" using prod_cases4 by blast
  show ?thesis
  proof (cases sel)
    case None
    have "t = Some (dr_Default R)" using matchDNS_default [of R fake aq 0 "dr_rules R" md options] m None by simp
    then show ?thesis using matchDNS_first [OF assms, where R = R and fake = fake and aq = aq and i = 0 and rs = "dr_rules R" and options = options] by (simp add: m None)
  next
    case (Some kr)
    then obtain k r where kr: "sel = Some (k, r)" by (cases kr) auto
    then obtain pre post where p: "dr_rules R = pre @ r # post" "k = length pre" "rule_applies R fake aq md r"
      "list_all (\<lambda>r. \<not> rule_applies R fake aq md r) pre"
      using matchDNS_first [OF assms, where R = R and fake = fake and aq = aq and i = 0 and rs = "dr_rules R" and options = options] by (auto simp: m)
    show ?thesis unfolding m kr prod.case option.case using p by simp
  qed
qed

section \<open>A configuration\<close>

type_synonym sample_router = "(string list, string list, (Prefix + addr) list, unit, unit, (cache_key \<times> dns_msg \<times> int) list) dns_router"

text \<open>A cache that keeps everything it is given, with its expiry.\<close>

definition sample_cache :: "(cache_key \<times> dns_msg \<times> int) list dns_cache" where
  "sample_cache = \<lparr>dc_Get = (\<lambda>now c k. (map_option fst (map_of c k), c)),
     dc_GetWithLifetime = (\<lambda>now c k. (map_of c k, c)),
     dc_Add = (\<lambda>now c k m. (k, m, now) # c),
     dc_AddWithLifetime = (\<lambda>now c k m l. (k, m, now + l) # c),
     dc_Remove = (\<lambda>c k. filter (\<lambda>(k', _). k' \<noteq> k) c),
     dc_Purge = (\<lambda>c. [])\<rparr>"

lemma sample_cache_ok: "cache_ok sample_cache map_of"
proof -
  have "map_of (filter (\<lambda>(k', _). k' \<noteq> k) c) = (map_of c)(k := None)" for k and c :: "(cache_key \<times> dns_msg \<times> int) list"
    by (induction c) auto
  then show ?thesis by (simp add: cache_ok_def sample_cache_def)
qed

definition sample_dns :: dns_lib where
  "sample_dns = \<lparr>AddrFromIP = AddrFromSlice, dl_ParseAddr = (\<lambda>_. AddrInvalid), dl_IsFqdn = (\<lambda>s. s \<noteq> [] \<and> last s = CHR ''.''),
     dl_Fqdn = (\<lambda>s. s @ ''.''), IsEdns0 = (\<lambda>m. find (\<lambda>r. rr_type r = TypeOPT) (msg_Extra m)), SetEdns0 = (\<lambda>m _ _. m),
     OPT_Version = (\<lambda>_. 0), OPT_UDPSize = (\<lambda>_. 0), OPT_Do = (\<lambda>_. False), GroupError = hd\<rparr>"

definition no_wait :: dns_ctx where
  "no_wait = \<lparr>cx_transport = None, cx_wait = (\<lambda>_ _. None)\<rparr>"

definition answer_with :: "32 word \<Rightarrow> dns_msg \<Rightarrow> dns_error + dns_msg" where
  "answer_with ip m = Inr (FixedResponse (msg_Id m) (hd (msg_Question m)) [Addr4 ip] 60)"

definition server :: "string \<Rightarrow> 32 word \<Rightarrow> DNSTransport" where
  "server tag ip = \<lparr>tr_Tag = tag, tr_Type = ''udp'', tr_Legacy = None, tr_Exchange = answer_with ip\<rparr>"

definition no_options :: DNSQueryOptions where
  "no_options = \<lparr>qo_Transport = None, qo_Strategy = 0, qo_LookupStrategy = 0, qo_DisableCache = False,
     qo_RewriteTTL = None, qo_ClientSubnet = zeroPrefix\<rparr>"

definition no_route_options :: RuleActionDNSRouteOptions where
  "no_route_options = \<lparr>dns_Strategy = 0, dns_DisableCache = False, dns_RewriteTTL = None, dns_ClientSubnet = zeroPrefix,
     dns_BypassIfFailed = False\<rparr>"

definition sample_client :: "(cache_key \<times> dns_msg \<times> int) list Client" where
  "sample_client = \<lparr>cl_disableCache = False, cl_disableExpire = False, cl_independentCache = False,
     cl_clientSubnet = zeroPrefix, cl_rdrc = None, cl_cache = []\<rparr>"

definition dns_rule_for ::
  "group \<Rightarrow> (string list, string list, (Prefix + addr) list) leaf_item \<Rightarrow> (unit, rr_body) rule_action
     \<Rightarrow> (string list, string list, (Prefix + addr) list, unit, rr_body) rule" where
  "dns_rule_for g item act = DefaultR (put_item g (Leaf item) (empty_rule False (Some act)))"

definition router_with :: "(string list, string list, (Prefix + addr) list, unit, rr_body) rule list \<Rightarrow> sample_router" where
  "router_with rules = \<lparr>dr_lib = sample_lib, dr_env = sample_env, dr_store = (\<lambda>_. None), dr_dns = sample_dns,
     dr_cache = sample_cache, dr_rules = rules,
     dr_Transport = (\<lambda>tag. if tag = ''local'' then Some (server ''local'' 2) else None),
     dr_Default = server ''default'' 1, dr_defaultDomainStrategy = 0, dr_reverseMapping = False\<rparr>"

definition query_for :: "string \<Rightarrow> dns_msg" where
  "query_for name = lookup_message (name, TypeA, ClassINET)"

theorem dns_first_match_witness:
  "case matchDNS (router_with [dns_rule_for DestinationAddress (DomainItem [''a''] []) (RuleActionDNSRoute ''local'' no_route_options)])
        True True 0 (dr_rules (router_with [dns_rule_for DestinationAddress (DomainItem [''a''] []) (RuleActionDNSRoute ''local'' no_route_options)]))
        (zeroInboundContext\<lparr>md_Domain := ''a''\<rparr>) no_options of
      (t, None, _, _) \<Rightarrow> False
    | (t, Some (k, r), _, _) \<Rightarrow> k = 0"
proof -
  let ?r = "dns_rule_for DestinationAddress (DomainItem [''a''] []) (RuleActionDNSRoute ''local'' no_route_options)"
  let ?md = "zeroInboundContext\<lparr>md_Domain := ''a''\<rparr>"
  have rules: "dr_rules (router_with [?r]) = [?r]" by (simp add: router_with_def)
  have a: "rule_applies (router_with [?r]) True True ?md ?r"
    by (simp add: rule_applies_def ends_loop_def router_with_def server_def dns_rule_for_def default_dns_defs adr_Match_def
        match_groups_def match_group_def any_item_Match_def leaf_im_def sample_eval ResetRuleCache_def)
  have n: "\<not> md_IgnoreDestinationIPCIDRMatch ?md" by (simp add: zeroInboundContext_def)
  obtain t sel md1 o1 where m: "matchDNS (router_with [?r]) True True 0 (dr_rules (router_with [?r])) ?md no_options = (t, sel, md1, o1)"
    using prod_cases4 by blast
  from dns_first_match [OF n, of "router_with [?r]" True True no_options] a show ?thesis
    unfolding m by (cases sel) (auto simp: rules)
qed

section \<open>The cache\<close>



section \<open>Rules that end a query without a transport\<close>

text \<open>
  A DNS rule that rejects with the method \<open>reply\<close>, which the options accept, makes the router panic: no
  answer is made for it, and the client is called with a nil transport, unless the answer is cached.
\<close>

theorem dns_reject_reply_panics:
  assumes "msg_Question message = [q]" and "qo_Transport options = None" and "dr_rules R = r # rs"
    and "tree_Action r = Some (RuleActionReject ''reply'' noDrop counter)"
    and "rule_applies R True (isAddressQuery message) (query_metadata (dr_dns R) q md) r"
    and "\<not> strategy_rejects q (qo_Strategy (default_strategy R options))"
    and "loadResponse (dr_cache R) (clock 0 0) q [] c = (None, c1)"
  shows "fst (Router_Exchange R clock ctx ctxDone md message options c) = Inl nil_panic"
proof -
  let ?md = "query_metadata (dr_dns R) q md"
  obtain md1 where "dns_Match (dr_lib R) (dr_env R) (dr_store R) r (ResetRuleCache ?md) = (True, md1)"
    and "WithAddressLimit (dr_store R) r \<longrightarrow> isAddressQuery message"
    using assms(5) by (auto simp: rule_applies_def) (metis prod.collapse)+
  then have m: "matchDNS R True (isAddressQuery message) 0 (dr_rules R) ?md options = (None, Some (0, r), md1, options)"
    using assms(3,4) by (auto simp: matchDNS.simps(2))
  have act: "action_response (tree_Action r) message = None" by (simp add: assms(4) action_response_def)
  have nb: "\<not> BypassIfFailed r" by (simp add: BypassIfFailed_def assms(4))
  have "fst (Exchange_nil (dr_cache R) (clock 0 0) ctx message (default_strategy R options) c) = Inl nil_panic"
    using assms(1,6,7) by (simp add: Exchange_nil_def Let_def)
  then have "fst (client_exchange R (clock 0) ctx None message (default_strategy R options) (responseCheck R (Some (0, r))) md1 c) = Inl nil_panic"
    by (simp add: client_exchange_def case_prod_beta)
  then obtain md2 c2 where "client_exchange R (clock 0) ctx None message (default_strategy R options) (responseCheck R (Some (0, r))) md1 c
      = (Inl nil_panic, md2, c2)" by (metis prod.collapse)
  then have "fst (exchange_loop R clock ctx ctxDone message options 0 ?md c) = Inl nil_panic"
    using m act nb by (subst exchange_loop.simps) (simp add: nil_panic_def Let_def)
  then show ?thesis using assms(1,2) by (simp add: Router_Exchange_def Let_def case_prod_beta)
qed

definition reply_rule :: "(string list, string list, (Prefix + addr) list, unit, rr_body) rule" where
  "reply_rule = dns_rule_for Items (NewNetworkItem [''udp'']) (RuleActionReject ''reply'' False [])"

theorem dns_reject_reply_panics_witness:
  "fst (Router_Exchange (router_with [reply_rule]) (\<lambda>_ _. 0) no_wait False (zeroInboundContext\<lparr>md_Network := ''udp''\<rparr>)
     (query_for ''a.'') no_options sample_client) = Inl nil_panic"
proof (rule dns_reject_reply_panics [where r = reply_rule and rs = "[]" and q = "(''a.'', TypeA, ClassINET)" and noDrop = False and counter = "[]"])
  show "rule_applies (router_with [reply_rule]) True (isAddressQuery (query_for ''a.''))
      (query_metadata (dr_dns (router_with [reply_rule])) (''a.'', TypeA, ClassINET) (zeroInboundContext\<lparr>md_Network := ''udp''\<rparr>)) reply_rule"
    by (simp add: rule_applies_def ends_loop_def router_with_def reply_rule_def dns_rule_for_def default_dns_defs adr_Match_def
        match_groups_def match_group_def any_item_Match_def leaf_im_def isRuleSet_def isAddressQuery_def query_for_def lookup_message_def
        query_metadata_def sample_eval ResetRuleCache_def)
qed (simp_all add: query_for_def lookup_message_def no_options_def router_with_def reply_rule_def dns_rule_for_def put_item_def
    empty_rule_def strategy_rejects_def default_strategy_def loadResponse_def sample_cache_def sample_client_def Let_def no_wait_def)

section \<open>Rejected responses\<close>

text \<open>
  \<open>Lookup\<close> does not forget an error: when the response for a rule with an address limit is rejected and the
  next rule has a predefined answer, the lookup returns the predefined addresses together with the error of the
  rejected response.
\<close>

theorem dns_lookup_stale_error:
  assumes "qo_Transport options = None"
    and "matchDNS R False True 0 (dr_rules R) (md\<lparr>md_Destination := zeroSocksaddr, md_Domain := FqdnToDomain (dr_dns R) domain\<rparr>) options
      = (Some t, Some (i, r), md1, o1)"
    and "tree_Action r = Some (RuleActionDNSRoute srv act)" and "WithAddressLimit (dr_store R) r" and "\<not> BypassIfFailed r"
    and "Client_Lookup (dr_dns R) (dr_cache R) (clock 0) ctx t domain (default_strategy R o1) (responseCheck R (Some (i, r))) md1 c
      = (Inl e, md2, c2)"
    and "matchDNS R False True (Suc i) (drop (Suc i) (dr_rules R)) md2 options = (None, Some (k, r'), md3, o3)"
    and "tree_Action r' = Some (RuleActionPredefinedAction p)" and "pr_Rcode p = 0"
  shows "fst (Router_Lookup R clock ctx md domain options c drops) =
    (FilterBlocked (predefined_addresses (dr_dns R) p),
     Some (DNSCause (DNSCause e [S ''lookup '', S domain]) [S ''lookup '', S domain]))"
proof -
  obtain chk where "responseCheck R (Some (i, r)) = Some chk" using assms(4) by (simp add: responseCheck_def)
  then have "lookup_loop R clock ctx domain options 0 ([], None)
      (md\<lparr>md_Destination := zeroSocksaddr, md_Domain := FqdnToDomain (dr_dns R) domain\<rparr>) c drops
    = lookup_loop R clock ctx domain options (Suc i) (print_result domain ([], Some e)) md2 c2 drops"
    using assms(2-6) by (subst lookup_loop.simps) (simp add: Let_def)
  also have "fst \<dots> = print_result domain (FilterBlocked (predefined_addresses (dr_dns R) p), snd (print_result domain ([], Some e)))"
    using assms(7-9) by (subst lookup_loop.simps) (simp add: print_result_def)
  finally show ?thesis using assms(1) by (simp add: Router_Lookup_def print_result_def Let_def)
qed

definition lan_rule :: "(string list, string list, (Prefix + addr) list, unit, rr_body) rule" where
  "lan_rule = dns_rule_for DestinationIPCIDR (IPCIDRItem [Inr (Addr4 7)] False []) (RuleActionDNSRoute ''local'' no_route_options)"

definition fixed_rule :: "(string list, string list, (Prefix + addr) list, unit, rr_body) rule" where
  "fixed_rule = dns_rule_for DestinationAddress (DomainItem [''a''] [])
     (RuleActionPredefinedAction \<lparr>pr_Rcode = 0, pr_Answer = [new_rr ''a.'' TypeA 60 (RD_A [192, 168, 0, 1])], pr_Ns = [], pr_Extra = []\<rparr>)"

lemmas dns_eval = router_with_def lan_rule_def fixed_rule_def dns_rule_for_def default_dns_defs adr_Match_def match_groups_def
  match_group_def any_item_Match_def leaf_im_def isRuleSet_def sample_eval ResetRuleCache_def IPCIDR_Match_def

text \<open>
  The check of a response does not start with an empty rule cache: after the rule with an address limit has
  accepted one response, it accepts every other one. \<open>Lookup\<close> checks the answers for A and AAAA with one metadata.
\<close>

lemma second_answer_unchecked:
  assumes "MatchAddressLimit L V G lan_rule (md\<lparr>md_DestinationAddresses := addrs\<rparr>) = (True, md1)"
    and "\<not> md_IgnoreDestinationIPCIDRMatch md"
  shows "fst (MatchAddressLimit L V G lan_rule (md1\<lparr>md_DestinationAddresses := addrs'\<rparr>))"
proof -
  have "md_DestinationAddressMatch md1 \<and> \<not> md_IgnoreDestinationIPCIDRMatch md1"
    using assms by (auto simp: dns_eval Let_def case_prod_beta split: if_splits)
  then show ?thesis by (simp add: dns_eval)
qed

definition broken :: DNSTransport where
  "broken = \<lparr>tr_Tag = ''local'', tr_Type = ''udp'', tr_Legacy = None, tr_Exchange = (\<lambda>_. Inl (DNSFail (E_Lib ''i/o timeout'')))\<rparr>"

definition stale_router :: sample_router where
  "stale_router = (router_with [lan_rule, fixed_rule])\<lparr>dr_Transport := \<lambda>_. Some broken\<rparr>"

theorem dns_lookup_stale_error_witness:
  "\<exists>err. fst (Router_Lookup stale_router (\<lambda>_ _. 0) no_wait zeroInboundContext ''a'' no_options sample_client (\<lambda>_. []))
     = ([Addr4 0xC0A80001], Some err)"
proof -
  let ?R = stale_router
  let ?md = "zeroInboundContext\<lparr>md_Destination := zeroSocksaddr, md_Domain := ''a''\<rparr>"
  have name: "FqdnToDomain (dr_dns ?R) ''a'' = ''a''" by (simp add: stale_router_def FqdnToDomain_def router_with_def sample_dns_def)
  have lan: "fst (dns_Match (dr_lib ?R) (dr_env ?R) (dr_store ?R) lan_rule (ResetRuleCache ?md))"
    by (simp add: stale_router_def dns_eval)
  then obtain md1 where m1: "dns_Match (dr_lib ?R) (dr_env ?R) (dr_store ?R) lan_rule (ResetRuleCache ?md) = (True, md1)"
    by (metis prod.collapse)
  have "core md1 = core ?md"
    using dns_Match_frame [of "ResetRuleCache ?md" "dr_lib ?R" "dr_env ?R" "dr_store ?R" lan_rule] m1
    by (simp add: ResetRuleCache_def zeroInboundContext_def core_def)
  then have reset: "ResetRuleCache md1 = ResetRuleCache ?md" by (simp add: core_def)
  have "fst (dns_Match (dr_lib ?R) (dr_env ?R) (dr_store ?R) fixed_rule (ResetRuleCache ?md))"
    by (simp add: stale_router_def dns_eval)
  then obtain md3 where m3: "dns_Match (dr_lib ?R) (dr_env ?R) (dr_store ?R) fixed_rule (ResetRuleCache md1) = (True, md3)"
    unfolding reset by (metis prod.collapse)
  have rules: "dr_rules ?R = [lan_rule, fixed_rule]" by (simp add: stale_router_def router_with_def)
  have act: "tree_Action lan_rule = Some (RuleActionDNSRoute ''local'' no_route_options)"
    "tree_Action fixed_rule = Some (RuleActionPredefinedAction \<lparr>pr_Rcode = 0,
       pr_Answer = [new_rr ''a.'' TypeA 60 (RD_A [192, 168, 0, 1])], pr_Ns = [], pr_Extra = []\<rparr>)"
    by (simp_all add: lan_rule_def fixed_rule_def dns_rule_for_def put_item_def empty_rule_def)
  have lim: "WithAddressLimit (dr_store ?R) lan_rule"
    by (simp add: lan_rule_def dns_rule_for_def put_item_def empty_rule_def default_dns_defs)
  have 1: "matchDNS ?R False True 0 (dr_rules ?R) ?md no_options = (Some broken, Some (0, lan_rule), md1, no_options)"
    using m1 by (simp add: rules matchDNS.simps(2) act)
      (simp add: stale_router_def broken_def legacy_options_def set_options_def no_route_options_def zeroPrefix_def Prefix_IsValid_def)
  have 2: "\<exists>e c2. Client_Lookup (dr_dns ?R) (dr_cache ?R) (\<lambda>_. 0) no_wait broken ''a'' (default_strategy ?R no_options)
      (responseCheck ?R (Some (0, lan_rule))) md1 sample_client = (Inl e, md1, c2)"
    by (simp add: Client_Lookup_def lookupToExchange_def questionCache_def loadResponse_def Exchange_def exchange_remote_def
        lookup_message_def default_strategy_def no_options_def stale_router_def router_with_def sample_cache_def sample_client_def
        broken_def strategy_rejects_def Let_def isSimpleRequest_def add_subnet_def zeroPrefix_def Prefix_IsValid_def cache_key_def no_wait_def)
  then obtain e c2 where 2: "Client_Lookup (dr_dns ?R) (dr_cache ?R) ((\<lambda>_ _. 0) (0 :: nat)) no_wait broken ''a'' (default_strategy ?R no_options)
      (responseCheck ?R (Some (0, lan_rule))) md1 sample_client = (Inl e, md1, c2)" by blast
  have 3: "matchDNS ?R False True (Suc 0) (drop (Suc 0) (dr_rules ?R)) md1 no_options = (None, Some (Suc 0, fixed_rule), md3, no_options)"
    using m3 by (simp add: rules matchDNS.simps(2) act)
  have "fst (Router_Lookup ?R (\<lambda>_ _. 0) no_wait zeroInboundContext ''a'' no_options sample_client (\<lambda>_. [])) =
      (FilterBlocked (predefined_addresses (dr_dns ?R) \<lparr>pr_Rcode = 0,
         pr_Answer = [new_rr ''a.'' TypeA 60 (RD_A [192, 168, 0, 1])], pr_Ns = [], pr_Extra = []\<rparr>),
       Some (DNSCause (DNSCause e [S ''lookup '', S ''a'']) [S ''lookup '', S ''a'']))"
    by (rule dns_lookup_stale_error [OF _ _ act(1) lim _ 2 3 act(2)])
      (simp_all add: name 1, simp_all add: no_options_def BypassIfFailed_def act no_route_options_def)
  moreover have "AddrFromSlice [192, 168, 0, 1] = Addr4 0xC0A80001" by (simp add: AddrFromSlice_def be_value_def)
  then have "FilterBlocked (predefined_addresses (dr_dns ?R) \<lparr>pr_Rcode = 0,
         pr_Answer = [new_rr ''a.'' TypeA 60 (RD_A [192, 168, 0, 1])], pr_Ns = [], pr_Extra = []\<rparr>) = [Addr4 0xC0A80001]"
    by (simp add: stale_router_def router_with_def sample_dns_def predefined_addresses_def new_rr_def rr_data_def FilterBlocked_def
        IsBlockedIP_def blockedPrefixes_def Contains4_iff) (simp add: Prefix_Contains_def)
  ultimately show ?thesis by auto
qed

end
