(* ===== verification/Monitor.thy ===== *)
theory Monitor
  imports Url_History
begin

text \<open>
  The outbound monitor (\<open>common/monitoring/outbound_monitoring.go\<close>): it tests the outbounds in cycles and on request,
  through a queue of ordinary tests and one of urgent tests, and keeps the last result of every outbound. The maps
  of the code are iterated in an unspecified order, which is an argument (\<open>order\<close>) here. Times and durations are
  in nanoseconds.
\<close>

section \<open>State\<close>

record 'info outboundState =
  os_groupTags :: "string list"
  os_dependenciesInverse :: "string list"
  os_dependencies :: "string list"
  os_lastURL :: string
  os_invalid :: bool
  os_queued :: bool
  os_priorityQueued :: bool
  os_testing :: bool
  os_enqueuedCycle :: "64 word"
  os_from_cache :: bool
  os_history :: "'info URLTestHistory"

record testTask =
  tk_outboundTag :: string
  tk_cycleID :: "64 word"
  tk_priority :: bool
  tk_resultCh :: "nat option"

record 'info testOutcome =
  oc_outboundTag :: string
  oc_url :: string
  oc_history :: "'info URLTestHistory"
  oc_err :: "error option"
  oc_cycleID :: "64 word"
  oc_priority :: bool

text \<open>\<open>notifyCh\<close> has room for one notification.\<close>

record groupState =
  gs_outbounds :: "string set"
  gs_notify :: bool

record 'info monitor =
  mo_done :: bool
  mo_started :: bool
  mo_urls :: "string list"
  mo_currentLinkIndex :: "32 word"
  mo_idleTimeout :: duration
  mo_lastActive :: int
  mo_workersRunning :: bool
  mo_mainInterval :: duration
  mo_debounceWindow :: duration
  mo_urlTestTimeout :: duration
  mo_mainTicker :: bool
  mo_workersCount :: int
  mo_history :: "'info storage"
  mo_priorityQueue :: "testTask list"
  mo_normalQueue :: "testTask list"
  mo_outbounds :: "string \<Rightarrow> 'info outboundState option"
  mo_groups :: "string \<Rightarrow> groupState option"
  mo_cacheDirty :: bool
  mo_cycleSeq :: "64 word"
  mo_cycleRunning :: bool

abbreviation (input) priorityCapacity :: nat where "priorityCapacity \<equiv> 1000"
abbreviation (input) normalCapacity :: nat where "normalCapacity \<equiv> 10000"
abbreviation (input) MonitorTimeout :: "16 word" where "MonitorTimeout \<equiv> 65535"

text \<open>The zero \<open>time.Time\<close>, January 1 of the year 1, and \<open>time.Since\<close>, which saturates.\<close>

definition zeroTime :: int where "zeroTime = -62135596800000000000"

definition Since :: "int \<Rightarrow> int \<Rightarrow> duration" where
  "Since now t = min (2 ^ 63 - 1) (max (- (2 ^ 63)) (now - t))"

definition zeroHistory :: "'info URLTestHistory" where
  "zeroHistory = \<lparr>his_Time = zeroTime, his_Delay = 0, his_IpInfo = None, his_IsFromCache = False\<rparr>"

definition set_state :: "string \<Rightarrow> 'info outboundState \<Rightarrow> 'info monitor \<Rightarrow> 'info monitor" where
  "set_state tag st m = m\<lparr>mo_outbounds := (mo_outbounds m)(tag \<mapsto> st)\<rparr>"

section \<open>Creation and start\<close>

record MonitoringOptions =
  mon_Interval :: duration
  mon_URLs :: "string list"
  mon_Workers :: int
  mon_DebounceWindow :: duration
  mon_URLTestTimeout :: duration
  mon_IdleTimeout :: duration

abbreviation (input) defaultURLTest :: string where "defaultURLTest \<equiv> ''https://www.gstatic.com/generate_204''"

definition NewOutboundMonitoring :: "'info storage \<Rightarrow> MonitoringOptions \<Rightarrow> 'info monitor" where
  "NewOutboundMonitoring H options =
     \<lparr>mo_done = False, mo_started = False,
      mo_urls = (if length (mon_URLs options) = 0 then [defaultURLTest] else mon_URLs options),
      mo_currentLinkIndex = 0,
      mo_idleTimeout = (if mon_IdleTimeout options \<le> 0 then 600000000000 else mon_IdleTimeout options),
      mo_lastActive = zeroTime, mo_workersRunning = False,
      mo_mainInterval = (if mon_Interval options \<le> 0 then 300000000000 else mon_Interval options),
      mo_debounceWindow = (if mon_DebounceWindow options \<le> 0 then 500000000 else mon_DebounceWindow options),
      mo_urlTestTimeout = (if mon_URLTestTimeout options \<le> 0 then 5000000000 else mon_URLTestTimeout options),
      mo_mainTicker = False, mo_workersCount = (if mon_Workers options \<le> 0 then 10 else mon_Workers options),
      mo_history = H, mo_priorityQueue = [], mo_normalQueue = [], mo_outbounds = Map.empty, mo_groups = Map.empty,
      mo_cacheDirty = False, mo_cycleSeq = 0, mo_cycleRunning = False\<rparr>"

definition register :: "(string \<times> string list) list \<Rightarrow> 'info monitor \<Rightarrow> 'info monitor" where
  "register outbounds m =
     foldl (\<lambda>m (tag, deps). set_state tag
       \<lparr>os_groupTags = [], os_dependenciesInverse = [], os_dependencies = deps, os_lastURL = [], os_invalid = True,
        os_queued = False, os_priorityQueued = False, os_testing = False, os_enqueuedCycle = 0, os_from_cache = False,
        os_history = zeroHistory\<rparr> m) m outbounds"

text \<open>The inverse of the dependencies; a dependency that is not registered is a nil pointer.\<close>

fun link_dependencies :: "string \<Rightarrow> string list \<Rightarrow> 'info monitor \<Rightarrow> 'info monitor result" where
  "link_dependencies tag [] m = Inr m"
| "link_dependencies tag (dep # deps) m =
     (case mo_outbounds m dep of
        None \<Rightarrow> Inl (Panic [S ''invalid memory address or nil pointer dereference''])
      | Some st \<Rightarrow>
          link_dependencies tag deps (set_state dep (st\<lparr>os_dependenciesInverse := os_dependenciesInverse st @ [tag]\<rparr>) m))"

fun link_all :: "string list \<Rightarrow> 'info monitor \<Rightarrow> 'info monitor result" where
  "link_all [] m = Inr m"
| "link_all (tag # order) m =
     (case mo_outbounds m tag of
        None \<Rightarrow> link_all order m
      | Some st \<Rightarrow> bind_result (link_dependencies tag (os_dependencies st) m) (link_all order))"

definition makeGroup :: "string \<Rightarrow> 'info monitor \<Rightarrow> 'info monitor" where
  "makeGroup tag m =
     (case mo_groups m tag of
        Some _ \<Rightarrow> m
      | None \<Rightarrow> m\<lparr>mo_groups := (mo_groups m)(tag \<mapsto> \<lparr>gs_outbounds = {}, gs_notify = False\<rparr>)\<rparr>)"

text \<open>An outbound becomes a member of a group.\<close>

definition join_group :: "string \<Rightarrow> string \<Rightarrow> 'info monitor \<Rightarrow> 'info monitor" where
  "join_group groupTag tag m =
     (case (mo_groups m groupTag, mo_outbounds m tag) of
        (Some g, Some st) \<Rightarrow>
          (set_state tag (st\<lparr>os_groupTags := os_groupTags st @ [groupTag]\<rparr>) m)
            \<lparr>mo_groups := (mo_groups m)(groupTag \<mapsto> g\<lparr>gs_outbounds := insert tag (gs_outbounds g)\<rparr>)\<rparr>
      | _ \<Rightarrow> m)"

fun join_all :: "string \<Rightarrow> string list \<Rightarrow> 'info monitor \<Rightarrow> 'info monitor result" where
  "join_all groupTag [] m = Inr m"
| "join_all groupTag (tag # tags) m =
     (case mo_outbounds m tag of
        None \<Rightarrow> Inl (E_New [S ''outbound monitoring: outbound not found: '', S tag, S '' in group '', S groupTag])
      | Some _ \<Rightarrow> join_all groupTag tags (join_group groupTag tag m))"

fun register_groups :: "(string \<times> string list) list \<Rightarrow> 'info monitor \<Rightarrow> 'info monitor result" where
  "register_groups [] m = Inr m"
| "register_groups ((groupTag, tags) # groups) m =
     bind_result (join_all groupTag tags (makeGroup groupTag m)) (register_groups groups)"

section \<open>Histories in the cache file\<close>

text \<open>
  The histories of all outbounds, written as JSON to the cache file; the cache file has the histories by tag here.
\<close>

type_synonym 'info saved = "string \<Rightarrow> 'info URLTestHistory option"

definition saveHistory :: "'info monitor \<Rightarrow> 'info saved option \<Rightarrow> 'info saved option" where
  "saveHistory m cache = map_option (\<lambda>_ tag. map_option os_history (mo_outbounds m tag)) cache"

definition load_entry :: "'info URLTestHistory \<Rightarrow> 'info outboundState \<Rightarrow> 'info outboundState" where
  "load_entry his st =
     st\<lparr>os_history := (if his_Delay his \<ge> MonitorTimeout then his\<lparr>his_Delay := 0\<rparr> else his), os_from_cache := True\<rparr>"

definition loadHistory :: "'info saved option \<Rightarrow> 'info monitor \<Rightarrow> 'info monitor" where
  "loadHistory cache m =
     (case cache of
        None \<Rightarrow> m
      | Some saved \<Rightarrow>
          m\<lparr>mo_outbounds := (\<lambda>tag.
              case (mo_outbounds m tag, saved tag) of
                (Some st, Some his) \<Rightarrow> if mo_groups m tag \<noteq> None then Some st else Some (load_entry his st)
              | (st, _) \<Rightarrow> st)\<rparr>)"

text \<open>
  \<open>Start\<close> in the stage \<open>StartStateInitialize\<close>: \<open>outbounds\<close> and \<open>endpoints\<close> with their dependencies, \<open>groups\<close> with
  their members.
\<close>

definition Monitor_Initialize ::
  "(string \<times> string list) list \<Rightarrow> (string \<times> string list) list \<Rightarrow> (string \<times> string list) list \<Rightarrow> string list
     \<Rightarrow> 'info saved option \<Rightarrow> 'info monitor \<Rightarrow> 'info monitor result" where
  "Monitor_Initialize outbounds endpoints groups order cache m =
     bind_result (link_all order (register endpoints (register outbounds m))) (\<lambda>m.
     bind_result (join_all [] order (makeGroup [] m)) (\<lambda>m.
     bind_result (register_groups groups m) (\<lambda>m. Inr (loadHistory cache m))))"

section \<open>The queues\<close>

text \<open>
  \<open>enqueueTask\<close>: the flags of the outbound are set before the task is sent, and the send gives up when the channel
  is full.
\<close>

definition enqueueTask :: "testTask \<Rightarrow> 'info monitor \<Rightarrow> bool \<times> 'info monitor" where
  "enqueueTask task m =
     (if mo_done m then (False, m)
      else case mo_outbounds m (tk_outboundTag task) of
        None \<Rightarrow> (False, m)
      | Some st \<Rightarrow>
          if tk_priority task
          then (if os_priorityQueued st then (False, m)
                else let m = set_state (tk_outboundTag task) (st\<lparr>os_priorityQueued := True\<rparr>) m in
                  if length (mo_priorityQueue m) < priorityCapacity
                  then (True, m\<lparr>mo_priorityQueue := mo_priorityQueue m @ [task]\<rparr>) else (False, m))
          else (if os_enqueuedCycle st = tk_cycleID task then (False, m)
                else let m = set_state (tk_outboundTag task)
                         (st\<lparr>os_enqueuedCycle := tk_cycleID task, os_queued := True\<rparr>) m in
                  if length (mo_normalQueue m) < normalCapacity
                  then (True, m\<lparr>mo_normalQueue := mo_normalQueue m @ [task]\<rparr>) else (False, m)))"

definition set_testing :: "bool \<Rightarrow> string \<Rightarrow> 'info monitor \<Rightarrow> 'info monitor" where
  "set_testing b tag m =
     (case mo_outbounds m tag of None \<Rightarrow> m | Some st \<Rightarrow> set_state tag (st\<lparr>os_testing := b\<rparr>) m)"

text \<open>A group is notified unless a notification is waiting already.\<close>

definition emitGroupEvent :: "string list \<Rightarrow> 'info monitor \<Rightarrow> 'info monitor" where
  "emitGroupEvent groupTags m =
     m\<lparr>mo_groups := (\<lambda>tag. if tag \<in> set groupTags then map_option (\<lambda>g. g\<lparr>gs_notify := True\<rparr>) (mo_groups m tag)
        else mo_groups m tag)\<rparr>"

text \<open>
  \<open>applyResult\<close>. The storage gets a pointer to the history of the state; nothing of the monitor reads the storage.
\<close>

definition apply_history :: "'info testOutcome \<Rightarrow> 'info outboundState \<Rightarrow> 'info outboundState" where
  "apply_history outcome st =
     st\<lparr>os_queued := False, os_priorityQueued := False, os_enqueuedCycle := 0,
        os_invalid := (oc_err outcome \<noteq> None), os_lastURL := oc_url outcome, os_from_cache := False,
        os_history := (os_history st)\<lparr>his_Delay := his_Delay (oc_history outcome), his_Time := his_Time (oc_history outcome),
          his_IpInfo := (case his_IpInfo (oc_history outcome) of None \<Rightarrow> his_IpInfo (os_history st) | Some i \<Rightarrow> Some i)\<rparr>\<rparr>"

definition applyResult :: "'info testOutcome \<Rightarrow> 'info monitor \<Rightarrow> 'info monitor result" where
  "applyResult outcome m =
     (if mo_done m then Inr m
      else case mo_outbounds m (oc_outboundTag outcome) of
        None \<Rightarrow> Inr m
      | Some st \<Rightarrow>
          let dirty = (his_Delay (oc_history outcome) \<noteq> his_Delay (os_history st) \<or> his_IpInfo (os_history st) = None
                       \<or> his_IpInfo (oc_history outcome) \<noteq> None);
              st' = apply_history outcome st in
          bind_result (StoreURLTestHistory (mo_history m) (oc_outboundTag outcome) (Some (os_history st'))) (\<lambda>H.
            Inr (emitGroupEvent (os_groupTags st')
              ((set_state (oc_outboundTag outcome) st' m)\<lparr>mo_cacheDirty := mo_cacheDirty m \<or> dirty, mo_history := H\<rparr>))))"

section \<open>One test\<close>

text \<open>
  \<open>tester\<close>: \<open>probe\<close> is the result of \<open>urltest.URLTest\<close> and \<open>ip\<close> the one of \<open>ipinfo.GetIpInfo\<close> (with the time it took);
  \<open>merge\<close> is \<open>mergeIpInfo\<close> on two values that are not nil. \<open>cancelled\<close> tells whether the context has ended.
\<close>

definition mergeIpInfo :: "('info \<Rightarrow> 'info \<Rightarrow> 'info) \<Rightarrow> 'info option \<Rightarrow> 'info option \<Rightarrow> 'info option" where
  "mergeIpInfo merge old new =
     (case (old, new) of (None, _) \<Rightarrow> new | (_, None) \<Rightarrow> old | (Some o', Some n) \<Rightarrow> Some (merge o' n))"

definition test_url :: "'info monitor \<Rightarrow> string result" where
  "test_url m =
     (if unat (mo_currentLinkIndex m) < length (mo_urls m) then Inr (mo_urls m ! unat (mo_currentLinkIndex m))
      else Inl (Panic [S ''index out of range'']))"

definition tester ::
  "('info \<Rightarrow> 'info \<Rightarrow> 'info) \<Rightarrow> int \<Rightarrow> 16 word \<times> error option \<Rightarrow> error option \<Rightarrow> error + ('info \<times> 16 word)
     \<Rightarrow> 'info outboundState \<Rightarrow> 'info URLTestHistory \<times> error option" where
  "tester merge now probe cancelled ip st =
     (let his = zeroHistory\<lparr>his_Time := now, his_Delay := fst probe\<rparr> in
      if snd probe \<noteq> None \<or> fst probe \<ge> MonitorTimeout then (his\<lparr>his_Delay := MonitorTimeout\<rparr>, snd probe)
      else if cancelled \<noteq> None then (his, cancelled)
      else if his_IpInfo (os_history st) = None \<or> os_from_cache st
      then (case ip of
              Inl _ \<Rightarrow> (his, None)
            | Inr (newip, t) \<Rightarrow>
                (his\<lparr>his_IpInfo := mergeIpInfo merge (his_IpInfo (os_history st)) (Some newip),
                     his_Delay := (if t < his_Delay his then t else his_Delay his)\<rparr>, None))
      else (his, None))"

section \<open>Requests\<close>

text \<open>
  \<open>testNow\<close> and \<open>testParents\<close>. The recursion over groups, and over the outbounds that depend on one, ends when these
  relations have no cycle, which the configuration of the outbounds guarantees elsewhere; \<open>fuel\<close> bounds its depth.
\<close>

fun testNow :: "nat \<Rightarrow> (string set \<Rightarrow> string list) \<Rightarrow> string \<Rightarrow> bool \<Rightarrow> 'info monitor \<Rightarrow> (error option \<times> 'info monitor) option" where
  "testNow 0 order tag priority m = None"
| "testNow (Suc fuel) order tag priority m =
     (case mo_groups m tag of
        Some g \<Rightarrow>
          map_option (\<lambda>m. (None, m))
            (foldl (\<lambda>acc t. Option.bind acc (\<lambda>m. map_option snd (testNow fuel order t False m))) (Some m) (order (gs_outbounds g)))
      | None \<Rightarrow>
          (case mo_outbounds m tag of
             None \<Rightarrow> Some (Some (E_New [S ''outbound not registered'']), m)
           | Some _ \<Rightarrow>
               Some (None, snd (enqueueTask \<lparr>tk_outboundTag = tag, tk_cycleID = mo_cycleSeq m, tk_priority = priority,
                 tk_resultCh = None\<rparr> m))))"

fun testParents :: "nat \<Rightarrow> (string set \<Rightarrow> string list) \<Rightarrow> string \<Rightarrow> bool \<Rightarrow> 'info monitor \<Rightarrow> 'info monitor option" where
  "testParents 0 order tag first m = None"
| "testParents (Suc fuel) order tag first m =
     (case mo_outbounds m tag of
        None \<Rightarrow> Some m
      | Some st \<Rightarrow>
          foldl (\<lambda>acc dep. Option.bind acc (testParents fuel order dep False))
            (if mo_groups m tag = None \<and> \<not> first then map_option snd (testNow fuel order tag True m) else Some m)
            (os_dependenciesInverse st))"

definition TestNow :: "nat \<Rightarrow> (string set \<Rightarrow> string list) \<Rightarrow> string \<Rightarrow> 'info monitor \<Rightarrow> (error option \<times> 'info monitor) option" where
  "TestNow fuel order tag m = Option.bind (testParents fuel order tag True m) (testNow fuel order tag True)"

definition InvalidateTest :: "string \<Rightarrow> 'info monitor \<Rightarrow> error option \<times> 'info monitor" where
  "InvalidateTest tag m =
     (case mo_outbounds m tag of
        None \<Rightarrow> (Some (E_New [S ''outbound not registered'']), m)
      | Some st \<Rightarrow>
          (None, snd (enqueueTask \<lparr>tk_outboundTag = tag, tk_cycleID = mo_cycleSeq m, tk_priority = True, tk_resultCh = None\<rparr>
             (set_state tag (st\<lparr>os_invalid := True\<rparr>) m))))"

text \<open>\<open>SignalChange\<close>, once the channels have room for the notification.\<close>

definition SignalChange :: "string \<Rightarrow> 'info monitor \<Rightarrow> error option \<times> 'info monitor" where
  "SignalChange tag m =
     (case mo_groups m tag of
        Some _ \<Rightarrow> (None, emitGroupEvent [tag] m)
      | None \<Rightarrow>
          (case mo_outbounds m tag of
             None \<Rightarrow> (Some (E_New [S ''outbound not registered'']), m)
           | Some st \<Rightarrow> (None, emitGroupEvent (os_groupTags st) m)))"

section \<open>Cycles\<close>

definition due :: "int \<Rightarrow> 'info monitor \<Rightarrow> string \<Rightarrow> bool" where
  "due now m tag =
     (case (mo_groups m tag, mo_outbounds m tag) of
        (None, Some st) \<Rightarrow>
          \<not> (os_testing st \<or> os_queued st \<or> os_priorityQueued st) \<and>
          (os_invalid st \<or> Since now (his_Time (os_history st)) \<ge> mo_mainInterval m)
      | _ \<Rightarrow> False)"

definition delay_of :: "'info monitor \<Rightarrow> string \<Rightarrow> 16 word" where
  "delay_of m tag = (case mo_outbounds m tag of Some st \<Rightarrow> his_Delay (os_history st) | None \<Rightarrow> 0)"

definition collectCycleTargets :: "(string \<Rightarrow> int) \<Rightarrow> string list \<Rightarrow> 'info monitor \<Rightarrow> string list" where
  "collectCycleTargets clock order m = sort_key (delay_of m) (filter (\<lambda>tag. due (clock tag) m tag) order)"

text \<open>
  The loop of \<open>runCycle\<close> over the URLs; \<open>runStage\<close> is what the tests of one stage do, with their outcomes. The
  second component counts the stages.
\<close>

fun cycle_loop ::
  "('info monitor \<Rightarrow> 'info testOutcome list \<times> 'info monitor) \<Rightarrow> string list \<Rightarrow> 'info monitor \<Rightarrow> 'info monitor \<times> nat" where
  "cycle_loop runStage [] m = (m, 0)"
| "cycle_loop runStage (url # urls) m =
     (case runStage m of (outcomes, m) \<Rightarrow>
        let success = length (filter (\<lambda>result. oc_err result = None) outcomes) in
        if success > 0 \<or> urls = [] then (m, 1)
        else apsnd Suc (cycle_loop runStage urls
          (m\<lparr>mo_currentLinkIndex := (mo_currentLinkIndex m + 1) mod word_of_nat (length (mo_urls m))\<rparr>)))"

definition runCycle ::
  "(64 word \<Rightarrow> string list \<Rightarrow> 'info monitor \<Rightarrow> 'info testOutcome list \<times> 'info monitor) \<Rightarrow> (string \<Rightarrow> int) \<Rightarrow> string list
     \<Rightarrow> 'info saved option \<Rightarrow> 'info monitor \<Rightarrow> ('info monitor \<times> 'info saved option) \<times> nat" where
  "runCycle runStage clock order cache m =
     (let m = m\<lparr>mo_cycleSeq := mo_cycleSeq m + 1\<rparr>;
          tags = collectCycleTargets clock order m in
      if length tags = 0 then ((m, cache), 0)
      else case cycle_loop (runStage (mo_cycleSeq m) tags) (mo_urls m) m of (m, n) \<Rightarrow>
        (if mo_cacheDirty m then (m\<lparr>mo_cacheDirty := False\<rparr>, saveHistory m cache) else (m, cache), n))"

text \<open>\<open>startCycleOnce\<close>: only one cycle runs at a time.\<close>

definition startCycleOnce :: "'info monitor \<Rightarrow> bool \<times> 'info monitor" where
  "startCycleOnce m = (if mo_cycleRunning m then (False, m) else (True, m\<lparr>mo_cycleRunning := True\<rparr>))"

section \<open>The ticker\<close>

definition startTimerWorkers :: "'info monitor \<Rightarrow> 'info monitor" where
  "startTimerWorkers m =
     (if mo_workersRunning m then m else snd (startCycleOnce (m\<lparr>mo_workersRunning := True, mo_mainTicker := True\<rparr>)))"

definition stopTimerWorkers :: "'info saved option \<Rightarrow> 'info monitor \<Rightarrow> 'info monitor \<times> 'info saved option" where
  "stopTimerWorkers cache m =
     (if \<not> mo_workersRunning m then (m, cache)
      else (m\<lparr>mo_workersRunning := False, mo_mainTicker := False\<rparr>, if mo_cacheDirty m then saveHistory m cache else cache))"

definition Monitor_Touch :: "int \<Rightarrow> 'info monitor \<Rightarrow> 'info monitor" where
  "Monitor_Touch now m =
     (if \<not> mo_started m then m
      else if mo_mainTicker m then m\<lparr>mo_lastActive := now\<rparr> else startTimerWorkers m)"

text \<open>\<open>Start\<close> in the stage \<open>StartStatePostStart\<close>; the workers are started with it.\<close>

definition Monitor_PostStart :: "int \<Rightarrow> 'info monitor \<Rightarrow> 'info monitor" where
  "Monitor_PostStart now m = Monitor_Touch now (m\<lparr>mo_started := True\<rparr>)"

text \<open>One tick of \<open>scheduleLoop\<close>; the last component tells whether the loop goes on.\<close>

definition schedule_tick :: "int \<Rightarrow> 'info saved option \<Rightarrow> 'info monitor \<Rightarrow> ('info monitor \<times> 'info saved option) \<times> bool" where
  "schedule_tick now cache m =
     (if Since now (mo_lastActive m) > mo_idleTimeout m then (stopTimerWorkers cache m, False)
      else ((snd (startCycleOnce m), cache), True))"

section \<open>Histories of groups\<close>

text \<open>
  \<open>getUrlTest\<close> and \<open>getMinGroupOutboundHistory\<close>; \<open>Now\<close> is the selection of a group. \<open>fuel\<close> bounds the nesting of the
  groups, \<open>None\<close> is a nil pointer.
\<close>

definition merge_min :: "'info URLTestHistory option \<Rightarrow> 'info URLTestHistory \<Rightarrow> 'info URLTestHistory option" where
  "merge_min best his =
     (case best of
        None \<Rightarrow> Some his
      | Some b \<Rightarrow>
          if his_Delay his < his_Delay b then Some (b\<lparr>his_Delay := his_Delay his, his_IpInfo := his_IpInfo his\<rparr>)
          else if his_IpInfo b = None then Some (b\<lparr>his_IpInfo := his_IpInfo his\<rparr>) else Some b)"

definition min_step ::
  "'info URLTestHistory option \<times> 'info URLTestHistory option \<Rightarrow> 'info URLTestHistory option
     \<Rightarrow> 'info URLTestHistory option \<times> 'info URLTestHistory option" where
  "min_step best h =
     (case h of
        None \<Rightarrow> best
      | Some his \<Rightarrow>
          if his_Delay his = 0 then best
          else if \<not> his_IsFromCache his then (merge_min (fst best) his, snd best)
          else (fst best, merge_min (snd best) his))"

definition min_final ::
  "'info URLTestHistory option \<times> 'info URLTestHistory option \<Rightarrow> 'info URLTestHistory option" where
  "min_final best =
     (case best of
        (None, cached) \<Rightarrow> cached
      | (Some m, cached) \<Rightarrow>
          if his_Delay m \<ge> MonitorTimeout then cached
          else (case cached of
                  Some c \<Rightarrow> if his_IpInfo m = None then Some (m\<lparr>his_IpInfo := his_IpInfo c\<rparr>) else Some m
                | None \<Rightarrow> Some m))"

fun getUrlTest ::
  "nat \<Rightarrow> (string set \<Rightarrow> string list) \<Rightarrow> (string \<Rightarrow> string option) \<Rightarrow> 'info monitor \<Rightarrow> string
     \<Rightarrow> 'info URLTestHistory option option" where
  "getUrlTest 0 order Now m tag = None"
| "getUrlTest (Suc fuel) order Now m tag =
     (case mo_outbounds m tag of
        None \<Rightarrow> Some None
      | Some st \<Rightarrow>
          (case mo_groups m tag of
             None \<Rightarrow> Some (Some ((os_history st)\<lparr>his_IsFromCache := os_from_cache st\<rparr>))
           | Some g \<Rightarrow>
               (let realtag = (case Now tag of Some t \<Rightarrow> if t \<noteq> [] then t else tag | None \<Rightarrow> tag) in
                if realtag \<noteq> [] \<and> realtag \<noteq> tag then getUrlTest fuel order Now m realtag
                else map_option min_final
                  (foldl (\<lambda>acc t. Option.bind acc (\<lambda>best. map_option (min_step best) (getUrlTest fuel order Now m t)))
                    (Some (None, None)) (order (gs_outbounds g))))))"

definition OutboundsHistory ::
  "nat \<Rightarrow> (string set \<Rightarrow> string list) \<Rightarrow> (string \<Rightarrow> string option) \<Rightarrow> 'info monitor \<Rightarrow> string
     \<Rightarrow> (string \<times> 'info URLTestHistory option option) list" where
  "OutboundsHistory fuel order Now m groupTag =
     (case mo_groups m groupTag of
        None \<Rightarrow> []
      | Some g \<Rightarrow> map (\<lambda>tag. (tag, getUrlTest fuel order Now m tag)) (order (gs_outbounds g)))"

end
