(* ===== verification/Monitor_Steps.thy ===== *)
theory Monitor_Steps
  imports Monitor "HOL-Library.Multiset"
begin

text \<open>
  The workers of the outbound monitor as a step relation: requests, the stages of a cycle, the workers that poll the
  two queues, the tests, and the tests that are delayed because their outbound is not ready. Each step is one atomic
  part of \<open>workerLoop\<close>, \<open>executeTask\<close>, \<open>runStage\<close> or of a request, labelled with what happened; a run is a
  sequence of labels. The context of the monitor does not end during a run.
\<close>

section \<open>The system\<close>

text \<open>A stage of a cycle: its result channel, the tags it has still to enqueue, and the number of results it waits for.\<close>

record stage =
  sg_id :: nat
  sg_cycle :: "64 word"
  sg_todo :: "string list"
  sg_expected :: nat

text \<open>
  A worker is at the outer \<open>select\<close> of its loop, has found the urgent queue empty and is at the inner one, or runs a
  task. Delayed tasks wait for their timer.
\<close>

record 'info sys =
  sy_mon :: "'info monitor"
  sy_outer :: nat
  sy_inner :: nat
  sy_running :: "testTask multiset"
  sy_delayed :: "testTask multiset"
  sy_stage :: "stage option"
  sy_next :: nat
  sy_results :: "nat \<Rightarrow> 'info testOutcome list"

datatype 'info event =
    Request testTask | StageStart "64 word" "string list" | StageNext | StageReturn
  | Poll | TakePriority | TakeInnerPriority | TakeInnerNormal
  | NotReady testTask | Finish testTask "'info testOutcome" | Requeue testTask bool

definition stage_task :: "stage \<Rightarrow> string \<Rightarrow> testTask" where
  "stage_task g tag = \<lparr>tk_outboundTag = tag, tk_cycleID = sg_cycle g, tk_priority = False, tk_resultCh = Some (sg_id g)\<rparr>"

definition retry :: "testTask \<Rightarrow> testTask" where
  "retry t = t\<lparr>tk_cycleID := tk_cycleID t + 1\<rparr>"

definition start_task :: "testTask \<Rightarrow> 'info sys \<Rightarrow> 'info sys" where
  "start_task t s = s\<lparr>sy_mon := set_testing True (tk_outboundTag t) (sy_mon s), sy_running := add_mset t (sy_running s)\<rparr>"

definition send_result :: "testTask \<Rightarrow> 'info testOutcome \<Rightarrow> (nat \<Rightarrow> 'info testOutcome list) \<Rightarrow> nat \<Rightarrow> 'info testOutcome list" where
  "send_result t outcome results =
     (case tk_resultCh t of None \<Rightarrow> results | Some ch \<Rightarrow> results(ch := results ch @ [outcome]))"

inductive mstep :: "'info event \<Rightarrow> 'info sys \<Rightarrow> 'info sys \<Rightarrow> bool" where
  Request: "tk_resultCh t = None \<Longrightarrow> mstep (Request t) s (s\<lparr>sy_mon := snd (enqueueTask t (sy_mon s))\<rparr>)"
| StageStart: "sy_stage s = None \<Longrightarrow>
    mstep (StageStart cycle tags) s
      (s\<lparr>sy_stage := Some \<lparr>sg_id = sy_next s, sg_cycle = cycle, sg_todo = tags, sg_expected = 0\<rparr>,
         sy_next := Suc (sy_next s), sy_results := (sy_results s)(sy_next s := [])\<rparr>)"
| StageSkip: "sy_stage s = Some g \<Longrightarrow> sg_todo g = tag # rest \<Longrightarrow> mo_outbounds (sy_mon s) tag = None \<Longrightarrow>
    mstep StageNext s (s\<lparr>sy_stage := Some (g\<lparr>sg_todo := rest\<rparr>)\<rparr>)"
| StageNext: "sy_stage s = Some g \<Longrightarrow> sg_todo g = tag # rest \<Longrightarrow> mo_outbounds (sy_mon s) tag \<noteq> None \<Longrightarrow>
    enqueueTask (stage_task g tag) (sy_mon s) = (ok, m') \<Longrightarrow>
    mstep StageNext s
      (s\<lparr>sy_mon := m', sy_stage := Some (g\<lparr>sg_todo := rest, sg_expected := sg_expected g + (if ok then 1 else 0)\<rparr>)\<rparr>)"
| StageReturn: "sy_stage s = Some g \<Longrightarrow> sg_todo g = [] \<Longrightarrow> length (sy_results s (sg_id g)) = sg_expected g \<Longrightarrow>
    mstep StageReturn s (s\<lparr>sy_stage := None\<rparr>)"
| Poll: "sy_outer s = Suc n \<Longrightarrow> mo_priorityQueue (sy_mon s) = [] \<Longrightarrow>
    mstep Poll s (s\<lparr>sy_outer := n, sy_inner := Suc (sy_inner s)\<rparr>)"
| TakePriority: "sy_outer s = Suc n \<Longrightarrow> mo_priorityQueue (sy_mon s) = t # rest \<Longrightarrow>
    mstep TakePriority s (start_task t (s\<lparr>sy_outer := n, sy_mon := (sy_mon s)\<lparr>mo_priorityQueue := rest\<rparr>\<rparr>))"
| TakeInnerPriority: "sy_inner s = Suc n \<Longrightarrow> mo_priorityQueue (sy_mon s) = t # rest \<Longrightarrow>
    mstep TakeInnerPriority s (start_task t (s\<lparr>sy_inner := n, sy_mon := (sy_mon s)\<lparr>mo_priorityQueue := rest\<rparr>\<rparr>))"
| TakeInnerNormal: "sy_inner s = Suc n \<Longrightarrow> mo_normalQueue (sy_mon s) = t # rest \<Longrightarrow>
    mstep TakeInnerNormal s (start_task t (s\<lparr>sy_inner := n, sy_mon := (sy_mon s)\<lparr>mo_normalQueue := rest\<rparr>\<rparr>))"
| NotReady: "sy_running s = add_mset t R \<Longrightarrow> tk_cycleID t < 10 \<Longrightarrow>
    mstep (NotReady t) s
      (s\<lparr>sy_running := R, sy_delayed := add_mset t (sy_delayed s), sy_outer := Suc (sy_outer s),
         sy_mon := set_testing False (tk_outboundTag t) (sy_mon s)\<rparr>)"
| Finish: "sy_running s = add_mset t R \<Longrightarrow> oc_outboundTag outcome = tk_outboundTag t \<Longrightarrow>
    applyResult outcome (sy_mon s) = Inr m' \<Longrightarrow>
    mstep (Finish t outcome) s
      (s\<lparr>sy_running := R, sy_outer := Suc (sy_outer s), sy_mon := set_testing False (tk_outboundTag t) m',
         sy_results := send_result t outcome (sy_results s)\<rparr>)"
| Requeue: "sy_delayed s = add_mset t R \<Longrightarrow> enqueueTask (retry t) (sy_mon s) = (ok, m') \<Longrightarrow>
    mstep (Requeue t ok) s (s\<lparr>sy_delayed := R, sy_mon := m'\<rparr>)"

inductive mrun :: "'info event list \<Rightarrow> 'info sys \<Rightarrow> 'info sys \<Rightarrow> bool" where
  run_none: "mrun [] s s"
| run_snoc: "mrun evs s t \<Longrightarrow> mstep ev t u \<Longrightarrow> mrun (evs @ [ev]) s u"

inductive_simps mrun_Nil [simp]: "mrun [] s t"
inductive_simps return_simps: "mstep StageReturn s t"

section \<open>Results of a stage\<close>

text \<open>The tasks that are still on their way.\<close>

definition pending :: "'info sys \<Rightarrow> testTask multiset" where
  "pending s = mset (mo_priorityQueue (sy_mon s)) + mset (mo_normalQueue (sy_mon s)) + sy_running s + sy_delayed s"

definition pending_results :: "nat \<Rightarrow> 'info sys \<Rightarrow> nat" where
  "pending_results ch s = size (filter_mset (\<lambda>t. tk_resultCh t = Some ch) (pending s))"

text \<open>The tasks of a stage that were not taken back into the queue after their delay.\<close>

definition lost :: "nat \<Rightarrow> 'info event list \<Rightarrow> nat" where
  "lost ch evs = length (filter (\<lambda>ev. case ev of Requeue t ok \<Rightarrow> \<not> ok \<and> tk_resultCh t = Some ch | _ \<Rightarrow> False) evs)"

text \<open>What \<open>enqueueTask\<close> does to the queues.\<close>

lemma enqueueTask_queues:
  assumes "enqueueTask t m = (ok, m')"
  shows "mset (mo_priorityQueue m') + mset (mo_normalQueue m') =
    mset (mo_priorityQueue m) + mset (mo_normalQueue m) + (if ok then {#t#} else {#})"
  using assms by (auto simp: enqueueTask_def set_state_def Let_def split: if_splits option.splits)

lemma enqueueTask_bounds:
  assumes "enqueueTask t m = (ok, m')" and "length (mo_priorityQueue m) \<le> 1000" and "length (mo_normalQueue m) \<le> 10000"
  shows "length (mo_priorityQueue m') \<le> 1000 \<and> length (mo_normalQueue m') \<le> 10000"
  using assms by (auto simp: enqueueTask_def set_state_def Let_def split: if_splits option.splits)

lemma set_testing_queues [simp]:
  "mo_priorityQueue (set_testing b tag m) = mo_priorityQueue m" "mo_normalQueue (set_testing b tag m) = mo_normalQueue m"
  by (simp_all add: set_testing_def set_state_def split: option.split)

lemma applyResult_queues:
  "applyResult outcome m = Inr m' \<Longrightarrow> mo_priorityQueue m' = mo_priorityQueue m \<and> mo_normalQueue m' = mo_normalQueue m"
  by (auto simp: applyResult_def set_state_def emitGroupEvent_def Let_def bind_result_Inr_iff split: if_splits option.splits)

lemma pending_enqueue:
  assumes "enqueueTask t (sy_mon s) = (ok, m')"
  shows "pending (s\<lparr>sy_mon := m'\<rparr>) = pending s + (if ok then {#t#} else {#})"
  using enqueueTask_queues [OF assms] by (simp add: pending_def)

lemma pending_requeue:
  assumes "sy_delayed s = add_mset t R" and "enqueueTask (retry t) (sy_mon s) = (ok, m')" and "s' = s\<lparr>sy_delayed := R, sy_mon := m'\<rparr>"
  shows "add_mset t (pending s') = pending s + (if ok then {#retry t#} else {#})"
    and "u \<in># pending s' \<Longrightarrow> u \<in># pending s \<or> u = retry t"
proof -
  show p: "add_mset t (pending s') = pending s + (if ok then {#retry t#} else {#})"
    using assms enqueueTask_queues [OF assms(2)] by (simp add: pending_def)
  show "u \<in># pending s' \<Longrightarrow> u \<in># pending s \<or> u = retry t"
    using arg_cong [OF p, of set_mset] by (auto split: if_splits)
qed

lemma pending_start:
  "pending (start_task t s) = add_mset t (pending s)"
  by (simp add: pending_def start_task_def)

lemma retry_keeps [simp]: "tk_resultCh (retry t) = tk_resultCh t" "tk_outboundTag (retry t) = tk_outboundTag t"
  "tk_priority (retry t) = tk_priority t" "tk_cycleID (retry t) = tk_cycleID t + 1"
  by (simp_all add: retry_def)

text \<open>
  The account of the results: every result a stage waits for has arrived, is on its way, or was lost.
\<close>

definition accounts :: "'info event list \<Rightarrow> 'info sys \<Rightarrow> bool" where
  "accounts evs s \<longleftrightarrow>
     (\<forall>t ch. t \<in># pending s \<longrightarrow> tk_resultCh t = Some ch \<longrightarrow> ch < sy_next s) \<and>
     (\<forall>ch. sy_next s \<le> ch \<longrightarrow> lost ch evs = 0) \<and>
     (\<forall>g. sy_stage s = Some g \<longrightarrow> sg_id g < sy_next s \<and>
        sg_expected g = length (sy_results s (sg_id g)) + pending_results (sg_id g) s + lost (sg_id g) evs)"

text \<open>A step that only moves tasks around.\<close>

lemma accounts_move:
  assumes "accounts evs s" and "pending s' = pending s + P" and "\<And>t. t \<in># P \<Longrightarrow> tk_resultCh t = None"
    and "sy_stage s' = sy_stage s" and "sy_next s' = sy_next s" and "sy_results s' = sy_results s"
    and "\<And>ch. lost ch (evs @ [ev]) = lost ch evs"
  shows "accounts (evs @ [ev]) s'"
proof -
  have "filter_mset (\<lambda>t. tk_resultCh t = Some ch) P = {#}" for ch
    using assms(3) by auto
  then have "pending_results ch s' = pending_results ch s" for ch
    by (simp add: pending_results_def assms(2))
  then show ?thesis using assms by (auto simp: accounts_def)
qed

lemma lost_snoc: "lost ch (evs @ [ev]) = lost ch evs + (case ev of Requeue t ok \<Rightarrow> if \<not> ok \<and> tk_resultCh t = Some ch then 1 else 0 | _ \<Rightarrow> 0)"
  by (simp add: lost_def split: event.split)

lemma accounts_step:
  assumes "mstep ev s s'" and "accounts evs s"
  shows "accounts (evs @ [ev]) s'"
  using assms(1)
proof cases
  case (Request t)
  obtain ok m' where e: "enqueueTask t (sy_mon s) = (ok, m')" by fastforce
  show ?thesis
    by (rule accounts_move [OF assms(2), where P = "if ok then {#t#} else {#}"])
      (use Request e pending_enqueue [OF e] in \<open>simp_all add: lost_snoc split: if_splits\<close>)
next
  case (StageStart cycle tags)
  have "pending_results (sy_next s) s = 0"
    using assms(2) by (auto simp: accounts_def pending_results_def)
  then show ?thesis using assms(2) StageStart by (auto simp: accounts_def lost_snoc pending_def pending_results_def less_Suc_eq)
next
  case (StageSkip g tag rest)
  then show ?thesis using assms(2) by (auto simp: accounts_def lost_snoc pending_def pending_results_def)
next
  case (StageNext g tag rest ok m')
  note p = pending_enqueue [OF StageNext(6)]
  have "pending s' = pending s + (if ok then {#stage_task g tag#} else {#})" using p StageNext(2) by (simp add: pending_def)
  then show ?thesis using assms(2) StageNext
    by (auto simp: accounts_def lost_snoc pending_results_def stage_task_def split: if_splits)
next
  case (StageReturn g)
  then show ?thesis using assms(2) by (auto simp: accounts_def lost_snoc pending_def)
next
  case (Poll n)
  show ?thesis by (rule accounts_move [OF assms(2), where P = "{#}"]) (use Poll in \<open>simp_all add: lost_snoc pending_def\<close>)
next
  case (TakePriority n t rest)
  show ?thesis by (rule accounts_move [OF assms(2), where P = "{#}"])
    (use TakePriority in \<open>simp_all add: lost_snoc pending_start\<close>, simp_all add: pending_def start_task_def)
next
  case (TakeInnerPriority n t rest)
  show ?thesis by (rule accounts_move [OF assms(2), where P = "{#}"])
    (use TakeInnerPriority in \<open>simp_all add: lost_snoc pending_start\<close>, simp_all add: pending_def start_task_def)
next
  case (TakeInnerNormal n t rest)
  show ?thesis by (rule accounts_move [OF assms(2), where P = "{#}"])
    (use TakeInnerNormal in \<open>simp_all add: lost_snoc pending_start\<close>, simp_all add: pending_def start_task_def)
next
  case (NotReady t R)
  show ?thesis by (rule accounts_move [OF assms(2), where P = "{#}"]) (use NotReady in \<open>simp_all add: lost_snoc pending_def\<close>)
next
  case (Finish t R outcome m')
  then have p: "pending s = add_mset t (pending s')" using applyResult_queues [of outcome "sy_mon s" m'] by (simp add: pending_def)
  then have "pending_results ch s = pending_results ch s' + (if tk_resultCh t = Some ch then 1 else 0)" for ch
    by (simp add: pending_results_def)
  then show ?thesis using assms(2) Finish p by (auto simp: accounts_def lost_snoc send_result_def split: option.splits)
next
  case (Requeue t R ok m')
  note p = pending_requeue [OF Requeue(3,4,2)]
  have "filter_mset (\<lambda>t. tk_resultCh t = Some ch) (add_mset t (pending s')) =
      filter_mset (\<lambda>t. tk_resultCh t = Some ch) (pending s + (if ok then {#retry t#} else {#}))" for ch by (simp only: p(1))
  then have r: "size (filter_mset (\<lambda>t. tk_resultCh t = Some ch) (add_mset t (pending s'))) =
      size (filter_mset (\<lambda>t. tk_resultCh t = Some ch) (pending s + (if ok then {#retry t#} else {#})))" for ch by simp
  have "pending_results ch s = pending_results ch s' + (if \<not> ok \<and> tk_resultCh t = Some ch then 1 else 0)" for ch
    using r [of ch] by (auto simp: pending_results_def split: if_splits)
  moreover have "t \<in># pending s" using Requeue by (simp add: pending_def)
  moreover note p(2)
  ultimately show ?thesis using assms(2) Requeue by (auto simp: accounts_def lost_snoc) fastforce+
qed

lemma mrun_accounts: "mrun evs s0 s \<Longrightarrow> accounts [] s0 \<Longrightarrow> accounts evs s"
  by (induction rule: mrun.induct) (auto intro: accounts_step)

text \<open>The system in which \<open>n\<close> workers have just been started.\<close>

definition workers :: "'info monitor \<Rightarrow> nat \<Rightarrow> 'info sys" where
  "workers m n = \<lparr>sy_mon = m, sy_outer = n, sy_inner = 0, sy_running = {#}, sy_delayed = {#}, sy_stage = None,
     sy_next = 0, sy_results = (\<lambda>_. [])\<rparr>"

definition queues_empty :: "'info monitor \<Rightarrow> bool" where
  "queues_empty m \<longleftrightarrow> mo_priorityQueue m = [] \<and> mo_normalQueue m = []"

lemma workers_accounts: "queues_empty m \<Longrightarrow> accounts [] (workers m n)"
  by (simp add: accounts_def workers_def queues_empty_def pending_def lost_def)

section \<open>Progress\<close>

text \<open>No worker is lost, the queues keep within their capacities, and storing a result does not panic.\<close>

definition healthy :: "nat \<Rightarrow> 'info sys \<Rightarrow> bool" where
  "healthy n s \<longleftrightarrow> sy_outer s + sy_inner s + size (sy_running s) = n \<and>
     length (mo_priorityQueue (sy_mon s)) \<le> 1000 \<and> length (mo_normalQueue (sy_mon s)) \<le> 10000 \<and>
     no_nil (mo_history (sy_mon s))"

lemma enqueueTask_history: "enqueueTask t m = (ok, m') \<Longrightarrow> mo_history m' = mo_history m"
  by (auto simp: enqueueTask_def set_state_def Let_def split: if_splits option.splits)

lemma set_testing_history [simp]: "mo_history (set_testing b tag m) = mo_history m"
  by (simp add: set_testing_def set_state_def split: option.split)

lemma applyResult_history:
  assumes "no_nil (mo_history m)"
  shows "\<exists>m'. applyResult outcome m = Inr m' \<and> no_nil (mo_history m')"
proof (cases "mo_done m \<or> mo_outbounds m (oc_outboundTag outcome) = None")
  case True
  then show ?thesis using assms by (auto simp: applyResult_def)
next
  case False
  then obtain st where st: "mo_outbounds m (oc_outboundTag outcome) = Some st" by auto
  obtain H where "StoreURLTestHistory (mo_history m) (oc_outboundTag outcome) (Some (os_history (apply_history outcome st))) = Inr H"
    and "no_nil H" using Store_Load [OF assms] by metis
  then show ?thesis using False st by (simp add: applyResult_def emitGroupEvent_def Let_def)
qed

lemma healthy_step:
  assumes "mstep ev s s'" and "healthy n s"
  shows "healthy n s'"
  using assms(1)
proof cases
  case (Request t)
  obtain ok m' where "enqueueTask t (sy_mon s) = (ok, m')" by fastforce
  then show ?thesis using Request assms(2) enqueueTask_bounds [of t "sy_mon s" ok m'] enqueueTask_history [of t "sy_mon s" ok m']
    by (simp add: healthy_def)
next
  case (StageNext g tag rest ok m')
  then show ?thesis using assms(2) enqueueTask_bounds [OF StageNext(6)] enqueueTask_history [OF StageNext(6)]
    by (simp add: healthy_def)
next
  case (Finish t R outcome m')
  then show ?thesis using assms(2) applyResult_queues [of outcome "sy_mon s" m'] applyResult_history [of "sy_mon s" outcome]
    by (auto simp: healthy_def)
next
  case (Requeue t R ok m')
  then show ?thesis using assms(2) enqueueTask_bounds [OF Requeue(4)] enqueueTask_history [OF Requeue(4)] by (simp add: healthy_def)
qed (use assms(2) in \<open>auto simp: healthy_def start_task_def\<close>)

lemma mrun_healthy: "mrun evs s0 s \<Longrightarrow> healthy n s0 \<Longrightarrow> healthy n s"
  by (induction rule: mrun.induct) (auto intro: healthy_step)

text \<open>The events of workers and of the stage that is under way, when every outbound is ready.\<close>

definition quiet :: "'info event \<Rightarrow> bool" where
  "quiet ev \<longleftrightarrow> (case ev of Request _ \<Rightarrow> False | StageStart _ _ \<Rightarrow> False | NotReady _ \<Rightarrow> False | _ \<Rightarrow> True)"

lemma quiet_simps [simp]:
  "quiet StageNext" "quiet StageReturn" "quiet Poll" "quiet TakePriority" "quiet TakeInnerPriority" "quiet TakeInnerNormal"
  "quiet (Finish t outcome)" "quiet (Requeue t ok)" "\<not> quiet (Request t)" "\<not> quiet (StageStart cycle tags)" "\<not> quiet (NotReady t)"
  by (simp_all add: quiet_def)

lemma quiet_step: "mstep ev s s' \<Longrightarrow> quiet ev \<Longrightarrow> \<exists>ev s'. quiet ev \<and> mstep ev s s'"
  by blast

text \<open>Without new work every step uses up some of the work that is left.\<close>

definition weight :: "'info sys \<Rightarrow> nat" where
  "weight s = (case sy_stage s of None \<Rightarrow> 0 | Some g \<Rightarrow> 1 + 4 * length (sg_todo g)) + 4 * size (sy_delayed s) +
     3 * (length (mo_priorityQueue (sy_mon s)) + length (mo_normalQueue (sy_mon s))) + 2 * size (sy_running s) + sy_outer s"

lemma enqueueTask_length:
  assumes "enqueueTask t m = (ok, m')"
  shows "length (mo_priorityQueue m') + length (mo_normalQueue m') =
    length (mo_priorityQueue m) + length (mo_normalQueue m) + (if ok then 1 else 0)"
  using arg_cong [OF enqueueTask_queues [OF assms], of size] by (simp split: if_splits)

lemma weight_step:
  assumes "mstep ev s s'" and "quiet ev"
  shows "weight s' < weight s"
  using assms(1)
proof cases
  case (StageNext g tag rest ok m')
  then show ?thesis using enqueueTask_length [OF StageNext(6)] by (simp add: weight_def)
next
  case (Finish t R outcome m')
  then show ?thesis using applyResult_queues [of outcome "sy_mon s" m'] by (simp add: weight_def)
next
  case (Requeue t R ok m')
  then show ?thesis using enqueueTask_length [OF Requeue(4)] by (simp add: weight_def)
qed (use assms(2) in \<open>auto simp: weight_def start_task_def\<close>)

lemma weight_run: "mrun ws s t \<Longrightarrow> list_all quiet ws \<Longrightarrow> length ws + weight t \<le> weight s"
proof (induction rule: mrun.induct)
  case (run_snoc evs s t ev u)
  then show ?case using weight_step [of ev t u] by simp
qed simp

text \<open>A worker that is not testing has a step to make when a task is queued.\<close>

lemma worker_step:
  assumes "0 < sy_outer s + sy_inner s" and "mo_priorityQueue (sy_mon s) \<noteq> [] \<or> mo_normalQueue (sy_mon s) \<noteq> []"
  shows "\<exists>ev s'. quiet ev \<and> mstep ev s s'"
proof (cases "mo_priorityQueue (sy_mon s)")
  case Nil
  then obtain t rest where q: "mo_normalQueue (sy_mon s) = t # rest" using assms(2) by (cases "mo_normalQueue (sy_mon s)") auto
  show ?thesis
  proof (cases "sy_outer s")
    case 0
    then obtain k where "sy_inner s = Suc k" using assms(1) by (cases "sy_inner s") auto
    from mstep.TakeInnerNormal [OF this q] show ?thesis by (rule quiet_step) simp
  next
    case (Suc k)
    from mstep.Poll [OF this Nil] show ?thesis by (rule quiet_step) simp
  qed
next
  case (Cons t rest)
  show ?thesis
  proof (cases "sy_outer s")
    case 0
    then obtain k where "sy_inner s = Suc k" using assms(1) by (cases "sy_inner s") auto
    from mstep.TakeInnerPriority [OF this Cons] show ?thesis by (rule quiet_step) simp
  next
    case (Suc k)
    from mstep.TakePriority [OF this Cons] show ?thesis by (rule quiet_step) simp
  qed
qed

definition plain_outcome :: "testTask \<Rightarrow> 'info testOutcome" where
  "plain_outcome t = \<lparr>oc_outboundTag = tk_outboundTag t, oc_url = [], oc_history = zeroHistory, oc_err = None,
     oc_cycleID = tk_cycleID t, oc_priority = tk_priority t\<rparr>"

lemma pending_step:
  assumes "healthy n s" and "0 < n" and "pending s \<noteq> {#}"
  shows "\<exists>ev s'. quiet ev \<and> mstep ev s s'"
proof -
  consider (run) t R where "sy_running s = add_mset t R" | (del) t R where "sy_delayed s = add_mset t R"
    | (queue) "sy_running s = {#}" "mo_priorityQueue (sy_mon s) \<noteq> [] \<or> mo_normalQueue (sy_mon s) \<noteq> []"
    using assms(3) by (auto simp: pending_def dest: multi_nonempty_split)
  then show ?thesis
  proof cases
    case run
    obtain m' where "applyResult (plain_outcome t) (sy_mon s) = Inr m'"
      using applyResult_history [of "sy_mon s" "plain_outcome t"] assms(1) by (auto simp: healthy_def)
    from mstep.Finish [OF run _ this] show ?thesis by (rule quiet_step) (simp_all add: plain_outcome_def)
  next
    case del
    obtain ok m' where "enqueueTask (retry t) (sy_mon s) = (ok, m')" by fastforce
    from mstep.Requeue [OF del this] show ?thesis by (rule quiet_step) simp
  next
    case queue
    moreover have "0 < sy_outer s + sy_inner s" using assms(1,2) queue(1) by (simp add: healthy_def)
    ultimately show ?thesis by (intro worker_step)
  qed
qed

lemma stage_step:
  assumes "healthy n s" and "0 < n" and "accounts evs s" and "sy_stage s = Some g" and "lost (sg_id g) evs = 0"
  shows "\<exists>ev s'. quiet ev \<and> mstep ev s s'"
proof (cases "sg_todo g")
  case Nil
  show ?thesis
  proof (cases "pending s = {#}")
    case True
    then have "length (sy_results s (sg_id g)) = sg_expected g"
      using assms(3-5) by (simp add: accounts_def pending_results_def)
    from mstep.StageReturn [OF assms(4) Nil this] show ?thesis by (rule quiet_step) simp
  next
    case False
    then show ?thesis by (rule pending_step [OF assms(1,2)])
  qed
next
  case (Cons tag rest)
  obtain ok m' where e: "enqueueTask (stage_task g tag) (sy_mon s) = (ok, m')" by fastforce
  have "\<exists>s'. mstep StageNext s s'"
    using mstep.StageSkip [OF assms(4) Cons] mstep.StageNext [OF assms(4) Cons _ e] by blast
  then show ?thesis using quiet_step by fastforce
qed

section \<open>Outbounds that are never tested again\<close>

text \<open>
  The flag of an urgent test is set, but no task of the outbound is on its way. Only a task with ordinary priority
  that is not part of a cycle gets out of this state.
\<close>

definition stuck :: "string \<Rightarrow> 'info sys \<Rightarrow> bool" where
  "stuck tag s \<longleftrightarrow> (\<exists>st. mo_outbounds (sy_mon s) tag = Some st \<and> os_priorityQueued st) \<and>
     (\<forall>t \<in># pending s. tk_outboundTag t \<noteq> tag) \<and>
     (case sy_stage s of Some g \<Rightarrow> tag \<notin> set (sg_todo g) | None \<Rightarrow> True)"

definition no_plain_request :: "string \<Rightarrow> 'info event \<Rightarrow> bool" where
  "no_plain_request tag ev \<longleftrightarrow>
     (case ev of
        Request t \<Rightarrow> tk_outboundTag t \<noteq> tag \<or> tk_priority t
      | StageStart _ tags \<Rightarrow> tag \<notin> set tags
      | _ \<Rightarrow> True)"

definition history_of :: "string \<Rightarrow> 'info sys \<Rightarrow> 'info URLTestHistory option" where
  "history_of tag s = map_option os_history (mo_outbounds (sy_mon s) tag)"

lemma enqueueTask_other:
  "enqueueTask t m = (ok, m') \<Longrightarrow> tk_outboundTag t \<noteq> tag \<Longrightarrow> mo_outbounds m' tag = mo_outbounds m tag"
  by (auto simp: enqueueTask_def set_state_def Let_def split: if_splits option.splits)

lemma enqueueTask_again:
  "mo_outbounds m (tk_outboundTag t) = Some st \<Longrightarrow> os_priorityQueued st \<Longrightarrow> tk_priority t \<Longrightarrow> enqueueTask t m = (False, m)"
  by (simp add: enqueueTask_def)

lemma set_testing_other: "tag' \<noteq> tag \<Longrightarrow> mo_outbounds (set_testing b tag' m) tag = mo_outbounds m tag"
  by (simp add: set_testing_def set_state_def split: option.split)

lemma applyResult_other:
  "applyResult outcome m = Inr m' \<Longrightarrow> oc_outboundTag outcome \<noteq> tag \<Longrightarrow> mo_outbounds m' tag = mo_outbounds m tag"
  by (auto simp: applyResult_def set_state_def emitGroupEvent_def Let_def bind_result_Inr_iff split: if_splits option.splits)

lemma stuck_enqueue:
  assumes "stuck tag s" and "enqueueTask t (sy_mon s) = (ok, m')" and "tk_outboundTag t \<noteq> tag \<or> tk_priority t"
  shows "stuck tag (s\<lparr>sy_mon := m'\<rparr>) \<and> mo_outbounds m' tag = mo_outbounds (sy_mon s) tag"
proof (cases "tk_outboundTag t = tag")
  case True
  then have "m' = sy_mon s" using assms enqueueTask_again [of "sy_mon s" t] by (auto simp: stuck_def)
  then show ?thesis using assms(1) by simp
next
  case False
  then show ?thesis
    using assms(1) enqueueTask_other [OF assms(2) False] pending_enqueue [OF assms(2)] by (auto simp: stuck_def split: if_splits)
qed

lemma stuck_step:
  assumes "mstep ev s s'" and "stuck tag s" and "no_plain_request tag ev"
  shows "stuck tag s' \<and> history_of tag s' = history_of tag s"
  using assms(1)
proof cases
  case (Request t)
  obtain ok m' where e: "enqueueTask t (sy_mon s) = (ok, m')" by fastforce
  have "tk_outboundTag t \<noteq> tag \<or> tk_priority t" using assms(3) Request by (simp add: no_plain_request_def)
  from stuck_enqueue [OF assms(2) e this] show ?thesis using Request e by (simp add: history_of_def)
next
  case (StageNext g tag' rest ok m')
  have "tag' \<noteq> tag" using assms(2) StageNext by (auto simp: stuck_def)
  then have "tk_outboundTag (stage_task g tag') \<noteq> tag \<or> tk_priority (stage_task g tag')" by (simp add: stage_task_def)
  from stuck_enqueue [OF assms(2) StageNext(6) this] show ?thesis
    using StageNext by (auto simp: stuck_def history_of_def pending_def)
next
  case (Finish t R outcome m')
  have t: "tk_outboundTag t \<noteq> tag" using assms(2) Finish by (simp add: stuck_def pending_def)
  then have "mo_outbounds (set_testing False (tk_outboundTag t) m') tag = mo_outbounds (sy_mon s) tag"
    using applyResult_other [of outcome "sy_mon s" m' tag] Finish by (simp add: set_testing_other)
  moreover have "pending s = add_mset t (pending s')" using applyResult_queues [of outcome "sy_mon s" m'] Finish by (simp add: pending_def)
  ultimately show ?thesis using assms(2) Finish by (auto simp: stuck_def history_of_def)
next
  case (Requeue t R ok m')
  have t: "tk_outboundTag t \<noteq> tag" using assms(2) Requeue by (simp add: stuck_def pending_def)
  from pending_requeue(2) [OF Requeue(3,4,2)] show ?thesis using assms(2) Requeue t enqueueTask_other [OF Requeue(4), of tag] by (fastforce simp: stuck_def history_of_def)
next
  case (TakePriority n t rest)
  then show ?thesis using assms(2) by (auto simp: stuck_def history_of_def pending_start start_task_def set_testing_other pending_def)
next
  case (TakeInnerPriority n t rest)
  then show ?thesis using assms(2) by (auto simp: stuck_def history_of_def pending_start start_task_def set_testing_other pending_def)
next
  case (TakeInnerNormal n t rest)
  then show ?thesis using assms(2) by (auto simp: stuck_def history_of_def pending_start start_task_def set_testing_other pending_def)
next
  case (NotReady t R)
  then show ?thesis using assms(2) by (auto simp: stuck_def history_of_def set_testing_other pending_def)
qed (use assms(2,3) in \<open>auto simp: stuck_def history_of_def pending_def no_plain_request_def\<close>)

lemma stuck_run:
  "mrun ws s s' \<Longrightarrow> stuck tag s \<Longrightarrow> list_all (no_plain_request tag) ws \<Longrightarrow> stuck tag s' \<and> history_of tag s' = history_of tag s"
proof (induction rule: mrun.induct)
  case (run_snoc evs s t ev u)
  then show ?case using stuck_step [of ev t u tag] by auto
qed simp

lemma stuck_not_due: "stuck tag s \<Longrightarrow> tag \<notin> set (collectCycleTargets clock order (sy_mon s))"
  by (auto simp: stuck_def collectCycleTargets_def due_def split: option.splits)

end
