(* ===== verification/Monitor_Properties.thy ===== *)
theory Monitor_Properties
  imports Monitor_Steps
begin

text \<open>
  The properties of the outbound monitor: its workers make progress and a stage of a cycle gets all of its results,
  an urgent test can leave an outbound untested for ever, what a cycle tests, and which URL it tests with.
\<close>

section \<open>A small instance\<close>

definition plain_state :: "unit outboundState" where
  "plain_state = \<lparr>os_groupTags = [], os_dependenciesInverse = [], os_dependencies = [], os_lastURL = [], os_invalid = True,
     os_queued = False, os_priorityQueued = False, os_testing = False, os_enqueuedCycle = 0, os_from_cache = False,
     os_history = zeroHistory\<rparr>"

definition small_monitor :: "unit monitor" where
  "small_monitor = set_state ''a'' plain_state
     (NewOutboundMonitoring Map.empty \<lparr>mon_Interval = 0, mon_URLs = [''u'', ''v''], mon_Workers = 1, mon_DebounceWindow = 0, mon_URLTestTimeout = 0,
        mon_IdleTimeout = 0\<rparr>)"

lemmas small_defs = small_monitor_def set_state_def NewOutboundMonitoring_def

section \<open>Stages\<close>

text \<open>
  C20. In every run of the workers a stage of a cycle waits for exactly the results that have arrived, that are on
  their way, or whose delayed test could not be queued again. When none was lost, the workers or the stage have a step
  to make; every sequence of such steps is bounded, so without new requests, and with outbounds that are ready, the
  stage returns. When one was lost, the stage does not return.
\<close>

theorem monitor_stage_progress:
  assumes "mrun evs (workers m n) s" and "queues_empty m" and "no_nil (mo_history m)" and "0 < n" and "sy_stage s = Some g"
  shows "sg_expected g = length (sy_results s (sg_id g)) + pending_results (sg_id g) s + lost (sg_id g) evs \<and>
    (lost (sg_id g) evs = 0 \<longrightarrow> (\<exists>ev s'. quiet ev \<and> mstep ev s s')) \<and>
    (\<forall>ws s'. mrun ws s s' \<longrightarrow> list_all quiet ws \<longrightarrow> length ws \<le> weight s) \<and>
    (0 < lost (sg_id g) evs \<longrightarrow> (\<nexists>s'. mstep StageReturn s s'))"
proof -
  have a: "accounts evs s" by (rule mrun_accounts [OF assms(1) workers_accounts [OF assms(2)]])
  have "healthy n (workers m n)" using assms(2,3) by (simp add: healthy_def workers_def queues_empty_def)
  then have h: "healthy n s" by (rule mrun_healthy [OF assms(1)])
  have e: "sg_expected g = length (sy_results s (sg_id g)) + pending_results (sg_id g) s + lost (sg_id g) evs"
    using a assms(5) by (simp add: accounts_def)
  moreover have "lost (sg_id g) evs = 0 \<longrightarrow> (\<exists>ev s'. quiet ev \<and> mstep ev s s')"
    using stage_step [OF h assms(4) a assms(5)] by blast
  moreover have "\<forall>ws s'. mrun ws s s' \<longrightarrow> list_all quiet ws \<longrightarrow> length ws \<le> weight s"
    using weight_run by fastforce
  moreover have "0 < lost (sg_id g) evs \<longrightarrow> (\<nexists>s'. mstep StageReturn s s')"
    using e assms(5) by (auto simp: return_simps)
  ultimately show ?thesis by blast
qed

theorem monitor_stage_progress_witness:
  "\<exists>s g. mrun [StageStart 1 [''a'']] (workers small_monitor 1) s \<and> sy_stage s = Some g \<and>
     sg_expected g = 0 \<and> (\<exists>ev s'. quiet ev \<and> mstep ev s s')"
proof -
  let ?g = "\<lparr>sg_id = 0, sg_cycle = 1, sg_todo = [''a''], sg_expected = 0\<rparr>"
  obtain s where st: "mstep (StageStart 1 [''a'']) (workers small_monitor 1) s" and g: "sy_stage s = Some ?g"
    using mstep.StageStart [of "workers small_monitor 1" 1 "[''a'']"] by (auto simp: workers_def)
  have r: "mrun [StageStart 1 [''a'']] (workers small_monitor 1) s" using run_snoc [OF run_none st] by simp
  have "queues_empty small_monitor" "no_nil (mo_history small_monitor)"
    by (simp_all add: queues_empty_def no_nil_def small_defs)
  from monitor_stage_progress [OF r this _ g] have "\<exists>ev s'. quiet ev \<and> mstep ev s s'" by (simp add: lost_def)
  then show ?thesis using r g by (intro exI [of _ s] exI [of _ ?g]) simp
qed

section \<open>Urgent tests\<close>

text \<open>
  An urgent test of an outbound that is not ready yet blocks its tests: the delayed task is not queued again,
  because the flag that it set itself is still set, and after that neither another urgent test nor any cycle tests the
  outbound; its history stays as it is until a group that contains it is tested on request.
\<close>

theorem monitor_urgent_test_stuck:
  assumes "mo_outbounds (sy_mon s) tag = Some st" and "\<not> os_priorityQueued st" and "\<not> mo_done (sy_mon s)"
    and "mo_priorityQueue (sy_mon s) = []" and "sy_outer s = Suc k" and "\<forall>t \<in># pending s. tk_outboundTag t \<noteq> tag"
    and "case sy_stage s of Some g \<Rightarrow> tag \<notin> set (sg_todo g) | None \<Rightarrow> True"
    and "t = \<lparr>tk_outboundTag = tag, tk_cycleID = mo_cycleSeq (sy_mon s), tk_priority = True, tk_resultCh = None\<rparr>"
    and "mo_cycleSeq (sy_mon s) < 10"
  shows "\<exists>s1. mrun [Request t, TakePriority, NotReady t, Requeue t False] s s1 \<and>
    (\<forall>ws s2. mrun ws s1 s2 \<longrightarrow> list_all (no_plain_request tag) ws \<longrightarrow>
       history_of tag s2 = history_of tag s \<and> tag \<notin> set (collectCycleTargets clock order (sy_mon s2)) \<and>
       fst (enqueueTask t (sy_mon s2)) = False)"
proof -
  let ?m = "set_state tag (st\<lparr>os_priorityQueued := True\<rparr>) (sy_mon s)"
  have e: "enqueueTask t (sy_mon s) = (True, ?m\<lparr>mo_priorityQueue := [t]\<rparr>)"
    using assms(1-4,8) by (simp add: enqueueTask_def set_state_def)
  define a where "a = s\<lparr>sy_mon := ?m\<lparr>mo_priorityQueue := [t]\<rparr>\<rparr>"
  define b where "b = start_task t (a\<lparr>sy_outer := k, sy_mon := (sy_mon a)\<lparr>mo_priorityQueue := []\<rparr>\<rparr>)"
  define c where "c = b\<lparr>sy_running := sy_running s, sy_delayed := add_mset t (sy_delayed b), sy_outer := Suc (sy_outer b),
     sy_mon := set_testing False tag (sy_mon b)\<rparr>"
  define d where "d = c\<lparr>sy_delayed := sy_delayed s, sy_mon := sy_mon c\<rparr>"
  have "mstep (Request t) s a" using mstep.Request [of t s] assms(8) e by (simp add: a_def)
  moreover have "mstep TakePriority a b"
    unfolding b_def by (rule mstep.TakePriority) (simp_all add: a_def assms(5))
  moreover have "mstep (NotReady t) b c"
    unfolding c_def using mstep.NotReady [of b t "sy_running s"] assms(8,9) by (simp add: b_def a_def start_task_def)
  moreover have q: "\<exists>st'. mo_outbounds (sy_mon c) tag = Some st' \<and> os_priorityQueued st' \<and> os_history st' = os_history st"
    by (simp add: c_def b_def a_def start_task_def set_testing_def set_state_def assms(8))
  then have "enqueueTask (retry t) (sy_mon c) = (False, sy_mon c)"
    using enqueueTask_again [of "sy_mon c" "retry t"] by (auto simp: assms(8))
  then have "mstep (Requeue t False) c d"
    unfolding d_def by (intro mstep.Requeue) (simp_all add: c_def b_def a_def start_task_def)
  ultimately have r: "mrun [Request t, TakePriority, NotReady t, Requeue t False] s d"
    using run_none [of s] run_snoc [of "[]" s s "Request t" a] run_snoc [of "[Request t]" s a TakePriority b]
      run_snoc [of "[Request t, TakePriority]" s b "NotReady t" c]
      run_snoc [of "[Request t, TakePriority, NotReady t]" s c "Requeue t False" d] by simp
  have "pending d = pending s"
    by (simp add: d_def c_def b_def a_def start_task_def pending_def set_state_def assms(4))
  moreover have "sy_stage d = sy_stage s" "sy_mon d = sy_mon c" by (simp_all add: d_def c_def b_def a_def start_task_def)
  ultimately have k: "stuck tag d" using q assms(6,7) by (auto simp: stuck_def)
  have hd: "history_of tag d = history_of tag s" using q assms(1) \<open>sy_mon d = sy_mon c\<close> by (auto simp: history_of_def)
  show ?thesis
  proof (intro exI conjI allI impI)
    show "mrun [Request t, TakePriority, NotReady t, Requeue t False] s d" by (fact r)
    fix ws s2 assume "mrun ws d s2" and "list_all (no_plain_request tag) ws"
    then have s2: "stuck tag s2" "history_of tag s2 = history_of tag d" using stuck_run k by blast+
    then show "history_of tag s2 = history_of tag s" using hd by simp
    show "tag \<notin> set (collectCycleTargets clock order (sy_mon s2))" by (rule stuck_not_due [OF s2(1)])
    show "fst (enqueueTask t (sy_mon s2)) = False"
      using s2(1) enqueueTask_again [of "sy_mon s2" t] by (auto simp: stuck_def assms(8))
  qed
qed

definition urgent :: testTask where
  "urgent = \<lparr>tk_outboundTag = ''a'', tk_cycleID = 0, tk_priority = True, tk_resultCh = None\<rparr>"

theorem monitor_urgent_test_stuck_witness:
  "\<exists>s1. mrun [Request urgent, TakePriority, NotReady urgent, Requeue urgent False] (workers small_monitor 1) s1 \<and>
    ''a'' \<notin> set (collectCycleTargets (\<lambda>_. 0) [''a''] (sy_mon s1))"
proof -
  have "\<exists>s1. mrun [Request urgent, TakePriority, NotReady urgent, Requeue urgent False] (workers small_monitor 1) s1 \<and>
    (\<forall>ws s2. mrun ws s1 s2 \<longrightarrow> list_all (no_plain_request ''a'') ws \<longrightarrow>
       history_of ''a'' s2 = history_of ''a'' (workers small_monitor 1) \<and>
       ''a'' \<notin> set (collectCycleTargets (\<lambda>_. 0) [''a''] (sy_mon s2)) \<and> fst (enqueueTask urgent (sy_mon s2)) = False)"
    by (rule monitor_urgent_test_stuck [where st = plain_state and k = 0])
      (simp_all add: workers_def small_defs plain_state_def pending_def urgent_def)
  then obtain s1 where r: "mrun [Request urgent, TakePriority, NotReady urgent, Requeue urgent False] (workers small_monitor 1) s1"
    and "\<forall>ws s2. mrun ws s1 s2 \<longrightarrow> list_all (no_plain_request ''a'') ws \<longrightarrow>
       ''a'' \<notin> set (collectCycleTargets (\<lambda>_. 0) [''a''] (sy_mon s2))" by blast
  then have "''a'' \<notin> set (collectCycleTargets (\<lambda>_. 0) [''a''] (sy_mon s1))" using run_none [of s1] by fastforce
  then show ?thesis using r by blast
qed

section \<open>Cycles\<close>

text \<open>
  A cycle tests exactly the registered outbounds that are no groups, are not queued or being tested, and whose
  last result is invalid or older than the interval; each of them once, the fastest first, and in the order of the
  iteration when their delays are equal. An outbound that a stage has queued is not a target again before its result.
\<close>

theorem monitor_cycle_targets:
  assumes "distinct order" and "set order = dom (mo_outbounds m)" and targets_def: "targets = collectCycleTargets clock order m"
  shows "distinct targets \<and> sorted (map (delay_of m) targets) \<and>
    (\<forall>d. filter (\<lambda>t. delay_of m t = d) targets = filter (\<lambda>t. due (clock t) m t \<and> delay_of m t = d) order) \<and>
    (\<forall>tag. tag \<in> set targets \<longleftrightarrow> mo_groups m tag = None \<and>
       (\<exists>st. mo_outbounds m tag = Some st \<and> \<not> os_testing st \<and> \<not> os_queued st \<and> \<not> os_priorityQueued st \<and>
         (os_invalid st \<or> mo_mainInterval m \<le> Since (clock tag) (his_Time (os_history st))))) \<and>
    (\<forall>g tag ok m' clock' order'. tag \<in> set targets \<longrightarrow> enqueueTask (stage_task g tag) m = (ok, m') \<longrightarrow>
       os_enqueuedCycle (the (mo_outbounds m tag)) \<noteq> sg_cycle g \<longrightarrow> \<not> mo_done m \<longrightarrow>
       tag \<notin> set (collectCycleTargets clock' order' m'))"
proof -
  have stable: "filter (\<lambda>t. delay_of m t = d) targets = filter (\<lambda>t. due (clock t) m t \<and> delay_of m t = d) order" for d
    by (simp add: targets_def collectCycleTargets_def sort_key_stable)
  have mem: "tag \<in> set targets \<longleftrightarrow> mo_groups m tag = None \<and>
       (\<exists>st. mo_outbounds m tag = Some st \<and> \<not> os_testing st \<and> \<not> os_queued st \<and> \<not> os_priorityQueued st \<and>
         (os_invalid st \<or> mo_mainInterval m \<le> Since (clock tag) (his_Time (os_history st))))" for tag
    using assms(2) by (auto simp: targets_def collectCycleTargets_def due_def split: option.splits)
  have queued: "tag \<notin> set (collectCycleTargets clock' order' m')"
    if t: "tag \<in> set targets" "enqueueTask (stage_task g tag) m = (ok, m')"
      "os_enqueuedCycle (the (mo_outbounds m tag)) \<noteq> sg_cycle g" "\<not> mo_done m" for g tag ok m' clock' order'
  proof -
    obtain st where st: "mo_outbounds m tag = Some st" using t(1) mem by blast
    then have "\<exists>st'. mo_outbounds m' tag = Some st' \<and> os_queued st'"
      using t(2-4) by (auto simp: enqueueTask_def stage_task_def set_state_def Let_def split: if_splits)
    then show ?thesis by (auto simp: collectCycleTargets_def due_def split: option.splits)
  qed
  show ?thesis using stable mem queued assms(1) by (auto simp: targets_def collectCycleTargets_def)
qed

theorem monitor_cycle_targets_witness:
  "collectCycleTargets (\<lambda>_. 0) [''a''] small_monitor = [''a''] \<and> distinct (collectCycleTargets (\<lambda>_. 0) [''a''] small_monitor)"
proof -
  have "distinct (collectCycleTargets (\<lambda>_. 0) [''a''] small_monitor)"
    using monitor_cycle_targets [of "[''a'']" small_monitor _ "\<lambda>_. 0", OF _ _ refl] by (simp add: small_defs dom_def)
  then show ?thesis by (simp add: collectCycleTargets_def due_def small_defs plain_state_def)
qed

text \<open>The loop over the URLs moves the index once per stage that failed, but the last.\<close>

definition keeps_links :: "('info monitor \<Rightarrow> 'o \<times> 'info monitor) \<Rightarrow> bool" where
  "keeps_links f \<longleftrightarrow>
     (\<forall>m. mo_urls (snd (f m)) = mo_urls m \<and> mo_currentLinkIndex (snd (f m)) = mo_currentLinkIndex m \<and>
        mo_cycleSeq (snd (f m)) = mo_cycleSeq m)"

lemma next_link:
  assumes "unat i < n" and "n < 2 ^ 32"
  shows "unat ((i + 1) mod word_of_nat n :: 32 word) = (unat i + 1) mod n"
proof -
  have "unat i + 1 < 2 ^ LENGTH(32)" using assms by simp
  then have "unat (i + 1) = unat i + 1" by (simp add: unat_word_ariths)
  moreover have "unat (word_of_nat n :: 32 word) = n" using assms(2) by (simp add: unat_of_nat take_bit_nat_eq_self)
  ultimately show ?thesis by (simp add: unat_mod_distrib)
qed

lemma cycle_loop_link:
  assumes "keeps_links f" and "us \<noteq> []" and "unat (mo_currentLinkIndex m) < length (mo_urls m)" and "length (mo_urls m) < 2 ^ 32"
    and "cycle_loop f us m = (m', n)"
  shows "0 < n \<and> n \<le> length us \<and> mo_urls m' = mo_urls m \<and> mo_cycleSeq m' = mo_cycleSeq m \<and>
    unat (mo_currentLinkIndex m') = (unat (mo_currentLinkIndex m) + (n - 1)) mod length (mo_urls m)"
  using assms(2-5)
proof (induction us arbitrary: m n)
  case (Cons u us)
  obtain outcomes m1 where f: "f m = (outcomes, m1)" by fastforce
  have k: "mo_urls m1 = mo_urls m" "mo_currentLinkIndex m1 = mo_currentLinkIndex m" "mo_cycleSeq m1 = mo_cycleSeq m"
    using assms(1) f unfolding keeps_links_def by (metis snd_conv)+
  show ?case
  proof (cases "0 < length (filter (\<lambda>result. oc_err result = None) outcomes) \<or> us = []")
    case True
    then show ?thesis using Cons.prems f k by (auto simp: Let_def)
  next
    case False
    define m2 where "m2 = m1\<lparr>mo_currentLinkIndex := (mo_currentLinkIndex m1 + 1) mod word_of_nat (length (mo_urls m1))\<rparr>"
    obtain n2 where n2: "cycle_loop f us m2 = (m', n2)" "n = Suc n2"
      using Cons.prems(4) False f by (auto simp: m2_def Let_def apsnd_def map_prod_def split: prod.splits)
    have i: "unat (mo_currentLinkIndex m2) = (unat (mo_currentLinkIndex m) + 1) mod length (mo_urls m)"
      using next_link [OF Cons.prems(2,3)] k by (simp add: m2_def)
    moreover have "0 < length (mo_urls m)" by (rule le_less_trans [OF le0 Cons.prems(2)])
    ultimately have b: "unat (mo_currentLinkIndex m2) < length (mo_urls m2)" by (simp add: m2_def k)
    from Cons.IH [OF _ b _ n2(1)] have IH: "0 < n2" "n2 \<le> length us" "mo_urls m' = mo_urls m" "mo_cycleSeq m' = mo_cycleSeq m"
      "unat (mo_currentLinkIndex m') = (unat (mo_currentLinkIndex m2) + (n2 - 1)) mod length (mo_urls m)"
      using False Cons.prems(3) k by (simp_all add: m2_def)
    have "unat (mo_currentLinkIndex m') = (unat (mo_currentLinkIndex m) + 1 + (n2 - 1)) mod length (mo_urls m)"
      unfolding IH(5) i by (simp add: mod_add_left_eq)
    then show ?thesis using IH n2(2) by simp
  qed
qed simp

text \<open>
  A cycle runs at most one stage per URL and ends; afterwards the index is in range, so that the next test does not
  panic, and points to the URL of the last stage, the one after the URLs whose stages had no success.
\<close>

theorem monitor_cycle_link:
  assumes "\<And>cycle tags. keeps_links (runStage cycle tags)" and "unat (mo_currentLinkIndex m) < length (mo_urls m)"
    and "length (mo_urls m) < 2 ^ 32" and "runCycle runStage clock order cache m = ((m', cache'), n)"
  shows "n \<le> length (mo_urls m) \<and> mo_cycleSeq m' = mo_cycleSeq m + 1 \<and>
    test_url m' = Inr (mo_urls m ! ((unat (mo_currentLinkIndex m) + (n - 1)) mod length (mo_urls m)))"
proof -
  define m0 where "m0 = m\<lparr>mo_cycleSeq := mo_cycleSeq m + 1\<rparr>"
  show ?thesis
  proof (cases "collectCycleTargets clock order m0 = []")
    case True
    then have "m' = m0" "n = 0" using assms(4) by (auto simp: runCycle_def m0_def Let_def)
    then show ?thesis using assms(2) by (simp add: m0_def test_url_def)
  next
    case False
    obtain m1 where l: "cycle_loop (runStage (mo_cycleSeq m0) (collectCycleTargets clock order m0)) (mo_urls m0) m0 = (m1, n)"
      and m': "m' = m1 \<or> m' = m1\<lparr>mo_cacheDirty := False\<rparr>"
      using assms(4) False by (auto simp: runCycle_def m0_def Let_def split: prod.splits if_splits)
    have "mo_urls m0 \<noteq> []" "unat (mo_currentLinkIndex m0) < length (mo_urls m0)" "length (mo_urls m0) < 2 ^ 32"
      using assms(2,3) by (auto simp: m0_def)
    from cycle_loop_link [OF assms(1) this l] m' have *: "0 < n" "n \<le> length (mo_urls m)" "mo_urls m' = mo_urls m"
      "mo_cycleSeq m' = mo_cycleSeq m + 1"
      "unat (mo_currentLinkIndex m') = (unat (mo_currentLinkIndex m) + (n - 1)) mod length (mo_urls m)"
      by (auto simp: m0_def)
    moreover have "0 < length (mo_urls m)" by (rule le_less_trans [OF le0 assms(2)])
    ultimately show ?thesis by (simp add: test_url_def)
  qed
qed

definition failing_stage :: "64 word \<Rightarrow> string list \<Rightarrow> unit monitor \<Rightarrow> unit testOutcome list \<times> unit monitor" where
  "failing_stage cycle tags m = ([], m)"

theorem monitor_cycle_link_witness:
  "\<exists>m' cache'. runCycle failing_stage (\<lambda>_. 0) [''a''] None small_monitor = ((m', cache'), 2) \<and> test_url m' = Inr ''v''"
proof -
  obtain m' cache' n where r: "runCycle failing_stage (\<lambda>_. 0) [''a''] None small_monitor = ((m', cache'), n)"
    using prod.exhaust by metis
  have n: "n = 2" using r
    by (simp add: runCycle_def failing_stage_def collectCycleTargets_def due_def small_defs plain_state_def Let_def)
  have "unat (mo_currentLinkIndex small_monitor) < length (mo_urls small_monitor)" "length (mo_urls small_monitor) < 2 ^ 32"
    by (simp_all add: small_defs)
  from monitor_cycle_link [OF _ this r] have "test_url m' = Inr ''v''"
    by (simp add: n keeps_links_def failing_stage_def small_defs)
  then show ?thesis using r n by auto
qed

section \<open>Restarts\<close>

text \<open>
  What the cache file brings back: the history of every outbound that is no group, marked as cached, with the delay of a
  timeout forgotten.
\<close>

lemma restart_history:
  assumes "mo_outbounds m0 tag = Some st0" and "mo_groups m0 tag = None" and "mo_outbounds m tag = Some st" and "cache \<noteq> None"
  shows "\<exists>st'. mo_outbounds (loadHistory (saveHistory m cache) m0) tag = Some st' \<and> os_from_cache st' \<and>
    os_history st' = (if 65535 \<le> his_Delay (os_history st) then (os_history st)\<lparr>his_Delay := 0\<rparr> else os_history st) \<and>
    getUrlTest (Suc fuel) order Now (loadHistory (saveHistory m cache) m0) tag = Some (Some ((os_history st')\<lparr>his_IsFromCache := True\<rparr>))"
  using assms
  by (auto simp: loadHistory_def saveHistory_def load_entry_def)

text \<open>The activity that starts the ticker is not recorded: without another one the first tick stops it again.\<close>

lemma first_tick_stops:
  assumes "mo_started m" and "\<not> mo_mainTicker m" and "\<not> mo_workersRunning m" and "mo_lastActive m = zeroTime"
    and "0 \<le> now" and "mo_idleTimeout m < 2 ^ 63 - 1" and "0 \<le> mo_mainInterval m"
  shows "snd (schedule_tick (now + mo_mainInterval m) cache (Monitor_Touch now m)) = False"
  using assms
  by (simp add: schedule_tick_def Monitor_Touch_def startTimerWorkers_def startCycleOnce_def Since_def zeroTime_def)

end
