(* ===== verification/Start_Order.thy ===== *)
theory Start_Order
  imports Rule_Items
begin

text \<open>
  Starting objects that depend on each other: \<open>startOutbounds\<close> of \<open>adapter/outbound/manager.go\<close> and
  \<open>startTransports\<close> of \<open>dns/transport_manager.go\<close>, which are the same loop with different names in their messages.
\<close>

section \<open>Managed objects\<close>

text \<open>
  An inbound, outbound, endpoint, service or DNS transport as its manager sees it. \<open>it_id\<close> is the identity of the
  pointer; \<open>it_Start\<close> is what \<open>LegacyStart\<close> returns in a stage (\<open>adapter/lifecycle_legacy.go\<close>), \<open>it_Close\<close> what
  \<open>Close\<close> returns.
\<close>

record item =
  it_id :: nat
  it_Tag :: string
  it_Type :: string
  it_Dependencies :: "string list"
  it_Start :: "nat \<Rightarrow> error option"
  it_Close :: "error option"

text \<open>The stages of \<open>adapter/lifecycle.go\<close>.\<close>

abbreviation (input) StartStateInitialize :: nat where "StartStateInitialize \<equiv> 0"
abbreviation (input) StartStateStart :: nat where "StartStateStart \<equiv> 1"

definition ListStartStages :: "nat list" where "ListStartStages = [0, 1, 2, 3]"

text \<open>The words in which the messages of the two managers differ.\<close>

record start_words =
  sw_start :: "item \<Rightarrow> farg list"
  sw_kind :: string

definition item_name :: "string \<Rightarrow> item \<Rightarrow> farg list" where
  "item_name what o' = [S what, S (it_Type o'), S ''['', S (it_Tag o'), S '']'']"

definition outbound_words :: start_words where
  "outbound_words = \<lparr>sw_start = (\<lambda>o'. S ''start '' # item_name ''outbound/'' o'), sw_kind = ''outbound''\<rparr>"

definition transport_words :: start_words where
  "transport_words = \<lparr>sw_start = (\<lambda>o'. S ''start dns/'' # item_name [] o'), sw_kind = ''server''\<rparr>"

section \<open>The loop\<close>

text \<open>
  One pass over the objects (\<open>startOne\<close>): an object is started when all of its dependencies are. \<open>started\<close> are the tags
  of the map, in the order in which they were added; the last component is \<open>canContinue\<close>.
\<close>

fun start_pass :: "start_words \<Rightarrow> item list \<Rightarrow> string list \<Rightarrow> bool \<Rightarrow> error option \<times> string list \<times> bool" where
  "start_pass W [] started canContinue = (None, started, canContinue)"
| "start_pass W (o' # os) started canContinue =
     (if it_Tag o' \<in> set started then start_pass W os started canContinue
      else if \<not> list_all (\<lambda>d. d \<in> set started) (it_Dependencies o') then start_pass W os started canContinue
      else case it_Start o' StartStateStart of
             Some err \<Rightarrow> (Some (E_Cause err (sw_start W o')), started @ [it_Tag o'], True)
           | None \<Rightarrow> start_pass W os (started @ [it_Tag o']) True)"

text \<open>
  \<open>lintOutbound\<close>: the first dependency that is not started is followed until it closes a circle or is unknown.
  \<open>common.Find\<close> returns the empty string when there is none.
\<close>

function lint :: "start_words \<Rightarrow> (string \<times> item) list \<Rightarrow> string list \<Rightarrow> string list \<Rightarrow> item \<Rightarrow> error" where
  "lint W byTag started oTree oCurrent =
     (let problem = (case find (\<lambda>d. d \<notin> set started) (it_Dependencies oCurrent) of Some d \<Rightarrow> d | None \<Rightarrow> []) in
      if problem \<in> set oTree
      then E_New ([S ''circular '', S (sw_kind W), S '' dependency: '', S (Join oTree '' -> ''), S '' -> '', S problem])
      else case map_of byTag problem of
             None \<Rightarrow> E_New [S ''dependency['', S problem, S ''] not found for '', S (sw_kind W), S ''['', S (it_Tag oCurrent), S '']'']
           | Some found \<Rightarrow> lint W byTag started (oTree @ [problem]) found)"
  by pat_completeness auto

termination
proof (relation "measure (\<lambda>(W, byTag, started, oTree, oCurrent). card (fst ` set byTag - set oTree))", goal_cases)
  case (2 W byTag started oTree oCurrent problem found)
  then have "problem \<in> fst ` set byTag" by (auto dest: map_of_SomeD intro: rev_image_eqI)
  then have "fst ` set byTag - set (oTree @ [problem]) \<subset> fst ` set byTag - set oTree" using 2(2) by auto
  then show ?case by (auto intro: psubset_card_mono)
qed simp

declare lint.simps [simp del]

definition nil_panic_start :: error where
  "nil_panic_start = Panic [S ''invalid memory address or nil pointer dereference'']"

lemma start_pass_started:
  assumes "start_pass W os started c = (e, started', c')"
  obtains new where "started' = started @ new" and "set new \<subseteq> it_Tag ` set os" and "set new \<inter> set started = {}" and "distinct new"
    and "c' \<longleftrightarrow> c \<or> new \<noteq> []"
proof -
  have "\<exists>new. started' = started @ new \<and> set new \<subseteq> it_Tag ` set os \<and> set new \<inter> set started = {} \<and> distinct new \<and> (c' \<longleftrightarrow> c \<or> new \<noteq> [])"
    using assms
  proof (induction os arbitrary: started c)
    case (Cons o' os)
    show ?case
    proof (cases "it_Tag o' \<in> set started \<or> \<not> list_all (\<lambda>d. d \<in> set started) (it_Dependencies o')")
      case True
      then have "start_pass W os started c = (e, started', c')" using Cons.prems by (auto split: if_splits)
      from Cons.IH [OF this] show ?thesis by auto
    next
      case False
      show ?thesis
      proof (cases "it_Start o' 1")
        case None
        then have "start_pass W os (started @ [it_Tag o']) True = (e, started', c')" using Cons.prems False by simp
        from Cons.IH [OF this] obtain new where n: "started' = started @ [it_Tag o'] @ new" "set new \<subseteq> it_Tag ` set os"
          "set new \<inter> set (started @ [it_Tag o']) = {}" "distinct new" "c'" by auto
        have "distinct (it_Tag o' # new)" "set (it_Tag o' # new) \<inter> set started = {}" using n(3,4) False by auto
        then show ?thesis using n by (intro exI [of _ "it_Tag o' # new"]) auto
      next
        case (Some err)
        then show ?thesis using Cons.prems False by auto
      qed
    qed
  qed simp
  then show ?thesis using that by blast
qed

lemma start_pass_less:
  assumes "start_pass W os started False = (e, started', True)"
  shows "length (filter (\<lambda>o'. it_Tag o' \<notin> set started') os) < length (filter (\<lambda>o'. it_Tag o' \<notin> set started) os)"
proof -
  obtain new where n: "started' = started @ new" "set new \<subseteq> it_Tag ` set os" "set new \<inter> set started = {}" "new \<noteq> []"
    using start_pass_started [OF assms] by metis
  then obtain o' where o': "o' \<in> set os" "it_Tag o' \<in> set new" by (cases new) auto
  have "length (filter (\<lambda>o'. it_Tag o' \<notin> set started') os) = length (filter (\<lambda>o'. it_Tag o' \<notin> set new) (filter (\<lambda>o'. it_Tag o' \<notin> set started) os))"
    by (simp add: n(1) conj_commute)
  also have "\<dots> < length (filter (\<lambda>o'. it_Tag o' \<notin> set started) os)"
    using o' n(3) by (intro length_filter_less [of o']) auto
  finally show ?thesis .
qed

text \<open>The whole loop: the error, if any, and the tags in the order in which they were started.\<close>

function start_all :: "start_words \<Rightarrow> (string \<times> item) list \<Rightarrow> item list \<Rightarrow> string list \<Rightarrow> error option \<times> string list" where
  "start_all W byTag os started =
     (case start_pass W os started False of
        (Some err, started, _) \<Rightarrow> (Some err, started)
      | (None, started, canContinue) \<Rightarrow>
          if length started = length os then (None, started)
          else if canContinue then start_all W byTag os started
          else case find (\<lambda>o'. it_Tag o' \<notin> set started) os of
                 None \<Rightarrow> (Some nil_panic_start, started)
               | Some current \<Rightarrow> (Some (lint W byTag started [it_Tag current] current), started))"
  by pat_completeness auto

termination
  by (relation "measure (\<lambda>(W, byTag, os, started). length (filter (\<lambda>o'. it_Tag o' \<notin> set started) os))")
    (auto dest!: sym [of _ "start_pass _ _ _ _"] start_pass_less)

declare start_all.simps [simp del]

definition startOutbounds :: "(string \<times> item) list \<Rightarrow> item list \<Rightarrow> error option \<times> string list" where
  "startOutbounds byTag outbounds = start_all outbound_words byTag outbounds []"

definition startTransports :: "(string \<times> item) list \<Rightarrow> item list \<Rightarrow> error option \<times> string list" where
  "startTransports byTag transports = start_all transport_words byTag transports []"

section \<open>The order\<close>

text \<open>Every tag of the log is the one of an object whose dependencies come before it.\<close>

definition deps_before :: "item list \<Rightarrow> string list \<Rightarrow> bool" where
  "deps_before os log \<longleftrightarrow>
     (\<forall>a tag b. log = a @ tag # b \<longrightarrow> (\<exists>o' \<in> set os. it_Tag o' = tag \<and> set (it_Dependencies o') \<subseteq> set a))"

lemma deps_before_Nil [simp]: "deps_before os []"
  by (simp add: deps_before_def)

lemma deps_before_snoc:
  assumes "deps_before os log" and "o' \<in> set os" and "set (it_Dependencies o') \<subseteq> set log"
  shows "deps_before os (log @ [it_Tag o'])"
  unfolding deps_before_def
proof (intro allI impI)
  fix a tag b assume *: "log @ [it_Tag o'] = a @ tag # b"
  show "\<exists>o' \<in> set os. it_Tag o' = tag \<and> set (it_Dependencies o') \<subseteq> set a"
  proof (cases b rule: rev_cases)
    case Nil
    then show ?thesis using * assms(2,3) by auto
  next
    case (snoc b' x)
    then have "log = a @ tag # b'" using * by simp
    then show ?thesis using assms(1) by (simp add: deps_before_def)
  qed
qed

lemma start_pass_order:
  assumes "start_pass W os started c = (e, started', c')" and "set os \<subseteq> set os0" and "deps_before os0 started"
  shows "deps_before os0 started'"
  using assms
proof (induction os arbitrary: started c)
  case (Cons o' os)
  show ?case
  proof (cases "it_Tag o' \<in> set started \<or> \<not> list_all (\<lambda>d. d \<in> set started) (it_Dependencies o')")
    case True
    then have "start_pass W os started c = (e, started', c')" using Cons.prems by (auto split: if_splits)
    from Cons.IH [OF this] show ?thesis using Cons.prems by simp
  next
    case False
    then have d: "deps_before os0 (started @ [it_Tag o'])"
      using Cons.prems by (intro deps_before_snoc) (auto simp: list_all_iff)
    show ?thesis
    proof (cases "it_Start o' 1")
      case None
      then have "start_pass W os (started @ [it_Tag o']) True = (e, started', c')" using Cons.prems False by simp
      from Cons.IH [OF this] show ?thesis using Cons.prems d by simp
    next
      case (Some err)
      then show ?thesis using Cons.prems False d by auto
    qed
  qed
qed simp

lemma start_pass_stop:
  assumes "start_pass W os started False = (None, started', False)"
  shows "started' = started" and "o' \<in> set os \<Longrightarrow> it_Tag o' \<in> set started \<or> \<not> set (it_Dependencies o') \<subseteq> set started"
proof -
  have *: "started' = started \<and> (\<forall>o' \<in> set os. it_Tag o' \<in> set started \<or> \<not> set (it_Dependencies o') \<subseteq> set started)"
    using assms
  proof (induction os)
    case (Cons o' os)
    have "it_Tag o' \<in> set started \<or> \<not> list_all (\<lambda>d. d \<in> set started) (it_Dependencies o')"
    proof (rule ccontr)
      assume "\<not> ?thesis"
      then obtain new where "start_pass W os (started @ [it_Tag o']) True = (None, started', False)"
        using Cons.prems by (auto split: option.splits)
      then show False by (rule start_pass_started) simp
    qed
    then show ?case using Cons by (auto simp: list_all_iff split: if_splits)
  qed simp
  then show "started' = started" and "o' \<in> set os \<Longrightarrow> it_Tag o' \<in> set started \<or> \<not> set (it_Dependencies o') \<subseteq> set started"
    by auto
qed

lemma start_pass_no_error:
  "\<forall>o' \<in> set os. it_Start o' 1 = None \<Longrightarrow> fst (start_pass W os started c) = None"
  by (induction os arbitrary: started c) auto

text \<open>The objects that can be started at all, as the least set that is closed under starting.\<close>

inductive_set startable :: "item list \<Rightarrow> string set" for os :: "item list" where
  start: "o' \<in> set os \<Longrightarrow> \<forall>d \<in> set (it_Dependencies o'). d \<in> startable os \<Longrightarrow> it_Tag o' \<in> startable os"

lemma deps_before_startable: "deps_before os log \<Longrightarrow> set log \<subseteq> startable os"
proof (induction log rule: rev_induct)
  case (snoc tag log)
  have "deps_before os log" using snoc.prems by (simp add: deps_before_def)
  then have "set log \<subseteq> startable os" by (rule snoc.IH)
  moreover obtain o' where "o' \<in> set os" "it_Tag o' = tag" "set (it_Dependencies o') \<subseteq> set log"
    using snoc.prems unfolding deps_before_def by blast
  ultimately show ?case using startable.start [of o' os] by auto
qed simp

lemma start_all_log:
  assumes "start_all W byTag os started = (e, log)" and "deps_before os started" and "distinct started" and "set started \<subseteq> it_Tag ` set os"
  shows "deps_before os log \<and> distinct log \<and> set log \<subseteq> it_Tag ` set os"
  using assms
proof (induction W byTag os started rule: start_all.induct)
  case (1 W byTag os started)
  obtain e1 started' c where p: "start_pass W os started False = (e1, started', c)" using prod_cases3 by blast
  obtain new where n: "started' = started @ new" "set new \<subseteq> it_Tag ` set os" "set new \<inter> set started = {}" "distinct new"
    using start_pass_started [OF p] by metis
  have inv: "deps_before os started'" "distinct started'" "set started' \<subseteq> it_Tag ` set os"
    using start_pass_order [OF p subset_refl 1(3)] n 1(4,5) by auto
  show ?case
  proof (cases "e1 = None \<and> length started' \<noteq> length os \<and> c")
    case True
    then have "start_all W byTag os started' = (e, log)" using 1(2) p by (simp add: start_all.simps [of W byTag os started])
    with True show ?thesis using 1(1) [OF p [symmetric]] inv p by auto
  next
    case False
    then have "log = started'" using 1(2) p
      by (auto simp: start_all.simps [of W byTag os started] split: option.splits if_splits)
    then show ?thesis using inv by simp
  qed
qed

lemma lint_error: "\<exists>args. lint W byTag started oTree cur = E_New args"
  by (induction W byTag started oTree cur rule: lint.induct) (subst lint.simps, auto simp: Let_def split: option.splits)

lemma start_all_complete:
  assumes "start_all W byTag os started = (e, log)" and "deps_before os started" and "distinct started" and "set started \<subseteq> it_Tag ` set os"
    and "distinct (map it_Tag os)" and "\<forall>o' \<in> set os. it_Start o' 1 = None"
  shows "startable os \<subseteq> set log \<and> (e = None \<longleftrightarrow> set log = it_Tag ` set os) \<and> (\<forall>err. e = Some err \<longrightarrow> (\<exists>args. err = E_New args))"
  using assms(1-4)
proof (induction "length os - length started" arbitrary: started rule: less_induct)
  case less
  obtain e1 started' c where p: "start_pass W os started False = (e1, started', c)" using prod_cases3 by blast
  have e1: "e1 = None" using start_pass_no_error [OF assms(6), of W started False] p by simp
  obtain new where n: "started' = started @ new" "set new \<subseteq> it_Tag ` set os" "set new \<inter> set started = {}" "distinct new" "c \<longleftrightarrow> new \<noteq> []"
    using start_pass_started [OF p] by metis
  have inv: "deps_before os started'" "distinct started'" "set started' \<subseteq> it_Tag ` set os"
    using start_pass_order [OF p subset_refl less(3)] n less(4,5) by auto
  have card: "length started' = length os \<longleftrightarrow> set started' = it_Tag ` set os"
    using inv(2,3) assms(5)
    by (metis card_image card_subset_eq distinct_card distinct_map finite_imageI length_map list.set_map finite_set)
  consider (full) "length started' = length os" | (more) "length started' \<noteq> length os" c | (stop) "length started' \<noteq> length os" "\<not> c" by blast
  then show ?case
  proof cases
    case full
    then have "e = None" "log = started'" using less(2) p e1 by (auto simp: start_all.simps [of W byTag os started])
    moreover have "startable os \<subseteq> it_Tag ` set os" by (auto elim: startable.cases)
    ultimately show ?thesis using card full by auto
  next
    case more
    then have "start_all W byTag os started' = (e, log)" using less(2) p e1 by (simp add: start_all.simps [of W byTag os started])
    moreover have "length started' \<le> length os"
      using inv(2,3) by (metis card_image_le card_length card_mono distinct_card finite_imageI finite_set le_trans)
    then have "length os - length started' < length os - length started" using more n by (cases new) auto
    ultimately show ?thesis using less(1) inv by blast
  next
    case stop
    have "start_pass W os started False = (None, started', False)" using p e1 stop(2) by simp
    note s = start_pass_stop [OF this]
    have "startable os \<subseteq> set started"
    proof
      fix tag assume "tag \<in> startable os"
      then show "tag \<in> set started" by induction (use s(2) in blast)
    qed
    moreover obtain o' where o': "find (\<lambda>o'. it_Tag o' \<notin> set started') os = Some o'"
      using card stop(1) inv(3) by (cases "find (\<lambda>o'. it_Tag o' \<notin> set started') os") (auto simp: find_None_iff)
    ultimately show ?thesis using less(2) p e1 stop card s(1) lint_error [of W byTag started' "[it_Tag o']" o']
      by (auto simp: start_all.simps [of W byTag os started])
  qed
qed

end
