(* ===== verification/Managers.thy ===== *)
theory Managers
  imports Start_Order
begin

text \<open>
  The managers of inbounds, endpoints, services (\<open>adapter/*/manager.go\<close>), outbounds and DNS transports
  (\<open>dns/transport_manager.go\<close>). An operation returns \<open>Inl\<close> for a panic and otherwise the error that the code returns,
  if any, with the new state. Go maps that are read for missing keys are total functions with an empty default.
\<close>

section \<open>Plain managers\<close>

record base_manager =
  mg_started :: bool
  mg_stage :: nat
  mg_items :: "item list"
  mg_byTag :: "(string \<times> item) list"

type_synonym 'm op_result = "(error option \<times> 'm) result"

definition stage_name :: "nat \<Rightarrow> string" where
  "stage_name stage = (if stage = 0 then ''initialize'' else if stage = 1 then ''start'' else if stage = 2 then ''post-start''
     else ''finish-start'')"

text \<open>The loop that starts objects in a stage and the one that brings a new object through all stages.\<close>

fun start_items :: "string \<Rightarrow> nat \<Rightarrow> item list \<Rightarrow> error option" where
  "start_items kind stage [] = None"
| "start_items kind stage (o' # os) =
     (case it_Start o' stage of
        Some err \<Rightarrow> Some (E_Cause err (S (stage_name stage) # S '' '' # item_name kind o'))
      | None \<Rightarrow> start_items kind stage os)"

fun start_stages :: "string \<Rightarrow> nat list \<Rightarrow> item \<Rightarrow> error option" where
  "start_stages kind [] o' = None"
| "start_stages kind (stage # stages) o' =
     (case start_items kind stage [o'] of Some err \<Rightarrow> Some err | None \<Rightarrow> start_stages kind stages o')"

text \<open>\<open>common.Index\<close> by identity and the removal of that element; without one the managers panic.\<close>

fun remove_item :: "string \<Rightarrow> item \<Rightarrow> item list \<Rightarrow> item list result" where
  "remove_item msg o' [] = Inl (Panic [S msg])"
| "remove_item msg o' (x # xs) =
     (if it_id x = it_id o' then Inr xs else bind_result (remove_item msg o' xs) (\<lambda>ys. Inr (x # ys)))"

definition ErrInvalid :: error where "ErrInvalid = E_Lib ''invalid argument''"

definition empty_base :: base_manager where
  "empty_base = \<lparr>mg_started = False, mg_stage = 0, mg_items = [], mg_byTag = []\<rparr>"

definition begin_stage :: "nat \<Rightarrow> ('z) base_manager_scheme \<Rightarrow> ('z) base_manager_scheme result" where
  "begin_stage stage m =
     (if mg_started m \<and> mg_stage m \<ge> stage then Inl (Panic [S ''already started''])
      else Inr (m\<lparr>mg_started := True, mg_stage := stage\<rparr>))"

definition plain_Start :: "string \<Rightarrow> nat \<Rightarrow> ('z) base_manager_scheme \<Rightarrow> ('z) base_manager_scheme op_result" where
  "plain_Start kind stage m = bind_result (begin_stage stage m) (\<lambda>m. Inr (start_items kind stage (mg_items m), m))"

text \<open>\<open>Close\<close> closes every object and forgets their errors and the list, but not the map.\<close>

definition plain_Close :: "('z) base_manager_scheme \<Rightarrow> item list \<times> ('z) base_manager_scheme" where
  "plain_Close m = (if \<not> mg_started m then ([], m) else (mg_items m, m\<lparr>mg_started := False, mg_items := []\<rparr>))"

definition plain_Get :: "('z) base_manager_scheme \<Rightarrow> string \<Rightarrow> item option" where
  "plain_Get m tag = map_of (mg_byTag m) tag"

definition delete_tag :: "string \<Rightarrow> (string \<times> item) list \<Rightarrow> (string \<times> item) list" where
  "delete_tag tag entries = filter (\<lambda>(t, _). t \<noteq> tag) entries"

definition plain_Remove :: "string \<Rightarrow> string \<Rightarrow> ('z) base_manager_scheme \<Rightarrow> ('z) base_manager_scheme op_result" where
  "plain_Remove msg tag m =
     (case map_of (mg_byTag m) tag of
        None \<Rightarrow> Inr (Some ErrInvalid, m)
      | Some o' \<Rightarrow>
          bind_result (remove_item msg o' (mg_items m)) (\<lambda>items.
            Inr (if mg_started m then it_Close o' else None, m\<lparr>mg_byTag := delete_tag tag (mg_byTag m), mg_items := items\<rparr>)))"

text \<open>An object takes the place of the one with the same tag, which is closed first when the manager is started.\<close>

definition replace_item :: "string \<Rightarrow> string \<Rightarrow> string \<Rightarrow> item \<Rightarrow> ('z) base_manager_scheme \<Rightarrow> ('z) base_manager_scheme op_result" where
  "replace_item kind msg tag o' m =
     (case map_of (mg_byTag m) tag of
        None \<Rightarrow> Inr (None, m\<lparr>mg_items := mg_items m @ [o'], mg_byTag := (tag, o') # delete_tag tag (mg_byTag m)\<rparr>)
      | Some old \<Rightarrow>
          if mg_started m \<and> it_Close old \<noteq> None
          then Inr (Some (E_Cause (the (it_Close old)) (S ''close '' # item_name kind old)), m)
          else bind_result (remove_item msg old (mg_items m)) (\<lambda>items.
            Inr (None, m\<lparr>mg_items := items @ [o'], mg_byTag := (tag, o') # delete_tag tag (mg_byTag m)\<rparr>)))"

definition plain_Create ::
  "string \<Rightarrow> string \<Rightarrow> string \<Rightarrow> item result \<Rightarrow> ('z) base_manager_scheme \<Rightarrow> ('z) base_manager_scheme op_result" where
  "plain_Create kind msg tag created m =
     (case created of
        Inl err \<Rightarrow> Inr (Some err, m)
      | Inr o' \<Rightarrow>
          (case (if mg_started m then start_stages kind ListStartStages o' else None) of
             Some err \<Rightarrow> Inr (Some err, m)
           | None \<Rightarrow> replace_item kind msg tag o' m))"

subsection \<open>Inbounds, endpoints and services\<close>

definition Inbound_Start where "Inbound_Start = plain_Start ''inbound/''"
definition Inbound_Close where "Inbound_Close = plain_Close"
definition Inbound_Remove where "Inbound_Remove = plain_Remove ''invalid inbound index''"
definition Inbound_Create where "Inbound_Create = plain_Create ''inbound/'' ''invalid inbound index''"

definition Inbound_Get :: "base_manager \<Rightarrow> base_manager \<Rightarrow> string \<Rightarrow> item option" where
  "Inbound_Get endpoint m tag = (case plain_Get m tag of Some o' \<Rightarrow> Some o' | None \<Rightarrow> plain_Get endpoint tag)"

text \<open>Endpoints are started with the outbounds, so the stage \<open>start\<close> does nothing here.\<close>

definition Endpoint_Start :: "nat \<Rightarrow> base_manager \<Rightarrow> base_manager op_result" where
  "Endpoint_Start stage m =
     bind_result (begin_stage stage m) (\<lambda>m.
       Inr (if stage = StartStateStart then None else start_items ''endpoint/'' stage (mg_items m), m))"

definition Endpoint_Close where "Endpoint_Close = plain_Close"
definition Endpoint_Get where "Endpoint_Get = plain_Get"
definition Endpoint_Remove where "Endpoint_Remove = plain_Remove ''invalid endpoint index''"
definition Endpoint_Create where "Endpoint_Create = plain_Create ''endpoint/'' ''invalid endpoint index''"

definition Service_Start where "Service_Start = plain_Start ''service/''"
definition Service_Close where "Service_Close = plain_Close"
definition Service_Get where "Service_Get = plain_Get"
definition Service_Remove where "Service_Remove = plain_Remove ''invalid service index''"
definition Service_Create where "Service_Create = plain_Create ''service/'' ''invalid service index''"

section \<open>Managers with dependencies\<close>

record manager = base_manager +
  mg_defaultTag :: string
  mg_dependByTag :: "string \<Rightarrow> string list"
  mg_default :: "item option"
  mg_fakeIP :: "item option"

definition NewManager :: "string \<Rightarrow> manager" where
  "NewManager defaultTag =
     \<lparr>mg_started = False, mg_stage = 0, mg_items = [], mg_byTag = [], mg_defaultTag = defaultTag,
      mg_dependByTag = (\<lambda>_. []), mg_default = None, mg_fakeIP = None\<rparr>"

definition add_dependencies :: "string \<Rightarrow> string list \<Rightarrow> (string \<Rightarrow> string list) \<Rightarrow> string \<Rightarrow> string list" where
  "add_dependencies tag deps D = foldl (\<lambda>D d. D(d := D d @ [tag])) D deps"

definition drop_dependencies :: "string \<Rightarrow> string list \<Rightarrow> (string \<Rightarrow> string list) \<Rightarrow> string \<Rightarrow> string list" where
  "drop_dependencies tag deps D =
     foldl (\<lambda>D d. D(d := (if length (D d) = 1 then [] else filter (\<lambda>it. it \<noteq> tag) (D d)))) D deps"

subsection \<open>Outbounds\<close>

text \<open>
  \<open>Start\<close>: in the stage \<open>start\<close> the default outbound is settled (\<open>fallback\<close> makes a direct outbound) and outbounds and
  endpoints are started in the order of their dependencies. The second component are the tags that were started.
\<close>

definition settle_default :: "base_manager \<Rightarrow> item result \<Rightarrow> manager \<Rightarrow> error option \<times> manager" where
  "settle_default endpoint fallback m =
     (if mg_defaultTag m \<noteq> [] \<and> mg_default m = None
      then (case Endpoint_Get endpoint (mg_defaultTag m) of
              None \<Rightarrow> (Some (E_New [S ''default outbound not found: '', S (mg_defaultTag m)]), m)
            | Some o' \<Rightarrow> (None, m\<lparr>mg_default := Some o'\<rparr>))
      else if mg_default m = None
      then (case fallback of
              Inl err \<Rightarrow> (Some (E_Cause err [S ''create direct outbound for fallback'']), m)
            | Inr o' \<Rightarrow> (None, m\<lparr>mg_items := mg_items m @ [o'], mg_byTag := (it_Tag o', o') # delete_tag (it_Tag o') (mg_byTag m),
                            mg_default := Some o'\<rparr>))
      else (None, m))"

definition Outbound_Start ::
  "base_manager \<Rightarrow> item result \<Rightarrow> nat \<Rightarrow> manager \<Rightarrow> ((error option \<times> string list) \<times> manager) result" where
  "Outbound_Start endpoint fallback stage m =
     bind_result (begin_stage stage m) (\<lambda>m.
       if stage = StartStateStart
       then (case settle_default endpoint fallback m of
               (Some err, m) \<Rightarrow> Inr ((Some err, []), m)
             | (None, m) \<Rightarrow> Inr (startOutbounds (mg_byTag m) (mg_items m @ mg_items endpoint), m))
       else Inr ((start_items ''outbound/'' stage (mg_items m), []), m))"

definition Outbound_Close where "Outbound_Close = (plain_Close :: manager \<Rightarrow> _)"

definition Outbound_Get :: "base_manager \<Rightarrow> manager \<Rightarrow> string \<Rightarrow> item option" where
  "Outbound_Get endpoint m tag = (case plain_Get m tag of Some o' \<Rightarrow> Some o' | None \<Rightarrow> Endpoint_Get endpoint tag)"

definition same_item :: "item option \<Rightarrow> item \<Rightarrow> bool" where
  "same_item a b = (case a of None \<Rightarrow> False | Some x \<Rightarrow> it_id x = it_id b)"

text \<open>\<open>Remove\<close> takes the outbound out before it looks for outbounds that depend on it.\<close>

definition Outbound_Remove :: "string \<Rightarrow> manager \<Rightarrow> manager op_result" where
  "Outbound_Remove tag m =
     (case map_of (mg_byTag m) tag of
        None \<Rightarrow> Inr (Some ErrInvalid, m)
      | Some o' \<Rightarrow>
          bind_result (remove_item ''invalid inbound index'' o' (mg_items m)) (\<lambda>items.
            let m = m\<lparr>mg_byTag := delete_tag tag (mg_byTag m), mg_items := items\<rparr>;
                m = (if same_item (mg_default m) o'
                     then m\<lparr>mg_default := (case items of [] \<Rightarrow> None | x # _ \<Rightarrow> Some x)\<rparr> else m) in
            if length (mg_dependByTag m tag) > 0
            then Inr (Some (E_New [S ''outbound['', S tag, S ''] is depended by '', S (Join (mg_dependByTag m tag) '', '')]), m)
            else Inr (if mg_started m then it_Close o' else None,
                      m\<lparr>mg_dependByTag := drop_dependencies tag (it_Dependencies o') (mg_dependByTag m)\<rparr>)))"

text \<open>
  \<open>Create\<close>: an outbound that cannot be created is replaced by one that reports the error (\<open>invalid\<close>). The registration
  is the same for outbounds and transports but for the words and what follows it.
\<close>

definition register_item :: "string \<Rightarrow> string \<Rightarrow> item \<Rightarrow> manager \<Rightarrow> manager op_result" where
  "register_item kind tag o' m =
     bind_result (replace_item kind ''invalid inbound index'' tag o' m) (\<lambda>(err, m).
       case err of
         Some err \<Rightarrow> Inr (Some err, m)
       | None \<Rightarrow> Inr (None, m\<lparr>mg_dependByTag := add_dependencies tag (it_Dependencies o') (mg_dependByTag m)\<rparr>))"

definition becomes_default :: "string \<Rightarrow> manager \<Rightarrow> bool" where
  "becomes_default tag m \<longleftrightarrow> tag = mg_defaultTag m \<or> (mg_defaultTag m = [] \<and> mg_default m = None)"

definition Outbound_Create :: "string \<Rightarrow> item result \<Rightarrow> item result \<Rightarrow> manager \<Rightarrow> manager op_result" where
  "Outbound_Create tag created invalid m =
     (if tag = [] then Inr (Some ErrInvalid, m)
      else case (case created of Inl _ \<Rightarrow> invalid | Inr o' \<Rightarrow> Inr o') of
        Inl err \<Rightarrow> Inr (Some err, m)
      | Inr o' \<Rightarrow>
          (case (if mg_started m then start_stages ''outbound/'' ListStartStages o' else None) of
             Some err \<Rightarrow> Inr (Some err, m)
           | None \<Rightarrow>
               bind_result (register_item ''outbound/'' tag o' m) (\<lambda>(err, m).
                 case err of
                   Some err \<Rightarrow> Inr (Some err, m)
                 | None \<Rightarrow> Inr (None, if becomes_default tag m then m\<lparr>mg_default := Some o'\<rparr> else m))))"

subsection \<open>DNS transports\<close>

abbreviation (input) TypeFakeIP :: string where "TypeFakeIP \<equiv> ''fakeip''"

definition Transport_Start :: "item result \<Rightarrow> nat \<Rightarrow> manager \<Rightarrow> ((error option \<times> string list) \<times> manager) result" where
  "Transport_Start fallback stage m =
     bind_result (begin_stage stage m) (\<lambda>m.
       if stage = StartStateStart
       then (if mg_defaultTag m \<noteq> [] \<and> mg_default m = None
             then Inr ((Some (E_New [S ''default DNS server not found: '', S (mg_defaultTag m)]), []), m)
             else if mg_default m = None
             then (case fallback of
                     Inl err \<Rightarrow> Inr ((Some (E_Cause err [S ''default DNS server fallback'']), []), m)
                   | Inr o' \<Rightarrow>
                       let m = m\<lparr>mg_items := mg_items m @ [o'], mg_byTag := (it_Tag o', o') # delete_tag (it_Tag o') (mg_byTag m),
                                 mg_default := Some o'\<rparr> in
                       Inr (startTransports (mg_byTag m) (mg_items m), m))
             else Inr (startTransports (mg_byTag m) (mg_items m), m))
       else Inr ((start_items ''dns/'' stage (mg_items m), []), m))"

definition Transport_Close where "Transport_Close = (plain_Close :: manager \<Rightarrow> _)"
definition Transport_Get where "Transport_Get = (plain_Get :: manager \<Rightarrow> _)"

definition Transport_Remove :: "string \<Rightarrow> manager \<Rightarrow> manager op_result" where
  "Transport_Remove tag m =
     (case map_of (mg_byTag m) tag of
        None \<Rightarrow> Inr (Some ErrInvalid, m)
      | Some o' \<Rightarrow>
          bind_result (remove_item ''invalid inbound index'' o' (mg_items m)) (\<lambda>items.
            let m = m\<lparr>mg_byTag := delete_tag tag (mg_byTag m), mg_items := items\<rparr>;
                finish = (\<lambda>m.
                  if length (mg_dependByTag m tag) > 0
                  then (Some (E_New [S ''server['', S tag, S ''] is depended by '', S (Join (mg_dependByTag m tag) '', '')]), m)
                  else (None, m\<lparr>mg_dependByTag := drop_dependencies tag (it_Dependencies o') (mg_dependByTag m)\<rparr>)) in
            Inr (if same_item (mg_default m) o'
                 then (case items of
                         [] \<Rightarrow> finish (m\<lparr>mg_default := None\<rparr>)
                       | next # _ \<Rightarrow>
                           if it_Type next \<noteq> TypeFakeIP then (Some (E_New [S ''default server cannot be fakeip'']), m)
                           else finish (m\<lparr>mg_default := Some next\<rparr>))
                 else finish m)))"

definition Transport_Create :: "string \<Rightarrow> item result \<Rightarrow> manager \<Rightarrow> manager op_result" where
  "Transport_Create tag created m =
     (if tag = [] then Inr (Some ErrInvalid, m)
      else case created of
        Inl err \<Rightarrow> Inr (Some err, m)
      | Inr o' \<Rightarrow>
          (case (if mg_started m then start_stages ''dns/'' ListStartStages o' else None) of
             Some err \<Rightarrow> Inr (Some err, m)
           | None \<Rightarrow>
               bind_result (register_item ''dns/'' tag o' m) (\<lambda>(err, m).
                 case err of
                   Some err \<Rightarrow> Inr (Some err, m)
                 | None \<Rightarrow>
                     if becomes_default tag m \<and> it_Type o' = TypeFakeIP
                     then Inr (Some (E_New [S ''default server cannot be fakeip'']), m)
                     else let m = (if becomes_default tag m then m\<lparr>mg_default := Some o'\<rparr> else m) in
                       if it_Type o' = TypeFakeIP
                       then (if mg_fakeIP m \<noteq> None then Inr (Some (E_New [S ''multiple fakeip server are not supported'']), m)
                             else Inr (None, m\<lparr>mg_fakeIP := Some o'\<rparr>))
                       else Inr (None, m))))"

end
