(* ===== verification/Manager_Contract.thy ===== *)
theory Manager_Contract
  imports Managers
begin

text \<open>
  What the clients of a manager rely on, as the locale \<open>directory\<close>: the manager is a map from tags to objects, and
  creating and removing objects never panics. It is interpreted for the five managers.
\<close>

section \<open>The contract\<close>

datatype directory_op = CreateOp string item | RemoveOp string

fun apply_op :: "directory_op \<Rightarrow> (string \<Rightarrow> item option) \<Rightarrow> string \<Rightarrow> item option" where
  "apply_op (CreateOp tag o') M = M(tag \<mapsto> o')"
| "apply_op (RemoveOp tag) M = M(tag := None)"

text \<open>A sequence of operations, none of which returns an error.\<close>

fun performs ::
  "(directory_op \<Rightarrow> 'm \<Rightarrow> bool) \<Rightarrow> (directory_op \<Rightarrow> 'm \<Rightarrow> 'm op_result) \<Rightarrow> directory_op list \<Rightarrow> 'm \<Rightarrow> 'm \<Rightarrow> bool" where
  "performs ok perform [] m m' = (m' = m)"
| "performs ok perform (x # xs) m m' = (ok x m \<and> (\<exists>m1. perform x m = Inr (None, m1) \<and> performs ok perform xs m1 m'))"

locale directory =
  fixes inv :: "'m \<Rightarrow> bool" and get :: "'m \<Rightarrow> string \<Rightarrow> item option" and allowed :: "directory_op \<Rightarrow> 'm \<Rightarrow> bool"
    and perform :: "directory_op \<Rightarrow> 'm \<Rightarrow> 'm op_result"
  assumes perform_ok: "inv m \<Longrightarrow> allowed x m \<Longrightarrow>
    \<exists>err m'. perform x m = Inr (err, m') \<and> inv m' \<and> (get m' = get m \<or> get m' = apply_op x (get m)) \<and>
      (err = None \<longrightarrow> get m' = apply_op x (get m))"
begin

lemma no_panic: "inv m \<Longrightarrow> allowed x m \<Longrightarrow> \<exists>r. perform x m = Inr r"
  using perform_ok by blast

lemma refines_map:
  "inv m \<Longrightarrow> performs allowed perform xs m m' \<Longrightarrow> inv m' \<and> get m' = fold apply_op xs (get m)"
proof (induction xs arbitrary: m)
  case (Cons x xs)
  then obtain m1 where "allowed x m" "perform x m = Inr (None, m1)" and r: "performs allowed perform xs m1 m'" by auto
  with perform_ok [OF Cons.prems(1), of x] have "inv m1" "get m1 = apply_op x (get m)" by auto
  with Cons.IH [OF _ r] show ?case by simp
qed simp

lemma last_created:
  assumes "inv m" and "performs allowed perform (xs @ [CreateOp tag o'] @ ys) m m'"
    and "\<And>y. y \<in> set ys \<Longrightarrow> case y of CreateOp t _ \<Rightarrow> t \<noteq> tag | RemoveOp t \<Rightarrow> t \<noteq> tag"
  shows "get m' tag = Some o'"
proof -
  have "fold apply_op ys M tag = M tag" for M
    using assms(3)
  proof (induction ys arbitrary: M)
    case (Cons y ys)
    have "apply_op y M tag = M tag" using Cons.prems [of y] by (cases y) auto
    then show ?case using Cons by simp
  qed simp
  then show ?thesis using refines_map [OF assms(1,2)] by simp
qed

end

section \<open>The invariant\<close>

text \<open>List and map have the same objects, each under its tag, and no object or tag occurs twice.\<close>

definition listed :: "('z) base_manager_scheme \<Rightarrow> bool" where
  "listed m \<longleftrightarrow> (\<forall>tag o'. map_of (mg_byTag m) tag = Some o' \<longleftrightarrow> o' \<in> set (mg_items m) \<and> it_Tag o' = tag) \<and>
     distinct (map it_Tag (mg_items m)) \<and> distinct (map it_id (mg_items m))"

text \<open>A constructor gives a new object with the tag it was asked for.\<close>

definition fresh_item :: "string \<Rightarrow> item \<Rightarrow> ('z) base_manager_scheme \<Rightarrow> bool" where
  "fresh_item tag o' m \<longleftrightarrow> it_Tag o' = tag \<and> it_id o' \<notin> it_id ` set (mg_items m)"

lemma map_of_delete_tag: "map_of (delete_tag tag entries) = (map_of entries)(tag := None)"
  by (induction entries) (auto simp: delete_tag_def fun_eq_iff)

lemma remove_item_ok:
  "o' \<in> set xs \<Longrightarrow> distinct (map it_id xs) \<Longrightarrow> remove_item msg o' xs = Inr (filter (\<lambda>x. it_id x \<noteq> it_id o') xs)"
proof (induction xs)
  case (Cons x xs)
  show ?case
  proof (cases "it_id x = it_id o'")
    case True
    then have "filter (\<lambda>x. it_id x \<noteq> it_id o') xs = xs" using Cons.prems(2) by (auto simp: filter_id_conv image_iff)
    then show ?thesis using True by simp
  next
    case False
    then show ?thesis using Cons by auto
  qed
qed simp

lemma distinct_map_filter_append:
  "distinct (map f xs) \<Longrightarrow> f y \<notin> f ` set (filter P xs) \<Longrightarrow> distinct (map f (filter P xs @ [y]))"
  by (auto simp: distinct_map inj_on_def)

lemma listed_remove:
  assumes "listed m" and "map_of (mg_byTag m) tag = Some o'"
  shows "remove_item msg o' (mg_items m) = Inr (filter (\<lambda>x. it_id x \<noteq> it_id o') (mg_items m))"
    and "listed (m\<lparr>mg_byTag := delete_tag tag (mg_byTag m), mg_items := filter (\<lambda>x. it_id x \<noteq> it_id o') (mg_items m)\<rparr>)"
    and "\<And>x. x \<in> set (mg_items m) \<Longrightarrow> it_id x \<noteq> it_id o' \<longleftrightarrow> it_Tag x \<noteq> tag"
proof -
  have o': "o' \<in> set (mg_items m)" "it_Tag o' = tag" using assms by (auto simp: listed_def)
  show "remove_item msg o' (mg_items m) = Inr (filter (\<lambda>x. it_id x \<noteq> it_id o') (mg_items m))"
    using assms(1) o'(1) by (intro remove_item_ok) (auto simp: listed_def)
  show eq: "it_id x \<noteq> it_id o' \<longleftrightarrow> it_Tag x \<noteq> tag" if "x \<in> set (mg_items m)" for x
    using assms(1) o' that by (auto simp: listed_def distinct_map inj_on_def)
  show "listed (m\<lparr>mg_byTag := delete_tag tag (mg_byTag m), mg_items := filter (\<lambda>x. it_id x \<noteq> it_id o') (mg_items m)\<rparr>)"
    using assms(1) eq unfolding listed_def by (auto simp: map_of_delete_tag distinct_map inj_on_def)
qed

text \<open>Replacing or adding an object.\<close>

lemma listed_replace:
  assumes "listed m" and "fresh_item tag o' m"
  shows "\<exists>err m'. replace_item kind msg tag o' m = Inr (err, m') \<and> listed m' \<and> (err \<noteq> None \<longrightarrow> m' = m) \<and>
    (err = None \<longrightarrow> map_of (mg_byTag m') = (map_of (mg_byTag m))(tag \<mapsto> o'))"
proof -
  have add: "listed (m\<lparr>mg_items := items @ [o'], mg_byTag := (tag, o') # delete_tag tag (mg_byTag m)\<rparr>)"
    if items: "items = filter (\<lambda>x. it_Tag x \<noteq> tag) (mg_items m)" for items
    using assms unfolding listed_def fresh_item_def items
    by (auto simp: map_of_delete_tag distinct_map inj_on_def)
  show ?thesis
  proof (cases "map_of (mg_byTag m) tag")
    case None
    then have "filter (\<lambda>x. it_Tag x \<noteq> tag) (mg_items m) = mg_items m"
      using assms(1) unfolding listed_def by (intro filter_True) (metis option.distinct(1))
    then show ?thesis using add [OF refl] None by (auto simp: replace_item_def map_of_delete_tag)
  next
    case (Some old)
    note r = listed_remove [OF assms(1) Some]
    have "filter (\<lambda>x. it_id x \<noteq> it_id old) (mg_items m) = filter (\<lambda>x. it_Tag x \<noteq> tag) (mg_items m)"
      using r(3) by (intro filter_cong) auto
    then show ?thesis using add [OF refl] Some assms(1) r(1) [of msg] by (auto simp: replace_item_def map_of_delete_tag)
  qed
qed

section \<open>Plain managers\<close>

lemma plain_Get_map_of: "plain_Get m = map_of (mg_byTag m)"
  by (simp add: plain_Get_def fun_eq_iff)

definition plain_perform :: "string \<Rightarrow> string \<Rightarrow> directory_op \<Rightarrow> base_manager \<Rightarrow> base_manager op_result" where
  "plain_perform kind msg x m =
     (case x of CreateOp tag o' \<Rightarrow> plain_Create kind msg tag (Inr o') m | RemoveOp tag \<Rightarrow> plain_Remove msg tag m)"

definition plain_allowed :: "directory_op \<Rightarrow> ('z) base_manager_scheme \<Rightarrow> bool" where
  "plain_allowed x m = (case x of CreateOp tag o' \<Rightarrow> fresh_item tag o' m | RemoveOp tag \<Rightarrow> True)"

lemma plain_Create_ok:
  assumes "listed m" and "fresh_item tag o' m"
  shows "\<exists>err m'. plain_Create kind msg tag (Inr o') m = Inr (err, m') \<and> listed m' \<and>
    (plain_Get m' = plain_Get m \<or> plain_Get m' = (plain_Get m)(tag \<mapsto> o')) \<and> (err = None \<longrightarrow> plain_Get m' = (plain_Get m)(tag \<mapsto> o'))"
  using listed_replace [OF assms, of kind msg] assms(1)
  by (auto simp: plain_Create_def plain_Get_map_of split: option.splits)

lemma plain_Remove_ok:
  assumes "listed m"
  shows "\<exists>err m'. plain_Remove msg tag m = Inr (err, m') \<and> listed m' \<and> plain_Get m' = (plain_Get m)(tag := None)"
proof (cases "map_of (mg_byTag m) tag")
  case None
  then show ?thesis using assms by (auto simp: plain_Remove_def plain_Get_def fun_eq_iff)
next
  case (Some o')
  note r = listed_remove [OF assms Some]
  show ?thesis using r(2) by (simp add: plain_Remove_def Some r(1) plain_Get_def map_of_delete_tag fun_eq_iff)
qed

lemma plain_directory: "directory listed plain_Get plain_allowed (plain_perform kind msg)"
proof
  fix m x assume "listed m" "plain_allowed x (m :: base_manager)"
  then show "\<exists>err m'. plain_perform kind msg x m = Inr (err, m') \<and> listed m' \<and>
      (plain_Get m' = plain_Get m \<or> plain_Get m' = apply_op x (plain_Get m)) \<and> (err = None \<longrightarrow> plain_Get m' = apply_op x (plain_Get m))"
    using plain_Create_ok [of m] plain_Remove_ok [of m] by (cases x) (fastforce simp: plain_perform_def plain_allowed_def)+
qed

interpretation inb: directory listed plain_Get plain_allowed "plain_perform ''inbound/'' ''invalid inbound index''"
  by (rule plain_directory)

interpretation enp: directory listed plain_Get plain_allowed "plain_perform ''endpoint/'' ''invalid endpoint index''"
  by (rule plain_directory)

interpretation svc: directory listed plain_Get plain_allowed "plain_perform ''service/'' ''invalid service index''"
  by (rule plain_directory)

section \<open>Outbounds and transports\<close>

definition Outbound_perform :: "item result \<Rightarrow> directory_op \<Rightarrow> manager \<Rightarrow> manager op_result" where
  "Outbound_perform invalid x m =
     (case x of CreateOp tag o' \<Rightarrow> Outbound_Create tag (Inr o') invalid m | RemoveOp tag \<Rightarrow> Outbound_Remove tag m)"

definition Transport_perform :: "directory_op \<Rightarrow> manager \<Rightarrow> manager op_result" where
  "Transport_perform x m =
     (case x of CreateOp tag o' \<Rightarrow> Transport_Create tag (Inr o') m | RemoveOp tag \<Rightarrow> Transport_Remove tag m)"

definition named_allowed :: "directory_op \<Rightarrow> manager \<Rightarrow> bool" where
  "named_allowed x m = (case x of CreateOp tag o' \<Rightarrow> tag \<noteq> [] \<and> fresh_item tag o' m | RemoveOp tag \<Rightarrow> True)"

lemma listed_more [simp]:
  "listed (m\<lparr>mg_default := d\<rparr>) = listed m" "listed (m\<lparr>mg_dependByTag := D\<rparr>) = listed m" "listed (m\<lparr>mg_fakeIP := f\<rparr>) = listed m"
  "plain_Get (m\<lparr>mg_default := d\<rparr>) = plain_Get m" "plain_Get (m\<lparr>mg_dependByTag := D\<rparr>) = plain_Get m"
  "plain_Get (m\<lparr>mg_fakeIP := f\<rparr>) = plain_Get m"
  by (simp_all add: listed_def plain_Get_def fun_eq_iff)

lemma register_item_ok:
  assumes "listed m" and "fresh_item tag o' m"
  obtains err m' where "register_item kind tag o' m = Inr (err, m')" and "listed m'" and "err \<noteq> None \<longrightarrow> plain_Get m' = plain_Get m"
    and "err = None \<longrightarrow> plain_Get m' = (plain_Get m)(tag \<mapsto> o')"
proof -
  obtain err m' where r: "replace_item kind ''invalid inbound index'' tag o' m = Inr (err, m')" "listed m'" "err \<noteq> None \<longrightarrow> m' = m"
    "err = None \<longrightarrow> map_of (mg_byTag m') = (map_of (mg_byTag m))(tag \<mapsto> o')"
    using listed_replace [OF assms, of kind "''invalid inbound index''"] by blast
  show ?thesis
  proof (cases err)
    case None
    then show ?thesis
      using r that [of None "m'\<lparr>mg_dependByTag := add_dependencies tag (it_Dependencies o') (mg_dependByTag m')\<rparr>"]
      by (simp add: register_item_def plain_Get_map_of)
  next
    case (Some e)
    then show ?thesis using r that [of "Some e" m'] by (simp add: register_item_def)
  qed
qed

lemma Outbound_Create_ok:
  assumes "listed m" and "fresh_item tag o' m" and "tag \<noteq> []"
  shows "\<exists>err m'. Outbound_Create tag (Inr o') invalid m = Inr (err, m') \<and> listed m' \<and>
    (plain_Get m' = plain_Get m \<or> plain_Get m' = (plain_Get m)(tag \<mapsto> o')) \<and> (err = None \<longrightarrow> plain_Get m' = (plain_Get m)(tag \<mapsto> o'))"
proof -
  obtain err m' where r: "register_item ''outbound/'' tag o' m = Inr (err, m')" "listed m'" "err \<noteq> None \<longrightarrow> plain_Get m' = plain_Get m"
    "err = None \<longrightarrow> plain_Get m' = (plain_Get m)(tag \<mapsto> o')"
    by (rule register_item_ok [OF assms(1,2), of "''outbound/''"])
  show ?thesis using assms r
    by (cases "if mg_started m then start_stages ''outbound/'' ListStartStages o' else None"; cases err) (auto simp: Outbound_Create_def)
qed

lemma Transport_Create_ok:
  assumes "listed m" and "fresh_item tag o' m" and "tag \<noteq> []"
  shows "\<exists>err m'. Transport_Create tag (Inr o') m = Inr (err, m') \<and> listed m' \<and>
    (plain_Get m' = plain_Get m \<or> plain_Get m' = (plain_Get m)(tag \<mapsto> o')) \<and> (err = None \<longrightarrow> plain_Get m' = (plain_Get m)(tag \<mapsto> o'))"
proof -
  obtain err m' where r: "register_item ''dns/'' tag o' m = Inr (err, m')" "listed m'" "err \<noteq> None \<longrightarrow> plain_Get m' = plain_Get m"
    "err = None \<longrightarrow> plain_Get m' = (plain_Get m)(tag \<mapsto> o')"
    by (rule register_item_ok [OF assms(1,2), of "''dns/''"])
  show ?thesis using assms r
    by (cases "if mg_started m then start_stages ''dns/'' ListStartStages o' else None"; cases err)
      (auto simp: Transport_Create_def Let_def)
qed

lemma remove_get:
  assumes "listed m" and "map_of (mg_byTag m) tag = Some o'"
  defines "m1 \<equiv> m\<lparr>mg_byTag := delete_tag tag (mg_byTag m), mg_items := filter (\<lambda>x. it_id x \<noteq> it_id o') (mg_items m)\<rparr>"
  shows "listed m1" and "plain_Get m1 = (plain_Get m)(tag := None)"
  using listed_remove(2) [OF assms(1,2)] by (simp_all add: m1_def plain_Get_def map_of_delete_tag fun_eq_iff)

lemma Outbound_Remove_ok:
  assumes "listed m"
  shows "\<exists>err m'. Outbound_Remove tag m = Inr (err, m') \<and> listed m' \<and> plain_Get m' = (plain_Get m)(tag := None)"
proof (cases "map_of (mg_byTag m) tag")
  case None
  then show ?thesis using assms by (auto simp: Outbound_Remove_def plain_Get_def fun_eq_iff)
next
  case (Some o')
  note r = remove_get [OF assms Some]
  show ?thesis using r by (simp add: Outbound_Remove_def Some listed_remove(1) [OF assms Some] Let_def)
qed

lemma Transport_Remove_ok:
  assumes "listed m"
  shows "\<exists>err m'. Transport_Remove tag m = Inr (err, m') \<and> listed m' \<and> plain_Get m' = (plain_Get m)(tag := None)"
proof (cases "map_of (mg_byTag m) tag")
  case None
  then show ?thesis using assms by (auto simp: Transport_Remove_def plain_Get_def fun_eq_iff)
next
  case (Some o')
  define items where "items = filter (\<lambda>x. it_id x \<noteq> it_id o') (mg_items m)"
  note r = remove_get [OF assms Some, folded items_def]
  show ?thesis using r
    by (cases items) (simp_all add: Transport_Remove_def Some listed_remove(1) [OF assms Some, folded items_def] Let_def)
qed

interpretation out: directory listed plain_Get named_allowed "Outbound_perform invalid" for invalid
proof
  fix m x assume "listed m" "named_allowed x m"
  then show "\<exists>err m'. Outbound_perform invalid x m = Inr (err, m') \<and> listed m' \<and>
      (plain_Get m' = plain_Get m \<or> plain_Get m' = apply_op x (plain_Get m)) \<and> (err = None \<longrightarrow> plain_Get m' = apply_op x (plain_Get m))"
    using Outbound_Create_ok [of m] Outbound_Remove_ok [of m] by (cases x) (fastforce simp: Outbound_perform_def named_allowed_def)+
qed

interpretation tra: directory listed plain_Get named_allowed Transport_perform
proof
  fix m x assume "listed m" "named_allowed x m"
  then show "\<exists>err m'. Transport_perform x m = Inr (err, m') \<and> listed m' \<and>
      (plain_Get m' = plain_Get m \<or> plain_Get m' = apply_op x (plain_Get m)) \<and> (err = None \<longrightarrow> plain_Get m' = apply_op x (plain_Get m))"
    using Transport_Create_ok [of m] Transport_Remove_ok [of m] by (cases x) (fastforce simp: Transport_perform_def named_allowed_def)+
qed

end
