(* ===== verification/Manager_Properties.thy ===== *)
theory Manager_Properties
  imports Manager_Contract
begin

text \<open>The properties of the managers and of the order in which outbounds are started.\<close>

section \<open>A small instance\<close>

definition plain_item :: "nat \<Rightarrow> string \<Rightarrow> string list \<Rightarrow> item" where
  "plain_item k tag deps = \<lparr>it_id = k, it_Tag = tag, it_Type = ''direct'', it_Dependencies = deps, it_Start = (\<lambda>_. None), it_Close = None\<rparr>"

definition two_items :: "directory_op list" where
  "two_items = [CreateOp ''a'' (plain_item 1 ''a'' [''b'']), CreateOp ''b'' (plain_item 2 ''b'' [])]"

definition two_manager :: manager where
  "two_manager = (NewManager [])\<lparr>mg_items := [plain_item 1 ''a'' [''b''], plain_item 2 ''b'' []],
     mg_byTag := [(''b'', plain_item 2 ''b'' []), (''a'', plain_item 1 ''a'' [''b''])],
     mg_dependByTag := (\<lambda>_. [])(''b'' := [''a'']), mg_default := Some (plain_item 1 ''a'' [''b''])\<rparr>"

lemmas create_defs = Outbound_perform_def Outbound_Create_def register_item_def replace_item_def delete_tag_def becomes_default_def
  add_dependencies_def NewManager_def plain_item_def named_allowed_def fresh_item_def

lemma two_performs: "performs named_allowed (Outbound_perform (Inl ErrInvalid)) two_items (NewManager []) two_manager"
  by (simp add: two_items_def two_manager_def create_defs)

section \<open>Starting\<close>



section \<open>Creating and removing\<close>

text \<open>
  C22. The outbound manager refines a map from tags to outbounds: after any sequence of successful creations and
  removals a lookup finds exactly what the map has, and no further creation or removal panics because the list and
  the map of the manager disagree.
\<close>

theorem outbound_manager_refines_map:
  assumes "performs named_allowed (Outbound_perform invalid) ops (NewManager defaultTag) m"
  shows "plain_Get m = fold apply_op ops Map.empty \<and>
    set (mg_items m) = ran (plain_Get m) \<and> distinct (map it_Tag (mg_items m)) \<and>
    (\<forall>x. named_allowed x m \<longrightarrow> (\<exists>r. Outbound_perform invalid x m = Inr r))"
proof -
  have l: "listed (NewManager defaultTag)" by (simp add: listed_def NewManager_def)
  have "plain_Get (NewManager defaultTag) = Map.empty" by (simp add: plain_Get_def NewManager_def fun_eq_iff)
  then have *: "listed m" "plain_Get m = fold apply_op ops Map.empty" using out.refines_map [OF l assms] by simp_all
  moreover have "set (mg_items m) = ran (plain_Get m)" using *(1) by (auto simp: listed_def ran_def plain_Get_def)
  ultimately show ?thesis using out.no_panic by (auto simp: listed_def)
qed

theorem outbound_manager_refines_map_witness:
  "plain_Get two_manager ''b'' = Some (plain_item 2 ''b'' [])"
  using outbound_manager_refines_map [OF two_performs] by (simp add: two_items_def)

text \<open>
  Removing an outbound that another one depends on returns an error, but the outbound is gone: it is no longer
  found nor listed, and the other outbound still counts as depending on it.
\<close>

theorem outbound_remove_depended:
  assumes "performs named_allowed (Outbound_perform invalid) ops (NewManager defaultTag) m" and "plain_Get m tag = Some o'"
    and "mg_dependByTag m tag \<noteq> []"
  shows "\<exists>m' args. Outbound_Remove tag m = Inr (Some (E_New args), m') \<and> plain_Get m' tag = None \<and> o' \<notin> set (mg_items m') \<and>
    mg_dependByTag m' = mg_dependByTag m"
proof -
  have "listed (NewManager defaultTag)" by (simp add: listed_def NewManager_def)
  then have l: "listed m" using out.refines_map [OF _ assms(1)] by blast
  have f: "map_of (mg_byTag m) tag = Some o'" using assms(2) by (simp add: plain_Get_def)
  note r = listed_remove(1) [OF l f]
  show ?thesis
    by (cases "same_item (mg_default m) o'")
      (simp_all add: Outbound_Remove_def f r assms(3) Let_def plain_Get_def map_of_delete_tag)
qed

theorem outbound_remove_depended_witness:
  "\<exists>m' args. Outbound_Remove ''b'' two_manager = Inr (Some (E_New args), m') \<and> plain_Get m' ''b'' = None"
proof -
  have "plain_Get two_manager ''b'' = Some (plain_item 2 ''b'' [])" "mg_dependByTag two_manager ''b'' \<noteq> []"
    by (simp_all add: plain_Get_def two_manager_def)
  from outbound_remove_depended [OF two_performs this] show ?thesis by blast
qed

text \<open>
  Removing the default DNS server takes the next server as the default exactly when that is a fake-IP server, and
  reports that the default cannot be one when it is not; in this case the removed server stays the default.
\<close>

theorem transport_remove_default:
  assumes "listed m" and "plain_Get m tag = Some o'" and "mg_default m = Some o'" and "mg_dependByTag m tag = []"
    and "filter (\<lambda>x. it_id x \<noteq> it_id o') (mg_items m) = server # rest"
  shows "\<exists>m'. Transport_Remove tag m = Inr (if it_Type server = ''fakeip'' then None else Some (E_New [S ''default server cannot be fakeip'']), m') \<and>
    mg_default m' = Some (if it_Type server = ''fakeip'' then server else o') \<and> plain_Get m' tag = None"
proof -
  have f: "map_of (mg_byTag m) tag = Some o'" using assms(2) by (simp add: plain_Get_def)
  note r = listed_remove(1) [OF assms(1) f]
  show ?thesis
    by (simp add: Transport_Remove_def f r assms(3-5) same_item_def Let_def plain_Get_def map_of_delete_tag)
qed

theorem transport_remove_default_witness:
  "\<exists>m'. Transport_Remove ''a'' two_manager = Inr (Some (E_New [S ''default server cannot be fakeip'']), m')"
proof -
  have "listed (NewManager [])" by (simp add: listed_def NewManager_def)
  then have "listed two_manager" using out.refines_map [OF _ two_performs] by blast
  moreover have "plain_Get two_manager ''a'' = Some (plain_item 1 ''a'' [''b''])" "mg_default two_manager = Some (plain_item 1 ''a'' [''b''])"
    "mg_dependByTag two_manager ''a'' = []"
    "filter (\<lambda>x. it_id x \<noteq> it_id (plain_item 1 ''a'' [''b''])) (mg_items two_manager) = [plain_item 2 ''b'' []]"
    by (simp_all add: plain_Get_def two_manager_def plain_item_def)
  ultimately show ?thesis using transport_remove_default [of two_manager "''a''"] by (fastforce simp: plain_item_def)
qed

text \<open>After \<open>Close\<close> the map still has the outbounds that the list has lost, and removing one panics.\<close>

lemma remove_after_close_panics:
  assumes "mg_started m" and "plain_Get m tag = Some o'"
  shows "Outbound_Remove tag (snd (Outbound_Close m)) = Inl (Panic [S ''invalid inbound index''])"
  using assms by (simp add: Outbound_Close_def plain_Close_def Outbound_Remove_def plain_Get_def)

text \<open>An outbound that is created again under the tag of the default does not become the default when no tag was
  configured: the closed one stays it.\<close>

lemma recreated_default_stays:
  assumes "Outbound_Create tag (Inr o') invalid m = Inr (None, m')" and "mg_defaultTag m = []" and "mg_default m = Some old" and "tag \<noteq> []"
  shows "mg_default m' = Some old"
proof -
  have "(if mg_started m then start_stages ''outbound/'' ListStartStages o' else None) = None"
    using assms(1,4) by (auto simp: Outbound_Create_def split: option.splits)
  then have "bind_result (register_item ''outbound/'' tag o' m) (\<lambda>(err, m). case err of Some err \<Rightarrow> Inr (Some err, m)
      | None \<Rightarrow> Inr (None, if becomes_default tag m then m\<lparr>mg_default := Some o'\<rparr> else m)) = Inr (None, m')"
    using assms(1,4) by (simp add: Outbound_Create_def)
  then obtain err m1 where r: "register_item ''outbound/'' tag o' m = Inr (err, m1)" and e: "err = None"
    and m': "m' = (if becomes_default tag m1 then m1\<lparr>mg_default := Some o'\<rparr> else m1)"
    by (cases "register_item ''outbound/'' tag o' m") (auto split: option.splits)
  have "mg_default m1 = mg_default m" "mg_defaultTag m1 = mg_defaultTag m"
    using r e by (auto simp: register_item_def replace_item_def bind_result_Inr_iff split: if_splits option.splits prod.splits)
  then show ?thesis using m' assms(2-4) by (simp add: becomes_default_def)
qed

end
