(* ===== verification/Fake_IP.thy ===== *)
theory Fake_IP
  imports DNS_Message
begin

text \<open>
  Fake addresses: the DNS transport that answers every address query with a new address of a range, and finds the
  domain again when a connection to the address comes in (\<open>dns/transport/fakeip\<close>, \<open>adapter/fakeip_metadata.go\<close>). The
  table is kept in memory (\<open>memory.go\<close>) or in the cache file; the store only knows the interface
  \<open>adapter.FakeIPStorage\<close>, which is a record of functions here.
\<close>

section \<open>Metadata\<close>

record FakeIPMetadata =
  Inet4Range :: Prefix
  Inet6Range :: Prefix
  Inet4Current :: addr
  Inet6Current :: addr

text \<open>The binary forms of package \<open>netip\<close>: the zone follows the bytes of an address, the bits those of a prefix.\<close>

definition Addr_MarshalBinary :: "addr \<Rightarrow> bytes" where
  "Addr_MarshalBinary a = AsSlice a @ (case a of Addr6 _ zone \<Rightarrow> str_bytes zone | _ \<Rightarrow> [])"

definition Addr_UnmarshalBinary :: "bytes \<Rightarrow> addr result" where
  "Addr_UnmarshalBinary bs =
     (let n = length bs in
      if n = 0 then Inr AddrInvalid
      else if n = 4 \<or> n = 16 then Inr (AddrFromSlice bs)
      else if n > 16
      then Inr (case AddrFromSlice (take 16 bs) of Addr6 v _ \<Rightarrow> Addr6 v (bytes_str (drop 16 bs)) | a \<Rightarrow> a)
      else Inl (E_Lib ''unexpected slice size''))"

definition Prefix_MarshalBinary :: "Prefix \<Rightarrow> bytes" where
  "Prefix_MarshalBinary p = Addr_MarshalBinary (withoutZone (pf_Addr p)) @ [Bits8 p]"

definition Prefix_UnmarshalBinary :: "bytes \<Rightarrow> Prefix result" where
  "Prefix_UnmarshalBinary bs =
     (if length bs < 1 then Inl (E_Lib ''unexpected slice size'')
      else bind_result (Addr_UnmarshalBinary (butlast bs)) (\<lambda>addr. Inr (PrefixFrom addr (unat (last bs)))))"

text \<open>One element of the loops: \<open>binary.Write(uint16(len(data)))\<close> and the data. \<open>common.Must\<close> panics on a failing read.\<close>

definition put_element :: "bytes \<Rightarrow> bytes" where
  "put_element data = be_bytes 2 (length data) @ data"

definition get_element :: "(bytes \<Rightarrow> 'a result) \<Rightarrow> 'a reader" where
  "get_element unmarshal bs =
     (case ReadFull 2 bs of
        Inl err \<Rightarrow> Inl (Panic [Err err])
      | Inr (len, bs) \<Rightarrow>
          bind_result (ReadFull (be_value len) bs) (\<lambda>(element, bs).
            bind_result (unmarshal element) (\<lambda>x. Inr (x, bs))))"

definition Metadata_MarshalBinary :: "FakeIPMetadata \<Rightarrow> bytes" where
  "Metadata_MarshalBinary m =
     concat (map put_element [Prefix_MarshalBinary (Inet4Range m), Prefix_MarshalBinary (Inet6Range m),
       Addr_MarshalBinary (Inet4Current m), Addr_MarshalBinary (Inet6Current m)])"

definition Metadata_UnmarshalBinary :: "bytes \<Rightarrow> FakeIPMetadata result" where
  "Metadata_UnmarshalBinary bs =
     bind_result (get_element Prefix_UnmarshalBinary bs) (\<lambda>(r4, bs).
       bind_result (get_element Prefix_UnmarshalBinary bs) (\<lambda>(r6, bs).
         bind_result (get_element Addr_UnmarshalBinary bs) (\<lambda>(c4, bs).
           bind_result (get_element Addr_UnmarshalBinary bs) (\<lambda>(c6, bs).
             Inr \<lparr>Inet4Range = r4, Inet6Range = r6, Inet4Current = c4, Inet6Current = c6\<rparr>))))"

section \<open>The interface of a storage\<close>

record 's FakeIPStorage =
  fs_Metadata :: "'s \<Rightarrow> FakeIPMetadata option \<times> 's"
  fs_SaveMetadata :: "FakeIPMetadata \<Rightarrow> 's \<Rightarrow> error option \<times> 's"
  fs_SaveMetadataAsync :: "FakeIPMetadata \<Rightarrow> 's \<Rightarrow> 's"
  fs_Store :: "addr \<Rightarrow> string \<Rightarrow> 's \<Rightarrow> error option \<times> 's"
  fs_Load :: "'s \<Rightarrow> addr \<Rightarrow> string option"
  fs_LoadDomain :: "'s \<Rightarrow> string \<Rightarrow> bool \<Rightarrow> addr option"
  fs_Reset :: "'s \<Rightarrow> error option \<times> 's"

section \<open>Memory\<close>

record MemoryStorage =
  addressCache :: "addr \<Rightarrow> string option"
  domainCache4 :: "string \<Rightarrow> addr option"
  domainCache6 :: "string \<Rightarrow> addr option"

definition NewMemoryStorage :: MemoryStorage where
  "NewMemoryStorage = \<lparr>addressCache = Map.empty, domainCache4 = Map.empty, domainCache6 = Map.empty\<rparr>"

definition Memory_FakeIPStore :: "addr \<Rightarrow> string \<Rightarrow> MemoryStorage \<Rightarrow> error option \<times> MemoryStorage" where
  "Memory_FakeIPStore address domain s =
     (let s = (case addressCache s address of
                 None \<Rightarrow> s
               | Some oldDomain \<Rightarrow>
                   if Addr_Is4 address then s\<lparr>domainCache4 := (domainCache4 s)(oldDomain := None)\<rparr>
                   else s\<lparr>domainCache6 := (domainCache6 s)(oldDomain := None)\<rparr>);
          s = s\<lparr>addressCache := (addressCache s)(address \<mapsto> domain)\<rparr> in
      (None, if Addr_Is4 address then s\<lparr>domainCache4 := (domainCache4 s)(domain \<mapsto> address)\<rparr>
             else s\<lparr>domainCache6 := (domainCache6 s)(domain \<mapsto> address)\<rparr>))"

definition Memory_FakeIPLoadDomain :: "MemoryStorage \<Rightarrow> string \<Rightarrow> bool \<Rightarrow> addr option" where
  "Memory_FakeIPLoadDomain s domain isIPv6 = (if \<not> isIPv6 then domainCache4 s domain else domainCache6 s domain)"

definition Memory_FakeIPReset :: "MemoryStorage \<Rightarrow> error option \<times> MemoryStorage" where
  "Memory_FakeIPReset s = (None, NewMemoryStorage)"

text \<open>Memory keeps no metadata.\<close>

definition Memory_ops :: "MemoryStorage FakeIPStorage" where
  "Memory_ops =
     \<lparr>fs_Metadata = (\<lambda>s. (None, s)), fs_SaveMetadata = (\<lambda>_ s. (None, s)), fs_SaveMetadataAsync = (\<lambda>_ s. s),
      fs_Store = Memory_FakeIPStore, fs_Load = addressCache, fs_LoadDomain = Memory_FakeIPLoadDomain,
      fs_Reset = Memory_FakeIPReset\<rparr>"

section \<open>The store\<close>

text \<open>\<open>st_storage\<close> is nil until \<open>Start\<close>.\<close>

record 's Store =
  inet4Range :: Prefix
  inet6Range :: Prefix
  st_storage :: "'s option"
  inet4Current :: addr
  inet6Current :: addr

definition NewStore :: "Prefix \<Rightarrow> Prefix \<Rightarrow> 's Store" where
  "NewStore r4 r6 = \<lparr>inet4Range = r4, inet6Range = r6, st_storage = None, inet4Current = AddrInvalid, inet6Current = AddrInvalid\<rparr>"

definition store_metadata :: "'s Store \<Rightarrow> FakeIPMetadata" where
  "store_metadata st =
     \<lparr>Inet4Range = inet4Range st, Inet6Range = inet6Range st, Inet4Current = inet4Current st, Inet6Current = inet6Current st\<rparr>"

definition first_address :: "Prefix \<Rightarrow> addr" where
  "first_address r = Addr_Next (Addr_Next (pf_Addr r))"

text \<open>\<open>Start\<close> on a storage: the cache file when it is configured to keep fake addresses, a new memory otherwise.\<close>

definition choose_storage :: "('c \<Rightarrow> bool) \<Rightarrow> 'c option \<Rightarrow> 'c + MemoryStorage" where
  "choose_storage storeFakeIP cacheFile =
     (case cacheFile of
        Some c \<Rightarrow> if storeFakeIP c then Inl c else Inr NewMemoryStorage
      | None \<Rightarrow> Inr NewMemoryStorage)"

definition fresh_start :: "'s FakeIPStorage \<Rightarrow> 's \<Rightarrow> 's Store \<Rightarrow> 's Store" where
  "fresh_start F storage st =
     (let st = (if Prefix_IsValid (inet4Range st) then st\<lparr>inet4Current := first_address (inet4Range st)\<rparr> else st);
          st = (if Prefix_IsValid (inet6Range st) then st\<lparr>inet6Current := first_address (inet6Range st)\<rparr> else st) in
      st\<lparr>st_storage := Some (snd (fs_Reset F storage))\<rparr>)"

definition Store_Start :: "'s FakeIPStorage \<Rightarrow> 's \<Rightarrow> 's Store \<Rightarrow> 's Store" where
  "Store_Start F storage st =
     (case fs_Metadata F storage of
        (Some m, storage) \<Rightarrow>
          if Inet4Range m = inet4Range st \<and> Inet6Range m = inet6Range st
          then st\<lparr>inet4Current := Inet4Current m, inet6Current := Inet6Current m, st_storage := Some storage\<rparr>
          else fresh_start F storage st
      | (None, storage) \<Rightarrow> fresh_start F storage st)"

definition Store_Contains :: "'s Store \<Rightarrow> addr \<Rightarrow> bool" where
  "Store_Contains st address \<longleftrightarrow> Prefix_Contains (inet4Range st) address \<or> Prefix_Contains (inet6Range st) address"

definition Store_Close :: "'s FakeIPStorage \<Rightarrow> 's Store \<Rightarrow> error option \<times> 's Store" where
  "Store_Close F st =
     (case st_storage st of
        None \<Rightarrow> (None, st)
      | Some storage \<Rightarrow> (case fs_SaveMetadata F (store_metadata st) storage of (err, storage) \<Rightarrow> (err, st\<lparr>st_storage := Some storage\<rparr>)))"

definition next_address :: "Prefix \<Rightarrow> addr \<Rightarrow> addr" where
  "next_address r current =
     (let nextAddress = Addr_Next current in
      if \<not> Prefix_Contains r nextAddress then first_address r else nextAddress)"

definition nil_storage :: error where
  "nil_storage = Panic [S ''invalid memory address or nil pointer dereference'']"

text \<open>
  \<open>Create\<close>: the lock is held from the second look at the table on. An error of the storage is only logged, so the
  address is returned in any case.
\<close>

definition allocate :: "bool \<Rightarrow> 's Store \<Rightarrow> (addr \<times> 's Store) result" where
  "allocate isIPv6 st =
     (if \<not> isIPv6
      then (if \<not> Addr_IsValid (inet4Current st) then Inl (E_New [S ''missing IPv4 fakeip address range''])
            else let nextAddress = next_address (inet4Range st) (inet4Current st) in
              Inr (nextAddress, st\<lparr>inet4Current := nextAddress\<rparr>))
      else (if \<not> Addr_IsValid (inet6Current st) then Inl (E_New [S ''missing IPv6 fakeip address range''])
            else let nextAddress = next_address (inet6Range st) (inet6Current st) in
              Inr (nextAddress, st\<lparr>inet6Current := nextAddress\<rparr>)))"

definition Store_Create :: "'s FakeIPStorage \<Rightarrow> string \<Rightarrow> bool \<Rightarrow> 's Store \<Rightarrow> addr result \<times> 's Store" where
  "Store_Create F domain isIPv6 st =
     (case st_storage st of
        None \<Rightarrow> (Inl nil_storage, st)
      | Some storage \<Rightarrow>
          (case fs_LoadDomain F storage domain isIPv6 of
             Some address \<Rightarrow> (Inr address, st)
           | None \<Rightarrow>
               (case allocate isIPv6 st of
                  Inl err \<Rightarrow> (Inl err, st)
                | Inr (address, st) \<Rightarrow>
                    (Inr address,
                     st\<lparr>st_storage := Some (fs_SaveMetadataAsync F (store_metadata st) (snd (fs_Store F address domain storage)))\<rparr>))))"

definition Store_Lookup :: "'s FakeIPStorage \<Rightarrow> 's Store \<Rightarrow> addr \<Rightarrow> (string option) result" where
  "Store_Lookup F st address = (case st_storage st of None \<Rightarrow> Inl nil_storage | Some storage \<Rightarrow> Inr (fs_Load F storage address))"

definition Store_Reset :: "'s FakeIPStorage \<Rightarrow> 's Store \<Rightarrow> error option result \<times> 's Store" where
  "Store_Reset F st =
     (case st_storage st of
        None \<Rightarrow> (Inl nil_storage, st)
      | Some storage \<Rightarrow> (case fs_Reset F storage of (err, storage) \<Rightarrow> (Inr err, st\<lparr>st_storage := Some storage\<rparr>)))"

section \<open>The transport\<close>

abbreviation (input) DefaultDNSTTL :: "32 word" where "DefaultDNSTTL \<equiv> 600"

definition FakeIP_Exchange :: "dns_lib \<Rightarrow> 's FakeIPStorage \<Rightarrow> dns_msg \<Rightarrow> 's Store \<Rightarrow> dns_msg result \<times> 's Store" where
  "FakeIP_Exchange D F message st =
     (case msg_Question message of
        [] \<Rightarrow> (Inl (Panic [S ''index out of range'']), st)
      | question # _ \<Rightarrow>
          (case question of (name, ty, cls) \<Rightarrow>
             if ty \<noteq> TypeA \<and> ty \<noteq> TypeAAAA then (Inl (E_New [S ''only IP queries are supported by fakeip'']), st)
             else case Store_Create F (FqdnToDomain D name) (ty = TypeAAAA) st of
                    (Inl err, st) \<Rightarrow> (Inl err, st)
                  | (Inr address, st) \<Rightarrow> (Inr (FixedResponse (msg_Id message) question [address] DefaultDNSTTL), st)))"

section \<open>The binary form of the metadata\<close>

lemma length_AsSlice: "length (AsSlice a) = BitLen a div 8"
  by (cases a) (simp_all add: AsSlice_def)

lemma Addr_Unmarshal_Marshal: "Addr_UnmarshalBinary (Addr_MarshalBinary a) = Inr a"
proof (cases a)
  case (Addr6 v z)
  have "AddrFromSlice (AsSlice (Addr6 v [])) = Addr6 v []" by (rule AddrFromSlice_AsSlice) simp
  then have "AddrFromSlice (AsSlice (Addr6 v z)) = Addr6 v []" by (simp add: AsSlice_def)
  moreover have "length (AsSlice (Addr6 v z)) = 16" by (simp add: length_AsSlice)
  ultimately show ?thesis using Addr6 by (cases z) (simp_all add: Addr_UnmarshalBinary_def Addr_MarshalBinary_def Let_def str_bytes_def [of "[]"])
qed (auto simp: Addr_UnmarshalBinary_def Addr_MarshalBinary_def length_AsSlice AddrFromSlice_AsSlice Let_def)

definition plain_prefix :: "Prefix \<Rightarrow> bool" where
  "plain_prefix p \<longleftrightarrow> Prefix_wf p \<and> \<not> hasZone (pf_Addr p)"

lemma withoutZone_id: "\<not> hasZone a \<Longrightarrow> withoutZone a = a"
  by (cases a) (auto simp: withoutZone_def)

lemma Prefix_Unmarshal_Marshal:
  assumes "plain_prefix p"
  shows "Prefix_UnmarshalBinary (Prefix_MarshalBinary p) = Inr p"
proof -
  have z: "withoutZone (pf_Addr p) = pf_Addr p" using assms by (simp add: plain_prefix_def withoutZone_id)
  have "PrefixFrom (pf_Addr p) (unat (Bits8 p)) = p"
  proof (cases "pf_bits p")
    case None
    have "BitLen (pf_Addr p) < 255" by (cases "pf_Addr p") auto
    moreover have "unat (- 1 :: 8 word) = 255" by (simp add: unsigned_minus_1_eq_mask mask_eq_exp_minus_1)
    ultimately show ?thesis using None z by (cases p) (simp add: PrefixFrom_def Bits8_def)
  next
    case (Some n)
    then have n: "n \<le> BitLen (pf_Addr p)" "Addr_IsValid (pf_Addr p)" using assms by (auto simp: plain_prefix_def Prefix_wf_def)
    then have "n < 256" by (cases "pf_Addr p") auto
    then have "unat (Bits8 p) = n" using Some by (simp add: Bits8_def unat_of_nat take_bit_nat_eq_self)
    then show ?thesis using Some n z by (cases p) (simp add: PrefixFrom_def)
  qed
  then show ?thesis by (simp add: Prefix_UnmarshalBinary_def Prefix_MarshalBinary_def z Addr_Unmarshal_Marshal)
qed

lemma get_put_element:
  assumes "unmarshal data = Inr x" and "length data < 2 ^ 16"
  shows "get_element unmarshal (put_element data @ rest) = Inr (x, rest)"
  using assms by (simp add: get_element_def put_element_def ReadFull_append be_value_be_bytes)

lemma Metadata_Unmarshal_Marshal:
  assumes "plain_prefix (Inet4Range m)" and "plain_prefix (Inet6Range m)"
    and "length (Addr_MarshalBinary (Inet4Current m)) < 2 ^ 16" and "length (Addr_MarshalBinary (Inet6Current m)) < 2 ^ 16"
  shows "Metadata_UnmarshalBinary (Metadata_MarshalBinary m) = Inr m"
proof -
  have "length (Prefix_MarshalBinary p) < 2 ^ 16" for p
    by (cases "pf_Addr p") (simp_all add: Prefix_MarshalBinary_def Addr_MarshalBinary_def withoutZone_def length_AsSlice str_bytes_def)
  then have p: "get_element Prefix_UnmarshalBinary (put_element (Prefix_MarshalBinary p) @ rest) = Inr (p, rest)" if "plain_prefix p" for p rest
    using that by (intro get_put_element Prefix_Unmarshal_Marshal)
  have a: "get_element Addr_UnmarshalBinary (put_element (Addr_MarshalBinary a) @ rest) = Inr (a, rest)"
    if "length (Addr_MarshalBinary a) < 2 ^ 16" for a rest
    using that by (intro get_put_element Addr_Unmarshal_Marshal)
  show ?thesis using assms a [of _ "[]"] by (simp add: Metadata_UnmarshalBinary_def Metadata_MarshalBinary_def p a)
qed

section \<open>The pool of a range\<close>

text \<open>
  The addresses that a range hands out: those from the third on. They are run through in a circle.
\<close>

definition addr_value :: "addr \<Rightarrow> nat" where
  "addr_value a = (case a of AddrInvalid \<Rightarrow> 0 | Addr4 w \<Rightarrow> unat w | Addr6 v _ \<Rightarrow> unat v)"

definition range_last :: "Prefix \<Rightarrow> nat" where
  "range_last r = (case pf_bits r of None \<Rightarrow> 0 | Some n \<Rightarrow>
     (let size = 2 ^ (BitLen (pf_Addr r) - n) in addr_value (pf_Addr r) div size * size + (size - 1)))"

definition range_first :: "Prefix \<Rightarrow> nat" where
  "range_first r = addr_value (pf_Addr r) + 2"

definition pool :: "Prefix \<Rightarrow> addr set" where
  "pool r = {a. Prefix_Contains r a \<and> range_first r \<le> addr_value a}"

definition pool_size :: "Prefix \<Rightarrow> nat" where
  "pool_size r = Suc (range_last r) - range_first r"

lemma word_interval:
  "unat x div 2 ^ k = unat w div 2 ^ k \<and> unat w + 2 \<le> unat x \<longleftrightarrow>
   unat (w :: 'a :: len word) + 2 \<le> unat (x :: 'a word) \<and> unat x \<le> unat w div 2 ^ k * 2 ^ k + (2 ^ k - 1)"
proof -
  have "unat x div 2 ^ k = unat w div 2 ^ k \<longleftrightarrow> unat x div 2 ^ k < unat w div 2 ^ k + 1" if "unat w + 2 \<le> unat x"
    using div_le_mono [of "unat w" "unat x" "2 ^ k"] that by auto
  also have "unat x div 2 ^ k < unat w div 2 ^ k + 1 \<longleftrightarrow> unat x < (unat w div 2 ^ k + 1) * 2 ^ k"
    by (rule div_less_iff_less_mult) simp
  also have "\<dots> \<longleftrightarrow> unat x \<le> unat w div 2 ^ k * 2 ^ k + (2 ^ k - 1)"
    by (auto simp: less_Suc_eq_le [symmetric])
  finally show ?thesis by auto
qed

lemma word_interval_bound:
  assumes "k \<le> LENGTH('a)"
  shows "unat (w :: 'a :: len word) div 2 ^ k * 2 ^ k + (2 ^ k - 1) < 2 ^ LENGTH('a)"
proof -
  have "unat w div 2 ^ k < 2 ^ (LENGTH('a) - k)"
    using unat_lt [of w] assms by (simp add: div_less_iff_less_mult power_add [symmetric])
  then have "(unat w div 2 ^ k + 1) * 2 ^ k \<le> 2 ^ (LENGTH('a) - k) * 2 ^ k" by (intro mult_le_mono1) simp
  also have "\<dots> = 2 ^ LENGTH('a)" using assms by (simp add: power_add [symmetric])
  finally show ?thesis by (cases "(2 :: nat) ^ k") simp_all
qed

lemma word_next: "unat x < b \<Longrightarrow> b < 2 ^ LENGTH('a) \<Longrightarrow> (x :: 'a :: len word) + 1 \<noteq> 0 \<and> unat (x + 1) = unat x + 1"
proof -
  assume "unat x < b" "b < 2 ^ LENGTH('a)"
  then have "unat (x + 1) = unat x + 1" by (simp add: unat_word_ariths)
  then show ?thesis by auto
qed

lemma word_next_nonzero: "(x :: 'a :: len word) + 1 \<noteq> 0 \<Longrightarrow> unat (x + 1) = unat x + 1"
  by (metis Suc_eq_plus1 add.commute unatSuc)

lemma pool_cases:
  assumes "plain_prefix r" and "pf_bits r = Some n"
  obtains (v4) w where "pf_Addr r = Addr4 w" "n \<le> 32" "range_last r < 2 ^ 32"
      "\<And>a. a \<in> pool r \<longleftrightarrow> (\<exists>x. a = Addr4 x \<and> range_first r \<le> unat x \<and> unat x \<le> range_last r)"
  | (v6) w where "pf_Addr r = Addr6 w []" "n \<le> 128" "range_last r < 2 ^ 128"
      "\<And>a. a \<in> pool r \<longleftrightarrow> (\<exists>x. a = Addr6 x [] \<and> range_first r \<le> unat x \<and> unat x \<le> range_last r)"
proof (cases "pf_Addr r")
  case AddrInvalid
  then show ?thesis using assms by (auto simp: plain_prefix_def Prefix_wf_def)
next
  case (Addr4 w)
  then have r: "r = \<lparr>pf_Addr = Addr4 w, pf_bits = Some n\<rparr>" using assms by (cases r) simp
  have "a \<in> pool r \<longleftrightarrow> (\<exists>x. a = Addr4 x \<and> range_first r \<le> unat x \<and> unat x \<le> range_last r)" for a
    using word_interval [of _ "32 - n" w]
    by (cases a) (auto simp: pool_def r Contains4_iff range_first_def range_last_def addr_value_def Let_def Prefix_Contains_def [of _ "Addr6 _ _"])
  moreover have "range_last r < 2 ^ 32"
    using word_interval_bound [of "32 - n" w] by (simp add: r range_last_def addr_value_def Let_def)
  ultimately show ?thesis using v4 [of w] Addr4 assms by (simp add: plain_prefix_def Prefix_wf_def)
next
  case (Addr6 w z)
  then have z: "z = []" using assms by (simp add: plain_prefix_def)
  then have r: "r = \<lparr>pf_Addr = Addr6 w [], pf_bits = Some n\<rparr>" using assms Addr6 by (cases r) simp
  have "a \<in> pool r \<longleftrightarrow> (\<exists>x. a = Addr6 x [] \<and> range_first r \<le> unat x \<and> unat x \<le> range_last r)" for a
  proof (cases a)
    case (Addr6 x z)
    have "\<not> Prefix_Contains r (Addr6 x z)" if "z \<noteq> []" using that by (simp add: Prefix_Contains_def r)
    then show ?thesis using word_interval [of x "128 - n" w] Addr6
      by (cases "z = []") (auto simp: pool_def r Contains6_iff range_first_def range_last_def addr_value_def Let_def)
  qed (auto simp: pool_def r Prefix_Contains_def)
  moreover have "range_last r < 2 ^ 128"
    using word_interval_bound [of "128 - n" w] by (simp add: r range_last_def addr_value_def Let_def)
  ultimately show ?thesis using v6 [of w] Addr6 z assms by (simp add: plain_prefix_def Prefix_wf_def)
qed

lemma pool_unique:
  assumes "plain_prefix r" and "pf_bits r = Some n" and "a \<in> pool r" and "b \<in> pool r" and "addr_value a = addr_value b"
  shows "a = b"
  by (rule pool_cases [OF assms(1,2)]) (use assms(3-) in \<open>auto simp: addr_value_def word_unat_eq_iff\<close>)

lemma pool_bounds:
  assumes "plain_prefix r" and "pf_bits r = Some n" and "a \<in> pool r"
  shows "range_first r \<le> addr_value a \<and> addr_value a \<le> range_last r"
  by (rule pool_cases [OF assms(1,2)]) (use assms(3) in \<open>auto simp: addr_value_def\<close>)

lemma pool_nonempty_iff:
  assumes "plain_prefix r" and "pf_bits r = Some n"
  shows "pool r \<noteq> {} \<longleftrightarrow> range_first r \<le> range_last r"
  using assms
proof (cases rule: pool_cases)
  case (v4 w)
  have "Addr4 (word_of_nat (range_first r)) \<in> pool r" if "range_first r \<le> range_last r"
    using that v4(3) by (simp add: v4(4) unat_of_nat take_bit_nat_eq_self)
  then show ?thesis using v4(4) by force
next
  case (v6 w)
  have "Addr6 (word_of_nat (range_first r)) [] \<in> pool r" if "range_first r \<le> range_last r"
    using that v6(3) by (simp add: v6(4) unat_of_nat take_bit_nat_eq_self)
  then show ?thesis using v6(4) by force
qed

lemma Addr_Next_value:
  assumes "addr_value a < b" and "b < 2 ^ BitLen a" and "Addr_IsValid a"
  shows "addr_value (Addr_Next a) = addr_value a + 1" and "BitLen (Addr_Next a) = BitLen a" and "Addr_IsValid (Addr_Next a)"
    and "hasZone (Addr_Next a) = hasZone a"
proof -
  have "addr_value (Addr_Next a) = addr_value a + 1 \<and> BitLen (Addr_Next a) = BitLen a \<and> Addr_IsValid (Addr_Next a) \<and>
    hasZone (Addr_Next a) = hasZone a"
  proof (cases a)
    case (Addr4 w)
    then show ?thesis using assms word_next [of w b] by (simp add: Addr_Next_def addr_value_def)
  next
    case (Addr6 w z)
    then show ?thesis using assms word_next [of w b] by (simp add: Addr_Next_def addr_value_def)
  qed (use assms in simp)
  then show "addr_value (Addr_Next a) = addr_value a + 1" and "BitLen (Addr_Next a) = BitLen a" and "Addr_IsValid (Addr_Next a)"
    and "hasZone (Addr_Next a) = hasZone a" by simp_all
qed

lemma Addr_Next_cases: "Addr_IsValid a \<Longrightarrow> Addr_Next a = AddrInvalid \<or> addr_value (Addr_Next a) = addr_value a + 1"
  by (cases a) (auto simp: Addr_Next_def addr_value_def word_next_nonzero)

text \<open>The pool are the addresses of the family of the range, without zone, between its bounds.\<close>

lemma pool_value:
  assumes "plain_prefix r" and "pf_bits r = Some n"
  shows "a \<in> pool r \<longleftrightarrow> BitLen a = BitLen (pf_Addr r) \<and> \<not> hasZone a \<and> range_first r \<le> addr_value a \<and> addr_value a \<le> range_last r"
  using assms
proof (cases rule: pool_cases)
  case (v4 w)
  then show ?thesis by (cases a) (simp_all add: addr_value_def)
next
  case (v6 w)
  then show ?thesis by (cases a) (auto simp: addr_value_def)
qed

lemma first_address_pool:
  assumes "plain_prefix r" and "pf_bits r = Some n" and "range_first r \<le> range_last r"
  shows "first_address r \<in> pool r" and "addr_value (first_address r) = range_first r"
proof -
  have v: "Addr_IsValid (pf_Addr r)" and b: "range_last r < 2 ^ BitLen (pf_Addr r)"
    by (rule pool_cases [OF assms(1,2)]; simp)+
  have "addr_value (pf_Addr r) < range_last r" using assms(3) by (simp add: range_first_def)
  note a = Addr_Next_value [OF this b v]
  have "addr_value (Addr_Next (pf_Addr r)) < range_last r" using assms(3) a by (simp add: range_first_def)
  note c = Addr_Next_value [OF this _ a(3), unfolded a(2), OF b]
  show "addr_value (first_address r) = range_first r" using a c by (simp add: first_address_def range_first_def)
  moreover have "BitLen (first_address r) = BitLen (pf_Addr r)" "hasZone (first_address r) = hasZone (pf_Addr r)"
    using a c by (simp_all add: first_address_def)
  ultimately show "first_address r \<in> pool r" using pool_value [OF assms(1,2)] assms by (simp add: plain_prefix_def)
qed

lemma pool_next:
  assumes "plain_prefix r" and "pf_bits r = Some n" and "a \<in> pool r"
  shows "next_address r a \<in> pool r"
    and "addr_value (next_address r a) = (if addr_value a < range_last r then addr_value a + 1 else range_first r)"
proof -
  have le: "range_first r \<le> range_last r" using assms pool_nonempty_iff by blast
  note f = first_address_pool [OF assms(1,2) le]
  note b = pool_bounds [OF assms]
  have v: "Addr_IsValid a" and l: "range_last r < 2 ^ BitLen a" and z: "\<not> hasZone a" and fam: "BitLen a = BitLen (pf_Addr r)"
    by (rule pool_cases [OF assms(1,2)]; use assms(3) in auto)+
  have "next_address r a \<in> pool r \<and> addr_value (next_address r a) = (if addr_value a < range_last r then addr_value a + 1 else range_first r)"
  proof (cases "addr_value a < range_last r")
    case True
    note x = Addr_Next_value [OF True l v]
    have "Addr_Next a \<in> pool r" using pool_value [OF assms(1,2)] x b z True fam by simp
    then show ?thesis using x True by (auto simp: next_address_def Let_def pool_def)
  next
    case False
    have "range_first r \<le> addr_value (Addr_Next a) \<and> range_last r < addr_value (Addr_Next a) \<or> Addr_Next a = AddrInvalid"
      using b False Addr_Next_cases [OF v] by auto
    then have "\<not> Prefix_Contains r (Addr_Next a)" using pool_bounds [OF assms(1,2)] by (fastforce simp: pool_def dest: Prefix_Contains_IsValid)
    then show ?thesis using f False by (simp add: next_address_def Let_def)
  qed
  then show "next_address r a \<in> pool r"
    and "addr_value (next_address r a) = (if addr_value a < range_last r then addr_value a + 1 else range_first r)" by auto
qed

text \<open>A range with fewer than three addresses hands out an address that it does not contain.\<close>

lemma small_range_outside:
  assumes "plain_prefix r" and "pf_bits r = Some n" and "range_last r < range_first r" and "range_last r + 2 < 2 ^ BitLen (pf_Addr r)"
  shows "\<not> Prefix_Contains r (first_address r)" and "next_address r (first_address r) = first_address r \<or> Prefix_Contains r (Addr_Next (first_address r))"
proof -
  have v: "Addr_IsValid (pf_Addr r)" using assms(1,2) by (auto simp: plain_prefix_def Prefix_wf_def)
  have b: "addr_value (pf_Addr r) \<le> range_last r"
  proof -
    define K where "K = (2 :: nat) ^ (BitLen (pf_Addr r) - n)"
    have "addr_value (pf_Addr r) mod K < K" by (simp add: K_def)
    moreover have "addr_value (pf_Addr r) = addr_value (pf_Addr r) div K * K + addr_value (pf_Addr r) mod K" by simp
    moreover have "range_last r = addr_value (pf_Addr r) div K * K + (K - 1)" using assms(2) by (simp add: range_last_def K_def Let_def)
    ultimately show ?thesis by linarith
  qed
  have a: "addr_value (Addr_Next (pf_Addr r)) = addr_value (pf_Addr r) + 1" "BitLen (Addr_Next (pf_Addr r)) = BitLen (pf_Addr r)" "Addr_IsValid (Addr_Next (pf_Addr r))"
    using Addr_Next_value [of "pf_Addr r" "range_last r + 2"] b assms(4) v by auto
  then have "addr_value (first_address r) = range_first r"
    using Addr_Next_value(1) [of "Addr_Next (pf_Addr r)" "range_last r + 2"] b assms(4) by (simp add: first_address_def range_first_def)
  moreover have "first_address r \<notin> pool r" using pool_bounds [OF assms(1,2)] assms(3) by fastforce
  ultimately show "\<not> Prefix_Contains r (first_address r)" by (simp add: pool_def)
  show "next_address r (first_address r) = first_address r \<or> Prefix_Contains r (Addr_Next (first_address r))"
    by (simp add: next_address_def Let_def)
qed

end
