(* ===== verification/Fake_IP_Contract.thy ===== *)
theory Fake_IP_Contract
  imports Fake_IP
begin

text \<open>
  What the store relies on in its storage, as the locale \<open>fakeip_storage\<close>: the two directions of the table agree, and
  storing a pair changes one address or, when it fails, nothing. What the store promises is derived inside it and
  reaches the memory storage by interpretation.
\<close>

section \<open>Going round in the pool\<close>

definition step_value :: "Prefix \<Rightarrow> nat \<Rightarrow> nat" where
  "step_value r v = (if v < range_last r then v + 1 else range_first r)"

lemma step_value_power:
  assumes "range_first r \<le> v" and "v \<le> range_last r"
  shows "(step_value r ^^ k) v = range_first r + (v - range_first r + k) mod pool_size r"
proof (induction k)
  case 0
  then show ?case using assms by (simp add: pool_size_def)
next
  case (Suc k)
  let ?i = "(v - range_first r + k) mod pool_size r"
  have N: "pool_size r > 0" using assms by (simp add: pool_size_def)
  have "(step_value r ^^ Suc k) v = step_value r (range_first r + ?i)" using Suc by simp
  also have "\<dots> = range_first r + (if Suc ?i = pool_size r then 0 else Suc ?i)"
  proof -
    have "step_value r (range_first r + i) = range_first r + (if Suc i = pool_size r then 0 else Suc i)" if "i < pool_size r" for i
      using that assms by (auto simp: step_value_def pool_size_def)
    then show ?thesis using N by simp
  qed
  also have "\<dots> = range_first r + (v - range_first r + Suc k) mod pool_size r"
    using mod_Suc [of "v - range_first r + k" "pool_size r"] by simp
  finally show ?case .
qed

lemma step_value_distinct:
  assumes "range_first r \<le> v" and "v \<le> range_last r" and "0 < k" and "k < pool_size r"
  shows "(step_value r ^^ k) v \<noteq> v"
proof
  assume "(step_value r ^^ k) v = v"
  then have "(v - range_first r + k) mod pool_size r = v - range_first r"
    using step_value_power [OF assms(1,2), of k] assms(1) by simp
  moreover have "v - range_first r < pool_size r" using assms(1,2) by (simp add: pool_size_def)
  ultimately show False using assms(3,4)
    by (auto simp: mod_if [of "_ + _"] split: if_splits)
qed

section \<open>Ranges\<close>

text \<open>A range that is configured has at least three addresses, all of its own family.\<close>

definition range_ok :: "bool \<Rightarrow> Prefix \<Rightarrow> bool" where
  "range_ok v6 r \<longleftrightarrow> r = zeroPrefix \<or> (\<exists>n. plain_prefix r \<and> pf_bits r = Some n \<and> range_first r \<le> range_last r \<and> (\<forall>a \<in> pool r. plain_addr a \<and> Addr_Is4 a = (\<not> v6)))"

definition range_of :: "bool \<Rightarrow> 's Store \<Rightarrow> Prefix" where
  "range_of v6 st = (if v6 then inet6Range st else inet4Range st)"

definition current_of :: "bool \<Rightarrow> 's Store \<Rightarrow> addr" where
  "current_of v6 st = (if v6 then inet6Current st else inet4Current st)"

definition ranges_ok :: "'s Store \<Rightarrow> bool" where
  "ranges_ok st \<longleftrightarrow> (\<forall>v6. range_ok v6 (range_of v6 st) \<and>
     (if Prefix_IsValid (range_of v6 st) then current_of v6 st \<in> pool (range_of v6 st) else current_of v6 st = AddrInvalid))"

lemma range_okD:
  assumes "range_ok v6 r" and "Prefix_IsValid r"
  obtains n where "plain_prefix r" "pf_bits r = Some n" "range_first r \<le> range_last r" "\<forall>a \<in> pool r. plain_addr a \<and> Addr_Is4 a = (\<not> v6)"
  using assms by (auto simp: range_ok_def Prefix_IsValid_def zeroPrefix_def)

lemma allocate_eq:
  "allocate v6 st =
     (if \<not> Addr_IsValid (current_of v6 st)
      then Inl (E_New [S (if v6 then ''missing IPv6 fakeip address range'' else ''missing IPv4 fakeip address range'')])
      else Inr (next_address (range_of v6 st) (current_of v6 st),
        if v6 then st\<lparr>inet6Current := next_address (range_of v6 st) (current_of v6 st)\<rparr>
        else st\<lparr>inet4Current := next_address (range_of v6 st) (current_of v6 st)\<rparr>))"
  by (simp add: allocate_def current_of_def range_of_def Let_def)

lemma allocate_ok:
  assumes "ranges_ok st" and "allocate v6 st = Inr (a, st')"
  shows "a \<in> pool (range_of v6 st)" and "plain_addr a" and "Addr_Is4 a = (\<not> v6)" and "ranges_ok st'"
    and "addr_value a = step_value (range_of v6 st) (addr_value (current_of v6 st))" and "current_of v6 st' = a"
    and "\<And>w. range_of w st' = range_of w st" and "\<And>w. w \<noteq> v6 \<Longrightarrow> current_of w st' = current_of w st"
    and "st_storage st' = st_storage st" and "Prefix_IsValid (range_of v6 st)"
proof -
  let ?r = "range_of v6 st"
  have v: "Addr_IsValid (current_of v6 st)" and a: "a = next_address ?r (current_of v6 st)"
    and st': "st' = (if v6 then st\<lparr>inet6Current := a\<rparr> else st\<lparr>inet4Current := a\<rparr>)"
    using assms(2) by (auto simp: allocate_eq split: if_splits)
  show pv: "Prefix_IsValid ?r" using assms(1) v unfolding ranges_ok_def by (metis addr_simps(1))
  then have c: "current_of v6 st \<in> pool ?r" and ro: "range_ok v6 ?r" using assms(1) by (auto simp: ranges_ok_def)
  obtain n where r: "plain_prefix ?r" "pf_bits ?r = Some n" "range_first ?r \<le> range_last ?r" "\<forall>a \<in> pool ?r. plain_addr a \<and> Addr_Is4 a = (\<not> v6)"
    by (rule range_okD [OF ro pv])
  show p: "a \<in> pool ?r" and "addr_value a = step_value ?r (addr_value (current_of v6 st))"
    using pool_next [OF r(1,2) c] by (simp_all add: a step_value_def)
  show "plain_addr a" "Addr_Is4 a = (\<not> v6)" using r(4) p by simp_all
  show s: "current_of v6 st' = a" "\<And>w. range_of w st' = range_of w st" "\<And>w. w \<noteq> v6 \<Longrightarrow> current_of w st' = current_of w st"
    "st_storage st' = st_storage st"
    by (auto simp: st' current_of_def range_of_def)
  show "ranges_ok st'" unfolding ranges_ok_def
  proof (intro allI)
    fix w
    show "range_ok w (range_of w st') \<and> (if Prefix_IsValid (range_of w st') then current_of w st' \<in> pool (range_of w st') else current_of w st' = AddrInvalid)"
      using assms(1) s p pv by (cases "w = v6") (simp_all add: ranges_ok_def)
  qed
qed

section \<open>The contract\<close>

text \<open>A sequence of calls of \<open>Create\<close>.\<close>

fun creates :: "'s FakeIPStorage \<Rightarrow> (string \<times> bool) list \<Rightarrow> 's Store \<Rightarrow> 's Store" where
  "creates F [] st = st"
| "creates F ((d, v6) # ops) st = creates F ops (snd (Store_Create F d v6 st))"

locale fakeip_storage =
  fixes F :: "'s FakeIPStorage" and inv :: "'s \<Rightarrow> bool"
  assumes domain_iff: "inv s \<Longrightarrow> plain_addr a \<Longrightarrow> fs_LoadDomain F s d v6 = Some a \<longleftrightarrow> fs_Load F s a = Some d \<and> Addr_Is4 a = (\<not> v6)"
    and domain_plain: "inv s \<Longrightarrow> fs_LoadDomain F s d v6 = Some a \<Longrightarrow> plain_addr a"
    and store_law: "inv s \<Longrightarrow> plain_addr a \<Longrightarrow> d \<noteq> [] \<Longrightarrow> fs_LoadDomain F s d (\<not> Addr_Is4 a) = None \<Longrightarrow>
      fs_Store F a d s = (err, s') \<Longrightarrow>
      inv s' \<and> (\<forall>b. plain_addr b \<longrightarrow> fs_Load F s' b = (if err = None \<and> b = a then Some d else fs_Load F s b))"
    and async_law: "inv s \<Longrightarrow> inv (fs_SaveMetadataAsync F m s) \<and> fs_Load F (fs_SaveMetadataAsync F m s) = fs_Load F s"
begin

text \<open>The state of a started store: its table has plain addresses of its ranges only.\<close>

definition ready :: "'s Store \<Rightarrow> bool" where
  "ready st \<longleftrightarrow> ranges_ok st \<and> (\<exists>s. st_storage st = Some s \<and> inv s \<and>
     (\<forall>a d. plain_addr a \<longrightarrow> fs_Load F s a = Some d \<longrightarrow> a \<in> pool (range_of (\<not> Addr_Is4 a) st)))"

definition table :: "'s Store \<Rightarrow> addr \<Rightarrow> string option" where
  "table st a = (case st_storage st of None \<Rightarrow> None | Some s \<Rightarrow> fs_Load F s a)"

definition knows :: "'s Store \<Rightarrow> string \<Rightarrow> bool \<Rightarrow> bool" where
  "knows st d v6 \<longleftrightarrow> (\<exists>s. st_storage st = Some s \<and> fs_LoadDomain F s d v6 \<noteq> None)"

lemma create_known:
  assumes "ready st" and "knows st d v6"
  obtains a where "Store_Create F d v6 st = (Inr a, st)" "table st a = Some d" "a \<in> pool (range_of v6 st)" "plain_addr a" "Addr_Is4 a = (\<not> v6)"
proof -
  obtain s a where s: "st_storage st = Some s" "inv s" "fs_LoadDomain F s d v6 = Some a"
    and p: "\<And>a d. plain_addr a \<Longrightarrow> fs_Load F s a = Some d \<Longrightarrow> a \<in> pool (range_of (\<not> Addr_Is4 a) st)"
    using assms by (auto simp: ready_def knows_def)
  note a = domain_plain [OF s(2,3)]
  then have "fs_Load F s a = Some d" "Addr_Is4 a = (\<not> v6)" using domain_iff [OF s(2) a] s(3) by auto
  then show ?thesis using that [of a] s a p [OF a] by (simp add: Store_Create_def table_def)
qed

text \<open>A domain without an address gets the next one of its range; the rest of the table stays.\<close>

lemma create_new:
  assumes "ready st" and "\<not> knows st d v6" and "d \<noteq> []" and "Prefix_IsValid (range_of v6 st)"
  obtains a st' err where "Store_Create F d v6 st = (Inr a, st')" and "ready st'" and "a \<in> pool (range_of v6 st)"
    and "addr_value a = step_value (range_of v6 st) (addr_value (current_of v6 st))" and "current_of v6 st' = a"
    and "\<forall>w. range_of w st' = range_of w st" and "\<forall>w. w \<noteq> v6 \<longrightarrow> current_of w st' = current_of w st"
    and "plain_addr a" and "Addr_Is4 a = (\<not> v6)"
    and "\<forall>b. plain_addr b \<longrightarrow> table st' b = (if err = None \<and> b = a then Some d else table st b)"
    and "\<forall>s. st_storage st = Some s \<longrightarrow> err = fst (fs_Store F a d s)"
proof -
  obtain s where s: "st_storage st = Some s" "inv s" "fs_LoadDomain F s d v6 = None" and r: "ranges_ok st"
    and p: "\<And>a d. plain_addr a \<Longrightarrow> fs_Load F s a = Some d \<Longrightarrow> a \<in> pool (range_of (\<not> Addr_Is4 a) st)"
    using assms(1,2) by (auto simp: ready_def knows_def)
  have "current_of v6 st \<in> pool (range_of v6 st)" using r assms(4) by (simp add: ranges_ok_def)
  then have "Addr_IsValid (current_of v6 st)" by (auto simp: pool_def dest: Prefix_Contains_IsValid)
  then obtain a st1 where al: "allocate v6 st = Inr (a, st1)" by (simp add: allocate_eq)
  note k = allocate_ok [OF r al]
  obtain err s1 where st: "fs_Store F a d s = (err, s1)" by fastforce
  have l: "inv s1" "\<And>b. plain_addr b \<Longrightarrow> fs_Load F s1 b = (if err = None \<and> b = a then Some d else fs_Load F s b)"
    using store_law [OF s(2) k(2) assms(3) _ st] s(3) k(3) by auto
  define s2 where "s2 = fs_SaveMetadataAsync F (store_metadata st1) s1"
  have s2: "inv s2" "fs_Load F s2 = fs_Load F s1" using async_law [OF l(1)] by (auto simp: s2_def)
  define st' where "st' = st1\<lparr>st_storage := Some s2\<rparr>"
  have c: "Store_Create F d v6 st = (Inr a, st')" by (simp add: Store_Create_def s al st st'_def s2_def)
  have same: "range_of w st' = range_of w st" "current_of w st' = current_of w st1" for w
    using k(7) [of w] by (cases w; simp add: st'_def range_of_def current_of_def)+
  have "ranges_ok st'" using k(4) unfolding ranges_ok_def same k(7) .
  moreover have "b \<in> pool (range_of (\<not> Addr_Is4 b) st')" if "plain_addr b" "fs_Load F s2 b = Some e" for b e
    using that l(2) [OF that(1)] s2(2) p k(1,3) same(1) by (auto split: if_splits)
  ultimately have "ready st'" using s2(1) by (auto simp: ready_def st'_def)
  moreover have "table st' b = (if err = None \<and> b = a then Some d else table st b)" if "plain_addr b" for b
    using l(2) [OF that] by (simp add: table_def st'_def s2 s(1))
  ultimately show ?thesis
    by (intro that [OF c, of err]) (use k same s(1) st in auto)
qed

lemma create_unknown_range:
  assumes "ready st" and "\<not> knows st d v6" and "\<not> Prefix_IsValid (range_of v6 st)"
  shows "\<exists>err. Store_Create F d v6 st = (Inl err, st)"
  using assms by (auto simp: ready_def knows_def Store_Create_def allocate_eq ranges_ok_def)

lemma create_ready:
  assumes "ready st" and "d \<noteq> []"
  shows "ready (snd (Store_Create F d v6 st))" and "range_of w (snd (Store_Create F d v6 st)) = range_of w st"
proof -
  have "ready (snd (Store_Create F d v6 st)) \<and> range_of w (snd (Store_Create F d v6 st)) = range_of w st"
  proof (cases "knows st d v6")
    case True
    obtain a where "Store_Create F d v6 st = (Inr a, st)" by (rule create_known [OF assms(1) True])
    then show ?thesis using assms by simp
  next
    case False
    show ?thesis
    proof (cases "Prefix_IsValid (range_of v6 st)")
      case True
      show ?thesis by (rule create_new [OF assms(1) False assms(2) True]) simp
    next
      case no: False
      then show ?thesis using create_unknown_range [OF assms(1) False no] assms by auto
    qed
  qed
  then show "ready (snd (Store_Create F d v6 st))" and "range_of w (snd (Store_Create F d v6 st)) = range_of w st" by auto
qed

lemma creates_ready:
  "ready st \<Longrightarrow> \<forall>(d, v6) \<in> set ops. d \<noteq> [] \<Longrightarrow> ready (creates F ops st) \<and> range_of w (creates F ops st) = range_of w st"
proof (induction ops arbitrary: st)
  case (Cons op ops)
  then show ?case using create_ready(1) [of st "fst op" "snd op"] create_ready(2) [of st "fst op" w "snd op"] by (cases op) auto
qed simp

text \<open>An address keeps its domain until the allocation has gone round: \<open>k\<close> counts the addresses of its family that were
  allocated since.\<close>

definition holds :: "bool \<Rightarrow> addr \<Rightarrow> string \<Rightarrow> nat \<Rightarrow> 's Store \<Rightarrow> bool" where
  "holds v6 a d k st \<longleftrightarrow> ready st \<and> table st a = Some d \<and> plain_addr a \<and> Addr_Is4 a = (\<not> v6) \<and> a \<in> pool (range_of v6 st) \<and>
     addr_value (current_of v6 st) = (step_value (range_of v6 st) ^^ k) (addr_value a)"

lemma holds_create:
  assumes "holds v6 a d k st" and "e \<noteq> []" and "k + (if w = v6 then 1 else 0) < pool_size (range_of v6 st)"
  obtains j where "holds v6 a d j (snd (Store_Create F e w st))" and "j \<le> k + (if w = v6 then 1 else 0)"
proof (cases "knows st e w \<or> \<not> Prefix_IsValid (range_of w st)")
  case True
  have "ready st" using assms(1) by (simp add: holds_def)
  then have "snd (Store_Create F e w st) = st"
    using True create_known [of st e w] create_unknown_range [of st e w] by (metis snd_conv)
  then show ?thesis using that [of k] assms(1) by simp
next
  case False
  have r: "ready st" and p: "plain_addr a" and apool: "a \<in> pool (range_of v6 st)" using assms(1) by (simp_all add: holds_def)
  have w: "\<not> knows st e w" "Prefix_IsValid (range_of w st)" using False by simp_all
  obtain b st' err where c: "Store_Create F e w st = (Inr b, st')" "ready st'" "b \<in> pool (range_of w st)"
    "addr_value b = step_value (range_of w st) (addr_value (current_of w st))" "current_of w st' = b"
    "\<forall>u. range_of u st' = range_of u st" "\<forall>u. u \<noteq> w \<longrightarrow> current_of u st' = current_of u st" "plain_addr b" "Addr_Is4 b = (\<not> w)"
    "\<forall>x. plain_addr x \<longrightarrow> table st' x = (if err = None \<and> x = b then Some e else table st x)"
    "\<forall>s. st_storage st = Some s \<longrightarrow> err = fst (fs_Store F b e s)"
    by (rule create_new [OF r w(1) assms(2) w(2)])
  have t: "table st' a = Some d" if "b \<noteq> a" using c(10) p that assms(1) by (simp add: holds_def)
  show ?thesis
  proof (cases "w = v6")
    case True
    have "Prefix_IsValid (range_of v6 st)" using False True by simp
    moreover have "range_ok v6 (range_of v6 st)" using r by (simp add: ready_def ranges_ok_def)
    ultimately obtain n where n: "plain_prefix (range_of v6 st)" "pf_bits (range_of v6 st) = Some n" by (elim range_okD)
    have v: "addr_value b = (step_value (range_of v6 st) ^^ Suc k) (addr_value a)" using c(4) True assms(1) by (simp add: holds_def)
    have "b \<noteq> a" using v step_value_distinct [of "range_of v6 st" "addr_value a" "Suc k"] pool_bounds [OF n apool] assms(3) True by auto
    then have "holds v6 a d (Suc k) st'" using t c v True assms(1) by (simp add: holds_def)
    then show ?thesis using that [of "Suc k"] c(1) True by simp
  next
    case other: False
    then have "b \<noteq> a" using c(9) assms(1) by (auto simp: holds_def)
    then have "holds v6 a d k st'" using t c other assms(1) by (simp add: holds_def)
    then show ?thesis using that [of k] c(1) by simp
  qed
qed

lemma holds_creates:
  assumes "holds v6 a d k st" and "\<forall>(e, w) \<in> set ops. e \<noteq> []"
    and "k + length (filter (\<lambda>(e, w). w = v6) ops) < pool_size (range_of v6 st)"
  shows "\<exists>j. holds v6 a d j (creates F ops st)"
  using assms
proof (induction ops arbitrary: k st)
  case (Cons op ops)
  obtain e w where op: "op = (e, w)" by fastforce
  have e: "e \<noteq> []" and l: "k + (if w = v6 then 1 else 0) < pool_size (range_of v6 st)" using Cons.prems op by (auto split: if_splits)
  obtain j where j: "holds v6 a d j (snd (Store_Create F e w st))" "j \<le> k + (if w = v6 then 1 else 0)"
    by (rule holds_create [OF Cons.prems(1) e l])
  have "range_of v6 (snd (Store_Create F e w st)) = range_of v6 st" using create_ready(2) [of st e] Cons.prems(1) e by (simp add: holds_def)
  then show ?case using Cons.IH [OF j(1)] Cons.prems(2,3) j(2) op by (auto split: if_splits)
qed auto

lemma holds_answers:
  assumes "holds v6 a d k st"
  shows "Store_Lookup F st a = Inr (Some d)" and "Store_Create F d v6 st = (Inr a, st)"
proof -
  obtain s where s: "st_storage st = Some s" "inv s" "fs_Load F s a = Some d" "plain_addr a" "Addr_Is4 a = (\<not> v6)"
    using assms by (auto simp: holds_def ready_def table_def)
  then show "Store_Lookup F st a = Inr (Some d)" by (simp add: Store_Lookup_def)
  have "fs_LoadDomain F s d v6 = Some a" using domain_iff [OF s(2,4)] s(3,5) by blast
  then show "Store_Create F d v6 st = (Inr a, st)" using s(1) by (simp add: Store_Create_def)
qed

lemma created_holds:
  assumes "ready st" and "\<not> knows st d v6" and "d \<noteq> []" and "Prefix_IsValid (range_of v6 st)"
    and "\<And>a s. st_storage st = Some s \<Longrightarrow> plain_addr a \<Longrightarrow> Addr_Is4 a = (\<not> v6) \<Longrightarrow> fst (fs_Store F a d s) = None"
  shows "\<exists>a st'. Store_Create F d v6 st = (Inr a, st') \<and> holds v6 a d 0 st' \<and> (\<forall>w. range_of w st' = range_of w st)"
proof -
  obtain a st' err where c: "Store_Create F d v6 st = (Inr a, st')" "ready st'" "a \<in> pool (range_of v6 st)"
    "addr_value a = step_value (range_of v6 st) (addr_value (current_of v6 st))" "current_of v6 st' = a"
    "\<forall>w. range_of w st' = range_of w st" "\<forall>w. w \<noteq> v6 \<longrightarrow> current_of w st' = current_of w st" "plain_addr a" "Addr_Is4 a = (\<not> v6)"
    "\<forall>b. plain_addr b \<longrightarrow> table st' b = (if err = None \<and> b = a then Some d else table st b)"
    "\<forall>s. st_storage st = Some s \<longrightarrow> err = fst (fs_Store F a d s)"
    by (rule create_new [OF assms(1-4)])
  have "err = None" using c(8,9,11) assms(1,5) by (auto simp: ready_def)
  then have "holds v6 a d 0 st'" using c by (simp add: holds_def)
  then show ?thesis using c(1,6) by blast
qed

lemma known_holds:
  assumes "ready st" and "knows st d v6"
  shows "\<exists>a. Store_Create F d v6 st = (Inr a, st) \<and> Store_Lookup F st a = Inr (Some d) \<and> a \<in> pool (range_of v6 st) \<and> plain_addr a \<and> Addr_Is4 a = (\<not> v6)"
proof -
  obtain a where a: "Store_Create F d v6 st = (Inr a, st)" "table st a = Some d" "a \<in> pool (range_of v6 st)" "plain_addr a" "Addr_Is4 a = (\<not> v6)"
    by (rule create_known [OF assms])
  moreover have "Store_Lookup F st a = Inr (Some d)" using a(2) assms(1) by (auto simp: Store_Lookup_def table_def ready_def)
  ultimately show ?thesis by blast
qed

end

section \<open>Memory\<close>

definition memory_inv :: "MemoryStorage \<Rightarrow> bool" where
  "memory_inv s \<longleftrightarrow>
     (\<forall>d a. domainCache4 s d = Some a \<longleftrightarrow> addressCache s a = Some d \<and> Addr_Is4 a) \<and>
     (\<forall>d a. domainCache6 s d = Some a \<longleftrightarrow> addressCache s a = Some d \<and> \<not> Addr_Is4 a) \<and>
     (\<forall>a d. addressCache s a = Some d \<longrightarrow> plain_addr a)"

lemma memory_store:
  assumes "memory_inv s" and "plain_addr a" and "Memory_FakeIPLoadDomain s d (\<not> Addr_Is4 a) = None"
  shows "memory_inv (snd (Memory_FakeIPStore a d s))" and "addressCache (snd (Memory_FakeIPStore a d s)) = (addressCache s)(a \<mapsto> d)"
    and "fst (Memory_FakeIPStore a d s) = None"
proof -
  show "addressCache (snd (Memory_FakeIPStore a d s)) = (addressCache s)(a \<mapsto> d)" "fst (Memory_FakeIPStore a d s) = None"
    by (simp_all add: Memory_FakeIPStore_def Let_def split: option.split)
  have u: "x = y" if "addressCache s x = Some e" "addressCache s y = Some e" "Addr_Is4 x = Addr_Is4 y" for x y e
    using assms(1) that unfolding memory_inv_def by (metis option.inject)
  have n: "Addr_Is4 x \<noteq> Addr_Is4 a" if "addressCache s x = Some d" for x
    using assms(1,3) that unfolding memory_inv_def Memory_FakeIPLoadDomain_def by (metis option.distinct(1))
  show "memory_inv (snd (Memory_FakeIPStore a d s))" using assms(1,2)
    by (cases "Addr_Is4 a"; cases "addressCache s a")
      (auto simp: memory_inv_def Memory_FakeIPStore_def Let_def dest: u n)
qed

interpretation mem: fakeip_storage Memory_ops memory_inv
proof
  fix s :: MemoryStorage and a b :: addr and d :: string and v6 :: bool
  assume s: "memory_inv s"
  show "plain_addr a \<Longrightarrow> fs_LoadDomain Memory_ops s d v6 = Some a \<longleftrightarrow> fs_Load Memory_ops s a = Some d \<and> Addr_Is4 a = (\<not> v6)"
    using s by (cases v6) (auto simp: memory_inv_def Memory_ops_def Memory_FakeIPLoadDomain_def)
  show "fs_LoadDomain Memory_ops s d v6 = Some a \<Longrightarrow> plain_addr a"
    using s by (cases v6) (auto simp: memory_inv_def Memory_ops_def Memory_FakeIPLoadDomain_def)
next
  fix s s' :: MemoryStorage and a :: addr and d :: string and err
  assume "memory_inv s" "plain_addr a" "fs_LoadDomain Memory_ops s d (\<not> Addr_Is4 a) = None" "fs_Store Memory_ops a d s = (err, s')"
  then show "memory_inv s' \<and> (\<forall>b. plain_addr b \<longrightarrow> fs_Load Memory_ops s' b = (if err = None \<and> b = a then Some d else fs_Load Memory_ops s b))"
    using memory_store [of s a d] by (simp add: Memory_ops_def)
qed (simp_all add: Memory_ops_def)

lemma memory_ops_simps:
  "fs_Load Memory_ops = addressCache" "fs_LoadDomain Memory_ops = Memory_FakeIPLoadDomain" "fs_Store Memory_ops = Memory_FakeIPStore"
  "fs_SaveMetadataAsync Memory_ops m s = s"
  by (simp_all add: Memory_ops_def)

lemma memory_Start:
  assumes "range_ok False r4" and "range_ok True r6"
  shows "mem.ready (Store_Start Memory_ops NewMemoryStorage (NewStore r4 r6))"
    and "mem.table (Store_Start Memory_ops NewMemoryStorage (NewStore r4 r6)) = Map.empty"
    and "range_of v6 (Store_Start Memory_ops NewMemoryStorage (NewStore r4 r6)) = (if v6 then r6 else r4)"
proof -
  define st where "st = Store_Start Memory_ops NewMemoryStorage (NewStore r4 r6)"
  have r: "range_of v6 st = (if v6 then r6 else r4)" for v6
    by (simp add: st_def Store_Start_def fresh_start_def Memory_ops_def NewStore_def range_of_def Let_def)
  have c: "current_of v6 st = (if Prefix_IsValid (range_of v6 st) then first_address (range_of v6 st) else AddrInvalid)" for v6
    by (simp add: st_def Store_Start_def fresh_start_def Memory_ops_def NewStore_def current_of_def range_of_def Let_def)
  have s: "st_storage st = Some NewMemoryStorage"
    by (simp add: st_def Store_Start_def fresh_start_def Memory_ops_def Memory_FakeIPReset_def Let_def)
  have "range_ok v6 (range_of v6 st)" for v6 using assms r by simp
  moreover have "first_address (range_of v6 st) \<in> pool (range_of v6 st)" if "Prefix_IsValid (range_of v6 st)" for v6
    using first_address_pool(1) range_okD [OF calculation that] by metis
  ultimately have "ranges_ok st" using c by (simp add: ranges_ok_def)
  then show "mem.ready st"
    by (simp add: mem.ready_def s memory_inv_def NewMemoryStorage_def memory_ops_simps)
  show "mem.table st = Map.empty" by (simp add: mem.table_def s NewMemoryStorage_def memory_ops_simps fun_eq_iff)
  show "range_of v6 st = (if v6 then r6 else r4)" by (rule r)
qed

end
