(* ===== verification/Cache_File.thy ===== *)
theory Cache_File
  imports Fake_IP_Contract Rule_Sets
begin

text \<open>
  The cache file (\<open>experimental/cachefile\<close>): modes, selections, rule-sets, rejected DNS responses and fake addresses
  in the buckets of a \<open>bbolt\<close> database. The database is a parameter; \<open>bolt_ok\<close> is what its documentation says of
  buckets and transactions.
\<close>

section \<open>The database\<close>

text \<open>
  A bucket is named by its path. \<open>bb_view\<close> is what \<open>Bucket\<close> and \<open>Get\<close> show; \<open>bb_names\<close> are the buckets inside a
  bucket (or, for the empty path, of the file) in the order of \<open>ForEach\<close>. The other operations run inside a
  transaction that \<open>bb_Batch\<close> or \<open>bb_Update\<close> opens. \<open>bb_WriteBytes\<close> and the like are the encodings of package
  \<open>varbin\<close>, \<open>bb_AddrFromIP\<close> is \<open>metadata.AddrFromIP\<close> of \<open>sing\<close>.
\<close>

type_synonym bucket_map = "bytes \<Rightarrow> bytes option"

record 'db bolt =
  bb_view :: "'db \<Rightarrow> bytes list \<Rightarrow> bucket_map option"
  bb_names :: "'db \<Rightarrow> bytes list \<Rightarrow> bytes list"
  bb_Create :: "bytes list \<Rightarrow> 'db \<Rightarrow> 'db result"
  bb_Put :: "bytes list \<Rightarrow> bytes \<Rightarrow> bytes \<Rightarrow> 'db \<Rightarrow> 'db result"
  bb_Delete :: "bytes list \<Rightarrow> bytes \<Rightarrow> 'db \<Rightarrow> 'db result"
  bb_DeleteBucket :: "bytes list \<Rightarrow> 'db \<Rightarrow> 'db result"
  bb_Batch :: "('db \<Rightarrow> 'db result) \<Rightarrow> 'db \<Rightarrow> error option \<times> 'db"
  bb_Update :: "('db \<Rightarrow> 'db result) \<Rightarrow> 'db \<Rightarrow> error option \<times> 'db"
  bb_WriteBytes :: "bytes \<Rightarrow> bytes"
  bb_ReadBytes :: "bytes reader"
  bb_WriteString :: "string \<Rightarrow> bytes"
  bb_ReadString :: "string reader"
  bb_AddrFromIP :: "bytes \<Rightarrow> addr"

definition transaction_ok :: "(('db \<Rightarrow> 'db result) \<Rightarrow> 'db \<Rightarrow> error option \<times> 'db) \<Rightarrow> bool" where
  "transaction_ok run \<longleftrightarrow> (\<forall>f db.
     (\<forall>e. f db = Inl e \<longrightarrow> run f db = (Some e, db)) \<and>
     (\<forall>db'. f db = Inr db' \<longrightarrow> run f db = (None, db') \<or> (\<exists>e. run f db = (Some e, db))))"

definition bolt_ok :: "'db bolt \<Rightarrow> bool" where
  "bolt_ok B \<longleftrightarrow> transaction_ok (bb_Batch B) \<and> transaction_ok (bb_Update B) \<and>
     (\<forall>p x db. p \<noteq> [] \<longrightarrow> bb_view B db p = None \<longrightarrow> bb_view B db (p @ [x]) = None) \<and>
     (\<forall>p db db'. bb_Create B p db = Inr db' \<longrightarrow>
        bb_view B db' = (bb_view B db)(p := Some (case bb_view B db p of Some b \<Rightarrow> b | None \<Rightarrow> Map.empty))) \<and>
     (\<forall>p k v db db'. bb_Put B p k v db = Inr db' \<longrightarrow>
        (\<exists>b. bb_view B db p = Some b \<and> bb_view B db' = (bb_view B db)(p \<mapsto> b(k \<mapsto> v)))) \<and>
     (\<forall>p k db db'. bb_Delete B p k db = Inr db' \<longrightarrow>
        (\<exists>b. bb_view B db p = Some b \<and> bb_view B db' = (bb_view B db)(p \<mapsto> b(k := None)))) \<and>
     (\<forall>p db. bb_view B db p = None \<longrightarrow> (\<exists>e. bb_DeleteBucket B p db = Inl e)) \<and>
     (\<forall>p db db'. bb_DeleteBucket B p db = Inr db' \<longrightarrow>
        bb_view B db p \<noteq> None \<and> bb_view B db' = (\<lambda>q. if prefix p q then None else bb_view B db q)) \<and>
     (\<forall>x rest. bb_ReadBytes B (bb_WriteBytes B x @ rest) = Inr (x, rest)) \<and>
     (\<forall>x rest. bb_ReadString B (bb_WriteString B x @ rest) = Inr (x, rest)) \<and>
     bb_AddrFromIP B [] = AddrInvalid \<and> (\<forall>a. plain_addr a \<longrightarrow> bb_AddrFromIP B (AsSlice a) = a)"

section \<open>The cache file\<close>

definition bucketSelected :: bytes where "bucketSelected = str_bytes ''selected''"
definition bucketExpand :: bytes where "bucketExpand = str_bytes ''group_expand''"
definition bucketMode :: bytes where "bucketMode = str_bytes ''clash_mode''"
definition bucketRuleSet :: bytes where "bucketRuleSet = str_bytes ''rule_set''"
definition bucketRDRC :: bytes where "bucketRDRC = str_bytes ''rdrc2''"
definition cacheIDDefault :: bytes where "cacheIDDefault = str_bytes ''default''"
definition bucketFakeIP :: bytes where "bucketFakeIP = str_bytes ''fakeip_address''"
definition bucketFakeIPDomain4 :: bytes where "bucketFakeIPDomain4 = str_bytes ''fakeip_domain4''"
definition bucketFakeIPDomain6 :: bytes where "bucketFakeIPDomain6 = str_bytes ''fakeip_domain6''"
definition keyMetadata :: bytes where "keyMetadata = str_bytes ''fakeip_metadata''"

definition bucketNameList :: "string list" where
  "bucketNameList = [''selected'', ''group_expand'', ''clash_mode'', ''rule_set'', ''rdrc2'']"

record CacheFileOptions =
  cfo_Enabled :: bool
  cfo_Path :: string
  cfo_CacheID :: string
  cfo_StoreFakeIP :: bool
  cfo_StoreRDRC :: bool
  cfo_StoreWARPConfig :: bool
  cfo_RDRCTimeout :: duration

text \<open>
  The settings are fixed by \<open>New\<close> (\<open>BasePath\<close> is the file manager's); the database is there after \<open>Start\<close>. \<open>saveMetadataTimer\<close> is the metadata that the
  function of the timer captured, \<open>saveRDRC\<close> the keys of the map of the same name.
\<close>

record cache_settings =
  cf_path :: string
  cf_cacheID :: "bytes option"
  cf_storeFakeIP :: bool
  cf_storeRDRC :: bool
  cf_storeWARPConfig :: bool
  cf_rdrcTimeout :: duration

record 'db CacheFile = cache_settings +
  cf_DB :: 'db
  saveMetadataTimer :: "FakeIPMetadata option"
  saveDomain :: "addr \<Rightarrow> string option"
  saveAddress4 :: "string \<Rightarrow> addr option"
  saveAddress6 :: "string \<Rightarrow> addr option"
  saveRDRC :: "(string \<times> string \<times> qtype) \<Rightarrow> bool option"

definition CacheFile_New :: "(string \<Rightarrow> string) \<Rightarrow> CacheFileOptions \<Rightarrow> cache_settings" where
  "CacheFile_New BasePath options =
     \<lparr>cf_path = BasePath (if cfo_Path options \<noteq> [] then cfo_Path options else ''cache.db''),
      cf_cacheID = (if cfo_CacheID options \<noteq> [] then Some (0 # str_bytes (cfo_CacheID options)) else None),
      cf_storeFakeIP = cfo_StoreFakeIP options, cf_storeRDRC = cfo_StoreRDRC options,
      cf_storeWARPConfig = cfo_StoreWARPConfig options,
      cf_rdrcTimeout = (if cfo_StoreRDRC options
        then (if cfo_RDRCTimeout options > 0 then cfo_RDRCTimeout options else hours (7 * 24)) else 0)\<rparr>"

subsection \<open>Opening\<close>

text \<open>
  Each of the ten attempts opens the database, fails to lock it, finds it broken (the file is removed, or that fails)
  or fails otherwise.
\<close>

datatype 'db attempt = Opened 'db | LockTimeout error | Broken error bool | OpenFails error

fun open_loop :: "'db attempt list \<Rightarrow> error \<Rightarrow> 'db result" where
  "open_loop [] err = Inl err"
| "open_loop (Opened db # _) _ = Inr db"
| "open_loop (LockTimeout err # rest) _ = open_loop rest err"
| "open_loop (Broken err removed # rest) _ = (if removed then open_loop rest err else Inl err)"
| "open_loop (OpenFails err # rest) _ = open_loop rest err"

definition delete_ignoring :: "'db bolt \<Rightarrow> bytes list \<Rightarrow> 'db \<Rightarrow> 'db" where
  "delete_ignoring B p db = (case bb_DeleteBucket B p db of Inl _ \<Rightarrow> db | Inr db' \<Rightarrow> db')"

text \<open>The loop that removes buckets with other names. Inside the bucket of a cache ID it asks for a bucket with the name
  of the outer one.\<close>

fun clean_inner :: "'db bolt \<Rightarrow> bytes \<Rightarrow> bytes list \<Rightarrow> 'db \<Rightarrow> 'db" where
  "clean_inner B name [] db = db"
| "clean_inner B name (k # ks) db =
     clean_inner B name ks (if bytes_str k \<notin> set bucketNameList then delete_ignoring B [name, name] db else db)"

fun clean_outer :: "'db bolt \<Rightarrow> bytes list \<Rightarrow> 'db \<Rightarrow> 'db result" where
  "clean_outer B [] db = Inr db"
| "clean_outer B (name # names) db =
     (case name of
        [] \<Rightarrow> Inl (Panic [S ''index out of range''])
      | b # _ \<Rightarrow>
          clean_outer B names
            (if b = 0 then clean_inner B name (bb_names B db [name]) db
             else if \<not> (bytes_str name \<in> set bucketNameList \<or> HasPrefix (bytes_str name) ''fakeip_'')
             then delete_ignoring B [name] db else db))"

definition CacheFile_Start ::
  "'db bolt \<Rightarrow> 'db attempt list \<Rightarrow> error option \<Rightarrow> cache_settings \<Rightarrow> 'db CacheFile result" where
  "CacheFile_Start B attempts chown c =
     bind_result (open_loop (take 10 attempts) nil_storage) (\<lambda>db.
       case chown of
         Some err \<Rightarrow> Inl (E_Cause err [S ''platform chown''])
       | None \<Rightarrow>
           (case bb_Batch B (\<lambda>db. clean_outer B (bb_names B db []) db) db of
              (Some err, _) \<Rightarrow> Inl err
            | (None, db) \<Rightarrow>
                Inr (cache_settings.extend c \<lparr>cf_DB = db, saveMetadataTimer = None, saveDomain = Map.empty,
                  saveAddress4 = Map.empty, saveAddress6 = Map.empty, saveRDRC = Map.empty\<rparr>)))"

subsection \<open>Buckets\<close>

definition bucket :: "'db bolt \<Rightarrow> 'db CacheFile \<Rightarrow> 'db \<Rightarrow> bytes \<Rightarrow> bucket_map option" where
  "bucket B c db key =
     (case cf_cacheID c of
        None \<Rightarrow> bb_view B db [key]
      | Some cacheID \<Rightarrow> (case bb_view B db [cacheID] of None \<Rightarrow> None | Some _ \<Rightarrow> bb_view B db [cacheID, key]))"

definition bucket_path :: "'db CacheFile \<Rightarrow> bytes \<Rightarrow> bytes list" where
  "bucket_path c key = (case cf_cacheID c of None \<Rightarrow> [key] | Some cacheID \<Rightarrow> [cacheID, key])"

definition createBucket :: "'db bolt \<Rightarrow> 'db CacheFile \<Rightarrow> bytes \<Rightarrow> 'db \<Rightarrow> 'db result" where
  "createBucket B c key db =
     (case cf_cacheID c of
        None \<Rightarrow> bb_Create B [key] db
      | Some cacheID \<Rightarrow> bind_result (bb_Create B [cacheID] db) (bb_Create B [cacheID, key]))"

text \<open>A write transaction on the database of the cache file.\<close>

definition batch :: "'db bolt \<Rightarrow> ('db \<Rightarrow> 'db result) \<Rightarrow> 'db CacheFile \<Rightarrow> error option \<times> 'db CacheFile" where
  "batch B f c = (case bb_Batch B f (cf_DB c) of (err, db) \<Rightarrow> (err, c\<lparr>cf_DB := db\<rparr>))"

subsection \<open>Modes, selections and expanded groups\<close>

definition mode_key :: "'db CacheFile \<Rightarrow> bytes" where
  "mode_key c = (case cf_cacheID c of Some cacheID \<Rightarrow> if length cacheID > 0 then cacheID else cacheIDDefault | None \<Rightarrow> cacheIDDefault)"

definition LoadMode :: "'db bolt \<Rightarrow> 'db CacheFile \<Rightarrow> string" where
  "LoadMode B c =
     (case bb_view B (cf_DB c) [bucketMode] of
        None \<Rightarrow> []
      | Some b \<Rightarrow> (case b (mode_key c) of None \<Rightarrow> [] | Some modeBytes \<Rightarrow> bytes_str modeBytes))"

definition StoreMode :: "'db bolt \<Rightarrow> string \<Rightarrow> 'db CacheFile \<Rightarrow> error option \<times> 'db CacheFile" where
  "StoreMode B mode c =
     batch B (\<lambda>db. bind_result (bb_Create B [bucketMode] db) (bb_Put B [bucketMode] (mode_key c) (str_bytes mode))) c"

definition CacheFile_LoadSelected :: "'db bolt \<Rightarrow> 'db CacheFile \<Rightarrow> string \<Rightarrow> string" where
  "CacheFile_LoadSelected B c tag =
     (case bucket B c (cf_DB c) bucketSelected of
        None \<Rightarrow> []
      | Some b \<Rightarrow> (case b (str_bytes tag) of
                    None \<Rightarrow> []
                  | Some selectedBytes \<Rightarrow> if length selectedBytes > 0 then bytes_str selectedBytes else []))"

definition CacheFile_StoreSelected :: "'db bolt \<Rightarrow> string \<Rightarrow> string \<Rightarrow> 'db CacheFile \<Rightarrow> error option \<times> 'db CacheFile" where
  "CacheFile_StoreSelected B tag selected c =
     batch B (\<lambda>db. bind_result (createBucket B c bucketSelected db)
       (bb_Put B (bucket_path c bucketSelected) (str_bytes tag) (str_bytes selected))) c"

definition LoadGroupExpand :: "'db bolt \<Rightarrow> 'db CacheFile \<Rightarrow> string \<Rightarrow> bool option" where
  "LoadGroupExpand B c tag =
     (case bucket B c (cf_DB c) bucketExpand of
        None \<Rightarrow> None
      | Some b \<Rightarrow> (case b (str_bytes tag) of Some [x] \<Rightarrow> Some (x = 1) | _ \<Rightarrow> None))"

definition StoreGroupExpand :: "'db bolt \<Rightarrow> string \<Rightarrow> bool \<Rightarrow> 'db CacheFile \<Rightarrow> error option \<times> 'db CacheFile" where
  "StoreGroupExpand B tag isExpand c =
     batch B (\<lambda>db. bind_result (createBucket B c bucketExpand db)
       (bb_Put B (bucket_path c bucketExpand) (str_bytes tag) (if isExpand then [1] else [0]))) c"

subsection \<open>Saved rule-sets\<close>

text \<open>\<open>SavedBinary\<close> of \<open>adapter/experimental.go\<close>: the time is written as seconds since 1970, an \<open>int64\<close>. Times are
  nanoseconds since the zero \<open>time.Time\<close> in the year 1.\<close>

definition time_Unix :: "time \<Rightarrow> int" where "time_Unix t = t div 1000000000 - 62135596800"
definition Unix_time :: "int \<Rightarrow> time" where "Unix_time seconds = (seconds + 62135596800) * 1000000000"

definition put_int64 :: "int \<Rightarrow> bytes" where "put_int64 n = be_bytes 8 (unat (word_of_int n :: 64 word))"
definition get_int64 :: "bytes \<Rightarrow> int" where "get_int64 bs = sint (word_of_nat (be_value bs) :: 64 word)"

definition Saved_MarshalBinary :: "'db bolt \<Rightarrow> SavedBinary \<Rightarrow> bytes" where
  "Saved_MarshalBinary B s =
     [1] @ bb_WriteBytes B (sb_Content s) @ put_int64 (time_Unix (sb_LastUpdated s)) @ bb_WriteString B (sb_LastEtag s)"

definition Saved_UnmarshalBinary :: "'db bolt \<Rightarrow> bytes \<Rightarrow> SavedBinary result" where
  "Saved_UnmarshalBinary B data =
     bind_result (ReadFull 1 data) (\<lambda>(version, data).
       bind_result (bb_ReadBytes B data) (\<lambda>(content, data).
         bind_result (ReadFull 8 data) (\<lambda>(lastUpdated, data).
           bind_result (bb_ReadString B data) (\<lambda>(lastEtag, data).
             Inr \<lparr>sb_Content = content, sb_LastUpdated = Unix_time (get_int64 lastUpdated), sb_LastEtag = lastEtag\<rparr>))))"

definition CacheFile_LoadRuleSet :: "'db bolt \<Rightarrow> 'db CacheFile \<Rightarrow> string \<Rightarrow> SavedBinary option" where
  "CacheFile_LoadRuleSet B c tag =
     (case bucket B c (cf_DB c) bucketRuleSet of
        None \<Rightarrow> None
      | Some b \<Rightarrow> (case b (str_bytes tag) of
                    None \<Rightarrow> None
                  | Some setBinary \<Rightarrow>
                      if length setBinary = 0 then None
                      else (case Saved_UnmarshalBinary B setBinary of Inl _ \<Rightarrow> None | Inr savedSet \<Rightarrow> Some savedSet)))"

definition CacheFile_SaveRuleSet :: "'db bolt \<Rightarrow> string \<Rightarrow> SavedBinary \<Rightarrow> 'db CacheFile \<Rightarrow> error option \<times> 'db CacheFile" where
  "CacheFile_SaveRuleSet B tag s c =
     batch B (\<lambda>db. bind_result (createBucket B c bucketRuleSet db)
       (bb_Put B (bucket_path c bucketRuleSet) (str_bytes tag) (Saved_MarshalBinary B s))) c"

text \<open>\<open>LoadBinary\<close> and \<open>SaveBinary\<close> have the same bodies and the same bucket.\<close>

definition CacheFile_LoadBinary where "CacheFile_LoadBinary = CacheFile_LoadRuleSet"
definition CacheFile_SaveBinary where "CacheFile_SaveBinary = CacheFile_SaveRuleSet"

subsection \<open>Rejected DNS responses\<close>

definition rdrc_key :: "string \<Rightarrow> qtype \<Rightarrow> bytes" where
  "rdrc_key qName qType = be_bytes 2 (unat qType) @ str_bytes qName"

definition rdrc_bucket :: "'db bolt \<Rightarrow> 'db CacheFile \<Rightarrow> 'db \<Rightarrow> string \<Rightarrow> bucket_map option" where
  "rdrc_bucket B c db transportName =
     (case bucket B c db bucketRDRC of
        None \<Rightarrow> None
      | Some _ \<Rightarrow> bb_view B db (bucket_path c bucketRDRC @ [str_bytes transportName]))"

text \<open>\<open>LoadRDRC\<close>: an expired entry is deleted. A shorter content makes \<open>Uint64\<close> panic.\<close>

definition LoadRDRC :: "'db bolt \<Rightarrow> time \<Rightarrow> string \<Rightarrow> string \<Rightarrow> qtype \<Rightarrow> 'db CacheFile \<Rightarrow> (bool \<times> 'db CacheFile) result" where
  "LoadRDRC B now transportName qName qType c =
     (case saveRDRC c (transportName, qName, qType) of
        Some rejected \<Rightarrow> Inr (rejected, c)
      | None \<Rightarrow>
          (case rdrc_bucket B c (cf_DB c) transportName of
             None \<Rightarrow> Inr (False, c)
           | Some b \<Rightarrow>
               (case b (rdrc_key qName qType) of
                  None \<Rightarrow> Inr (False, c)
                | Some content \<Rightarrow>
                    if length content < 8 then Inl (Panic [S ''index out of range''])
                    else if now > Unix_time (get_int64 (take 8 content))
                    then Inr (False, c\<lparr>cf_DB := snd (bb_Update B (\<lambda>db.
                           case rdrc_bucket B c db transportName of
                             None \<Rightarrow> Inr db
                           | Some _ \<Rightarrow> bb_Delete B (bucket_path c bucketRDRC @ [str_bytes transportName]) (rdrc_key qName qType) db) (cf_DB c))\<rparr>)
                    else Inr (True, c))))"

definition SaveRDRC :: "'db bolt \<Rightarrow> time \<Rightarrow> string \<Rightarrow> string \<Rightarrow> qtype \<Rightarrow> 'db CacheFile \<Rightarrow> error option \<times> 'db CacheFile" where
  "SaveRDRC B now transportName qName qType c =
     batch B (\<lambda>db. bind_result (createBucket B c bucketRDRC db) (\<lambda>db.
       bind_result (bb_Create B (bucket_path c bucketRDRC @ [str_bytes transportName]) db)
         (bb_Put B (bucket_path c bucketRDRC @ [str_bytes transportName]) (rdrc_key qName qType)
           (put_int64 (time_Unix (now + cf_rdrcTimeout c)))))) c"

text \<open>\<open>SaveRDRCAsync\<close>: what runs at once, and the goroutine, which runs later.\<close>

definition SaveRDRCAsync :: "string \<Rightarrow> string \<Rightarrow> qtype \<Rightarrow> 'db CacheFile \<Rightarrow> 'db CacheFile" where
  "SaveRDRCAsync transportName qName qType c = c\<lparr>saveRDRC := (saveRDRC c)((transportName, qName, qType) \<mapsto> True)\<rparr>"

definition SaveRDRC_finish :: "'db bolt \<Rightarrow> time \<Rightarrow> string \<Rightarrow> string \<Rightarrow> qtype \<Rightarrow> 'db CacheFile \<Rightarrow> 'db CacheFile" where
  "SaveRDRC_finish B now transportName qName qType c =
     (let c = snd (SaveRDRC B now transportName qName qType c) in
      c\<lparr>saveRDRC := (saveRDRC c)((transportName, qName, qType) := None)\<rparr>)"

subsection \<open>Fake addresses\<close>

definition domain_bucket :: "bool \<Rightarrow> bytes list" where
  "domain_bucket isIPv6 = [if isIPv6 then bucketFakeIPDomain6 else bucketFakeIPDomain4]"

text \<open>\<open>FakeIPMetadata\<close> reads the metadata and deletes them from the file. A panic of \<open>UnmarshalBinary\<close>, which ends the
  program, counts as an error here.\<close>

definition take_metadata :: "'db bolt \<Rightarrow> 'db \<Rightarrow> (FakeIPMetadata \<times> 'db) result" where
  "take_metadata B db =
     (case bb_view B db [bucketFakeIP] of
        None \<Rightarrow> Inl (E_Lib ''file does not exist'')
      | Some b \<Rightarrow>
          (case b keyMetadata of
             None \<Rightarrow> Inl os_ErrInvalid
           | Some metadataBinary \<Rightarrow>
               if length metadataBinary = 0 then Inl os_ErrInvalid
               else bind_result (bb_Delete B [bucketFakeIP] keyMetadata db) (\<lambda>db.
                 bind_result (Metadata_UnmarshalBinary metadataBinary) (\<lambda>m. Inr (m, db)))))"

definition Cache_FakeIPMetadata :: "'db bolt \<Rightarrow> 'db CacheFile \<Rightarrow> FakeIPMetadata option \<times> 'db CacheFile" where
  "Cache_FakeIPMetadata B c =
     (case batch B (\<lambda>db. map_sum id snd (take_metadata B db)) c of
        (Some _, c) \<Rightarrow> (None, c)
      | (None, c') \<Rightarrow> (case take_metadata B (cf_DB c) of Inl _ \<Rightarrow> (None, c') | Inr (m, _) \<Rightarrow> (Some m, c')))"

definition Cache_FakeIPSaveMetadata :: "'db bolt \<Rightarrow> FakeIPMetadata \<Rightarrow> 'db CacheFile \<Rightarrow> error option \<times> 'db CacheFile" where
  "Cache_FakeIPSaveMetadata B m c =
     batch B (\<lambda>db. bind_result (bb_Create B [bucketFakeIP] db) (bb_Put B [bucketFakeIP] keyMetadata (Metadata_MarshalBinary m))) c"

text \<open>The timer is set for the metadata of the first call; later calls only put it off.\<close>

definition Cache_FakeIPSaveMetadataAsync :: "FakeIPMetadata \<Rightarrow> 'db CacheFile \<Rightarrow> 'db CacheFile" where
  "Cache_FakeIPSaveMetadataAsync m c = (case saveMetadataTimer c of None \<Rightarrow> c\<lparr>saveMetadataTimer := Some m\<rparr> | Some _ \<Rightarrow> c)"

definition metadata_timer_fires :: "'db bolt \<Rightarrow> 'db CacheFile \<Rightarrow> 'db CacheFile" where
  "metadata_timer_fires B c = (case saveMetadataTimer c of None \<Rightarrow> c | Some m \<Rightarrow> snd (Cache_FakeIPSaveMetadata B m c))"

definition store_fakeip :: "'db bolt \<Rightarrow> addr \<Rightarrow> string \<Rightarrow> 'db \<Rightarrow> 'db result" where
  "store_fakeip B address domain db =
     bind_result (bb_Create B [bucketFakeIP] db) (\<lambda>db.
       let oldDomain = (case bb_view B db [bucketFakeIP] of None \<Rightarrow> None | Some b \<Rightarrow> b (AsSlice address));
           domains = domain_bucket (\<not> Addr_Is4 address) in
       bind_result (bb_Put B [bucketFakeIP] (AsSlice address) (str_bytes domain) db) (\<lambda>db.
         bind_result (bb_Create B domains db) (\<lambda>db.
           bind_result (case oldDomain of None \<Rightarrow> Inr db | Some old \<Rightarrow> bb_Delete B domains old db) (\<lambda>db.
             bb_Put B domains (str_bytes domain) (AsSlice address) db))))"

definition Cache_FakeIPStore :: "'db bolt \<Rightarrow> addr \<Rightarrow> string \<Rightarrow> 'db CacheFile \<Rightarrow> error option \<times> 'db CacheFile" where
  "Cache_FakeIPStore B address domain c = batch B (store_fakeip B address domain) c"

definition Cache_FakeIPStoreAsync :: "addr \<Rightarrow> string \<Rightarrow> 'db CacheFile \<Rightarrow> 'db CacheFile" where
  "Cache_FakeIPStoreAsync address domain c =
     (let c = (case saveDomain c address of
                 None \<Rightarrow> c
               | Some oldDomain \<Rightarrow>
                   if Addr_Is4 address then c\<lparr>saveAddress4 := (saveAddress4 c)(oldDomain := None)\<rparr>
                   else c\<lparr>saveAddress6 := (saveAddress6 c)(oldDomain := None)\<rparr>);
          c = c\<lparr>saveDomain := (saveDomain c)(address \<mapsto> domain)\<rparr> in
      if Addr_Is4 address then c\<lparr>saveAddress4 := (saveAddress4 c)(domain \<mapsto> address)\<rparr>
      else c\<lparr>saveAddress6 := (saveAddress6 c)(domain \<mapsto> address)\<rparr>)"

definition FakeIPStore_finish :: "'db bolt \<Rightarrow> addr \<Rightarrow> string \<Rightarrow> 'db CacheFile \<Rightarrow> 'db CacheFile" where
  "FakeIPStore_finish B address domain c =
     (let c = snd (Cache_FakeIPStore B address domain c);
          c = c\<lparr>saveDomain := (saveDomain c)(address := None)\<rparr> in
      if Addr_Is4 address then c\<lparr>saveAddress4 := (saveAddress4 c)(domain := None)\<rparr>
      else c\<lparr>saveAddress6 := (saveAddress6 c)(domain := None)\<rparr>)"

definition Cache_FakeIPLoad :: "'db bolt \<Rightarrow> 'db CacheFile \<Rightarrow> addr \<Rightarrow> string option" where
  "Cache_FakeIPLoad B c address =
     (case saveDomain c address of
        Some cachedDomain \<Rightarrow> Some cachedDomain
      | None \<Rightarrow>
          (let domain = (case bb_view B (cf_DB c) [bucketFakeIP] of
                           None \<Rightarrow> []
                         | Some b \<Rightarrow> (case b (AsSlice address) of None \<Rightarrow> [] | Some bs \<Rightarrow> bytes_str bs)) in
           if domain \<noteq> [] then Some domain else None))"

definition Cache_FakeIPLoadDomain :: "'db bolt \<Rightarrow> 'db CacheFile \<Rightarrow> string \<Rightarrow> bool \<Rightarrow> addr option" where
  "Cache_FakeIPLoadDomain B c domain isIPv6 =
     (case (if \<not> isIPv6 then saveAddress4 c domain else saveAddress6 c domain) of
        Some cachedAddress \<Rightarrow> Some cachedAddress
      | None \<Rightarrow>
          (let address = (case bb_view B (cf_DB c) (domain_bucket isIPv6) of
                            None \<Rightarrow> AddrInvalid
                          | Some b \<Rightarrow> bb_AddrFromIP B (case b (str_bytes domain) of None \<Rightarrow> [] | Some bs \<Rightarrow> bs)) in
           if Addr_IsValid address then Some address else None))"

definition Cache_FakeIPReset :: "'db bolt \<Rightarrow> 'db CacheFile \<Rightarrow> error option \<times> 'db CacheFile" where
  "Cache_FakeIPReset B c =
     batch B (\<lambda>db. bind_result (bb_DeleteBucket B [bucketFakeIP] db) (\<lambda>db.
       bind_result (bb_DeleteBucket B [bucketFakeIPDomain4] db) (bb_DeleteBucket B [bucketFakeIPDomain6]))) c"

definition Cache_ops :: "'db bolt \<Rightarrow> 'db CacheFile FakeIPStorage" where
  "Cache_ops B =
     \<lparr>fs_Metadata = Cache_FakeIPMetadata B, fs_SaveMetadata = Cache_FakeIPSaveMetadata B,
      fs_SaveMetadataAsync = Cache_FakeIPSaveMetadataAsync, fs_Store = Cache_FakeIPStore B, fs_Load = Cache_FakeIPLoad B,
      fs_LoadDomain = Cache_FakeIPLoadDomain B, fs_Reset = Cache_FakeIPReset B\<rparr>"

end
