(* ===== verification/Cache_Contract.thy ===== *)
theory Cache_Contract
  imports Cache_File
begin

text \<open>
  What the operations of the cache file do to its content, and that it keeps the contract of a storage of fake
  addresses.
\<close>

section \<open>Values in the file\<close>

text \<open>The value under a key of a bucket, whether the bucket is missing or only the key.\<close>

definition value_at :: "'db bolt \<Rightarrow> 'db \<Rightarrow> bytes list \<Rightarrow> bytes \<Rightarrow> bytes option" where
  "value_at B db p k = (case bb_view B db p of None \<Rightarrow> None | Some b \<Rightarrow> b k)"

lemma bolt_laws:
  assumes "bolt_ok B"
  shows "transaction_ok (bb_Batch B)" and "transaction_ok (bb_Update B)"
    and "p \<noteq> [] \<Longrightarrow> bb_view B db p = None \<Longrightarrow> bb_view B db (p @ [x]) = None"
    and "bb_Create B p db = Inr db' \<Longrightarrow> bb_view B db' = (bb_view B db)(p := Some (case bb_view B db p of Some b \<Rightarrow> b | None \<Rightarrow> Map.empty))"
    and "bb_Put B p k v db = Inr db' \<Longrightarrow> \<exists>b. bb_view B db p = Some b \<and> bb_view B db' = (bb_view B db)(p \<mapsto> b(k \<mapsto> v))"
    and "bb_Delete B p k db = Inr db' \<Longrightarrow> \<exists>b. bb_view B db p = Some b \<and> bb_view B db' = (bb_view B db)(p \<mapsto> b(k := None))"
    and "bb_view B db p = None \<Longrightarrow> \<exists>e. bb_DeleteBucket B p db = Inl e"
    and "bb_DeleteBucket B p db = Inr db' \<Longrightarrow> bb_view B db p \<noteq> None \<and> bb_view B db' = (\<lambda>q. if prefix p q then None else bb_view B db q)"
    and "bb_ReadBytes B (bb_WriteBytes B y @ rest) = Inr (y, rest)" and "bb_ReadString B (bb_WriteString B s @ rest) = Inr (s, rest)"
    and "bb_AddrFromIP B [] = AddrInvalid" and "plain_addr a \<Longrightarrow> bb_AddrFromIP B (AsSlice a) = a"
  using assms unfolding bolt_ok_def by (elim conjE, simp)+

lemma value_at_Create: "bolt_ok B \<Longrightarrow> bb_Create B p db = Inr db' \<Longrightarrow> value_at B db' = value_at B db"
  by (drule (1) bolt_laws(4)) (auto simp: value_at_def fun_eq_iff split: option.splits)

lemma value_at_Put: "bolt_ok B \<Longrightarrow> bb_Put B p k v db = Inr db' \<Longrightarrow> value_at B db' q j = (if q = p \<and> j = k then Some v else value_at B db q j)"
  by (drule (1) bolt_laws(5)) (auto simp: value_at_def)

lemma value_at_Delete: "bolt_ok B \<Longrightarrow> bb_Delete B p k db = Inr db' \<Longrightarrow> value_at B db' q j = (if q = p \<and> j = k then None else value_at B db q j)"
  by (drule (1) bolt_laws(6)) (auto simp: value_at_def)

lemma value_at_createBucket: "bolt_ok B \<Longrightarrow> createBucket B c key db = Inr db' \<Longrightarrow> value_at B db' = value_at B db"
  by (auto simp: createBucket_def bind_result_Inr_iff value_at_Create split: option.splits)

lemma batch_cases:
  assumes "bolt_ok B" and "batch B f c = (err, c')"
  obtains (committed) db where "err = None" "f (cf_DB c) = Inr db" "c' = c\<lparr>cf_DB := db\<rparr>" | (undone) e where "err = Some e" "c' = c"
proof -
  have t: "transaction_ok (bb_Batch B)" by (rule bolt_laws(1) [OF assms(1)])
  obtain db where b: "bb_Batch B f (cf_DB c) = (err, db)" "c' = c\<lparr>cf_DB := db\<rparr>" using assms(2) by (auto simp: batch_def split: prod.splits)
  show ?thesis
  proof (cases "f (cf_DB c)")
    case (Inl e)
    then have "bb_Batch B f (cf_DB c) = (Some e, cf_DB c)" using t by (simp add: transaction_ok_def)
    then show ?thesis using b undone by simp
  next
    case (Inr db')
    then have "bb_Batch B f (cf_DB c) = (None, db') \<or> (\<exists>e. bb_Batch B f (cf_DB c) = (Some e, cf_DB c))" using t by (simp add: transaction_ok_def)
    then show ?thesis using b Inr committed undone by auto
  qed
qed

lemma bucket_at:
  assumes "bolt_ok B"
  shows "(case bucket B c db key of None \<Rightarrow> None | Some b \<Rightarrow> b k) = value_at B db (bucket_path c key) k"
proof (cases "cf_cacheID c")
  case (Some cid)
  then show ?thesis using bolt_laws(3) [OF assms, where p = "[cid]" and db = db and x = key]
    by (auto simp: bucket_def bucket_path_def value_at_def split: option.splits)
qed (simp add: bucket_def bucket_path_def value_at_def)

lemma load_at:
  assumes "bolt_ok B"
  shows "(case bucket B c db key of None \<Rightarrow> x | Some b \<Rightarrow> (case b k of None \<Rightarrow> x | Some v \<Rightarrow> f v)) =
    (case value_at B db (bucket_path c key) k of None \<Rightarrow> x | Some v \<Rightarrow> f v)"
  using bucket_at [OF assms, where c = c and db = db and key = key and k = k] by (auto split: option.splits)

text \<open>The common shape of the operations that store a value.\<close>

lemma put_batch:
  assumes "bolt_ok B" and "\<And>db db'. prepare db = Inr db' \<Longrightarrow> value_at B db' = value_at B db"
    and "batch B (\<lambda>db. bind_result (prepare db) (bb_Put B p k v)) c = (err, c')"
  shows "value_at B (cf_DB c') q j = (if err = None \<and> q = p \<and> j = k then Some v else value_at B (cf_DB c) q j)"
    and "\<exists>db. c' = c\<lparr>cf_DB := db\<rparr>"
proof -
  have "value_at B (cf_DB c') q j = (if err = None \<and> q = p \<and> j = k then Some v else value_at B (cf_DB c) q j) \<and> (\<exists>db. c' = c\<lparr>cf_DB := db\<rparr>)"
    using assms(1,3)
  proof (cases rule: batch_cases)
    case (committed db)
    then obtain db1 where "prepare (cf_DB c) = Inr db1" "bb_Put B p k v db1 = Inr db" by (auto simp: bind_result_Inr_iff)
    then show ?thesis using value_at_Put [OF assms(1), of p k v db1 db q j] assms(2) committed by auto
  next
    case (undone e)
    then show ?thesis by (metis CacheFile.surjective CacheFile.update_convs(1) option.distinct(1))
  qed
  then show "value_at B (cf_DB c') q j = (if err = None \<and> q = p \<and> j = k then Some v else value_at B (cf_DB c) q j)"
    and "\<exists>db. c' = c\<lparr>cf_DB := db\<rparr>" by simp_all
qed

lemma put_bucket:
  assumes "bolt_ok B" and "batch B (\<lambda>db. bind_result (createBucket B c key db) (bb_Put B p k v)) c = (err, c')"
  shows "value_at B (cf_DB c') q j = (if err = None \<and> q = p \<and> j = k then Some v else value_at B (cf_DB c) q j)"
    and "\<exists>db. c' = c\<lparr>cf_DB := db\<rparr>"
  using put_batch [OF assms(1) _ assms(2)] value_at_createBucket [OF assms(1)] by blast+

lemma put_top:
  assumes "bolt_ok B" and "batch B (\<lambda>db. bind_result (bb_Create B r db) (bb_Put B p k v)) c = (err, c')"
  shows "value_at B (cf_DB c') q j = (if err = None \<and> q = p \<and> j = k then Some v else value_at B (cf_DB c) q j)"
    and "\<exists>db. c' = c\<lparr>cf_DB := db\<rparr>"
  using put_batch [OF assms(1) _ assms(2)] value_at_Create [OF assms(1)] by blast+

section \<open>The content of the file\<close>

lemma put_get_int64:
  assumes "- (2 ^ 63) \<le> n" and "n < 2 ^ 63"
  shows "get_int64 (put_int64 n) = n"
proof -
  have "be_value (put_int64 n) = unat (word_of_int n :: 64 word)"
    using unat_lt [of "word_of_int n :: 64 word"] by (simp add: put_int64_def be_value_be_bytes)
  then show ?thesis using assms by (simp add: get_int64_def signed_of_int signed_take_bit_int_eq_self)
qed

lemma Unix_time_Unix: "Unix_time (time_Unix t) = t div 1000000000 * 1000000000"
  by (simp add: Unix_time_def time_Unix_def)

text \<open>Saving loses the fractions of a second.\<close>

definition whole_seconds :: "SavedBinary \<Rightarrow> SavedBinary" where
  "whole_seconds s = s\<lparr>sb_LastUpdated := sb_LastUpdated s div 1000000000 * 1000000000\<rparr>"

definition time_ok :: "time \<Rightarrow> bool" where
  "time_ok t \<longleftrightarrow> - (2 ^ 63) \<le> time_Unix t \<and> time_Unix t < 2 ^ 63"

lemma Saved_Unmarshal_Marshal:
  assumes "bolt_ok B" and "time_ok (sb_LastUpdated s)"
  shows "Saved_UnmarshalBinary B (Saved_MarshalBinary B s) = Inr (whole_seconds s)"
proof -
  note r = bolt_laws(9,10) [OF assms(1)] bolt_laws(10) [OF assms(1), where rest = "[]", simplified]
  have "length (put_int64 (time_Unix (sb_LastUpdated s))) = 8" by (simp add: put_int64_def)
  then show ?thesis using put_get_int64 [of "time_Unix (sb_LastUpdated s)"] assms(2) ReadFull_append [of "[1]" 1]
    by (simp add: Saved_UnmarshalBinary_def Saved_MarshalBinary_def r ReadFull_append time_ok_def Unix_time_Unix whole_seconds_def)
qed

text \<open>The part of the file that its clients see, and what they ask for.\<close>

record cache_content =
  cc_mode :: string
  cc_selected :: "string \<Rightarrow> string"
  cc_expand :: "string \<Rightarrow> bool option"
  cc_saved :: "string \<Rightarrow> SavedBinary option"

definition content :: "'db bolt \<Rightarrow> 'db CacheFile \<Rightarrow> cache_content" where
  "content B c = \<lparr>cc_mode = LoadMode B c, cc_selected = CacheFile_LoadSelected B c, cc_expand = LoadGroupExpand B c,
     cc_saved = CacheFile_LoadRuleSet B c\<rparr>"

datatype cache_op = SetMode string | SetSelected string string | SetExpand string bool | SetSaved string SavedBinary

fun cache_apply :: "cache_op \<Rightarrow> cache_content \<Rightarrow> cache_content" where
  "cache_apply (SetMode mode) s = s\<lparr>cc_mode := mode\<rparr>"
| "cache_apply (SetSelected tag selected) s = s\<lparr>cc_selected := (cc_selected s)(tag := selected)\<rparr>"
| "cache_apply (SetExpand tag isExpand) s = s\<lparr>cc_expand := (cc_expand s)(tag \<mapsto> isExpand)\<rparr>"
| "cache_apply (SetSaved tag b) s = s\<lparr>cc_saved := (cc_saved s)(tag \<mapsto> whole_seconds b)\<rparr>"

fun cache_perform :: "'db bolt \<Rightarrow> cache_op \<Rightarrow> 'db CacheFile \<Rightarrow> error option \<times> 'db CacheFile" where
  "cache_perform B (SetMode mode) = StoreMode B mode"
| "cache_perform B (SetSelected tag selected) = CacheFile_StoreSelected B tag selected"
| "cache_perform B (SetExpand tag isExpand) = StoreGroupExpand B tag isExpand"
| "cache_perform B (SetSaved tag b) = CacheFile_SaveRuleSet B tag b"

fun op_ok :: "cache_op \<Rightarrow> bool" where
  "op_ok (SetSaved tag b) = time_ok (sb_LastUpdated b)"
| "op_ok _ = True"

text \<open>The identifier of a cache starts with a zero byte, so its bucket is none of the others.\<close>

definition id_ok :: "'db CacheFile \<Rightarrow> bool" where
  "id_ok c \<longleftrightarrow> (\<forall>cid. cf_cacheID c = Some cid \<longrightarrow> (\<exists>x. cid = 0 # x))"

lemma content_at:
  assumes "bolt_ok B"
  shows "LoadMode B c = (case value_at B (cf_DB c) [bucketMode] (mode_key c) of None \<Rightarrow> [] | Some v \<Rightarrow> bytes_str v)"
    and "CacheFile_LoadSelected B c tag = (case value_at B (cf_DB c) (bucket_path c bucketSelected) (str_bytes tag) of None \<Rightarrow> [] | Some v \<Rightarrow> bytes_str v)"
    and "LoadGroupExpand B c tag = (case value_at B (cf_DB c) (bucket_path c bucketExpand) (str_bytes tag) of None \<Rightarrow> None
      | Some v \<Rightarrow> (case v of [x] \<Rightarrow> Some (x = 1) | _ \<Rightarrow> None))"
    and "CacheFile_LoadRuleSet B c tag = (case value_at B (cf_DB c) (bucket_path c bucketRuleSet) (str_bytes tag) of None \<Rightarrow> None
      | Some v \<Rightarrow> if length v = 0 then None else (case Saved_UnmarshalBinary B v of Inl _ \<Rightarrow> None | Inr s \<Rightarrow> Some s))"
proof -
  show "LoadMode B c = (case value_at B (cf_DB c) [bucketMode] (mode_key c) of None \<Rightarrow> [] | Some v \<Rightarrow> bytes_str v)"
    by (simp add: LoadMode_def value_at_def split: option.split)
  have n: "(if length v > 0 then bytes_str v else []) = bytes_str v" for v by (simp add: bytes_str_def)
  show "CacheFile_LoadSelected B c tag = (case value_at B (cf_DB c) (bucket_path c bucketSelected) (str_bytes tag) of None \<Rightarrow> [] | Some v \<Rightarrow> bytes_str v)"
    unfolding CacheFile_LoadSelected_def load_at [OF assms] n ..
  show "CacheFile_LoadRuleSet B c tag = (case value_at B (cf_DB c) (bucket_path c bucketRuleSet) (str_bytes tag) of None \<Rightarrow> None
      | Some v \<Rightarrow> if length v = 0 then None else (case Saved_UnmarshalBinary B v of Inl _ \<Rightarrow> None | Inr s \<Rightarrow> Some s))"
    unfolding CacheFile_LoadRuleSet_def load_at [OF assms] ..
  show "LoadGroupExpand B c tag = (case value_at B (cf_DB c) (bucket_path c bucketExpand) (str_bytes tag) of None \<Rightarrow> None
      | Some v \<Rightarrow> (case v of [x] \<Rightarrow> Some (x = 1) | _ \<Rightarrow> None))"
    using bucket_at [OF assms, where c = c and db = "cf_DB c" and key = bucketExpand and k = "str_bytes tag"]
    by (cases "bucket B c (cf_DB c) bucketExpand") (simp_all add: LoadGroupExpand_def)
qed

lemma bucket_paths:
  assumes "id_ok c"
  shows "bucket_path c x = bucket_path c y \<longleftrightarrow> x = y" and "bucket_path c x \<noteq> [bucketMode] \<or> x = bucketMode \<and> cf_cacheID c = None"
  using assms by (auto simp: bucket_path_def id_ok_def split: option.splits)

lemma bucket_names:
  "bucketSelected \<noteq> bucketExpand" "bucketSelected \<noteq> bucketRuleSet" "bucketExpand \<noteq> bucketRuleSet"
  "bucketSelected \<noteq> bucketMode" "bucketExpand \<noteq> bucketMode" "bucketRuleSet \<noteq> bucketMode"
  by (simp_all add: bucketSelected_def bucketExpand_def bucketRuleSet_def bucketMode_def)

lemma same_settings: "mode_key (c\<lparr>cf_DB := db\<rparr>) = mode_key c" "bucket_path (c\<lparr>cf_DB := db\<rparr>) x = bucket_path c x"
  by (simp_all add: mode_key_def bucket_path_def)

text \<open>Every operation writes one value.\<close>

fun op_path :: "'db CacheFile \<Rightarrow> cache_op \<Rightarrow> bytes list \<times> bytes" where
  "op_path c (SetMode mode) = ([bucketMode], mode_key c)"
| "op_path c (SetSelected tag selected) = (bucket_path c bucketSelected, str_bytes tag)"
| "op_path c (SetExpand tag isExpand) = (bucket_path c bucketExpand, str_bytes tag)"
| "op_path c (SetSaved tag b) = (bucket_path c bucketRuleSet, str_bytes tag)"

fun op_value :: "'db bolt \<Rightarrow> cache_op \<Rightarrow> bytes" where
  "op_value B (SetMode mode) = str_bytes mode"
| "op_value B (SetSelected tag selected) = str_bytes selected"
| "op_value B (SetExpand tag isExpand) = (if isExpand then [1] else [0])"
| "op_value B (SetSaved tag b) = Saved_MarshalBinary B b"

lemma perform_at:
  assumes "bolt_ok B" and "cache_perform B x c = (err, c')"
  shows "value_at B (cf_DB c') q j = (if err = None \<and> (q, j) = op_path c x then Some (op_value B x) else value_at B (cf_DB c) q j)"
    and "\<exists>db. c' = c\<lparr>cf_DB := db\<rparr>"
proof -
  note d = StoreMode_def CacheFile_StoreSelected_def StoreGroupExpand_def CacheFile_SaveRuleSet_def
  show "value_at B (cf_DB c') q j = (if err = None \<and> (q, j) = op_path c x then Some (op_value B x) else value_at B (cf_DB c) q j)"
    using assms(2) by (cases x) (simp_all add: d put_top(1) [OF assms(1)] put_bucket(1) [OF assms(1)])
  show "\<exists>db. c' = c\<lparr>cf_DB := db\<rparr>"
    using assms(2) put_top(2) [OF assms(1)] put_bucket(2) [OF assms(1)] by (cases x) (auto simp: d)
qed

lemma cache_refines:
  assumes "bolt_ok B" and "id_ok c" and "op_ok x" and "cache_perform B x c = (err, c')"
  shows "content B c' = (if err = None then cache_apply x (content B c) else content B c)"
proof -
  have m: "bucket_path c bucketSelected \<noteq> [bucketMode]" "bucket_path c bucketExpand \<noteq> [bucketMode]" "bucket_path c bucketRuleSet \<noteq> [bucketMode]"
    using bucket_paths(2) [OF assms(2)] bucket_names by blast+
  note p = m m [symmetric] bucket_paths(1) [OF assms(2)] bucket_names bucket_names [symmetric] same_settings content_at [OF assms(1)]
  obtain db where c': "c' = c\<lparr>cf_DB := db\<rparr>" using perform_at(2) [OF assms(1,4)] by blast
  have a: "value_at B db q j = (if err = None \<and> (q, j) = op_path c x then Some (op_value B x) else value_at B (cf_DB c) q j)" for q j
    using perform_at(1) [OF assms(1,4)] c' by simp
  have s: "Saved_MarshalBinary B b \<noteq> []" for b by (simp add: Saved_MarshalBinary_def)
  show ?thesis
  proof (cases err)
    case None
    show ?thesis
      by (cases x) (use assms(3) in \<open>simp_all add: content_def fun_eq_iff c' p a None s Saved_Unmarshal_Marshal [OF assms(1)]\<close>)
  next
    case (Some e)
    then show ?thesis by (simp add: content_def fun_eq_iff c' p a)
  qed
qed

section \<open>Rejected responses\<close>

lemma rdrc_at:
  assumes "bolt_ok B"
  shows "(case rdrc_bucket B c db t of None \<Rightarrow> None | Some b \<Rightarrow> b k) = value_at B db (bucket_path c bucketRDRC @ [str_bytes t]) k"
proof -
  have "bb_view B db (bucket_path c bucketRDRC @ [str_bytes t]) = None" if "bucket B c db bucketRDRC = None"
  proof -
    have "bb_view B db (bucket_path c bucketRDRC) = None"
      using that bolt_laws(3) [OF assms, where p = "[_]" and x = bucketRDRC] by (auto simp: bucket_def bucket_path_def split: option.splits)
    then show ?thesis by (intro bolt_laws(3) [OF assms]) (auto simp: bucket_path_def split: option.splits)
  qed
  then show ?thesis by (auto simp: rdrc_bucket_def value_at_def split: option.splits)
qed

text \<open>A saved rejection is found until it expires, and it is the only one that was added.\<close>

lemma SaveRDRC_LoadRDRC:
  assumes "bolt_ok B" and "saveRDRC c = Map.empty" and "SaveRDRC B saved t q ty c = (None, c')" and "time_ok (saved + cf_rdrcTimeout c)"
  shows "map_sum id fst (LoadRDRC B now t q ty c') =
    Inr (now \<le> (saved + cf_rdrcTimeout c) div 1000000000 * 1000000000)"
proof -
  let ?p = "bucket_path c bucketRDRC @ [str_bytes t]" and ?v = "put_int64 (time_Unix (saved + cf_rdrcTimeout c))"
  have "value_at B (cf_DB c') ?p (rdrc_key q ty) = Some ?v \<and> saveRDRC c' = Map.empty \<and> bucket_path c' bucketRDRC = bucket_path c bucketRDRC"
    using assms(1,3) unfolding SaveRDRC_def
  proof (cases rule: batch_cases)
    case (committed db)
    then obtain db1 db2 where "bb_Put B ?p (rdrc_key q ty) ?v db2 = Inr db" by (auto simp: bind_result_Inr_iff)
    from value_at_Put [OF assms(1) this] show ?thesis using committed assms(2) by (simp add: bucket_path_def)
  qed simp
  moreover have "length ?v = 8" by (simp add: put_int64_def)
  ultimately show ?thesis
    using rdrc_at [OF assms(1), where c = c' and db = "cf_DB c'" and t = t and k = "rdrc_key q ty"] assms(4) put_get_int64 [of "time_Unix (saved + cf_rdrcTimeout c)"]
    by (auto simp: LoadRDRC_def Unix_time_Unix time_ok_def split: option.splits)
qed

section \<open>Fake addresses\<close>

lemma fakeip_buckets [simp]:
  "domain_bucket v6 \<noteq> [bucketFakeIP]" "[bucketFakeIP] \<noteq> domain_bucket v6" "domain_bucket v = domain_bucket w \<longleftrightarrow> v = w"
  by (auto simp: domain_bucket_def bucketFakeIP_def bucketFakeIPDomain4_def bucketFakeIPDomain6_def)

lemma AsSlice_inj: "plain_addr a \<Longrightarrow> plain_addr b \<Longrightarrow> AsSlice a = AsSlice b \<Longrightarrow> a = b"
  by (metis AddrFromSlice_AsSlice plain_addr_def)

lemma AsSlice_metadata: "plain_addr a \<Longrightarrow> AsSlice a \<noteq> keyMetadata"
proof
  assume "plain_addr a" "AsSlice a = keyMetadata"
  then have "length (AsSlice a) = 15" by (simp add: keyMetadata_def)
  then show False by (cases a) (simp_all add: length_AsSlice)
qed

lemma load_at_address:
  assumes "saveDomain c = Map.empty"
  shows "Cache_FakeIPLoad B c a = (case value_at B (cf_DB c) [bucketFakeIP] (AsSlice a) of None \<Rightarrow> None
    | Some bs \<Rightarrow> if bytes_str bs \<noteq> [] then Some (bytes_str bs) else None)"
  using assms by (auto simp: Cache_FakeIPLoad_def value_at_def Let_def split: option.splits)

lemma load_at_domain:
  assumes "bolt_ok B" and "saveAddress4 c = Map.empty" and "saveAddress6 c = Map.empty"
  shows "Cache_FakeIPLoadDomain B c d v6 =
    (let a = bb_AddrFromIP B (case value_at B (cf_DB c) (domain_bucket v6) (str_bytes d) of None \<Rightarrow> [] | Some bs \<Rightarrow> bs) in
     if Addr_IsValid a then Some a else None)"
  using assms bolt_laws(11) [OF assms(1)] by (auto simp: Cache_FakeIPLoadDomain_def value_at_def Let_def split: option.splits)

definition cache_inv :: "'db bolt \<Rightarrow> 'db CacheFile \<Rightarrow> bool" where
  "cache_inv B c \<longleftrightarrow> saveDomain c = Map.empty \<and> saveAddress4 c = Map.empty \<and> saveAddress6 c = Map.empty \<and>
     (\<forall>v6 d bs. value_at B (cf_DB c) (domain_bucket v6) (str_bytes d) = Some bs \<longrightarrow>
        (\<exists>a. plain_addr a \<and> Addr_Is4 a = (\<not> v6) \<and> bs = AsSlice a \<and> Cache_FakeIPLoad B c a = Some d)) \<and>
     (\<forall>a d. plain_addr a \<longrightarrow> Cache_FakeIPLoad B c a = Some d \<longrightarrow>
        value_at B (cf_DB c) (domain_bucket (\<not> Addr_Is4 a)) (str_bytes d) = Some (AsSlice a))"

lemma store_fakeip_at:
  assumes "bolt_ok B" and "store_fakeip B a d db = Inr db'"
  shows "value_at B db' q j =
    (if q = domain_bucket (\<not> Addr_Is4 a)
     then (if j = str_bytes d then Some (AsSlice a) else if value_at B db [bucketFakeIP] (AsSlice a) = Some j then None else value_at B db q j)
     else if q = [bucketFakeIP] \<and> j = AsSlice a then Some (str_bytes d) else value_at B db q j)"
proof -
  let ?dom = "domain_bucket (\<not> Addr_Is4 a)"
  obtain db1 db2 db3 db4 where s: "bb_Create B [bucketFakeIP] db = Inr db1"
    "bb_Put B [bucketFakeIP] (AsSlice a) (str_bytes d) db1 = Inr db2" "bb_Create B ?dom db2 = Inr db3"
    "(case value_at B db1 [bucketFakeIP] (AsSlice a) of None \<Rightarrow> Inr db3 | Some old \<Rightarrow> bb_Delete B ?dom old db3) = Inr db4"
    "bb_Put B ?dom (str_bytes d) (AsSlice a) db4 = Inr db'"
    using assms(2) by (auto simp: store_fakeip_def Let_def bind_result_Inr_iff value_at_def)
  have "value_at B db4 q j = (if q = ?dom \<and> value_at B db [bucketFakeIP] (AsSlice a) = Some j then None else value_at B db3 q j)" for q j
    using s(4) value_at_Delete [OF assms(1), where p = ?dom and db = db3 and db' = db4] value_at_Create [OF assms(1) s(1)]
    by (auto split: option.splits)
  then show ?thesis
    using value_at_Create [OF assms(1) s(1)] value_at_Put [OF assms(1) s(2)] value_at_Create [OF assms(1) s(3)] value_at_Put [OF assms(1) s(5)] by auto
qed

lemma cache_inv_forward:
  "cache_inv B c \<Longrightarrow> value_at B (cf_DB c) (domain_bucket v6) (str_bytes d) = Some bs \<Longrightarrow>
   \<exists>a. plain_addr a \<and> Addr_Is4 a = (\<not> v6) \<and> bs = AsSlice a \<and> Cache_FakeIPLoad B c a = Some d"
  unfolding cache_inv_def by blast

lemma cache_inv_backward:
  "cache_inv B c \<Longrightarrow> plain_addr a \<Longrightarrow> Cache_FakeIPLoad B c a = Some d \<Longrightarrow>
   value_at B (cf_DB c) (domain_bucket (\<not> Addr_Is4 a)) (str_bytes d) = Some (AsSlice a)"
  unfolding cache_inv_def by blast

lemma cache_inv_unsaved:
  "cache_inv B c \<Longrightarrow> saveDomain c = Map.empty" "cache_inv B c \<Longrightarrow> saveAddress4 c = Map.empty" "cache_inv B c \<Longrightarrow> saveAddress6 c = Map.empty"
  unfolding cache_inv_def by blast+

lemma cache_domain:
  assumes "bolt_ok B" and "cache_inv B c"
  shows "Cache_FakeIPLoadDomain B c d v6 = Some a \<longleftrightarrow> plain_addr a \<and> Cache_FakeIPLoad B c a = Some d \<and> Addr_Is4 a = (\<not> v6)"
proof -
  note i1 = cache_inv_forward [OF assms(2)] and i2 = cache_inv_backward [OF assms(2)]
  note l = load_at_domain [OF assms(1) cache_inv_unsaved(2,3) [OF assms(2)], of d v6]
  show ?thesis
  proof
    assume a: "Cache_FakeIPLoadDomain B c d v6 = Some a"
    then obtain bs where "value_at B (cf_DB c) (domain_bucket v6) (str_bytes d) = Some bs"
      using l bolt_laws(11) [OF assms(1)] by (cases "value_at B (cf_DB c) (domain_bucket v6) (str_bytes d)") (auto simp: Let_def)
    moreover then obtain b where "plain_addr b" "Addr_Is4 b = (\<not> v6)" "bs = AsSlice b" "Cache_FakeIPLoad B c b = Some d" using i1 by blast
    ultimately show "plain_addr a \<and> Cache_FakeIPLoad B c a = Some d \<and> Addr_Is4 a = (\<not> v6)"
      using a l bolt_laws(12) [OF assms(1)] by (auto simp: Let_def split: if_splits)
  next
    assume a: "plain_addr a \<and> Cache_FakeIPLoad B c a = Some d \<and> Addr_Is4 a = (\<not> v6)"
    then have "value_at B (cf_DB c) (domain_bucket v6) (str_bytes d) = Some (AsSlice a)" using i2 [of a d] by simp
    then show "Cache_FakeIPLoadDomain B c d v6 = Some a"
      using a l bolt_laws(12) [OF assms(1)] by (simp add: Let_def plain_addr_def)
  qed
qed

lemma cache_unknown_domain:
  assumes "bolt_ok B" and "cache_inv B c" and "Cache_FakeIPLoadDomain B c d v6 = None"
  shows "value_at B (cf_DB c) (domain_bucket v6) (str_bytes d) = None"
proof (rule ccontr)
  assume "value_at B (cf_DB c) (domain_bucket v6) (str_bytes d) \<noteq> None"
  then obtain bs where "value_at B (cf_DB c) (domain_bucket v6) (str_bytes d) = Some bs" by blast
  from cache_inv_forward [OF assms(2) this] obtain x where "Cache_FakeIPLoadDomain B c d v6 = Some x" using cache_domain [OF assms(1,2)] by blast
  then show False using assms(3) by simp
qed

lemma load_old:
  "saveDomain c = Map.empty \<Longrightarrow> Cache_FakeIPLoad B c a = Some y \<longleftrightarrow> y \<noteq> [] \<and> value_at B (cf_DB c) [bucketFakeIP] (AsSlice a) = Some (str_bytes y)"
  by (auto simp: load_at_address str_bytes_bytes_str split: option.splits if_splits)

lemma cache_store:
  assumes "bolt_ok B" and "cache_inv B c" and "plain_addr a" and "d \<noteq> []" and "Cache_FakeIPLoadDomain B c d (\<not> Addr_Is4 a) = None"
    and "store_fakeip B a d (cf_DB c) = Inr db"
  shows "cache_inv B (c\<lparr>cf_DB := db\<rparr>)"
    and "plain_addr b \<Longrightarrow> Cache_FakeIPLoad B (c\<lparr>cf_DB := db\<rparr>) b = (if b = a then Some d else Cache_FakeIPLoad B c b)"
proof -
  let ?c = "c\<lparr>cf_DB := db\<rparr>" and ?v = "\<not> Addr_Is4 a"
  note e = cache_inv_unsaved [OF assms(2)] and i1 = cache_inv_forward [OF assms(2)] and i2 = cache_inv_backward [OF assms(2)]
    and old = load_old [OF cache_inv_unsaved(1) [OF assms(2)]] and none = cache_unknown_domain [OF assms(1,2,5)]
  note s = store_fakeip_at [OF assms(1,6)]
  have load: "Cache_FakeIPLoad B ?c b = (if b = a then Some d else Cache_FakeIPLoad B c b)" if "plain_addr b" for b
    using AsSlice_inj [OF that assms(3)] assms(4) e by (auto simp: load_at_address s)
  then show "plain_addr b \<Longrightarrow> Cache_FakeIPLoad B ?c b = (if b = a then Some d else Cache_FakeIPLoad B c b)" .
  have j1: "\<exists>x. plain_addr x \<and> Addr_Is4 x = (\<not> v6) \<and> bs = AsSlice x \<and> Cache_FakeIPLoad B ?c x = Some y"
    if "value_at B db (domain_bucket v6) (str_bytes y) = Some bs" for v6 y bs
  proof (cases "v6 = ?v \<and> y = d")
    case True
    then show ?thesis using that assms(3) load by (auto simp: s)
  next
    case False
    then have k: "value_at B (cf_DB c) (domain_bucket v6) (str_bytes y) = Some bs"
      "v6 = ?v \<longrightarrow> value_at B (cf_DB c) [bucketFakeIP] (AsSlice a) \<noteq> Some (str_bytes y)"
      using that by (auto simp: s split: if_splits)
    then obtain x where x: "plain_addr x" "Addr_Is4 x = (\<not> v6)" "bs = AsSlice x" "Cache_FakeIPLoad B c x = Some y" using i1 by blast
    then have "x \<noteq> a" using k(2) x(2) old [of _ a] by auto
    then show ?thesis using x load by auto
  qed
  have j2: "value_at B db (domain_bucket (\<not> Addr_Is4 x)) (str_bytes y) = Some (AsSlice x)"
    if x: "plain_addr x" "Cache_FakeIPLoad B ?c x = Some y" for x y
  proof (cases "x = a")
    case True
    then show ?thesis using x load by (simp add: s)
  next
    case False
    then have k: "value_at B (cf_DB c) (domain_bucket (\<not> Addr_Is4 x)) (str_bytes y) = Some (AsSlice x)" using i2 x load by simp
    have "y \<noteq> d" if "Addr_Is4 x = Addr_Is4 a" using k none that by auto
    moreover have "value_at B (cf_DB c) [bucketFakeIP] (AsSlice a) \<noteq> Some (str_bytes y)" if f: "Addr_Is4 x = Addr_Is4 a"
    proof
      assume "value_at B (cf_DB c) [bucketFakeIP] (AsSlice a) = Some (str_bytes y)"
      then have "Cache_FakeIPLoad B c a = Some y" using x load False by (simp add: old)
      then show False using i2 [OF assms(3)] k f AsSlice_inj [OF x(1) assms(3)] False by simp
    qed
    ultimately show ?thesis using k by (auto simp: s)
  qed
  show "cache_inv B ?c" unfolding cache_inv_def using e j1 j2 by simp
qed

lemma async_keeps:
  "Cache_FakeIPLoad B (Cache_FakeIPSaveMetadataAsync m c) = Cache_FakeIPLoad B c" "cf_DB (Cache_FakeIPSaveMetadataAsync m c) = cf_DB c"
  "saveDomain (Cache_FakeIPSaveMetadataAsync m c) = saveDomain c" "saveAddress4 (Cache_FakeIPSaveMetadataAsync m c) = saveAddress4 c"
  "saveAddress6 (Cache_FakeIPSaveMetadataAsync m c) = saveAddress6 c"
  by (simp_all add: Cache_FakeIPSaveMetadataAsync_def Cache_FakeIPLoad_def fun_eq_iff split: option.split)

lemma cache_storage:
  assumes "bolt_ok B"
  shows "fakeip_storage (Cache_ops B) (cache_inv B)"
proof
  fix c :: "'a CacheFile" and a :: addr and d :: string and v6 :: bool
  assume c: "cache_inv B c"
  show "plain_addr a \<Longrightarrow> fs_LoadDomain (Cache_ops B) c d v6 = Some a \<longleftrightarrow> fs_Load (Cache_ops B) c a = Some d \<and> Addr_Is4 a = (\<not> v6)"
    using cache_domain [OF assms c] by (simp add: Cache_ops_def)
  show "fs_LoadDomain (Cache_ops B) c d v6 = Some a \<Longrightarrow> plain_addr a"
    using cache_domain [OF assms c] by (simp add: Cache_ops_def)
next
  fix c c' :: "'a CacheFile" and a :: addr and d :: string and err
  assume c: "cache_inv B c" and a: "plain_addr a" "d \<noteq> []" "fs_LoadDomain (Cache_ops B) c d (\<not> Addr_Is4 a) = None"
    and s: "fs_Store (Cache_ops B) a d c = (err, c')"
  have "batch B (store_fakeip B a d) c = (err, c')" using s by (simp add: Cache_ops_def Cache_FakeIPStore_def)
  with assms show "cache_inv B c' \<and> (\<forall>b. plain_addr b \<longrightarrow> fs_Load (Cache_ops B) c' b = (if err = None \<and> b = a then Some d else fs_Load (Cache_ops B) c b))"
  proof (cases rule: batch_cases)
    case (committed db)
    then show ?thesis using cache_store [OF assms c a(1,2) _ committed(2)] a(3) by (simp add: Cache_ops_def)
  next
    case (undone e)
    then show ?thesis using c by simp
  qed
next
  fix c :: "'a CacheFile" and m
  assume "cache_inv B c"
  then show "cache_inv B (fs_SaveMetadataAsync (Cache_ops B) m c) \<and> fs_Load (Cache_ops B) (fs_SaveMetadataAsync (Cache_ops B) m c) = fs_Load (Cache_ops B) c"
    by (simp add: Cache_ops_def cache_inv_def async_keeps)
qed

text \<open>The metadata are no part of the table.\<close>

lemma metadata_apart:
  assumes "bolt_ok B" and "cache_inv B c" and "c' = c\<lparr>cf_DB := db\<rparr>"
    and "\<And>q j. (q, j) \<noteq> ([bucketFakeIP], keyMetadata) \<Longrightarrow> value_at B db q j = value_at B (cf_DB c) q j"
  shows "plain_addr a \<Longrightarrow> Cache_FakeIPLoad B c' a = Cache_FakeIPLoad B c a" and "cache_inv B c'"
proof -
  note e = cache_inv_unsaved [OF assms(2)]
  have load: "Cache_FakeIPLoad B c' a = Cache_FakeIPLoad B c a" if "plain_addr a" for a
    using AsSlice_metadata [OF that] e assms(3,4) by (simp add: load_at_address)
  then show "plain_addr a \<Longrightarrow> Cache_FakeIPLoad B c' a = Cache_FakeIPLoad B c a" .
  have "value_at B (cf_DB c') (domain_bucket v6) k = value_at B (cf_DB c) (domain_bucket v6) k" for v6 k
    using assms(3,4) by simp
  moreover have "saveDomain c' = Map.empty" "saveAddress4 c' = Map.empty" "saveAddress6 c' = Map.empty" using e assms(3) by simp_all
  ultimately show "cache_inv B c'" using cache_inv_forward [OF assms(2)] cache_inv_backward [OF assms(2)] load
    unfolding cache_inv_def by metis
qed

lemma take_metadata_ok:
  assumes "bolt_ok B" and "take_metadata B db = Inr (m, db')"
  obtains bs where "value_at B db [bucketFakeIP] keyMetadata = Some bs" and "Metadata_UnmarshalBinary bs = Inr m"
    and "\<forall>q j. value_at B db' q j = (if q = [bucketFakeIP] \<and> j = keyMetadata then None else value_at B db q j)"
    and "\<forall>q. q \<noteq> [bucketFakeIP] \<longrightarrow> bb_view B db' q = bb_view B db q"
proof -
  obtain b bs where s: "bb_view B db [bucketFakeIP] = Some b" "b keyMetadata = Some bs"
    "bb_Delete B [bucketFakeIP] keyMetadata db = Inr db'" "Metadata_UnmarshalBinary bs = Inr m"
    using assms(2) by (auto simp: take_metadata_def bind_result_Inr_iff split: option.splits if_splits)
  show ?thesis
  proof (rule that)
    show "value_at B db [bucketFakeIP] keyMetadata = Some bs" using s by (simp add: value_at_def)
    show "\<forall>q. q \<noteq> [bucketFakeIP] \<longrightarrow> bb_view B db' q = bb_view B db q" using bolt_laws(6) [OF assms(1) s(3)] by auto
  qed (use s value_at_Delete [OF assms(1) s(3)] in auto)
qed

lemma Metadata_keeps:
  assumes "bolt_ok B" and "cache_inv B c" and "Cache_FakeIPMetadata B c = (m, c')"
  shows "cache_inv B c'" and "plain_addr a \<Longrightarrow> Cache_FakeIPLoad B c' a = Cache_FakeIPLoad B c a"
    and "q \<noteq> [bucketFakeIP] \<Longrightarrow> bb_view B (cf_DB c') q = bb_view B (cf_DB c) q"
    and "m = Some x \<Longrightarrow> \<exists>bs. value_at B (cf_DB c) [bucketFakeIP] keyMetadata = Some bs \<and> Metadata_UnmarshalBinary bs = Inr x"
proof -
  obtain err where b: "batch B (\<lambda>db. map_sum id snd (take_metadata B db)) c = (err, c')"
    using assms(3) by (auto simp: Cache_FakeIPMetadata_def split: prod.splits option.splits sum.splits)
  have "cache_inv B c' \<and> (\<forall>a. plain_addr a \<longrightarrow> Cache_FakeIPLoad B c' a = Cache_FakeIPLoad B c a) \<and>
    (\<forall>q. q \<noteq> [bucketFakeIP] \<longrightarrow> bb_view B (cf_DB c') q = bb_view B (cf_DB c) q) \<and>
    (\<forall>x. m = Some x \<longrightarrow> (\<exists>bs. value_at B (cf_DB c) [bucketFakeIP] keyMetadata = Some bs \<and> Metadata_UnmarshalBinary bs = Inr x))"
    using assms(1) b
  proof (cases rule: batch_cases)
    case (committed db)
    then obtain y where t: "take_metadata B (cf_DB c) = Inr (y, db)" by (cases "take_metadata B (cf_DB c)") auto
    obtain bs where k: "value_at B (cf_DB c) [bucketFakeIP] keyMetadata = Some bs" "Metadata_UnmarshalBinary bs = Inr y"
      "\<forall>q j. value_at B db q j = (if q = [bucketFakeIP] \<and> j = keyMetadata then None else value_at B (cf_DB c) q j)"
      "\<forall>q. q \<noteq> [bucketFakeIP] \<longrightarrow> bb_view B db q = bb_view B (cf_DB c) q"
      by (rule take_metadata_ok [OF assms(1) t])
    have same: "value_at B db q j = value_at B (cf_DB c) q j" if "(q, j) \<noteq> ([bucketFakeIP], keyMetadata)" for q j using k(3) that by auto
    have "m = Some y" using assms(3) b committed(1) t by (simp add: Cache_FakeIPMetadata_def)
    moreover have "cache_inv B c'" "plain_addr a \<Longrightarrow> Cache_FakeIPLoad B c' a = Cache_FakeIPLoad B c a" for a
      using metadata_apart [OF assms(1,2) committed(3) same] by blast+
    ultimately show ?thesis using k committed(3) by simp
  next
    case (undone e)
    then show ?thesis using assms(2,3) b by (simp add: Cache_FakeIPMetadata_def)
  qed
  then show "cache_inv B c'" and "plain_addr a \<Longrightarrow> Cache_FakeIPLoad B c' a = Cache_FakeIPLoad B c a"
    and "q \<noteq> [bucketFakeIP] \<Longrightarrow> bb_view B (cf_DB c') q = bb_view B (cf_DB c) q"
    and "m = Some x \<Longrightarrow> \<exists>bs. value_at B (cf_DB c) [bucketFakeIP] keyMetadata = Some bs \<and> Metadata_UnmarshalBinary bs = Inr x" by blast+
qed

text \<open>\<open>FakeIPReset\<close> needs all three buckets; without one of them it changes nothing.\<close>

lemma Reset_undone:
  assumes "bolt_ok B" and "bb_view B (cf_DB c) [bucketFakeIPDomain6] = None"
  shows "\<exists>e. Cache_FakeIPReset B c = (Some e, c)"
proof -
  let ?f = "\<lambda>db. bind_result (bb_DeleteBucket B [bucketFakeIP] db) (\<lambda>db. bind_result (bb_DeleteBucket B [bucketFakeIPDomain4] db) (bb_DeleteBucket B [bucketFakeIPDomain6]))"
  have "\<exists>e. ?f (cf_DB c) = Inl e"
  proof (rule ccontr)
    assume "\<not> ?thesis"
    then obtain db3 where "?f (cf_DB c) = Inr db3" by (cases "?f (cf_DB c)") auto
    then obtain db1 db2 where d: "bb_DeleteBucket B [bucketFakeIP] (cf_DB c) = Inr db1" "bb_DeleteBucket B [bucketFakeIPDomain4] db1 = Inr db2"
      "bb_DeleteBucket B [bucketFakeIPDomain6] db2 = Inr db3" by (auto simp: bind_result_Inr_iff)
    have "bb_view B db2 [bucketFakeIPDomain6] = None" using bolt_laws(8) [OF assms(1) d(1)] bolt_laws(8) [OF assms(1) d(2)] assms(2) by auto
    then show False using bolt_laws(8) [OF assms(1) d(3)] by simp
  qed
  then obtain e where "?f (cf_DB c) = Inl e" by blast
  then show ?thesis using bolt_laws(1) [OF assms(1)] by (simp add: Cache_FakeIPReset_def batch_def transaction_ok_def)
qed

text \<open>The timer saves the metadata of the call that set it, not those of the last one.\<close>

lemma timer_saves_first:
  assumes "saveMetadataTimer c = None"
  shows "metadata_timer_fires B (Cache_FakeIPSaveMetadataAsync m2 (Cache_FakeIPSaveMetadataAsync m1 c)) =
    snd (Cache_FakeIPSaveMetadata B m1 (Cache_FakeIPSaveMetadataAsync m1 c))"
  using assms by (simp add: metadata_timer_fires_def Cache_FakeIPSaveMetadataAsync_def)

end
