(* ===== verification/Cache_Properties.thy ===== *)
theory Cache_Properties
  imports Cache_Contract Srs_Samples DNS_Properties
begin

text \<open>The properties of the cache file and of the fake addresses.\<close>

section \<open>A database\<close>

text \<open>A list of buckets, newest first, that has the documented behaviour.\<close>

type_synonym sample_db = "(bytes list \<times> bucket_map) list"

definition sview :: "sample_db \<Rightarrow> bytes list \<Rightarrow> bucket_map option" where
  "sview db p = (if p = [] then None else case map_of db p of Some b \<Rightarrow> Some b | None \<Rightarrow> if list_ex (\<lambda>(q, _). prefix p q) db then Some Map.empty else None)"

definition sfail :: error where "sfail = E_Lib ''bucket not found''"

definition sample_bolt :: "sample_db bolt" where
  "sample_bolt =
     \<lparr>bb_view = sview, bb_names = (\<lambda>_ _. []),
      bb_Create = (\<lambda>p db. case sview db p of Some _ \<Rightarrow> Inr db
        | None \<Rightarrow> if length p = 0 \<or> length p > 1 \<and> sview db (butlast p) = None then Inl sfail else Inr ((p, Map.empty) # db)),
      bb_Put = (\<lambda>p k v db. case sview db p of None \<Rightarrow> Inl sfail | Some b \<Rightarrow> if k = [] then Inl sfail else Inr ((p, b(k \<mapsto> v)) # db)),
      bb_Delete = (\<lambda>p k db. case sview db p of None \<Rightarrow> Inl sfail | Some b \<Rightarrow> Inr ((p, b(k := None)) # db)),
      bb_DeleteBucket = (\<lambda>p db. if sview db p = None \<or> p = [] then Inl sfail
        else Inr ((case sview db (butlast p) of Some b \<Rightarrow> [(butlast p, b)] | None \<Rightarrow> []) @ filter (\<lambda>(q, _). \<not> prefix p q) db)),
      bb_Batch = (\<lambda>f db. case f db of Inl e \<Rightarrow> (Some e, db) | Inr db' \<Rightarrow> (None, db')),
      bb_Update = (\<lambda>f db. case f db of Inl e \<Rightarrow> (Some e, db) | Inr db' \<Rightarrow> (None, db')),
      bb_WriteBytes = (\<lambda>x. enc_many [x]), bb_ReadBytes = read_into (dec_many []) hd,
      bb_WriteString = (\<lambda>x. enc_strings [x]), bb_ReadString = read_into dec_strings hd,
      bb_AddrFromIP = AddrFromSlice\<rparr>"

lemma sview_None: "sview db p = None \<longleftrightarrow> p = [] \<or> (\<forall>e \<in> set db. \<not> prefix p (fst e))"
proof (cases "map_of db p")
  case None
  then show ?thesis by (auto simp: sview_def list_ex_iff case_prod_unfold)
next
  case (Some b)
  then have "(p, b) \<in> set db" by (rule map_of_SomeD)
  then show ?thesis using Some by (force simp: sview_def)
qed

lemma sview_ancestor:
  assumes "sview db p \<noteq> None" and "prefix q p" and "q \<noteq> []"
  shows "sview db q \<noteq> None"
proof -
  obtain e where "e \<in> set db" "prefix p (fst e)" using assms(1) by (auto simp: sview_None)
  then show ?thesis using assms(2,3) prefix_order.trans [of q p "fst e"] by (auto simp: sview_None)
qed

lemma sview_Cons:
  "sview ((p, b) # db) q = (if q = [] then None else if q = p then Some b
     else case sview db q of Some c \<Rightarrow> Some c | None \<Rightarrow> if prefix q p then Some Map.empty else None)"
  by (simp add: sview_def split: option.split)

text \<open>A new entry only changes its own bucket when the buckets around it are there.\<close>

lemma sview_put:
  assumes "p \<noteq> []" and "sview db p \<noteq> None \<or> \<not> 1 < length p \<or> sview db (butlast p) \<noteq> None"
  shows "sview ((p, b) # db) = (sview db)(p \<mapsto> b)"
proof
  fix q
  have "sview db q \<noteq> None" if q: "prefix q p" "q \<noteq> p" "q \<noteq> []"
  proof -
    have "prefix q (butlast p)" using q(1,2) prefix_snoc [of q "butlast p" "last p"] assms(1) by simp
    moreover have "1 < length p" using q prefix_length_less [of q p] by (cases q) (auto simp: strict_prefix_def)
    ultimately show ?thesis using assms(2) q sview_ancestor by metis
  qed
  then show "sview ((p, b) # db) q = ((sview db)(p \<mapsto> b)) q"
    using assms(1) by (cases "sview db q") (auto simp: sview_Cons sview_def [of _ "[]"])
qed

lemma sview_filter:
  assumes "\<not> prefix p q"
  shows "sview db q = (case sview (filter (\<lambda>(r, _). \<not> prefix p r) db) q of Some b \<Rightarrow> Some b
    | None \<Rightarrow> if q \<noteq> [] \<and> list_ex (\<lambda>(r, _). prefix q r \<and> prefix p r) db then Some Map.empty else None)"
proof -
  have "map_of (filter (\<lambda>(r, _). \<not> prefix p r) db) q = map_of db q"
    using assms by (induction db) auto
  moreover have "list_ex (\<lambda>(r, _). prefix q r) db \<longleftrightarrow>
      list_ex (\<lambda>(r, _). prefix q r) (filter (\<lambda>(r, _). \<not> prefix p r) db) \<or> list_ex (\<lambda>(r, _). prefix q r \<and> prefix p r) db"
    by (induction db) auto
  ultimately show ?thesis by (auto simp: sview_def split: option.split)
qed

lemma sview_delete:
  assumes "sview db p \<noteq> None"
  defines "rest \<equiv> filter (\<lambda>(q, _). \<not> prefix p q) db"
  shows "sview ((case sview db (butlast p) of Some b \<Rightarrow> [(butlast p, b)] | None \<Rightarrow> []) @ rest) = (\<lambda>q. if prefix p q then None else sview db q)"
proof
  fix q
  have p: "p \<noteq> []" using assms(1) by (auto simp: sview_None)
  have gone: "sview rest q = None" if "prefix p q" for q
    using that prefix_order.trans [of p q] by (auto simp: sview_None rest_def)
  show "sview ((case sview db (butlast p) of Some b \<Rightarrow> [(butlast p, b)] | None \<Rightarrow> []) @ rest) q = (if prefix p q then None else sview db q)"
  proof (cases "prefix p q")
    case True
    then have "length (butlast p) < length q" using p prefix_length_le [of p q] by (cases p) auto
    then have "\<not> prefix q (butlast p)" "q \<noteq> butlast p" using prefix_length_le [of q "butlast p"] by auto
    then show ?thesis using gone [OF True] True by (auto simp: sview_Cons split: option.split)
  next
    case False
    have s: "sview db q = (case sview rest q of Some b \<Rightarrow> Some b
      | None \<Rightarrow> if q \<noteq> [] \<and> list_ex (\<lambda>(r, _). prefix q r \<and> prefix p r) db then Some Map.empty else None)"
      using sview_filter [OF False, of db] by (simp add: rest_def)
    have up: "prefix q (butlast p)" if "prefix q r" "prefix p r" for r
      using that False p by (metis append_butlast_last_id prefix_same_cases prefix_snoc)
    obtain e where e: "e \<in> set db" "prefix p (fst e)" using assms(1) by (auto simp: sview_None)
    have down: "prefix q (fst e)" if "prefix q (butlast p)"
      using that prefix_order.trans [OF prefix_order.trans [OF that prefixeq_butlast] e(2)] by simp
    have l: "list_ex (\<lambda>(r, _). prefix q r \<and> prefix p r) db \<longleftrightarrow> prefix q (butlast p)"
      using up down e by (auto simp: list_ex_iff case_prod_unfold)
    show ?thesis
    proof (cases "butlast p = []")
      case True
      then have "sview db (butlast p) = None" by (simp add: sview_def)
      then show ?thesis using s l False True by (auto split: option.splits)
    next
      case ne: False
      then obtain b where b: "sview db (butlast p) = Some b" using sview_ancestor [OF assms(1), of "butlast p"] by (auto simp: prefixeq_butlast)
      show ?thesis
        using s l False b by (auto simp: sview_Cons sview_def [of _ "[]"] split: option.splits)
    qed
  qed
qed

lemma sample_bolt_simps:
  "bb_view sample_bolt = sview" "bb_AddrFromIP sample_bolt = AddrFromSlice"
  "bb_Batch sample_bolt f db = (case f db of Inl e \<Rightarrow> (Some e, db) | Inr db' \<Rightarrow> (None, db'))"
  "bb_Create sample_bolt r db = (case sview db r of Some _ \<Rightarrow> Inr db
     | None \<Rightarrow> if length r = 0 \<or> length r > 1 \<and> sview db (butlast r) = None then Inl sfail else Inr ((r, Map.empty) # db))"
  "bb_Put sample_bolt r k v db = (case sview db r of None \<Rightarrow> Inl sfail | Some b \<Rightarrow> if k = [] then Inl sfail else Inr ((r, b(k \<mapsto> v)) # db))"
  "bb_Delete sample_bolt r k db = (case sview db r of None \<Rightarrow> Inl sfail | Some b \<Rightarrow> Inr ((r, b(k := None)) # db))"
  by (simp_all add: sample_bolt_def)

lemma sample_bolt_ok: "bolt_ok sample_bolt"
  unfolding bolt_ok_def
proof (intro conjI allI impI)
  show "transaction_ok (bb_Batch sample_bolt)" "transaction_ok (bb_Update sample_bolt)"
    by (simp_all add: transaction_ok_def sample_bolt_def)
  show "bb_view sample_bolt db (p @ [x]) = None" if "p \<noteq> []" "bb_view sample_bolt db p = None" for p x db
    using that sview_ancestor [of db "p @ [x]" p] by (cases "sview db (p @ [x])") (simp_all add: sample_bolt_simps)
  show "bb_view sample_bolt db' = (bb_view sample_bolt db)(p \<mapsto> case bb_view sample_bolt db p of Some b \<Rightarrow> b | None \<Rightarrow> Map.empty)"
    if "bb_Create sample_bolt p db = Inr db'" for p db db'
    using that sview_put [of p db Map.empty] by (auto simp: sample_bolt_simps fun_upd_idem split: option.splits if_splits)
  show "\<exists>b. bb_view sample_bolt db p = Some b \<and> bb_view sample_bolt db' = (bb_view sample_bolt db)(p \<mapsto> b(k \<mapsto> v))"
    if put: "bb_Put sample_bolt p k v db = Inr db'" for p k v db db'
  proof -
    obtain b where b: "sview db p = Some b" "db' = (p, b(k \<mapsto> v)) # db" using put by (auto simp: sample_bolt_simps split: option.splits if_splits)
    then have "p \<noteq> []" by (auto simp: sview_def)
    then show ?thesis using b sview_put [of p db "b(k \<mapsto> v)"] by (simp add: sample_bolt_simps)
  qed
  show "\<exists>b. bb_view sample_bolt db p = Some b \<and> bb_view sample_bolt db' = (bb_view sample_bolt db)(p \<mapsto> b(k := None))"
    if del: "bb_Delete sample_bolt p k db = Inr db'" for p k db db'
  proof -
    obtain b where b: "sview db p = Some b" "db' = (p, b(k := None)) # db" using del by (auto simp: sample_bolt_simps split: option.splits)
    then have "p \<noteq> []" by (auto simp: sview_def)
    then show ?thesis using b sview_put [of p db "b(k := None)"] by (simp add: sample_bolt_simps)
  qed
  show "\<exists>e. bb_DeleteBucket sample_bolt p db = Inl e" if "bb_view sample_bolt db p = None" for p db
    using that by (simp add: sample_bolt_def)
  show "bb_view sample_bolt db p \<noteq> None" "bb_view sample_bolt db' = (\<lambda>q. if prefix p q then None else bb_view sample_bolt db q)"
    if "bb_DeleteBucket sample_bolt p db = Inr db'" for p db db'
    using that sview_delete [of db p] by (auto simp: sample_bolt_def split: if_splits)
  show "bb_ReadBytes sample_bolt (bb_WriteBytes sample_bolt x @ rest) = Inr (x, rest)" for x rest
    by (simp add: sample_bolt_def read_into_def dec_many_enc_many)
  show "bb_ReadString sample_bolt (bb_WriteString sample_bolt x @ rest) = Inr (x, rest)" for x rest
    by (simp add: sample_bolt_def dec_strings_def enc_strings_def read_into_def dec_many_enc_many)
  show "bb_AddrFromIP sample_bolt [] = AddrInvalid" by (simp add: sample_bolt_def AddrFromSlice_def)
  show "bb_AddrFromIP sample_bolt (AsSlice a) = a" if "plain_addr a" for a
    using that AddrFromSlice_AsSlice [of a] by (simp add: sample_bolt_def plain_addr_def)
qed

definition file_cache :: "sample_db \<Rightarrow> sample_db CacheFile" where
  "file_cache db = \<lparr>cf_path = ''cache.db'', cf_cacheID = None, cf_storeFakeIP = True, cf_storeRDRC = True, cf_storeWARPConfig = False, cf_rdrcTimeout = hours (7 * 24), cf_DB = db,
     saveMetadataTimer = None, saveDomain = Map.empty, saveAddress4 = Map.empty, saveAddress6 = Map.empty, saveRDRC = Map.empty\<rparr>"

section \<open>The content of the cache file\<close>

text \<open>A sequence of operations, with those that succeeded.\<close>

fun cache_run :: "'db bolt \<Rightarrow> cache_op list \<Rightarrow> 'db CacheFile \<Rightarrow> cache_op list \<times> 'db CacheFile" where
  "cache_run B [] c = ([], c)"
| "cache_run B (x # xs) c =
     (case cache_perform B x c of (err, c) \<Rightarrow> (case cache_run B xs c of (oks, c) \<Rightarrow> (if err = None then x # oks else oks, c)))"

lemma cache_run_content:
  assumes "bolt_ok B" and "id_ok c" and "list_all op_ok xs" and "cache_run B xs c = (oks, c')"
  shows "content B c' = fold cache_apply oks (content B c)"
  using assms(2-4)
proof (induction xs arbitrary: c oks)
  case (Cons x xs)
  obtain err c1 oks1 where s: "cache_perform B x c = (err, c1)" "cache_run B xs c1 = (oks1, c')" "oks = (if err = None then x # oks1 else oks1)"
    using Cons.prems(3) by (auto split: prod.splits)
  have "id_ok c1" using perform_at(2) [OF assms(1) s(1)] Cons.prems(1) by (auto simp: id_ok_def)
  then have "content B c' = fold cache_apply oks1 (content B c1)" using Cons.IH [OF _ _ s(2)] Cons.prems(2) by simp
  moreover have "content B c1 = (if err = None then cache_apply x (content B c) else content B c)"
    using cache_refines [OF assms(1) Cons.prems(1) _ s(1)] Cons.prems(2) by simp
  ultimately show ?case using s(3) by simp
qed simp

text \<open>
  C25. The cache file refines a table of values: in any sequence of operations that store a mode, a selection, the
  state of a group or a rule-set, an operation changes exactly its value when it succeeds (a saved time is cut to
  whole seconds) and nothing when it fails, whatever cache identifier is configured.
\<close>

theorem cache_file_refines_table:
  assumes "bolt_ok B" and "cf_cacheID c = cf_cacheID (CacheFile_New BasePath options)" and "list_all op_ok xs" and "cache_run B xs c = (oks, c')"
  shows "content B c' = fold cache_apply oks (content B c)"
proof -
  have "id_ok c" using assms(2) by (auto simp: id_ok_def CacheFile_New_def split: if_splits)
  from cache_run_content [OF assms(1) this assms(3,4)] show ?thesis .
qed

theorem cache_file_refines_table_witness:
  "cc_selected (content sample_bolt (snd (cache_run sample_bolt [SetSelected ''g'' ''a'', SetMode ''rule''] (file_cache [])))) ''g'' = ''a''"
proof -
  let ?xs = "[SetSelected ''g'' ''a'', SetMode ''rule'']"
  let ?o = "\<lparr>cfo_Enabled = True, cfo_Path = [], cfo_CacheID = [], cfo_StoreFakeIP = True, cfo_StoreRDRC = True, cfo_StoreWARPConfig = False,
    cfo_RDRCTimeout = 0\<rparr>"
  have i: "cf_cacheID (file_cache []) = cf_cacheID (CacheFile_New id ?o)" by (simp add: file_cache_def CacheFile_New_def)
  have "fst (cache_run sample_bolt ?xs (file_cache [])) = ?xs"
    by (simp add: file_cache_def CacheFile_StoreSelected_def StoreMode_def batch_def createBucket_def bucket_path_def mode_key_def
        sample_bolt_simps sview_def str_bytes_def bucketSelected_def bucketMode_def cacheIDDefault_def)
  then have "cache_run sample_bolt ?xs (file_cache []) = (?xs, snd (cache_run sample_bolt ?xs (file_cache [])))"
    by (metis prod.collapse)
  from cache_file_refines_table [OF sample_bolt_ok i _ this] show ?thesis by simp
qed

section \<open>Fake addresses in memory\<close>

definition fakeip_started :: "Prefix \<Rightarrow> Prefix \<Rightarrow> MemoryStorage Store" where
  "fakeip_started r4 r6 = Store_Start Memory_ops NewMemoryStorage (NewStore r4 r6)"

lemma fakeip_reachable:
  assumes "range_ok False r4" and "range_ok True r6" and "\<forall>(e, w) \<in> set ops. e \<noteq> []"
  shows "mem.ready (creates Memory_ops ops (fakeip_started r4 r6))"
    and "range_of v6 (creates Memory_ops ops (fakeip_started r4 r6)) = (if v6 then r6 else r4)"
  using mem.creates_ready [OF memory_Start(1) [OF assms(1,2)] assms(3)] memory_Start(3) [OF assms(1,2)]
  by (simp_all add: fakeip_started_def)

lemma memory_saves:
  assumes "mem.ready st" and "st_storage st = Some s" and "\<not> mem.knows st d v6" and "plain_addr a" and "Addr_Is4 a = (\<not> v6)"
  shows "fst (fs_Store Memory_ops a d s) = None"
  using assms memory_store(3) [of s a d] by (auto simp: mem.ready_def mem.knows_def memory_ops_simps)

text \<open>
  C23. A domain keeps its fake address until the range has gone round: whatever was asked before, a domain that has no
  address gets one of the range, not one of its first two; and while fewer than all addresses of that range are
  handed out again, the address leads back to the domain and the domain to the same address.
\<close>

theorem fakeip_address_stays:
  assumes "range_ok False r4" and "range_ok True r6" and "\<forall>(e, w) \<in> set earlier. e \<noteq> []" and "\<forall>(e, w) \<in> set later. e \<noteq> []"
    and "d \<noteq> []" and "Prefix_IsValid (if v6 then r6 else r4)" and "st = creates Memory_ops earlier (fakeip_started r4 r6)"
    and "\<forall>a. Store_Lookup Memory_ops st a \<noteq> Inr (Some d)"
    and "length (filter (\<lambda>(e, w). w = v6) later) < pool_size (if v6 then r6 else r4)"
  shows "\<exists>a st'. Store_Create Memory_ops d v6 st = (Inr a, st') \<and> a \<in> pool (if v6 then r6 else r4) \<and>
    Store_Lookup Memory_ops (creates Memory_ops later st') a = Inr (Some d) \<and>
    fst (Store_Create Memory_ops d v6 (creates Memory_ops later st')) = Inr a"
proof -
  have r: "mem.ready st" "range_of w st = (if w then r6 else r4)" for w
    using fakeip_reachable [OF assms(1-3)] assms(7) by simp_all
  have k: "\<not> mem.knows st d v6" using mem.known_holds [OF r(1), of d v6] assms(8) by blast
  obtain a st' where c: "Store_Create Memory_ops d v6 st = (Inr a, st')" "mem.holds v6 a d 0 st'" "\<forall>w. range_of w st' = range_of w st"
    using mem.created_holds [OF r(1) k assms(5)] memory_saves [OF r(1) _ k] assms(6) r(2) by auto
  obtain n where h: "mem.holds v6 a d n (creates Memory_ops later st')"
    using mem.holds_creates [OF c(2) assms(4)] assms(9) c(3) r(2) by auto
  have "a \<in> pool (if v6 then r6 else r4)" using c(2,3) r(2) by (simp add: mem.holds_def)
  then show ?thesis using c(1) mem.holds_answers [OF h] by auto
qed

definition sample_range :: Prefix where "sample_range = \<lparr>pf_Addr = Addr4 0xC6120000, pf_bits = Some 15\<rparr>"

lemma sample_range_ok: "range_ok False sample_range"
proof -
  have "Addr_Is4 a" if "Prefix_Contains sample_range a" for a
    using that by (cases a) (auto simp: Prefix_Contains_def sample_range_def split: if_splits)
  moreover have "plain_addr a" if "Addr_Is4 a" for a using that by (cases a) (simp_all add: plain_addr_def Is4In6_def)
  ultimately show ?thesis
    by (auto simp: range_ok_def plain_prefix_def Prefix_wf_def range_first_def range_last_def addr_value_def pool_def sample_range_def)
qed

theorem fakeip_address_stays_witness:
  "\<exists>a. fst (Store_Create Memory_ops ''a.com'' False (creates Memory_ops [] (fakeip_started sample_range zeroPrefix))) = Inr a \<and>
    a \<in> pool sample_range"
proof -
  have "\<forall>a. Store_Lookup Memory_ops (creates Memory_ops [] (fakeip_started sample_range zeroPrefix)) a \<noteq> Inr (Some ''a.com'')"
    by (simp add: fakeip_started_def Store_Start_def fresh_start_def Memory_ops_def Memory_FakeIPReset_def NewMemoryStorage_def Store_Lookup_def Let_def)
  moreover have "range_ok True zeroPrefix" "Prefix_IsValid sample_range" "0 < pool_size sample_range"
    by (simp_all add: range_ok_def Prefix_IsValid_def sample_range_def pool_size_def range_last_def range_first_def addr_value_def)
  ultimately show ?thesis
    using fakeip_address_stays [OF sample_range_ok, of zeroPrefix "[]" "[]" "''a.com''" False] by (auto simp: split_beta)
qed

text \<open>
  The fake-IP transport answers an address query with one address of its range, and that address leads back to the
  domain of the question; other queries, and those of a family without a range, are refused.
\<close>

theorem fakeip_exchange_answer:
  assumes "range_ok False r4" and "range_ok True r6" and "\<forall>(e, w) \<in> set earlier. e \<noteq> []"
    and "st = creates Memory_ops earlier (fakeip_started r4 r6)" and "msg_Question message = [(name, ty, cls)]"
    and "FqdnToDomain D name \<noteq> []" and "\<forall>a. plain_addr a \<longrightarrow> AddrFromIP D (AsSlice a) = a"
  shows "if (ty = 1 \<and> Prefix_IsValid r4) \<or> (ty = 28 \<and> Prefix_IsValid r6)
    then \<exists>answer st' a. FakeIP_Exchange D Memory_ops message st = (Inr answer, st') \<and> MessageToAddresses D answer = [a] \<and>
      a \<in> pool (if ty = 28 then r6 else r4) \<and> Store_Contains st' a \<and> Store_Lookup Memory_ops st' a = Inr (Some (FqdnToDomain D name))
    else \<exists>err. FakeIP_Exchange D Memory_ops message st = (Inl err, st)"
proof -
  let ?d = "FqdnToDomain D name" and ?v = "ty = 28"
  have r: "mem.ready st" "range_of w st = (if w then r6 else r4)" for w
    using fakeip_reachable [OF assms(1-3)] assms(4) by simp_all
  show ?thesis
  proof (cases "(ty = 1 \<and> Prefix_IsValid r4) \<or> (ty = 28 \<and> Prefix_IsValid r6)")
    case True
    then have pv: "Prefix_IsValid (range_of ?v st)" and t: "ty = 1 \<or> ty = 28" using r(2) by auto
    obtain a st' where c: "Store_Create Memory_ops ?d ?v st = (Inr a, st')" "Store_Lookup Memory_ops st' a = Inr (Some ?d)"
      "a \<in> pool (range_of ?v st)" "plain_addr a" "Addr_Is4 a = (\<not> ?v)" "\<forall>w. range_of w st' = range_of w st"
    proof (cases "mem.knows st ?d ?v")
      case True
      then show ?thesis using that mem.known_holds [OF r(1) True] by blast
    next
      case False
      obtain a st' where n: "Store_Create Memory_ops ?d ?v st = (Inr a, st')" "mem.holds ?v a ?d 0 st'" "\<forall>w. range_of w st' = range_of w st"
        using mem.created_holds [OF r(1) False assms(6) pv] memory_saves [OF r(1) _ False] by blast
      show ?thesis by (rule that [OF n(1) mem.holds_answers(1) [OF n(2)]]) (use n(2,3) in \<open>simp_all add: mem.holds_def\<close>)
    qed
    have x: "FakeIP_Exchange D Memory_ops message st = (Inr (FixedResponse (msg_Id message) (name, ty, cls) [a] 600), st')"
      using c(1) t by (auto simp: FakeIP_Exchange_def assms(5))
    have "MessageToAddresses D (FixedResponse (msg_Id message) (name, ty, cls) [a] 600) = [a]"
      using MessageToAddresses_Fixed [of "[a]" D] c(4,5) assms(7) t by (cases a) (auto simp: plain_addr_def)
    moreover have "Prefix_Contains (range_of ?v st') a" using c(3) spec [OF c(6), of ?v] by (simp add: pool_def)
    then have "Store_Contains st' a" by (auto simp: Store_Contains_def range_of_def split: if_splits)
    moreover have "a \<in> pool (if ty = 28 then r6 else r4)" using c(3) r(2) by simp
    ultimately show ?thesis using x c(2) unfolding if_P [OF True] by (intro exI conjI)
  next
    case False
    have "\<exists>err. FakeIP_Exchange D Memory_ops message st = (Inl err, st)"
    proof (cases "ty = 1 \<or> ty = 28")
      case True
      then have no: "\<not> Prefix_IsValid (range_of ?v st)" using False r(2) by auto
      have "\<not> mem.knows st ?d ?v" using mem.known_holds [OF r(1)] no by (auto simp: pool_def dest: Prefix_Contains_IsValid)
      then obtain err where "Store_Create Memory_ops ?d ?v st = (Inl err, st)" using mem.create_unknown_range [OF r(1) _ no] by blast
      then show ?thesis using True by (auto simp: FakeIP_Exchange_def assms(5))
    qed (simp add: FakeIP_Exchange_def assms(5))
    then show ?thesis unfolding if_not_P [OF False] .
  qed
qed

theorem fakeip_exchange_answer_witness:
  "\<exists>answer st' a. FakeIP_Exchange sample_dns Memory_ops (FixedResponse 7 (''a.com.'', 1, 1) [] 0) (fakeip_started sample_range zeroPrefix) = (Inr answer, st') \<and>
    MessageToAddresses sample_dns answer = [a] \<and> Store_Lookup Memory_ops st' a = Inr (Some ''a.com'')"
proof -
  have "range_ok True zeroPrefix" "Prefix_IsValid sample_range" by (simp_all add: range_ok_def Prefix_IsValid_def sample_range_def)
  moreover have "FqdnToDomain sample_dns ''a.com.'' = ''a.com''" by (simp add: FqdnToDomain_def sample_dns_def)
  moreover have "\<forall>a. plain_addr a \<longrightarrow> AddrFromIP sample_dns (AsSlice a) = a" by (simp add: sample_dns_def AddrFromSlice_AsSlice plain_addr_def)
  moreover have "msg_Question (FixedResponse 7 (''a.com.'', 1, 1) [] 0) = [(''a.com.'', 1, 1)]" by (simp add: FixedResponse_def fixed_header_def)
  ultimately show ?thesis
    using fakeip_exchange_answer [OF sample_range_ok, of zeroPrefix "[]" "fakeip_started sample_range zeroPrefix"
        "FixedResponse 7 (''a.com.'', 1, 1) [] 0" "''a.com.''" 1 1 sample_dns] by fastforce
qed

section \<open>Fake addresses in the cache file\<close>

definition old_address :: addr where "old_address = Addr4 0xC6120003"

definition used_cache :: "sample_db CacheFile" where
  "used_cache = snd (Cache_FakeIPStore sample_bolt old_address ''a.com'' (file_cache []))"

lemma domain_bucket_name: "[bucketFakeIPDomain6] = domain_bucket True"
  by (simp add: domain_bucket_def)

lemma prefix_domain_bucket [simp]: "prefix (domain_bucket v) (domain_bucket w) \<longleftrightarrow> v = w" "\<not> prefix (domain_bucket v) [bucketFakeIP]"
  "\<not> prefix [bucketFakeIP] (domain_bucket v)" "domain_bucket v \<noteq> []"
  using fakeip_buckets by (auto simp: domain_bucket_def)

lemma used_cache_DB:
  "used_cache = (file_cache [])\<lparr>cf_DB := [(domain_bucket False, [str_bytes ''a.com'' \<mapsto> AsSlice old_address]), (domain_bucket False, Map.empty),
     ([bucketFakeIP], [AsSlice old_address \<mapsto> str_bytes ''a.com'']), ([bucketFakeIP], Map.empty)]\<rparr>"
proof -
  have "AsSlice old_address \<noteq> []" "str_bytes ''a.com'' \<noteq> []" "Addr_Is4 old_address"
    by (simp_all add: AsSlice_def old_address_def str_bytes_def flip: length_0_conv)
  moreover have "length (domain_bucket v) = 1" for v by (simp add: domain_bucket_def)
  ultimately show ?thesis
    by (simp add: used_cache_def Cache_FakeIPStore_def batch_def store_fakeip_def sample_bolt_simps sview_def file_cache_def Let_def)
qed

lemma used_cache:
  shows "cache_inv sample_bolt used_cache" and "Cache_FakeIPLoad sample_bolt used_cache old_address = Some ''a.com''"
    and "bb_view sample_bolt (cf_DB used_cache) [bucketFakeIPDomain6] = None"
    and "sview (cf_DB used_cache) [bucketFakeIP] = Some [AsSlice old_address \<mapsto> str_bytes ''a.com'']"
proof -
  have i: "cache_inv sample_bolt (file_cache [])"
    by (simp add: cache_inv_def file_cache_def Cache_FakeIPLoad_def value_at_def sample_bolt_simps sview_def)
  have p: "plain_addr old_address" by (simp add: plain_addr_def old_address_def Is4In6_def)
  have l: "Cache_FakeIPLoadDomain sample_bolt (file_cache []) ''a.com'' (\<not> Addr_Is4 old_address) = None"
    by (simp add: Cache_FakeIPLoadDomain_def file_cache_def sample_bolt_simps sview_def)
  have "store_fakeip sample_bolt old_address ''a.com'' (cf_DB (file_cache [])) = Inr (cf_DB used_cache)"
    using used_cache_DB
    by (cases "store_fakeip sample_bolt old_address ''a.com'' (cf_DB (file_cache []))")
      (simp_all add: used_cache_def Cache_FakeIPStore_def batch_def sample_bolt_simps file_cache_def)
  note c = cache_store [OF sample_bolt_ok i p _ l this]
  have u: "(file_cache [])\<lparr>cf_DB := cf_DB used_cache\<rparr> = used_cache" by (simp add: used_cache_DB)
  show "cache_inv sample_bolt used_cache" using c(1) u by simp
  show "Cache_FakeIPLoad sample_bolt used_cache old_address = Some ''a.com''" using c(2) [OF _ p] u by simp
  show "bb_view sample_bolt (cf_DB used_cache) [bucketFakeIPDomain6] = None"
    by (simp add: sample_bolt_simps domain_bucket_name sview_def used_cache_DB)
  show "sview (cf_DB used_cache) [bucketFakeIP] = Some [AsSlice old_address \<mapsto> str_bytes ''a.com'']"
    by (simp add: sview_def used_cache_DB)
qed

text \<open>
  C24. A restart with the same ranges goes on where the store stopped: after a \<open>Close\<close> that saved the metadata, a
  start on the cache file restores both positions, takes the metadata out of the file, and keeps the table.
\<close>

theorem fakeip_restart:
  assumes "bolt_ok B" and "cache_inv B c" and "st_storage st = Some c" and "plain_prefix (inet4Range st)" and "plain_prefix (inet6Range st)"
    and "\<not> hasZone (inet4Current st)" and "\<not> hasZone (inet6Current st)"
    and "Store_Close (Cache_ops B) st = (None, st1)" and "st_storage st1 = Some c1" and "Cache_FakeIPMetadata B c1 = (Some m, c2)"
  shows "Store_Start (Cache_ops B) c1 (NewStore (inet4Range st) (inet6Range st)) = st\<lparr>st_storage := Some c2\<rparr> \<and>
    cache_inv B c2 \<and> (\<forall>a. plain_addr a \<longrightarrow> Cache_FakeIPLoad B c2 a = Cache_FakeIPLoad B c a)"
proof -
  have s: "batch B (\<lambda>db. bind_result (bb_Create B [bucketFakeIP] db) (bb_Put B [bucketFakeIP] keyMetadata (Metadata_MarshalBinary (store_metadata st)))) c = (None, c1)"
    using assms(3,8,9) by (auto simp: Store_Close_def Cache_ops_def Cache_FakeIPSaveMetadata_def split: prod.splits)
  note p = put_top [OF assms(1) s]
  obtain db where c1: "c1 = c\<lparr>cf_DB := db\<rparr>" using p(2) by blast
  have a: "value_at B db q j = (if q = [bucketFakeIP] \<and> j = keyMetadata then Some (Metadata_MarshalBinary (store_metadata st)) else value_at B (cf_DB c) q j)" for q j
    using p(1) c1 by simp
  have same: "value_at B db q j = value_at B (cf_DB c) q j" if "(q, j) \<noteq> ([bucketFakeIP], keyMetadata)" for q j using a that by auto
  note i = metadata_apart [OF assms(1,2) c1 same]
  note k = Metadata_keeps [OF assms(1) i(2) assms(10)]
  have "length (Addr_MarshalBinary x) < 2 ^ 16" if "\<not> hasZone x" for x
    using that by (cases x) (auto simp: Addr_MarshalBinary_def length_AsSlice str_bytes_def)
  then have "Metadata_UnmarshalBinary (Metadata_MarshalBinary (store_metadata st)) = Inr (store_metadata st)"
    using assms(4-7) by (intro Metadata_Unmarshal_Marshal) (simp_all add: store_metadata_def)
  moreover obtain bs where "value_at B (cf_DB c1) [bucketFakeIP] keyMetadata = Some bs" "Metadata_UnmarshalBinary bs = Inr m" using k(4) by blast
  ultimately have "m = store_metadata st" using a c1 by simp
  then have "Store_Start (Cache_ops B) c1 (NewStore (inet4Range st) (inet6Range st)) = st\<lparr>st_storage := Some c2\<rparr>"
    using assms(10) by (cases st) (simp add: Store_Start_def Cache_ops_def NewStore_def store_metadata_def)
  then show ?thesis using i k(1,2) by simp
qed

text \<open>
  Changing the range does not clear the table when only addresses of one family were used: resetting the cache file
  deletes three buckets in one transaction, which is undone when the bucket of the other family is missing. The old
  domains keep their old addresses, which the store does not count as its own.
\<close>

theorem fakeip_reset_undone:
  assumes "bolt_ok B" and "cache_inv B c" and "bb_view B (cf_DB c) [bucketFakeIPDomain6] = None"
    and "plain_addr a" and "Addr_Is4 a" and "Cache_FakeIPLoad B c a = Some d" and "\<not> Prefix_Contains r4 a"
    and "\<forall>m c'. Cache_FakeIPMetadata B c = (Some m, c') \<longrightarrow> Inet4Range m \<noteq> r4"
  defines "st \<equiv> Store_Start (Cache_ops B) c (NewStore r4 zeroPrefix)"
  shows "Store_Create (Cache_ops B) d False st = (Inr a, st) \<and> \<not> Store_Contains st a"
proof -
  obtain m c1 where m: "Cache_FakeIPMetadata B c = (m, c1)" by fastforce
  note k = Metadata_keeps [OF assms(1,2) m]
  have n: "bb_view B (cf_DB c1) [bucketFakeIPDomain6] = None"
    using k(3) [of "[bucketFakeIPDomain6]"] assms(3) by (simp add: bucketFakeIPDomain6_def bucketFakeIP_def)
  have "st = fresh_start (Cache_ops B) c1 (NewStore r4 zeroPrefix)"
    using m assms(8) by (auto simp: st_def Store_Start_def Cache_ops_def NewStore_def split: option.splits)
  then have s: "st_storage st = Some c1" "inet4Range st = r4" "inet6Range st = zeroPrefix"
    using Reset_undone [OF assms(1) n] by (auto simp: fresh_start_def Let_def NewStore_def Cache_ops_def)
  have "Cache_FakeIPLoadDomain B c1 d False = Some a"
    using cache_domain [OF assms(1) k(1)] k(2) [OF assms(4)] assms(4-6) by simp
  then show ?thesis using s assms(7) by (simp add: Store_Create_def Cache_ops_def Store_Contains_def)
qed

definition other_range :: Prefix where "other_range = \<lparr>pf_Addr = Addr4 0x0A000000, pf_bits = Some 8\<rparr>"

theorem fakeip_reset_undone_witness:
  "fst (Store_Create (Cache_ops sample_bolt) ''a.com'' False (Store_Start (Cache_ops sample_bolt) used_cache (NewStore other_range zeroPrefix))) =
   Inr old_address \<and> \<not> Prefix_Contains other_range old_address"
proof -
  have n: "\<not> Prefix_Contains other_range old_address" by (simp add: Prefix_Contains_def other_range_def old_address_def)
  have "plain_addr old_address" by (simp add: plain_addr_def old_address_def Is4In6_def)
  from AsSlice_metadata [OF this] have "value_at sample_bolt (cf_DB used_cache) [bucketFakeIP] keyMetadata = None"
    using used_cache(4) by (auto simp: value_at_def sample_bolt_simps)
  then have "\<forall>m c'. Cache_FakeIPMetadata sample_bolt used_cache = (Some m, c') \<longrightarrow> Inet4Range m \<noteq> other_range"
    using Metadata_keeps(4) [OF sample_bolt_ok used_cache(1)] by (metis option.distinct(1))
  then show ?thesis
    using fakeip_reset_undone [OF sample_bolt_ok used_cache(1,3) _ _ used_cache(2) n] n
    by (simp add: old_address_def plain_addr_def Is4In6_def)
qed

lemma save_take_metadata:
  assumes "sview (cf_DB c) [bucketFakeIP] = Some b" and "Metadata_UnmarshalBinary (Metadata_MarshalBinary m) = Inr m"
  shows "\<exists>c1 c2. Cache_FakeIPSaveMetadata sample_bolt m c = (None, c1) \<and> Cache_FakeIPMetadata sample_bolt c1 = (Some m, c2)"
proof -
  let ?db = "([bucketFakeIP], b(keyMetadata \<mapsto> Metadata_MarshalBinary m)) # cf_DB c"
  have k: "keyMetadata \<noteq> []" "Metadata_MarshalBinary m \<noteq> []" by (simp_all add: keyMetadata_def str_bytes_def Metadata_MarshalBinary_def put_element_def flip: length_0_conv)
  have "Cache_FakeIPSaveMetadata sample_bolt m c = (None, c\<lparr>cf_DB := ?db\<rparr>)"
    using assms(1) k(1) by (simp add: Cache_FakeIPSaveMetadata_def batch_def sample_bolt_simps)
  moreover have "sview ?db [bucketFakeIP] = Some (b(keyMetadata \<mapsto> Metadata_MarshalBinary m))" by (simp add: sview_Cons)
  then have "\<exists>c2. Cache_FakeIPMetadata sample_bolt (c\<lparr>cf_DB := ?db\<rparr>) = (Some m, c2)"
    using k(2) assms(2) by (simp add: Cache_FakeIPMetadata_def batch_def take_metadata_def sample_bolt_simps)
  ultimately show ?thesis by blast
qed

theorem fakeip_restart_witness:
  "\<exists>st1 c1 c2. Store_Close (Cache_ops sample_bolt) ((NewStore sample_range zeroPrefix)\<lparr>st_storage := Some used_cache, inet4Current := old_address\<rparr>) = (None, st1) \<and>
     st_storage st1 = Some c1 \<and>
     Store_Start (Cache_ops sample_bolt) c1 (NewStore sample_range zeroPrefix) =
       (NewStore sample_range zeroPrefix)\<lparr>st_storage := Some c2, inet4Current := old_address\<rparr>"
proof -
  let ?st = "(NewStore sample_range zeroPrefix)\<lparr>st_storage := Some used_cache, inet4Current := old_address\<rparr>"
  have p: "plain_prefix (inet4Range ?st)" "plain_prefix (inet6Range ?st)" "\<not> hasZone (inet4Current ?st)" "\<not> hasZone (inet6Current ?st)"
    by (simp_all add: NewStore_def plain_prefix_def Prefix_wf_def sample_range_def zeroPrefix_def old_address_def)
  have "Metadata_UnmarshalBinary (Metadata_MarshalBinary (store_metadata ?st)) = Inr (store_metadata ?st)"
    using p by (intro Metadata_Unmarshal_Marshal) (simp_all add: store_metadata_def NewStore_def Addr_MarshalBinary_def old_address_def AsSlice_def)
  from save_take_metadata [OF used_cache(4) this] obtain c1 c2
    where c: "Cache_FakeIPSaveMetadata sample_bolt (store_metadata ?st) used_cache = (None, c1)"
      "Cache_FakeIPMetadata sample_bolt c1 = (Some (store_metadata ?st), c2)" by blast
  have cl: "Store_Close (Cache_ops sample_bolt) ?st = (None, ?st\<lparr>st_storage := Some c1\<rparr>)" using c(1) by (simp add: Store_Close_def Cache_ops_def)
  have "Store_Start (Cache_ops sample_bolt) c1 (NewStore (inet4Range ?st) (inet6Range ?st)) = ?st\<lparr>st_storage := Some c2\<rparr>"
    using fakeip_restart [OF sample_bolt_ok used_cache(1) _ p cl _ c(2)] by simp
  then show ?thesis using cl by (auto simp: NewStore_def)
qed

end
