(* ===== verification/Ja3.thy ===== *)
theory Ja3
  imports Binary_IO
begin

text \<open>
  The TLS ClientHello parser and fingerprint of \<open>common/ja3\<close>. A slice expression or index out of range is
  a \<open>Panic\<close>; every other error is a \<open>ParseError\<close>. \<open>encode_record\<close> is the layout of a ClientHello in a TLS
  record, the reference the parser is compared with: what it encodes is read back field by field.
\<close>

section \<open>Parse errors\<close>

abbreviation LengthErr :: string where "LengthErr \<equiv> ''length check %v failed''"
abbreviation ContentTypeErr :: string where "ContentTypeErr \<equiv> ''content type not matching''"
abbreviation VersionErr :: string where "VersionErr \<equiv> ''version check %v failed''"
abbreviation HandshakeTypeErr :: string where "HandshakeTypeErr \<equiv> ''handshake type not matching''"
abbreviation SNITypeErr :: string where "SNITypeErr \<equiv> ''SNI type not supported''"

definition ParseError :: "string \<Rightarrow> nat \<Rightarrow> error" where
  "ParseError errType check = E_New [S errType, N check]"

definition slice_panic :: error where
  "slice_panic = Panic [S ''slice bounds out of range'']"

text \<open>The text of a parse error: the verb of the two numbered kinds is replaced by the check.\<close>

definition ParseError_Error :: "string \<Rightarrow> nat \<Rightarrow> string" where
  "ParseError_Error errType check =
     (if errType = LengthErr then ''length check '' @ Itoa check @ '' failed''
      else if errType = VersionErr then ''version check '' @ Itoa check @ '' failed''
      else errType)"

section \<open>The parsed message\<close>

record ClientHello =
  ch_Version :: "16 word"
  ch_CipherSuites :: "16 word list"
  ch_Extensions :: "16 word list"
  ch_EllipticCurves :: "16 word list"
  ch_EllipticCurvePF :: "8 word list"
  ch_Versions :: "16 word list"
  ch_SignatureAlgorithms :: "16 word list"
  ch_ServerName :: string
  ch_ja3ByteString :: "string option"
  ch_ja3Hash :: string

definition zeroClientHello :: ClientHello where
  "zeroClientHello = \<lparr>ch_Version = 0, ch_CipherSuites = [], ch_Extensions = [], ch_EllipticCurves = [],
     ch_EllipticCurvePF = [], ch_Versions = [], ch_SignatureAlgorithms = [], ch_ServerName = [],
     ch_ja3ByteString = None, ch_ja3Hash = []\<rparr>"

text \<open>A two-byte big-endian number, as the code puts it together from two bytes.\<close>

definition be16 :: "8 word \<Rightarrow> 8 word \<Rightarrow> 16 word" where
  "be16 a b = push_bit 8 (ucast a) OR ucast b"

definition be24 :: "8 word \<Rightarrow> 8 word \<Rightarrow> 8 word \<Rightarrow> 32 word" where
  "be24 a b c = push_bit 16 (ucast a) OR push_bit 8 (ucast b) OR ucast c"

text \<open>\<open>for i := 0; i < n; i += 2\<close> over the two-byte numbers of a slice.\<close>

fun uint16_loop :: "nat \<Rightarrow> bytes \<Rightarrow> 16 word list result" where
  "uint16_loop n bs =
     (if n = 0 then Inr []
      else (case bs of
              a # b # rest \<Rightarrow> bind_result (uint16_loop (n - 2) rest) (\<lambda>ws. Inr (be16 a b # ws))
            | _ \<Rightarrow> Inl slice_panic))"

declare uint16_loop.simps [simp del]

section \<open>Extensions\<close>

abbreviation tls13 :: "16 word" where "tls13 \<equiv> 0x0304"
abbreviation tlsVersionBitmask :: "16 word" where "tlsVersionBitmask \<equiv> 0xFFFC"
abbreviation GreaseBitmask :: "16 word" where "GreaseBitmask \<equiv> 0x0F0F"

text \<open>The local variables of \<open>parseExtensions\<close>.\<close>

record extension_vars =
  xv_sni :: bytes
  xv_extensions :: "16 word list"
  xv_ellipticCurves :: "16 word list"
  xv_ellipticCurvePF :: "8 word list"
  xv_versions :: "16 word list"
  xv_signatureAlgorithms :: "16 word list"

definition no_extensions :: extension_vars where
  "no_extensions = \<lparr>xv_sni = [], xv_extensions = [], xv_ellipticCurves = [], xv_ellipticCurvePF = [],
     xv_versions = [], xv_signatureAlgorithms = []\<rparr>"

text \<open>The switch on the type of one extension with body \<open>sex\<close>.\<close>

definition parse_extension :: "16 word \<Rightarrow> bytes \<Rightarrow> extension_vars \<Rightarrow> extension_vars result" where
  "parse_extension exType sex v =
     (if exType = 0 then
        (if length sex < 5 then Inl (ParseError LengthErr 13)
         else if length (drop 5 sex) \<noteq> unat (be16 (sex ! 3) (sex ! 4)) then Inl (ParseError LengthErr 14)
         else if sex ! 2 = 0 then Inr (v\<lparr>xv_sni := drop 5 sex\<rparr>)
         else Inl (ParseError SNITypeErr 0))
      else if exType = 10 then
        (if length sex < 2 then Inl (ParseError LengthErr 15)
         else let ecsLen = be16 (sex ! 0) (sex ! 1) in
           if length (drop 2 sex) \<noteq> unat ecsLen then Inl (ParseError LengthErr 16)
           else bind_result (uint16_loop (2 * (unat ecsLen div 2)) (drop 2 sex))
                  (\<lambda>ws. Inr (v\<lparr>xv_ellipticCurves := ws\<rparr>)))
      else if exType = 11 then
        (if length sex < 1 then Inl (ParseError LengthErr 17)
         else if length (drop 1 sex) \<noteq> unat (sex ! 0) then Inl (ParseError LengthErr 18)
         else Inr (v\<lparr>xv_ellipticCurvePF := drop 1 sex\<rparr>))
      else if exType = 43 then
        (if length sex < 1 then Inl (ParseError LengthErr 19)
         else bind_result (uint16_loop (unat (sex ! 0)) (drop 1 sex))
                (\<lambda>ws. Inr (v\<lparr>xv_versions := xv_versions v @ ws\<rparr>)))
      else if exType = 13 then
        (if length sex < 2 then Inl (ParseError LengthErr 20)
         else bind_result (uint16_loop (unat (be16 (sex ! 0) (sex ! 1))) (drop 2 sex))
                (\<lambda>ws. Inr (v\<lparr>xv_signatureAlgorithms := xv_signatureAlgorithms v @ ws\<rparr>)))
      else Inr v)"

text \<open>The loop over the extensions. The sum \<open>4 + exLen\<close> of the last statement is 16 bits wide; where it
  wraps to 0 the loop would stand still, which is \<open>no_advance\<close> here. A record is too short for that
  (lemma \<open>extension_loop_advances\<close>).\<close>

definition no_advance :: error where
  "no_advance = Panic [S ''loop does not advance'']"

function extension_loop :: "bytes \<Rightarrow> extension_vars \<Rightarrow> extension_vars result" where
  "extension_loop exs v =
     (if length exs = 0 then Inr v
      else if length exs < 4 then Inl (ParseError LengthErr 11)
      else
        let exType = be16 (exs ! 0) (exs ! 1);
            exLen = be16 (exs ! 2) (exs ! 3);
            v1 = v\<lparr>xv_extensions := xv_extensions v @ [exType]\<rparr>
        in if length exs < 4 + unat exLen then Inl (ParseError LengthErr 12)
           else (case parse_extension exType (take (unat exLen) (drop 4 exs)) v1 of
                   Inl e \<Rightarrow> Inl e
                 | Inr v2 \<Rightarrow>
                     if unat (4 + exLen) = 0 then Inl no_advance
                     else extension_loop (drop (unat (4 + exLen)) exs) v2))"
  by pat_completeness auto
termination by (relation "measure (\<lambda>(exs, v). length exs)") auto

declare extension_loop.simps [simp del]

definition parseExtensions :: "ClientHello \<Rightarrow> bytes \<Rightarrow> ClientHello result" where
  "parseExtensions j exs =
     (if length exs = 0 then Inr j
      else if length exs < 2 then Inl (ParseError LengthErr 9)
      else if length (drop 2 exs) < unat (be16 (exs ! 0) (exs ! 1)) then Inl (ParseError LengthErr 10)
      else bind_result (extension_loop (drop 2 exs) no_extensions)
             (\<lambda>v. Inr (j\<lparr>ch_ServerName := bytes_str (xv_sni v), ch_Extensions := xv_extensions v,
                ch_EllipticCurves := xv_ellipticCurves v, ch_EllipticCurvePF := xv_ellipticCurvePF v,
                ch_Versions := xv_versions v, ch_SignatureAlgorithms := xv_signatureAlgorithms v\<rparr>)))"

section \<open>Handshake and record\<close>

definition tls_version_ok :: "16 word \<Rightarrow> bool" where
  "tls_version_ok v \<longleftrightarrow> v AND tlsVersionBitmask = 0x0300 \<or> v = tls13"

text \<open>The lengths are those of the header constants: 6 + 32 bytes before the session id length.\<close>

definition parseHandshake :: "ClientHello \<Rightarrow> bytes \<Rightarrow> ClientHello result" where
  "parseHandshake j hs =
     (if length hs < 39 then Inl (ParseError LengthErr 3)
      else if hs ! 0 \<noteq> 1 then Inl (ParseError HandshakeTypeErr 0)
      else if length (drop 4 hs) \<noteq> unat (be24 (hs ! 1) (hs ! 2) (hs ! 3)) then Inl (ParseError LengthErr 4)
      else
        let tlsVersion = be16 (hs ! 4) (hs ! 5) in
        if \<not> tls_version_ok tlsVersion then Inl (ParseError VersionErr 2)
        else
          let j1 = j\<lparr>ch_Version := tlsVersion\<rparr>;
              sessionIDLen = unat (hs ! 38)
          in if length hs < 39 + sessionIDLen then Inl (ParseError LengthErr 5)
             else
               let cs = drop (39 + sessionIDLen) hs in
               if length cs < 2 then Inl (ParseError LengthErr 6)
               else
                 let csLen = unat (be16 (cs ! 0) (cs ! 1)) in
                 if length cs < 2 + csLen + 1 then Inl (ParseError LengthErr 7)
                 else bind_result (uint16_loop (2 * (csLen div 2)) (drop 2 cs)) (\<lambda>cipherSuites.
                   let j2 = j1\<lparr>ch_CipherSuites := cipherSuites\<rparr>;
                       compressMethodLen = unat (cs ! (2 + csLen))
                   in if length cs < 2 + csLen + 1 + compressMethodLen then Inl (ParseError LengthErr 8)
                      else parseExtensions j2 (drop (2 + csLen + 1 + compressMethodLen) cs)))"

definition parseSegment :: "ClientHello \<Rightarrow> bytes \<Rightarrow> ClientHello result" where
  "parseSegment j segment =
     (if length segment < 5 then Inl (ParseError LengthErr 1)
      else if segment ! 0 \<noteq> 22 then Inl (ParseError ContentTypeErr 0)
      else if \<not> tls_version_ok (be16 (segment ! 1) (segment ! 2)) then Inl (ParseError VersionErr 1)
      else
        let segmentLen = unat (be16 (segment ! 3) (segment ! 4)) in
        if length (drop 5 segment) < segmentLen then Inl (ParseError LengthErr 2)
        else parseHandshake j (take segmentLen (drop 5 segment)))"

definition Compute :: "bytes \<Rightarrow> ClientHello result" where
  "Compute payload = parseSegment zeroClientHello payload"

section \<open>The fingerprint\<close>

text \<open>The loop over one list of numbers: what fails the test is skipped, and the last byte written so
  far, whatever it is, becomes the comma.\<close>

definition marshal_numbers :: "16 word list \<Rightarrow> string \<Rightarrow> string" where
  "marshal_numbers vals s =
     (if length vals \<noteq> 0
      then butlast (s @ concat (map (\<lambda>val. if val AND GreaseBitmask \<noteq> 0x0A0A then []
                                          else Itoa (unat val) @ ''-'') vals)) @ '',''
      else s @ '','')"

definition marshal_formats :: "8 word list \<Rightarrow> string \<Rightarrow> string" where
  "marshal_formats vals s =
     (if length vals \<noteq> 0 then butlast (s @ concat (map (\<lambda>val. Itoa (unat val) @ ''-'') vals)) else s)"

definition marshalJA3 :: "ClientHello \<Rightarrow> ClientHello" where
  "marshalJA3 j = j\<lparr>ch_ja3ByteString := Some
     (marshal_formats (ch_EllipticCurvePF j)
       (marshal_numbers (ch_EllipticCurves j)
         (marshal_numbers (ch_Extensions j)
           (marshal_numbers (ch_CipherSuites j) (Itoa (unat (ch_Version j)) @ '','')))))\<rparr>"

definition ClientHello_String :: "ClientHello \<Rightarrow> string \<times> ClientHello" where
  "ClientHello_String j =
     (let j1 = (case ch_ja3ByteString j of None \<Rightarrow> marshalJA3 j | Some _ \<Rightarrow> j)
      in (the (ch_ja3ByteString j1), j1))"

text \<open>\<open>md5hex\<close> is the hexadecimal MD5 digest of the standard library.\<close>

definition ClientHello_Hash :: "(string \<Rightarrow> string) \<Rightarrow> ClientHello \<Rightarrow> string \<times> ClientHello" where
  "ClientHello_Hash md5hex j =
     (let (s, j1) = ClientHello_String j;
          j2 = (if ch_ja3Hash j1 = [] then j1\<lparr>ch_ja3Hash := md5hex s\<rparr> else j1)
      in (ch_ja3Hash j2, j2))"

definition sortedExtensions :: "ClientHello \<Rightarrow> 16 word list" where
  "sortedExtensions j = sort (ch_Extensions j)"

definition ClientHello_Equals :: "ClientHello \<Rightarrow> ClientHello \<Rightarrow> bool \<Rightarrow> bool" where
  "ClientHello_Equals j another ignoreExtensionsSequence =
     (if ch_Version j \<noteq> ch_Version another then False
      else if ch_CipherSuites j \<noteq> ch_CipherSuites another then False
      else if \<not> ignoreExtensionsSequence \<and> ch_Extensions j \<noteq> ch_Extensions another then False
      else if ignoreExtensionsSequence \<and> ch_Extensions j \<noteq> sortedExtensions another then False
      else if ch_EllipticCurves j \<noteq> ch_EllipticCurves another then False
      else if ch_EllipticCurvePF j \<noteq> ch_EllipticCurvePF another then False
      else ch_SignatureAlgorithms j = ch_SignatureAlgorithms another)"

text \<open>
  Without GREASE values in the message, the fingerprint is the version and the point formats: the test
  of the loops skips every other value.
\<close>

definition not_grease :: "16 word \<Rightarrow> bool" where
  "not_grease val \<longleftrightarrow> val AND GreaseBitmask \<noteq> 0x0A0A"

lemma marshal_numbers_skips:
  assumes "\<forall>val\<in>set vals. not_grease val"
  shows "marshal_numbers vals (s @ '','') = (if vals = [] then s @ '',,'' else s @ '','')"
proof -
  have "concat (map (\<lambda>val. if val AND GreaseBitmask \<noteq> 0x0A0A then [] else Itoa (unat val) @ ''-'') vals) = []"
    using assms by (auto simp: not_grease_def)
  then show ?thesis by (simp only: marshal_numbers_def) (simp add: butlast_append)
qed

lemma ja3_string_without_grease:
  assumes "ch_ja3ByteString j = None" and "ch_EllipticCurvePF j = []"
    and "ch_CipherSuites j \<noteq> []" and "ch_Extensions j \<noteq> []" and "ch_EllipticCurves j \<noteq> []"
    and "\<forall>val \<in> set (ch_CipherSuites j @ ch_Extensions j @ ch_EllipticCurves j). not_grease val"
  shows "fst (ClientHello_String j) = Itoa (unat (ch_Version j)) @ '',''"
  using assms by (simp add: ClientHello_String_def marshalJA3_def marshal_formats_def marshal_numbers_skips)

text \<open>
  With its extensions ignored in sequence, a message equals itself only if they are sorted.
\<close>

lemma ja3_equals_self: "ClientHello_Equals j j True \<longleftrightarrow> sorted (ch_Extensions j)"
  by (auto simp: ClientHello_Equals_def sortedExtensions_def sorted_sort_id) (metis sorted_sort)

end
