(* ===== verification/Sniff_Base.thy ===== *)
theory Sniff_Base
  imports DNS_Message Ja3
begin

text \<open>
  What the sniffers of \<open>common/sniff\<close> share: how a call ends, the error that asks for more data, and the
  record of the functions they call outside the repository (the error package of \<open>sing\<close>, the DNS, HTTP
  and TLS parsers, and the cryptography of QUIC's initial packets).
\<close>

section \<open>How a call ends\<close>

text \<open>A call returns, panics, or never ends.\<close>

datatype 'a run = Returns 'a | Panics error | Diverges

text \<open>A sniffer returns an error, or nil, and leaves the metadata.\<close>

type_synonym sniffed = "error option \<times> InboundContext"

abbreviation ProtocolTLS :: string where "ProtocolTLS \<equiv> ''tls''"
abbreviation ProtocolHTTP :: string where "ProtocolHTTP \<equiv> ''http''"
abbreviation ProtocolQUIC :: string where "ProtocolQUIC \<equiv> ''quic''"
abbreviation ProtocolDNS :: string where "ProtocolDNS \<equiv> ''dns''"
abbreviation ProtocolSTUN :: string where "ProtocolSTUN \<equiv> ''stun''"
abbreviation ProtocolBitTorrent :: string where "ProtocolBitTorrent \<equiv> ''bittorrent''"
abbreviation ProtocolDTLS :: string where "ProtocolDTLS \<equiv> ''dtls''"
abbreviation ProtocolSSH :: string where "ProtocolSSH \<equiv> ''ssh''"
abbreviation ProtocolRDP :: string where "ProtocolRDP \<equiv> ''rdp''"
abbreviation ProtocolNTP :: string where "ProtocolNTP \<equiv> ''ntp''"

definition ErrNeedMoreData :: error where
  "ErrNeedMoreData = E_New [S ''need more data'']"

section \<open>Functions outside the repository\<close>

text \<open>
  \<open>E_Errors es\<close> is \<open>E.Errors(es...)\<close>, \<open>errors_Is err target\<close> the test of package \<open>errors\<close>. \<open>http_ReadRequest\<close>
  gives the host of the request at the start of the stream; \<open>tls_Handshake\<close> the server name of the
  ClientHello the server side has seen, if it has seen one, and the error the handshake ends with.
  \<open>hkdf_Extract secret salt\<close>, \<open>hkdf_Expand secret info n\<close>, \<open>aes_Encrypt key block\<close> and
  \<open>gcm_Open key nonce ciphertext data\<close> are the cryptographic functions, \<open>None\<close> an authentication failure.
\<close>

record sniff_lib =
  E_Cause1 :: "error \<Rightarrow> error \<Rightarrow> error"
  E_Errors :: "error list \<Rightarrow> error option"
  errors_Is :: "error \<Rightarrow> error \<Rightarrow> bool"
  Msg_Unpack :: "bytes \<Rightarrow> dns_msg result"
  http_ReadRequest :: "bytes \<Rightarrow> string result"
  ParseSocksaddr_AddrString :: "string \<Rightarrow> string"
  tls_Handshake :: "bytes \<Rightarrow> string option \<times> error"
  IsDomainName :: "string \<Rightarrow> bool"
  hkdf_Extract :: "bytes \<Rightarrow> bytes \<Rightarrow> bytes"
  hkdf_Expand :: "bytes \<Rightarrow> bytes \<Rightarrow> nat \<Rightarrow> bytes"
  aes_Encrypt :: "bytes \<Rightarrow> bytes \<Rightarrow> bytes"
  gcm_Open :: "bytes \<Rightarrow> bytes \<Rightarrow> bytes \<Rightarrow> bytes \<Rightarrow> bytes option"

text \<open>What the documentation of these functions promises: a wrapped or joined error is recognised by its
  parts, and the outputs of the cryptographic functions have their fixed lengths.\<close>

definition errors_ok :: "sniff_lib \<Rightarrow> bool" where
  "errors_ok X \<longleftrightarrow>
     errors_Is X ErrNeedMoreData ErrNeedMoreData
     \<and> (\<forall>s. \<not> errors_Is X (E_Lib s) ErrNeedMoreData)
     \<and> (\<forall>e. errors_Is X (E_Cause1 X ErrNeedMoreData e) ErrNeedMoreData)
     \<and> E_Errors X [] = None
     \<and> (\<forall>es. es \<noteq> [] \<longrightarrow> (\<exists>e. E_Errors X es = Some e
           \<and> (errors_Is X e ErrNeedMoreData \<longleftrightarrow> (\<exists>d\<in>set es. errors_Is X d ErrNeedMoreData))))"

definition crypto_ok :: "sniff_lib \<Rightarrow> bool" where
  "crypto_ok X \<longleftrightarrow>
     (\<forall>secret info n. length (hkdf_Expand X secret info n) = n)
     \<and> (\<forall>k b. length b = 16 \<longrightarrow> length (aes_Encrypt X k b) = 16)
     \<and> (\<forall>k nonce c d p. gcm_Open X k nonce c d = Some p \<longrightarrow> length p + 16 = length c)"

lemma errors_okD:
  assumes "errors_ok X"
  shows "errors_Is X ErrNeedMoreData ErrNeedMoreData"
    and "\<not> errors_Is X (E_Lib s) ErrNeedMoreData"
    and "errors_Is X (E_Cause1 X ErrNeedMoreData e) ErrNeedMoreData"
    and "E_Errors X [] = None"
  using assms by (auto simp: errors_ok_def)

lemma E_Errors_nonempty:
  assumes "errors_ok X" and "es \<noteq> []"
  obtains e where "E_Errors X es = Some e"
    and "errors_Is X e ErrNeedMoreData \<longleftrightarrow> (\<exists>d\<in>set es. errors_Is X d ErrNeedMoreData)"
  using assms unfolding errors_ok_def by metis

text \<open>\<open>errors.Is\<close> of an error that may be nil.\<close>

definition errors_Is_opt :: "sniff_lib \<Rightarrow> error option \<Rightarrow> error \<Rightarrow> bool" where
  "errors_Is_opt X err t = (case err of None \<Rightarrow> False | Some e \<Rightarrow> errors_Is X e t)"

end
