(* ===== verification/Quic_Sniff.thy ===== *)
theory Quic_Sniff
  imports Sniff_Base
begin

unbundle bit_operations_syntax

text \<open>
  The QUIC sniffer (\<open>common/sniff/quic.go\<close>, \<open>quic_blacklist.go\<close> and \<open>internal/qtls/qtls.go\<close>): the header of an
  initial packet, the removal of its protection, the loop over its frames, the reassembly of the CRYPTO
  fragments of several packets and the guess of the client. Lengths are naturals where the code has
  shown them to fit an \<open>int\<close>; the fragments keep their 64-bit offsets.
\<close>

section \<open>Variable-length integers\<close>

text \<open>The two high bits of the first byte give the number of bytes.\<close>

definition uvarint_rest :: "nat \<Rightarrow> 8 word \<Rightarrow> 64 word reader" where
  "uvarint_rest n b1 r1 =
     (if n = 1 then Inr (ucast b1, r1)
      else bind_result (ReadByte r1) (\<lambda>(b2, r2).
        if n = 2 then Inr (ucast b2 + push_bit 8 (ucast b1), r2)
        else bind_result (ReadByte r2) (\<lambda>(b3, r3). bind_result (ReadByte r3) (\<lambda>(b4, r4).
          if n = 4
          then Inr (ucast b4 + push_bit 8 (ucast b3) + push_bit 16 (ucast b2) + push_bit 24 (ucast b1), r4)
          else bind_result (ReadByte r4) (\<lambda>(b5, r5). bind_result (ReadByte r5) (\<lambda>(b6, r6).
               bind_result (ReadByte r6) (\<lambda>(b7, r7). bind_result (ReadByte r7) (\<lambda>(b8, r8).
                 Inr (ucast b8 + push_bit 8 (ucast b7) + push_bit 16 (ucast b6) + push_bit 24 (ucast b5)
                      + push_bit 32 (ucast b4) + push_bit 40 (ucast b3) + push_bit 48 (ucast b2)
                      + push_bit 56 (ucast b1), r8)))))))))"

definition quic_ReadUvarint :: "64 word reader" where
  "quic_ReadUvarint bs =
     bind_result (ReadByte bs) (\<lambda>(firstByte, r1).
       uvarint_rest (push_bit (unat (drop_bit 6 (firstByte AND 0xc0))) 1) (firstByte AND (0xff - 0xc0)) r1)"

text \<open>\<open>io.CopyN(io.Discard, reader, n)\<close>.\<close>

definition CopyN_Discard :: "nat \<Rightarrow> bytes \<Rightarrow> bytes result" where
  "CopyN_Discard n bs = (if n \<le> length bs then Inr (drop n bs) else Inl io_EOF)"

section \<open>Key derivation\<close>

abbreviation (input) VersionDraft29 :: nat where "VersionDraft29 \<equiv> 0xff00001d"
abbreviation (input) Version1 :: nat where "Version1 \<equiv> 1"
abbreviation (input) Version2 :: nat where "Version2 \<equiv> 0x6b3343cf"

definition SaltOld :: bytes where
  "SaltOld = [0xaf, 0xbf, 0xec, 0x28, 0x99, 0x93, 0xd2, 0x4c, 0x9e, 0x97, 0x86, 0xf1, 0x9c, 0x61, 0x11, 0xe0, 0x43, 0x90, 0xa8, 0x99]"
definition SaltV1 :: bytes where
  "SaltV1 = [0x38, 0x76, 0x2c, 0xf7, 0xf5, 0x59, 0x34, 0xb3, 0x4d, 0x17, 0x9a, 0xe6, 0xa4, 0xc8, 0x0c, 0xad, 0xcc, 0xbb, 0x7f, 0x0a]"
definition SaltV2 :: bytes where
  "SaltV2 = [0x0d, 0xed, 0xe3, 0xde, 0xf7, 0x00, 0xa6, 0xdb, 0x81, 0x93, 0x81, 0xbe, 0x6e, 0x26, 0x9d, 0xcb, 0xf9, 0xbd, 0x2e, 0xd9]"

definition quic_salt :: "nat \<Rightarrow> bytes" where
  "quic_salt version = (if version = Version1 then SaltV1 else if version = Version2 then SaltV2 else SaltOld)"

definition hp_label :: "nat \<Rightarrow> string" where
  "hp_label version = (if version = Version2 then ''quicv2 hp'' else ''quic hp'')"
definition key_label :: "nat \<Rightarrow> string" where
  "key_label version = (if version = Version2 then ''quicv2 key'' else ''quic key'')"
definition iv_label :: "nat \<Rightarrow> string" where
  "iv_label version = (if version = Version2 then ''quicv2 iv'' else ''quic iv'')"

definition HKDFExpandLabel :: "sniff_lib \<Rightarrow> bytes \<Rightarrow> bytes \<Rightarrow> string \<Rightarrow> nat \<Rightarrow> bytes result" where
  "HKDFExpandLabel X secret context label n =
     (let b = be_bytes 2 n @ [word_of_nat (6 + length label)] @ str_bytes ''tls13 '' @ str_bytes label
              @ [word_of_nat (length context)] @ context;
          out = hkdf_Expand X secret b n
      in if length out \<noteq> n then Inl (Panic [S ''quic: HKDF-Expand-Label invocation failed unexpectedly'']) else Inr out)"

text \<open>\<open>xorNonceAEAD\<close>: the last eight bytes of the mask are combined with the packet number.\<close>

record xorNonceAEAD =
  nonceMask :: bytes
  aead_key :: bytes

definition AEADAESGCMTLS13 :: "bytes \<Rightarrow> bytes \<Rightarrow> xorNonceAEAD result" where
  "AEADAESGCMTLS13 key iv =
     (if length iv \<noteq> 12 then Inl (Panic [S ''tls: internal error: wrong nonce length''])
      else if length key \<notin> {16, 24, 32} then Inl (Panic [S ''crypto/aes: invalid key size''])
      else Inr \<lparr>nonceMask = iv, aead_key = key\<rparr>)"

definition xor_nonce :: "bytes \<Rightarrow> bytes \<Rightarrow> bytes" where
  "xor_nonce m nonce = take 4 m @ map2 (XOR) (drop 4 m) nonce @ drop (4 + length nonce) m"

definition AEAD_Open :: "sniff_lib \<Rightarrow> xorNonceAEAD \<Rightarrow> bytes \<Rightarrow> bytes \<Rightarrow> bytes \<Rightarrow> bytes option" where
  "AEAD_Open X f nonce ciphertext additionalData =
     gcm_Open X (aead_key f) (xor_nonce (nonceMask f) nonce) ciphertext additionalData"

section \<open>The header\<close>

record quic_header =
  qh_version :: nat
  qh_destConnID :: bytes
  qh_hdrLen :: nat
  qh_packetLen :: nat
  qh_pnBytes :: bytes

definition quic_read_header :: "bytes \<Rightarrow> quic_header result" where
  "quic_read_header packet =
     bind_result (ReadByte packet) (\<lambda>(typeByte, r0).
     if typeByte AND 0x40 = 0 then Inl (E_New [S ''bad type byte''])
     else bind_result (ReadFull 4 r0) (\<lambda>(vb, r1).
     let versionNumber = be_value vb; packetType = drop_bit 4 (typeByte AND 0x30) in
     if versionNumber \<noteq> VersionDraft29 \<and> versionNumber \<noteq> Version1 \<and> versionNumber \<noteq> Version2
     then Inl (E_New [S ''bad version''])
     else if packetType = 0 \<and> versionNumber = Version2 \<or> packetType = 2 \<and> versionNumber \<noteq> Version2 \<or> packetType > 2
     then Inl (E_New [S ''bad packet type''])
     else bind_result (ReadByte r1) (\<lambda>(destConnIDLen, r2).
     if destConnIDLen = 0 \<or> destConnIDLen > 20 then Inl (E_New [S ''bad destination connection id length''])
     else bind_result (ReadFull (unat destConnIDLen) r2) (\<lambda>(destConnID, r3).
     bind_result (ReadByte r3) (\<lambda>(srcConnIDLen, r4).
     bind_result (CopyN_Discard (unat srcConnIDLen) r4) (\<lambda>r5.
     bind_result (quic_ReadUvarint r5) (\<lambda>(tokenLen, r6).
     bind_result (CopyN_Discard (unat tokenLen) r6) (\<lambda>r7.
     bind_result (quic_ReadUvarint r7) (\<lambda>(packetLen, r8).
     let hdrLen = length packet - length r8 in
     if hdrLen + unat packetLen > length packet then Inl os_ErrInvalid
     else bind_result (CopyN_Discard 4 r8) (\<lambda>r9.
     bind_result (ReadFull 16 r9) (\<lambda>(pnBytes, _).
     Inr \<lparr>qh_version = versionNumber, qh_destConnID = destConnID, qh_hdrLen = hdrLen,
          qh_packetLen = unat packetLen, qh_pnBytes = pnBytes\<rparr>)))))))))))"

section \<open>Removing the protection\<close>

text \<open>The first byte and the four bytes from \<open>hdrLen\<close> on are combined with the mask.\<close>

definition unmask :: "bytes \<Rightarrow> nat \<Rightarrow> bytes \<Rightarrow> bytes" where
  "unmask m hdrLen packet =
     (let p0 = packet[0 := (packet ! 0) XOR ((m ! 0) AND 0xf)]
      in fold (\<lambda>i p. p[hdrLen + i := (p ! (hdrLen + i)) XOR (m ! (i + 1))]) [0..<4] p0)"

definition packet_number :: "nat \<Rightarrow> bytes \<Rightarrow> nat \<Rightarrow> 32 word" where
  "packet_number len p hdrLen =
     (if len = 1 then ucast (p ! hdrLen)
      else if len = 2 then word_of_nat (be_value (take 2 (drop hdrLen p)))
      else if len = 3 then ucast (p ! (hdrLen + 2)) OR push_bit 8 (ucast (p ! (hdrLen + 1))) OR push_bit 16 (ucast (p ! hdrLen))
      else word_of_nat (be_value (take 4 (drop hdrLen p))))"

text \<open>
  The decrypted payload and the array behind it: the plaintext is written over the ciphertext, so the
  bytes of the packet after it (the authentication tag and what follows) are within its capacity.
\<close>

record quic_plain =
  qp_decrypted :: bytes
  qp_backing :: bytes

definition quic_decrypt :: "sniff_lib \<Rightarrow> bytes \<Rightarrow> quic_header \<Rightarrow> quic_plain result" where
  "quic_decrypt X packet H =
     (let version = qh_version H; hdrLen = qh_hdrLen H; packetLen = qh_packetLen H;
          initialSecret = hkdf_Extract X (qh_destConnID H) (quic_salt version)
      in bind_result (HKDFExpandLabel X initialSecret [] ''client in'' 32) (\<lambda>secret.
         bind_result (HKDFExpandLabel X secret [] (hp_label version) 16) (\<lambda>hpKey.
         if length hpKey \<notin> {16, 24, 32} then Inl (E_Lib ''crypto/aes: invalid key size'')
         else
           let m = aes_Encrypt X hpKey (qh_pnBytes H);
               unmasked = unmask m hdrLen packet;
               packetNumberLength = unat ((unmasked ! 0) AND 0x3) + 1
           in if hdrLen + packetNumberLength > packetLen + hdrLen then Inl os_ErrInvalid
              else
                let packetNumber = packet_number packetNumberLength unmasked hdrLen;
                    extHdrLen = hdrLen + packetNumberLength;
                    newPacket = take extHdrLen unmasked @ take (hdrLen + 4 - extHdrLen) (drop extHdrLen packet)
                                @ drop (hdrLen + 4) unmasked;
                    data = take (packetLen + hdrLen - extHdrLen) (drop extHdrLen newPacket)
                in bind_result (HKDFExpandLabel X secret [] (key_label version) 16) (\<lambda>key.
                   bind_result (HKDFExpandLabel X secret [] (iv_label version) 12) (\<lambda>iv.
                   bind_result (AEADAESGCMTLS13 key iv) (\<lambda>cipher.
                   case AEAD_Open X cipher (be_bytes 8 (unat packetNumber)) data (take extHdrLen newPacket) of
                     None \<Rightarrow> Inl (E_Lib ''cipher: message authentication failed'')
                   | Some decrypted \<Rightarrow>
                       Inr \<lparr>qp_decrypted = decrypted,
                            qp_backing = decrypted @ drop (extHdrLen + length decrypted) newPacket\<rparr>))))))"

section \<open>Frames\<close>

fun skip_uvarints :: "nat \<Rightarrow> bytes \<Rightarrow> bytes result" where
  "skip_uvarints n bs =
     (if n = 0 then Inr bs else bind_result (quic_ReadUvarint bs) (\<lambda>(_, rest). skip_uvarints (n - 1) rest))"

declare skip_uvarints.simps [simp del]

text \<open>One frame, after its type byte: a fragment if it is a CRYPTO frame, and the bytes that follow. The
  slice of a CRYPTO frame may reach into the capacity behind the payload; beyond it, it panics.\<close>

definition quic_frame :: "quic_plain \<Rightarrow> 8 word \<Rightarrow> bytes \<Rightarrow> (qCryptoFragment list \<times> bytes) result" where
  "quic_frame P frameType bs =
     (if frameType = 0x00 \<or> frameType = 0x01 then Inr ([], bs)
      else if frameType = 0x02 \<or> frameType = 0x03 then
        bind_result (skip_uvarints 2 bs) (\<lambda>r1.
        bind_result (quic_ReadUvarint r1) (\<lambda>(ackRangeCount, r2).
        bind_result (skip_uvarints 1 r2) (\<lambda>r3.
        bind_result (skip_uvarints (2 * unat ackRangeCount) r3) (\<lambda>r4.
        bind_result (if frameType = 0x03 then skip_uvarints 3 r4 else Inr r4) (\<lambda>r5. Inr ([], r5))))))
      else if frameType = 0x06 then
        bind_result (quic_ReadUvarint bs) (\<lambda>(offset, r1).
        bind_result (quic_ReadUvarint r1) (\<lambda>(len, r2).
        let index = length (qp_decrypted P) - length r2 in
        if index + unat len > length (qp_backing P) then Inl slice_panic
        else Inr ([\<lparr>qf_offset = offset, qf_length = len, qf_payload = take (unat len) (drop index (qp_backing P))\<rparr>],
                  drop (unat len) r2)))
      else if frameType = 0x1c then
        bind_result (skip_uvarints 2 bs) (\<lambda>r1.
        bind_result (quic_ReadUvarint r1) (\<lambda>(len, r2). Inr ([], drop (unat len) r2)))
      else Inl os_ErrInvalid)"

text \<open>No reader gives bytes back, so every frame consumes its type byte at least.\<close>

lemma bind_ReadByte_Inr:
  "bind_result (ReadByte bs) f = Inr y \<longleftrightarrow> (\<exists>b rest. bs = b # rest \<and> f (b, rest) = Inr y)"
  by (cases bs) auto

lemma uvarint_rest_shrinks: "uvarint_rest n b1 bs = Inr (v, rest) \<Longrightarrow> length rest \<le> length bs"
  unfolding uvarint_rest_def by (auto simp only: bind_ReadByte_Inr prod.case list.size split: if_split_asm)

lemma quic_ReadUvarint_shrinks: "quic_ReadUvarint bs = Inr (v, rest) \<Longrightarrow> length rest < length bs"
  unfolding quic_ReadUvarint_def by (auto simp only: bind_ReadByte_Inr prod.case list.size dest!: uvarint_rest_shrinks)

lemma skip_uvarints_shrinks: "skip_uvarints n bs = Inr rest \<Longrightarrow> length rest \<le> length bs"
proof (induction n bs rule: skip_uvarints.induct)
  case (1 n bs)
  show ?case
  proof (cases "n = 0")
    case True
    with "1.prems" show ?thesis by (simp add: skip_uvarints.simps)
  next
    case False
    with "1.prems" obtain v r where r: "quic_ReadUvarint bs = Inr (v, r)" and s: "skip_uvarints (n - 1) r = Inr rest"
      by (subst (asm) skip_uvarints.simps) (auto simp: bind_result_Inr_iff)
    from "1.IH" [OF False s] quic_ReadUvarint_shrinks [OF r] show ?thesis by simp
  qed
qed

lemma quic_frame_shrinks: "quic_frame P t bs = Inr (fs, rest) \<Longrightarrow> length rest \<le> length bs"
  by (auto simp: quic_frame_def bind_result_Inr_iff Let_def
      dest!: quic_ReadUvarint_shrinks skip_uvarints_shrinks split: if_splits)

function frame_loop ::
  "quic_plain \<Rightarrow> bytes \<Rightarrow> 8 word list \<Rightarrow> qCryptoFragment list \<Rightarrow> (8 word list \<times> qCryptoFragment list) result" where
  "frame_loop P bs frameTypeList fragments =
     (case bs of
        [] \<Rightarrow> Inr (frameTypeList, fragments)
      | frameType # rest \<Rightarrow>
          (case quic_frame P frameType rest of
             Inl e \<Rightarrow> Inl e
           | Inr (fs, rest') \<Rightarrow> frame_loop P rest' (frameTypeList @ [frameType]) (fragments @ fs)))"
  by pat_completeness auto
termination
  by (relation "measure (\<lambda>(P, bs, ts, fs). length bs)") (auto dest: quic_frame_shrinks)

declare frame_loop.simps [simp del]

section \<open>Reassembly\<close>

text \<open>The labelled loop: the first fragment that starts at \<open>index\<close> is written and the search starts over at
  its end. It need not end: a fragment of length 0 starts at its own end.\<close>

partial_function (option) find_loop :: "qCryptoFragment list \<Rightarrow> 64 word \<Rightarrow> bytes \<Rightarrow> bytes option" where
  "find_loop fragments index buffer =
     (case find (\<lambda>fragment. qf_offset fragment = index) fragments of
        None \<Rightarrow> Some buffer
      | Some fragment \<Rightarrow>
          find_loop fragments (qf_offset fragment + qf_length fragment) (buffer @ qf_payload fragment))"

declare find_loop.simps [code]

definition frame_len :: "qCryptoFragment list \<Rightarrow> 64 word" where
  "frame_len fragments = sum_list (map qf_length fragments)"

text \<open>The bytes of the buffer the ClientHello is put together in. Its capacity is 5 more than the sum of
  the lengths, which lemma \<open>find_loop_fits\<close> shows to be enough.\<close>

definition reassemble :: "qCryptoFragment list \<Rightarrow> bytes option" where
  "reassemble fragments =
     find_loop fragments 0 (0x16 # be_bytes 2 0x0303 @ be_bytes 2 (unat (frame_len fragments)))"

section \<open>The client\<close>

definition isZero :: "8 word list \<Rightarrow> bool" where
  "isZero slices = list_all (\<lambda>slice. slice = 0) slices"

definition count_type :: "8 word list \<Rightarrow> 8 word \<Rightarrow> nat" where
  "count_type slices val = length (filter (\<lambda>slice. slice = val) slices)"

definition isQUICGo :: "ClientHello \<Rightarrow> bool" where
  "isQUICGo fingerprint \<longleftrightarrow> 0x11EC \<in> set (ch_EllipticCurves fingerprint) \<or> 0xFF01 \<in> set (ch_Extensions fingerprint)"

abbreviation ClientChromium :: string where "ClientChromium \<equiv> ''chromium''"
abbreviation ClientSafari :: string where "ClientSafari \<equiv> ''safari''"
abbreviation ClientFirefox :: string where "ClientFirefox \<equiv> ''firefox''"
abbreviation ClientQUICGo :: string where "ClientQUICGo \<equiv> ''quic-go''"
abbreviation ClientUnknown :: string where "ClientUnknown \<equiv> ''unknown''"

definition looks_like_safari :: "ClientHello \<Rightarrow> bool" where
  "looks_like_safari f \<longleftrightarrow>
     (length (ch_Versions f) = 2 \<and> (ch_Versions f ! 0) AND GreaseBitmask = 0x0A0A
        \<and> length (ch_EllipticCurves f) = 5 \<and> (ch_EllipticCurves f ! 0) AND GreaseBitmask = 0x0A0A)
     \<or> (ch_CipherSuites f = [0x1302] \<and> ch_EllipticCurves f = [29] \<and> ch_SignatureAlgorithms f = [0x0403])"

definition index_panic :: error where
  "index_panic = Panic [S ''index out of range'']"

definition guess_client :: "8 word list \<Rightarrow> ClientHello \<Rightarrow> string result" where
  "guess_client frameTypeList f =
     (if length frameTypeList = 1 then Inr ClientFirefox
      else if frameTypeList = [] then Inl index_panic
      else if frameTypeList ! 0 = 0x06 \<and> isZero (drop 1 frameTypeList) \<and> looks_like_safari f then Inr ClientSafari
      else if last frameTypeList = 0x06 \<and> isZero (butlast frameTypeList) then Inr ClientQUICGo
      else if count_type frameTypeList 0x06 > 1 \<or> count_type frameTypeList 0x01 > 0
      then (if isQUICGo f then Inr ClientQUICGo else Inr ClientChromium)
      else Inr ClientUnknown)"

section \<open>The sniffer\<close>

definition err_sniffed :: "InboundContext \<Rightarrow> error \<Rightarrow> sniffed run" where
  "err_sniffed c e = (case e of Panic m \<Rightarrow> Panics e | _ \<Rightarrow> Returns (Some e, c))"

text \<open>From the fragments of this packet and of those before it to the answer.\<close>

definition quic_finish :: "sniff_lib \<Rightarrow> 8 word list \<Rightarrow> qCryptoFragment list \<Rightarrow> InboundContext \<Rightarrow> sniffed run" where
  "quic_finish X frameTypeList new c0 =
     (let fragments = new @ (case md_SniffContext c0 of None \<Rightarrow> [] | Some fs \<Rightarrow> fs);
          c1 = c0\<lparr>md_SniffContext := None\<rparr>
      in case reassemble fragments of
           None \<Rightarrow> Diverges
         | Some buffer \<Rightarrow>
             (let c2 = c1\<lparr>md_Protocol := ProtocolQUIC\<rparr> in
              case Compute buffer of
                Inl (Panic m) \<Rightarrow> Panics (Panic m)
              | Inl err \<Rightarrow> Returns (Some (E_Cause1 X ErrNeedMoreData err), c2\<lparr>md_SniffContext := Some fragments\<rparr>)
              | Inr fingerprint \<Rightarrow>
                  (let c3 = c2\<lparr>md_Domain := ch_ServerName fingerprint\<rparr> in
                   if md_Client c3 = []
                   then (case guess_client frameTypeList fingerprint of
                           Inl e \<Rightarrow> Panics e
                         | Inr client \<Rightarrow> Returns (None, c3\<lparr>md_Client := client\<rparr>))
                   else Returns (None, c3))))"

definition sniff_QUICClientHello :: "sniff_lib \<Rightarrow> InboundContext \<Rightarrow> bytes \<Rightarrow> sniffed run" where
  "sniff_QUICClientHello X c packet =
     (case bind_result (quic_read_header packet) (quic_decrypt X packet) of
        Inl e \<Rightarrow> err_sniffed c e
      | Inr P \<Rightarrow>
          (case frame_loop P (qp_decrypted P) [] [] of
             Inl e \<Rightarrow> err_sniffed c e
           | Inr (frameTypeList, fragments) \<Rightarrow> quic_finish X frameTypeList fragments c))"

end
