(* ===== verification/Sniffers.thy ===== *)
theory Sniffers
  imports Quic_Sniff Router
begin

unbundle bit_operations_syntax

text \<open>
  The sniffers of \<open>common/sniff\<close>, \<open>PeekStream\<close> and \<open>PeekPacket\<close>, and the router's \<open>actionSniff\<close>
  (\<open>route/route.go\<close>). A stream is the list of the buffers read so far, over which \<open>io.MultiReader\<close> reads;
  a connection is the list of what its next reads give, a read past its end running into the deadline.
\<close>

section \<open>Packet sniffers\<close>

definition accept :: "string \<Rightarrow> InboundContext \<Rightarrow> sniffed" where
  "accept proto c = (None, c\<lparr>md_Protocol := proto\<rparr>)"

definition refuse :: "InboundContext \<Rightarrow> sniffed" where
  "refuse c = (Some os_ErrInvalid, c)"

definition sniff_DTLSRecord :: "InboundContext \<Rightarrow> bytes \<Rightarrow> sniffed" where
  "sniff_DTLSRecord c packet =
     (if length packet < 13 then refuse c
      else if packet ! 0 \<notin> {20, 21, 22, 23, 25} then refuse c
      else if packet ! 1 \<noteq> 0xfe then refuse c
      else if packet ! 2 \<noteq> 0xff \<and> packet ! 2 \<noteq> 0xfd then refuse c
      else accept ProtocolDTLS c)"

text \<open>The loop over the extensions of a uTP packet. Seeking past the end is no error: the next read is.\<close>

function utp_extensions :: "8 word \<Rightarrow> bytes \<Rightarrow> error option" where
  "utp_extensions extension bs =
     (if extension = 0 then None
      else (case bs of
              [] \<Rightarrow> Some io_EOF
            | extension' # r1 \<Rightarrow>
                if extension' > 4 then Some os_ErrInvalid
                else (case r1 of [] \<Rightarrow> Some io_EOF | n # r2 \<Rightarrow> utp_extensions extension' (drop (unat n) r2))))"
  by pat_completeness auto
termination by (relation "measure (\<lambda>(extension, bs). length bs)") auto

declare utp_extensions.simps [simp del]

definition sniff_UTP :: "InboundContext \<Rightarrow> bytes \<Rightarrow> sniffed" where
  "sniff_UTP c packet =
     (if length packet < 20 then refuse c
      else if (packet ! 0) AND 0x0F \<noteq> 1 \<or> drop_bit 4 (packet ! 0) > 4 then refuse c
      else (case utp_extensions (packet ! 1) (drop 20 packet) of
              Some err \<Rightarrow> (Some err, c)
            | None \<Rightarrow> accept ProtocolBitTorrent c))"

definition sniff_UDPTracker :: "InboundContext \<Rightarrow> bytes \<Rightarrow> sniffed" where
  "sniff_UDPTracker c packet =
     (if length packet < 16 then refuse c
      else if be_value (take 8 packet) \<noteq> 0x41727101980 then refuse c
      else if be_value (take 4 (drop 8 packet)) \<noteq> 0 then refuse c
      else accept ProtocolBitTorrent c)"

text \<open>The root delay and dispersion are divided by \<open>65536.0\<close>, which is exact, and compared with 16 seconds.\<close>

definition sniff_NTP :: "InboundContext \<Rightarrow> bytes \<Rightarrow> sniffed" where
  "sniff_NTP c packet =
     (if length packet < 48 then refuse c
      else
        let firstByte = packet ! 0;
            li = drop_bit 6 firstByte AND 0x03;
            vn = drop_bit 3 firstByte AND 0x07;
            mode = firstByte AND 0x07
        in if li > 3 then refuse c
           else if vn \<noteq> 3 \<and> vn \<noteq> 4 then refuse c
           else if mode \<noteq> 3 then refuse c
           else if be_value (take 4 (drop 4 packet)) > 16 * 65536 then refuse c
           else if be_value (take 4 (drop 8 packet)) > 16 * 65536 then refuse c
           else accept ProtocolNTP c)"

definition sniff_STUNMessage :: "InboundContext \<Rightarrow> bytes \<Rightarrow> sniffed" where
  "sniff_STUNMessage c packet =
     (if length packet < 20 then refuse c
      else if be_value (take 4 (drop 4 packet)) \<noteq> 0x2112A442 then refuse c
      else if length packet < 20 + be_value (take 2 (drop 2 packet)) then refuse c
      else accept ProtocolSTUN c)"

text \<open>A message that is no query is left with the error of \<open>Unpack\<close>, which is nil.\<close>

definition sniff_DomainNameQuery :: "sniff_lib \<Rightarrow> InboundContext \<Rightarrow> bytes \<Rightarrow> sniffed" where
  "sniff_DomainNameQuery X c packet =
     (case Msg_Unpack X packet of
        Inl err \<Rightarrow> (Some err, c)
      | Inr msg \<Rightarrow>
          if msg_Response msg \<or> length (msg_Question msg) = 0 \<or> length (msg_Answer msg) > 0 \<or> length (msg_Ns msg) > 0
          then (None, c)
          else accept ProtocolDNS c)"

section \<open>Reading a stream\<close>

text \<open>\<open>io.MultiReader\<close> over the buffers: reading \<open>n\<close> bytes in full, skipping them, and one call of \<open>Read\<close>,
  which does not go beyond the first buffer that is not empty.\<close>

fun mr_drop :: "nat \<Rightarrow> bytes list \<Rightarrow> bytes list" where
  "mr_drop n [] = []"
| "mr_drop n (b # bs) = (if n < length b then drop n b # bs else mr_drop (n - length b) bs)"

definition mr_ReadFull :: "nat \<Rightarrow> bytes list \<Rightarrow> (bytes \<times> bytes list) result" where
  "mr_ReadFull n chunks = bind_result (ReadFull n (concat chunks)) (\<lambda>(bs, _). Inr (bs, mr_drop n chunks))"

definition mr_SkipN :: "nat \<Rightarrow> bytes list \<Rightarrow> bytes list result" where
  "mr_SkipN n chunks = bind_result (CopyN_Discard n (concat chunks)) (\<lambda>_. Inr (mr_drop n chunks))"

definition mr_Read :: "nat \<Rightarrow> bytes list \<Rightarrow> bytes \<times> error option" where
  "mr_Read n chunks =
     (case dropWhile (\<lambda>b. b = []) chunks of [] \<Rightarrow> ([], Some io_EOF) | b # _ \<Rightarrow> (take n b, None))"

definition more_data :: "sniff_lib \<Rightarrow> InboundContext \<Rightarrow> error \<Rightarrow> sniffed" where
  "more_data X c err = (Some (E_Cause1 X ErrNeedMoreData err), c)"

text \<open>\<open>binary.Read\<close> of an unsigned number of \<open>n\<close> bytes; a failed read asks for more data.\<close>

definition read_uint ::
  "sniff_lib \<Rightarrow> InboundContext \<Rightarrow> nat \<Rightarrow> bytes list \<Rightarrow> (nat \<Rightarrow> bytes list \<Rightarrow> sniffed) \<Rightarrow> sniffed" where
  "read_uint X c n chunks k =
     (case mr_ReadFull n chunks of Inl err \<Rightarrow> more_data X c err | Inr (bs, rest) \<Rightarrow> k (be_value bs) rest)"

section \<open>Stream sniffers\<close>

definition sniff_TLSClientHello :: "sniff_lib \<Rightarrow> InboundContext \<Rightarrow> bytes list \<Rightarrow> sniffed" where
  "sniff_TLSClientHello X c chunks =
     (case tls_Handshake X (concat chunks) of
        (Some serverName, _) \<Rightarrow> (None, c\<lparr>md_Protocol := ProtocolTLS, md_Domain := serverName\<rparr>)
      | (None, err) \<Rightarrow> if errors_Is X err io_ErrUnexpectedEOF then more_data X c err else (Some err, c))"

definition sniff_HTTPHost :: "sniff_lib \<Rightarrow> InboundContext \<Rightarrow> bytes list \<Rightarrow> sniffed" where
  "sniff_HTTPHost X c chunks =
     (case http_ReadRequest X (concat chunks) of
        Inl err \<Rightarrow> if errors_Is X err io_ErrUnexpectedEOF then more_data X c err else (Some err, c)
      | Inr host \<Rightarrow> (None, c\<lparr>md_Protocol := ProtocolHTTP, md_Domain := ParseSocksaddr_AddrString X host\<rparr>))"

definition sniff_StreamDomainNameQuery :: "sniff_lib \<Rightarrow> InboundContext \<Rightarrow> bytes list \<Rightarrow> sniffed" where
  "sniff_StreamDomainNameQuery X c chunks =
     read_uint X c 2 chunks (\<lambda>len rest.
       if len < 12 then refuse c
       else
         let packet = take len (concat rest); n = length packet in
         if n > 2 \<and> (packet ! 2) AND 0x80 \<noteq> 0 then refuse c
         else if n > 5 \<and> packet ! 4 = 0 \<and> packet ! 5 = 0 then refuse c
         else if list_ex (\<lambda>i. n > i \<and> packet ! i \<noteq> 0) [6..<10] then refuse c
         else (case ReadFull len (concat rest) of
                 Inl err \<Rightarrow> more_data X c err
               | Inr _ \<Rightarrow> sniff_DomainNameQuery X c packet))"

definition sniff_BitTorrent :: "sniff_lib \<Rightarrow> InboundContext \<Rightarrow> bytes list \<Rightarrow> sniffed" where
  "sniff_BitTorrent X c chunks =
     read_uint X c 1 chunks (\<lambda>first rest.
       if first \<noteq> 19 then refuse c
       else (case mr_Read 19 rest of
               (protocol, err) \<Rightarrow>
                 let n = length protocol in
                 if protocol \<noteq> take n (str_bytes ''BitTorrent protocol'') then refuse c
                 else (case err of
                         Some e \<Rightarrow> more_data X c e
                       | None \<Rightarrow> if n < 19 then (Some ErrNeedMoreData, c) else accept ProtocolBitTorrent c)))"

text \<open>\<open>bufio.Reader.ReadLine\<close> with the default buffer of 4096 bytes, on input that is not empty: a line without
  its end, the rest of the input if no line ends, or a full buffer, less a final carriage return.\<close>

definition ReadLine :: "bytes \<Rightarrow> bytes" where
  "ReadLine bs =
     (let line = takeWhile (\<lambda>b. b \<noteq> 10) bs in
      if length line < 4096 \<and> length line < length bs
      then (if line \<noteq> [] \<and> last line = 13 then butlast line else line)
      else if length bs < 4096 then bs
      else let full = take 4096 bs in if last full = 13 then butlast full else full)"

definition sniff_SSH :: "sniff_lib \<Rightarrow> InboundContext \<Rightarrow> bytes list \<Rightarrow> sniffed run" where
  "sniff_SSH X c chunks =
     (let bs = concat chunks; sshPrefix = str_bytes ''SSH-2.0-''; pre = take 8 bs in
      if pre \<noteq> take (length pre) sshPrefix then Returns (refuse c)
      else if length pre < 8 then Returns (more_data X c io_EOF)
      else let fistLine = ReadLine bs in
           if length fistLine < 8 then Panics slice_panic
           else Returns (None, c\<lparr>md_Protocol := ProtocolSSH, md_Client := bytes_str (drop 8 fistLine)\<rparr>))"

definition sniff_RDP :: "sniff_lib \<Rightarrow> InboundContext \<Rightarrow> bytes list \<Rightarrow> sniffed" where
  "sniff_RDP X c chunks =
     read_uint X c 1 chunks (\<lambda>tpktVersion r1. if tpktVersion \<noteq> 3 then refuse c
     else read_uint X c 1 r1 (\<lambda>tpktReserved r2. if tpktReserved \<noteq> 0 then refuse c
     else read_uint X c 2 r2 (\<lambda>tpktLength r3. if tpktLength \<noteq> 19 then refuse c
     else read_uint X c 1 r3 (\<lambda>cotpLength r4. if cotpLength \<noteq> 14 then refuse c
     else read_uint X c 1 r4 (\<lambda>cotpTpduType r5. if cotpTpduType \<noteq> 0xE0 then refuse c
     else (case mr_SkipN 5 r5 of
             Inl err \<Rightarrow> more_data X c err
           | Inr r6 \<Rightarrow>
     read_uint X c 1 r6 (\<lambda>rdpType r7. if rdpType \<noteq> 1 then refuse c
     else read_uint X c 1 r7 (\<lambda>rdpFlags r8.
     read_uint X c 1 r8 (\<lambda>rdpLength r9. if rdpLength \<noteq> 8 then refuse c
     else accept ProtocolRDP c)))))))))"

definition run_stream_sniffer :: "sniff_lib \<Rightarrow> StreamSniffer \<Rightarrow> InboundContext \<Rightarrow> bytes list \<Rightarrow> sniffed run" where
  "run_stream_sniffer X s c chunks = (case s of
     TLSClientHello \<Rightarrow> Returns (sniff_TLSClientHello X c chunks)
   | HTTPHost \<Rightarrow> Returns (sniff_HTTPHost X c chunks)
   | StreamDomainNameQuery \<Rightarrow> Returns (sniff_StreamDomainNameQuery X c chunks)
   | BitTorrent \<Rightarrow> Returns (sniff_BitTorrent X c chunks)
   | SSH \<Rightarrow> sniff_SSH X c chunks
   | RDP \<Rightarrow> Returns (sniff_RDP X c chunks))"

definition run_packet_sniffer :: "sniff_lib \<Rightarrow> PacketSniffer \<Rightarrow> InboundContext \<Rightarrow> bytes \<Rightarrow> sniffed run" where
  "run_packet_sniffer X s c packet = (case s of
     QUICClientHello \<Rightarrow> sniff_QUICClientHello X c packet
   | DomainNameQuery \<Rightarrow> Returns (sniff_DomainNameQuery X c packet)
   | STUNMessage \<Rightarrow> Returns (sniff_STUNMessage c packet)
   | UTP \<Rightarrow> Returns (sniff_UTP c packet)
   | UDPTracker \<Rightarrow> Returns (sniff_UDPTracker c packet)
   | DTLSRecord \<Rightarrow> Returns (sniff_DTLSRecord c packet)
   | NTP \<Rightarrow> Returns (sniff_NTP c packet))"

section \<open>Peeking\<close>

text \<open>Server-first protocols: SMTP, IMAP and POP3.\<close>

definition Skip :: "InboundContext \<Rightarrow> bool" where
  "Skip c \<longleftrightarrow> sa_Port (md_Destination c) \<in> {25, 465, 587, 143, 993, 110, 995}"

text \<open>\<open>PeekPacket\<close>: the first sniffer without an error ends it.\<close>

fun PeekPacket_loop ::
  "sniff_lib \<Rightarrow> bytes \<Rightarrow> PacketSniffer list \<Rightarrow> error list \<Rightarrow> InboundContext \<Rightarrow> sniffed run" where
  "PeekPacket_loop X packet [] sniffError c = Returns (E_Errors X sniffError, c)"
| "PeekPacket_loop X packet (s # ss) sniffError c =
     (case run_packet_sniffer X s c packet of
        Returns (None, c') \<Rightarrow> Returns (None, c')
      | Returns (Some err, c') \<Rightarrow> PeekPacket_loop X packet ss (sniffError @ [err]) c'
      | Panics e \<Rightarrow> Panics e
      | Diverges \<Rightarrow> Diverges)"

definition PeekPacket :: "sniff_lib \<Rightarrow> PacketSniffer list \<Rightarrow> InboundContext \<Rightarrow> bytes \<Rightarrow> sniffed run" where
  "PeekPacket X sniffers c packet = PeekPacket_loop X packet sniffers [] c"

text \<open>The inner loop of \<open>PeekStream\<close> over the sniffers; the flag tells that one of them has succeeded.\<close>

fun stream_round ::
  "sniff_lib \<Rightarrow> bytes list \<Rightarrow> StreamSniffer list \<Rightarrow> error option \<Rightarrow> InboundContext \<Rightarrow> (bool \<times> sniffed) run" where
  "stream_round X chunks [] sniffError c = Returns (False, sniffError, c)"
| "stream_round X chunks (s # ss) sniffError c =
     (case run_stream_sniffer X s c chunks of
        Returns (None, c') \<Rightarrow> Returns (True, None, c')
      | Returns (Some err, c') \<Rightarrow>
          stream_round X chunks ss (E_Errors X ((case sniffError of None \<Rightarrow> [] | Some e \<Rightarrow> [e]) @ [err])) c'
      | Panics e \<Rightarrow> Panics e
      | Diverges \<Rightarrow> Diverges)"

text \<open>A read of the connection: the error of \<open>SetReadDeadline\<close>, and the bytes and the error of the read.\<close>

record stream_read =
  sr_deadline :: "error option"
  sr_data :: bytes
  sr_err :: "error option"

definition os_ErrDeadlineExceeded :: error where "os_ErrDeadlineExceeded = E_Lib ''i/o timeout''"

fun PeekStream ::
  "sniff_lib \<Rightarrow> bytes list \<Rightarrow> StreamSniffer list \<Rightarrow> stream_read list \<Rightarrow> nat \<Rightarrow> error option \<Rightarrow> bytes \<Rightarrow> InboundContext \<Rightarrow>
   (sniffed \<times> bytes \<times> stream_read list) run" where
  "PeekStream X buffers sniffers [] i sniffError buffer c =
     Returns ((if i > 0 then sniffError else Some (E_Cause os_ErrDeadlineExceeded [S ''read payload'']), c), buffer, [])"
| "PeekStream X buffers sniffers (r # rs) i sniffError buffer c =
     (case sr_deadline r of
        Some err \<Rightarrow> Returns ((Some (E_Cause err [S ''set read deadline'']), c), buffer, r # rs)
      | None \<Rightarrow>
          (let buffer' = buffer @ sr_data r in
           case sr_err r of
             Some err \<Rightarrow>
               Returns ((if i > 0 then sniffError else Some (E_Cause err [S ''read payload'']), c), buffer', rs)
           | None \<Rightarrow>
               (case stream_round X (buffers @ [buffer']) sniffers None c of
                  Returns (True, err, c') \<Rightarrow> Returns ((err, c'), buffer', rs)
                | Returns (False, err, c') \<Rightarrow>
                    if errors_Is_opt X err ErrNeedMoreData
                    then PeekStream X buffers sniffers rs (Suc i) err buffer' c'
                    else Returns ((err, c'), buffer', rs)
                | Panics e \<Rightarrow> Panics e
                | Diverges \<Rightarrow> Diverges)))"

section \<open>The sniff action\<close>

type_synonym packet_buffer = "bytes \<times> Socksaddr"

datatype packet_read =
    ReadPacket bytes Socksaddr
  | ReadPacketError error
  | ReadDeadlineExceeded
  | ContextDone error

text \<open>The connection of the call: a stream, a packet connection, or none of them.\<close>

datatype sniff_input = StreamInput "stream_read list" | PacketInput "packet_read list" | NoInput

definition defaultStreamSniffers :: "StreamSniffer list" where
  "defaultStreamSniffers = [TLSClientHello, HTTPHost, StreamDomainNameQuery, BitTorrent, SSH, RDP]"

definition defaultPacketSniffers :: "PacketSniffer list" where
  "defaultPacketSniffers = [DomainNameQuery, QUICClientHello, STUNMessage, UTP, UDPTracker, DTLSRecord, NTP]"

text \<open>A previous error of the same sniffers ends the action unless it asks for more data.\<close>

definition sniffed_before :: "sniff_lib \<Rightarrow> RuleActionSniff \<Rightarrow> InboundContext \<Rightarrow> bool" where
  "sniffed_before X act c \<longleftrightarrow> md_SnifferNames c = SnifferNames act \<and> md_SniffError c \<noteq> None
     \<and> \<not> errors_Is_opt X (md_SniffError c) ErrNeedMoreData"

definition quicMoreData :: "sniff_lib \<Rightarrow> RuleActionSniff \<Rightarrow> InboundContext \<Rightarrow> bool" where
  "quicMoreData X act c \<longleftrightarrow> md_SnifferNames c = SnifferNames act \<and> errors_Is_opt X (md_SniffError c) ErrNeedMoreData"

definition override_destination :: "sniff_lib \<Rightarrow> RuleActionSniff \<Rightarrow> InboundContext \<Rightarrow> InboundContext" where
  "override_destination X act c =
     (if OverrideDestination act \<and> IsDomainName X (md_Domain c)
      then c\<lparr>md_Destination := \<lparr>sa_Addr = AddrInvalid, sa_Port = sa_Port (md_Destination c), sa_Fqdn = md_Domain c\<rparr>\<rparr>
      else c)"

definition sniff_finally :: "sniff_lib \<Rightarrow> RuleActionSniff \<Rightarrow> sniffed \<Rightarrow> InboundContext" where
  "sniff_finally X act r = (case r of (None, c) \<Rightarrow> override_destination X act c | (Some _, c) \<Rightarrow> c)"

text \<open>One packet: its sniffers, and the names and the error kept in the metadata.\<close>

definition sniff_packet ::
  "sniff_lib \<Rightarrow> RuleActionSniff \<Rightarrow> PacketSniffer list \<Rightarrow> InboundContext \<Rightarrow> bytes \<Rightarrow> sniffed run" where
  "sniff_packet X act sniffers c packet =
     (case PeekPacket X (if quicMoreData X act c then [QUICClientHello] else sniffers) c packet of
        Returns (err, c') \<Rightarrow> Returns (err, c'\<lparr>md_SnifferNames := SnifferNames act, md_SniffError := err\<rparr>)
      | Panics e \<Rightarrow> Panics e
      | Diverges \<Rightarrow> Diverges)"

text \<open>The loop over the packets that were read before: \<open>Inl\<close> leaves for \<open>finally\<close>, \<open>Inr\<close> goes on to read.\<close>

fun sniff_cached ::
  "sniff_lib \<Rightarrow> RuleActionSniff \<Rightarrow> PacketSniffer list \<Rightarrow> packet_buffer list \<Rightarrow> InboundContext \<Rightarrow> (sniffed + InboundContext) run" where
  "sniff_cached X act sniffers [] c = Returns (Inr c)"
| "sniff_cached X act sniffers (p # ps) c =
     (case sniff_packet X act sniffers c (fst p) of
        Returns (err, c') \<Rightarrow>
          if errors_Is_opt X err ErrNeedMoreData then sniff_cached X act sniffers ps c' else Returns (Inl (err, c'))
      | Panics e \<Rightarrow> Panics e
      | Diverges \<Rightarrow> Diverges)"

text \<open>The loop that reads packets: the packets, the metadata, a fatal error, and the reads that are left.\<close>

type_synonym packets_result = "(packet_buffer list \<times> InboundContext \<times> error option) \<times> packet_read list"

fun sniff_reads ::
  "sniff_lib \<Rightarrow> RuleActionSniff \<Rightarrow> PacketSniffer list \<Rightarrow> packet_read list \<Rightarrow> packet_buffer list \<Rightarrow> InboundContext \<Rightarrow> packets_result run" where
  "sniff_reads X act sniffers [] packetBuffers c = Returns ((packetBuffers, c, None), [])"
| "sniff_reads X act sniffers (r # rs) packetBuffers c = (case r of
     ContextDone err \<Rightarrow> Returns ((packetBuffers, c, Some err), rs)
   | ReadPacketError err \<Rightarrow> Returns ((packetBuffers, c, Some err), rs)
   | ReadDeadlineExceeded \<Rightarrow> Returns ((packetBuffers, c, None), rs)
   | ReadPacket data destination \<Rightarrow>
       (case sniff_packet X act sniffers c data of
          Returns (err, c') \<Rightarrow>
            if errors_Is_opt X err ErrNeedMoreData
            then sniff_reads X act sniffers rs (packetBuffers @ [(data, destination)]) c'
            else Returns ((packetBuffers @ [(data, destination)], sniff_finally X act (err, c'), None), rs)
        | Panics e \<Rightarrow> Panics e
        | Diverges \<Rightarrow> Diverges))"

definition sniff_stream ::
  "sniff_lib \<Rightarrow> stream_read list \<Rightarrow> RuleActionSniff \<Rightarrow> bytes list \<Rightarrow> InboundContext \<Rightarrow>
   ((bytes, packet_buffer) sniff_result \<times> sniff_input) run" where
  "sniff_stream X reads act inputBuffers c =
     (if length (StreamSniffers act) = 0 \<and> length (PacketSniffers act) > 0 \<or> sniffed_before X act c
      then Returns ((None, [], c, None), StreamInput reads)
      else
        let sniffers = (if length (StreamSniffers act) > 0 then StreamSniffers act else defaultStreamSniffers) in
        case PeekStream X inputBuffers sniffers reads 0 None [] c of
          Returns ((err, c'), buffer, rest) \<Rightarrow>
            Returns ((if buffer \<noteq> [] then Some buffer else None, [],
                      sniff_finally X act (err, c'\<lparr>md_SnifferNames := SnifferNames act, md_SniffError := err\<rparr>), None),
                     StreamInput rest)
        | Panics e \<Rightarrow> Panics e
        | Diverges \<Rightarrow> Diverges)"

definition sniff_packets ::
  "sniff_lib \<Rightarrow> packet_read list \<Rightarrow> RuleActionSniff \<Rightarrow> packet_buffer list \<Rightarrow> InboundContext \<Rightarrow>
   ((bytes, packet_buffer) sniff_result \<times> sniff_input) run" where
  "sniff_packets X reads act inputPacketBuffers c =
     (if length (PacketSniffers act) = 0 \<and> length (StreamSniffers act) > 0 \<or> sniffed_before X act c
      then Returns ((None, [], c, None), PacketInput reads)
      else
        let sniffers = (if length (PacketSniffers act) > 0 then PacketSniffers act else defaultPacketSniffers) in
        case sniff_cached X act sniffers inputPacketBuffers c of
          Returns (Inl r) \<Rightarrow> Returns ((None, [], sniff_finally X act r, None), PacketInput reads)
        | Returns (Inr c') \<Rightarrow>
            (case sniff_reads X act sniffers reads inputPacketBuffers c' of
               Returns ((packetBuffers, c'', fatalErr), rest) \<Rightarrow>
                 Returns ((None, packetBuffers, c'', fatalErr), PacketInput rest)
             | Panics e \<Rightarrow> Panics e
             | Diverges \<Rightarrow> Diverges)
        | Panics e \<Rightarrow> Panics e
        | Diverges \<Rightarrow> Diverges)"

definition Router_actionSniff ::
  "sniff_lib \<Rightarrow> sniff_input \<Rightarrow> RuleActionSniff \<Rightarrow> bytes list \<Rightarrow> packet_buffer list \<Rightarrow> InboundContext \<Rightarrow>
   ((bytes, packet_buffer) sniff_result \<times> sniff_input) run" where
  "Router_actionSniff X input act inputBuffers inputPacketBuffers c =
     (if Skip c \<or> md_Protocol c \<noteq> [] then Returns ((None, [], c, None), input)
      else (case input of
              StreamInput reads \<Rightarrow> sniff_stream X reads act inputBuffers c
            | PacketInput reads \<Rightarrow> sniff_packets X reads act inputPacketBuffers c
            | NoInput \<Rightarrow> Returns ((None, [], c, None), NoInput)))"

end
