(* ===== verification/Ja3_Layout.thy ===== *)
theory Ja3_Layout
  imports Ja3
begin

text \<open>
  The layout of a ClientHello (RFC 8446, section 4.1.2) and the proof that the parser of \<open>common/ja3\<close>
  reads it back: \<open>hello\<close> is the abstract message, \<open>encode_record\<close> its bytes, \<open>hello_fields\<close> what the
  parser should find.
\<close>

section \<open>Numbers\<close>

lemma unat_byte_less: "unat (a :: 8 word) < 256"
  using unsigned_less [of a, where ?'a = nat] by simp

lemma unat_be16: "unat (be16 a b) = 256 * unat a + unat b"
proof -
  have disj: "push_bit 8 (ucast a :: 16 word) AND ucast b = 0"
    by (rule bit_word_eqI) (auto simp: bit_simps dest: bit_imp_le_length)
  have a: "unat (push_bit 8 (ucast a :: 16 word)) = 256 * unat a"
    using unat_byte_less [of a] by (simp add: push_bit_eq_mult unat_word_ariths(2) unsigned_ucast_eq take_bit_nat_eq_self)
  have b: "unat (ucast b :: 16 word) = unat b"
    using unat_byte_less [of b] by (simp add: unsigned_ucast_eq take_bit_nat_eq_self)
  show ?thesis
    using a b disj unat_byte_less [of a] unat_byte_less [of b]
    by (simp add: be16_def disjunctive_add_eq_or [symmetric] unat_word_ariths(1))
qed

lemma unat_be24: "unat (be24 a b c) = 65536 * unat a + 256 * unat b + unat c"
proof -
  have bounds: "unat a < 256" "unat b < 256" "unat c < 256"
    using unat_byte_less [of a] unat_byte_less [of b] unat_byte_less [of c] by simp_all
  have disj: "push_bit 16 (ucast a :: 32 word) AND push_bit 8 (ucast b) = 0"
    "(push_bit 16 (ucast a :: 32 word) OR push_bit 8 (ucast b)) AND ucast c = 0"
    by (rule bit_word_eqI, auto simp: bit_simps dest: bit_imp_le_length)+
  have a: "unat (push_bit 16 (ucast a :: 32 word)) = 65536 * unat a"
    using bounds by (simp add: push_bit_eq_mult unat_word_ariths(2) unsigned_ucast_eq take_bit_nat_eq_self)
  have b: "unat (push_bit 8 (ucast b :: 32 word)) = 256 * unat b"
    using bounds by (simp add: push_bit_eq_mult unat_word_ariths(2) unsigned_ucast_eq take_bit_nat_eq_self)
  have c: "unat (ucast c :: 32 word) = unat c"
    using bounds by (simp add: unsigned_ucast_eq take_bit_nat_eq_self)
  have ab: "unat (push_bit 16 (ucast a :: 32 word) OR push_bit 8 (ucast b)) = 65536 * unat a + 256 * unat b"
    using a b bounds by (simp add: disjunctive_add_eq_or [OF disj(1), symmetric] unat_word_ariths(1))
  have "be24 a b c = (push_bit 16 (ucast a) OR push_bit 8 (ucast b)) + ucast c"
    unfolding disjunctive_add_eq_or [OF disj(2)] by (simp add: be24_def or.assoc)
  then show ?thesis using ab c bounds by (simp add: unat_word_ariths(1))
qed

definition hi :: "nat \<Rightarrow> 8 word" where "hi n = word_of_nat (n div 256)"
definition lo :: "nat \<Rightarrow> 8 word" where "lo n = word_of_nat n"

definition enc16 :: "nat \<Rightarrow> bytes" where "enc16 n = [hi n, lo n]"
definition enc24 :: "nat \<Rightarrow> bytes" where "enc24 n = [word_of_nat (n div 65536), hi n, lo n]"

lemma unat_byte_of_nat: "unat (word_of_nat n :: 8 word) = n mod 256"
  by (simp add: unat_of_nat)

lemma unat_lo [simp]: "n < 256 \<Longrightarrow> unat (lo n) = n"
  by (simp add: lo_def unat_byte_of_nat)

lemma unat_be16_enc [simp]: "n < 65536 \<Longrightarrow> unat (be16 (hi n) (lo n)) = n"
  by (simp add: unat_be16 hi_def lo_def unat_byte_of_nat)

lemma be16_enc_word [simp]: "be16 (hi (unat w)) (lo (unat w)) = w"
proof -
  have "unat w < 65536" using unsigned_less [of w, where ?'a = nat] by simp
  then have "unat (be16 (hi (unat w)) (lo (unat w))) = unat w" by (rule unat_be16_enc)
  then show ?thesis by (rule word_unat_eq_iff [THEN iffD2])
qed

lemma unat_be24_enc [simp]: "n < 16777216 \<Longrightarrow> unat (be24 (word_of_nat (n div 65536)) (hi n) (lo n)) = n"
proof -
  assume "n < 16777216"
  then have "n div 65536 < 256" by (simp add: less_mult_imp_div_less)
  moreover have "n = 65536 * (n div 65536) + 256 * (n div 256 mod 256) + n mod 256"
  proof -
    have "n = 256 * (n div 256) + n mod 256" by simp
    moreover have "n div 256 = 256 * (n div 256 div 256) + n div 256 mod 256" by simp
    moreover have "n div 256 div 256 = n div 65536" by (simp add: div_mult2_eq [symmetric])
    ultimately show ?thesis by linarith
  qed
  ultimately show ?thesis by (simp add: unat_be24 hi_def lo_def unat_byte_of_nat)
qed

definition enc16s :: "16 word list \<Rightarrow> bytes" where
  "enc16s ws = concat (map (\<lambda>w. enc16 (unat w)) ws)"

lemma length_enc16s [simp]: "length (enc16s ws) = 2 * length ws"
  by (induction ws) (simp_all add: enc16s_def enc16_def)

lemma uint16_loop_enc [simp]: "uint16_loop (2 * length ws) (enc16s ws @ rest) = Inr ws"
proof (induction ws)
  case Nil
  then show ?case by (simp add: uint16_loop.simps)
next
  case (Cons w ws)
  have "enc16s (w # ws) @ rest = hi (unat w) # lo (unat w) # enc16s ws @ rest"
    by (simp add: enc16s_def enc16_def)
  with Cons show ?case by (subst uint16_loop.simps) simp
qed

section \<open>The layout\<close>

datatype extension =
    ServerNameExt string
  | SupportedGroups "16 word list"
  | PointFormats "8 word list"
  | SupportedVersions "16 word list"
  | SignatureAlgorithms "16 word list"
  | OtherExt "16 word" bytes

fun ext_type :: "extension \<Rightarrow> 16 word" where
  "ext_type (ServerNameExt _) = 0"
| "ext_type (SupportedGroups _) = 10"
| "ext_type (PointFormats _) = 11"
| "ext_type (SupportedVersions _) = 43"
| "ext_type (SignatureAlgorithms _) = 13"
| "ext_type (OtherExt t _) = t"

fun ext_body :: "extension \<Rightarrow> bytes" where
  "ext_body (ServerNameExt name) = enc16 (length name + 3) @ 0 # enc16 (length name) @ str_bytes name"
| "ext_body (SupportedGroups ws) = enc16 (2 * length ws) @ enc16s ws"
| "ext_body (PointFormats bs) = lo (length bs) # bs"
| "ext_body (SupportedVersions ws) = lo (2 * length ws) # enc16s ws"
| "ext_body (SignatureAlgorithms ws) = enc16 (2 * length ws) @ enc16s ws"
| "ext_body (OtherExt _ bs) = bs"

fun ext_ok :: "extension \<Rightarrow> bool" where
  "ext_ok (ServerNameExt name) = (length name < 65000)"
| "ext_ok (SupportedGroups ws) = (length ws < 32000)"
| "ext_ok (PointFormats bs) = (length bs < 256)"
| "ext_ok (SupportedVersions ws) = (length ws < 128)"
| "ext_ok (SignatureAlgorithms ws) = (length ws < 32000)"
| "ext_ok (OtherExt t bs) = (t \<notin> {0, 10, 11, 43, 13} \<and> length bs < 65532)"

definition enc_ext :: "extension \<Rightarrow> bytes" where
  "enc_ext e = enc16 (unat (ext_type e)) @ enc16 (length (ext_body e)) @ ext_body e"

text \<open>What the parser's variables hold after an extension.\<close>

fun note_ext :: "extension \<Rightarrow> extension_vars \<Rightarrow> extension_vars" where
  "note_ext (ServerNameExt name) v = v\<lparr>xv_sni := str_bytes name\<rparr>"
| "note_ext (SupportedGroups ws) v = v\<lparr>xv_ellipticCurves := ws\<rparr>"
| "note_ext (PointFormats bs) v = v\<lparr>xv_ellipticCurvePF := bs\<rparr>"
| "note_ext (SupportedVersions ws) v = v\<lparr>xv_versions := xv_versions v @ ws\<rparr>"
| "note_ext (SignatureAlgorithms ws) v = v\<lparr>xv_signatureAlgorithms := xv_signatureAlgorithms v @ ws\<rparr>"
| "note_ext (OtherExt _ _) v = v"

definition note_exts :: "extension list \<Rightarrow> extension_vars \<Rightarrow> extension_vars" where
  "note_exts es v = fold (\<lambda>e v. note_ext e (v\<lparr>xv_extensions := xv_extensions v @ [ext_type e]\<rparr>)) es v"

lemma parse_extension_enc:
  assumes "ext_ok e"
  shows "parse_extension (ext_type e) (ext_body e) v = Inr (note_ext e v)"
  using assms
  by (cases e)
    (simp_all add: parse_extension_def enc16_def str_bytes_def
      uint16_loop_enc [where rest = "[]", simplified])

lemma ext_body_bound: "ext_ok e \<Longrightarrow> length (ext_body e) < 65532"
  by (cases e) (simp_all add: enc16_def str_bytes_def)

lemma extension_loop_enc:
  assumes "\<forall>e\<in>set es. ext_ok e"
  shows "extension_loop (concat (map enc_ext es)) v = Inr (note_exts es v)"
  using assms
proof (induction es arbitrary: v)
  case Nil
  then show ?case by (simp add: extension_loop.simps note_exts_def)
next
  case (Cons e es)
  let ?rest = "concat (map enc_ext es)"
  have ok: "ext_ok e" and es: "\<forall>e\<in>set es. ext_ok e" using Cons.prems by simp_all
  have bound: "length (ext_body e) < 65532" by (rule ext_body_bound [OF ok])
  have split: "concat (map enc_ext (e # es)) =
      hi (unat (ext_type e)) # lo (unat (ext_type e)) # hi (length (ext_body e)) # lo (length (ext_body e)) # ext_body e @ ?rest"
    by (simp add: enc_ext_def enc16_def)
  have sum: "unat (4 + be16 (hi (length (ext_body e))) (lo (length (ext_body e)))) = Suc (Suc (Suc (Suc (length (ext_body e)))))"
    using bound by (simp add: unat_word_ariths(1))
  show ?case
    unfolding split
    by (subst extension_loop.simps)
      (use ok es bound sum Cons.IH in \<open>simp add: parse_extension_enc note_exts_def Let_def\<close>)
qed

record hello =
  he_version :: "16 word"
  he_random :: bytes
  he_session :: bytes
  he_ciphers :: "16 word list"
  he_compression :: bytes
  he_extensions :: "extension list"

definition enc_body :: "hello \<Rightarrow> bytes" where
  "enc_body h =
     enc16 (unat (he_version h)) @ he_random h @ lo (length (he_session h)) # he_session h
     @ enc16 (2 * length (he_ciphers h)) @ enc16s (he_ciphers h)
     @ lo (length (he_compression h)) # he_compression h
     @ enc16 (length (concat (map enc_ext (he_extensions h)))) @ concat (map enc_ext (he_extensions h))"

definition enc_handshake :: "hello \<Rightarrow> bytes" where
  "enc_handshake h = 1 # enc24 (length (enc_body h)) @ enc_body h"

text \<open>A TLS record of the legacy version 3.3, as the QUIC sniffer builds it.\<close>

definition encode_record :: "hello \<Rightarrow> bytes" where
  "encode_record h = 22 # 3 # 3 # enc16 (length (enc_handshake h)) @ enc_handshake h"

text \<open>The fields fit their length bytes; and the extensions are what their types promise.\<close>

definition hello_fits :: "hello \<Rightarrow> bool" where
  "hello_fits h \<longleftrightarrow> tls_version_ok (he_version h) \<and> length (he_random h) = 32 \<and> length (he_session h) < 256
     \<and> length (he_ciphers h) < 32768 \<and> length (he_compression h) < 256 \<and> length (enc_handshake h) < 65536"

definition hello_ok :: "hello \<Rightarrow> bool" where
  "hello_ok h \<longleftrightarrow> hello_fits h \<and> list_all ext_ok (he_extensions h)"

definition hello_fields :: "hello \<Rightarrow> ClientHello" where
  "hello_fields h =
     (let v = note_exts (he_extensions h) no_extensions
      in zeroClientHello\<lparr>ch_Version := he_version h, ch_CipherSuites := he_ciphers h,
           ch_ServerName := bytes_str (xv_sni v), ch_Extensions := xv_extensions v,
           ch_EllipticCurves := xv_ellipticCurves v, ch_EllipticCurvePF := xv_ellipticCurvePF v,
           ch_Versions := xv_versions v, ch_SignatureAlgorithms := xv_signatureAlgorithms v\<rparr>)"

section \<open>Reading it back\<close>

lemma parseExtensions_enc:
  assumes "list_all ext_ok es" and "length (concat (map enc_ext es)) < 65536"
  shows "parseExtensions j (enc16 (length (concat (map enc_ext es))) @ concat (map enc_ext es)) =
    (let v = note_exts es no_extensions
     in Inr (j\<lparr>ch_ServerName := bytes_str (xv_sni v), ch_Extensions := xv_extensions v,
           ch_EllipticCurves := xv_ellipticCurves v, ch_EllipticCurvePF := xv_ellipticCurvePF v,
           ch_Versions := xv_versions v, ch_SignatureAlgorithms := xv_signatureAlgorithms v\<rparr>))"
proof -
  have "extension_loop (concat (map enc_ext es)) no_extensions = Inr (note_exts es no_extensions)"
    by (rule extension_loop_enc) (use assms(1) in \<open>simp add: list_all_iff\<close>)
  then show ?thesis using assms(2) unfolding parseExtensions_def enc16_def by (simp add: Let_def)
qed

text \<open>The first 39 bytes of the handshake, and what follows the session id.\<close>

definition enc_suites :: "hello \<Rightarrow> bytes" where
  "enc_suites h = enc16 (2 * length (he_ciphers h)) @ enc16s (he_ciphers h)
     @ lo (length (he_compression h)) # he_compression h
     @ enc16 (length (concat (map enc_ext (he_extensions h)))) @ concat (map enc_ext (he_extensions h))"

lemma enc_handshake_layout:
  assumes "length (he_random h) = 32"
  defines "hs \<equiv> enc_handshake h"
  shows "hs ! 0 = 1" and "be24 (hs ! 1) (hs ! 2) (hs ! 3) = be24 (word_of_nat (length (drop 4 hs) div 65536)) (hi (length (drop 4 hs))) (lo (length (drop 4 hs)))"
    and "be16 (hs ! 4) (hs ! 5) = he_version h" and "hs ! 38 = lo (length (he_session h))"
    and "length hs = 39 + length (he_session h) + length (enc_suites h)"
    and "drop (39 + length (he_session h)) hs = enc_suites h"
proof -
  have hs: "hs = 1 # word_of_nat (length (enc_body h) div 65536) # hi (length (enc_body h)) # lo (length (enc_body h))
      # hi (unat (he_version h)) # lo (unat (he_version h)) # he_random h @ lo (length (he_session h)) # he_session h @ enc_suites h"
    unfolding hs_def by (simp add: enc_handshake_def enc_body_def enc_suites_def enc24_def enc16_def)
  have body: "drop 4 hs = enc_body h"
    unfolding hs by (simp add: enc_body_def enc_suites_def enc16_def)
  show "hs ! 0 = 1" unfolding hs by simp
  show "be24 (hs ! 1) (hs ! 2) (hs ! 3) = be24 (word_of_nat (length (drop 4 hs) div 65536)) (hi (length (drop 4 hs))) (lo (length (drop 4 hs)))"
    unfolding body by (simp add: hs)
  show "be16 (hs ! 4) (hs ! 5) = he_version h" unfolding hs by simp
  show "hs ! 38 = lo (length (he_session h))" using assms(1) unfolding hs by (simp add: nth_append)
  show "length hs = 39 + length (he_session h) + length (enc_suites h)" using assms(1) unfolding hs by simp
  define pre where "pre = [1, word_of_nat (length (enc_body h) div 65536), hi (length (enc_body h)), lo (length (enc_body h)),
      hi (unat (he_version h)), lo (unat (he_version h))] @ he_random h @ lo (length (he_session h)) # he_session h"
  have "hs = pre @ enc_suites h" by (simp add: hs pre_def)
  moreover have "length pre = 39 + length (he_session h)" by (simp add: pre_def assms(1))
  ultimately show "drop (39 + length (he_session h)) hs = enc_suites h" by simp
qed

lemma enc_suites_layout:
  fixes h
  defines "cs \<equiv> enc_suites h" and "n \<equiv> 2 * length (he_ciphers h)"
    and "exs \<equiv> concat (map enc_ext (he_extensions h))"
  assumes "length (he_ciphers h) < 32768"
  shows "unat (be16 (cs ! 0) (cs ! 1)) = n" and "cs ! (2 + n) = lo (length (he_compression h))"
    and "length cs = 2 + n + 1 + length (he_compression h) + 2 + length exs"
    and "drop (2 + n + 1 + length (he_compression h)) cs = enc16 (length exs) @ exs"
    and "uint16_loop n (drop 2 cs) = Inr (he_ciphers h)"
proof -
  have cs: "cs = hi n # lo n # enc16s (he_ciphers h) @ lo (length (he_compression h)) # he_compression h
      @ enc16 (length exs) @ exs"
    by (simp add: cs_def n_def exs_def enc_suites_def enc16_def)
  have len: "length (enc16s (he_ciphers h)) = n" by (simp add: n_def)
  show "unat (be16 (cs ! 0) (cs ! 1)) = n" using assms(4) by (simp add: cs n_def)
  show "cs ! (2 + n) = lo (length (he_compression h))" using len by (simp add: cs nth_append)
  show "length cs = 2 + n + 1 + length (he_compression h) + 2 + length exs" using len by (simp add: cs enc16_def)
  show "drop (2 + n + 1 + length (he_compression h)) cs = enc16 (length exs) @ exs" using len by (simp add: cs)
  show "uint16_loop n (drop 2 cs) = Inr (he_ciphers h)" by (simp add: cs n_def)
qed

definition enc_extensions :: "hello \<Rightarrow> bytes" where
  "enc_extensions h = (let exs = concat (map enc_ext (he_extensions h)) in enc16 (length exs) @ exs)"

lemma extensions_fit: "hello_fits h \<Longrightarrow> length (concat (map enc_ext (he_extensions h))) < 65536"
  using enc_handshake_layout(5) [of h] enc_suites_layout(3) [of h] by (simp add: hello_fits_def)

lemma parseHandshake_enc:
  assumes fits: "hello_fits h"
  shows "parseHandshake j (enc_handshake h) =
    parseExtensions (j\<lparr>ch_Version := he_version h, ch_CipherSuites := he_ciphers h\<rparr>) (enc_extensions h)"
proof -
  let ?hs = "enc_handshake h"
  have rnd: "length (he_random h) = 32" and ciphers: "length (he_ciphers h) < 32768"
    and v: "tls_version_ok (he_version h)" and sess: "length (he_session h) < 256"
    and comp: "length (he_compression h) < 256" and len: "length ?hs < 65536"
    using fits by (simp_all add: hello_fits_def)
  note H = enc_handshake_layout [OF rnd] and C = enc_suites_layout [OF ciphers]
  have "unat (be24 (?hs ! 1) (?hs ! 2) (?hs ! 3)) = length (drop 4 ?hs)"
    unfolding H(2) by (rule unat_be24_enc) (use len in simp)
  then show ?thesis
    unfolding parseHandshake_def Let_def H(1,3,4) unat_lo [OF sess] H(6) C(1,2) unat_lo [OF comp] C(4)
    using v H(5) C(3,5) by (simp add: enc_extensions_def Let_def)
qed

lemma Compute_enc:
  assumes "hello_fits h"
  shows "Compute (encode_record h @ trailer) =
    parseExtensions (zeroClientHello\<lparr>ch_Version := he_version h, ch_CipherSuites := he_ciphers h\<rparr>) (enc_extensions h)"
proof -
  have len: "length (enc_handshake h) < 65536" using assms by (simp add: hello_fits_def)
  have "tls_version_ok (be16 3 3)" by (simp add: tls_version_ok_def be16_def)
  then show ?thesis
    using len parseHandshake_enc [OF assms]
    by (simp add: Compute_def parseSegment_def encode_record_def enc16_def)
qed

lemma Compute_encode_record:
  assumes "hello_ok h"
  shows "Compute (encode_record h @ trailer) = Inr (hello_fields h)"
proof -
  have fits: "hello_fits h" and exts: "list_all ext_ok (he_extensions h)" using assms by (simp_all add: hello_ok_def)
  show ?thesis
    using Compute_enc [OF fits] parseExtensions_enc [OF exts extensions_fit [OF fits]]
    by (simp add: enc_extensions_def hello_fields_def Let_def)
qed

section \<open>Panics\<close>

lemma uint16_loop_panics: "uint16_loop n bs = Inl e \<longleftrightarrow> 2 * (length bs div 2) < n \<and> e = slice_panic"
proof (induction n bs rule: uint16_loop.induct)
  case (1 n bs)
  show ?case
  proof (cases "n = 0")
    case True
    then show ?thesis by (simp add: uint16_loop.simps)
  next
    case False
    show ?thesis
    proof (cases bs rule: remdups_adj.cases)
      case (3 a b rest)
      with False "1.IH" have "uint16_loop (n - 2) rest = Inl e \<longleftrightarrow> 2 * (length rest div 2) < n - 2 \<and> e = slice_panic"
        by blast
      with False 3 show ?thesis
        by (subst uint16_loop.simps) (auto simp: bind_result_def split: sum.splits)
    qed (use False in \<open>auto simp: uint16_loop.simps\<close>)
  qed
qed

text \<open>
  Only the two loops that trust the announced length can panic: the list of versions and the signature
  algorithms.
\<close>

lemma bind_uint16_loop_panics:
  "bind_result (uint16_loop n bs) (\<lambda>ws. Inr (f ws)) = Inl e \<longleftrightarrow> 2 * (length bs div 2) < n \<and> e = slice_panic"
  using uint16_loop_panics [of n bs] by (cases "uint16_loop n bs") auto

lemma parse_extension_panics:
  "parse_extension t sex v = Inl (Panic m) \<longleftrightarrow>
     Panic m = slice_panic \<and>
       (t = 43 \<and> sex \<noteq> [] \<and> 2 * ((length sex - 1) div 2) < unat (sex ! 0)
        \<or> t = 13 \<and> 2 \<le> length sex \<and> 2 * ((length sex - 2) div 2) < unat (be16 (sex ! 0) (sex ! 1)))"
proof -
  consider "t = 43" | "t = 13" | "t = 10" | "t \<notin> {43, 13, 10}" by auto
  then show ?thesis
  proof cases
    case 1
    then show ?thesis
      by (auto simp: parse_extension_def ParseError_def bind_uint16_loop_panics)
  next
    case 2
    then show ?thesis
      by (auto simp: parse_extension_def ParseError_def bind_uint16_loop_panics)
  next
    case 3
    then show ?thesis
      by (simp add: parse_extension_def ParseError_def bind_uint16_loop_panics Let_def)
  next
    case 4
    then show ?thesis by (simp add: parse_extension_def ParseError_def Let_def)
  qed
qed

lemma Compute_versions_panic:
  assumes "hello_fits h" and "he_extensions h = OtherExt 43 (k # bs) # es"
    and "2 * (length bs div 2) < unat k" and "length bs < 65000"
  shows "Compute (encode_record h @ trailer) = Inl slice_panic"
proof -
  let ?exs = "concat (map enc_ext (he_extensions h))"
  have p: "parse_extension 43 (k # bs) v = Inl slice_panic" for v
    using assms(3) by (simp add: parse_extension_def uint16_loop_panics [THEN iffD2])
  have exs: "?exs = hi 43 # lo 43 # hi (length (k # bs)) # lo (length (k # bs)) # (k # bs) @ concat (map enc_ext es)"
    by (simp add: assms(2) enc_ext_def enc16_def)
  have ty: "be16 (hi 43) (lo 43) = 43" using be16_enc_word [of 43] by simp
  have "extension_loop ?exs no_extensions = Inl slice_panic"
    unfolding exs by (subst extension_loop.simps) (use assms(4) p in \<open>simp add: ty Let_def\<close>)
  then show ?thesis
    using Compute_enc [OF assms(1)] extensions_fit [OF assms(1)]
    by (simp add: parseExtensions_def enc_extensions_def enc16_def Let_def)
qed

text \<open>The sum \<open>4 + exLen\<close> does not wrap in a record, so the loop always advances.\<close>

lemma extension_loop_advances:
  "length exs \<le> 65535 \<Longrightarrow> extension_loop exs v \<noteq> Inl no_advance"
proof (induction exs v rule: extension_loop.induct)
  case (1 exs v)
  have p: "parse_extension t sex u \<noteq> Inl no_advance" for t sex u
    using parse_extension_panics [of t sex u] by (auto simp: no_advance_def slice_panic_def)
  have wrap: "unat (4 + be16 (exs ! 2) (exs ! 3)) \<noteq> 0" if "4 + unat (be16 (exs ! 2) (exs ! 3)) \<le> length exs"
    using that "1.prems" by (simp add: unat_word_ariths(1))
  show ?case
    by (subst extension_loop.simps)
      (use "1.IH" "1.prems" p wrap in \<open>auto simp: Let_def ParseError_def no_advance_def split: sum.splits\<close>)
qed

text \<open>Every failure of the parser is a parse error or one of the panics above.\<close>

definition parse_failure :: "error \<Rightarrow> bool" where
  "parse_failure e \<longleftrightarrow> (\<exists>ty k. e = ParseError ty k) \<or> e = slice_panic"

lemma parse_failureI [simp]: "parse_failure (ParseError ty k)" "parse_failure slice_panic"
  by (auto simp: parse_failure_def)

lemma uint16_loop_failure: "uint16_loop n bs = Inl e \<Longrightarrow> parse_failure e"
  by (simp add: uint16_loop_panics)

lemma parse_extension_failure: "parse_extension t sex v = Inl e \<Longrightarrow> parse_failure e"
  by (auto simp: parse_extension_def Let_def bind_uint16_loop_panics split: if_splits)

lemma extension_loop_failure:
  "extension_loop exs v = Inl e \<Longrightarrow> length exs \<le> 65535 \<Longrightarrow> parse_failure e"
proof (induction exs v rule: extension_loop.induct)
  case (1 exs v)
  have wrap: "unat (4 + be16 (exs ! 2) (exs ! 3)) \<noteq> 0" if "4 + unat (be16 (exs ! 2) (exs ! 3)) \<le> length exs"
    using that "1.prems" by (simp add: unat_word_ariths(1))
  show ?case
    using "1.prems"(1)
    by (subst (asm) extension_loop.simps)
      (use "1.IH" "1.prems"(2) wrap in \<open>auto simp: Let_def dest: parse_extension_failure split: sum.splits if_splits\<close>)
qed

lemma parseExtensions_failure:
  "parseExtensions j exs = Inl e \<Longrightarrow> length exs \<le> 65535 \<Longrightarrow> parse_failure e"
  by (auto simp: parseExtensions_def bind_result_def dest: extension_loop_failure split: if_splits sum.splits)

lemma parseHandshake_failure:
  "parseHandshake j hs = Inl e \<Longrightarrow> length hs \<le> 65535 \<Longrightarrow> parse_failure e"
  by (auto simp: parseHandshake_def Let_def bind_result_def
      dest: parseExtensions_failure uint16_loop_failure split: if_splits sum.splits)

lemma Compute_error: "Compute payload = Inl e \<Longrightarrow> parse_failure e"
proof -
  assume e: "Compute payload = Inl e"
  have n: "unat (be16 a b) \<le> 65535" for a b using unat_byte_less [of a] unat_byte_less [of b] by (simp add: unat_be16)
  have "parse_failure e'" if "parseHandshake j (take (unat (be16 a b)) bs) = Inl e'" for j a b bs e'
    by (rule parseHandshake_failure [OF that]) (use n [of a b] in \<open>simp add: min.coboundedI2\<close>)
  with e show "parse_failure e" by (auto simp: Compute_def parseSegment_def Let_def split: if_splits)
qed

end
