(* ===== verification/Quic_Reassembly.thy ===== *)
theory Quic_Reassembly
  imports Quic_Sniff Ja3_Layout "HOL-Library.Multiset"
begin

text \<open>
  What the QUIC sniffer promises: its integers are the ones of RFC 9000, the search loop ends when every
  fragment has a byte, the fragments of a ClientHello are put together whatever their order and however
  they are spread over packets, and the one case in which the search never ends.
\<close>

section \<open>Variable-length integers\<close>

definition uvarint_len :: "8 word \<Rightarrow> nat" where
  "uvarint_len firstByte = push_bit (unat (drop_bit 6 (firstByte AND 0xc0))) 1"

lemma uvarint_len_cases: "uvarint_len b \<in> {1, 2, 4, 8}"
proof -
  let ?k = "unat (drop_bit 6 (b AND 0xc0))"
  have "?k < 4" using unat_byte_less [of "b AND 0xc0"] by (simp only: unat_drop_bit_eq) (simp add: drop_bit_eq_div)
  then have "?k = 0 \<or> ?k = 1 \<or> ?k = 2 \<or> ?k = 3" by linarith
  then show ?thesis unfolding uvarint_len_def by (elim disjE) (simp_all add: push_bit_eq_mult)
qed

lemma low_six_bits: "unat (b AND (0xff - 0xc0 :: 8 word)) < 64"
proof -
  have "(0xff - 0xc0 :: 8 word) = mask 6" by (simp add: mask_eq_exp_minus_1)
  then have "unat (b AND (0xff - 0xc0 :: 8 word)) = take_bit 6 (unat b)"
    by (simp only: take_bit_eq_mask [symmetric] unsigned_take_bit_eq)
  then show ?thesis by (simp add: take_bit_eq_mod)
qed

text \<open>The reader as RFC 9000, section 16, defines it: the big-endian value of the bytes with the two high
  bits of the first one cleared.\<close>

definition uvarint_spec :: "64 word reader" where
  "uvarint_spec bs =
     (case bs of
        [] \<Rightarrow> Inl io_EOF
      | b # rest \<Rightarrow>
          let k = uvarint_len b - 1 in
          if k \<le> length rest
          then Inr (word_of_nat (be_value ((b AND (0xff - 0xc0)) # take k rest)), drop k rest)
          else Inl io_EOF)"

lemma bind_ReadByte_Inl:
  "bind_result (ReadByte bs) f = Inl e \<longleftrightarrow> bs = [] \<and> e = io_EOF \<or> (\<exists>b rest. bs = b # rest \<and> f (b, rest) = Inl e)"
  by (cases bs) auto

lemma uvarint_rest_spec:
  assumes "n \<in> {1, 2, 4, 8}"
  shows "uvarint_rest n b1 rest =
    (if n - 1 \<le> length rest then Inr (word_of_nat (be_value (b1 # take (n - 1) rest)), drop (n - 1) rest) else Inl io_EOF)"
proof -
  consider "n = 1" | "n = 2" | "n = 4" | "n = 8" using assms by auto
  then show ?thesis
  proof cases
    case 1
    then show ?thesis by (simp add: uvarint_rest_def be_value_def)
  next
    case 2
    then show ?thesis
      by (cases rest) (simp_all add: uvarint_rest_def be_value_def push_bit_eq_mult)
  next
    case 3
    then show ?thesis
      by (cases rest; cases "tl rest"; cases "tl (tl rest)")
        (simp_all add: uvarint_rest_def be_value_def push_bit_eq_mult algebra_simps)
  next
    case 4
    show ?thesis
    proof (cases "7 \<le> length rest")
      case True
      then obtain b2 b3 b4 b5 b6 b7 b8 r where "rest = b2 # b3 # b4 # b5 # b6 # b7 # b8 # r"
        by (auto simp: Suc_le_length_iff numeral_eq_Suc)
      with 4 show ?thesis by (simp add: uvarint_rest_def be_value_def push_bit_eq_mult algebra_simps)
    next
      case False
      have "\<not> (\<exists>y. uvarint_rest n b1 rest = Inr y)"
        using 4 False by (auto simp: uvarint_rest_def bind_ReadByte_Inr)
      moreover have "e = io_EOF" if "uvarint_rest n b1 rest = Inl e" for e
        using that 4 by (auto simp: uvarint_rest_def bind_ReadByte_Inl)
      ultimately show ?thesis using 4 False by (cases "uvarint_rest n b1 rest") auto
    qed
  qed
qed

lemma quic_ReadUvarint_spec: "quic_ReadUvarint bs = uvarint_spec bs"
proof (cases bs)
  case (Cons b rest)
  have "quic_ReadUvarint bs = uvarint_rest (uvarint_len b) (b AND (0xff - 0xc0)) rest"
    by (simp add: Cons quic_ReadUvarint_def uvarint_len_def)
  then show ?thesis using uvarint_rest_spec [OF uvarint_len_cases] Cons by (simp add: uvarint_spec_def Let_def)
qed (simp add: quic_ReadUvarint_def uvarint_spec_def)

lemma be_value_append: "be_value (xs @ ys) = be_value xs * 256 ^ length ys + be_value ys"
proof (induction ys rule: rev_induct)
  case Nil
  then show ?case by (simp add: be_value_def)
next
  case (snoc y ys)
  have "be_value (xs @ ys @ [y]) = be_value (xs @ ys) * 256 + unat y" using be_value_snoc [of "xs @ ys" y] by simp
  then show ?case by (simp add: snoc.IH be_value_snoc algebra_simps)
qed

lemma be_value_less: "be_value bs < 256 ^ length bs"
proof (induction bs rule: rev_induct)
  case Nil
  then show ?case by (simp add: be_value_def)
next
  case (snoc b bs)
  have "be_value bs * 256 + unat b < (be_value bs + 1) * 256" using unat_byte_less [of b] by simp
  also have "\<dots> \<le> 256 ^ length bs * 256" using snoc.IH by (intro mult_right_mono) simp_all
  finally show ?case by (simp add: be_value_snoc)
qed

lemma quic_ReadUvarint_bound:
  assumes "quic_ReadUvarint bs = Inr (v, rest)"
  shows "unat v < 2 ^ 62"
proof -
  obtain b bs' where bs: "bs = b # bs'" using assms by (cases bs) (auto simp: quic_ReadUvarint_spec uvarint_spec_def)
  let ?k = "uvarint_len b - 1"
  let ?n = "be_value ((b AND (0xff - 0xc0)) # take ?k bs')"
  have k: "?k \<le> 7" using uvarint_len_cases [of b] by auto
  have len: "?k \<le> length bs'" and v: "v = word_of_nat ?n"
    using assms by (auto simp: bs quic_ReadUvarint_spec uvarint_spec_def Let_def split: if_splits)
  have "?n = unat (b AND (0xff - 0xc0)) * 256 ^ ?k + be_value (take ?k bs')"
    using be_value_append [of "[b AND (0xff - 0xc0)]" "take ?k bs'"] len by (simp add: be_value_def)
  also have "\<dots> < (unat (b AND (0xff - 0xc0)) + 1) * 256 ^ ?k"
    using be_value_less [of "take ?k bs'"] len by simp
  also have "\<dots> \<le> 64 * 256 ^ ?k" using low_six_bits [of b] by (intro mult_right_mono) simp_all
  also have "\<dots> \<le> 64 * 256 ^ 7" using power_increasing [OF k, of "256 :: nat"] by simp
  finally have "?n < 2 ^ 62" by simp
  then show ?thesis by (simp add: v unat_of_nat)
qed

section \<open>The search loop\<close>

text \<open>A fragment that was read from a frame: its end is a 63-bit number and its payload has its length. It
  moves the search on if it has a byte.\<close>

definition fragment_ok :: "qCryptoFragment \<Rightarrow> bool" where
  "fragment_ok f \<longleftrightarrow> unat (qf_offset f) + unat (qf_length f) < 2 ^ 64 \<and> length (qf_payload f) = unat (qf_length f)"

definition nonempty_fragment :: "qCryptoFragment \<Rightarrow> bool" where
  "nonempty_fragment f \<longleftrightarrow> 0 < qf_length f"

definition pending :: "qCryptoFragment list \<Rightarrow> 64 word \<Rightarrow> qCryptoFragment list" where
  "pending fs i = filter (\<lambda>f. i \<le> qf_offset f) fs"

lemma fragment_end:
  "fragment_ok f \<Longrightarrow> unat (qf_offset f + qf_length f) = unat (qf_offset f) + unat (qf_length f)"
  by (simp add: fragment_ok_def unat_word_ariths(1))

lemma find_fragment:
  assumes "find (\<lambda>f. qf_offset f = i) fs = Some f"
  shows "f \<in> set fs" and "qf_offset f = i"
  using assms by (auto simp: find_Some_iff)

lemma sum_list_filter_remove:
  assumes "f \<in> set fs" and "P f" and "\<And>g. Q g \<Longrightarrow> P g" and "\<not> Q f"
  shows "sum_list (map w (filter Q fs)) + w f \<le> (sum_list (map w (filter P fs)) :: nat)"
  using assms(1)
proof (induction fs)
  case (Cons g gs)
  have le: "sum_list (map w (filter Q hs)) \<le> sum_list (map w (filter P hs))" for hs
    using assms(3) by (induction hs) (auto intro: le_SucI trans_le_add2)
  show ?case
  proof (cases "f = g")
    case True
    then show ?thesis using assms(2,4) le [of gs] by simp
  next
    case False
    with Cons have "sum_list (map w (filter Q gs)) + w f \<le> sum_list (map w (filter P gs))" by simp
    then show ?thesis using assms(3) [of g] by auto
  qed
qed simp

lemma pending_shrinks:
  assumes "f \<in> set fs" and "qf_offset f = i" and "fragment_ok f" and "nonempty_fragment f"
  defines "j \<equiv> qf_offset f + qf_length f"
  shows "sum_list (map w (pending fs j)) + w f \<le> (sum_list (map w (pending fs i)) :: nat)"
proof -
  have "0 < unat (qf_length f)" using assms(4) by (simp add: nonempty_fragment_def word_less_nat_alt)
  then have "i < j" using fragment_end [OF assms(3)] assms(2) by (simp add: j_def word_less_nat_alt)
  then show ?thesis
    unfolding pending_def using assms(1,2) by (intro sum_list_filter_remove) auto
qed

text \<open>With only non-empty fragments the loop returns, and what it has written is no longer than the
  fragments it had left.\<close>

lemma find_loop_returns:
  assumes "\<forall>f\<in>set fs. fragment_ok f \<and> nonempty_fragment f"
  shows "\<exists>out. find_loop fs i buf = Some out
    \<and> length out \<le> length buf + sum_list (map (\<lambda>f. unat (qf_length f)) (pending fs i))"
proof (induction "sum_list (map (\<lambda>f. unat (qf_length f)) (pending fs i))" arbitrary: i buf rule: less_induct)
  case less
  show ?case
  proof (cases "find (\<lambda>f. qf_offset f = i) fs")
    case None
    then show ?thesis by (subst find_loop.simps) simp
  next
    case (Some f)
    let ?j = "qf_offset f + qf_length f" and ?w = "\<lambda>fs. sum_list (map (\<lambda>f. unat (qf_length f)) fs)"
    have f: "f \<in> set fs" "qf_offset f = i" by (rule find_fragment [OF Some])+
    with assms have ok: "fragment_ok f" "nonempty_fragment f" by auto
    have step: "?w (pending fs ?j) + unat (qf_length f) \<le> ?w (pending fs i)"
      by (rule pending_shrinks [OF f ok])
    have "0 < unat (qf_length f)" using ok(2) by (simp add: nonempty_fragment_def word_less_nat_alt)
    with step have "?w (pending fs ?j) < ?w (pending fs i)" by linarith
    from less [OF this, of "buf @ qf_payload f"] obtain out
      where out: "find_loop fs ?j (buf @ qf_payload f) = Some out"
        "length out \<le> length (buf @ qf_payload f) + ?w (pending fs ?j)"
      by blast
    then have "length out \<le> length buf + ?w (pending fs i)" using step ok(1) by (simp add: fragment_ok_def)
    moreover have "find_loop fs i buf = Some out" using out(1) Some by (subst find_loop.simps) simp
    ultimately show ?thesis by blast
  qed
qed

text \<open>So the buffer, with room for all the lengths, takes everything that is written.\<close>

lemma find_loop_fits:
  assumes "\<forall>f\<in>set fs. fragment_ok f \<and> nonempty_fragment f" and "find_loop fs 0 hdr = Some out"
  shows "length out \<le> length hdr + sum_list (map (\<lambda>f. unat (qf_length f)) fs)"
  using find_loop_returns [OF assms(1), of 0 hdr] assms(2) by (simp add: pending_def)

text \<open>A fragment without a byte, found first where the search stands, is found again.\<close>

lemma find_loop_stuck:
  assumes "find (\<lambda>f. qf_offset f = i) fs = Some f" and "qf_length f = 0"
  shows "find_loop fs i buf = None"
proof (rule ccontr)
  assume "find_loop fs i buf \<noteq> None"
  then obtain out where ret: "find_loop fs i buf = Some out" by blast
  have "\<not> (fs = fs \<and> i = i)"
  proof (rule find_loop.raw_induct [where P = "\<lambda>fs' i' _ _. \<not> (fs' = fs \<and> i' = i)", OF _ ret])
    fix loop fs' i' b r
    assume IH: "\<And>fs' i' b r. loop fs' i' b = Some r \<Longrightarrow> \<not> (fs' = fs \<and> i' = i)"
      and body: "(case find (\<lambda>f. qf_offset f = i') fs' of None \<Rightarrow> Some b
        | Some f \<Rightarrow> loop fs' (qf_offset f + qf_length f) (b @ qf_payload f)) = Some r"
    show "\<not> (fs' = fs \<and> i' = i)"
    proof
      assume "fs' = fs \<and> i' = i"
      with body assms find_fragment(2) [OF assms(1)] have "loop fs i (b @ qf_payload f) = Some r" by simp
      with IH show False by blast
    qed
  qed
  then show False by simp
qed

section \<open>Putting a message together\<close>

text \<open>The fragments of a message that was cut into the pieces \<open>ps\<close>, the first of them at offset \<open>n\<close>.\<close>

fun fragments_of :: "nat \<Rightarrow> bytes list \<Rightarrow> qCryptoFragment list" where
  "fragments_of n [] = []"
| "fragments_of n (p # ps) =
     \<lparr>qf_offset = word_of_nat n, qf_length = word_of_nat (length p), qf_payload = p\<rparr> # fragments_of (n + length p) ps"

lemma fragments_of_append: "fragments_of n (ps @ qs) = fragments_of n ps @ fragments_of (n + length (concat ps)) qs"
  by (induction ps arbitrary: n) (simp_all add: add.assoc)

lemma payloads_of_fragments [simp]: "map qf_payload (fragments_of n ps) = ps"
  by (induction ps arbitrary: n) simp_all

lemma fragments_of_offset:
  assumes "f \<in> set (fragments_of n ps)" and "n + length (concat ps) < 2 ^ 64" and "[] \<notin> set ps"
  shows "n \<le> unat (qf_offset f) \<and> unat (qf_offset f) < n + length (concat ps)"
  using assms
proof (induction ps arbitrary: n)
  case (Cons p ps)
  from Cons.prems(1) consider "qf_offset f = word_of_nat n" | "f \<in> set (fragments_of (n + length p) ps)" by auto
  then show ?case
  proof cases
    case 1
    have "n < 2 ^ 64" and "0 < length p" using Cons.prems by auto
    then show ?thesis using 1 by (simp add: unat_of_nat)
  next
    case 2
    then have "n + length p \<le> unat (qf_offset f) \<and> unat (qf_offset f) < n + length p + length (concat ps)"
      using Cons.IH Cons.prems(2,3) by simp
    then show ?thesis by simp
  qed
qed simp

lemma fragments_of_ok:
  assumes "f \<in> set (fragments_of n ps)" and "n + length (concat ps) < 2 ^ 64" and "[] \<notin> set ps"
  shows "fragment_ok f \<and> nonempty_fragment f \<and> unat (qf_length f) = length (qf_payload f)"
  using assms
proof (induction ps arbitrary: n)
  case (Cons p ps)
  from Cons.prems(1) consider "f = \<lparr>qf_offset = word_of_nat n, qf_length = word_of_nat (length p), qf_payload = p\<rparr>"
    | "f \<in> set (fragments_of (n + length p) ps)" by auto
  then show ?case
  proof cases
    case 1
    have "n + length p < 2 ^ 64" and "0 < length p" using Cons.prems by auto
    then show ?thesis using 1 by (simp add: fragment_ok_def nonempty_fragment_def word_less_nat_alt unat_of_nat)
  next
    case 2
    then show ?thesis using Cons.IH Cons.prems(2,3) by simp
  qed
qed simp

lemma fragments_of_inj:
  assumes "f \<in> set (fragments_of n ps)" and "g \<in> set (fragments_of n ps)" and "qf_offset f = qf_offset g"
    and "n + length (concat ps) < 2 ^ 64" and "[] \<notin> set ps"
  shows "f = g"
  using assms
proof (induction ps arbitrary: n)
  case (Cons p ps)
  let ?h = "\<lparr>qf_offset = word_of_nat n, qf_length = word_of_nat (length p), qf_payload = p\<rparr>"
  have n: "unat (word_of_nat n :: 64 word) = n" using Cons.prems(4) by (simp add: unat_of_nat)
  have later: "n < unat (qf_offset e)" if "e \<in> set (fragments_of (n + length p) ps)" for e
    using fragments_of_offset [OF that] Cons.prems(4,5) by (cases p) simp_all
  show ?case
  proof (cases "f = ?h \<or> g = ?h")
    case True
    then have "unat (qf_offset f) = n" using Cons.prems(3) n by auto
    moreover have "unat (qf_offset g) = n" using calculation Cons.prems(3) by simp
    ultimately show ?thesis using Cons.prems(1,2) later by fastforce
  next
    case False
    then show ?thesis using Cons.IH [of "n + length p"] Cons.prems by simp
  qed
qed simp

text \<open>
  A message cut into non-empty pieces, some of whose fragments have arrived in any order, is written up to
  the first fragment that is missing.
\<close>

lemma find_loop_pieces:
  assumes sub: "set fs \<subseteq> set (fragments_of 0 (qs @ rs))" and len: "length (concat (qs @ rs)) < 2 ^ 64"
    and ne: "[] \<notin> set (qs @ rs)"
  shows "find_loop fs (word_of_nat (length (concat qs))) buf =
    Some (buf @ concat (map qf_payload (takeWhile (\<lambda>f. f \<in> set fs) (fragments_of (length (concat qs)) rs))))"
  using assms
proof (induction rs arbitrary: qs buf)
  case Nil
  have "find (\<lambda>f. qf_offset f = word_of_nat (length (concat qs))) fs = None"
  proof (rule ccontr)
    assume "find (\<lambda>f. qf_offset f = word_of_nat (length (concat qs))) fs \<noteq> None"
    then obtain f where f: "f \<in> set fs" "qf_offset f = word_of_nat (length (concat qs))"
      by (auto simp: find_None_iff)
    with Nil.prems have "unat (qf_offset f) < length (concat qs)"
      using fragments_of_offset [of f 0 "qs @ []"] by auto
    then show False using f(2) Nil.prems(2) by (simp add: unat_of_nat)
  qed
  then show ?case by (subst find_loop.simps) simp
next
  case (Cons p rs)
  let ?n = "length (concat qs)"
  let ?h = "\<lparr>qf_offset = word_of_nat ?n, qf_length = word_of_nat (length p), qf_payload = p\<rparr>"
  have h: "?h \<in> set (fragments_of 0 (qs @ p # rs))" by (simp add: fragments_of_append)
  have only: "f = ?h" if "f \<in> set fs" and "qf_offset f = word_of_nat ?n" for f
    using fragments_of_inj [of f 0 "qs @ p # rs" ?h] that h Cons.prems by auto
  show ?case
  proof (cases "?h \<in> set fs")
    case True
    then have "find (\<lambda>f. qf_offset f = word_of_nat ?n) fs \<noteq> None" by (auto simp: find_None_iff)
    then obtain f where f: "find (\<lambda>f. qf_offset f = word_of_nat ?n) fs = Some f" by blast
    with find_fragment [OF f] only have "f = ?h" by blast
    moreover have "find_loop fs (word_of_nat (length (concat (qs @ [p])))) (buf @ p) =
      Some ((buf @ p) @ concat (map qf_payload (takeWhile (\<lambda>f. f \<in> set fs) (fragments_of (length (concat (qs @ [p]))) rs))))"
      using Cons.IH [of "qs @ [p]" "buf @ p"] Cons.prems by simp
    ultimately show ?thesis using f True by (subst find_loop.simps) simp
  next
    case False
    with only have "find (\<lambda>f. qf_offset f = word_of_nat ?n) fs = None" by (auto simp: find_None_iff)
    then show ?thesis using False by (subst find_loop.simps) simp
  qed
qed

section \<open>Complete and incomplete messages\<close>

lemma distinct_fragments_of:
  assumes "n + length (concat ps) < 2 ^ 64" and "[] \<notin> set ps"
  shows "distinct (fragments_of n ps)"
  using assms
proof (induction ps arbitrary: n)
  case (Cons p ps)
  let ?h = "\<lparr>qf_offset = word_of_nat n, qf_length = word_of_nat (length p), qf_payload = p\<rparr> :: qCryptoFragment"
  have "?h \<notin> set (fragments_of (n + length p) ps)"
  proof
    assume "?h \<in> set (fragments_of (n + length p) ps)"
    from fragments_of_offset [OF this] Cons.prems show False by (cases p) (simp_all add: unat_of_nat)
  qed
  then show ?case using Cons by simp
qed simp

lemma unat_frame_len:
  assumes "sum_list (map (\<lambda>f. unat (qf_length f)) fs) < 2 ^ 64"
  shows "unat (frame_len fs) = sum_list (map (\<lambda>f. unat (qf_length f)) fs)"
  using assms
proof (induction fs)
  case (Cons f fs)
  then have "unat (frame_len fs) = sum_list (map (\<lambda>f. unat (qf_length f)) fs)" by simp
  with Cons.prems show ?case by (simp add: frame_len_def unat_word_ariths(1))
qed (simp add: frame_len_def)

lemma fragments_total:
  assumes "n + length (concat ps) < 2 ^ 64" and "[] \<notin> set ps"
  shows "sum_list (map (\<lambda>f. unat (qf_length f)) (fragments_of n ps)) = length (concat ps)"
  using assms
proof (induction ps arbitrary: n)
  case (Cons p ps)
  then have "sum_list (map (\<lambda>f. unat (qf_length f)) (fragments_of (n + length p) ps)) = length (concat ps)" by simp
  with Cons.prems(1) show ?case by (simp add: unat_of_nat)
qed simp

lemma mset_sum_le:
  assumes "mset fs \<subseteq># mset gs"
  shows "sum_list (map w fs) \<le> (sum_list (map w gs) :: nat)"
proof -
  have "mset gs = mset fs + (mset gs - mset fs)" using assms by simp
  then have "(\<Sum>x\<in>#mset gs. w x) = (\<Sum>x\<in>#mset fs. w x) + (\<Sum>x\<in>#mset gs - mset fs. w x)"
    by (metis image_mset_union sum_mset.union)
  then show ?thesis by (simp add: sum_mset_sum_list [symmetric])
qed

lemma be_bytes_2: "be_bytes 2 n = [hi n, lo n]"
  by (simp add: hi_def lo_def numeral_2_eq_2)

lemma distinct_mset_subset:
  assumes "distinct xs" and "set xs \<subseteq> set ys"
  shows "mset xs \<subseteq># mset ys"
proof (rule mset_subset_eqI)
  fix a
  show "count (mset xs) a \<le> count (mset ys) a"
  proof (cases "a \<in> set xs")
    case True
    then have "count (mset xs) a = 1" using assms(1) by (simp add: distinct_count_atmost_1)
    moreover have "0 < count (mset ys) a" using True assms(2) by (auto simp: count_greater_zero_iff)
    ultimately show ?thesis by simp
  next
    case False
    then have none: "count (mset xs) a = 0" by (simp add: count_mset_0_iff)
    show ?thesis unfolding none by (rule le0)
  qed
qed

text \<open>The arrived fragments of a message: what the loop writes, and the length it announces.\<close>

lemma reassemble_pieces:
  assumes sub: "mset fs \<subseteq># mset (fragments_of 0 ps)" and len: "length (concat ps) < 65536" and ne: "[] \<notin> set ps"
  defines "F \<equiv> sum_list (map (\<lambda>f. unat (qf_length f)) fs)"
    and "body \<equiv> concat (map qf_payload (takeWhile (\<lambda>f. f \<in> set fs) (fragments_of 0 ps)))"
  shows "reassemble fs = Some (22 # 3 # 3 # hi F # lo F # body)"
    and "length body \<le> F" and "F \<le> length (concat ps)"
proof -
  have set: "set fs \<subseteq> set (fragments_of 0 ps)" using sub by (metis mset_subset_eqD set_mset_mset subsetI)
  have bound: "0 + length (concat ps) < 2 ^ 64" using len by simp
  have total: "sum_list (map (\<lambda>f. unat (qf_length f)) (fragments_of 0 ps)) = length (concat ps)"
    by (rule fragments_total [OF bound ne])
  show F: "F \<le> length (concat ps)" unfolding F_def total [symmetric] by (rule mset_sum_le [OF sub])
  have loop: "find_loop fs 0 buf = Some (buf @ body)" for buf
    using find_loop_pieces [of fs "[]" ps buf] set bound ne by (simp add: body_def)
  have "unat (frame_len fs) = F" unfolding F_def by (rule unat_frame_len) (use F len in \<open>simp add: F_def\<close>)
  then show "reassemble fs = Some (22 # 3 # 3 # hi F # lo F # body)"
    unfolding reassemble_def loop be_bytes_2 by (simp add: hi_def lo_def)
  have "\<forall>f\<in>set fs. fragment_ok f \<and> nonempty_fragment f" using fragments_of_ok [OF _ bound ne] set by blast
  from find_loop_fits [OF this loop [of "[]"]] show "length body \<le> F" by (simp add: F_def)
qed

text \<open>A proper prefix of a handshake message is refused with a parse error.\<close>

lemma parseHandshake_short:
  assumes "hello_fits h" and "n < length (enc_handshake h)"
  shows "\<exists>k. parseHandshake j (take n (enc_handshake h)) = Inl (ParseError LengthErr k)"
proof (cases "n < 39")
  case True
  then show ?thesis by (auto simp: parseHandshake_def)
next
  case False
  let ?hs = "enc_handshake h"
  have rnd: "length (he_random h) = 32" and len: "length ?hs < 65536" using assms(1) by (simp_all add: hello_fits_def)
  note H = enc_handshake_layout [OF rnd]
  have "unat (be24 (?hs ! 1) (?hs ! 2) (?hs ! 3)) = length (drop 4 ?hs)"
    unfolding H(2) by (rule unat_be24_enc) (use len in simp)
  moreover have "n - 4 \<noteq> length ?hs - 4" using False assms(2) by linarith
  ultimately have "parseHandshake j (take n ?hs) = Inl (ParseError LengthErr 4)"
    using False assms(2) H(1) by (simp add: parseHandshake_def)
  then show ?thesis by blast
qed

lemma takeWhile_missing:
  assumes "\<exists>x\<in>set xs. \<not> P x"
  shows "\<exists>x ys. xs = takeWhile P xs @ x # ys"
  using assms
  by (metis dropWhile_eq_Nil_conv list.exhaust takeWhile_dropWhile_id)

text \<open>Some fragments of a ClientHello: the parser asks for more unless they are all there.\<close>

lemma Compute_pieces:
  assumes ok: "hello_ok h" and cut: "concat ps = enc_handshake h" and ne: "[] \<notin> set ps"
    and sub: "mset fs \<subseteq># mset (fragments_of 0 ps)"
  shows "\<exists>buf. reassemble fs = Some buf \<and>
    (if mset fs = mset (fragments_of 0 ps) then Compute buf = Inr (hello_fields h)
     else \<exists>k. Compute buf = Inl (ParseError LengthErr k))"
proof -
  let ?all = "fragments_of 0 ps" and ?F = "sum_list (map (\<lambda>f. unat (qf_length f)) fs)"
  let ?body = "concat (map qf_payload (takeWhile (\<lambda>f. f \<in> set fs) ?all))"
  let ?buf = "22 # 3 # 3 # hi ?F # lo ?F # ?body"
  have fits: "hello_fits h" using ok by (simp add: hello_ok_def)
  then have len: "length (concat ps) < 65536" by (simp add: cut hello_fits_def)
  have bound: "0 + length (concat ps) < 2 ^ 64" using len by simp
  note R = reassemble_pieces [OF sub len ne]
  have ver: "tls_version_ok (be16 3 3)" by (simp add: tls_version_ok_def be16_def)
  have F: "unat (be16 (hi ?F) (lo ?F)) = ?F" by (rule unat_be16_enc) (use R(3) len in linarith)
  show ?thesis
  proof (cases "mset fs = mset ?all")
    case True
    then have "set fs = set ?all" by (rule mset_eq_setD)
    then have all: "takeWhile (\<lambda>f. f \<in> set fs) ?all = ?all" by (simp add: takeWhile_eq_all_conv)
    have body: "?body = enc_handshake h" unfolding all by (simp add: cut)
    moreover have "?F = length (concat ps)"
    proof -
      have "?F = sum_list (map (\<lambda>f. unat (qf_length f)) ?all)"
        by (intro antisym mset_sum_le) (simp_all add: True)
      then show ?thesis using fragments_total [OF bound ne] by simp
    qed
    ultimately have "?buf = encode_record h @ []" by (simp add: encode_record_def enc16_def cut)
    then have "Compute ?buf = Inr (hello_fields h)" using Compute_encode_record [OF ok] by metis
    then show ?thesis using R(1) True by auto
  next
    case False
    have "\<exists>f\<in>set ?all. f \<notin> set fs"
    proof (rule ccontr)
      assume "\<not> (\<exists>f\<in>set ?all. f \<notin> set fs)"
      then have "set ?all \<subseteq> set fs" by blast
      then have "mset ?all \<subseteq># mset fs"
        by (rule distinct_mset_subset [OF distinct_fragments_of [OF bound ne]])
      then show False using False sub by (simp add: subset_mset.antisym)
    qed
    then obtain g gs where split: "?all = takeWhile (\<lambda>f. f \<in> set fs) ?all @ g # gs"
      using takeWhile_missing by metis
    have whole: "enc_handshake h = ?body @ concat (map qf_payload (g # gs))"
      using arg_cong [OF split, of "\<lambda>xs. concat (map qf_payload xs)"] by (simp add: cut)
    have "g \<in> set ?all" by (subst split) simp
    then have "qf_payload g \<noteq> []"
      using fragments_of_ok [OF _ bound ne, of g] by (auto simp: nonempty_fragment_def word_less_nat_alt)
    then have short: "length ?body < length (enc_handshake h)" by (simp add: whole)
    have "\<exists>k. Compute ?buf = Inl (ParseError LengthErr k)"
    proof (cases "length ?body = ?F")
      case True
      have "take ?F ?body = take (length ?body) (enc_handshake h)" using True by (simp add: whole)
      then show ?thesis
        using parseHandshake_short [OF fits short, of zeroClientHello] True F ver
        by (simp add: Compute_def parseSegment_def Let_def)
    next
      case False
      then have "length ?body < ?F" using R(2) by simp
      then have "Compute ?buf = Inl (ParseError LengthErr 2)"
        using F ver by (simp add: Compute_def parseSegment_def Let_def)
      then show ?thesis by blast
    qed
    then show ?thesis using R(1) False by auto
  qed
qed

section \<open>The sniffer\<close>

text \<open>What the packets before have left: fragments that are not yet a ClientHello.\<close>

definition saved_fragments :: "InboundContext \<Rightarrow> qCryptoFragment list" where
  "saved_fragments c = (case md_SniffContext c of None \<Rightarrow> [] | Some fs \<Rightarrow> fs)"

definition saved_ok :: "InboundContext \<Rightarrow> bool" where
  "saved_ok c \<longleftrightarrow> (\<forall>fs. md_SniffContext c = Some fs \<longrightarrow> (\<exists>buf e. reassemble fs = Some buf \<and> Compute buf = Inl e))"

lemma Compute_nothing: "\<exists>buf e. reassemble [] = Some buf \<and> Compute buf = Inl e"
proof -
  have "reassemble [] = Some (22 # be_bytes 2 0x0303 @ be_bytes 2 0)"
    unfolding reassemble_def by (subst find_loop.simps) (simp add: frame_len_def)
  moreover have "Compute (22 # be_bytes 2 0x0303 @ be_bytes 2 0) = Inl (ParseError LengthErr 3)"
    by (simp add: be_bytes_2 hi_def lo_def Compute_def parseSegment_def parseHandshake_def tls_version_ok_def be16_def)
  ultimately show ?thesis by blast
qed

lemma frame_loop_types:
  "frame_loop P bs ts fs = Inr (ts', fs') \<Longrightarrow> (\<exists>us. ts' = ts @ us \<and> (us = [] \<longrightarrow> fs' = fs))"
proof (induction P bs ts fs rule: frame_loop.induct)
  case (1 P bs ts fs)
  show ?case
  proof (cases bs)
    case Nil
    with "1.prems" show ?thesis by (simp add: frame_loop.simps)
  next
    case (Cons t rest)
    with "1.prems" obtain gs rest' where q: "quic_frame P t rest = Inr (gs, rest')"
      and l: "frame_loop P rest' (ts @ [t]) (fs @ gs) = Inr (ts', fs')"
      by (subst (asm) frame_loop.simps) (auto split: sum.splits)
    from "1.IH" [OF Cons q refl l] show ?thesis by auto
  qed
qed

lemma guess_client_panics: "guess_client ts f = Inl e \<Longrightarrow> ts = []"
  by (auto simp: guess_client_def split: if_splits)

lemma quic_finish_saves:
  "quic_finish X ts new c = Returns (r, c') \<Longrightarrow> saved_ok c'"
  by (auto simp: quic_finish_def saved_ok_def Let_def split: option.splits sum.splits error.splits if_splits)

lemma quic_finish_no_index_panic:
  assumes "saved_ok c" and "ts = [] \<Longrightarrow> new = []"
  shows "quic_finish X ts new c \<noteq> Panics index_panic"
proof
  assume panic: "quic_finish X ts new c = Panics index_panic"
  have "e \<noteq> index_panic" if "Compute buf = Inl e" for buf e
    using Compute_error [OF that] by (auto simp: parse_failure_def ParseError_def slice_panic_def index_panic_def)
  with panic obtain buf f where b: "reassemble (new @ saved_fragments c) = Some buf" and f: "Compute buf = Inr f"
    and "guess_client ts f = Inl index_panic"
    by (auto simp: quic_finish_def saved_fragments_def Let_def split: option.splits sum.splits error.splits if_splits)
  then have "new @ saved_fragments c = saved_fragments c" using guess_client_panics assms(2) by auto
  with b f assms(1) Compute_nothing show False
    by (cases "md_SniffContext c") (auto simp: saved_ok_def saved_fragments_def)
qed

text \<open>No other step of the sniffer panics with an index out of range.\<close>

definition no_index :: "'a result \<Rightarrow> bool" where
  "no_index r \<longleftrightarrow> r \<noteq> Inl index_panic"

lemma no_index_simps [simp]: "no_index (Inr x)" "no_index (Inl (E_New m))" "no_index (Inl (E_Lib s))"
  "no_index (Inl os_ErrInvalid)" "no_index (Inl slice_panic)"
  by (simp_all add: no_index_def index_panic_def os_ErrInvalid_def slice_panic_def)

lemma no_index_bind [intro]:
  assumes "no_index r" and "\<And>x. no_index (f x)"
  shows "no_index (bind_result r f)"
  using assms by (cases r) (auto simp: no_index_def)

lemma no_index_case_prod [intro]: "(\<And>a b. no_index (f a b)) \<Longrightarrow> no_index (case x of (a, b) \<Rightarrow> f a b)"
  by (cases x) simp

lemma no_index_if [intro]: "no_index a \<Longrightarrow> no_index b \<Longrightarrow> no_index (if c then a else b)"
  by simp

lemmas no_index_rules = no_index_bind no_index_case_prod no_index_if

lemma reader_no_index [simp]: "no_index (ReadByte bs)" "no_index (ReadFull n bs)" "no_index (CopyN_Discard n bs)"
  by (cases bs) (auto simp: ReadFull_def CopyN_Discard_def io_EOF_def io_ErrUnexpectedEOF_def)

lemma uvarint_no_index [simp]: "no_index (quic_ReadUvarint bs)"
  by (auto simp: quic_ReadUvarint_spec uvarint_spec_def io_EOF_def Let_def split: list.splits)

lemma skip_no_index [simp]: "no_index (skip_uvarints n bs)"
proof (induction n bs rule: skip_uvarints.induct)
  case (1 n bs)
  then show ?case by (subst skip_uvarints.simps) auto
qed

lemma header_no_index: "no_index (quic_read_header packet)"
  unfolding quic_read_header_def Let_def by (intro no_index_rules; simp)

lemma keys_no_index [simp]: "no_index (HKDFExpandLabel X secret context label n)" "no_index (AEADAESGCMTLS13 key iv)"
  by (simp_all add: HKDFExpandLabel_def AEADAESGCMTLS13_def no_index_def index_panic_def Let_def)

lemma no_index_option [intro]: "no_index a \<Longrightarrow> (\<And>y. no_index (f y)) \<Longrightarrow> no_index (case x of None \<Rightarrow> a | Some y \<Rightarrow> f y)"
  by (cases x) simp_all

lemma decrypt_no_index: "no_index (quic_decrypt X packet H)"
  unfolding quic_decrypt_def Let_def by (intro no_index_rules no_index_option; simp)

lemma frame_no_index: "no_index (quic_frame P t bs)"
  unfolding quic_frame_def Let_def by (intro no_index_rules; simp)

lemma frame_loop_no_index: "no_index (frame_loop P bs ts fs)"
proof (induction P bs ts fs rule: frame_loop.induct)
  case (1 P bs ts fs)
  show ?case
    by (subst frame_loop.simps)
      (use "1.IH" frame_no_index in \<open>auto simp: no_index_def split: list.splits sum.splits\<close>)
qed

lemma err_sniffed_no_index: "no_index (Inl e) \<Longrightarrow> err_sniffed c e \<noteq> Panics index_panic"
  by (auto simp: err_sniffed_def no_index_def split: error.splits)

lemma sniff_QUIC_no_index:
  assumes "saved_ok c"
  shows "sniff_QUICClientHello X c packet \<noteq> Panics index_panic"
proof (cases "bind_result (quic_read_header packet) (quic_decrypt X packet)")
  case (Inl e)
  have "no_index (bind_result (quic_read_header packet) (quic_decrypt X packet))"
    by (intro no_index_bind header_no_index decrypt_no_index)
  then show ?thesis using Inl err_sniffed_no_index by (simp add: sniff_QUICClientHello_def)
next
  case (Inr P)
  show ?thesis
  proof (cases "frame_loop P (qp_decrypted P) [] []")
    case (Inl e)
    then show ?thesis
      using Inr err_sniffed_no_index frame_loop_no_index [of P "qp_decrypted P" "[]" "[]"]
      by (simp add: sniff_QUICClientHello_def)
  next
    case (Inr r)
    then obtain ts fs where r: "frame_loop P (qp_decrypted P) [] [] = Inr (ts, fs)" by (cases r) auto
    from frame_loop_types [OF r] have "ts = [] \<Longrightarrow> fs = []" by auto
    then show ?thesis
      using \<open>bind_result _ _ = Inr P\<close> r quic_finish_no_index_panic [OF assms, of ts fs X]
      by (simp add: sniff_QUICClientHello_def)
  qed
qed

lemma sniff_QUIC_saves:
  assumes "saved_ok c" and "sniff_QUICClientHello X c packet = Returns (r, c')"
  shows "saved_ok c'"
  using assms quic_finish_saves
  by (auto simp: sniff_QUICClientHello_def err_sniffed_def split: sum.splits error.splits)

text \<open>The fragments of a ClientHello, some in this packet and some saved: the next state of the sniffer.\<close>

lemma quic_finish_pieces:
  assumes ok: "hello_ok h" and cut: "concat ps = enc_handshake h" and ne: "[] \<notin> set ps"
    and sub: "mset (new @ saved_fragments c) \<subseteq># mset (fragments_of 0 ps)" and ts: "ts \<noteq> []"
  shows "if mset (new @ saved_fragments c) = mset (fragments_of 0 ps)
    then \<exists>client. quic_finish X ts new c = Returns (None, c\<lparr>md_SniffContext := None, md_Protocol := ProtocolQUIC,
           md_Domain := ch_ServerName (hello_fields h), md_Client := client\<rparr>)
    else \<exists>err. quic_finish X ts new c = Returns (Some (E_Cause1 X ErrNeedMoreData err),
           c\<lparr>md_SniffContext := Some (new @ saved_fragments c), md_Protocol := ProtocolQUIC\<rparr>)"
proof -
  from Compute_pieces [OF ok cut ne sub] obtain buf where b: "reassemble (new @ saved_fragments c) = Some buf"
    and r: "if mset (new @ saved_fragments c) = mset (fragments_of 0 ps) then Compute buf = Inr (hello_fields h)
      else \<exists>k. Compute buf = Inl (ParseError LengthErr k)"
    by blast
  show ?thesis
  proof (cases "mset (new @ saved_fragments c) = mset (fragments_of 0 ps)")
    case True
    with r have f: "Compute buf = Inr (hello_fields h)" by simp
    obtain client where "guess_client ts (hello_fields h) = Inr client"
      using guess_client_panics ts by (cases "guess_client ts (hello_fields h)") auto
    then have "\<exists>client. quic_finish X ts new c = Returns (None, c\<lparr>md_SniffContext := None, md_Protocol := ProtocolQUIC,
         md_Domain := ch_ServerName (hello_fields h), md_Client := client\<rparr>)"
      using b f by (auto simp: quic_finish_def saved_fragments_def Let_def intro: exI [of _ "md_Client c"])
    then show ?thesis using True by simp
  next
    case False
    with r obtain k where f: "Compute buf = Inl (ParseError LengthErr k)" by auto
    then have "quic_finish X ts new c = Returns (Some (E_Cause1 X ErrNeedMoreData (ParseError LengthErr k)),
        c\<lparr>md_SniffContext := Some (new @ saved_fragments c), md_Protocol := ProtocolQUIC\<rparr>)"
      using b by (simp add: quic_finish_def saved_fragments_def Let_def ParseError_def)
    then show ?thesis using False by auto
  qed
qed

text \<open>The server name of a ClientHello is the one of its last name extension.\<close>

lemma note_exts_sni:
  assumes "\<forall>e\<in>set es. \<forall>n. e \<noteq> ServerNameExt n"
  shows "xv_sni (note_exts es v) = xv_sni v"
  using assms
proof (induction es arbitrary: v)
  case (Cons e es)
  then show ?case by (cases e) (simp_all add: note_exts_def)
qed (simp add: note_exts_def)

lemma hello_ServerName:
  assumes "he_extensions h = es1 @ ServerNameExt name # es2" and "\<forall>e\<in>set es2. \<forall>n. e \<noteq> ServerNameExt n"
  shows "ch_ServerName (hello_fields h) = name"
proof -
  have "note_exts (he_extensions h) no_extensions =
    note_exts es2 (note_ext (ServerNameExt name) ((note_exts es1 no_extensions)
      \<lparr>xv_extensions := xv_extensions (note_exts es1 no_extensions) @ [0]\<rparr>))"
    by (simp add: assms(1) note_exts_def)
  then have "xv_sni (note_exts (he_extensions h) no_extensions) = str_bytes name"
    using note_exts_sni [OF assms(2)] by simp
  then show ?thesis by (simp add: hello_fields_def Let_def)
qed

lemma note_exts_types: "xv_extensions (note_exts es v) = xv_extensions v @ map ext_type es"
proof (induction es arbitrary: v)
  case (Cons e es)
  have "xv_extensions (note_ext e u) = xv_extensions u" for u by (cases e) simp_all
  then show ?case using Cons by (simp add: note_exts_def)
qed (simp add: note_exts_def)

lemma hello_Extensions: "ch_Extensions (hello_fields h) = map ext_type (he_extensions h)"
  by (simp add: hello_fields_def Let_def note_exts_types no_extensions_def)

end
