(* ===== verification/Sniff_Contract.thy ===== *)
theory Sniff_Contract
  imports Sniffers Quic_Reassembly
begin

text \<open>
  The contract of a sniffer that only classifies: its verdict depends on the data alone, on success it sets
  the protocol and nothing else, on failure it leaves the metadata alone. Seven sniffers meet it; for the
  packet sniffers among them \<open>PeekPacket\<close> is the search for the first that accepts.
\<close>

section \<open>The contract\<close>

locale classifier =
  fixes sniff :: "InboundContext \<Rightarrow> 'i \<Rightarrow> sniffed"
    and proto :: string
  assumes verdict: "fst (sniff c i) = fst (sniff d i)"
    and accepts: "fst (sniff c i) = None \<Longrightarrow> snd (sniff c i) = c\<lparr>md_Protocol := proto\<rparr>"
    and refuses: "fst (sniff c i) = Some e \<Longrightarrow> snd (sniff c i) = c"
begin

lemma classify:
  "sniff c i = (case fst (sniff zeroInboundContext i) of None \<Rightarrow> accept proto c | Some e \<Rightarrow> (Some e, c))"
  using verdict [of c i zeroInboundContext] accepts [of c i] refuses [of c i]
  by (cases "sniff c i") (auto simp: accept_def split: option.splits)

text \<open>A sniffer tried twice changes nothing more.\<close>

lemma twice: "sniff c i = (None, d) \<Longrightarrow> sniff d i = (None, d)"
  using verdict [of c i d] accepts [of c i] accepts [of d i] by (cases "sniff d i") auto

end

section \<open>The sniffers that meet it\<close>

lemma read_uint_verdict:
  assumes "\<And>v r. fst (k v r) = fst (k' v r)"
  shows "fst (read_uint X c n chunks k) = fst (read_uint X d n chunks k')"
  using assms by (auto simp: read_uint_def more_data_def split: sum.splits)

definition step_ok :: "InboundContext \<Rightarrow> string \<Rightarrow> sniffed \<Rightarrow> bool" where
  "step_ok c proto r \<longleftrightarrow> r = accept proto c \<or> (\<exists>e. r = (Some e, c))"

lemma step_ok_simps [simp]: "step_ok c proto (refuse c)" "step_ok c proto (accept proto c)"
  "step_ok c proto (more_data X c e)" "step_ok c proto (Some e, c)"
  by (simp_all add: step_ok_def refuse_def more_data_def)

lemma read_uint_step_ok:
  assumes "\<And>v r. step_ok c proto (k v r)"
  shows "step_ok c proto (read_uint X c n chunks k)"
  using assms by (auto simp: read_uint_def split: sum.splits)

lemma step_ok_if: "step_ok c proto a \<Longrightarrow> step_ok c proto b \<Longrightarrow> step_ok c proto (if t then a else b)"
  by simp

lemma classifierI:
  assumes "\<And>c i. step_ok c proto (sniff c i)" and "\<And>c d i. fst (sniff c i) = fst (sniff d i)"
  shows "classifier sniff proto"
proof
  fix c d i e
  show "fst (sniff c i) = fst (sniff d i)" by (rule assms(2))
  show "fst (sniff c i) = None \<Longrightarrow> snd (sniff c i) = c\<lparr>md_Protocol := proto\<rparr>"
    using assms(1) [of c i] by (auto simp: step_ok_def accept_def)
  show "fst (sniff c i) = Some e \<Longrightarrow> snd (sniff c i) = c"
    using assms(1) [of c i] by (auto simp: step_ok_def accept_def)
qed

lemma fst_simps [simp]: "fst (refuse c) = Some os_ErrInvalid" "fst (accept proto c) = None"
  "fst (more_data X c e) = Some (E_Cause1 X ErrNeedMoreData e)"
  by (simp_all add: refuse_def accept_def more_data_def)

text \<open>A packet sniffer is a chain of tests.\<close>

lemma fst_if: "fst (if t then a else b) = (if t then fst a else fst b)"
  by simp

lemmas verdict_simps = fst_if fst_simps

interpretation dtls: classifier sniff_DTLSRecord ProtocolDTLS
  by (rule classifierI; unfold sniff_DTLSRecord_def; (intro step_ok_if; simp only: step_ok_simps | simp only: verdict_simps))

interpretation tracker: classifier sniff_UDPTracker ProtocolBitTorrent
  by (rule classifierI; unfold sniff_UDPTracker_def; (intro step_ok_if; simp only: step_ok_simps | simp only: verdict_simps))

interpretation ntp: classifier sniff_NTP ProtocolNTP
  by (rule classifierI; unfold sniff_NTP_def Let_def; (intro step_ok_if; simp only: step_ok_simps | simp only: verdict_simps))

interpretation stun: classifier sniff_STUNMessage ProtocolSTUN
  by (rule classifierI; unfold sniff_STUNMessage_def; (intro step_ok_if; simp only: step_ok_simps | simp only: verdict_simps))

lemma UTP_step_ok: "step_ok c ProtocolBitTorrent (sniff_UTP c packet)"
  unfolding sniff_UTP_def by (intro step_ok_if) (auto split: option.splits)

lemma UTP_verdict: "fst (sniff_UTP c packet) = fst (sniff_UTP d packet)"
  unfolding sniff_UTP_def by (simp only: verdict_simps) (simp split: option.splits)

interpretation utp: classifier sniff_UTP ProtocolBitTorrent
  by (rule classifierI [OF UTP_step_ok UTP_verdict])

text \<open>A stream sniffer that reads its input as numbers meets the contract when what follows each read does.\<close>

lemma BitTorrent_step_ok: "step_ok c ProtocolBitTorrent (sniff_BitTorrent X c chunks)"
  unfolding sniff_BitTorrent_def
  by (intro read_uint_step_ok step_ok_if) (auto simp: Let_def split: prod.splits option.splits)

lemma RDP_step_ok: "step_ok c ProtocolRDP (sniff_RDP X c chunks)"
  unfolding sniff_RDP_def
  by (intro read_uint_step_ok step_ok_if) (auto intro!: read_uint_step_ok split: sum.splits)

interpretation bittorrent: classifier "sniff_BitTorrent X" ProtocolBitTorrent
  by (rule classifierI [OF BitTorrent_step_ok])
    (auto simp: sniff_BitTorrent_def Let_def intro!: read_uint_verdict split: prod.splits option.splits)

interpretation rdp: classifier "sniff_RDP X" ProtocolRDP
  by (rule classifierI [OF RDP_step_ok])
    (auto simp: sniff_RDP_def intro!: read_uint_verdict split: sum.splits)

section \<open>Peeking with them\<close>

text \<open>The verdict and the protocol of the packet sniffers under the contract; \<open>None\<close> for the other two.\<close>

definition plain_verdict :: "PacketSniffer \<Rightarrow> bytes \<Rightarrow> error option" where
  "plain_verdict s packet = (case s of
     STUNMessage \<Rightarrow> fst (sniff_STUNMessage zeroInboundContext packet)
   | UTP \<Rightarrow> fst (sniff_UTP zeroInboundContext packet)
   | UDPTracker \<Rightarrow> fst (sniff_UDPTracker zeroInboundContext packet)
   | DTLSRecord \<Rightarrow> fst (sniff_DTLSRecord zeroInboundContext packet)
   | NTP \<Rightarrow> fst (sniff_NTP zeroInboundContext packet)
   | _ \<Rightarrow> None)"

definition plain_protocol :: "PacketSniffer \<Rightarrow> string option" where
  "plain_protocol s = (case s of
     STUNMessage \<Rightarrow> Some ProtocolSTUN | UTP \<Rightarrow> Some ProtocolBitTorrent | UDPTracker \<Rightarrow> Some ProtocolBitTorrent
   | DTLSRecord \<Rightarrow> Some ProtocolDTLS | NTP \<Rightarrow> Some ProtocolNTP | _ \<Rightarrow> None)"

lemma run_plain_sniffer:
  assumes "plain_protocol s = Some proto"
  shows "run_packet_sniffer X s c packet =
    Returns (case plain_verdict s packet of None \<Rightarrow> accept proto c | Some e \<Rightarrow> (Some e, c))"
proof (cases s)
  case STUNMessage
  then show ?thesis using assms stun.classify [of c packet]
    by (auto simp: run_packet_sniffer_def plain_verdict_def plain_protocol_def split: option.splits)
next
  case UTP
  then show ?thesis using assms utp.classify [of c packet]
    by (auto simp: run_packet_sniffer_def plain_verdict_def plain_protocol_def split: option.splits)
next
  case UDPTracker
  then show ?thesis using assms tracker.classify [of c packet]
    by (auto simp: run_packet_sniffer_def plain_verdict_def plain_protocol_def split: option.splits)
next
  case DTLSRecord
  then show ?thesis using assms dtls.classify [of c packet]
    by (auto simp: run_packet_sniffer_def plain_verdict_def plain_protocol_def split: option.splits)
next
  case NTP
  then show ?thesis using assms ntp.classify [of c packet]
    by (auto simp: run_packet_sniffer_def plain_verdict_def plain_protocol_def split: option.splits)
qed (use assms in \<open>simp_all add: plain_protocol_def\<close>)

lemma PeekPacket_loop_plain:
  assumes "\<forall>s\<in>set ss. plain_protocol s \<noteq> None"
  shows "PeekPacket_loop X packet ss es c =
    (case find (\<lambda>s. plain_verdict s packet = None) ss of
       Some s \<Rightarrow> Returns (accept (the (plain_protocol s)) c)
     | None \<Rightarrow> Returns (E_Errors X (es @ map (\<lambda>s. the (plain_verdict s packet)) ss), c))"
  using assms
proof (induction ss arbitrary: es)
  case (Cons s ss)
  then obtain proto where p: "plain_protocol s = Some proto" by auto
  show ?case
  proof (cases "plain_verdict s packet")
    case None
    then show ?thesis using run_plain_sniffer [OF p] p by (simp add: accept_def)
  next
    case (Some e)
    then show ?thesis using run_plain_sniffer [OF p] Cons by (simp split: option.splits)
  qed
qed simp

section \<open>Where a stream is cut\<close>

text \<open>Every stream sniffer but BitTorrent's sees the concatenation of the buffers only.\<close>

lemma concat_mr_drop: "concat (mr_drop n chunks) = drop n (concat chunks)"
  by (induction n chunks rule: mr_drop.induct) simp_all

lemma read_uint_cong:
  assumes "concat xs = concat ys" and "\<And>v r r'. concat r = concat r' \<Longrightarrow> k v r = k' v r'"
  shows "read_uint X c n xs k = read_uint X c n ys k'"
proof -
  have "k v (mr_drop n xs) = k' v (mr_drop n ys)" for v by (rule assms(2)) (simp add: concat_mr_drop assms(1))
  then show ?thesis
    using assms(1) by (auto simp: read_uint_def mr_ReadFull_def bind_result_def split: sum.splits prod.splits)
qed

lemma SkipN_cong:
  assumes "concat xs = concat ys" and "\<And>r r'. concat r = concat r' \<Longrightarrow> k r = k' r'"
  shows "(case mr_SkipN n xs of Inl e \<Rightarrow> h e | Inr r \<Rightarrow> k r) = (case mr_SkipN n ys of Inl e \<Rightarrow> h e | Inr r \<Rightarrow> k' r)"
proof -
  have "k (mr_drop n xs) = k' (mr_drop n ys)" by (rule assms(2)) (simp add: concat_mr_drop assms(1))
  then show ?thesis using assms(1) by (simp add: mr_SkipN_def bind_result_def split: sum.splits)
qed

lemma if_cong_else: "a = b \<Longrightarrow> (if t then x else a) = (if t then x else b)"
  by simp

lemma RDP_cut:
  assumes "concat xs = concat ys"
  shows "sniff_RDP X c xs = sniff_RDP X c ys"
  unfolding sniff_RDP_def
  by (rule read_uint_cong [OF assms]) (intro if_cong_else read_uint_cong SkipN_cong; (assumption | rule refl))

lemma StreamDomainNameQuery_cut:
  assumes "concat xs = concat ys"
  shows "sniff_StreamDomainNameQuery X c xs = sniff_StreamDomainNameQuery X c ys"
  unfolding sniff_StreamDomainNameQuery_def by (rule read_uint_cong [OF assms]) (simp only:)

lemma stream_sniffer_cut:
  assumes "s \<noteq> BitTorrent" and "concat xs = concat ys"
  shows "run_stream_sniffer X s c xs = run_stream_sniffer X s c ys"
  using assms(1) RDP_cut [OF assms(2)] StreamDomainNameQuery_cut [OF assms(2)] assms(2)
  by (cases s) (simp_all add: run_stream_sniffer_def sniff_TLSClientHello_def sniff_HTTPHost_def sniff_SSH_def)

text \<open>The client of an SSH stream is what follows the eight bytes of the prefix, which no line end can cut.\<close>

lemma ReadLine_length:
  assumes "take 8 bs = str_bytes ''SSH-2.0-''"
  shows "8 \<le> length (ReadLine bs)"
proof -
  let ?p = "str_bytes ''SSH-2.0-''" and ?rest = "drop 8 bs"
  have bs: "bs = ?p @ ?rest" using assms by (metis append_take_drop_id)
  have "\<forall>b\<in>set ?p. b \<noteq> 10" by (simp add: str_bytes_def)
  then have line: "takeWhile (\<lambda>b. b \<noteq> 10) bs = ?p @ takeWhile (\<lambda>b. b \<noteq> 10) ?rest"
    by (subst bs) (simp add: takeWhile_append2)
  have len: "length ?p = 8" by simp
  have "last ?p \<noteq> 13" by (simp add: str_bytes_def)
  then have "8 \<le> length (butlast (?p @ xs))" if "last (?p @ xs) = 13" for xs
    using that len by (cases xs) auto
  moreover have "8 \<le> length bs" using bs len by (metis length_append le_add1)
  ultimately show ?thesis
    unfolding ReadLine_def line Let_def using len by (auto simp del: butlast_append)
qed

lemma sniff_SSH_returns: "\<exists>r. sniff_SSH X c chunks = Returns r"
proof (cases "take 8 (concat chunks) = str_bytes ''SSH-2.0-''")
  case True
  from ReadLine_length [OF this] show ?thesis by (auto simp: sniff_SSH_def Let_def)
next
  case False
  moreover have "take 8 (str_bytes ''SSH-2.0-'') = str_bytes ''SSH-2.0-''" by (simp add: str_bytes_def)
  ultimately show ?thesis by (auto simp: sniff_SSH_def Let_def)
qed

lemma stream_sniffer_returns: "\<exists>r. run_stream_sniffer X s c chunks = Returns r"
  using sniff_SSH_returns by (cases s) (auto simp: run_stream_sniffer_def)

lemma stream_round_returns: "\<exists>r. stream_round X chunks ss e c = Returns r"
proof (induction ss arbitrary: e c)
  case (Cons s ss)
  obtain err c' where "run_stream_sniffer X s c chunks = Returns (err, c')"
    using stream_sniffer_returns [of X s c chunks] by auto
  then show ?case using Cons.IH by (cases err) auto
qed auto

section \<open>No data is lost\<close>

text \<open>The bytes a stream connection will still deliver, up to the first failing read.\<close>

fun read_data :: "stream_read list \<Rightarrow> bytes" where
  "read_data [] = []"
| "read_data (r # rs) = sr_data r @ read_data rs"

lemma PeekStream_returns:
  "\<exists>r buf rest used. PeekStream X buffers sniffers reads i serr buffer c = Returns (r, buf, rest)
     \<and> reads = used @ rest \<and> buf = buffer @ read_data used"
proof (induction X buffers sniffers reads i serr buffer c rule: PeekStream.induct)
  case (2 X buffers sniffers r rs i serr buffer c)
  show ?case
  proof (cases "sr_deadline r \<noteq> None \<or> sr_err r \<noteq> None")
    case True
    then show ?thesis
      by (auto simp: Let_def intro: exI [of _ "[]"] exI [of _ "[r]"] split: option.splits)
  next
    case False
    then have ok: "sr_deadline r = None" "sr_err r = None" by auto
    obtain b err c' where round: "stream_round X (buffers @ [buffer @ sr_data r]) sniffers None c = Returns (b, err, c')"
      using stream_round_returns [of X "buffers @ [buffer @ sr_data r]" sniffers None c] by auto
    show ?thesis
    proof (cases "\<not> b \<and> errors_Is_opt X err ErrNeedMoreData")
      case True
      then have "\<exists>r' buf rest used. PeekStream X buffers sniffers rs (Suc i) err (buffer @ sr_data r) c' = Returns (r', buf, rest)
        \<and> rs = used @ rest \<and> buf = (buffer @ sr_data r) @ read_data used"
        by (intro "2.IH" [OF ok(1) refl ok(2) round]) auto
      then obtain r' buf rest used where
        "PeekStream X buffers sniffers rs (Suc i) err (buffer @ sr_data r) c' = Returns (r', buf, rest)"
        "rs = used @ rest" "buf = (buffer @ sr_data r) @ read_data used"
        by blast
      then show ?thesis using ok round True
        by (intro exI [of _ r'] exI [of _ buf] exI [of _ rest] exI [of _ "r # used"]) (simp add: Let_def)
    next
      case False
      then show ?thesis using ok round
        by (cases b) (auto simp: Let_def intro: exI [of _ "[r]"])
    qed
  qed
qed simp

end
