(* ===== verification/Sniff_Properties.thy ===== *)
theory Sniff_Properties
  imports Sniff_Contract Samples
begin

text \<open>
  The properties of the sniffers: the ClientHello parser reads back what a client writes, a QUIC ClientHello
  is found whatever way it was cut, sniffing loses no data, and where the code goes wrong: an empty CRYPTO
  frame that is never left, an announced length that is believed, and packets that are kept twice.
\<close>

section \<open>Fragments that were read\<close>

lemma quic_frame_fragments:
  assumes "quic_frame P t bs = Inr (fs, rest)" and "f \<in> set fs"
  shows "fragment_ok f"
proof -
  from assms obtain offset r1 len r2 where o: "quic_ReadUvarint bs = Inr (offset, r1)"
    and l: "quic_ReadUvarint r1 = Inr (len, r2)"
    and fit: "length (qp_decrypted P) - length r2 + unat len \<le> length (qp_backing P)"
    and f: "f = \<lparr>qf_offset = offset, qf_length = len,
      qf_payload = take (unat len) (drop (length (qp_decrypted P) - length r2) (qp_backing P))\<rparr>"
    by (auto simp: quic_frame_def bind_result_Inr_iff Let_def split: if_splits)
  have "unat offset + unat len < 2 ^ 64"
    using quic_ReadUvarint_bound [OF o] quic_ReadUvarint_bound [OF l] by simp
  then show ?thesis using fit by (simp add: f fragment_ok_def)
qed

lemma frame_loop_fragments:
  assumes "frame_loop P bs ts fs = Inr (ts', fs')" and "\<forall>f\<in>set fs. fragment_ok f"
  shows "\<forall>f\<in>set fs'. fragment_ok f"
  using assms
proof (induction P bs ts fs rule: frame_loop.induct)
  case (1 P bs ts fs)
  show ?case
  proof (cases bs)
    case Nil
    with "1.prems" show ?thesis by (simp add: frame_loop.simps)
  next
    case (Cons t rest)
    with "1.prems"(1) obtain gs rest' where q: "quic_frame P t rest = Inr (gs, rest')"
      and l: "frame_loop P rest' (ts @ [t]) (fs @ gs) = Inr (ts', fs')"
      by (subst (asm) frame_loop.simps) (auto split: sum.splits)
    have "\<forall>f\<in>set (fs @ gs). fragment_ok f" using quic_frame_fragments [OF q] "1.prems"(2) by auto
    with "1.IH" [OF Cons q refl l] show ?thesis by blast
  qed
qed

lemma quic_finish_returns:
  assumes "\<forall>f\<in>set (new @ saved_fragments c). fragment_ok f \<and> nonempty_fragment f"
  shows "quic_finish X ts new c \<noteq> Diverges"
proof -
  obtain buf where "reassemble (new @ saved_fragments c) = Some buf"
    using find_loop_returns [OF assms] by (auto simp: reassemble_def)
  then show ?thesis
    by (auto simp: quic_finish_def saved_fragments_def Let_def split: sum.splits error.splits if_splits)
qed

lemma quic_finish_stuck:
  assumes "find (\<lambda>f. qf_offset f = 0) new = Some f" and "qf_length f = 0"
  shows "quic_finish X ts new c = Diverges"
proof -
  have "find (\<lambda>f. qf_offset f = 0) (new @ fs) = Some f" for fs
    using assms(1) by (induction new) auto
  from find_loop_stuck [OF this assms(2)] show ?thesis by (simp add: quic_finish_def reassemble_def Let_def)
qed

section \<open>Packets\<close>

fun packets_of :: "packet_read list \<Rightarrow> packet_buffer list" where
  "packets_of [] = []"
| "packets_of (ReadPacket data destination # rs) = (data, destination) # packets_of rs"
| "packets_of (_ # rs) = packets_of rs"

lemma packets_of_append: "packets_of (rs @ ss) = packets_of rs @ packets_of ss"
  by (induction rs rule: packets_of.induct) simp_all

lemma sniff_reads_packets:
  assumes "sniff_reads X act ss reads pkts c = Returns ((out, c', fatal), rest)"
  shows "\<exists>used. reads = used @ rest \<and> out = pkts @ packets_of used"
  using assms
proof (induction reads arbitrary: pkts c)
  case (Cons r rs)
  show ?case
  proof (cases r)
    case (ReadPacket data dest)
    with Cons.prems obtain err d where p: "sniff_packet X act ss c data = Returns (err, d)"
      by (auto split: run.splits)
    show ?thesis
    proof (cases "errors_Is_opt X err ErrNeedMoreData")
      case True
      with ReadPacket p Cons.prems have "sniff_reads X act ss rs (pkts @ [(data, dest)]) d = Returns ((out, c', fatal), rest)"
        by simp
      from Cons.IH [OF this] obtain used where "rs = used @ rest" "out = (pkts @ [(data, dest)]) @ packets_of used"
        by blast
      then show ?thesis using ReadPacket by (intro exI [of _ "r # used"]) simp
    next
      case False
      with ReadPacket p Cons.prems show ?thesis by (intro exI [of _ "[r]"]) auto
    qed
  qed (use Cons.prems in \<open>auto intro: exI [of _ "[r]"]\<close>)
qed auto

section \<open>The sniff action\<close>

text \<open>What the rule loop sees of the action on a connection: its answer, a crash being fatal.\<close>

definition sniff_answer ::
  "InboundContext \<Rightarrow> ((bytes, packet_buffer) sniff_result \<times> sniff_input) run \<Rightarrow> (bytes, packet_buffer) sniff_result" where
  "sniff_answer c r = (case r of
     Returns (a, _) \<Rightarrow> a
   | Panics e \<Rightarrow> (None, [], c, Some e)
   | Diverges \<Rightarrow> (None, [], c, Some (E_New [S ''does not return''])))"

lemma actionSniff_stream:
  "\<exists>newBuffer c' rest used. Router_actionSniff X (StreamInput reads) act bufs pkts c =
       Returns ((newBuffer, [], c', None), StreamInput rest)
     \<and> reads = used @ rest \<and> (case newBuffer of None \<Rightarrow> [] | Some b \<Rightarrow> b) = read_data used"
proof -
  let ?ss = "if length (StreamSniffers act) > 0 then StreamSniffers act else defaultStreamSniffers"
  obtain r c1 buf rest used where p: "PeekStream X bufs ?ss reads 0 None [] c = Returns ((r, c1), buf, rest)"
    and u: "reads = used @ rest" and b: "buf = read_data used"
    using PeekStream_returns [of X bufs ?ss reads 0 None "[]" c] by auto
  show ?thesis
  proof (cases "Skip c \<or> md_Protocol c \<noteq> [] \<or> length (StreamSniffers act) = 0 \<and> length (PacketSniffers act) > 0
      \<or> sniffed_before X act c")
    case True
    then show ?thesis
      by (intro exI [of _ None] exI [of _ c] exI [of _ reads] exI [of _ "[]"])
        (auto simp: Router_actionSniff_def sniff_stream_def)
  next
    case False
    then have "Router_actionSniff X (StreamInput reads) act bufs pkts c =
        Returns ((if buf \<noteq> [] then Some buf else None, [],
          sniff_finally X act (r, c1\<lparr>md_SnifferNames := SnifferNames act, md_SniffError := r\<rparr>), None), StreamInput rest)"
      using p by (auto simp: Router_actionSniff_def sniff_stream_def Let_def)
    moreover have "(case if buf \<noteq> [] then Some buf else None of None \<Rightarrow> [] | Some b \<Rightarrow> b) = read_data used"
      by (simp add: b)
    ultimately show ?thesis using u by blast
  qed
qed

lemma actionSniff_packets:
  assumes "Router_actionSniff X (PacketInput reads) act bufs pkts c = Returns ((newBuffer, new, c', fatal), input')"
  shows "\<exists>rest used. input' = PacketInput rest \<and> reads = used @ rest \<and> newBuffer = None
    \<and> (new = pkts @ packets_of used \<or> new = [] \<and> used = [])"
proof -
  consider "new = []" "newBuffer = None" "input' = PacketInput reads"
    | ss c1 rest where "sniff_reads X act ss reads pkts c1 = Returns ((new, c', fatal), rest)"
      "newBuffer = None" "input' = PacketInput rest"
    using assms by (auto simp: Router_actionSniff_def sniff_packets_def Let_def split: if_splits run.splits sum.splits)
  then show ?thesis
  proof cases
    case 1
    then show ?thesis by auto
  next
    case 2
    with sniff_reads_packets [OF 2(1)] show ?thesis by auto
  qed
qed

lemma run_action_sniff:
  assumes "tree_Action r = Some (RuleActionSniffAction act)"
    and "actionSniff R act (ms_buffers st) (ms_packets st) (ms_md st) = (newBuffer, new, c', fatal)"
  shows "ms_buffers (snd (run_action R False supportBypass r i st)) =
      ms_buffers st @ (case newBuffer of Some b \<Rightarrow> [b] | None \<Rightarrow> [])"
    and "ms_packets (snd (run_action R False supportBypass r i st)) =
      ms_packets st @ (case newBuffer of Some _ \<Rightarrow> [] | None \<Rightarrow> new)"
  using assms by (simp_all add: run_action_def route_options_of_def Let_def split: option.splits)

section \<open>Where the sniffers go wrong\<close>

text \<open>A fragment that arrives twice counts twice in the announced length, so the message is never complete.\<close>

lemma quic_duplicate_fragment:
  assumes "set fs = set (fragments_of 0 ps)" and "[] \<notin> set ps"
    and "length (concat ps) < sum_list (map (\<lambda>f. unat (qf_length f)) fs)"
    and "sum_list (map (\<lambda>f. unat (qf_length f)) fs) < 65536"
  shows "\<exists>buf. reassemble fs = Some buf \<and> Compute buf = Inl (ParseError LengthErr 2)"
proof -
  let ?F = "sum_list (map (\<lambda>f. unat (qf_length f)) fs)"
  have bound: "length (concat ps) < 2 ^ 64" using assms(3,4) by simp
  have all: "takeWhile (\<lambda>f. f \<in> set fs) (fragments_of 0 ps) = fragments_of 0 ps"
    using assms(1) by (simp add: takeWhile_eq_all_conv)
  have "find_loop fs 0 buf = Some (buf @ concat ps)" for buf
    using find_loop_pieces [of fs "[]" ps buf] assms(1,2) bound unfolding append_Nil concat.simps list.size all by simp
  moreover have "unat (frame_len fs) = ?F" by (rule unat_frame_len) (use assms(4) in simp)
  ultimately have "reassemble fs = Some (22 # 3 # 3 # hi ?F # lo ?F # concat ps)"
    by (simp add: reassemble_def be_bytes_2 hi_def lo_def)
  moreover have "tls_version_ok (be16 3 3)" by (simp add: tls_version_ok_def be16_def)
  moreover have "unat (be16 (hi ?F) (lo ?F)) = ?F" by (rule unat_be16_enc [OF assms(4)])
  ultimately show ?thesis using assms(3) by (simp add: Compute_def parseSegment_def Let_def)
qed

text \<open>A DNS message that is no query ends the search without a protocol, so no later sniffer sees the packet.\<close>

lemma dns_response_ends_sniffing:
  assumes "Msg_Unpack X packet = Inr msg" and "msg_Response msg"
  shows "PeekPacket X (DomainNameQuery # ss) c packet = Returns (None, c)"
  using assms by (simp add: PeekPacket_def run_packet_sniffer_def sniff_DomainNameQuery_def)

text \<open>A BitTorrent handshake whose protocol name is spread over two buffers is not recognised.\<close>

lemma bittorrent_cut_handshake:
  assumes "0 < k" and "k < 19"
  defines "name \<equiv> str_bytes ''BitTorrent protocol''"
  shows "sniff_BitTorrent X c [19 # take k name, drop k name] = (Some ErrNeedMoreData, c)"
proof -
  have len: "length name = 19" by (simp add: name_def)
  then have t: "take k name \<noteq> []" "length (take k name) = k" using assms(1,2) by (auto simp: min_def)
  have "mr_ReadFull 1 [19 # take k name, drop k name] = Inr ([19], [take k name, drop k name])"
    using t by (simp add: mr_ReadFull_def ReadFull_def)
  moreover have "mr_Read 19 [take k name, drop k name] = (take k name, None)"
    using t assms(2) by (simp add: mr_Read_def)
  ultimately show ?thesis
    using t assms(2) by (simp add: sniff_BitTorrent_def read_uint_def be_value_def name_def [symmetric] Let_def)
qed

section \<open>Samples\<close>

text \<open>A stand-in for the functions outside the repository: errors that are recognised by their parts, and a
  cipher that writes the plaintext followed by a tag of sixteen bytes.\<close>

fun sample_Is :: "error \<Rightarrow> error \<Rightarrow> bool" where
  "sample_Is (E_Cause e args) t =
     (E_Cause e args = t \<or> sample_Is e t \<or> list_ex (\<lambda>a. case a of Err d \<Rightarrow> d = t | _ \<Rightarrow> False) args)"
| "sample_Is e t = (e = t)"

fun sample_Errors :: "error list \<Rightarrow> error option" where
  "sample_Errors [] = None"
| "sample_Errors (e # es) =
     (case find (\<lambda>d. sample_Is d ErrNeedMoreData) (e # es) of Some d \<Rightarrow> Some d | None \<Rightarrow> Some e)"

definition sample_sniff_lib :: sniff_lib where
  "sample_sniff_lib = \<lparr>E_Cause1 = (\<lambda>c e. E_Cause c [Err e]), E_Errors = sample_Errors, errors_Is = sample_Is,
     Msg_Unpack = (\<lambda>_. Inl (E_Lib ''bad message'')), http_ReadRequest = (\<lambda>_. Inl (E_Lib ''malformed'')),
     ParseSocksaddr_AddrString = (\<lambda>s. s), tls_Handshake = (\<lambda>_. (None, E_Lib ''not TLS'')), IsDomainName = (\<lambda>s. s \<noteq> []),
     hkdf_Extract = (\<lambda>_ _. []), hkdf_Expand = (\<lambda>_ _ n. replicate n 0), aes_Encrypt = (\<lambda>_ _. replicate 16 0),
     gcm_Open = (\<lambda>_ _ ct _. if length ct < 16 then None else Some (take (length ct - 16) ct))\<rparr>"

lemma sample_errors_ok: "errors_ok sample_sniff_lib"
proof -
  have "\<exists>e. sample_Errors es = Some e \<and> (sample_Is e ErrNeedMoreData \<longleftrightarrow> (\<exists>d\<in>set es. sample_Is d ErrNeedMoreData))"
    if "es \<noteq> []" for es
  proof (cases "find (\<lambda>d. sample_Is d ErrNeedMoreData) es")
    case None
    then show ?thesis using that by (cases es) (auto simp: find_None_iff split: if_splits)
  next
    case (Some d)
    then have "sample_Errors es = Some d" using that by (cases es) auto
    moreover have "d \<in> set es" "sample_Is d ErrNeedMoreData" using Some by (auto simp: find_Some_iff)
    ultimately show ?thesis by auto
  qed
  then show ?thesis by (simp add: errors_ok_def sample_sniff_lib_def ErrNeedMoreData_def)
qed

lemma sample_Errors_one [simp]: "E_Errors sample_sniff_lib [e] = Some e"
  by (simp add: sample_sniff_lib_def)

lemma sample_crypto_ok: "crypto_ok sample_sniff_lib"
  by (auto simp: crypto_ok_def sample_sniff_lib_def split: if_splits)

text \<open>An initial packet with the given frames: a connection id of one byte, no token, one byte of packet
  number, the frames and the tag.\<close>

definition sample_packet :: "bytes \<Rightarrow> bytes" where
  "sample_packet frames =
     [0xC0, 0, 0, 0, 1, 1, 0xAA, 0, 0] @ [0x40, word_of_nat (length frames + 17)] @ [0] @ frames @ replicate 16 0"

definition sample_conn :: InboundContext where
  "sample_conn = zeroInboundContext\<lparr>md_Network := ''udp''\<rparr>"

lemmas packet_eval = quic_read_header_def sample_packet_def ReadFull_def CopyN_Discard_def be_value_def
  quic_ReadUvarint_def uvarint_rest_def Let_def

text \<open>With a mask of zeros the header is as it was sent, and the frames are the payload without the tag.\<close>

lemma unmask_zero: "unmask (replicate 16 0) n packet = packet"
proof -
  have "fold (\<lambda>i p. p[n + i := (p ! (n + i)) XOR (replicate 16 (0 :: 8 word) ! (i + 1))]) is p = p"
    if "\<forall>i\<in>set is. i < 4" for "is" and p :: bytes
    using that by (induction "is" arbitrary: p) simp_all
  then show ?thesis by (simp add: unmask_def)
qed

lemma take_middle: "k \<le> m \<Longrightarrow> take k p @ take (m - k) (drop k p) @ drop m p = p"
  by (metis append.assoc append_take_drop_id le_add_diff_inverse take_add)

lemma sample_decrypt:
  assumes "packet ! 0 = 0xC0" and "17 \<le> qh_packetLen H" and "qh_hdrLen H + qh_packetLen H = length packet"
  defines "frames \<equiv> take (qh_packetLen H - 17) (drop (Suc (qh_hdrLen H)) packet)"
  shows "quic_decrypt sample_sniff_lib packet H =
    Inr \<lparr>qp_decrypted = frames, qp_backing = frames @ drop (Suc (qh_hdrLen H) + length frames) packet\<rparr>"
proof -
  let ?n = "qh_hdrLen H"
  let ?data = "take (qh_packetLen H + ?n - Suc ?n) (drop (Suc ?n) packet)"
  have one: "unat ((packet ! 0) AND 0x3) + 1 = Suc 0" by (simp add: assms(1))
  have whole: "take (Suc ?n) packet @ take (?n + 4 - Suc ?n) (drop (Suc ?n) packet) @ drop (?n + 4) packet = packet"
    by (rule take_middle) simp
  have label: "HKDFExpandLabel sample_sniff_lib secret ctx label n = Inr (replicate n 0)" for secret ctx label n
    by (simp add: HKDFExpandLabel_def sample_sniff_lib_def Let_def)
  have aead: "AEADAESGCMTLS13 (replicate 16 0) (replicate 12 0) = Inr \<lparr>nonceMask = replicate 12 0, aead_key = replicate 16 0\<rparr>"
    by (simp add: AEADAESGCMTLS13_def)
  have data: "length ?data = qh_packetLen H - 1" using assms(3) by simp
  have open_data: "AEAD_Open sample_sniff_lib f nonce ?data ad = Some frames" for f nonce ad
    using assms(2) data by (simp add: AEAD_Open_def sample_sniff_lib_def frames_def min_def) linarith
  have enc: "aes_Encrypt sample_sniff_lib k b = replicate 16 0" for k b by (simp add: sample_sniff_lib_def)
  show ?thesis
    unfolding quic_decrypt_def Let_def label bind_result_simps enc unmask_zero one add_Suc_right add_0_right whole aead open_data
    using assms(2) by simp
qed

lemma sample_packet_decrypt:
  assumes "quic_read_header (sample_packet frames) = Inr H" and "qh_hdrLen H = 11" and "qh_packetLen H = length frames + 17"
  shows "bind_result (quic_read_header (sample_packet frames)) (quic_decrypt sample_sniff_lib (sample_packet frames)) =
    Inr \<lparr>qp_decrypted = frames, qp_backing = frames @ replicate 16 0\<rparr>"
proof -
  have p: "sample_packet frames ! 0 = 0xC0" "length (sample_packet frames) = length frames + 28"
    "drop 12 (sample_packet frames) = frames @ replicate 16 0"
    by (simp_all add: sample_packet_def)
  have "drop (12 + length frames) (sample_packet frames) = replicate 16 0"
    unfolding add.commute [of 12] drop_drop [symmetric] p(3) by simp
  then show ?thesis
    using assms sample_decrypt [of "sample_packet frames" H] p by simp
qed

lemma sample_header:
  "quic_read_header (sample_packet [6, 0, 0]) =
     Inr \<lparr>qh_version = 1, qh_destConnID = [0xAA], qh_hdrLen = 11, qh_packetLen = 20, qh_pnBytes = replicate 16 0\<rparr>"
  by (simp add: packet_eval)

lemma sample_header_one:
  "quic_read_header (sample_packet [6, 0, 1, 1]) =
     Inr \<lparr>qh_version = 1, qh_destConnID = [0xAA], qh_hdrLen = 11, qh_packetLen = 21, qh_pnBytes = 1 # replicate 15 0\<rparr>"
  by (simp add: packet_eval)

lemma sniff_QUIC_frames:
  assumes "bind_result (quic_read_header packet) (quic_decrypt X packet) = Inr P"
    and "frame_loop P (qp_decrypted P) [] [] = Inr (ts, new)"
  shows "sniff_QUICClientHello X c packet = quic_finish X ts new c"
  using assms by (simp add: sniff_QUICClientHello_def)

lemma frame_loop_padding: "frame_loop P (replicate n 0) ts fs = Inr (ts @ replicate n 0, fs)"
proof (induction n arbitrary: ts)
  case 0
  then show ?case by (simp add: frame_loop.simps)
next
  case (Suc n)
  have "quic_frame P 0 bs = Inr ([], bs)" for bs by (simp add: quic_frame_def)
  then show ?case by (subst frame_loop.simps) (simp add: Suc.IH)
qed

lemma empty_crypto_frame:
  "frame_loop P (6 # 0 # 0 # replicate n 0) [] [] =
     Inr (6 # replicate n 0, [\<lparr>qf_offset = 0, qf_length = 0, qf_payload = []\<rparr>])"
  if "length (qp_decrypted P) \<le> length (qp_backing P)"
proof -
  have zero: "quic_ReadUvarint (0 # bs) = Inr (0, bs)" for bs by (simp add: quic_ReadUvarint_def uvarint_rest_def)
  have "quic_frame P 6 (0 # 0 # replicate n 0) = Inr ([\<lparr>qf_offset = 0, qf_length = 0, qf_payload = []\<rparr>], replicate n 0)"
    using that by (simp add: quic_frame_def zero Let_def)
  then show ?thesis by (subst frame_loop.simps) (simp add: frame_loop_padding)
qed

section \<open>Properties\<close>

text \<open>
  C33. The ClientHello parser reads back what a client writes: for every well-formed message in a TLS record,
  whatever follows the record, it returns the version, the cipher suites, the extension types in order and the
  values of the extensions, and the server name is the one of the last name extension.
\<close>

theorem client_hello_roundtrip:
  assumes "hello_ok h" and "he_extensions h = es1 @ ServerNameExt name # es2"
    and "\<forall>e\<in>set es2. \<forall>n. e \<noteq> ServerNameExt n"
  shows "Compute (encode_record h @ trailer) = Inr (hello_fields h)
    \<and> ch_ServerName (hello_fields h) = name
    \<and> ch_Extensions (hello_fields h) = map ext_type (he_extensions h)"
  using Compute_encode_record [OF assms(1)] hello_ServerName [OF assms(2,3)] hello_Extensions by simp

definition sample_hello :: hello where
  "sample_hello = \<lparr>he_version = 0x0303, he_random = replicate 32 7, he_session = [], he_ciphers = [0x1301],
     he_compression = [0], he_extensions = [SupportedGroups [29], ServerNameExt ''a.b'', SupportedVersions [tls13]]\<rparr>"

lemma sample_hello_ok: "hello_ok sample_hello"
  by (simp add: hello_ok_def hello_fits_def sample_hello_def tls_version_ok_def enc_handshake_def enc_body_def
      enc_ext_def enc16_def enc24_def enc16s_def)

theorem client_hello_roundtrip_witness:
  "Compute (encode_record sample_hello @ [9]) = Inr (hello_fields sample_hello)
    \<and> ch_ServerName (hello_fields sample_hello) = ''a.b''
    \<and> ch_Extensions (hello_fields sample_hello) = [10, 0, 43]"
  using client_hello_roundtrip [OF sample_hello_ok, of "[SupportedGroups [29]]" "''a.b''" "[SupportedVersions [tls13]]" "[9]"]
  by (simp add: sample_hello_def)

text \<open>
  C34. A QUIC ClientHello is put together whatever way it was cut and in whatever order its fragments arrive. When
  a packet brings new fragments and the fragments of this and the earlier packets are a part of those the
  message was cut into, the sniffer succeeds with the server name exactly when they are all of them; otherwise it
  asks for more data and keeps what it has.
\<close>

theorem quic_hello_reassembled:
  assumes "hello_ok h" and "concat ps = enc_handshake h" and "[] \<notin> set ps"
    and "bind_result (quic_read_header packet) (quic_decrypt X packet) = Inr P"
    and "frame_loop P (qp_decrypted P) [] [] = Inr (ts, new)" and "new \<noteq> []"
    and "mset (new @ saved_fragments c) \<subseteq># mset (fragments_of 0 ps)"
  shows "if mset (new @ saved_fragments c) = mset (fragments_of 0 ps)
    then \<exists>client. sniff_QUICClientHello X c packet = Returns (None, c\<lparr>md_SniffContext := None,
           md_Protocol := ProtocolQUIC, md_Domain := ch_ServerName (hello_fields h), md_Client := client\<rparr>)
    else \<exists>err. sniff_QUICClientHello X c packet = Returns (Some (E_Cause1 X ErrNeedMoreData err),
           c\<lparr>md_SniffContext := Some (new @ saved_fragments c), md_Protocol := ProtocolQUIC\<rparr>)"
proof -
  have "ts \<noteq> []" using frame_loop_types [OF assms(5)] assms(6) by auto
  from quic_finish_pieces [OF assms(1,2,3,7) this] show ?thesis
    unfolding sniff_QUIC_frames [OF assms(4,5)] .
qed

text \<open>The sample message in two pieces, the second of which came first.\<close>

definition sample_pieces :: "bytes list" where
  "sample_pieces = [take 4 (enc_handshake sample_hello), drop 4 (enc_handshake sample_hello)]"

definition sample_first :: bytes where
  "sample_first = 6 # 0 # 4 # take 4 (enc_handshake sample_hello)"

definition sample_waiting :: InboundContext where
  "sample_waiting = sample_conn\<lparr>md_SniffContext := Some [fragments_of 0 sample_pieces ! 1]\<rparr>"

lemma sample_first_bytes: "sample_first = [6, 0, 4, 1, 0, 0, 70]" "take 4 (enc_handshake sample_hello) = [1, 0, 0, 70]"
  by (simp_all add: sample_first_def sample_hello_def enc_handshake_def enc_body_def enc_ext_def enc16_def enc24_def
      enc16s_def hi_def lo_def)

lemma sample_first_decrypt:
  "bind_result (quic_read_header (sample_packet sample_first)) (quic_decrypt sample_sniff_lib (sample_packet sample_first)) =
     Inr \<lparr>qp_decrypted = sample_first, qp_backing = sample_first @ replicate 16 0\<rparr>"
proof -
  have "quic_read_header (sample_packet sample_first) = Inr \<lparr>qh_version = 1, qh_destConnID = [0xAA], qh_hdrLen = 11,
      qh_packetLen = 24, qh_pnBytes = [1, 0, 0, 70] @ replicate 12 0\<rparr>"
    unfolding sample_first_bytes by (simp add: packet_eval)
  then show ?thesis by (rule sample_packet_decrypt) (simp_all add: sample_first_bytes)
qed

lemma sample_first_frames:
  "frame_loop \<lparr>qp_decrypted = sample_first, qp_backing = sample_first @ replicate 16 0\<rparr> sample_first [] [] =
     Inr ([6], [\<lparr>qf_offset = 0, qf_length = 4, qf_payload = [1, 0, 0, 70]\<rparr>])"
  unfolding sample_first_bytes
  by (subst frame_loop.simps) (simp add: frame_loop.simps quic_frame_def quic_ReadUvarint_def uvarint_rest_def Let_def)

theorem quic_hello_reassembled_witness:
  "\<exists>client. sniff_QUICClientHello sample_sniff_lib sample_waiting (sample_packet sample_first) =
     Returns (None, sample_waiting\<lparr>md_SniffContext := None, md_Protocol := ProtocolQUIC, md_Domain := ''a.b'', md_Client := client\<rparr>)"
proof -
  let ?new = "[\<lparr>qf_offset = 0, qf_length = 4, qf_payload = [1, 0, 0, 70]\<rparr>]"
  have "4 < length (enc_handshake sample_hello)"
    by (simp add: sample_hello_def enc_handshake_def enc_body_def enc24_def)
  then have cut: "concat sample_pieces = enc_handshake sample_hello" "[] \<notin> set sample_pieces"
    by (auto simp: sample_pieces_def)
  have first: "fragments_of 0 sample_pieces = ?new @ [fragments_of 0 sample_pieces ! 1]"
    by (simp add: sample_pieces_def sample_first_bytes(2))
  have all: "mset (?new @ saved_fragments sample_waiting) = mset (fragments_of 0 sample_pieces)"
    by (subst first) (simp add: saved_fragments_def sample_waiting_def)
  have name: "ch_ServerName (hello_fields sample_hello) = ''a.b''"
    by (rule hello_ServerName [of _ "[SupportedGroups [29]]" _ "[SupportedVersions [tls13]]"]) (simp_all add: sample_hello_def)
  show ?thesis
    using quic_hello_reassembled [OF sample_hello_ok cut sample_first_decrypt, of "[6]" ?new sample_waiting]
      sample_first_frames all by (simp add: name)
qed

text \<open>
  C35. The QUIC sniffer returns, or panics on a frame that announces more than the packet has, as long as every CRYPTO
  fragment in this packet and in the saved ones has at least one byte.
\<close>

theorem quic_sniffer_returns:
  assumes "bind_result (quic_read_header packet) (quic_decrypt X packet) = Inr P"
    and "frame_loop P (qp_decrypted P) [] [] = Inr (ts, new)"
    and "\<forall>f\<in>set (new @ saved_fragments c). nonempty_fragment f" and "\<forall>f\<in>set (saved_fragments c). fragment_ok f"
  shows "sniff_QUICClientHello X c packet \<noteq> Diverges"
proof -
  have "\<forall>f\<in>set new. fragment_ok f" using frame_loop_fragments [OF assms(2)] by simp
  with assms(3,4) show ?thesis
    unfolding sniff_QUIC_frames [OF assms(1,2)] by (intro quic_finish_returns) auto
qed

theorem quic_sniffer_returns_witness:
  "sniff_QUICClientHello sample_sniff_lib sample_conn (sample_packet sample_first) \<noteq> Diverges"
  using quic_sniffer_returns [OF sample_first_decrypt, of "[6]" _ sample_conn] sample_first_frames
  by (simp add: saved_fragments_def sample_conn_def zeroInboundContext_def nonempty_fragment_def)

text \<open>
  C36. A packet whose decrypted payload is an empty CRYPTO frame at offset 0 and padding is never left: the search for
  the next fragment finds the empty one again and again. The keys of an initial packet are public, so any
  client can send one.
\<close>

theorem quic_empty_crypto_hangs:
  assumes "bind_result (quic_read_header packet) (quic_decrypt X packet) = Inr P"
    and "qp_decrypted P = 6 # 0 # 0 # replicate n 0" and "length (qp_decrypted P) \<le> length (qp_backing P)"
  shows "sniff_QUICClientHello X c packet = Diverges"
proof -
  have "frame_loop P (qp_decrypted P) [] [] = Inr (6 # replicate n 0, [\<lparr>qf_offset = 0, qf_length = 0, qf_payload = []\<rparr>])"
    using empty_crypto_frame [OF assms(3), of n] by (simp add: assms(2))
  from sniff_QUIC_frames [OF assms(1) this] show ?thesis by (simp add: quic_finish_stuck)
qed

theorem quic_empty_crypto_hangs_witness:
  "sniff_QUICClientHello sample_sniff_lib sample_conn (sample_packet [6, 0, 0]) = Diverges"
proof -
  have "bind_result (quic_read_header (sample_packet [6, 0, 0])) (quic_decrypt sample_sniff_lib (sample_packet [6, 0, 0])) =
     Inr \<lparr>qp_decrypted = [6, 0, 0], qp_backing = [6, 0, 0] @ replicate 16 0\<rparr>"
    by (rule sample_packet_decrypt [OF sample_header]) simp_all
  from quic_empty_crypto_hangs [OF this, of 0] show ?thesis by simp
qed

text \<open>
  The fragments the QUIC sniffer has saved never make up a ClientHello the parser accepts; this is kept from
  packet to packet, and it is why the guess of the client never indexes an empty list of frames.
\<close>

theorem quic_saved_fragments_invariant:
  assumes "saved_ok c"
  shows "sniff_QUICClientHello X c packet \<noteq> Panics index_panic
    \<and> (\<forall>r c'. sniff_QUICClientHello X c packet = Returns (r, c') \<longrightarrow> saved_ok c')"
  using sniff_QUIC_no_index [OF assms] sniff_QUIC_saves [OF assms] by blast

theorem quic_saved_fragments_invariant_witness:
  "sniff_QUICClientHello sample_sniff_lib sample_conn (sample_packet [6, 0, 0]) \<noteq> Panics index_panic"
  using quic_saved_fragments_invariant [of sample_conn sample_sniff_lib "sample_packet [6, 0, 0]"]
  by (simp add: saved_ok_def sample_conn_def zeroInboundContext_def)

text \<open>
  C37. Sniffing a stream takes nothing from it: the action returns, and the buffers of the rule loop grow by exactly the
  bytes that were read from the connection, in their order, whatever the sniffers made of them.
\<close>

theorem sniff_keeps_stream:
  assumes "tree_Action r = Some (RuleActionSniffAction act)"
    and "actionSniff R = (\<lambda>a bs ps c. sniff_answer c (Router_actionSniff X (StreamInput reads) a bs ps c))"
  shows "\<exists>a rest used.
    Router_actionSniff X (StreamInput reads) act (ms_buffers st) (ms_packets st) (ms_md st) = Returns (a, StreamInput rest)
    \<and> reads = used @ rest
    \<and> concat (ms_buffers (snd (run_action R False supportBypass r i st))) = concat (ms_buffers st) @ read_data used
    \<and> ms_packets (snd (run_action R False supportBypass r i st)) = ms_packets st"
proof -
  obtain b c' rest used where
    s: "Router_actionSniff X (StreamInput reads) act (ms_buffers st) (ms_packets st) (ms_md st) =
        Returns ((b, [], c', None), StreamInput rest)"
    and u: "reads = used @ rest" and d: "(case b of None \<Rightarrow> [] | Some x \<Rightarrow> x) = read_data used"
    using actionSniff_stream by meson
  have "actionSniff R act (ms_buffers st) (ms_packets st) (ms_md st) = (b, [], c', None)"
    using s by (simp add: assms(2) sniff_answer_def)
  note run = run_action_sniff [OF assms(1) this, of supportBypass i]
  have "concat (ms_buffers (snd (run_action R False supportBypass r i st))) = concat (ms_buffers st) @ read_data used"
    using run(1) d by (cases b) simp_all
  moreover have "ms_packets (snd (run_action R False supportBypass r i st)) = ms_packets st"
    using run(2) by (cases b) simp_all
  ultimately show ?thesis using s u by blast
qed

text \<open>A router whose connection the model sniffs, and a sniff rule.\<close>

definition sniff_router ::
  "(RuleActionSniff \<Rightarrow> bytes list \<Rightarrow> packet_buffer list \<Rightarrow> InboundContext \<Rightarrow> (bytes, packet_buffer) sniff_result) \<Rightarrow>
   (string list, string list, (Prefix + addr) list, unit, unit, unit, bytes, packet_buffer) router" where
  "sniff_router sniff = \<lparr>
     rt_lib = sample_lib, rt_env = sample_env, rt_store = Map.empty, rt_rules = [],
     processSearcher = None, rt_FakeIP = None, LookupReverseMapping = (\<lambda>_. None),
     Transport = (\<lambda>_. False), dns_Lookup = (\<lambda>_ _ _. Inr []), actionSniff = sniff,
     Outbound = (\<lambda>_. None), DefaultOutbound = (''direct'', [''tcp'', ''udp'']),
     Inbound_Get = (\<lambda>_. None), reserved_fqdns = []\<rparr>"

definition quic_action :: RuleActionSniff where
  "quic_action = \<lparr>SnifferNames = [''quic''], StreamSniffers = [], PacketSniffers = [QUICClientHello],
     sn_Timeout = 0, OverrideDestination = False\<rparr>"

definition sniff_rule :: "RuleActionSniff \<Rightarrow> (string list, string list, (Prefix + addr) list, unit, unit) rule" where
  "sniff_rule act = DefaultR (empty_rule False (Some (RuleActionSniffAction act)))"

lemma sniff_rule_action [simp]: "tree_Action (sniff_rule act) = Some (RuleActionSniffAction act)"
  by (simp add: sniff_rule_def empty_rule_def)

definition sniff_state :: "packet_buffer list \<Rightarrow> (bytes, packet_buffer) match_state" where
  "sniff_state pkts = \<lparr>ms_md = sample_conn, ms_buffers = [], ms_packets = pkts\<rparr>"

lemma sniff_router_simps [simp]: "actionSniff (sniff_router f) = f"
  by (simp add: sniff_router_def)

lemma sniff_state_simps [simp]:
  "ms_md (sniff_state pkts) = sample_conn" "ms_buffers (sniff_state pkts) = []" "ms_packets (sniff_state pkts) = pkts"
  by (simp_all add: sniff_state_def)

lemma sample_conn_fresh: "\<not> Skip sample_conn" "md_Protocol sample_conn = []" "\<not> sniffed_before X act sample_conn"
  by (simp_all add: Skip_def sniffed_before_def sample_conn_def zeroInboundContext_def zeroSocksaddr_def)

lemma sample_no_quic:
  assumes "quic_read_header packet = Inl (E_Lib s)"
  shows "sniff_packet sample_sniff_lib quic_action [QUICClientHello] c packet =
    Returns (Some (E_Lib s), c\<lparr>md_SnifferNames := [''quic''], md_SniffError := Some (E_Lib s)\<rparr>)"
  using assms
  by (simp add: sniff_packet_def PeekPacket_def run_packet_sniffer_def sniff_QUICClientHello_def err_sniffed_def quic_action_def)

theorem sniff_keeps_stream_witness:
  "\<exists>a rest used. Router_actionSniff sample_sniff_lib (StreamInput [\<lparr>sr_deadline = None, sr_data = [19], sr_err = None\<rparr>])
       quic_action [] [] sample_conn = Returns (a, StreamInput rest)
     \<and> [\<lparr>sr_deadline = None, sr_data = [19], sr_err = None\<rparr>] = used @ rest"
  using sniff_keeps_stream [of "sniff_rule quic_action" quic_action
      "sniff_router (\<lambda>a bs ps c. sniff_answer c (Router_actionSniff sample_sniff_lib
         (StreamInput [\<lparr>sr_deadline = None, sr_data = [19], sr_err = None\<rparr>]) a bs ps c))"
      sample_sniff_lib "[\<lparr>sr_deadline = None, sr_data = [19], sr_err = None\<rparr>]" "sniff_state []" False 0]
  by auto

text \<open>
  After a sniff rule on a packet connection the packets of the rule loop are the ones before, followed either by
  nothing, when nothing was read, or by the ones before once more and then the packets that were read. So the
  first sniff rule keeps every packet once and in order.
\<close>

theorem sniff_keeps_packets:
  assumes "tree_Action r = Some (RuleActionSniffAction act)"
    and "actionSniff R = (\<lambda>a bs ps c. sniff_answer c (Router_actionSniff X (PacketInput reads) a bs ps c))"
    and "Router_actionSniff X (PacketInput reads) act (ms_buffers st) (ms_packets st) (ms_md st) = Returns (a, input')"
  shows "\<exists>rest used after. input' = PacketInput rest \<and> reads = used @ rest
    \<and> after = ms_packets (snd (run_action R False supportBypass r i st))
    \<and> (after = ms_packets st \<and> used = [] \<or> after = ms_packets st @ ms_packets st @ packets_of used)
    \<and> (ms_packets st = [] \<longrightarrow> after = packets_of used)"
proof -
  obtain b new c' fatal where a: "a = (b, new, c', fatal)" by (cases a) auto
  obtain rest used where i: "input' = PacketInput rest" "reads = used @ rest" and "b = None"
    and n: "new = ms_packets st @ packets_of used \<or> new = [] \<and> used = []"
    using actionSniff_packets [OF assms(3) [unfolded a]] by auto
  have "actionSniff R act (ms_buffers st) (ms_packets st) (ms_md st) = (None, new, c', fatal)"
    using assms(3) a \<open>b = None\<close> by (simp add: assms(2) sniff_answer_def)
  from run_action_sniff(2) [OF assms(1) this, of supportBypass i]
  have "ms_packets (snd (run_action R False supportBypass r i st)) = ms_packets st @ new" by simp
  with i n show ?thesis by auto
qed

text \<open>The sample packets: the first asks for more data, the second is no QUIC packet.\<close>

lemma sample_one_decrypt:
  "bind_result (quic_read_header (sample_packet [6, 0, 1, 1])) (quic_decrypt sample_sniff_lib (sample_packet [6, 0, 1, 1])) =
     Inr \<lparr>qp_decrypted = [6, 0, 1, 1], qp_backing = [6, 0, 1, 1] @ replicate 16 0\<rparr>"
  by (rule sample_packet_decrypt [OF sample_header_one]) simp_all

lemma sample_one_sniffed:
  "sniff_QUICClientHello sample_sniff_lib sample_conn (sample_packet [6, 0, 1, 1]) =
     Returns (Some (E_Cause ErrNeedMoreData [Err (ParseError LengthErr 3)]), sample_conn\<lparr>md_Protocol := ProtocolQUIC,
       md_SniffContext := Some [\<lparr>qf_offset = 0, qf_length = 1, qf_payload = [1]\<rparr>]\<rparr>)"
proof -
  have frames: "frame_loop \<lparr>qp_decrypted = [6, 0, 1, 1], qp_backing = [6, 0, 1, 1] @ replicate 16 0\<rparr> [6, 0, 1, 1] [] [] =
      Inr ([6], [\<lparr>qf_offset = 0, qf_length = 1, qf_payload = [1]\<rparr>])"
    by (subst frame_loop.simps) (simp add: frame_loop.simps quic_frame_def quic_ReadUvarint_def uvarint_rest_def Let_def)
  have "reassemble [\<lparr>qf_offset = 0, qf_length = 1, qf_payload = [1]\<rparr>] = Some [22, 3, 3, 0, 1, 1]"
    unfolding reassemble_def by (simp add: find_loop.simps frame_len_def be_bytes_2 hi_def lo_def)
  moreover have "Compute [22, 3, 3, 0, 1, 1] = Inl (ParseError LengthErr 3)"
    by (simp add: Compute_def parseSegment_def parseHandshake_def tls_version_ok_def be16_def)
  ultimately show ?thesis
    using sniff_QUIC_frames [OF sample_one_decrypt, of "[6]" _ sample_conn] frames
    by (simp add: quic_finish_def ParseError_def sample_conn_def zeroInboundContext_def sample_sniff_lib_def)
qed

lemma sample_EOF: "\<not> errors_Is sample_sniff_lib (E_Lib m) ErrNeedMoreData"
  by (rule errors_okD(2) [OF sample_errors_ok])

theorem sniff_keeps_packets_witness:
  "\<exists>rest used. [ReadPacket [] zeroSocksaddr, ReadPacket [2] zeroSocksaddr] = used @ rest
     \<and> ms_packets (snd (run_action (sniff_router (\<lambda>a bs ps c. sniff_answer c (Router_actionSniff sample_sniff_lib
         (PacketInput [ReadPacket [] zeroSocksaddr, ReadPacket [2] zeroSocksaddr]) a bs ps c)))
         False False (sniff_rule quic_action) 0 (sniff_state []))) = packets_of used"
proof -
  let ?reads = "[ReadPacket [] zeroSocksaddr, ReadPacket [2] zeroSocksaddr]"
  let ?R = "sniff_router (\<lambda>a bs ps c. sniff_answer c (Router_actionSniff sample_sniff_lib (PacketInput ?reads) a bs ps c))"
  have "\<exists>a input'. Router_actionSniff sample_sniff_lib (PacketInput ?reads) quic_action [] [] sample_conn = Returns (a, input')"
    using sample_conn_fresh sample_no_quic [of "[]" _ sample_conn]
    by (simp add: Router_actionSniff_def sniff_packets_def errors_Is_opt_def sample_EOF quic_read_header_def io_EOF_def Let_def)
      (simp add: quic_action_def errors_Is_opt_def sample_EOF)
  then obtain a input' where "Router_actionSniff sample_sniff_lib (PacketInput ?reads) quic_action [] [] sample_conn = Returns (a, input')"
    by blast
  then show ?thesis
    using sniff_keeps_packets [of "sniff_rule quic_action" quic_action ?R sample_sniff_lib ?reads "sniff_state []" a input' False 0]
    by auto
qed

text \<open>
  A sniff rule that follows another one doubles the packets: when every packet read so far asks the sniffers of
  this rule for more data and the next one ends the search, the rule loop holds the earlier packets twice, so they are
  sent to the destination twice.
\<close>

theorem sniff_repeats_packets:
  assumes "tree_Action r = Some (RuleActionSniffAction act)"
    and "actionSniff R = (\<lambda>a bs ps c. sniff_answer c (Router_actionSniff X (PacketInput (ReadPacket d to # reads)) a bs ps c))"
    and "\<not> Skip (ms_md st)" and "md_Protocol (ms_md st) = []" and "\<not> sniffed_before X act (ms_md st)"
    and "PacketSniffers act \<noteq> []"
    and "sniff_cached X act (PacketSniffers act) (ms_packets st) (ms_md st) = Returns (Inr c)"
    and "sniff_packet X act (PacketSniffers act) c d = Returns (err, c')" and "\<not> errors_Is_opt X err ErrNeedMoreData"
  shows "ms_packets (snd (run_action R False supportBypass r i st)) = ms_packets st @ ms_packets st @ [(d, to)]"
proof -
  have "actionSniff R act (ms_buffers st) (ms_packets st) (ms_md st) =
      (None, ms_packets st @ [(d, to)], sniff_finally X act (err, c'), None)"
    using assms(3-9) by (simp add: assms(2) sniff_answer_def Router_actionSniff_def sniff_packets_def)
  from run_action_sniff(2) [OF assms(1) this] show ?thesis by simp
qed

theorem sniff_repeats_packets_witness:
  "ms_packets (snd (run_action (sniff_router (\<lambda>a bs ps c. sniff_answer c (Router_actionSniff sample_sniff_lib
       (PacketInput [ReadPacket [] zeroSocksaddr]) a bs ps c)))
     False False (sniff_rule quic_action) 1 (sniff_state [(sample_packet [6, 0, 1, 1], zeroSocksaddr)]))) =
   [(sample_packet [6, 0, 1, 1], zeroSocksaddr), (sample_packet [6, 0, 1, 1], zeroSocksaddr), ([], zeroSocksaddr)]"
proof -
  let ?err = "Some (E_Cause ErrNeedMoreData [Err (ParseError LengthErr 3)])"
  let ?c = "sample_conn\<lparr>md_Protocol := ProtocolQUIC, md_SniffContext := Some [\<lparr>qf_offset = 0, qf_length = 1, qf_payload = [1]\<rparr>],
      md_SnifferNames := [''quic''], md_SniffError := ?err\<rparr>"
  have more: "errors_Is_opt sample_sniff_lib ?err ErrNeedMoreData"
    by (simp add: errors_Is_opt_def sample_sniff_lib_def ErrNeedMoreData_def)
  have cached: "sniff_cached sample_sniff_lib quic_action [QUICClientHello] [(sample_packet [6, 0, 1, 1], zeroSocksaddr)] sample_conn =
      Returns (Inr ?c)"
    using more by (simp add: sniff_packet_def PeekPacket_def run_packet_sniffer_def sample_one_sniffed quic_action_def)
  have last: "sniff_packet sample_sniff_lib quic_action [QUICClientHello] ?c [] =
      Returns (Some io_EOF, ?c\<lparr>md_SnifferNames := [''quic''], md_SniffError := Some io_EOF\<rparr>)"
    unfolding io_EOF_def by (rule sample_no_quic) (simp add: quic_read_header_def io_EOF_def)
  have "\<not> errors_Is_opt sample_sniff_lib (Some io_EOF) ErrNeedMoreData"
    by (simp add: errors_Is_opt_def sample_sniff_lib_def io_EOF_def ErrNeedMoreData_def)
  then show ?thesis
    using sniff_repeats_packets [of "sniff_rule quic_action" quic_action
      "sniff_router (\<lambda>a bs ps c. sniff_answer c (Router_actionSniff sample_sniff_lib (PacketInput [ReadPacket [] zeroSocksaddr]) a bs ps c))"
      sample_sniff_lib "[]" zeroSocksaddr "[]" "sniff_state [(sample_packet [6, 0, 1, 1], zeroSocksaddr)]"]
      cached last sample_conn_fresh by (simp add: quic_action_def)
qed

end
