(* ===== verification/Tls_Fragment.thy ===== *)
theory Tls_Fragment
  imports Ja3_Layout
begin

text \<open>
  TLS fragmentation (\<open>common/tlsfragment\<close>): where the server name of a ClientHello is, and the first write of a
  connection that cuts the ClientHello there into TCP segments, into TLS records, or both. What a write does
  to the connection is a list of operations; each may fail. The loop over the extensions is a partial function:
  its 16-bit step may wrap to 0.
\<close>

section \<open>The server name\<close>

record MyServerName =
  sn_Index :: nat
  sn_Length :: nat
  sn_ServerName :: string

text \<open>The outer \<open>None\<close> is a search that never returns, the inner one a search without result.\<close>

partial_function (option) index_extension_loop :: "nat \<Rightarrow> bytes \<Rightarrow> MyServerName option option" where
  "index_extension_loop currentIndex exs =
     (if length exs = 0 then Some None
      else if length exs < 4 then Some None
      else
        (let exType = be16 (exs ! 0) (exs ! 1);
             exLen = be16 (exs ! 2) (exs ! 3);
             sex = take (unat exLen) (drop 4 exs)
         in if length exs < 4 + unat exLen then Some None
            else if exType = 0
            then (if length sex < 5 then Some None
                  else if sex ! 2 \<noteq> 0 then Some None
                  else Some (Some \<lparr>sn_Index = currentIndex + 4 + 5, sn_Length = unat (be16 (sex ! 3) (sex ! 4)),
                                   sn_ServerName = bytes_str (drop 5 sex)\<rparr>))
            else index_extension_loop (currentIndex + 4 + unat exLen) (drop (unat (4 + exLen)) exs)))"

definition indexTLSServerNameFromExtensions :: "bytes \<Rightarrow> MyServerName option option" where
  "indexTLSServerNameFromExtensions exs =
     (if length exs = 0 then Some None
      else if length exs < 2 then Some None
      else if length (drop 2 exs) < unat (be16 (exs ! 0) (exs ! 1)) then Some None
      else index_extension_loop 2 (drop 2 exs))"

text \<open>A found name is moved by the position of the part it was found in.\<close>

definition shift_index :: "nat \<Rightarrow> MyServerName option option \<Rightarrow> MyServerName option option" where
  "shift_index n = map_option (map_option (\<lambda>s. s\<lparr>sn_Index := sn_Index s + n\<rparr>))"

definition indexTLSServerNameFromHandshake :: "bytes \<Rightarrow> MyServerName option option" where
  "indexTLSServerNameFromHandshake handshake =
     (if length handshake < 39 then Some None
      else if handshake ! 0 \<noteq> 1 then Some None
      else if length (drop 4 handshake) \<noteq> unat (be24 (handshake ! 1) (handshake ! 2) (handshake ! 3)) then Some None
      else if \<not> tls_version_ok (be16 (handshake ! 4) (handshake ! 5)) then Some None
      else
        let currentIndex = 39 + unat (handshake ! 38) in
        if length handshake < currentIndex then Some None
        else
          let cipherSuites = drop currentIndex handshake in
          if length cipherSuites < 2 then Some None
          else
            let csLen = unat (be16 (cipherSuites ! 0) (cipherSuites ! 1)) in
            if length cipherSuites < 2 + csLen + 1 then Some None
            else
              let currentIndex' = currentIndex + (2 + csLen + 1 + unat (cipherSuites ! (2 + csLen))) in
              if length handshake < currentIndex' then Some None
              else shift_index currentIndex' (indexTLSServerNameFromExtensions (drop currentIndex' handshake)))"

definition IndexTLSServerName :: "bytes \<Rightarrow> MyServerName option option" where
  "IndexTLSServerName payload =
     (if length payload < 5 \<or> payload ! 0 \<noteq> 22 then Some None
      else if length payload < 5 + unat (be16 (payload ! 3) (payload ! 4)) then Some None
      else shift_index 5 (indexTLSServerNameFromHandshake (drop 5 payload)))"

section \<open>Where to cut\<close>

text \<open>\<open>rand.Intn n\<close> panics for 0; \<open>pick i\<close>, reduced below \<open>n\<close>, is the random number for the \<open>i\<close>-th label.\<close>

fun split_indexes :: "(nat \<Rightarrow> nat) \<Rightarrow> nat \<Rightarrow> nat \<Rightarrow> string list \<Rightarrow> nat list result" where
  "split_indexes pick i currentIndex [] = Inr []"
| "split_indexes pick i currentIndex (split # splits) =
     (if length split = 0 then Inl (Panic [S ''invalid argument to Intn''])
      else bind_result
             (split_indexes pick (Suc i) (currentIndex + length split + (if splits \<noteq> [] then 1 else 0)) splits)
             (\<lambda>rest. Inr ((currentIndex + pick i mod length split) # rest)))"

definition count_dots :: "string \<Rightarrow> nat" where
  "count_dots s = length (filter (\<lambda>c. c = CHR ''.'') s)"

definition name_splits :: "(string \<Rightarrow> string) \<Rightarrow> string \<Rightarrow> string list" where
  "name_splits PublicSuffix name =
     (let splits = split_byte (CHR ''.'') name in
      if PublicSuffix name \<noteq> [] then take (length splits - count_dots name) splits else splits)"

definition cut_positions :: "(string \<Rightarrow> string) \<Rightarrow> (nat \<Rightarrow> nat) \<Rightarrow> MyServerName \<Rightarrow> nat list result" where
  "cut_positions PublicSuffix pick serverName =
     (let splits = name_splits PublicSuffix (sn_ServerName serverName); currentIndex = sn_Index serverName
      in if length splits > 1 \<and> splits ! 0 = ''...''
         then split_indexes pick 0 (currentIndex + length (splits ! 0) + 1) (tl splits)
         else split_indexes pick 0 currentIndex splits)"

section \<open>The first write\<close>

datatype conn_op = SetNoDelay bool | WriteOp bytes | WriteAndWaitAck bytes | SleepOp

record tf_conn =
  tf_tcpConn :: bool
  tf_firstPacketWritten :: bool
  tf_splitPacket :: bool
  tf_splitRecord :: bool
  tf_fallbackDelay :: int

abbreviation TLSFragmentFallbackDelay :: int where "TLSFragmentFallbackDelay \<equiv> 500000000"

definition tf_NewConn :: "bool \<Rightarrow> bool \<Rightarrow> bool \<Rightarrow> int \<Rightarrow> tf_conn" where
  "tf_NewConn tcp splitPacket splitRecord fallbackDelay = \<lparr>tf_tcpConn = tcp, tf_firstPacketWritten = False,
     tf_splitPacket = splitPacket, tf_splitRecord = splitRecord,
     tf_fallbackDelay = (if fallbackDelay = 0 then TLSFragmentFallbackDelay else fallbackDelay)\<rparr>"

text \<open>The pieces between the positions, the first without the record header where records are cut.\<close>

fun cut_at :: "nat \<Rightarrow> nat list \<Rightarrow> bytes \<Rightarrow> bytes list" where
  "cut_at from [] b = [drop from b]"
| "cut_at from (i # is) b = drop from (take i b) # cut_at i is b"

definition pieces :: "tf_conn \<Rightarrow> nat list \<Rightarrow> bytes \<Rightarrow> bytes list" where
  "pieces c splitIndexes b =
     (case cut_at 0 splitIndexes b of [] \<Rightarrow> [] | p # ps \<Rightarrow> (if tf_splitRecord c then drop 5 p else p) # ps)"

definition tls_record :: "bytes \<Rightarrow> bytes \<Rightarrow> bytes" where
  "tls_record b payload = take 3 b @ be_bytes 2 (length payload) @ payload"

text \<open>The loop over the pieces: one write each where packets are cut, with a wait after all but the last.\<close>

fun piece_ops :: "tf_conn \<Rightarrow> bytes \<Rightarrow> bytes list \<Rightarrow> conn_op list" where
  "piece_ops c b [] = []"
| "piece_ops c b (p # ps) =
     (let payload = (if tf_splitRecord c then tls_record b p else p) in
      (if tf_splitPacket c
       then (if tf_tcpConn c \<and> ps \<noteq> [] then [WriteAndWaitAck payload]
             else WriteOp payload # (if ps \<noteq> [] then [SleepOp] else []))
       else []) @ piece_ops c b ps)"

definition fragment_ops :: "tf_conn \<Rightarrow> bytes \<Rightarrow> nat list \<Rightarrow> conn_op list" where
  "fragment_ops c b splitIndexes =
     piece_ops c b (pieces c splitIndexes b)
     @ (if tf_splitRecord c \<and> \<not> tf_splitPacket c
        then [WriteOp (concat (map (tls_record b) (pieces c splitIndexes b)))] else [])
     @ (if tf_tcpConn c then [SetNoDelay False] else [])"

text \<open>The operations up to the first that fails; \<open>fails k\<close> is the error of the \<open>k\<close>-th.\<close>

fun run_ops :: "(nat \<Rightarrow> error option) \<Rightarrow> nat \<Rightarrow> conn_op list \<Rightarrow> conn_op list \<times> error option" where
  "run_ops fails k [] = ([], None)"
| "run_ops fails k (op # ops) =
     (case (if op = SleepOp then None else fails k) of
        Some err \<Rightarrow> ([op], Some err)
      | None \<Rightarrow> (case run_ops fails (Suc k) ops of (done_ops, err) \<Rightarrow> (op # done_ops, err)))"

text \<open>\<open>Write\<close>: the operations, the number of bytes and the error, and the connection afterwards. A write
  of the connection that fails is taken to have written nothing. \<open>None\<close> does not return.\<close>

type_synonym write_result = "(conn_op list \<times> nat \<times> error option) result \<times> tf_conn"

definition pass_through :: "(nat \<Rightarrow> error option) \<Rightarrow> bytes \<Rightarrow> conn_op list \<times> nat \<times> error option" where
  "pass_through fails b = (case fails 0 of None \<Rightarrow> ([WriteOp b], length b, None) | Some e \<Rightarrow> ([WriteOp b], 0, Some e))"

definition Conn_Write ::
  "(string \<Rightarrow> string) \<Rightarrow> (nat \<Rightarrow> nat) \<Rightarrow> (nat \<Rightarrow> error option) \<Rightarrow> tf_conn \<Rightarrow> bytes \<Rightarrow> write_result option" where
  "Conn_Write PublicSuffix pick fails c b =
     (if tf_firstPacketWritten c then Some (Inr (pass_through fails b), c)
      else
        let c' = c\<lparr>tf_firstPacketWritten := True\<rparr> in
        case IndexTLSServerName b of
          None \<Rightarrow> None
        | Some None \<Rightarrow> Some (Inr (pass_through fails b), c')
        | Some (Some serverName) \<Rightarrow>
            (let first = (if tf_splitPacket c \<and> tf_tcpConn c then [SetNoDelay True] else []) in
             case run_ops fails 0 first of
               (ops, Some e) \<Rightarrow> Some (Inr (ops, 0, Some e), c')
             | (ops, None) \<Rightarrow>
                 (case cut_positions PublicSuffix pick serverName of
                    Inl e \<Rightarrow> Some (Inl e, c')
                  | Inr [] \<Rightarrow> Some (Inl (Panic [S ''index out of range'']), c')
                  | Inr splitIndexes \<Rightarrow>
                      (case run_ops fails (length first) (fragment_ops c b splitIndexes) of
                         (ops', None) \<Rightarrow> Some (Inr (ops @ ops', length b, None), c')
                       | (ops', Some e) \<Rightarrow> Some (Inr (ops @ ops', 0, Some e), c')))))"

end
