(* ===== verification/Fragment_Properties.thy ===== *)
theory Fragment_Properties
  imports Tls_Fragment
begin

text \<open>
  What TLS fragmentation promises: the search finds the server name of every well-formed ClientHello where it
  is, and the first write sends all the bytes, cut into segments or into records that carry the same
  handshake; and the messages on which it panics or never returns.
\<close>

section \<open>Finding the name\<close>

lemma index_loop_finds:
  assumes "\<forall>e\<in>set es1. ext_ok e \<and> ext_type e \<noteq> 0" and "ext_ok (ServerNameExt name)"
  shows "index_extension_loop k (concat (map enc_ext (es1 @ ServerNameExt name # es2))) =
    Some (Some \<lparr>sn_Index = k + length (concat (map enc_ext es1)) + 9, sn_Length = length name, sn_ServerName = name\<rparr>)"
  using assms(1)
proof (induction es1 arbitrary: k)
  case Nil
  define B where "B = ext_body (ServerNameExt name)"
  have B: "length B = length name + 5" "B ! 2 = 0" "be16 (B ! 3) (B ! 4) = be16 (hi (length name)) (lo (length name))"
    "drop 5 B = str_bytes name"
    by (simp_all add: B_def enc16_def)
  have exs: "concat (map enc_ext ([] @ ServerNameExt name # es2)) =
      hi 0 # lo 0 # hi (length B) # lo (length B) # B @ concat (map enc_ext es2)"
    by (simp add: enc_ext_def enc16_def B_def)
  have len: "unat (be16 (hi (length B)) (lo (length B))) = length B"
    by (rule unat_be16_enc) (use assms(2) B(1) in simp)
  have ty: "be16 (hi 0) (lo 0) = 0" by (simp add: be16_def hi_def lo_def)
  have name: "unat (be16 (hi (length name)) (lo (length name))) = length name"
    by (rule unat_be16_enc) (use assms(2) in simp)
  show ?case
    unfolding exs by (subst index_extension_loop.simps) (use B in \<open>simp add: Let_def ty len [unfolded B(1)] name\<close>)
next
  case (Cons e es1)
  let ?rest = "concat (map enc_ext (es1 @ ServerNameExt name # es2))"
  have ok: "ext_ok e" "ext_type e \<noteq> 0" using Cons.prems by auto
  have bound: "length (ext_body e) < 65532" by (rule ext_body_bound [OF ok(1)])
  have exs: "concat (map enc_ext ((e # es1) @ ServerNameExt name # es2)) =
      hi (unat (ext_type e)) # lo (unat (ext_type e)) # hi (length (ext_body e)) # lo (length (ext_body e)) # ext_body e @ ?rest"
    by (simp add: enc_ext_def enc16_def)
  have len: "unat (be16 (hi (length (ext_body e))) (lo (length (ext_body e)))) = length (ext_body e)"
    by (rule unat_be16_enc) (use bound in simp)
  have sum: "unat (4 + be16 (hi (length (ext_body e))) (lo (length (ext_body e)))) = Suc (Suc (Suc (Suc (length (ext_body e)))))"
    using bound len by (simp add: unat_word_ariths(1))
  have size: "length (enc_ext e) = 4 + length (ext_body e)" by (simp add: enc_ext_def enc16_def)
  have IH: "index_extension_loop (k + 4 + length (ext_body e)) ?rest = Some (Some \<lparr>sn_Index =
      k + 4 + length (ext_body e) + length (concat (map enc_ext es1)) + 9, sn_Length = length name, sn_ServerName = name\<rparr>)"
    by (rule Cons.IH) (use Cons.prems in simp)
  show ?case
    unfolding exs by (subst index_extension_loop.simps) (use ok(2) IH size in \<open>simp add: Let_def len sum\<close>)
qed

lemma index_name_encoded:
  assumes ok: "hello_ok h" and ext: "he_extensions h = es1 @ ServerNameExt name # es2"
    and first: "\<forall>e\<in>set es1. ext_type e \<noteq> 0"
  shows "\<exists>i. IndexTLSServerName (encode_record h) =
      Some (Some \<lparr>sn_Index = i, sn_Length = length name, sn_ServerName = name\<rparr>)
    \<and> take (length name) (drop i (encode_record h)) = str_bytes name"
proof -
  let ?hs = "enc_handshake h" and ?cs = "enc_suites h" and ?exs = "concat (map enc_ext (he_extensions h))"
  let ?k = "39 + length (he_session h) + (2 + 2 * length (he_ciphers h) + 1 + length (he_compression h))"
  let ?i = "2 + length (concat (map enc_ext es1)) + 9"
  have fits: "hello_fits h" and all: "list_all ext_ok (he_extensions h)" using ok by (simp_all add: hello_ok_def)
  have rnd: "length (he_random h) = 32" and ciphers: "length (he_ciphers h) < 32768"
    and v: "tls_version_ok (he_version h)" and sess: "length (he_session h) < 256"
    and comp: "length (he_compression h) < 256" and len: "length ?hs < 65536"
    using fits by (simp_all add: hello_fits_def)
  note H = enc_handshake_layout [OF rnd] and C = enc_suites_layout [OF ciphers]
  have "drop ?k ?hs = drop (2 + 2 * length (he_ciphers h) + 1 + length (he_compression h)) (drop (39 + length (he_session h)) ?hs)"
    unfolding drop_drop by (simp only: add.commute)
  then have exs: "drop ?k ?hs = enc16 (length ?exs) @ ?exs" unfolding H(6) C(4) .
  have loop: "index_extension_loop 2 ?exs =
      Some (Some \<lparr>sn_Index = ?i, sn_Length = length name, sn_ServerName = name\<rparr>)"
    unfolding ext by (rule index_loop_finds) (use all first in \<open>auto simp: ext list_all_iff\<close>)
  have fromexs: "indexTLSServerNameFromExtensions (drop ?k ?hs) =
      Some (Some \<lparr>sn_Index = ?i, sn_Length = length name, sn_ServerName = name\<rparr>)"
    unfolding exs indexTLSServerNameFromExtensions_def using loop extensions_fit [OF fits] by (simp add: enc16_def)
  have "unat (be24 (?hs ! 1) (?hs ! 2) (?hs ! 3)) = length (drop 4 ?hs)"
    unfolding H(2) by (rule unat_be24_enc) (use len in simp)
  then have hs: "indexTLSServerNameFromHandshake ?hs =
      Some (Some \<lparr>sn_Index = ?i + ?k, sn_Length = length name, sn_ServerName = name\<rparr>)"
    unfolding indexTLSServerNameFromHandshake_def Let_def H(1,3,4) unat_lo [OF sess] H(6) C(1,2) unat_lo [OF comp]
    using v H(5) C(3) fromexs by (simp add: shift_index_def)
  have r: "IndexTLSServerName (encode_record h) =
      Some (Some \<lparr>sn_Index = ?i + ?k + 5, sn_Length = length name, sn_ServerName = name\<rparr>)"
    unfolding IndexTLSServerName_def using hs len by (simp add: encode_record_def enc16_def shift_index_def)
  have "drop 5 (encode_record h) = ?hs" by (simp add: encode_record_def enc16_def)
  then have "drop (?i + ?k + 5) (encode_record h) = drop ?i (drop ?k ?hs)" by (metis drop_drop)
  also have "\<dots> = drop 9 (enc_ext (ServerNameExt name) @ concat (map enc_ext es2))"
  proof -
    have "?i = 9 + length (enc16 (length ?exs) @ concat (map enc_ext es1))" by (simp add: enc16_def)
    moreover have "enc16 (length ?exs) @ ?exs =
        (enc16 (length ?exs) @ concat (map enc_ext es1)) @ enc_ext (ServerNameExt name) @ concat (map enc_ext es2)"
      by (simp add: ext)
    ultimately show ?thesis unfolding exs by (simp only: drop_append) simp
  qed
  also have "\<dots> = str_bytes name @ concat (map enc_ext es2)" by (simp add: enc_ext_def enc16_def)
  finally have "take (length name) (drop (?i + ?k + 5) (encode_record h)) = str_bytes name" by simp
  with r show ?thesis by blast
qed

section \<open>The search returns\<close>

text \<open>A message of at most 65535 bytes: the step never wraps, so the search ends, and a name it finds lies in the
  message.\<close>

lemma index_loop_returns:
  assumes "length exs \<le> 65535"
  shows "\<exists>r. index_extension_loop k exs = Some r
    \<and> (\<forall>s. r = Some s \<longrightarrow> k \<le> sn_Index s \<and> sn_Index s + length (sn_ServerName s) \<le> k + length exs)"
  using assms
proof (induction "length exs" arbitrary: k exs rule: less_induct)
  case less
  let ?t = "be16 (exs ! 0) (exs ! 1)" and ?n = "be16 (exs ! 2) (exs ! 3)"
  show ?case
  proof (cases "length exs < 4 \<or> length exs < 4 + unat ?n \<or> ?t = 0")
    case True
    then show ?thesis
      by (subst index_extension_loop.simps) (auto simp: Let_def bytes_str_def)
  next
    case False
    have step: "unat (4 + ?n) = 4 + unat ?n" using False less.prems by (simp add: unat_word_ariths(1))
    let ?rest = "drop (4 + unat ?n) exs"
    have "length ?rest < length exs" using False unfolding length_drop by linarith
    moreover have "length ?rest \<le> 65535" using less.prems by simp
    ultimately obtain r where r: "index_extension_loop (k + 4 + unat ?n) ?rest = Some r"
      and b: "\<forall>s. r = Some s \<longrightarrow> k + 4 + unat ?n \<le> sn_Index s \<and> sn_Index s + length (sn_ServerName s) \<le> k + 4 + unat ?n + length ?rest"
      using less.hyps [of ?rest "k + 4 + unat ?n"] by blast
    have "index_extension_loop k exs = Some r"
      by (subst index_extension_loop.simps) (use False step r in \<open>auto simp: Let_def\<close>)
    then show ?thesis using b False by fastforce
  qed
qed

lemma shift_index_Some: "shift_index n (Some r) = Some (map_option (\<lambda>s. s\<lparr>sn_Index := sn_Index s + n\<rparr>) r)"
  by (simp add: shift_index_def)

definition found_in :: "nat \<Rightarrow> MyServerName option option \<Rightarrow> bool" where
  "found_in len r \<longleftrightarrow> (\<exists>x. r = Some x \<and> (\<forall>s. x = Some s \<longrightarrow> sn_Index s + length (sn_ServerName s) \<le> len))"

lemma found_in_nothing [simp]: "found_in len (Some None)"
  by (simp add: found_in_def)

lemma found_in_shift: "found_in len r \<Longrightarrow> found_in (len + n) (shift_index n r)"
  by (auto simp: found_in_def shift_index_Some)

lemma index_extensions_returns: "length exs \<le> 65535 \<Longrightarrow> found_in (length exs) (indexTLSServerNameFromExtensions exs)"
  using index_loop_returns [of "drop 2 exs" 2]
  by (fastforce simp: indexTLSServerNameFromExtensions_def found_in_def)

lemma index_handshake_returns:
  assumes "length hs \<le> 65535"
  shows "found_in (length hs) (indexTLSServerNameFromHandshake hs)"
proof -
  have "found_in (length hs) (shift_index k (indexTLSServerNameFromExtensions (drop k hs)))" if "k \<le> length hs" for k
    using found_in_shift [OF index_extensions_returns, of "drop k hs" k] assms that by simp
  then show ?thesis by (simp add: indexTLSServerNameFromHandshake_def Let_def)
qed

lemma index_name_returns:
  assumes "length b \<le> 65535"
  shows "\<exists>r. IndexTLSServerName b = Some r
    \<and> (\<forall>s. r = Some s \<longrightarrow> 5 \<le> sn_Index s \<and> sn_Index s + length (sn_ServerName s) \<le> length b)"
proof (cases "length b < 5")
  case True
  then show ?thesis by (simp add: IndexTLSServerName_def)
next
  case False
  have "found_in (length (drop 5 b)) (indexTLSServerNameFromHandshake (drop 5 b))"
    by (rule index_handshake_returns) (use assms in simp)
  then obtain x where "indexTLSServerNameFromHandshake (drop 5 b) = Some x"
    and "\<forall>s. x = Some s \<longrightarrow> sn_Index s + length (sn_ServerName s) \<le> length b - 5"
    by (auto simp: found_in_def)
  then show ?thesis using False by (auto simp: IndexTLSServerName_def shift_index_Some)
qed

text \<open>An extension of 65532 bytes that is no name makes the step 0: the search never returns.\<close>

lemma index_loop_stuck:
  assumes "65536 \<le> length exs" and "be16 (exs ! 0) (exs ! 1) \<noteq> 0" and "be16 (exs ! 2) (exs ! 3) = 65532"
  shows "index_extension_loop k exs = None"
proof (rule ccontr)
  assume "index_extension_loop k exs \<noteq> None"
  then obtain r where ret: "index_extension_loop k exs = Some r" by blast
  have "exs \<noteq> exs"
  proof (rule index_extension_loop.raw_induct [where P = "\<lambda>_ exs' _. exs' \<noteq> exs", OF _ ret])
    fix loop :: "nat \<Rightarrow> bytes \<Rightarrow> MyServerName option option" and k' exs' r'
    assume IH: "\<And>k exs' r. loop k exs' = Some r \<Longrightarrow> exs' \<noteq> exs"
      and body: "(if length exs' = 0 then Some None
        else if length exs' < 4 then Some None
        else
          (let exType = be16 (exs' ! 0) (exs' ! 1);
               exLen = be16 (exs' ! 2) (exs' ! 3);
               sex = take (unat exLen) (drop 4 exs')
           in if length exs' < 4 + unat exLen then Some None
              else if exType = 0
              then (if length sex < 5 then Some None
                    else if sex ! 2 \<noteq> 0 then Some None
                    else Some (Some \<lparr>sn_Index = k' + 4 + 5, sn_Length = unat (be16 (sex ! 3) (sex ! 4)),
                                     sn_ServerName = bytes_str (drop 5 sex)\<rparr>))
              else loop (k' + 4 + unat exLen) (drop (unat (4 + exLen)) exs'))) = Some r'"
    show "exs' \<noteq> exs"
    proof
      assume "exs' = exs"
      with body assms have "loop (k' + 4 + 65532) exs = Some r'" by (auto simp: Let_def split: if_splits)
      with IH show False by blast
    qed
  qed
  then show False by simp
qed

section \<open>Where it is cut\<close>

fun cuts_ok :: "nat \<Rightarrow> nat list \<Rightarrow> bytes \<Rightarrow> bool" where
  "cuts_ok from [] b = (from \<le> length b)"
| "cuts_ok from (i # is) b = (from \<le> i \<and> cuts_ok i is b)"

lemma cuts_ok_length: "cuts_ok from is b \<Longrightarrow> from \<le> length b"
  by (induction "from" "is" b rule: cuts_ok.induct) auto

lemma concat_cut_at: "cuts_ok from is b \<Longrightarrow> concat (cut_at from is b) = drop from b"
proof (induction "from" "is" b rule: cuts_ok.induct)
  case (2 "from" i "is" b)
  then have "from \<le> i" and "concat (cut_at i is b) = drop i b" by simp_all
  then have "drop from (take i b) @ drop i b = drop from b"
    by (metis append_take_drop_id drop_append drop_take le_add_diff_inverse length_take min.commute drop_drop add.commute
        take_drop)
  then show ?case using 2 by simp
qed simp

fun joined_len :: "string list \<Rightarrow> nat" where
  "joined_len [] = 0"
| "joined_len [s] = length s"
| "joined_len (s # t # r) = length s + 1 + joined_len (t # r)"

lemma split_indexes_ok:
  assumes "split_indexes pick i cur splits = Inr is" and "cur + joined_len splits \<le> length b"
  shows "cuts_ok cur is b \<and> length is = length splits"
  using assms
proof (induction splits arbitrary: i cur "is" rule: joined_len.induct)
  case (3 s t r)
  let ?next = "cur + length s + 1"
  from "3.prems"(1) obtain js where s: "s \<noteq> []" and js: "split_indexes pick (Suc i) ?next (t # r) = Inr js"
    and is_eq: "is = (cur + pick i mod length s) # js"
    by (auto simp: bind_result_Inr_iff split: if_splits)
  have ok: "cuts_ok ?next js b \<and> length js = length (t # r)"
    using "3.IH" [OF js] "3.prems"(2) by simp
  have "pick i mod length s < length s" using s by simp
  then have "cuts_ok (cur + pick i mod length s) js b" using ok by (cases js) auto
  then show ?case using is_eq ok by simp
qed (auto simp: bind_result_Inr_iff split: if_splits
    intro: order_trans [OF add_left_mono [OF less_imp_le [OF mod_less_divisor]]])

lemma joined_len_take: "joined_len (take k xs) \<le> joined_len xs"
proof (induction xs arbitrary: k rule: joined_len.induct)
  case (3 s t r)
  show ?case
  proof (cases k)
    case (Suc n)
    then show ?thesis using "3.IH" [of n] by (cases n) simp_all
  qed simp
qed (simp_all add: take_Cons')

lemma joined_len_split: "joined_len (split_byte x s) = length s"
proof (induction s)
  case (Cons c s)
  then obtain p ps where "split_byte x s = p # ps" by (metis list.exhaust split_byte_nonempty)
  then show ?case using Cons by (cases ps) auto
qed simp

lemma split_byte_parts: "p \<in> set (split_byte x s) \<Longrightarrow> x \<notin> set p"
  by (induction s arbitrary: p) (auto split: list.splits if_splits)

lemma length_split_byte: "length (split_byte x s) = Suc (length (filter (\<lambda>c. c = x) s))"
proof (induction s)
  case (Cons c s)
  then obtain p ps where "split_byte x s = p # ps" by (metis list.exhaust split_byte_nonempty)
  then show ?case using Cons by auto
qed simp

text \<open>Counting the dots of the whole name leaves the first label only.\<close>

lemma name_splits_first:
  assumes "PublicSuffix name \<noteq> []"
  shows "name_splits PublicSuffix name = [hd (split_byte (CHR ''.'') name)]"
  using assms length_split_byte [of "CHR ''.''" name]
  by (cases "split_byte (CHR ''.'') name") (simp_all add: name_splits_def count_dots_def Let_def)

lemma cut_positions_ok:
  assumes "cut_positions PublicSuffix pick s = Inr is" and "sn_Index s + length (sn_ServerName s) \<le> length b"
  shows "cuts_ok (sn_Index s) is b \<and> is \<noteq> []"
proof -
  let ?splits = "name_splits PublicSuffix (sn_ServerName s)"
  have ne: "?splits \<noteq> []"
    using name_splits_first [of PublicSuffix "sn_ServerName s"] by (auto simp: name_splits_def Let_def)
  have "set ?splits \<subseteq> set (split_byte (CHR ''.'') (sn_ServerName s))"
    by (auto simp: name_splits_def Let_def dest: in_set_takeD)
  then have "?splits ! 0 \<noteq> ''...''"
    using ne split_byte_parts [of "?splits ! 0" "CHR ''.''"] nth_mem [of 0 ?splits] by fastforce
  then have is_eq: "split_indexes pick 0 (sn_Index s) ?splits = Inr is"
    using assms(1) by (simp add: cut_positions_def Let_def)
  have "joined_len (take k (split_byte (CHR ''.'') (sn_ServerName s))) \<le> length (sn_ServerName s)" for k
    using joined_len_take [of k "split_byte (CHR ''.'') (sn_ServerName s)"] by (simp add: joined_len_split)
  then have "joined_len ?splits \<le> length (sn_ServerName s)"
    by (simp add: name_splits_def Let_def joined_len_split)
  then have "cuts_ok (sn_Index s) is b \<and> length is = length ?splits"
    using split_indexes_ok [OF is_eq, of b] assms(2) by simp
  then show ?thesis using ne by auto
qed

text \<open>The cut fails only at an empty label.\<close>

lemma split_indexes_panics: "split_indexes pick i k splits = Inl e \<Longrightarrow> [] \<in> set splits"
  by (induction splits arbitrary: i k) (auto simp: bind_result_def split: if_splits sum.splits)

lemma cut_positions_panics:
  assumes "cut_positions PublicSuffix pick s = Inl e"
  shows "[] \<in> set (name_splits PublicSuffix (sn_ServerName s))"
proof -
  let ?splits = "name_splits PublicSuffix (sn_ServerName s)"
  from assms have "(\<exists>k. split_indexes pick 0 k (tl ?splits) = Inl e) \<or> (\<exists>k. split_indexes pick 0 k ?splits = Inl e)"
    unfolding cut_positions_def Let_def by (auto split: if_splits)
  then have "[] \<in> set (tl ?splits) \<or> [] \<in> set ?splits" using split_indexes_panics by blast
  then show ?thesis by (cases ?splits) auto
qed

section \<open>What is written\<close>

fun op_data :: "conn_op \<Rightarrow> bytes" where
  "op_data (WriteOp p) = p"
| "op_data (WriteAndWaitAck p) = p"
| "op_data _ = []"

definition written :: "conn_op list \<Rightarrow> bytes" where
  "written ops = concat (map op_data ops)"

lemma written_simps [simp]: "written [] = []" "written (op # ops) = op_data op @ written ops"
  "written (ops @ ops') = written ops @ written ops'"
  by (simp_all add: written_def)

lemma run_ops_succeed [simp]: "run_ops (\<lambda>_. None) k ops = (ops, None)"
  by (induction ops arbitrary: k) simp_all

lemma written_pieces:
  "written (piece_ops c b ps) =
     (if tf_splitPacket c then concat (map (\<lambda>p. if tf_splitRecord c then tls_record b p else p) ps) else [])"
  by (induction ps) (auto simp: Let_def)

text \<open>The records of a byte stream: header (type and version) and payload of each.\<close>

function read_records :: "bytes \<Rightarrow> (bytes \<times> bytes) list option" where
  "read_records bs =
     (if bs = [] then Some []
      else if length bs < 5 then None
      else let n = unat (be16 (bs ! 3) (bs ! 4)) in
        if length bs < 5 + n then None
        else map_option (\<lambda>rs. (take 3 bs, take n (drop 5 bs)) # rs) (read_records (drop (5 + n) bs)))"
  by pat_completeness auto
termination by (relation "measure length") auto

declare read_records.simps [simp del]

lemma be_bytes_two: "be_bytes 2 n = [hi n, lo n]"
  by (simp add: hi_def lo_def numeral_2_eq_2)

lemma read_records_written:
  assumes "3 \<le> length b" and "\<forall>p\<in>set ps. length p < 65536"
  shows "read_records (concat (map (tls_record b) ps)) = Some (map (\<lambda>p. (take 3 b, p)) ps)"
  using assms(2)
proof (induction ps)
  case Nil
  then show ?case by (simp add: read_records.simps)
next
  case (Cons p ps)
  obtain x y z bs where b: "b = x # y # z # bs" using assms(1) by (auto simp: Suc_le_length_iff numeral_eq_Suc)
  have n: "unat (be16 (hi (length p)) (lo (length p))) = length p" by (rule unat_be16_enc) (use Cons.prems in simp)
  have "concat (map (tls_record b) (p # ps)) = x # y # z # hi (length p) # lo (length p) # p @ concat (map (tls_record b) ps)"
    by (simp add: b tls_record_def be_bytes_two)
  moreover have next_record: "drop (5 + length p) (x # y # z # u # v # p @ r) = r" for u v r
    using drop_drop [of "length p" 5 "x # y # z # u # v # p @ r"] by (simp add: add.commute)
  ultimately show ?case
    using Cons n b by (subst read_records.simps) (simp add: Let_def next_record)
qed

lemma concat_pieces:
  assumes "cuts_ok i is b" and "5 \<le> i" and "is \<noteq> []"
  shows "concat (pieces c is b) = (if tf_splitRecord c then drop 5 b else b)"
proof -
  obtain j js where is_eq: "is = j # js" using assms(3) by (cases "is") auto
  then have j: "i \<le> j" "cuts_ok j js b" using assms(1) by simp_all
  then have "5 \<le> length (take j b)" using assms(2) cuts_ok_length by fastforce
  moreover have "concat (cut_at j js b) = drop j b" by (rule concat_cut_at [OF j(2)])
  moreover have "drop 5 (take j b) @ drop j b = drop 5 b"
    using calculation(1) by (metis append_take_drop_id diff_is_0_eq' drop_0 drop_append)
  ultimately show ?thesis by (simp add: pieces_def is_eq)
qed

lemma cut_at_short: "p \<in> set (cut_at from is b) \<Longrightarrow> length p \<le> length b"
  by (induction "from" "is" b rule: cut_at.induct) auto

lemma piece_short:
  assumes "p \<in> set (pieces c is b)"
  shows "length p \<le> length b"
proof -
  obtain q qs where cut: "cut_at 0 is b = q # qs" using assms by (cases "cut_at 0 is b") (auto simp: pieces_def)
  with assms consider "p = drop 5 q" | "p \<in> set (cut_at 0 is b)" by (auto simp: pieces_def split: if_splits)
  then show ?thesis
  proof cases
    case 1
    moreover have "length q \<le> length b" by (rule cut_at_short [of _ 0 "is"]) (simp add: cut)
    ultimately show ?thesis by simp
  qed (rule cut_at_short)
qed

text \<open>A cut that succeeds sends the message: as it is, or as records whose payloads are its payload.\<close>

lemma fragment_ops_written:
  assumes "cuts_ok i is b" and "5 \<le> i" and "is \<noteq> []" and "length b \<le> 65535" and "tf_splitPacket c \<or> tf_splitRecord c"
  defines "sent \<equiv> written (fragment_ops c b is)"
  shows "if tf_splitRecord c
    then read_records sent = Some (map (\<lambda>p. (take 3 b, p)) (pieces c is b)) \<and> concat (pieces c is b) = drop 5 b
    else sent = b"
proof -
  have b: "3 \<le> length b" using cuts_ok_length [OF assms(1)] assms(2) by simp
  have short: "\<forall>p\<in>set (pieces c is b). length p < 65536" using piece_short assms(4) by fastforce
  note parts = concat_pieces [OF assms(1,2,3), of c]
  show ?thesis
  proof (cases "tf_splitRecord c")
    case True
    then have "sent = concat (map (tls_record b) (pieces c is b))"
      by (auto simp: sent_def fragment_ops_def written_pieces)
    then show ?thesis using True parts read_records_written [OF b short] by simp
  next
    case False
    then have "sent = concat (pieces c is b)" using assms(5) by (simp add: sent_def fragment_ops_def written_pieces)
    then show ?thesis using False parts by simp
  qed
qed

section \<open>Properties\<close>

text \<open>
  C38. The first write of a fragmenting connection on a message of at most 65535 bytes, where no operation of the
  connection fails: it panics only when an empty label of the server name is to be cut, and otherwise reports the whole
  message as written, and has sent either the message itself or records with the header of the message whose
  payloads put together are its payload.
\<close>

theorem fragment_write_keeps_data:
  assumes "\<not> tf_firstPacketWritten c" and "tf_splitPacket c \<or> tf_splitRecord c" and "length b \<le> 65535"
  shows "\<exists>r. Conn_Write PublicSuffix pick (\<lambda>_. None) c b = Some (r, c\<lparr>tf_firstPacketWritten := True\<rparr>)
    \<and> (\<forall>e. r = Inl e \<longrightarrow>
        (\<exists>s. IndexTLSServerName b = Some (Some s) \<and> [] \<in> set (name_splits PublicSuffix (sn_ServerName s))))
    \<and> (\<forall>ops n err. r = Inr (ops, n, err) \<longrightarrow> n = length b \<and> err = None
        \<and> (written ops = b
           \<or> (\<exists>payloads. read_records (written ops) = Some (map (\<lambda>p. (take 3 b, p)) payloads) \<and> concat payloads = drop 5 b)))"
proof -
  from index_name_returns [OF assms(3)] obtain x where x: "IndexTLSServerName b = Some x"
    and s: "\<And>s. x = Some s \<Longrightarrow> 5 \<le> sn_Index s \<and> sn_Index s + length (sn_ServerName s) \<le> length b" by blast
  show ?thesis
  proof (cases x)
    case None
    then show ?thesis using assms(1) x by (simp add: Conn_Write_def pass_through_def)
  next
    case (Some name)
    show ?thesis
    proof (cases "cut_positions PublicSuffix pick name")
      case (Inl e)
      then show ?thesis using assms(1) x Some cut_positions_panics [OF Inl] by (simp add: Conn_Write_def)
    next
      case (Inr "is")
      have ok: "cuts_ok (sn_Index name) is b" "is \<noteq> []" using cut_positions_ok [OF Inr] s [OF Some] by blast+
      obtain i js where is_eq: "is = i # js" using ok(2) by (cases "is") auto
      let ?first = "if tf_splitPacket c \<and> tf_tcpConn c then [SetNoDelay True] else []"
      have w: "Conn_Write PublicSuffix pick (\<lambda>_. None) c b =
          Some (Inr (?first @ fragment_ops c b is, length b, None), c\<lparr>tf_firstPacketWritten := True\<rparr>)"
        using assms(1) x Some Inr is_eq by (simp add: Conn_Write_def Let_def)
      have "written (?first @ fragment_ops c b is) = written (fragment_ops c b is)" by simp
      then show ?thesis
        using w fragment_ops_written [OF ok(1) _ ok(2) assms(3,2)] s [OF Some]
        by (cases "tf_splitRecord c") auto
    qed
  qed
qed

text \<open>A small ClientHello.\<close>

definition greeting :: "string \<Rightarrow> hello" where
  "greeting name = \<lparr>he_version = 0x0303, he_random = replicate 32 7, he_session = [], he_ciphers = [0x1301],
     he_compression = [0], he_extensions = [SupportedGroups [29], ServerNameExt name]\<rparr>"

lemma length_greeting: "length (encode_record (greeting name)) = 69 + length name"
  "length (enc_handshake (greeting name)) = 64 + length name"
  by (simp_all add: encode_record_def enc_handshake_def enc_body_def greeting_def enc_ext_def enc16_def enc24_def)

lemma greeting_ok: "length name < 1000 \<Longrightarrow> hello_ok (greeting name)"
  by (simp add: hello_ok_def hello_fits_def length_greeting(2)) (simp add: greeting_def tls_version_ok_def)

theorem fragment_write_keeps_data_witness:
  "\<exists>r. Conn_Write (\<lambda>_. ''b'') (\<lambda>_. 1) (\<lambda>_. None) (tf_NewConn True False True 0) (encode_record (greeting ''aa.b'')) =
     Some (r, (tf_NewConn True False True 0)\<lparr>tf_firstPacketWritten := True\<rparr>)"
  using fragment_write_keeps_data [of "tf_NewConn True False True 0" "encode_record (greeting ''aa.b'')" "\<lambda>_. ''b''" "\<lambda>_. 1"]
  by (auto simp: tf_NewConn_def length_greeting(1))

text \<open>
  A ClientHello whose first server name is empty, or begins with a dot, makes the first write panic: the position of
  the cut is a random number below the length of the first label.
\<close>

theorem fragment_empty_label_panics:
  assumes "hello_ok h" and "he_extensions h = es1 @ ServerNameExt name # es2" and "\<forall>e\<in>set es1. ext_type e \<noteq> 0"
    and "name = [] \<or> hd name = CHR ''.''" and "\<not> tf_firstPacketWritten c"
  shows "fst (the (Conn_Write PublicSuffix pick (\<lambda>_. None) c (encode_record h))) = Inl (Panic [S ''invalid argument to Intn''])"
proof -
  obtain i where x: "IndexTLSServerName (encode_record h) =
      Some (Some \<lparr>sn_Index = i, sn_Length = length name, sn_ServerName = name\<rparr>)"
    using index_name_encoded [OF assms(1-3)] by blast
  obtain rest where split: "split_byte (CHR ''.'') name = [] # rest"
    using assms(4) split_byte_sep [of "CHR ''.''" "[]" "tl name"] by (cases name) auto
  have "\<exists>rest. name_splits PublicSuffix name = [] # rest"
    using name_splits_first [of PublicSuffix name] split by (cases "PublicSuffix name = []") (auto simp: name_splits_def Let_def)
  then have "cut_positions PublicSuffix pick \<lparr>sn_Index = i, sn_Length = length name, sn_ServerName = name\<rparr> =
      Inl (Panic [S ''invalid argument to Intn''])"
    by (auto simp: cut_positions_def)
  then show ?thesis using x assms(5) by (simp add: Conn_Write_def)
qed

theorem fragment_empty_label_panics_witness:
  "fst (the (Conn_Write (\<lambda>s. s) (\<lambda>_. 0) (\<lambda>_. None) (tf_NewConn True True False 0) (encode_record (greeting [])))) =
     Inl (Panic [S ''invalid argument to Intn''])"
  by (rule fragment_empty_label_panics [OF greeting_ok, of _ "[SupportedGroups [29]]" "[]" "[]"])
    (simp_all add: greeting_def tf_NewConn_def)

end
