(* ===== verification/Adguard.thy ===== *)
theory Adguard
  imports Headless_Rules Rule_Actions
begin

text \<open>
  The conversion of AdGuard filter lists to rule-sets and back (\<open>common/convertor/adguard\<close>): the lines of the
  input, what is read from each of them, the headless rule built from the lines, and the text printed for such
  a rule. Logging is left out, and with it the number of ignored lines. The loop of \<open>FromOptions\<close> is a partial
  function: it does not return on a rule of an unknown type.
\<close>

section \<open>What other modules provide\<close>

text \<open>\<open>IsDomainName\<close> and \<open>ParseAddr\<close> of package \<open>metadata\<close>; \<open>SubstringAfter\<close>, \<open>SubstringBefore\<close> and \<open>Map\<close> of package
  \<open>common\<close>: \<open>common_Map\<close> gives the slice for the elements, which may be nil when there are none.\<close>

record adguard_lib =
  M_IsDomainName :: "string \<Rightarrow> bool"
  M_ParseAddr :: "string \<Rightarrow> addr"
  SubstringAfter :: "string \<Rightarrow> string \<Rightarrow> string"
  SubstringBefore :: "string \<Rightarrow> string \<Rightarrow> string"
  common_Map :: "string list \<Rightarrow> string slice"

definition Addr_IsUnspecified :: "addr \<Rightarrow> bool" where
  "Addr_IsUnspecified a \<longleftrightarrow> a = Addr4 0 \<or> a = Addr6 0 []"

section \<open>The lines of the input\<close>

text \<open>\<open>bufio.Scanner\<close>: lines without their end (\<open>\n\<close> or \<open>\r\n\<close>), no empty line at the end. The scan stops at a line
  that does not fit the buffer of 65536 bytes.\<close>

definition drop_cr :: "string \<Rightarrow> string" where
  "drop_cr l = (if l \<noteq> [] \<and> last l = CHR 0x0D then butlast l else l)"

definition scan_lines :: "string \<Rightarrow> string list" where
  "scan_lines text =
     (let ls = split_byte (CHR 0x0A) text;
          ls' = (if last ls = [] then butlast ls else ls)
      in map drop_cr (takeWhile (\<lambda>l. length l < 65536) ls'))"

section \<open>One line\<close>

record agdguardRuleLine =
  rl_ruleLine :: string
  rl_isRawDomain :: bool
  rl_isExclude :: bool
  rl_isSuffix :: bool
  rl_hasStart :: bool
  rl_hasEnd :: bool
  rl_isRegexp :: bool
  rl_isImportant :: bool

datatype line_outcome = SkippedLine | IgnoredLine | RuleLine agdguardRuleLine

definition parseAdGuardHostLine :: "('dm, 'ag, 'ip) lib \<Rightarrow> adguard_lib \<Rightarrow> string \<Rightarrow> string result" where
  "parseAdGuardHostLine L A ruleLine =
     (case index_byte (CHR '' '') ruleLine of
        None \<Rightarrow> Inl (E_Lib ''invalid argument'')
      | Some idx \<Rightarrow>
          bind_result (ParseAddr L (take idx ruleLine)) (\<lambda>address.
          if \<not> Addr_IsUnspecified address then Inr []
          else let domain = drop (idx + 1) ruleLine in
            if \<not> M_IsDomainName A domain then Inl (E_New [S ''invalid domain name: '', S domain]) else Inr domain))"

text \<open>The separator of a URL as a regular expression writes it: each slash after a backslash.\<close>

definition escaped_slashes :: string where
  "escaped_slashes = [CHR 0x5C, CHR ''/'', CHR 0x5C, CHR ''/'']"

definition ignoreIPCIDRRegexp :: "adguard_lib \<Rightarrow> string \<Rightarrow> bool" where
  "ignoreIPCIDRRegexp A ruleLine0 =
     (let ruleLine = (if HasPrefix ruleLine0 (''(http?:'' @ escaped_slashes @ '')'') then drop 12 ruleLine0
                      else if HasPrefix ruleLine0 (''(https?:'' @ escaped_slashes @ '')'') then drop 13 ruleLine0
                      else if HasPrefix ruleLine0 ''^'' then drop 1 ruleLine0 else ruleLine0)
      in ParseUint (SubstringBefore A ruleLine [CHR 0x5C, CHR ''.'']) 8 \<noteq> None
         \<or> ParseUint (SubstringBefore A ruleLine ''.'') 8 \<noteq> None)"

text \<open>\<open>parseADGuardIPCIDRLine\<close>, of which only the error is used.\<close>

fun parse_rule_parts :: "string list \<Rightarrow> 8 word list result" where
  "parse_rule_parts [] = Inr []"
| "parse_rule_parts (part # parts) =
     (case ParseUint part 8 of
        None \<Rightarrow> Inl (E_Lib ''strconv.ParseUint'')
      | Some rulePart \<Rightarrow> bind_result (parse_rule_parts parts) (\<lambda>ps. Inr (word_of_nat rulePart # ps)))"

definition AddrFrom4 :: "8 word list \<Rightarrow> addr" where
  "AddrFrom4 ps = Addr4 (word_of_nat (foldl (\<lambda>n b. n * 256 + unat b) 0 ps))"

definition parseADGuardIPCIDRLine :: "string \<Rightarrow> Prefix result" where
  "parseADGuardIPCIDRLine ruleLine0 =
     (let isPrefix = HasSuffix ruleLine0 ''.'';
          ruleLine = (if isPrefix then butlast ruleLine0 else ruleLine0);
          ruleStringParts = split_byte (CHR ''.'') ruleLine
      in if length ruleStringParts > 4 \<or> length ruleStringParts < 4 \<and> \<not> isPrefix then Inl (E_Lib ''invalid argument'')
         else bind_result (parse_rule_parts ruleStringParts) (\<lambda>ruleParts.
           Inr \<lparr>pf_Addr = AddrFrom4 (ruleParts @ replicate (4 - length ruleParts) 0), pf_bits = Some (length ruleParts * 8)\<rparr>))"

text \<open>The modifiers after \<open>$\<close>: \<open>None\<close> when one of them is not supported, else whether the rule is important.\<close>

fun parse_params :: "adguard_lib \<Rightarrow> string list \<Rightarrow> bool \<Rightarrow> bool option" where
  "parse_params A [] isImportant = Some isImportant"
| "parse_params A (param # params) isImportant =
     (let paramParts = split_byte (CHR ''='') param in
      if length paramParts > 0 \<and> length paramParts \<le> 2
      then (if hd paramParts = ''important'' then parse_params A params True
            else if hd paramParts = ''dnsrewrite'' \<and> length paramParts = 2
                    \<and> Addr_IsUnspecified (M_ParseAddr A (paramParts ! 1))
            then parse_params A params isImportant
            else None)
      else None)"

definition parse_modifiers :: "adguard_lib \<Rightarrow> string \<Rightarrow> (string \<times> bool) option" where
  "parse_modifiers A ruleLine =
     (if \<not> HasPrefix ruleLine ''/'' \<and> str_Contains ruleLine ''$''
      then map_option (\<lambda>isImportant. (SubstringBefore A ruleLine ''$'', isImportant))
             (parse_params A (split_byte (CHR '','') (SubstringAfter A ruleLine ''$'')) False)
      else Some (ruleLine, False))"

text \<open>What a pattern that is no regular expression must not contain, and that it is a domain name.\<close>

definition domainCheck :: "string \<Rightarrow> string" where
  "domainCheck ruleLine =
     map (\<lambda>c. if c = CHR ''*'' then CHR ''x'' else c)
       (if HasPrefix ruleLine ''.'' \<or> HasPrefix ruleLine ''-'' then ''r'' @ ruleLine else ruleLine)"

definition unsupported_pattern :: "adguard_lib \<Rightarrow> string \<Rightarrow> bool" where
  "unsupported_pattern A ruleLine =
     (if str_Contains ruleLine ''/'' then True
      else if str_Contains ruleLine ''?'' \<or> str_Contains ruleLine ''&'' then True
      else if str_Contains ruleLine ''['' \<or> str_Contains ruleLine '']'' \<or> str_Contains ruleLine ''(''
              \<or> str_Contains ruleLine '')'' \<or> str_Contains ruleLine ''!'' \<or> str_Contains ruleLine ''#'' then True
      else if str_Contains ruleLine ''~'' then True
      else if ruleLine = [] then True
      else \<not> M_IsDomainName A (domainCheck ruleLine))"

definition trim_suffix :: "string \<Rightarrow> string \<Rightarrow> string" where
  "trim_suffix suf s = (if HasSuffix s suf then take (length s - length suf) s else s)"

text \<open>The anchors and the pattern between them. \<open>ruleLine[1:len(ruleLine)-1]\<close> panics on a single slash.\<close>

definition parse_pattern :: "adguard_lib \<Rightarrow> string \<Rightarrow> bool \<Rightarrow> line_outcome result" where
  "parse_pattern A ruleLine0 isImportant =
     (let isExclude = HasPrefix ruleLine0 ''@@'';
          ruleLine1 = (if isExclude then drop 2 ruleLine0 else ruleLine0);
          ruleLine2 = trim_suffix ''|'' ruleLine1;
          isSuffix = HasPrefix ruleLine2 ''||'';
          hasStart = (\<not> isSuffix \<and> HasPrefix ruleLine2 ''|'');
          ruleLine3 = (if isSuffix then drop 2 ruleLine2 else if hasStart then drop 1 ruleLine2 else ruleLine2);
          hasEnd = HasSuffix ruleLine3 ''^'';
          ruleLine4 = trim_suffix ''^'' ruleLine3
      in if HasPrefix ruleLine4 ''/'' \<and> HasSuffix ruleLine4 ''/''
         then (if length ruleLine4 < 2 then Inl (Panic [S ''slice bounds out of range''])
               else let expression = take (length ruleLine4 - 2) (drop 1 ruleLine4) in
                 if ignoreIPCIDRRegexp A expression then Inr IgnoredLine
                 else Inr (RuleLine \<lparr>rl_ruleLine = expression, rl_isRawDomain = False, rl_isExclude = isExclude,
                        rl_isSuffix = isSuffix, rl_hasStart = hasStart, rl_hasEnd = hasEnd, rl_isRegexp = True,
                        rl_isImportant = isImportant\<rparr>))
         else (let isURL = str_Contains ruleLine4 ''://'';
                   ruleLine = (if isURL then SubstringAfter A ruleLine4 ''://'' else ruleLine4)
               in if unsupported_pattern A ruleLine then Inr IgnoredLine
                  else Inr (RuleLine \<lparr>rl_ruleLine = ruleLine, rl_isRawDomain = False, rl_isExclude = isExclude,
                         rl_isSuffix = isSuffix \<or> isURL, rl_hasStart = hasStart, rl_hasEnd = hasEnd, rl_isRegexp = False,
                         rl_isImportant = isImportant\<rparr>)))"

definition rawDomainLine :: "string \<Rightarrow> bool \<Rightarrow> agdguardRuleLine" where
  "rawDomainLine domain anchored = \<lparr>rl_ruleLine = domain, rl_isRawDomain = True, rl_isExclude = False, rl_isSuffix = False,
     rl_hasStart = anchored, rl_hasEnd = anchored, rl_isRegexp = False, rl_isImportant = False\<rparr>"

definition parse_line :: "('dm, 'ag, 'ip) lib \<Rightarrow> adguard_lib \<Rightarrow> string \<Rightarrow> line_outcome result" where
  "parse_line L A ruleLine =
     (if ruleLine = [] then Inr SkippedLine
      else if HasPrefix ruleLine ''!'' \<or> HasPrefix ruleLine ''#'' then Inr SkippedLine
      else if M_IsDomainName A ruleLine then Inr (RuleLine (rawDomainLine ruleLine False))
      else (case parseAdGuardHostLine L A ruleLine of
              Inr hostLine \<Rightarrow> Inr (if hostLine \<noteq> [] then RuleLine (rawDomainLine hostLine True) else SkippedLine)
            | Inl _ \<Rightarrow>
                (case parse_modifiers A (trim_suffix ''|'' ruleLine) of
                   None \<Rightarrow> Inr IgnoredLine
                 | Some (pattern, isImportant) \<Rightarrow> parse_pattern A pattern isImportant)))"

fun parse_lines :: "('dm, 'ag, 'ip) lib \<Rightarrow> adguard_lib \<Rightarrow> string list \<Rightarrow> agdguardRuleLine list result" where
  "parse_lines L A [] = Inr []"
| "parse_lines L A (l # ls) =
     bind_result (parse_line L A l) (\<lambda>o'.
     bind_result (parse_lines L A ls) (\<lambda>rs. Inr (case o' of RuleLine r \<Rightarrow> r # rs | _ \<Rightarrow> rs)))"

section \<open>The rule built from the lines\<close>

definition mapDomain :: "agdguardRuleLine \<Rightarrow> string" where
  "mapDomain it =
     (if rl_isSuffix it then ''||'' @ rl_ruleLine it else if rl_hasStart it then ''|'' @ rl_ruleLine it else rl_ruleLine it)
     @ (if rl_hasEnd it then ''^'' else [])"

text \<open>The lines of one kind (important or not, regular expression or not, exception or not).\<close>

definition kind_of_lines :: "bool \<Rightarrow> bool \<Rightarrow> bool \<Rightarrow> agdguardRuleLine list \<Rightarrow> string list" where
  "kind_of_lines isImportant isRegexp isExclude ruleLines =
     map mapDomain (filter (\<lambda>it. rl_isImportant it = isImportant \<and> rl_isRegexp it = isRegexp
       \<and> rl_isExclude it = isExclude) ruleLines)"

definition filterRule :: "adguard_lib \<Rightarrow> string list \<Rightarrow> string list \<Rightarrow> bool \<Rightarrow> ('dm, 'ag, 'ip) HeadlessRule" where
  "filterRule A domain domainRegex neg =
     HeadlessRule RuleTypeDefault (zeroDefaultHeadlessRule\<lparr>hr_AdGuardDomain := common_Map A domain,
       hr_DomainRegex := common_Map A domainRegex, hr_Invert := neg\<rparr>) [] [] False"

definition logicalFilter :: "string \<Rightarrow> ('dm, 'ag, 'ip) HeadlessRule list \<Rightarrow> ('dm, 'ag, 'ip) HeadlessRule" where
  "logicalFilter md rules = HeadlessRule RuleTypeLogical zeroDefaultHeadlessRule md rules False"

definition wrap_filter ::
  "adguard_lib \<Rightarrow> string \<Rightarrow> bool \<Rightarrow> string list \<Rightarrow> string list \<Rightarrow> ('dm, 'ag, 'ip) HeadlessRule \<Rightarrow> ('dm, 'ag, 'ip) HeadlessRule"
  where
  "wrap_filter A md neg domain domainRegex currentRule =
     (if length domain > 0 \<or> length domainRegex > 0
      then logicalFilter md [filterRule A domain domainRegex neg, currentRule] else currentRule)"

definition build_filter :: "adguard_lib \<Rightarrow> agdguardRuleLine list \<Rightarrow> ('dm, 'ag, 'ip) HeadlessRule" where
  "build_filter A ruleLines =
     (let kind = (\<lambda>isImportant isRegexp isExclude. kind_of_lines isImportant isRegexp isExclude ruleLines);
          plain = filterRule A (kind False False False) (kind False True False) False;
          excluded = wrap_filter A LogicalTypeAnd True (kind False False True) (kind False True True) plain;
          important = wrap_filter A LogicalTypeOr False (kind True False False) (kind True True False) excluded
      in wrap_filter A LogicalTypeAnd True (kind True False True) (kind True True True) important)"

definition ToOptions ::
  "('dm, 'ag, 'ip) lib \<Rightarrow> adguard_lib \<Rightarrow> string \<Rightarrow> ('dm, 'ag, 'ip) HeadlessRule list result" where
  "ToOptions L A text =
     bind_result (parse_lines L A (scan_lines text)) (\<lambda>ruleLines.
     if length ruleLines = 0 then Inl (E_New [S ''AdGuard rule-set is empty or all rules are unsupported''])
     else if list_all rl_isRawDomain ruleLines
     then Inr [HeadlessRule RuleTypeDefault
       (zeroDefaultHeadlessRule\<lparr>hr_Domain := common_Map A (map rl_ruleLine ruleLines)\<rparr>) [] [] False]
     else Inr [build_filter A ruleLines])"

section \<open>Back to text\<close>

definition ErrInvalid :: error where "ErrInvalid = E_New [S ''invalid binary AdGuard rule-set'']"

record filter_parts =
  fp_importantDomain :: "string list"
  fp_importantDomainRegex :: "string list"
  fp_importantExcludeDomain :: "string list"
  fp_importantExcludeDomainRegex :: "string list"
  fp_domain :: "string list"
  fp_domainRegex :: "string list"
  fp_excludeDomain :: "string list"
  fp_excludeDomainRegex :: "string list"

definition no_parts :: filter_parts where
  "no_parts = \<lparr>fp_importantDomain = [], fp_importantDomainRegex = [], fp_importantExcludeDomain = [],
     fp_importantExcludeDomainRegex = [], fp_domain = [], fp_domainRegex = [], fp_excludeDomain = [],
     fp_excludeDomainRegex = []\<rparr>"

text \<open>One logical level: what its first sub-rule holds.\<close>

definition read_level ::
  "string \<Rightarrow> ('dm, 'ag, 'ip) DefaultHeadlessRule \<Rightarrow> filter_parts \<Rightarrow> filter_parts result" where
  "read_level md d p =
     (let domain = elems (hr_AdGuardDomain d); regex = elems (hr_DomainRegex d) in
      if md = LogicalTypeAnd \<and> hr_Invert d
      then (if length (fp_importantExcludeDomain p) = 0 \<and> length (fp_importantExcludeDomainRegex p) = 0
            then (if length domain + length regex = 0 then Inl ErrInvalid
                  else Inr (p\<lparr>fp_importantExcludeDomain := domain, fp_importantExcludeDomainRegex := regex\<rparr>))
            else (if length domain + length regex = 0 then Inl ErrInvalid
                  else Inr (p\<lparr>fp_excludeDomain := domain, fp_excludeDomainRegex := regex\<rparr>)))
      else if md = LogicalTypeOr \<and> \<not> hr_Invert d
      then (if length domain + length regex = 0 then Inl ErrInvalid
            else Inr (p\<lparr>fp_importantDomain := domain, fp_importantDomainRegex := regex\<rparr>))
      else Inl ErrInvalid)"

partial_function (option) read_levels ::
  "('dm, 'ag, 'ip) HeadlessRule \<Rightarrow> filter_parts \<Rightarrow> filter_parts result option" where
  "read_levels rule p =
     (if hl_Type rule = RuleTypeLogical
      then (if \<not> (length (hl_Rules rule) = 2 \<and> hl_Type (hl_Rules rule ! 0) = RuleTypeDefault) then Some (Inl ErrInvalid)
            else (case read_level (hl_Mode rule) (hl_Default (hl_Rules rule ! 0)) p of
                    Inl e \<Rightarrow> Some (Inl e)
                  | Inr p' \<Rightarrow> read_levels (hl_Rules rule ! 1) p'))
      else if hl_Type rule = RuleTypeDefault
      then (let domain = elems (hr_AdGuardDomain (hl_Default rule)); regex = elems (hr_DomainRegex (hl_Default rule)) in
            if length domain + length regex = 0 then Some (Inl ErrInvalid)
            else Some (Inr (p\<lparr>fp_domain := domain, fp_domainRegex := regex\<rparr>)))
      else read_levels rule p)"

definition print_kind :: "string \<Rightarrow> string \<Rightarrow> string list \<Rightarrow> string" where
  "print_kind before after ls = concat (map (\<lambda>ruleLine. before @ ruleLine @ after @ [CHR 0x0A]) ls)"

definition print_parts :: "filter_parts \<Rightarrow> string" where
  "print_parts p =
     print_kind [] ''$important'' (fp_importantDomain p)
     @ print_kind ''/'' ''/$important'' (fp_importantDomainRegex p)
     @ print_kind ''@@'' ''$important'' (fp_importantExcludeDomain p)
     @ print_kind ''@@/'' ''/$important'' (fp_importantExcludeDomainRegex p)
     @ print_kind [] [] (fp_domain p)
     @ print_kind ''/'' ''/'' (fp_domainRegex p)
     @ print_kind ''@@'' [] (fp_excludeDomain p)
     @ print_kind ''@@/'' ''/'' (fp_excludeDomainRegex p)"

definition FromOptions :: "('dm, 'ag, 'ip) HeadlessRule list \<Rightarrow> string result option" where
  "FromOptions rules =
     (if length rules \<noteq> 1 then Some (Inl ErrInvalid)
      else map_option (\<lambda>r. bind_result r (\<lambda>p. Inr (print_parts p))) (read_levels (rules ! 0) no_parts))"

end
