(* ===== verification/Adguard_Properties.thy ===== *)
theory Adguard_Properties
  imports Adguard Samples
begin

text \<open>
  What the conversion of AdGuard lists promises: the rule built from a list decides by the priorities of the
  list (important exceptions, important rules, exceptions, rules), a printed list is read back, and where
  the two directions do not fit together.
\<close>

section \<open>What a filter means\<close>

definition adguard_ok :: "adguard_lib \<Rightarrow> bool" where
  "adguard_ok A \<longleftrightarrow> (\<forall>xs. elems (common_Map A xs) = xs)
     \<and> (\<forall>x a b. x \<notin> set a \<longrightarrow> SubstringBefore A (a @ x # b) [x] = a \<and> SubstringAfter A (a @ x # b) [x] = b)"

text \<open>The matcher of a list of patterns matches what one of them matches.\<close>

definition patterns_ok :: "('dm, 'ag, 'ip) lib \<Rightarrow> bool" where
  "patterns_ok L \<longleftrightarrow> (\<forall>ls d. AdGuardMatcher_Match L (NewAdGuardMatcher L ls) d
     \<longleftrightarrow> (\<exists>l\<in>set ls. AdGuardMatcher_Match L (NewAdGuardMatcher L [l]) d))"

definition pattern_matches :: "('dm, 'ag, 'ip) lib \<Rightarrow> bool \<Rightarrow> string \<Rightarrow> string \<Rightarrow> bool" where
  "pattern_matches L isRegexp l d =
     (if isRegexp then (case Compile L l of Inl _ \<Rightarrow> False | Inr p \<Rightarrow> p d)
      else AdGuardMatcher_Match L (NewAdGuardMatcher L [l]) d)"

definition line_matches :: "('dm, 'ag, 'ip) lib \<Rightarrow> InboundContext \<Rightarrow> agdguardRuleLine \<Rightarrow> bool" where
  "line_matches L c it \<longleftrightarrow> domainHost c \<noteq> [] \<and> pattern_matches L (rl_isRegexp it) (mapDomain it) (ToLower L (domainHost c))"

text \<open>The reference: important exceptions win over important rules, these over exceptions, these over rules.\<close>

definition some_line :: "(agdguardRuleLine \<Rightarrow> bool) \<Rightarrow> bool \<Rightarrow> bool \<Rightarrow> agdguardRuleLine list \<Rightarrow> bool" where
  "some_line m isImportant isExclude ls \<longleftrightarrow>
     (\<exists>it\<in>set ls. rl_isImportant it = isImportant \<and> rl_isExclude it = isExclude \<and> m it)"

definition list_blocks :: "(agdguardRuleLine \<Rightarrow> bool) \<Rightarrow> agdguardRuleLine list \<Rightarrow> bool" where
  "list_blocks m ls \<longleftrightarrow>
     (if some_line m True True ls then False
      else if some_line m True False ls then True
      else if some_line m False True ls then False
      else some_line m False False ls)"

lemma compile_all_Inr:
  "compile_all L i es = Inr ms \<Longrightarrow> list_ex (\<lambda>p. p d) ms \<longleftrightarrow> (\<exists>e\<in>set es. pattern_matches L True e d)"
proof (induction es arbitrary: i ms)
  case (Cons e es)
  then obtain p ms' where "Compile L e = Inr p" "compile_all L (Suc i) es = Inr ms'" "ms = p # ms'"
    by (auto simp: bind_result_Inr_iff split: sum.splits)
  then show ?case using Cons.IH [of "Suc i" ms'] by (simp add: pattern_matches_def)
qed simp

definition kinds_match :: "('dm, 'ag, 'ip) lib \<Rightarrow> string list \<Rightarrow> string list \<Rightarrow> InboundContext \<Rightarrow> bool" where
  "kinds_match L domain regex c \<longleftrightarrow> domainHost c \<noteq> [] \<and>
     ((\<exists>l\<in>set domain. pattern_matches L False l (ToLower L (domainHost c)))
      \<or> (\<exists>e\<in>set regex. pattern_matches L True e (ToLower L (domainHost c))))"

lemma nonempty_Map: "adguard_ok A \<Longrightarrow> nonempty (common_Map A xs) \<longleftrightarrow> xs \<noteq> []"
  by (simp add: adguard_ok_def nonempty_def)

lemma elems_Map: "adguard_ok A \<Longrightarrow> elems (common_Map A xs) = xs"
  by (simp add: adguard_ok_def)

lemma opt_item_False [simp]: "opt_item False g mk = Inr"
  by (simp add: fun_eq_iff opt_item_def)

lemma run_steps_Inr [simp]: "run_steps (Inr # fs) s = run_steps fs s"
  by simp

lemma bind_run_steps: "bind_result r (run_steps (Inr # fs)) = bind_result r (run_steps fs)"
  by (cases r) simp_all

lemma default_filter_built:
  assumes "NewDefaultHeadlessRule L nm (zeroDefaultHeadlessRule\<lparr>hr_AdGuardDomain := common_Map A domain,
       hr_DomainRegex := common_Map A regex, hr_Invert := neg\<rparr>) = Inr r" and "adguard_ok A"
  shows "\<exists>is. r = (empty_rule neg None)\<lparr>destinationAddressItems := is, allItems := is\<rparr>
    \<and> (is = [] \<longleftrightarrow> domain = [] \<and> regex = [])
    \<and> (patterns_ok L \<longrightarrow> any_item (leaf_Match L V) is c = kinds_match L domain regex c)"
proof -
  have steps: "run_steps [
       opt_item (regex \<noteq> []) DestinationAddress (cause ''domain_regex'' (NewDomainRegexItem L regex)),
       opt_item (domain \<noteq> []) DestinationAddress (Inr (NewAdGuardDomainItem L domain))] (empty_rule neg None) = Inr r"
    using assms by (simp add: NewDefaultHeadlessRule_def headless_address_steps_def headless_process_steps_def
        zeroDefaultHeadlessRule_def nonempty_Map elems_Map bind_run_steps split: if_splits)
  let ?ag = "if domain = [] then [] else [NewAdGuardDomainItem L domain]"
  have ag: "any_item (leaf_Match L V) ?ag c \<longleftrightarrow>
      domainHost c \<noteq> [] \<and> (\<exists>l\<in>set domain. pattern_matches L False l (ToLower L (domainHost c)))" if "patterns_ok L"
    using that [unfolded patterns_ok_def, rule_format, of domain "ToLower L (domainHost c)"]
    by (simp add: any_item_def item_simps pattern_matches_def)
  show ?thesis
  proof (cases "regex = []")
    case True
    then have "r = (empty_rule neg None)\<lparr>destinationAddressItems := ?ag, allItems := ?ag\<rparr>"
      using steps by (auto simp: opt_item_def put_item_def empty_rule_def)
    then show ?thesis using True ag by (intro exI [of _ ?ag]) (auto simp: kinds_match_def)
  next
    case False
    then obtain ms where ms: "compile_all L 0 regex = Inr ms"
      using steps by (auto simp: opt_item_Inr bind_result_Inr_iff NewDomainRegexItem_def)
    let ?re = "DomainRegexItem ms (''domain_regex='' @ describe_regex regex)"
    have "r = (empty_rule neg None)\<lparr>destinationAddressItems := ?re # ?ag, allItems := ?re # ?ag\<rparr>"
      using steps False ms by (auto simp: opt_item_def put_item_def empty_rule_def NewDomainRegexItem_def cause_def)
    moreover have "any_item (leaf_Match L V) (?re # ?ag) c \<longleftrightarrow>
        domainHost c \<noteq> [] \<and> (\<exists>e\<in>set regex. pattern_matches L True e (ToLower L (domainHost c)))
        \<or> any_item (leaf_Match L V) ?ag c"
      using compile_all_Inr [OF ms] by (simp add: any_item_def item_simps)
    ultimately show ?thesis using False ag by (intro exI [of _ "?re # ?ag"]) (auto simp: kinds_match_def)
  qed
qed

lemma domainHost_core [simp]: "domainHost (core c) = domainHost c"
  by (simp add: domainHost_def core_def ResetRuleCache_def)

lemma NewHeadlessRule_filterRule:
  assumes "NewHeadlessRule L nm (filterRule A domain regex neg) = Inr hr"
  shows "\<exists>r. hr = DefaultHeadless r \<and> NewDefaultHeadlessRule L nm (zeroDefaultHeadlessRule\<lparr>hr_AdGuardDomain := common_Map A domain,
       hr_DomainRegex := common_Map A regex, hr_Invert := neg\<rparr>) = Inr r"
  using assms by (auto simp: filterRule_def bind_result_Inr_iff)

lemma filterRule_holds:
  assumes "NewHeadlessRule L nm (filterRule A domain regex neg) = Inr hr" and "adguard_ok A" and "patterns_ok L"
  shows "headless_holds L V hr (core c) \<longleftrightarrow> domain = [] \<and> regex = [] \<or> kinds_match L domain regex c \<noteq> neg"
proof -
  obtain r where hr: "hr = DefaultHeadless r" and r: "NewDefaultHeadlessRule L nm (zeroDefaultHeadlessRule\<lparr>hr_AdGuardDomain :=
      common_Map A domain, hr_DomainRegex := common_Map A regex, hr_Invert := neg\<rparr>) = Inr r"
    using NewHeadlessRule_filterRule [OF assms(1)] by blast
  from default_filter_built [OF r assms(2), of V "core c"] assms(3) obtain ms where
    ms: "r = (empty_rule neg None)\<lparr>destinationAddressItems := ms, allItems := ms\<rparr>"
      "ms = [] \<longleftrightarrow> domain = [] \<and> regex = []" "any_item (leaf_Match L V) ms (core c) = kinds_match L domain regex c"
    by (auto simp: kinds_match_def)
  have flags: "\<not> md_DidMatch (core c)" "\<not> md_DestinationAddressMatch (core c)" by (simp_all add: core_def ResetRuleCache_def)
  show ?thesis
    using ms(2,3) flags
    by (cases "ms = []") (auto simp: hr ms(1) rule_holds_def conditions_ok_def flags_after_def groups_did_def empty_rule_def
        active_ipcidr_def any_item_def)
qed

lemma logicalFilter_holds:
  assumes "NewHeadlessRule L nm (logicalFilter md [r1, r2]) = Inr hr" and "md = LogicalTypeAnd \<or> md = LogicalTypeOr"
  shows "\<exists>h1 h2. NewHeadlessRule L nm r1 = Inr h1 \<and> NewHeadlessRule L nm r2 = Inr h2 \<and>
    headless_holds L V hr c = (if md = LogicalTypeAnd then headless_holds L V h1 c \<and> headless_holds L V h2 c
      else headless_holds L V h1 c \<or> headless_holds L V h2 c)"
  using assms by (auto simp: logicalFilter_def parse_mode_def bind_result_Inr_iff split: sum.splits)

text \<open>One level of the filter, whose sub-rule decides when the level is left out.\<close>

lemma wrap_filter_holds:
  assumes "NewHeadlessRule L nm (wrap_filter A md neg domain regex r) = Inr hr" and "adguard_ok A" and "patterns_ok L"
    and "md = LogicalTypeAnd \<and> neg \<or> md = LogicalTypeOr \<and> \<not> neg"
  shows "\<exists>h. NewHeadlessRule L nm r = Inr h \<and> headless_holds L V hr (core c) =
    (if kinds_match L domain regex c then \<not> neg else headless_holds L V h (core c))"
proof (cases "domain = [] \<and> regex = []")
  case True
  then show ?thesis using assms(1) by (auto simp: wrap_filter_def kinds_match_def)
next
  case False
  then have "NewHeadlessRule L nm (logicalFilter md [filterRule A domain regex neg, r]) = Inr hr"
    using assms(1) by (simp add: wrap_filter_def)
  from logicalFilter_holds [OF this, of V "core c"] assms(4) obtain h1 h2 where
    h: "NewHeadlessRule L nm (filterRule A domain regex neg) = Inr h1" "NewHeadlessRule L nm r = Inr h2"
      "headless_holds L V hr (core c) = (if md = LogicalTypeAnd then headless_holds L V h1 (core c) \<and> headless_holds L V h2 (core c)
        else headless_holds L V h1 (core c) \<or> headless_holds L V h2 (core c))" by blast
  have "headless_holds L V h1 (core c) \<longleftrightarrow> kinds_match L domain regex c \<noteq> neg"
    using filterRule_holds [OF h(1) assms(2,3)] False by blast
  then show ?thesis using assms(4) h by (intro exI [of _ h2]) auto
qed

lemma kinds_match_lines:
  "kinds_match L (kind_of_lines imp False exc ls) (kind_of_lines imp True exc ls) c = some_line (line_matches L c) imp exc ls"
proof -
  have some: "(\<exists>l\<in>set (kind_of_lines imp re exc ls). pattern_matches L re l d) \<longleftrightarrow>
      (\<exists>it\<in>set ls. rl_isImportant it = imp \<and> rl_isExclude it = exc \<and> rl_isRegexp it = re \<and> pattern_matches L re (mapDomain it) d)"
    for re d by (auto simp: kind_of_lines_def)
  have line: "line_matches L c it \<longleftrightarrow> domainHost c \<noteq> []
      \<and> (\<not> rl_isRegexp it \<and> pattern_matches L False (mapDomain it) (ToLower L (domainHost c))
         \<or> rl_isRegexp it \<and> pattern_matches L True (mapDomain it) (ToLower L (domainHost c)))" for it
    by (cases "rl_isRegexp it") (simp_all add: line_matches_def)
  show ?thesis by (auto simp: kinds_match_def some_line_def some line)
qed

definition has_rules :: "agdguardRuleLine list \<Rightarrow> bool" where
  "has_rules ls \<longleftrightarrow> (\<exists>it\<in>set ls. \<not> rl_isImportant it \<and> \<not> rl_isExclude it)"

lemma build_filter_holds:
  assumes "NewHeadlessRule L nm (build_filter A ls) = Inr hr" and "adguard_ok A" and "patterns_ok L"
  shows "headless_holds L V hr (core c) =
    (if some_line (line_matches L c) True True ls then False
     else if some_line (line_matches L c) True False ls then True
     else if some_line (line_matches L c) False True ls then False
     else has_rules ls \<longrightarrow> some_line (line_matches L c) False False ls)"
proof -
  let ?k = "\<lambda>imp re exc. kind_of_lines imp re exc ls" and ?m = "some_line (line_matches L c)"
  let ?plain = "filterRule A (?k False False False) (?k False True False) False :: ('a, 'b, 'c) HeadlessRule"
  let ?excluded = "wrap_filter A LogicalTypeAnd True (?k False False True) (?k False True True) ?plain"
  let ?important = "wrap_filter A LogicalTypeOr False (?k True False False) (?k True True False) ?excluded"
  note wrap = wrap_filter_holds [OF _ assms(2,3), where V = V and c = c]
  have top: "NewHeadlessRule L nm (wrap_filter A LogicalTypeAnd True (?k True False True) (?k True True True) ?important) = Inr hr"
    using assms(1) by (simp add: build_filter_def Let_def)
  obtain h1 where h1: "NewHeadlessRule L nm ?important = Inr h1"
    "headless_holds L V hr (core c) = (if ?m True True ls then \<not> True else headless_holds L V h1 (core c))"
    using wrap [OF top] unfolding kinds_match_lines by blast
  obtain h2 where h2: "NewHeadlessRule L nm ?excluded = Inr h2"
    "headless_holds L V h1 (core c) = (if ?m True False ls then \<not> False else headless_holds L V h2 (core c))"
    using wrap [OF h1(1)] unfolding kinds_match_lines by blast
  obtain h3 where h3: "NewHeadlessRule L nm ?plain = Inr h3"
    "headless_holds L V h2 (core c) = (if ?m False True ls then \<not> True else headless_holds L V h3 (core c))"
    using wrap [OF h2(1)] unfolding kinds_match_lines by blast
  have "?k False False False = [] \<and> ?k False True False = [] \<longleftrightarrow> \<not> has_rules ls"
    by (auto simp: kind_of_lines_def filter_empty_conv has_rules_def)
  then have "headless_holds L V h3 (core c) = (has_rules ls \<longrightarrow> ?m False False ls)"
    using filterRule_holds [OF h3(1) assms(2,3)] by (auto simp: kinds_match_lines)
  then show ?thesis using h1(2) h2(2) h3(2) by simp
qed

text \<open>Building succeeds when the regular expressions of the list compile.\<close>

lemma built_rule_valid: "NewHeadlessRule L nm r = Inr h \<Longrightarrow> HeadlessRule_IsValid r = Inr True"
  by (cases r) (auto simp: LogicalHeadlessRule_IsValid_def split: if_splits)

definition compiles :: "('dm, 'ag, 'ip) lib \<Rightarrow> string list \<Rightarrow> bool" where
  "compiles L es \<longleftrightarrow> (\<forall>e\<in>set es. \<exists>p. Compile L e = Inr p)"

lemma compile_all_ok: "compiles L es \<Longrightarrow> \<exists>ms. compile_all L i es = Inr ms"
proof (induction es arbitrary: i)
  case (Cons e es)
  then obtain p ms where "Compile L e = Inr p" "compile_all L (Suc i) es = Inr ms" by (fastforce simp: compiles_def)
  then show ?case by simp
qed simp

lemma filterRule_built:
  assumes "adguard_ok A" and "compiles L regex" and "domain \<noteq> [] \<or> regex \<noteq> []"
  shows "\<exists>h. NewHeadlessRule L nm (filterRule A domain regex neg) = Inr h"
proof -
  obtain ms where ms: "compile_all L 0 regex = Inr ms" using compile_all_ok [OF assms(2)] by blast
  have "common_Map A domain \<noteq> None \<or> common_Map A regex \<noteq> None"
    using assms(1,3) by (metis elems_Map elems_simps(1))
  then have valid: "DefaultHeadlessRule_IsValid (zeroDefaultHeadlessRule\<lparr>hr_AdGuardDomain := common_Map A domain,
       hr_DomainRegex := common_Map A regex, hr_Invert := neg\<rparr>)"
    by (auto simp: DefaultHeadlessRule_IsValid_def zeroDefaultHeadlessRule_def)
  have "\<exists>r. NewDefaultHeadlessRule L nm (zeroDefaultHeadlessRule\<lparr>hr_AdGuardDomain := common_Map A domain,
       hr_DomainRegex := common_Map A regex, hr_Invert := neg\<rparr>) = Inr r"
    using assms(1) ms by (simp add: NewDefaultHeadlessRule_def headless_address_steps_def headless_process_steps_def
        zeroDefaultHeadlessRule_def nonempty_Map elems_Map bind_run_steps opt_item_def NewDomainRegexItem_def cause_def)
  then show ?thesis using valid by (auto simp: filterRule_def)
qed

lemma wrap_filter_built:
  assumes "adguard_ok A" and "compiles L regex" and "NewHeadlessRule L nm r = Inr h"
    and "md = LogicalTypeAnd \<or> md = LogicalTypeOr"
  shows "\<exists>hr. NewHeadlessRule L nm (wrap_filter A md neg domain regex r) = Inr hr"
proof (cases "domain = [] \<and> regex = []")
  case False
  then obtain h1 where h1: "NewHeadlessRule L nm (filterRule A domain regex neg) = Inr h1"
    using filterRule_built [OF assms(1,2)] by blast
  then show ?thesis
    using False assms(3,4) built_rule_valid [OF h1] built_rule_valid [OF assms(3)]
    by (auto simp: wrap_filter_def logicalFilter_def LogicalHeadlessRule_IsValid_def parse_mode_def)
qed (use assms(3) in \<open>simp add: wrap_filter_def\<close>)

lemma build_filter_built:
  assumes "adguard_ok A" and "\<forall>it\<in>set ls. rl_isRegexp it \<longrightarrow> (\<exists>p. Compile L (mapDomain it) = Inr p)" and "has_rules ls"
  shows "\<exists>hr. NewHeadlessRule L nm (build_filter A ls) = Inr hr"
proof -
  have ok: "compiles L (kind_of_lines imp True exc ls)" for imp exc
    using assms(2) by (auto simp: compiles_def kind_of_lines_def)
  have "kind_of_lines False False False ls \<noteq> [] \<or> kind_of_lines False True False ls \<noteq> []"
    using assms(3) by (auto simp: kind_of_lines_def filter_empty_conv has_rules_def)
  from filterRule_built [OF assms(1) ok this] show ?thesis
    unfolding build_filter_def Let_def using wrap_filter_built [OF assms(1) ok] by metis
qed

section \<open>Lines printed and read back\<close>

text \<open>The line of a pattern, and the patterns whose line is read back as they are.\<close>

definition print_line :: "agdguardRuleLine \<Rightarrow> string" where
  "print_line it = (if rl_isExclude it then ''@@'' else []) @ mapDomain it @ (if rl_isImportant it then ''$important'' else [])"

definition domain_names_ok :: "adguard_lib \<Rightarrow> bool" where
  "domain_names_ok A \<longleftrightarrow> (\<forall>s c. c \<in> set ''|^$@/'' \<longrightarrow> c \<in> set s \<longrightarrow> \<not> M_IsDomainName A s)"

definition plain_char :: "char \<Rightarrow> bool" where
  "plain_char c \<longleftrightarrow> c \<notin> set ''|^$@/?&[]()!#~ '' \<and> c \<noteq> CHR 0x0A \<and> c \<noteq> CHR 0x0D"

definition plain_pattern :: "adguard_lib \<Rightarrow> agdguardRuleLine \<Rightarrow> bool" where
  "plain_pattern A it \<longleftrightarrow> rl_ruleLine it \<noteq> [] \<and> list_all plain_char (rl_ruleLine it) \<and> length (rl_ruleLine it) < 60000
     \<and> M_IsDomainName A (domainCheck (rl_ruleLine it)) \<and> \<not> rl_isRawDomain it \<and> \<not> rl_isRegexp it
     \<and> \<not> (rl_isSuffix it \<and> rl_hasStart it)
     \<and> (rl_isExclude it \<or> rl_isSuffix it \<or> rl_hasStart it \<or> rl_hasEnd it \<or> rl_isImportant it
        \<or> \<not> M_IsDomainName A (rl_ruleLine it))"

lemma str_Contains_char: "str_Contains s [c] \<longleftrightarrow> c \<in> set s"
  by (induction s) (auto simp: prefix_def)

lemma plain_supported:
  assumes "list_all plain_char s" and "s \<noteq> []" and "M_IsDomainName A (domainCheck s)"
  shows "\<not> unsupported_pattern A s"
  using assms by (auto simp: unsupported_pattern_def str_Contains_char list_all_iff plain_char_def)

lemma trim_suffix_none: "s \<noteq> [] \<Longrightarrow> last s \<noteq> x \<Longrightarrow> trim_suffix [x] s = s"
  by (auto simp: trim_suffix_def HasSuffix_def suffix_def)

lemma trim_suffix_snoc [simp]: "trim_suffix [x] (s @ [x]) = s"
  by (simp add: trim_suffix_def HasSuffix_def)

lemma HasSuffix_char: "HasSuffix s [x] \<longleftrightarrow> s \<noteq> [] \<and> last s = x"
  by (cases s rule: rev_cases) (auto simp: HasSuffix_def)

text \<open>The anchors of a printed pattern are found again.\<close>

lemma parse_pattern_printed:
  assumes "plain_pattern A it"
  shows "parse_pattern A ((if rl_isExclude it then ''@@'' else []) @ mapDomain it) (rl_isImportant it) = Inr (RuleLine it)"
proof -
  obtain c cs where name: "rl_ruleLine it = c # cs" using assms by (cases "rl_ruleLine it") (auto simp: plain_pattern_def)
  have plain: "plain_char c" "\<forall>x\<in>set cs. plain_char x" using assms by (auto simp: plain_pattern_def name list_all_iff)
  then have last: "plain_char (last (c # cs))" using last_in_set [of "c # cs"] by auto
  have good: "\<not> unsupported_pattern A (c # cs)"
    by (rule plain_supported) (use assms in \<open>auto simp: plain_pattern_def name\<close>)
  have url: "\<not> str_Contains (c # cs) ''://''"
  proof
    assume "str_Contains (c # cs) ''://''"
    then have "set ''://'' \<subseteq> set (c # cs)" unfolding str_Contains_iff by (rule set_mono_sublist)
    then have "CHR ''/'' \<in> set (c # cs)" by simp
    then show False using plain by (auto simp: plain_char_def)
  qed
  define b where "b = mapDomain it"
  have b: "b = (if rl_isSuffix it then ''||'' else if rl_hasStart it then ''|'' else []) @ (c # cs) @ (if rl_hasEnd it then ''^'' else [])"
    by (simp add: b_def mapDomain_def name)
  have body: "trim_suffix ''|'' b = b" "\<not> HasPrefix b ''@@''"
    using plain last by (auto simp: b trim_suffix_none plain_char_def HasPrefix_def)
  let ?start = "if rl_isSuffix it then drop 2 b else if rl_hasStart it then drop 1 b else b"
  have flags: "HasPrefix b ''||'' = rl_isSuffix it" "(\<not> rl_isSuffix it \<and> HasPrefix b ''|'') = rl_hasStart it"
    using plain(1) assms by (auto simp: b HasPrefix_def plain_char_def plain_pattern_def)
  have rest: "?start = c # cs @ (if rl_hasEnd it then ''^'' else [])" by (simp add: b)
  have ne: "last (c # cs) \<noteq> CHR ''^''" using last by (auto simp: plain_char_def)
  have ends: "HasSuffix (c # cs @ (if rl_hasEnd it then ''^'' else [])) ''^'' = rl_hasEnd it"
    "trim_suffix ''^'' (c # cs @ (if rl_hasEnd it then ''^'' else [])) = c # cs"
    using ne trim_suffix_snoc [of "CHR ''^''" "c # cs"] trim_suffix_none [of "c # cs" "CHR ''^''"]
    by (simp_all add: HasSuffix_char split: if_splits)
  have exclude: "HasPrefix (''@@'' @ b) ''@@'' = True" and drop_exclude: "drop 2 (''@@'' @ b) = b" by (simp_all add: HasPrefix_def)
  have it: "it = \<lparr>rl_ruleLine = c # cs, rl_isRawDomain = False, rl_isExclude = rl_isExclude it, rl_isSuffix = rl_isSuffix it,
      rl_hasStart = rl_hasStart it, rl_hasEnd = rl_hasEnd it, rl_isRegexp = False, rl_isImportant = rl_isImportant it\<rparr>"
    using assms name by (cases it) (simp add: plain_pattern_def)
  have "\<not> HasPrefix (c # cs) ''/''" using plain(1) by (auto simp: HasPrefix_def plain_char_def)
  then have "parse_pattern A ((if rl_isExclude it then ''@@'' else []) @ b) (rl_isImportant it) =
      Inr (RuleLine \<lparr>rl_ruleLine = c # cs, rl_isRawDomain = False, rl_isExclude = rl_isExclude it, rl_isSuffix = rl_isSuffix it,
      rl_hasStart = rl_hasStart it, rl_hasEnd = rl_hasEnd it, rl_isRegexp = False, rl_isImportant = rl_isImportant it\<rparr>)"
    unfolding parse_pattern_def Let_def using good url
    by (cases "rl_isExclude it") (simp_all only: exclude body flags rest ends if_True if_False append_Nil drop_exclude simp_thms)
  then show ?thesis using it b_def by metis
qed

text \<open>What the line of a pattern consists of.\<close>

lemma print_line_chars:
  assumes "plain_pattern A it" and "x \<in> set (print_line it)"
  shows "plain_char x \<or> x \<in> set ''@|^$important''"
  using assms by (auto simp: print_line_def mapDomain_def plain_pattern_def list_all_iff split: if_splits)

lemma print_line_last:
  assumes "plain_pattern A it"
  shows "print_line it \<noteq> [] \<and> (plain_char (last (print_line it)) \<or> last (print_line it) = CHR ''^'')"
proof -
  have "rl_ruleLine it \<noteq> []" "plain_char (last (rl_ruleLine it))"
    using assms by (auto simp: plain_pattern_def list_all_iff)
  moreover have "plain_char (CHR ''t'')" by (simp add: plain_char_def)
  ultimately show ?thesis by (simp add: print_line_def mapDomain_def)
qed

lemma print_line_first:
  assumes "plain_pattern A it"
  shows "\<not> HasPrefix (print_line it) ''!'' \<and> \<not> HasPrefix (print_line it) ''#'' \<and> \<not> HasPrefix (print_line it) ''/''"
proof -
  obtain c cs where "rl_ruleLine it = c # cs" "plain_char c"
    using assms by (cases "rl_ruleLine it") (auto simp: plain_pattern_def)
  then show ?thesis by (auto simp: print_line_def mapDomain_def HasPrefix_def plain_char_def)
qed

lemma print_line_no_name:
  assumes "plain_pattern A it" and "domain_names_ok A"
  shows "\<not> M_IsDomainName A (print_line it)"
proof (cases "print_line it = rl_ruleLine it")
  case True
  then show ?thesis using assms(1) by (auto simp: plain_pattern_def print_line_def mapDomain_def split: if_splits)
next
  case False
  then have "CHR ''@'' \<in> set (print_line it) \<or> CHR ''|'' \<in> set (print_line it) \<or> CHR ''^'' \<in> set (print_line it)
      \<or> CHR ''$'' \<in> set (print_line it)"
    by (auto simp: print_line_def mapDomain_def split: if_splits)
  then show ?thesis using assms(2) unfolding domain_names_ok_def by auto
qed

lemma parse_line_printed:
  assumes pat: "plain_pattern A it" and "domain_names_ok A" and "adguard_ok A"
  shows "parse_line L A (print_line it) = Inr (RuleLine it)"
proof -
  let ?l = "print_line it" and ?b = "(if rl_isExclude it then ''@@'' else []) @ mapDomain it"
  note first = print_line_first [OF pat] and last = print_line_last [OF pat]
  have "CHR '' '' \<notin> set ?l" 
    using print_line_chars [OF pat, of "CHR '' ''"] by (auto simp: plain_char_def)
  then have host: "parseAdGuardHostLine L A ?l = Inl (E_Lib ''invalid argument'')"
    by (simp add: parseAdGuardHostLine_def index_byte_None [symmetric])
  have trim: "trim_suffix ''|'' ?l = ?l" 
  proof (rule trim_suffix_none)
    show "last ?l \<noteq> CHR ''|''" using last by (auto simp: plain_char_def)
  qed (use last in blast)
  have dollar: "CHR ''$'' \<notin> set ?b"
    using pat by (auto simp: mapDomain_def plain_pattern_def list_all_iff plain_char_def)
  have "parse_modifiers A ?l = Some (?b, rl_isImportant it)"
  proof (cases "rl_isImportant it")
    case True
    then have l: "?l = ?b @ CHR ''$'' # ''important''" by (simp add: print_line_def)
    have "SubstringBefore A ?l ''$'' = ?b" "SubstringAfter A ?l ''$'' = ''important''"
      using assms(3) dollar unfolding l adguard_ok_def by blast+
    moreover have "str_Contains ?l ''$''" by (simp add: l str_Contains_char)
    ultimately show ?thesis using True first by (simp add: parse_modifiers_def)
  next
    case False
    then show ?thesis using dollar first by (auto simp: print_line_def parse_modifiers_def str_Contains_char)
  qed
  then show ?thesis
    using first last host trim print_line_no_name [OF pat assms(2)] parse_pattern_printed [OF pat]
    by (simp add: parse_line_def)
qed

text \<open>The lines of a printed list.\<close>

definition print_list :: "agdguardRuleLine list \<Rightarrow> string" where
  "print_list ls = concat (map (\<lambda>it. print_line it @ [CHR 0x0A]) ls)"

lemma split_printed:
  assumes "\<forall>l\<in>set ls. x \<notin> set l"
  shows "split_byte x (concat (map (\<lambda>l. l @ [x]) ls)) = ls @ [[]]"
  using assms by (induction ls) (simp_all add: split_byte_sep)

lemma scan_printed:
  assumes "\<forall>it\<in>set ls. plain_pattern A it"
  shows "scan_lines (print_list ls) = map print_line ls"
proof -
  have nl: "CHR 0x0A \<notin> set (print_line it)" if "it \<in> set ls" for it
    using print_line_chars [of A it "CHR 0x0A"] assms that by (auto simp: plain_char_def)
  have cr: "drop_cr (print_line it) = print_line it" if "it \<in> set ls" for it
    using print_line_last [of A it] assms that by (auto simp: drop_cr_def plain_char_def)
  have "length (print_line it) < 65536" if "it \<in> set ls" for it
    using assms that by (auto simp: plain_pattern_def print_line_def mapDomain_def)
  then have short: "takeWhile (\<lambda>l. length l < 65536) (map print_line ls) = map print_line ls"
    by (simp add: takeWhile_eq_all_conv)
  have "split_byte (CHR 0x0A) (print_list ls) = map print_line ls @ [[]]"
    using split_printed [of "map print_line ls" "CHR 0x0A"] nl by (simp add: print_list_def comp_def)
  then have "scan_lines (print_list ls) = map drop_cr (map print_line ls)" by (simp only: scan_lines_def Let_def short) (simp add: short)
  then show ?thesis using cr by simp
qed

lemma parse_printed:
  assumes "\<forall>it\<in>set ls. plain_pattern A it" and "domain_names_ok A" and "adguard_ok A"
  shows "parse_lines L A (scan_lines (print_list ls)) = Inr ls"
  unfolding scan_printed [OF assms(1)] using assms(1)
  by (induction ls) (simp_all add: parse_line_printed [OF _ assms(2,3)])

section \<open>The way back\<close>

definition exclude_level :: "string list \<Rightarrow> string list \<Rightarrow> filter_parts \<Rightarrow> filter_parts" where
  "exclude_level domain regex p =
     (if fp_importantExcludeDomain p = [] \<and> fp_importantExcludeDomainRegex p = []
      then p\<lparr>fp_importantExcludeDomain := domain, fp_importantExcludeDomainRegex := regex\<rparr>
      else p\<lparr>fp_excludeDomain := domain, fp_excludeDomainRegex := regex\<rparr>)"

lemma read_wrapped:
  assumes "adguard_ok A" and "md = LogicalTypeAnd \<and> neg \<or> md = LogicalTypeOr \<and> \<not> neg"
  shows "read_levels (wrap_filter A md neg domain regex r) p =
    (if domain = [] \<and> regex = [] then read_levels r p
     else read_levels r (if neg then exclude_level domain regex p
       else p\<lparr>fp_importantDomain := domain, fp_importantDomainRegex := regex\<rparr>))"
proof (cases "domain = [] \<and> regex = []")
  case False
  let ?f = "filterRule A domain regex neg :: ('a, 'b, 'c) HeadlessRule"
  have f: "hl_Type ?f = RuleTypeDefault" "elems (hr_AdGuardDomain (hl_Default ?f)) = domain"
    "elems (hr_DomainRegex (hl_Default ?f)) = regex" "hr_Invert (hl_Default ?f) = neg"
    by (simp_all add: filterRule_def elems_Map [OF assms(1)])
  have "length domain + length regex \<noteq> 0" using False by auto
  then have level: "read_level md (hl_Default ?f) p = Inr (if neg then exclude_level domain regex p
       else p\<lparr>fp_importantDomain := domain, fp_importantDomainRegex := regex\<rparr>)"
    using assms(2) by (auto simp: read_level_def f Let_def exclude_level_def)
  have "wrap_filter A md neg domain regex r = HeadlessRule RuleTypeLogical zeroDefaultHeadlessRule md [?f, r] False"
    using False by (auto simp: wrap_filter_def logicalFilter_def)
  then show ?thesis
    using False by (subst read_levels.simps) (auto simp: f(1) level)
qed (simp add: wrap_filter_def)

definition parts_of :: "agdguardRuleLine list \<Rightarrow> filter_parts" where
  "parts_of ls = \<lparr>fp_importantDomain = kind_of_lines True False False ls, fp_importantDomainRegex = kind_of_lines True True False ls,
     fp_importantExcludeDomain = kind_of_lines True False True ls, fp_importantExcludeDomainRegex = kind_of_lines True True True ls,
     fp_domain = kind_of_lines False False False ls, fp_domainRegex = kind_of_lines False True False ls,
     fp_excludeDomain = kind_of_lines False False True ls, fp_excludeDomainRegex = kind_of_lines False True True ls\<rparr>"

text \<open>Exceptions of a list without important exceptions are taken for important ones.\<close>

definition promoted :: "filter_parts \<Rightarrow> filter_parts" where
  "promoted p =
     (if fp_importantExcludeDomain p = [] \<and> fp_importantExcludeDomainRegex p = []
      then p\<lparr>fp_importantExcludeDomain := fp_excludeDomain p, fp_importantExcludeDomainRegex := fp_excludeDomainRegex p,
             fp_excludeDomain := [], fp_excludeDomainRegex := []\<rparr>
      else p)"

lemma read_built:
  assumes "adguard_ok A" and "has_rules ls"
  shows "read_levels (build_filter A ls) no_parts = Some (Inr (promoted (parts_of ls)))"
proof -
  let ?k = "\<lambda>imp re exc. kind_of_lines imp re exc ls"
  let ?plain = "filterRule A (?k False False False) (?k False True False) False :: ('a, 'b, 'c) HeadlessRule"
  have "?k False False False \<noteq> [] \<or> ?k False True False \<noteq> []"
    using assms(2) by (auto simp: kind_of_lines_def filter_empty_conv has_rules_def)
  then have plain: "read_levels ?plain p = Some (Inr (p\<lparr>fp_domain := ?k False False False, fp_domainRegex := ?k False True False\<rparr>))"
    for p by (subst read_levels.simps) (auto simp: filterRule_def elems_Map [OF assms(1)])
  show ?thesis
    unfolding build_filter_def Let_def
    by (simp add: read_wrapped [OF assms(1)] plain exclude_level_def no_parts_def parts_of_def promoted_def)
qed

lemma FromOptions_built:
  "adguard_ok A \<Longrightarrow> has_rules ls \<Longrightarrow> FromOptions [build_filter A ls] = Some (Inr (print_parts (promoted (parts_of ls))))"
  by (simp add: FromOptions_def read_built)

text \<open>The printed list, by kinds.\<close>

definition lines_of_kind :: "bool \<Rightarrow> bool \<Rightarrow> agdguardRuleLine list \<Rightarrow> agdguardRuleLine list" where
  "lines_of_kind isImportant isExclude = filter (\<lambda>it. rl_isImportant it = isImportant \<and> rl_isExclude it = isExclude)"

definition by_kind :: "agdguardRuleLine list \<Rightarrow> agdguardRuleLine list" where
  "by_kind ls = lines_of_kind True False ls @ lines_of_kind True True ls @ lines_of_kind False False ls @ lines_of_kind False True ls"

lemma kind_by_kind: "kind_of_lines imp re exc (by_kind ls) = kind_of_lines imp re exc ls"
proof -
  have "filter (\<lambda>it. rl_isImportant it = imp \<and> rl_isRegexp it = re \<and> rl_isExclude it = exc) (lines_of_kind imp' exc' ls) =
      (if imp = imp' \<and> exc = exc' then filter (\<lambda>it. rl_isImportant it = imp \<and> rl_isRegexp it = re \<and> rl_isExclude it = exc) ls else [])"
    for imp' exc' by (auto simp: lines_of_kind_def filter_empty_conv intro!: filter_cong)
  then show ?thesis by (cases imp; cases exc) (simp_all add: kind_of_lines_def by_kind_def)
qed

lemma build_by_kind: "build_filter A (by_kind ls) = build_filter A ls"
  by (simp add: build_filter_def kind_by_kind)

lemma print_list_append [simp]: "print_list (a @ b) = print_list a @ print_list b"
  by (simp add: print_list_def)

lemma print_kind_lines:
  assumes "\<forall>it\<in>set ls. \<not> rl_isRegexp it"
  shows "print_kind (if exc then ''@@'' else []) (if imp then ''$important'' else []) (kind_of_lines imp False exc ls)
      = print_list (lines_of_kind imp exc ls)"
    and "kind_of_lines imp True exc ls = []"
  using assms by (induction ls) (auto simp: print_kind_def kind_of_lines_def print_list_def lines_of_kind_def print_line_def)

lemma print_parts_lines:
  assumes "\<forall>it\<in>set ls. \<not> rl_isRegexp it"
  shows "print_parts (parts_of ls) = print_list (by_kind ls)"
  using print_kind_lines(1) [OF assms, of False True] print_kind_lines(1) [OF assms, of True True]
    print_kind_lines(1) [OF assms, of False False] print_kind_lines(1) [OF assms, of True False]
  by (simp add: print_parts_def parts_of_def by_kind_def print_kind_lines(2) [OF assms]) (simp add: print_kind_def)

lemma ToOptions_printed:
  assumes "\<forall>it\<in>set ls. plain_pattern A it" and "ls \<noteq> []" and "domain_names_ok A" and "adguard_ok A"
  shows "ToOptions L A (print_list ls) = Inr [build_filter A ls]"
proof -
  have "\<not> list_all rl_isRawDomain ls" using assms(1,2) by (cases ls) (auto simp: plain_pattern_def)
  then show ?thesis using assms(2) parse_printed [OF assms(1,3,4), of L] by (simp add: ToOptions_def)
qed

lemma some_line_append [simp]:
  "some_line m imp exc (a @ b) \<longleftrightarrow> some_line m imp exc a \<or> some_line m imp exc b"
  by (auto simp: some_line_def)

lemma some_line_kind [simp]:
  "some_line m imp exc (lines_of_kind imp' exc' ls) \<longleftrightarrow> imp = imp' \<and> exc = exc' \<and> some_line m imp exc ls"
  by (auto simp: some_line_def lines_of_kind_def)

text \<open>The list that is printed for a list without important exceptions.\<close>

definition with_promoted :: "agdguardRuleLine list \<Rightarrow> agdguardRuleLine list" where
  "with_promoted ls = lines_of_kind True False ls
     @ map (\<lambda>it. it\<lparr>rl_isImportant := True\<rparr>) (lines_of_kind False True ls) @ lines_of_kind False False ls"

lemma promoted_line [simp]:
  "mapDomain (it\<lparr>rl_isImportant := x\<rparr>) = mapDomain it" "line_matches L c (it\<lparr>rl_isImportant := x\<rparr>) = line_matches L c it"
  by (simp_all add: mapDomain_def line_matches_def)

lemma print_promoted:
  assumes "\<forall>it\<in>set ls. \<not> rl_isRegexp it" and "lines_of_kind True True ls = []"
  shows "print_parts (promoted (parts_of ls)) = print_list (with_promoted ls)"
proof -
  have none: "kind_of_lines True re True ls = []" for re
    using assms(2) by (auto simp: kind_of_lines_def lines_of_kind_def filter_empty_conv)
  have "print_kind ''@@'' ''$important'' (kind_of_lines False False True ls) =
      print_list (map (\<lambda>it. it\<lparr>rl_isImportant := True\<rparr>) (lines_of_kind False True ls))"
    using assms(1) by (induction ls) (auto simp: print_kind_def kind_of_lines_def print_list_def lines_of_kind_def print_line_def)
  moreover note print_kind_lines(1) [OF assms(1), of False False] print_kind_lines(1) [OF assms(1), of False True]
  ultimately show ?thesis
    by (simp add: print_parts_def promoted_def parts_of_def none with_promoted_def print_kind_lines(2) [OF assms(1)])
      (simp add: print_kind_def)
qed

text \<open>A list of important rules only: the rule for the other lines is empty.\<close>

lemma only_important_filter:
  assumes "\<forall>it\<in>set ls. rl_isImportant it \<and> \<not> rl_isExclude it"
  shows "build_filter A ls = wrap_filter A LogicalTypeOr False (kind_of_lines True False False ls) (kind_of_lines True True False ls)
    (filterRule A [] [] False)"
proof -
  have "kind_of_lines imp re exc ls = []" if "\<not> imp \<or> exc" for imp re exc
    using assms that by (auto simp: kind_of_lines_def filter_empty_conv)
  then show ?thesis by (simp add: build_filter_def wrap_filter_def)
qed

lemma empty_filter_built:
  assumes "adguard_ok A" and "common_Map A [] \<noteq> None"
  shows "\<exists>h. NewHeadlessRule L nm (filterRule A [] [] False) = Inr h"
proof -
  have "DefaultHeadlessRule_IsValid (zeroDefaultHeadlessRule\<lparr>hr_AdGuardDomain := common_Map A [],
       hr_DomainRegex := common_Map A [], hr_Invert := False\<rparr>)"
    using assms(2) by (auto simp: DefaultHeadlessRule_IsValid_def zeroDefaultHeadlessRule_def)
  moreover have "\<exists>r. NewDefaultHeadlessRule L nm (zeroDefaultHeadlessRule\<lparr>hr_AdGuardDomain := common_Map A [],
       hr_DomainRegex := common_Map A [], hr_Invert := False\<rparr>) = Inr r"
    using assms(1) by (simp add: NewDefaultHeadlessRule_def headless_address_steps_def headless_process_steps_def
        zeroDefaultHeadlessRule_def nonempty_Map bind_run_steps)
  ultimately show ?thesis by (auto simp: filterRule_def)
qed

lemma important_compiles:
  "\<forall>it\<in>set ls. rl_isRegexp it \<longrightarrow> (\<exists>p. Compile L (mapDomain it) = Inr p) \<Longrightarrow> compiles L (kind_of_lines imp True exc ls)"
  by (auto simp: compiles_def kind_of_lines_def)

lemma only_important_built:
  assumes "adguard_ok A" and "common_Map A [] \<noteq> None"
    and "\<forall>it\<in>set ls. rl_isImportant it \<and> \<not> rl_isExclude it \<and> \<not> rl_isRawDomain it"
    and "\<forall>it\<in>set ls. rl_isRegexp it \<longrightarrow> (\<exists>p. Compile L (mapDomain it) = Inr p)"
  shows "\<exists>hr. NewHeadlessRule L nm (build_filter A ls) = Inr hr"
proof -
  have "build_filter A ls = wrap_filter A LogicalTypeOr False (kind_of_lines True False False ls)
      (kind_of_lines True True False ls) (filterRule A [] [] False)"
    by (rule only_important_filter) (use assms(3) in blast)
  then show ?thesis
    using empty_filter_built [OF assms(1,2), of L nm] wrap_filter_built [OF assms(1) important_compiles [OF assms(4)]] by metis
qed

lemma only_important_refused:
  assumes "adguard_ok A" and "common_Map A [] = None"
    and "\<forall>it\<in>set ls. rl_isImportant it \<and> \<not> rl_isExclude it \<and> \<not> rl_isRawDomain it" and "ls \<noteq> []"
    and "\<forall>it\<in>set ls. rl_isRegexp it \<longrightarrow> (\<exists>p. Compile L (mapDomain it) = Inr p)"
  shows "NewHeadlessRule L nm (build_filter A ls :: ('a, 'b, 'c) HeadlessRule) = Inl (E_New [S ''missing conditions''])"
proof -
  let ?d = "kind_of_lines True False False ls" and ?x = "kind_of_lines True True False ls"
  have some: "?d \<noteq> [] \<or> ?x \<noteq> []" using assms(3,4) by (cases ls) (auto simp: kind_of_lines_def)
  obtain h where h: "NewHeadlessRule L nm (filterRule A ?d ?x False) = Inr h"
    using filterRule_built [OF assms(1) important_compiles [OF assms(5)] some] by blast
  have "HeadlessRule_IsValid (filterRule A [] [] False :: ('a, 'b, 'c) HeadlessRule) = Inr False"
    by (simp add: filterRule_def DefaultHeadlessRule_IsValid_def assms(2) zeroDefaultHeadlessRule_def)
  moreover have "build_filter A ls = (logicalFilter LogicalTypeOr [filterRule A ?d ?x False, filterRule A [] [] False] ::
      ('a, 'b, 'c) HeadlessRule)"
    using only_important_filter [of ls A] assms(3) some by (auto simp: wrap_filter_def)
  ultimately show ?thesis
    using built_rule_valid [OF h] by (simp add: logicalFilter_def LogicalHeadlessRule_IsValid_def require_valid_def)
qed

section \<open>Properties\<close>

text \<open>
  C26. A filter list with at least one ordinary rule, whose regular expressions compile, is converted to a headless rule that
  decides every connection by the priorities of the list: a matching important exception lets it pass, else a
  matching important rule blocks it, else a matching exception lets it pass, else the rules decide.
\<close>

theorem adguard_list_meaning:
  assumes "adguard_ok A" and "patterns_ok L" and "parse_lines L A (scan_lines text) = Inr ls"
    and "\<not> list_all rl_isRawDomain ls" and "has_rules ls"
    and "\<forall>it\<in>set ls. rl_isRegexp it \<longrightarrow> (\<exists>p. Compile L (mapDomain it) = Inr p)"
  shows "\<exists>r hr. ToOptions L A text = Inr [r] \<and> NewHeadlessRule L nm r = Inr hr
    \<and> (\<forall>c. fst (headless_Match L V hr (ResetRuleCache c)) = list_blocks (line_matches L c) ls)"
proof -
  obtain hr where hr: "NewHeadlessRule L nm (build_filter A ls) = Inr hr" using build_filter_built [OF assms(1,6,5)] by blast
  have "fst (headless_Match L V hr (ResetRuleCache c)) = list_blocks (line_matches L c) ls" for c
    using build_filter_holds [OF hr assms(1,2)] assms(5) by (simp add: headless_Match_holds list_blocks_def)
  moreover have "ToOptions L A text = Inr [build_filter A ls]" using assms(3,4,5) by (auto simp: ToOptions_def has_rules_def)
  ultimately show ?thesis using hr by blast
qed

text \<open>
  C27. A filter list made of patterns is converted and converted back to the same patterns sorted by kind, and converting
  the result again gives the same rule, provided that the list has rules and has no exceptions or has important
  ones too.
\<close>

theorem adguard_roundtrip:
  assumes "adguard_ok A" and "domain_names_ok A" and "\<forall>it\<in>set ls. plain_pattern A it" and "has_rules ls"
    and "lines_of_kind True True ls \<noteq> [] \<or> lines_of_kind False True ls = []"
  shows "\<exists>rules. ToOptions L A (print_list ls) = Inr rules \<and> FromOptions rules = Some (Inr (print_list (by_kind ls)))
    \<and> ToOptions L A (print_list (by_kind ls)) = Inr rules"
proof -
  have regex: "\<forall>it\<in>set ls. \<not> rl_isRegexp it" using assms(3) by (simp add: plain_pattern_def)
  have ne: "ls \<noteq> []" "by_kind ls \<noteq> []" using assms(4) by (auto simp: has_rules_def by_kind_def lines_of_kind_def filter_empty_conv)
  have "set (by_kind ls) \<subseteq> set ls" by (auto simp: by_kind_def lines_of_kind_def)
  then have plain: "\<forall>it\<in>set (by_kind ls). plain_pattern A it" using assms(3) by blast
  have "promoted (parts_of ls) = parts_of ls"
    using assms(5) regex print_kind_lines(2) [OF regex]
    by (auto simp: promoted_def parts_of_def kind_of_lines_def lines_of_kind_def filter_empty_conv)
  then have "FromOptions [build_filter A ls] = Some (Inr (print_list (by_kind ls)))"
    using FromOptions_built [OF assms(1,4)] print_parts_lines [OF regex] by simp
  then show ?thesis
    using ToOptions_printed [OF assms(3) ne(1) assms(2,1), of L] ToOptions_printed [OF plain ne(2) assms(2,1), of L]
    by (simp add: build_by_kind)
qed

text \<open>
  C28. Converting a list back loses the difference between exceptions and important exceptions: from a list of patterns with
  exceptions none of which is important, the printed list is one that no longer blocks the names that an important
  rule blocks although an exception matches them.
\<close>

theorem adguard_exceptions_promoted:
  assumes "adguard_ok A" and "domain_names_ok A" and "\<forall>it\<in>set ls. plain_pattern A it" and "has_rules ls"
    and "lines_of_kind True True ls = []" and "some_line (line_matches L c) True False ls" and "some_line (line_matches L c) False True ls"
  shows "\<exists>rules out ls'. ToOptions L A (print_list ls) = Inr rules \<and> FromOptions rules = Some (Inr out)
    \<and> parse_lines L A (scan_lines out) = Inr ls'
    \<and> list_blocks (line_matches L c) ls \<and> \<not> list_blocks (line_matches L c) ls'"
proof -
  have regex: "\<forall>it\<in>set ls. \<not> rl_isRegexp it" using assms(3) by (simp add: plain_pattern_def)
  have ne: "ls \<noteq> []" using assms(4) by (auto simp: has_rules_def)
  have plain: "\<forall>it\<in>set (with_promoted ls). plain_pattern A it"
    using assms(3) by (auto simp: with_promoted_def lines_of_kind_def plain_pattern_def)
  have "some_line m True True (map (\<lambda>it. it\<lparr>rl_isImportant := True\<rparr>) (lines_of_kind False True ls))"
    if "m = line_matches L c" for m
    using assms(7) that by (auto simp: some_line_def lines_of_kind_def)
  then have "\<not> list_blocks (line_matches L c) (with_promoted ls)" by (simp add: list_blocks_def with_promoted_def)
  moreover have "\<not> some_line (line_matches L c) True True ls"
    using assms(5) by (auto simp: some_line_def lines_of_kind_def filter_empty_conv)
  then have "list_blocks (line_matches L c) ls" using assms(6) by (simp add: list_blocks_def)
  moreover have "FromOptions [build_filter A ls] = Some (Inr (print_list (with_promoted ls)))"
    using FromOptions_built [OF assms(1,4)] print_promoted [OF regex assms(5)] by simp
  ultimately show ?thesis
    using ToOptions_printed [OF assms(3) ne assms(2,1), of L] parse_printed [OF plain assms(2,1), of L] by blast
qed

text \<open>
  C29. A list whose rules are all important does not do what it says: its rule blocks every connection, also those that no line
  matches, where \<open>common.Map\<close> gives an empty slice for no lines, and is refused where it gives nil.
\<close>

theorem adguard_only_important:
  assumes "adguard_ok A" and "patterns_ok L" and "parse_lines L A (scan_lines text) = Inr ls" and "ls \<noteq> []"
    and important: "\<forall>it\<in>set ls. rl_isImportant it \<and> \<not> rl_isExclude it \<and> \<not> rl_isRawDomain it"
    and compile: "\<forall>it\<in>set ls. rl_isRegexp it \<longrightarrow> (\<exists>p. Compile L (mapDomain it) = Inr p)"
  shows "\<exists>r. ToOptions L A text = Inr [r]
    \<and> (if common_Map A [] = None then NewHeadlessRule L nm r = Inl (E_New [S ''missing conditions''])
       else \<exists>hr. NewHeadlessRule L nm r = Inr hr \<and> (\<forall>c. fst (headless_Match L V hr (ResetRuleCache c))))"
proof -
  let ?r = "build_filter A ls :: ('a, 'b, 'c) HeadlessRule"
  have "\<not> list_all rl_isRawDomain ls" using assms(4) important by (cases ls) auto
  then have "ToOptions L A text = Inr [?r]" using assms(3,4) by (simp add: ToOptions_def)
  moreover have "NewHeadlessRule L nm ?r = Inl (E_New [S ''missing conditions''])" if "common_Map A [] = None"
    using only_important_refused [OF assms(1) that important assms(4) compile] .
  moreover have "\<exists>hr. NewHeadlessRule L nm ?r = Inr hr \<and> (\<forall>c. fst (headless_Match L V hr (ResetRuleCache c)))"
    if slice: "common_Map A [] \<noteq> None"
  proof -
    obtain hr where hr: "NewHeadlessRule L nm ?r = Inr hr" using only_important_built [OF assms(1) slice important compile] by blast
    have "\<not> some_line m True True ls" "\<not> some_line m False True ls" "\<not> has_rules ls" for m
      using important by (auto simp: some_line_def has_rules_def)
    then show ?thesis using hr build_filter_holds [OF hr assms(1,2)] by (auto simp: headless_Match_holds)
  qed
  ultimately show ?thesis by auto
qed

section \<open>Corner cases\<close>

text \<open>A single slash, alone or after the marks of an exception or an anchor, makes the conversion panic.\<close>

lemma adguard_slash_panics:
  assumes "domain_names_ok A" and "l \<in> {''/'', ''@@/'', ''||/'', ''|/'', ''@@||/''}"
  shows "parse_line L A l = Inl (Panic [S ''slice bounds out of range''])"
proof -
  have "CHR ''/'' \<in> set l" using assms(2) by auto
  then have "\<not> M_IsDomainName A l" using assms(1) by (simp add: domain_names_ok_def)
  then show ?thesis
    using assms(2) by (auto simp: parse_line_def parseAdGuardHostLine_def parse_modifiers_def parse_pattern_def trim_suffix_def
        HasPrefix_def HasSuffix_def suffix_def str_Contains_char Let_def)
qed

text \<open>An important regular expression is printed as a line that is ignored when it is read.\<close>

lemma adguard_important_regex_ignored:
  assumes "domain_names_ok A" and "CHR '':'' \<notin> set e" and "CHR '' '' \<notin> set e"
  shows "parse_line L A (''/'' @ e @ ''/$important'') = Inr IgnoredLine"
proof -
  let ?l = "''/'' @ e @ ''/$important''"
  have "\<not> M_IsDomainName A ?l" using assms(1) by (simp add: domain_names_ok_def)
  moreover have "index_byte (CHR '' '') ?l = None" using assms(3) by (simp add: index_byte_None)
  moreover have "trim_suffix [x] ?l = ?l" if "x \<noteq> CHR ''t''" for x using that by (intro trim_suffix_none) simp_all
  moreover have "\<not> str_Contains ?l ''://''"
    unfolding str_Contains_iff using assms(2) set_mono_sublist [of "''://''" ?l] by auto
  ultimately show ?thesis
    by (simp add: parse_line_def parseAdGuardHostLine_def parse_modifiers_def parse_pattern_def HasPrefix_def HasSuffix_char
        unsupported_pattern_def str_Contains_char Let_def)
qed

text \<open>A list of names only is converted to a rule that cannot be converted back.\<close>

lemma adguard_names_one_way:
  "FromOptions [HeadlessRule RuleTypeDefault (zeroDefaultHeadlessRule\<lparr>hr_Domain := names\<rparr>) [] [] False] = Some (Inl ErrInvalid)"
  by (subst FromOptions_def, subst read_levels.simps) (simp add: zeroDefaultHeadlessRule_def)

text \<open>On a rule of another type \<open>FromOptions\<close> never returns.\<close>

lemma adguard_unknown_type_stuck:
  assumes "hl_Type r \<noteq> RuleTypeLogical" and "hl_Type r \<noteq> RuleTypeDefault"
  shows "FromOptions [r] = None"
proof -
  have "read_levels r p = None" for p
  proof (rule ccontr)
    assume "read_levels r p \<noteq> None"
    then obtain x where ret: "read_levels r p = Some x" by blast
    have "r \<noteq> r"
    proof (rule read_levels.raw_induct [where P = "\<lambda>r' _ _. r' \<noteq> r", OF _ ret])
      fix loop :: "('a, 'b, 'c) HeadlessRule \<Rightarrow> filter_parts \<Rightarrow> filter_parts result option" and r' p' x'
      assume "\<And>rule p x. loop rule p = Some x \<Longrightarrow> rule \<noteq> r"
        and "(if hl_Type r' = RuleTypeLogical
          then (if \<not> (length (hl_Rules r') = 2 \<and> hl_Type (hl_Rules r' ! 0) = RuleTypeDefault) then Some (Inl ErrInvalid)
                else (case read_level (hl_Mode r') (hl_Default (hl_Rules r' ! 0)) p' of
                        Inl e \<Rightarrow> Some (Inl e)
                      | Inr p'' \<Rightarrow> loop (hl_Rules r' ! 1) p''))
          else if hl_Type r' = RuleTypeDefault
          then (let domain = elems (hr_AdGuardDomain (hl_Default r')); regex = elems (hr_DomainRegex (hl_Default r')) in
                if length domain + length regex = 0 then Some (Inl ErrInvalid)
                else Some (Inr (p'\<lparr>fp_domain := domain, fp_domainRegex := regex\<rparr>)))
          else loop r' p') = Some x'"
      then show "r' \<noteq> r" using assms by (auto split: if_splits)
    qed
    then show False by simp
  qed
  then show ?thesis by (simp add: FromOptions_def)
qed

section \<open>Samples and witnesses\<close>

definition sample_adguard :: adguard_lib where
  "sample_adguard = \<lparr>M_IsDomainName = (\<lambda>s. s \<noteq> [] \<and> list_all (\<lambda>c. c \<notin> set ''|^$@/ *'') s), M_ParseAddr = (\<lambda>_. AddrInvalid),
     SubstringAfter = (\<lambda>s sep. tl (dropWhile (\<lambda>c. c \<noteq> hd sep) s)), SubstringBefore = (\<lambda>s sep. takeWhile (\<lambda>c. c \<noteq> hd sep) s),
     common_Map = Some\<rparr>"

text \<open>Patterns that match the name between their anchors.\<close>

definition anchor_lib :: sample_lib where
  "anchor_lib = sample_lib\<lparr>AdGuardMatcher_Match := \<lambda>ls d. \<exists>l\<in>set ls. filter (\<lambda>c. c \<notin> set ''|^'') l = d\<rparr>"

definition suffix_line :: "bool \<Rightarrow> bool \<Rightarrow> string \<Rightarrow> agdguardRuleLine" where
  "suffix_line isImportant isExclude name = \<lparr>rl_ruleLine = name, rl_isRawDomain = False, rl_isExclude = isExclude, rl_isSuffix = True,
     rl_hasStart = False, rl_hasEnd = True, rl_isRegexp = False, rl_isImportant = isImportant\<rparr>"

definition sample_filter :: "agdguardRuleLine list" where
  "sample_filter = [suffix_line True False ''a.org'', suffix_line False True ''a.org'', suffix_line False False ''b.org'']"

lemma sample_adguard_ok: "adguard_ok sample_adguard" "domain_names_ok sample_adguard"
proof -
  show "adguard_ok sample_adguard"
    by (auto simp: adguard_ok_def sample_adguard_def takeWhile_append dropWhile_append takeWhile_eq_all_conv dropWhile_eq_Nil_conv)
  show "domain_names_ok sample_adguard" by (auto simp: domain_names_ok_def sample_adguard_def list_all_iff)
qed

lemma anchor_lib_ok: "patterns_ok anchor_lib"
  by (simp add: patterns_ok_def anchor_lib_def sample_lib_def)

lemma sample_patterns: "plain_pattern sample_adguard (suffix_line imp exc ''a.org'')" "plain_pattern sample_adguard (suffix_line imp exc ''b.org'')"
  by (simp_all add: plain_pattern_def suffix_line_def plain_char_def sample_adguard_def domainCheck_def HasPrefix_def)

lemma sample_filter_plain: "\<forall>it\<in>set sample_filter. plain_pattern sample_adguard it"
  by (simp add: sample_filter_def sample_patterns)

theorem adguard_list_meaning_witness:
  "\<exists>r hr. ToOptions anchor_lib sample_adguard (print_list sample_filter) = Inr [r] \<and> NewHeadlessRule anchor_lib True r = Inr hr
    \<and> fst (headless_Match anchor_lib sample_env hr (ResetRuleCache (conn ''a.org'' 80)))"
proof -
  have "list_blocks (line_matches anchor_lib (conn ''a.org'' 80)) sample_filter"
    by (simp add: list_blocks_def some_line_def sample_filter_def suffix_line_def line_matches_def pattern_matches_def mapDomain_def
        anchor_lib_def sample_lib_def conn_def domainHost_def zeroInboundContext_def)
  moreover have "\<exists>r hr. ToOptions anchor_lib sample_adguard (print_list sample_filter) = Inr [r] \<and> NewHeadlessRule anchor_lib True r = Inr hr
      \<and> (\<forall>c. fst (headless_Match anchor_lib sample_env hr (ResetRuleCache c)) = list_blocks (line_matches anchor_lib c) sample_filter)"
    by (rule adguard_list_meaning [OF sample_adguard_ok(1) anchor_lib_ok parse_printed [OF sample_filter_plain sample_adguard_ok(2,1)]])
      (simp_all add: sample_filter_def suffix_line_def has_rules_def)
  ultimately show ?thesis by blast
qed

theorem adguard_roundtrip_witness:
  "\<exists>rules. ToOptions anchor_lib sample_adguard (print_list [suffix_line False False ''b.org'', suffix_line True False ''a.org'']) = Inr rules
    \<and> FromOptions rules = Some (Inr (''||a.org^$important'' @ [CHR 0x0A] @ ''||b.org^'' @ [CHR 0x0A]))"
  using adguard_roundtrip [OF sample_adguard_ok, of "[suffix_line False False ''b.org'', suffix_line True False ''a.org'']" anchor_lib]
  by (auto simp: sample_patterns [unfolded suffix_line_def] has_rules_def lines_of_kind_def by_kind_def print_list_def print_line_def mapDomain_def suffix_line_def)

theorem adguard_exceptions_promoted_witness:
  "\<exists>rules out ls'. ToOptions anchor_lib sample_adguard (print_list sample_filter) = Inr rules \<and> FromOptions rules = Some (Inr out)
    \<and> parse_lines anchor_lib sample_adguard (scan_lines out) = Inr ls'
    \<and> \<not> list_blocks (line_matches anchor_lib (conn ''a.org'' 80)) ls'"
proof -
  have "some_line (line_matches anchor_lib (conn ''a.org'' 80)) imp (\<not> imp) sample_filter" for imp
    by (cases imp) (simp_all add: some_line_def sample_filter_def suffix_line_def line_matches_def pattern_matches_def mapDomain_def
        anchor_lib_def sample_lib_def conn_def domainHost_def zeroInboundContext_def)
  from adguard_exceptions_promoted [OF sample_adguard_ok sample_filter_plain _ _ this [of True, simplified] this [of False, simplified]]
  show ?thesis by (auto simp: has_rules_def sample_filter_def suffix_line_def lines_of_kind_def)
qed

theorem adguard_only_important_witness:
  "\<exists>r hr. ToOptions anchor_lib sample_adguard (print_list [suffix_line True False ''a.org'']) = Inr [r]
    \<and> NewHeadlessRule anchor_lib True r = Inr hr
    \<and> fst (headless_Match anchor_lib sample_env hr (ResetRuleCache (conn ''unrelated.org'' 80)))"
proof -
  have "\<forall>it\<in>set [suffix_line True False ''a.org'']. plain_pattern sample_adguard it" by (simp add: sample_patterns)
  note parsed = parse_printed [OF this sample_adguard_ok(2,1), of anchor_lib]
  have "common_Map sample_adguard [] \<noteq> None" by (simp add: sample_adguard_def)
  then show ?thesis
    using adguard_only_important [OF sample_adguard_ok(1) anchor_lib_ok parsed, of True sample_env]
    by (auto simp: suffix_line_def)
qed

end
