(* ===== verification/Geosite.thy ===== *)
theory Geosite
  imports Headless_Rules Rule_Actions Binary_IO "HOL-Library.Char_ord" "HOL-Library.List_Lexorder"
begin

text \<open>
  The geosite database (\<open>common/geosite\<close>): the file format with its table of codes, the reader, the rule
  compiled from the items of a code, and the lookup and export commands built on it. Strings are compared
  byte by byte, which is the lexicographic order on characters. Output goes to a buffer in memory.
\<close>

section \<open>Items and what other modules provide\<close>

record Item =
  gi_Type :: "8 word"
  gi_Value :: string

abbreviation RuleTypeDomain :: "8 word" where "RuleTypeDomain \<equiv> 0"
abbreviation RuleTypeDomainSuffix :: "8 word" where "RuleTypeDomainSuffix \<equiv> 1"
abbreviation RuleTypeDomainKeyword :: "8 word" where "RuleTypeDomainKeyword \<equiv> 2"
abbreviation RuleTypeDomainRegex :: "8 word" where "RuleTypeDomainRegex \<equiv> 3"

text \<open>The wire formats of package \<open>varbin\<close>, and the longest slices that \<open>make\<close> can allocate for codes and items.\<close>

record geosite_lib =
  gl_ReadString :: "string reader"
  gl_WriteString :: "string \<Rightarrow> bytes"
  gl_WriteUvarint :: "64 word \<Rightarrow> bytes"
  gl_ReadItems :: "nat \<Rightarrow> Item list reader"
  gl_WriteItem :: "Item \<Rightarrow> bytes"
  gl_max_keys :: nat
  gl_max_items :: nat

section \<open>Writing\<close>

text \<open>The database is a map from codes to items, here an association list; an absent code has no items.\<close>

type_synonym geo_domains = "(string \<times> Item list) list"

definition items_of :: "geo_domains \<Rightarrow> string \<Rightarrow> Item list" where
  "items_of domains code = (case map_of domains code of None \<Rightarrow> [] | Some itemList \<Rightarrow> itemList)"

fun write_content ::
  "geosite_lib \<Rightarrow> geo_domains \<Rightarrow> string list \<Rightarrow> bytes \<Rightarrow> (string \<rightharpoonup> nat) \<Rightarrow> bytes \<times> (string \<rightharpoonup> nat)" where
  "write_content G domains [] content index = (content, index)"
| "write_content G domains (code # keys) content index =
     write_content G domains keys (content @ concat (map (gl_WriteItem G) (items_of domains code)))
       (index(code \<mapsto> length content))"

definition write_entry :: "geosite_lib \<Rightarrow> geo_domains \<Rightarrow> (string \<rightharpoonup> nat) \<Rightarrow> string \<Rightarrow> bytes" where
  "write_entry G domains index code =
     gl_WriteString G code
     @ gl_WriteUvarint G (word_of_nat (case index code of None \<Rightarrow> 0 | Some i \<Rightarrow> i))
     @ gl_WriteUvarint G (word_of_nat (length (items_of domains code)))"

definition geosite_Write :: "geosite_lib \<Rightarrow> geo_domains \<Rightarrow> bytes" where
  "geosite_Write G domains =
     (let keys = sort (map fst domains); (content, index) = write_content G domains keys [] Map.empty
      in [0] @ gl_WriteUvarint G (word_of_nat (length keys)) @ concat (map (write_entry G domains index) keys) @ content)"

section \<open>Reading\<close>

text \<open>The file is its content; the positions and lengths of the table are kept as 64-bit integers.\<close>

record geosite_Reader =
  gr_content :: bytes
  gr_metadataIndex :: nat
  gr_domainIndex :: "string \<rightharpoonup> 64 word"
  gr_domainLength :: "string \<rightharpoonup> 64 word"

fun read_entries ::
  "geosite_lib \<Rightarrow> nat \<Rightarrow> (string \<rightharpoonup> 64 word) \<Rightarrow> (string \<rightharpoonup> 64 word) \<Rightarrow> bytes \<Rightarrow>
   ((string \<rightharpoonup> 64 word) \<times> (string \<rightharpoonup> 64 word) \<times> bytes) result" where
  "read_entries G 0 domainIndex domainLength bs = Inr (domainIndex, domainLength, bs)"
| "read_entries G (Suc n) domainIndex domainLength bs =
     bind_result (gl_ReadString G bs) (\<lambda>(code, bs1).
     bind_result (ReadUvarint bs1) (\<lambda>(codeIndex, bs2).
     bind_result (ReadUvarint bs2) (\<lambda>(codeLength, bs3).
       read_entries G n (domainIndex(code \<mapsto> codeIndex)) (domainLength(code \<mapsto> codeLength)) bs3)))"

definition readMetadata :: "geosite_lib \<Rightarrow> bytes \<Rightarrow> geosite_Reader result" where
  "readMetadata G content =
     bind_result (ReadByte content) (\<lambda>(version, bs1).
     if version \<noteq> 0 then Inl (E_New [S ''unknown version''])
     else bind_result (ReadUvarint bs1) (\<lambda>(entryLength, bs2).
     if unat entryLength > gl_max_keys G then Inl (Panic [S ''makeslice: len out of range''])
     else bind_result (read_entries G (unat entryLength) Map.empty Map.empty bs2) (\<lambda>(domainIndex, domainLength, rest).
       Inr \<lparr>gr_content = content, gr_metadataIndex = length content - length rest,
            gr_domainIndex = domainIndex, gr_domainLength = domainLength\<rparr>)))"

text \<open>The reader and its codes, whose order is that of a range over a map.\<close>

definition geosite_NewReader :: "geosite_lib \<Rightarrow> bytes \<Rightarrow> (geosite_Reader \<times> string set) result" where
  "geosite_NewReader G content = bind_result (readMetadata G content) (\<lambda>r. Inr (r, dom (gr_domainIndex r)))"

definition geosite_Read :: "geosite_lib \<Rightarrow> geosite_Reader \<Rightarrow> string \<Rightarrow> Item list result" where
  "geosite_Read G r code =
     (case gr_domainIndex r code of
        None \<Rightarrow> Inl (E_New [S ''code '', S code, S '' not exists!''])
      | Some index \<Rightarrow>
          (let offset = sint (word_of_nat (gr_metadataIndex r) + index);
               len = sint (case gr_domainLength r code of None \<Rightarrow> 0 | Some l \<Rightarrow> l)
           in if offset < 0 then Inl (E_Lib ''negative position'')
              else if len < 0 \<or> int (gl_max_items G) < len then Inl (Panic [S ''makeslice: len out of range''])
              else bind_result (gl_ReadItems G (nat len) (drop (nat offset) (gr_content r))) (\<lambda>(itemList, _). Inr itemList)))"

section \<open>Rules\<close>

text \<open>The lists of one type; a list without members stays nil.\<close>

definition values_of :: "8 word \<Rightarrow> Item list \<Rightarrow> string list" where
  "values_of ty code = map gi_Value (filter (\<lambda>item. gi_Type item = ty) code)"

definition make_slice :: "'a list \<Rightarrow> 'a slice" where
  "make_slice xs = (if length xs > 0 then Some xs else None)"

definition geosite_Compile :: "Item list \<Rightarrow> DefaultRule" where
  "geosite_Compile code = zeroDefaultRule\<lparr>rule_Raw := zeroRawDefaultRule\<lparr>
     dr_Domain := make_slice (values_of RuleTypeDomain code), dr_DomainSuffix := make_slice (values_of RuleTypeDomainSuffix code),
     dr_DomainKeyword := make_slice (values_of RuleTypeDomainKeyword code), dr_DomainRegex := make_slice (values_of RuleTypeDomainRegex code)\<rparr>\<rparr>"

definition merged :: "(RawDefaultRule \<Rightarrow> string slice) \<Rightarrow> DefaultRule list \<Rightarrow> string slice" where
  "merged field rules = make_slice (concat (map (\<lambda>subRule. elems (field (rule_Raw subRule))) rules))"

definition geosite_Merge :: "DefaultRule list \<Rightarrow> DefaultRule" where
  "geosite_Merge rules = zeroDefaultRule\<lparr>rule_Raw := zeroRawDefaultRule\<lparr>
     dr_Domain := merged dr_Domain rules, dr_DomainSuffix := merged dr_DomainSuffix rules,
     dr_DomainKeyword := merged dr_DomainKeyword rules, dr_DomainRegex := merged dr_DomainRegex rules\<rparr>\<rparr>"

section \<open>The commands\<close>

record searchGeositeMatcher =
  sg_domainMap :: "string \<Rightarrow> bool"
  sg_suffixList :: "string list"
  sg_keywordList :: "string list"
  sg_regexList :: "string list"

definition newSearchGeositeMatcher :: "Item list \<Rightarrow> searchGeositeMatcher" where
  "newSearchGeositeMatcher itemList =
     (let options = rule_Raw (geosite_Compile itemList) in
      \<lparr>sg_domainMap = member_map (elems (dr_Domain options)), sg_suffixList = elems (dr_DomainSuffix options),
       sg_keywordList = elems (dr_DomainKeyword options), sg_regexList = elems (dr_DomainRegex options)\<rparr>)"

text \<open>\<open>Match\<close>: the first condition that holds, in the order of the lists; an expression that does not compile is
  skipped.\<close>

definition regex_found :: "('dm, 'ag, 'ip) lib \<Rightarrow> string \<Rightarrow> string \<Rightarrow> bool" where
  "regex_found L domain regexStr = (case Compile L regexStr of Inl _ \<Rightarrow> False | Inr regex \<Rightarrow> regex domain)"

definition searchGeosite_Match :: "('dm, 'ag, 'ip) lib \<Rightarrow> searchGeositeMatcher \<Rightarrow> string \<Rightarrow> string" where
  "searchGeosite_Match L r domain =
     (if sg_domainMap r domain then ''domain='' @ domain
      else case find (HasSuffix domain) (sg_suffixList r) of
        Some suffix' \<Rightarrow> ''domain_suffix='' @ suffix'
      | None \<Rightarrow>
          (case find (str_Contains domain) (sg_keywordList r) of
             Some keyword \<Rightarrow> ''domain_keyword='' @ keyword
           | None \<Rightarrow>
               (case find (regex_found L domain) (sg_regexList r) of
                  Some regexStr \<Rightarrow> ''domain_regex='' @ regexStr
                | None \<Rightarrow> [])))"

text \<open>\<open>geositeLookup\<close>: what is printed for the codes asked, sorted.\<close>

fun read_codes :: "geosite_lib \<Rightarrow> geosite_Reader \<Rightarrow> string list \<Rightarrow> (string \<times> searchGeositeMatcher) list result" where
  "read_codes G reader [] = Inr []"
| "read_codes G reader (code # codes) =
     bind_result (geosite_Read G reader code) (\<lambda>sourceSet.
     bind_result (read_codes G reader codes) (\<lambda>ms. Inr ((code, newSearchGeositeMatcher sourceSet) # ms)))"

definition lookup_line :: "('dm, 'ag, 'ip) lib \<Rightarrow> string \<Rightarrow> string \<times> searchGeositeMatcher \<Rightarrow> string" where
  "lookup_line L target m =
     (let matchRule = searchGeosite_Match L (snd m) target in
      if matchRule \<noteq> [] then ''Match code ('' @ fst m @ '') '' @ matchRule @ [CHR 0x0A] else [])"

definition geositeLookup ::
  "geosite_lib \<Rightarrow> ('dm, 'ag, 'ip) lib \<Rightarrow> geosite_Reader \<Rightarrow> string list \<Rightarrow> string \<Rightarrow> string \<Rightarrow> string result" where
  "geositeLookup G L reader geositeCodeList source target =
     bind_result (read_codes G reader (if source \<noteq> [] then [source] else geositeCodeList)) (\<lambda>sourceMatcherList.
       Inr (concat (map (lookup_line L target) (sort_key fst sourceMatcherList))))"

text \<open>The rule-set that \<open>geositeExport\<close> encodes.\<close>

definition geositeExport :: "geosite_lib \<Rightarrow> geosite_Reader \<Rightarrow> string \<Rightarrow> ('dm, 'ag, 'ip) PlainRuleSetCompat result" where
  "geositeExport G reader category =
     bind_result (geosite_Read G reader category) (\<lambda>sourceSet.
       let defaultRule = rule_Raw (geosite_Compile sourceSet) in
       Inr \<lparr>rsc_Version = RuleSetVersion2, rsc_Rules = [HeadlessRule RuleTypeDefault (zeroDefaultHeadlessRule\<lparr>
         hr_Domain := dr_Domain defaultRule, hr_DomainSuffix := dr_DomainSuffix defaultRule,
         hr_DomainKeyword := dr_DomainKeyword defaultRule, hr_DomainRegex := dr_DomainRegex defaultRule\<rparr>) [] [] False]\<rparr>)"

end
