(* ===== verification/Geosite_Properties.thy ===== *)
theory Geosite_Properties
  imports Geosite Srs_Samples
begin

text \<open>
  What the geosite database promises: what was written under a code is read back, compiling is compatible with
  merging, and the lookup reports the codes with an item that matches.
\<close>

section \<open>The file\<close>

definition geosite_ok :: "geosite_lib \<Rightarrow> bool" where
  "geosite_ok G \<longleftrightarrow> (\<forall>s rest. gl_ReadString G (gl_WriteString G s @ rest) = Inr (s, rest))
     \<and> (\<forall>n rest. ReadUvarint (gl_WriteUvarint G n @ rest) = Inr (n, rest))
     \<and> (\<forall>its rest. gl_ReadItems G (length its) (concat (map (gl_WriteItem G) its) @ rest) = Inr (its, rest))"

definition block :: "geosite_lib \<Rightarrow> geo_domains \<Rightarrow> string \<Rightarrow> bytes" where
  "block G domains code = concat (map (gl_WriteItem G) (items_of domains code))"

lemma write_content_blocks:
  "fst (write_content G domains keys content index) = content @ concat (map (block G domains) keys)"
  by (induction keys arbitrary: content index) (simp_all add: block_def)

lemma write_content_other:
  "code \<notin> set keys \<Longrightarrow> snd (write_content G domains keys content index) code = index code"
  by (induction keys arbitrary: content index) simp_all

lemma write_content_index:
  assumes "distinct (as @ code # bs)"
  shows "snd (write_content G domains (as @ code # bs) content index) code = Some (length (content @ concat (map (block G domains) as)))"
  using assms
proof (induction as arbitrary: content index)
  case Nil
  then show ?case by (simp add: write_content_other)
next
  case (Cons a as)
  then show ?case by (simp add: block_def)
qed

definition index_or_0 :: "(string \<rightharpoonup> nat) \<Rightarrow> string \<Rightarrow> nat" where
  "index_or_0 index code = (case index code of None \<Rightarrow> 0 | Some i \<Rightarrow> i)"

lemma read_entries_written:
  assumes "geosite_ok G"
  shows "read_entries G (length keys) di dl (concat (map (write_entry G domains index) keys) @ rest) =
    Inr (\<lambda>code. if code \<in> set keys then Some (word_of_nat (index_or_0 index code)) else di code,
         \<lambda>code. if code \<in> set keys then Some (word_of_nat (length (items_of domains code))) else dl code, rest)"
proof (induction keys arbitrary: di dl)
  case (Cons code keys)
  have "read_entries G (length (code # keys)) di dl (concat (map (write_entry G domains index) (code # keys)) @ rest) =
      read_entries G (length keys) (di(code \<mapsto> word_of_nat (index_or_0 index code)))
        (dl(code \<mapsto> word_of_nat (length (items_of domains code)))) (concat (map (write_entry G domains index) keys) @ rest)"
    using assms by (simp add: geosite_ok_def write_entry_def index_or_0_def)
  then show ?case by (simp add: Cons.IH fun_eq_iff)
qed simp

lemma sint_of_position: "n < 2 ^ 63 \<Longrightarrow> sint (word_of_nat n :: 64 word) = int n"
  by (simp add: signed_of_nat signed_take_bit_int_eq_self)

lemma sort_keys:
  "distinct (map fst domains) \<Longrightarrow> distinct (sort (map fst domains))" "set (sort (map fst domains)) = fst ` set domains"
  "length (sort (map fst domains)) = length domains"
  by simp_all

text \<open>The table of a written file, and where the items of a code are.\<close>

lemma written_file:
  fixes domains :: geo_domains
  defines "keys \<equiv> sort (map fst domains)"
  assumes "geosite_ok G" and "distinct (map fst domains)" and "length domains \<le> gl_max_keys G" and "length domains < 2 ^ 64"
  obtains r where "readMetadata G (geosite_Write G domains) = Inr r"
    and "gr_content r = geosite_Write G domains" and "gr_metadataIndex r \<le> length (geosite_Write G domains)"
    and "drop (gr_metadataIndex r) (geosite_Write G domains) = concat (map (block G domains) keys)"
    and "gr_domainIndex r = (\<lambda>code. if code \<in> set keys then Some (word_of_nat (index_or_0 (snd (write_content G domains keys [] Map.empty)) code)) else None)"
    and "gr_domainLength r = (\<lambda>code. if code \<in> set keys then Some (word_of_nat (length (items_of domains code))) else None)"
proof -
  obtain content index where wc: "write_content G domains keys [] Map.empty = (content, index)" by fastforce
  then have content: "content = concat (map (block G domains) keys)"
    using write_content_blocks [of G domains keys "[]" Map.empty] by simp
  define table where "table = concat (map (write_entry G domains index) keys)"
  have whole: "geosite_Write G domains = 0 # gl_WriteUvarint G (word_of_nat (length keys)) @ table @ content"
    by (simp add: geosite_Write_def keys_def [symmetric] wc table_def)
  have len: "unat (word_of_nat (length keys) :: 64 word) = length keys"
    using assms(5) by (simp add: keys_def unat_of_nat take_bit_nat_eq_self)
  have count: "ReadUvarint (gl_WriteUvarint G (word_of_nat (length keys)) @ table @ content) = Inr (word_of_nat (length keys), table @ content)"
    using assms(2) by (simp add: geosite_ok_def)
  note entries = read_entries_written [OF assms(2), of keys Map.empty Map.empty domains index content, folded table_def]
  let ?mi = "length (geosite_Write G domains) - length content"
  let ?r = "\<lparr>gr_content = geosite_Write G domains, gr_metadataIndex = ?mi,
      gr_domainIndex = \<lambda>code. if code \<in> set keys then Some (word_of_nat (index_or_0 index code)) else None,
      gr_domainLength = \<lambda>code. if code \<in> set keys then Some (word_of_nat (length (items_of domains code))) else None\<rparr>"
  have "length keys \<le> gl_max_keys G" using assms(4) by (simp add: keys_def)
  then have read: "readMetadata G (geosite_Write G domains) = Inr ?r"
    unfolding readMetadata_def by (simp add: whole count len entries)
  have "drop ?mi (geosite_Write G domains) = content" by (simp add: whole)
  moreover have "snd (write_content G domains keys [] Map.empty) = index" by (simp only: wc snd_conv)
  ultimately show thesis by (intro that [OF read]) (simp_all add: content cong: if_cong)
qed

lemma items_of_map: "map_of domains code = Some its \<Longrightarrow> items_of domains code = its"
  by (simp add: items_of_def)

lemma drop_block:
  assumes "distinct keys" and "code \<in> set keys"
  shows "\<exists>bs. drop (index_or_0 (snd (write_content G domains keys [] Map.empty)) code) (concat (map (block G domains) keys)) =
    block G domains code @ bs \<and> index_or_0 (snd (write_content G domains keys [] Map.empty)) code \<le> length (concat (map (block G domains) keys))"
proof -
  obtain as bs where keys: "keys = as @ code # bs" using assms(2) by (meson split_list)
  then show ?thesis
    using write_content_index [of as code bs G domains "[]" Map.empty] assms(1) by (simp add: index_or_0_def)
qed

text \<open>What a reader of a written file reads.\<close>

lemma written_file_read:
  assumes "geosite_ok G" and "distinct (map fst domains)" and "length domains \<le> gl_max_keys G"
    and "length (geosite_Write G domains) < 2 ^ 63" and "\<forall>(code, its)\<in>set domains. length its \<le> gl_max_items G \<and> length its < 2 ^ 63"
    and "length domains < 2 ^ 64"
  shows "\<exists>r. geosite_NewReader G (geosite_Write G domains) = Inr (r, fst ` set domains)
    \<and> (\<forall>code. geosite_Read G r code = (case map_of domains code of
          None \<Rightarrow> Inl (E_New [S ''code '', S code, S '' not exists!'']) | Some its \<Rightarrow> Inr its))"
proof -
  define keys where "keys = sort (map fst domains)"
  obtain r where r: "readMetadata G (geosite_Write G domains) = Inr r"
    "gr_content r = geosite_Write G domains" "gr_metadataIndex r \<le> length (geosite_Write G domains)"
    "drop (gr_metadataIndex r) (geosite_Write G domains) = concat (map (block G domains) keys)"
    "gr_domainIndex r = (\<lambda>code. if code \<in> set keys then Some (word_of_nat (index_or_0 (snd (write_content G domains keys [] Map.empty)) code)) else None)"
    "gr_domainLength r = (\<lambda>code. if code \<in> set keys then Some (word_of_nat (length (items_of domains code))) else None)"
    using written_file [OF assms(1,2,3,6)] unfolding keys_def by blast
  have "dom (gr_domainIndex r) = fst ` set domains" by (auto simp: r(5) keys_def dom_def)
  moreover have "geosite_Read G r code = (case map_of domains code of
      None \<Rightarrow> Inl (E_New [S ''code '', S code, S '' not exists!'']) | Some its \<Rightarrow> Inr its)" for code
  proof (cases "map_of domains code")
    case None
    then have "code \<notin> set keys" by (simp add: keys_def map_of_eq_None_iff)
    then show ?thesis using None by (simp add: geosite_Read_def r(5))
  next
    case (Some its)
    let ?i = "index_or_0 (snd (write_content G domains keys [] Map.empty)) code"
    have code: "code \<in> set keys" using map_of_SomeD [OF Some] by (force simp: keys_def)
    obtain rest where drop: "drop ?i (concat (map (block G domains) keys)) = block G domains code @ rest"
      and "?i \<le> length (concat (map (block G domains) keys))"
      using drop_block [of keys code G domains] code assms(2) by (auto simp: keys_def)
    then have "gr_metadataIndex r + ?i \<le> length (geosite_Write G domains)"
      using r(3) arg_cong [OF r(4), of length] by simp
    then have offset: "sint (word_of_nat (gr_metadataIndex r) + word_of_nat ?i :: 64 word) = int (gr_metadataIndex r + ?i)"
      using sint_of_position [of "gr_metadataIndex r + ?i"] assms(4) by simp
    have its: "items_of domains code = its" "length its \<le> gl_max_items G" "length its < 2 ^ 63"
      using items_of_map [OF Some] map_of_SomeD [OF Some] assms(5) by auto
    have "drop (gr_metadataIndex r + ?i) (geosite_Write G domains) = block G domains code @ rest"
      using drop r(4) by (metis add.commute drop_drop)
    moreover have "gl_ReadItems G (length its) (block G domains code @ rest) = Inr (its, rest)"
      using assms(1) its(1) by (simp add: geosite_ok_def block_def)
    ultimately show ?thesis
      using Some code offset its sint_of_position [OF its(3)]
      by (simp add: geosite_Read_def r(2,5,6) nat_add_distrib)
  qed
  ultimately show ?thesis using r(1) by (auto simp: geosite_NewReader_def)
qed

section \<open>Rules and lookups\<close>

lemma elems_make_slice [simp]: "elems (make_slice xs) = xs"
  by (simp add: make_slice_def)

lemma values_of_concat: "values_of ty (concat codes) = concat (map (values_of ty) codes)"
  by (induction codes) (simp_all add: values_of_def)

text \<open>What it means for an item to match a name in a lookup.\<close>

definition item_found :: "('dm, 'ag, 'ip) lib \<Rightarrow> string \<Rightarrow> Item \<Rightarrow> bool" where
  "item_found L domain item =
     (if gi_Type item = RuleTypeDomain then domain = gi_Value item
      else if gi_Type item = RuleTypeDomainSuffix then HasSuffix domain (gi_Value item)
      else if gi_Type item = RuleTypeDomainKeyword then str_Contains domain (gi_Value item)
      else gi_Type item = RuleTypeDomainRegex \<and> regex_found L domain (gi_Value item))"

lemma find_not_None: "find P xs \<noteq> None \<longleftrightarrow> (\<exists>x\<in>set xs. P x)"
  by (induction xs) auto

lemma some_value: "(\<exists>v\<in>set (values_of ty its). P v) \<longleftrightarrow> (\<exists>item\<in>set its. gi_Type item = ty \<and> P (gi_Value item))"
  by (auto simp: values_of_def)

lemma search_Match_found:
  "searchGeosite_Match L (newSearchGeositeMatcher its) domain \<noteq> [] \<longleftrightarrow> (\<exists>item\<in>set its. item_found L domain item)"
proof -
  have "searchGeosite_Match L m domain \<noteq> [] \<longleftrightarrow> sg_domainMap m domain \<or> (\<exists>v\<in>set (sg_suffixList m). HasSuffix domain v)
      \<or> (\<exists>v\<in>set (sg_keywordList m). str_Contains domain v) \<or> (\<exists>v\<in>set (sg_regexList m). regex_found L domain v)" for m
    unfolding find_not_None [symmetric] searchGeosite_Match_def by (auto split: option.splits)
  moreover have "domain \<in> set (values_of RuleTypeDomain its) \<longleftrightarrow>
      (\<exists>item\<in>set its. gi_Type item = RuleTypeDomain \<and> domain = gi_Value item)"
    by (auto simp: values_of_def)
  moreover have "item_found L domain item \<longleftrightarrow> gi_Type item = RuleTypeDomain \<and> domain = gi_Value item
      \<or> gi_Type item = RuleTypeDomainSuffix \<and> HasSuffix domain (gi_Value item)
      \<or> gi_Type item = RuleTypeDomainKeyword \<and> str_Contains domain (gi_Value item)
      \<or> gi_Type item = RuleTypeDomainRegex \<and> regex_found L domain (gi_Value item)" for item
    by (auto simp: item_found_def)
  ultimately show ?thesis
    by (simp add: newSearchGeositeMatcher_def geosite_Compile_def some_value bex_disj_distrib)
qed

lemma read_codes_ok:
  assumes "\<And>code. code \<in> set codes \<Longrightarrow> geosite_Read G r code = Inr (f code)"
  shows "read_codes G r codes = Inr (map (\<lambda>code. (code, newSearchGeositeMatcher (f code))) codes)"
  using assms by (induction codes) simp_all

lemma insort_pairs: "insort_key fst (c, h c) (map (\<lambda>c. (c, h c)) xs) = map (\<lambda>c. (c, h c)) (insort c xs)"
  by (induction xs) simp_all

lemma sort_pairs: "sort_key fst (map (\<lambda>c. (c, h c)) cs) = map (\<lambda>c. (c, h c)) (sort (cs :: string list))"
  by (induction cs) (simp_all add: insort_pairs)

lemma lookup_line_found:
  "lookup_line L target (code, newSearchGeositeMatcher its) =
     (if \<exists>item\<in>set its. item_found L target item
      then ''Match code ('' @ code @ '') '' @ searchGeosite_Match L (newSearchGeositeMatcher its) target @ [CHR 0x0A] else [])"
  using search_Match_found [of L its target] by (auto simp: lookup_line_def Let_def)

text \<open>A suffix matches in the middle of a label too.\<close>

lemma lookup_suffix_in_label:
  "\<lparr>gi_Type = RuleTypeDomainSuffix, gi_Value = suf\<rparr> \<in> set its \<Longrightarrow>
   searchGeosite_Match L (newSearchGeositeMatcher its) (p @ suf) \<noteq> []"
  unfolding search_Match_found by (rule bexI [rotated]) (auto simp: item_found_def HasSuffix_def suffix_def)

lemma concat_map_if: "concat (map (\<lambda>x. if P x then f x else []) xs) = concat (map f (filter P xs))"
  by (induction xs) simp_all

section \<open>Properties\<close>

text \<open>
  C30. A written geosite database is read back: the reader opens it, knows exactly the codes of the database, and reads for
  each of them its items, in any order of reads; other codes are refused.
\<close>

theorem geosite_roundtrip:
  assumes "geosite_ok G" and "distinct (map fst domains)" and "length domains \<le> gl_max_keys G"
    and "length (geosite_Write G domains) < 2 ^ 63" and "\<forall>(code, its)\<in>set domains. length its \<le> gl_max_items G \<and> length its < 2 ^ 63"
    and "length domains < 2 ^ 64"
  shows "\<exists>r. geosite_NewReader G (geosite_Write G domains) = Inr (r, fst ` set domains)
    \<and> (\<forall>code. geosite_Read G r code = (case map_of domains code of
          None \<Rightarrow> Inl (E_New [S ''code '', S code, S '' not exists!'']) | Some its \<Rightarrow> Inr its))"
  by (rule written_file_read [OF assms])

text \<open>
  Looking a name up in a written database reports, sorted by code and whatever the order in which the codes were listed,
  exactly the codes that have an item that matches the name, each with the condition that matched.
\<close>

theorem geosite_lookup_exact:
  assumes "geosite_ok G" and "distinct (map fst domains)" and "length domains \<le> gl_max_keys G"
    and "length (geosite_Write G domains) < 2 ^ 63" and "\<forall>(code, its)\<in>set domains. length its \<le> gl_max_items G \<and> length its < 2 ^ 63"
    and "length domains < 2 ^ 64"
  shows "\<exists>r. geosite_NewReader G (geosite_Write G domains) = Inr (r, fst ` set domains) \<and>
    (\<forall>cs. distinct cs \<and> set cs = fst ` set domains \<longrightarrow> geositeLookup G L r cs [] target =
      Inr (concat (map (\<lambda>code. ''Match code ('' @ code @ '') '' @
          searchGeosite_Match L (newSearchGeositeMatcher (items_of domains code)) target @ [CHR 0x0A])
        (filter (\<lambda>code. \<exists>item\<in>set (items_of domains code). item_found L target item) (sort (map fst domains))))))"
proof -
  obtain r where r: "geosite_NewReader G (geosite_Write G domains) = Inr (r, fst ` set domains)"
    "\<And>code. geosite_Read G r code = (case map_of domains code of
      None \<Rightarrow> Inl (E_New [S ''code '', S code, S '' not exists!'']) | Some its \<Rightarrow> Inr its)"
    using written_file_read [OF assms] by blast
  have "geositeLookup G L r cs [] target = Inr (concat (map (\<lambda>code. ''Match code ('' @ code @ '') '' @
          searchGeosite_Match L (newSearchGeositeMatcher (items_of domains code)) target @ [CHR 0x0A])
        (filter (\<lambda>code. \<exists>item\<in>set (items_of domains code). item_found L target item) (sort (map fst domains)))))"
    if "distinct cs" "set cs = fst ` set domains" for cs
  proof -
    have "geosite_Read G r code = Inr (items_of domains code)" if mem: "code \<in> set cs" for code
    proof -
      obtain its where "map_of domains code = Some its"
        using mem \<open>set cs = fst ` set domains\<close> map_of_eq_None_iff [of domains code] by auto
      then show ?thesis by (simp add: r(2) items_of_def)
    qed
    note read = read_codes_ok [of cs G r "items_of domains", OF this]
    have "sort cs = sort (map fst domains)"
      by (rule sorted_distinct_set_unique) (use that assms(2) in simp_all)
    then have "geositeLookup G L r cs [] target =
        Inr (concat (map (\<lambda>code. lookup_line L target (code, newSearchGeositeMatcher (items_of domains code))) (sort (map fst domains))))"
      by (simp add: geositeLookup_def read sort_pairs comp_def)
    then show ?thesis unfolding lookup_line_found concat_map_if .
  qed
  then show ?thesis using r(1) by blast
qed

text \<open>
  Compiling and merging commute: merging the rules compiled from several codes is the rule compiled from all their items.
\<close>

theorem geosite_merge_compile: "geosite_Merge (map geosite_Compile codes) = geosite_Compile (concat codes)"
  by (simp add: geosite_Merge_def geosite_Compile_def merged_def comp_def values_of_concat)

section \<open>Samples and witnesses\<close>

definition read_geo_item :: "Item reader" where
  "read_geo_item = read_into (dec_many []) (\<lambda>xs. \<lparr>gi_Type = hd (hd xs), gi_Value = bytes_str (hd (tl xs))\<rparr>)"

definition write_geo_item :: "Item \<Rightarrow> bytes" where
  "write_geo_item item = enc_many [[gi_Type item], str_bytes (gi_Value item)]"

interpretation geo_item: codec read_geo_item "\<lambda>item. Inr (write_geo_item item)" id "\<lambda>_. True"
  by unfold_locales (auto simp: read_geo_item_def write_geo_item_def read_into_def dec_many_enc_many)

definition sample_geosite :: geosite_lib where
  "sample_geosite = \<lparr>gl_ReadString = read_into dec_strings hd, gl_WriteString = (\<lambda>s. enc_strings [s]),
     gl_WriteUvarint = (\<lambda>n. PutUvarint (unat n)), gl_ReadItems = read_n read_geo_item, gl_WriteItem = write_geo_item,
     gl_max_keys = 1000, gl_max_items = 1000\<rparr>"

lemma sample_geosite_ok: "geosite_ok sample_geosite"
  using geo_item.read_n_written
  by (auto simp: geosite_ok_def sample_geosite_def read_into_def codec list_all_iff)

definition geo_sample :: geo_domains where
  "geo_sample = [(''b'', [\<lparr>gi_Type = RuleTypeDomainKeyword, gi_Value = ''ads''\<rparr>]),
     (''a'', [\<lparr>gi_Type = RuleTypeDomain, gi_Value = ''x.org''\<rparr>])]"

lemma sort_sample: "sort (map fst geo_sample) = [''a'', ''b'']"
  by (simp add: geo_sample_def)

lemma items_sample:
  "items_of geo_sample ''a'' = [\<lparr>gi_Type = RuleTypeDomain, gi_Value = ''x.org''\<rparr>]"
  "items_of geo_sample ''b'' = [\<lparr>gi_Type = RuleTypeDomainKeyword, gi_Value = ''ads''\<rparr>]"
  by (simp_all add: items_of_def geo_sample_def)

lemma sample_geosite_max: "gl_max_keys sample_geosite = 1000" "gl_max_items sample_geosite = 1000"
  by (simp_all add: sample_geosite_def)

lemma length_PutUvarint: "length (PutUvarint n) \<le> Suc n"
proof (induction n rule: PutUvarint.induct)
  case (1 n)
  then show ?case by (subst PutUvarint.simps) fastforce
qed

lemma length_uvarint: "length (gl_WriteUvarint sample_geosite (word_of_nat n)) \<le> Suc n"
proof -
  have "unat (word_of_nat n :: 64 word) \<le> n" by (simp add: unat_of_nat)
  then show ?thesis using length_PutUvarint [of "unat (word_of_nat n :: 64 word)"] by (simp add: sample_geosite_def)
qed

lemma length_item: "length (gl_WriteItem sample_geosite item) = 2 * length (gi_Value item) + 5"
  and length_string: "length (gl_WriteString sample_geosite s) = 2 * length s + 2"
proof -
  have one: "length (enc_one x) = Suc (2 * length x)" for x by (induction x) (simp_all add: enc_one_def)
  show "length (gl_WriteItem sample_geosite item) = 2 * length (gi_Value item) + 5"
    by (simp add: sample_geosite_def write_geo_item_def enc_many_def one)
  show "length (gl_WriteString sample_geosite s) = 2 * length s + 2"
    by (simp add: sample_geosite_def enc_strings_def enc_many_def one)
qed

lemma geo_sample_conditions:
  "distinct (map fst geo_sample)" "length geo_sample \<le> gl_max_keys sample_geosite"
  "length (geosite_Write sample_geosite geo_sample) < 2 ^ 63"
  "\<forall>(code, its)\<in>set geo_sample. length its \<le> gl_max_items sample_geosite \<and> length its < 2 ^ 63" "length geo_sample < 2 ^ 64"
proof -
  show "length (geosite_Write sample_geosite geo_sample) < 2 ^ 63"
    using length_uvarint [of 2] length_uvarint [of 0] length_uvarint [of 1] length_uvarint [of 15]
    by (simp add: geosite_Write_def sort_sample write_entry_def items_sample length_item length_string)
qed (simp_all add: geo_sample_def sample_geosite_max)

theorem geosite_roundtrip_witness:
  "\<exists>r. geosite_NewReader sample_geosite (geosite_Write sample_geosite geo_sample) = Inr (r, fst ` set geo_sample)
    \<and> geosite_Read sample_geosite r ''a'' = Inr [\<lparr>gi_Type = RuleTypeDomain, gi_Value = ''x.org''\<rparr>]"
proof -
  obtain r where r: "geosite_NewReader sample_geosite (geosite_Write sample_geosite geo_sample) = Inr (r, fst ` set geo_sample)"
    "\<forall>code. geosite_Read sample_geosite r code = (case map_of geo_sample code of
          None \<Rightarrow> Inl (E_New [S ''code '', S code, S '' not exists!'']) | Some its \<Rightarrow> Inr its)"
    using geosite_roundtrip [OF sample_geosite_ok geo_sample_conditions] by blast
  have "geosite_Read sample_geosite r ''a'' = Inr [\<lparr>gi_Type = RuleTypeDomain, gi_Value = ''x.org''\<rparr>]"
    by (simp add: r(2)) (simp add: geo_sample_def)
  then show ?thesis using r(1) by blast
qed

theorem geosite_lookup_exact_witness:
  "\<exists>r. geosite_NewReader sample_geosite (geosite_Write sample_geosite geo_sample) = Inr (r, fst ` set geo_sample)
    \<and> geositeLookup sample_geosite sample_lib r [''b'', ''a''] [] ''myads.org'' = Inr (''Match code (b) domain_keyword=ads'' @ [CHR 0x0A])"
proof -
  have codes: "distinct [''b'', ''a''] \<and> set [''b'', ''a''] = fst ` set geo_sample" by (simp add: geo_sample_def)
  have found: "filter (\<lambda>code. \<exists>item\<in>set (items_of geo_sample code). item_found sample_lib ''myads.org'' item) (sort (map fst geo_sample)) = [''b'']"
    by (simp add: sort_sample items_sample item_found_def)
  have match: "searchGeosite_Match sample_lib (newSearchGeositeMatcher (items_of geo_sample ''b'')) ''myads.org'' = ''domain_keyword=ads''"
    by (simp add: items_sample newSearchGeositeMatcher_def geosite_Compile_def values_of_def make_slice_def searchGeosite_Match_def)
  obtain r where r: "geosite_NewReader sample_geosite (geosite_Write sample_geosite geo_sample) = Inr (r, fst ` set geo_sample)"
    and lookup: "\<forall>cs. distinct cs \<and> set cs = fst ` set geo_sample \<longrightarrow> geositeLookup sample_geosite sample_lib r cs [] ''myads.org'' =
      Inr (concat (map (\<lambda>code. ''Match code ('' @ code @ '') '' @
          searchGeosite_Match sample_lib (newSearchGeositeMatcher (items_of geo_sample code)) ''myads.org'' @ [CHR 0x0A]) [''b'']))"
    using geosite_lookup_exact [OF sample_geosite_ok geo_sample_conditions, of sample_lib "''myads.org''"] unfolding found by blast
  have "geositeLookup sample_geosite sample_lib r [''b'', ''a''] [] ''myads.org'' = Inr (''Match code (b) domain_keyword=ads'' @ [CHR 0x0A])"
    using lookup [rule_format, OF codes] by (simp add: match)
  then show ?thesis using r by blast
qed

end
