(* ===== verification/Hosts.thy ===== *)
theory Hosts
  imports DNS_Message "HOL-Library.AList"
begin

text \<open>
  The hosts transport (\<open>dns/transport/hosts\<close>): the hosts file with its cache, and the answers from predefined names,
  files and names that contain an address. A file is read when it has changed; what the operating system answers
  (time, modification time and size, content) is an argument. White space and comments are ASCII.
\<close>

section \<open>Reading a file\<close>

text \<open>\<open>bufio.Reader.ReadLine\<close> with its buffer of 4096 bytes: a line without its end, whether it goes on, and what remains; a
  carriage return at the end of a full buffer is left for the next call. \<open>None\<close> is the end of the file.\<close>

definition ReadLine_hosts :: "string \<Rightarrow> (string \<times> bool \<times> string) option" where
  "ReadLine_hosts input =
     (if input = [] then None
      else case index_byte (CHR 0x0A) (take 4096 input) of
        Some i \<Rightarrow>
          (let line = take i input in
           Some (if line \<noteq> [] \<and> last line = CHR 0x0D then butlast line else line, False, drop (i + 1) input))
      | None \<Rightarrow>
          if length input \<ge> 4096
          then (if input ! 4095 = CHR 0x0D then Some (take 4095 input, True, drop 4095 input)
                else Some (take 4096 input, True, drop 4096 input))
          else Some (input, False, []))"

definition is_space :: "char \<Rightarrow> bool" where
  "is_space c \<longleftrightarrow> c \<in> {CHR '' '', CHR 0x09, CHR 0x0A, CHR 0x0B, CHR 0x0C, CHR 0x0D}"

text \<open>\<open>strings.Fields\<close>\<close>

fun fields_acc :: "string \<Rightarrow> string \<Rightarrow> string list" where
  "fields_acc w [] = (if w = [] then [] else [w])"
| "fields_acc w (c # s) = (if is_space c then (if w = [] then [] else [w]) @ fields_acc [] s else fields_acc (w @ [c]) s)"

definition Fields :: "string \<Rightarrow> string list" where
  "Fields s = fields_acc [] s"

text \<open>The map from names to addresses, in which a missing name has none.\<close>

type_synonym name_table = "(string \<times> addr list) list"

definition addrs_of :: "name_table \<Rightarrow> string \<Rightarrow> addr list" where
  "addrs_of byName name = (case map_of byName name of None \<Rightarrow> [] | Some addrs \<Rightarrow> addrs)"

text \<open>One line: a comment is cut off; a line needs an address and at least one name.\<close>

definition add_line ::
  "('dm, 'ag, 'ip) lib \<Rightarrow> (string \<Rightarrow> string) \<Rightarrow> string \<Rightarrow> name_table \<Rightarrow> name_table" where
  "add_line L CanonicalName line0 byName =
     (let line = (case index_byte (CHR ''#'') line0 of None \<Rightarrow> line0 | Some i \<Rightarrow> take i line0);
          fields = Fields line
      in if length fields < 2 then byName
         else case ParseAddr L (hd fields) of
           Inl _ \<Rightarrow> byName
         | Inr addr \<Rightarrow> 
             fold (\<lambda>name t. AList.update (CanonicalName name) (addrs_of t (CanonicalName name) @ [addr]) t) (tl fields) byName)"

lemma ReadLine_shrinks: "ReadLine_hosts input = Some (line, isPrefix, rest) \<Longrightarrow> length rest < length input"
  by (auto simp: ReadLine_hosts_def Let_def split: if_splits option.splits)

function read_hosts ::
  "('dm, 'ag, 'ip) lib \<Rightarrow> (string \<Rightarrow> string) \<Rightarrow> string \<Rightarrow> string \<Rightarrow> name_table \<Rightarrow> name_table" where
  "read_hosts L CanonicalName pre input byName =
     (case ReadLine_hosts input of
        None \<Rightarrow> byName
      | Some (line, isPrefix, rest) \<Rightarrow>
          if isPrefix then read_hosts L CanonicalName (pre @ line) rest byName
          else read_hosts L CanonicalName [] rest (add_line L CanonicalName (pre @ line) byName))"
  by pat_completeness auto
termination
  by (relation "measure (\<lambda>(_, _, _, input, _). length input)") (auto dest: ReadLine_shrinks)

declare read_hosts.simps [simp del]

section \<open>The file and its cache\<close>

abbreviation cacheMaxAge :: int where "cacheMaxAge \<equiv> 5000000000"

text \<open>A zero time is \<open>None\<close>. The file system answers with the modification time and size of the file, or an error, and with
  its content, or an error on the way.\<close>

record hosts_File =
  hf_path :: string
  hf_byName :: name_table
  hf_expire :: "int option"
  hf_modTime :: "int option"
  hf_size :: int

record file_answer =
  os_Stat :: "(int \<times> int) option"
  os_Content :: "string option"

definition hosts_NewFile :: "string \<Rightarrow> hosts_File" where
  "hosts_NewFile path = \<lparr>hf_path = path, hf_byName = [], hf_expire = None, hf_modTime = None, hf_size = 0\<rparr>"

definition hosts_update ::
  "('dm, 'ag, 'ip) lib \<Rightarrow> (string \<Rightarrow> string) \<Rightarrow> int \<Rightarrow> file_answer \<Rightarrow> hosts_File \<Rightarrow> hosts_File" where
  "hosts_update L CanonicalName now ans f =
     (if (case hf_expire f of None \<Rightarrow> False | Some expire \<Rightarrow> now < expire) \<and> length (hf_byName f) > 0 then f
      else case os_Stat ans of
        None \<Rightarrow> f
      | Some (modTime, sz) \<Rightarrow>
          if hf_modTime f = Some modTime \<and> hf_size f = sz then f\<lparr>hf_expire := Some (now + cacheMaxAge)\<rparr>
          else (case os_Content ans of
                  None \<Rightarrow> f
                | Some content \<Rightarrow> f\<lparr>hf_expire := Some (now + cacheMaxAge), hf_modTime := Some modTime, hf_size := sz,
                                     hf_byName := read_hosts L CanonicalName [] content []\<rparr>))"

definition File_Lookup ::
  "('dm, 'ag, 'ip) lib \<Rightarrow> (string \<Rightarrow> string) \<Rightarrow> int \<Rightarrow> file_answer \<Rightarrow> string \<Rightarrow> hosts_File \<Rightarrow> addr list \<times> hosts_File" where
  "File_Lookup L CanonicalName now ans name f =
     (let f' = hosts_update L CanonicalName now ans f in (addrs_of (hf_byName f') (CanonicalName name), f'))"

section \<open>The transport\<close>

text \<open>\<open>CanonicalName\<close> of \<open>miekg/dns\<close>, how paths are expanded, and what the first group of the two expressions for names with
  an address captures.\<close>

record hosts_lib =
  hl_CanonicalName :: "string \<Rightarrow> string"
  hl_BasePath :: "string \<Rightarrow> string"
  hl_DefaultPath :: string
  ipv4Regex :: "string \<Rightarrow> string option"
  ipv6Regex :: "string \<Rightarrow> string option"

record hosts_Transport =
  ht_files :: "hosts_File list"
  ht_predefined :: "string \<rightharpoonup> addr list"

definition hosts_NewTransport :: "hosts_lib \<Rightarrow> string list \<Rightarrow> (string \<times> addr list) list \<Rightarrow> hosts_Transport" where
  "hosts_NewTransport H paths predefined =
     \<lparr>ht_files = (if length paths = 0 then [hosts_NewFile (hl_DefaultPath H)]
                  else map (\<lambda>path. hosts_NewFile (hl_BasePath H path)) paths),
      ht_predefined = fold (\<lambda>(key, value) m. m(hl_CanonicalName H key \<mapsto> value)) predefined Map.empty\<rparr>"

definition replace_dash :: "char \<Rightarrow> string \<Rightarrow> string" where
  "replace_dash c s = map (\<lambda>x. if x = CHR ''-'' then c else x) s"

definition getIpOfSslip :: "('dm, 'ag, 'ip) lib \<Rightarrow> hosts_lib \<Rightarrow> string \<Rightarrow> addr list" where
  "getIpOfSslip L H sni =
     (if \<not> HasSuffix sni ''.sslip.io'' then []
      else let ipstr = (case ipv4Regex H sni of
                          Some group1 \<Rightarrow> replace_dash (CHR ''.'') group1
                        | None \<Rightarrow> (case ipv6Regex H sni of Some group1 \<Rightarrow> replace_dash (CHR '':'') group1 | None \<Rightarrow> []))
           in case ParseAddr L ipstr of Inl _ \<Rightarrow> [] | Inr ip \<Rightarrow> [ip])"

text \<open>The files are asked in order until one knows the name; the others are not looked at.\<close>

fun lookup_files ::
  "('dm, 'ag, 'ip) lib \<Rightarrow> (string \<Rightarrow> string) \<Rightarrow> int \<Rightarrow> (string \<Rightarrow> file_answer) \<Rightarrow> string \<Rightarrow> hosts_File list \<Rightarrow>
   addr list \<times> hosts_File list" where
  "lookup_files L CanonicalName now fs domain [] = ([], [])"
| "lookup_files L CanonicalName now fs domain (f # files) =
     (case File_Lookup L CanonicalName now (fs (hf_path f)) domain f of
        (addresses, f') \<Rightarrow>
          if length addresses > 0 then (addresses, f' # files)
          else (case lookup_files L CanonicalName now fs domain files of (as, files') \<Rightarrow> (as, f' # files')))"

abbreviation (input) hostsTTL :: "32 word" where "hostsTTL \<equiv> 600"

definition name_error :: "dns_msg \<Rightarrow> question \<Rightarrow> dns_msg" where
  "name_error message question =
     \<lparr>msg_Id = msg_Id message, msg_Response = True, msg_Authoritative = False, msg_RecursionDesired = False,
      msg_RecursionAvailable = False, msg_Rcode = RcodeNameError, msg_Question = [question],
      msg_Answer = [], msg_Ns = [], msg_Extra = []\<rparr>"

definition hosts_Exchange ::
  "('dm, 'ag, 'ip) lib \<Rightarrow> hosts_lib \<Rightarrow> int \<Rightarrow> (string \<Rightarrow> file_answer) \<Rightarrow> dns_msg \<Rightarrow> hosts_Transport \<Rightarrow>
   dns_msg result \<times> hosts_Transport" where
  "hosts_Exchange L H now fs message t =
     (case msg_Question message of
        [] \<Rightarrow> (Inl (Panic [S ''index out of range'']), t)
      | question # _ \<Rightarrow>
          (let domain = hl_CanonicalName H (fst question); qtype = fst (snd question) in
           if qtype = TypeA \<or> qtype = TypeAAAA
           then (case ht_predefined t domain of
                   Some addresses \<Rightarrow> (Inr (FixedResponse (msg_Id message) question addresses hostsTTL), t)
                 | None \<Rightarrow>
                     (case lookup_files L (hl_CanonicalName H) now fs domain (ht_files t) of
                        (addresses, files') \<Rightarrow>
                          let t' = t\<lparr>ht_files := files'\<rparr> in
                          if length addresses > 0
                          then (Inr (FixedResponse (msg_Id message) question addresses hostsTTL), t')
                          else let sslip = getIpOfSslip L H domain in
                            if length sslip > 0 then (Inr (FixedResponse (msg_Id message) question sslip hostsTTL), t')
                            else (Inr (name_error message question), t')))
           else (Inr (name_error message question), t)))"

end
