(* ===== verification/Hosts_Properties.thy ===== *)
theory Hosts_Properties
  imports Hosts DNS_Properties
begin

text \<open>
  What the hosts transport promises: the addresses of a name are those of the lines that list it, an answer is never
  older than the age of the cache, and names that contain an address are never answered.
\<close>

section \<open>The lines of a file\<close>

definition nl :: char where "nl = CHR 0x0A"

lemma ReadLine_short:
  assumes "length l < 4096" and "nl \<notin> set l" and "CHR 0x0D \<notin> set l"
  shows "ReadLine_hosts (l @ nl # rest) = Some (l, False, rest)"
proof -
  have "take 4096 (l @ nl # rest) = l @ nl # take (4095 - length l) rest" using assms(1) by (simp add: take_Cons')
  then have "index_byte nl (take 4096 (l @ nl # rest)) = Some (length l)" using index_byte_append [OF assms(2)] by simp
  moreover have "l = [] \<or> last l \<noteq> CHR 0x0D" using assms(3) last_in_set by fastforce
  ultimately show ?thesis by (auto simp: ReadLine_hosts_def nl_def)
qed

lemma ReadLine_long:
  assumes "4096 \<le> length l" and "nl \<notin> set l" and "CHR 0x0D \<notin> set l"
  shows "ReadLine_hosts (l @ nl # rest) = Some (take 4096 l, True, drop 4096 l @ nl # rest)"
proof -
  have "set (take 4096 l) \<subseteq> set l" by (rule set_take_subset)
  then have "index_byte nl (take 4096 (l @ nl # rest)) = None" using assms(1,2) by (auto simp: index_byte_None)
  moreover have "(l @ nl # rest) ! 4095 \<in> set l" using assms(1) by (simp add: nth_append)
  then have "(l @ nl # rest) ! 4095 \<noteq> CHR 0x0D" using assms(3) by auto
  ultimately show ?thesis using assms(1) by (simp add: ReadLine_hosts_def nl_def)
qed

text \<open>A line is put together again from its parts, whatever its length.\<close>

lemma read_hosts_line:
  assumes "nl \<notin> set l" and "CHR 0x0D \<notin> set l"
  shows "read_hosts L C pre (l @ nl # rest) T = read_hosts L C [] rest (add_line L C (pre @ l) T)"
  using assms
proof (induction "length l" arbitrary: l pre rule: less_induct)
  case less
  show ?case
  proof (cases "length l < 4096")
    case True
    then show ?thesis using ReadLine_short [OF True less.prems] by (subst read_hosts.simps) simp
  next
    case False
    have "read_hosts L C (pre @ take 4096 l) (drop 4096 l @ nl # rest) T = read_hosts L C [] rest (add_line L C ((pre @ take 4096 l) @ drop 4096 l) T)"
      by (rule less.hyps) (use False less.prems set_drop_subset [of 4096 l] in auto)
    then show ?thesis using ReadLine_long [of l] False less.prems by (subst read_hosts.simps) simp
  qed
qed

lemma read_hosts_end: "read_hosts L C pre [] T = T"
  by (subst read_hosts.simps) (simp add: ReadLine_hosts_def)

lemma read_hosts_lines:
  assumes "\<forall>l\<in>set ls. nl \<notin> set l \<and> CHR 0x0D \<notin> set l"
  shows "read_hosts L C [] (concat (map (\<lambda>l. l @ [nl]) ls)) T = fold (add_line L C) ls T"
  using assms
proof (induction ls arbitrary: T)
  case Nil
  then show ?case by (simp add: read_hosts_end)
next
  case (Cons l ls)
  then show ?case using read_hosts_line [of l L C "[]"] by simp
qed

text \<open>The addresses that a line gives a name: one for each time the line lists it.\<close>

definition line_addresses :: "('dm, 'ag, 'ip) lib \<Rightarrow> (string \<Rightarrow> string) \<Rightarrow> string \<Rightarrow> string \<Rightarrow> addr list" where
  "line_addresses L C name line =
     (let fields = Fields (takeWhile (\<lambda>c. c \<noteq> CHR ''#'') line) in
      case fields of
        [] \<Rightarrow> []
      | a # names \<Rightarrow> (case ParseAddr L a of Inl _ \<Rightarrow> [] | Inr addr \<Rightarrow> map (\<lambda>_. addr) (filter (\<lambda>n. C n = name) names)))"

lemma addrs_of_update: "addrs_of (AList.update k v t) n = (if n = k then v else addrs_of t n)"
  by (simp add: addrs_of_def update_conv')

lemma addrs_of_fold:
  "addrs_of (fold (\<lambda>name t. AList.update (C name) (addrs_of t (C name) @ [a]) t) names T) n =
     addrs_of T n @ map (\<lambda>_. a) (filter (\<lambda>x. C x = n) names)"
  by (induction names arbitrary: T) (auto simp: addrs_of_update)

lemma cut_comment:
  "(case index_byte x l of None \<Rightarrow> l | Some i \<Rightarrow> take i l) = takeWhile (\<lambda>c. c \<noteq> x) l"
  by (induction l) (auto split: option.splits)

lemma addrs_of_add_line: "addrs_of (add_line L C l T) n = addrs_of T n @ line_addresses L C n l"
proof -
  let ?fs = "Fields (takeWhile (\<lambda>c. c \<noteq> CHR ''#'') l)"
  consider "?fs = []" | a where "?fs = [a]" | a b cs where "?fs = a # b # cs" by (metis neq_Nil_conv)
  then show ?thesis
    by cases (auto simp: add_line_def line_addresses_def Let_def cut_comment addrs_of_fold addrs_of_update split: sum.splits)
qed

lemma addrs_of_lines: "addrs_of (fold (add_line L C) ls T) n = addrs_of T n @ concat (map (line_addresses L C n) ls)"
  by (induction ls arbitrary: T) (simp_all add: addrs_of_add_line)

section \<open>The age of an answer\<close>

text \<open>A file that changes: each version, given by its modification time and size, has a content.\<close>

definition entries_of :: "('dm, 'ag, 'ip) lib \<Rightarrow> (string \<Rightarrow> string) \<Rightarrow> string \<Rightarrow> string \<Rightarrow> addr list" where
  "entries_of L C content name = addrs_of (read_hosts L C [] content []) (C name)"

fun hosts_run ::
  "('dm, 'ag, 'ip) lib \<Rightarrow> (string \<Rightarrow> string) \<Rightarrow> (int \<times> int \<Rightarrow> string) \<Rightarrow> (int \<times> (int \<times> int) \<times> string) list \<Rightarrow> hosts_File \<Rightarrow>
   addr list list" where
  "hosts_run L C file_at [] f = []"
| "hosts_run L C file_at ((now, v, name) # tr) f =
     (case File_Lookup L C now \<lparr>os_Stat = Some v, os_Content = Some (file_at v)\<rparr> name f of
        (addrs, f') \<Rightarrow> addrs # hosts_run L C file_at tr f')"

text \<open>The cache holds a version that was seen at a lookup of the past.\<close>

definition seen_version ::
  "('dm, 'ag, 'ip) lib \<Rightarrow> (string \<Rightarrow> string) \<Rightarrow> (int \<times> int \<Rightarrow> string) \<Rightarrow> (int \<times> (int \<times> int)) set \<Rightarrow> hosts_File \<Rightarrow> bool" where
  "seen_version L C file_at seen f \<longleftrightarrow> hf_byName f = [] \<and> hf_modTime f = None \<or>
     (\<exists>(t, v)\<in>seen. hf_expire f = Some (t + cacheMaxAge) \<and> hf_modTime f = Some (fst v) \<and> hf_size f = snd v
        \<and> hf_byName f = read_hosts L C [] (file_at v) [])"

lemma lookup_seen:
  assumes "seen_version L C file_at seen f"
    and "File_Lookup L C now \<lparr>os_Stat = Some v, os_Content = Some (file_at v)\<rparr> name f = (addrs, f')"
  shows "seen_version L C file_at (insert (now, v) seen) f'
    \<and> (\<exists>(t, w)\<in>insert (now, v) seen. now < t + cacheMaxAge \<and> addrs = entries_of L C (file_at w) name)"
proof -
  let ?ans = "\<lparr>os_Stat = Some v, os_Content = Some (file_at v)\<rparr>"
  have f': "f' = hosts_update L C now ?ans f" and addrs: "addrs = addrs_of (hf_byName f') (C name)"
    using assms(2) by (auto simp: File_Lookup_def Let_def)
  let ?cached = "(case hf_expire f of None \<Rightarrow> False | Some expire \<Rightarrow> now < expire) \<and> length (hf_byName f) > 0"
  show ?thesis
  proof (cases ?cached)
    case True
    then have same: "f' = f" by (simp add: f' hosts_update_def)
    from True assms(1) obtain t w where "(t, w) \<in> seen" "hf_expire f = Some (t + cacheMaxAge)"
      "hf_byName f = read_hosts L C [] (file_at w) []"
      by (auto simp: seen_version_def)
    moreover from this True have "now < t + cacheMaxAge" by simp
    moreover have "seen_version L C file_at (insert (now, v) seen) f" using assms(1) unfolding seen_version_def by blast
    ultimately show ?thesis using addrs same by (auto simp: entries_of_def)
  next
    case False
    let ?new = "f\<lparr>hf_expire := Some (now + cacheMaxAge), hf_modTime := Some (fst v), hf_size := snd v,
        hf_byName := read_hosts L C [] (file_at v) []\<rparr>"
    have "f' = (if hf_modTime f = Some (fst v) \<and> hf_size f = snd v then f\<lparr>hf_expire := Some (now + cacheMaxAge)\<rparr> else ?new)"
      unfolding f' hosts_update_def if_not_P [OF False] by (simp add: split_beta)
    moreover have "hf_byName f = read_hosts L C [] (file_at v) []" if "hf_modTime f = Some (fst v) \<and> hf_size f = snd v"
      using assms(1) that by (cases v) (auto simp: seen_version_def)
    ultimately have "seen_version L C file_at {(now, v)} f' \<and> hf_byName f' = read_hosts L C [] (file_at v) []"
      by (auto simp: seen_version_def)
    then show ?thesis using addrs by (auto simp: seen_version_def entries_of_def)
  qed
qed

lemma hosts_run_seen:
  assumes "seen_version L C file_at seen f" and "i < length tr"
  shows "\<exists>(t, v)\<in>seen \<union> (\<lambda>(t, v, _). (t, v)) ` set (take (Suc i) tr).
    fst (tr ! i) < t + cacheMaxAge \<and> hosts_run L C file_at tr f ! i = entries_of L C (file_at v) (snd (snd (tr ! i)))"
  using assms
proof (induction tr arbitrary: seen f i)
  case (Cons q tr)
  obtain now v name where q: "q = (now, v, name)" by (cases q) auto
  obtain addrs f' where look: "File_Lookup L C now \<lparr>os_Stat = Some v, os_Content = Some (file_at v)\<rparr> name f = (addrs, f')" by fastforce
  note step = lookup_seen [OF Cons.prems(1) look]
  show ?case
  proof (cases i)
    case 0
    then show ?thesis using step by (auto simp: q look)
  next
    case (Suc k)
    then have "k < length tr" using Cons.prems(2) by simp
    from Cons.IH [OF conjunct1 [OF step] this] show ?thesis by (auto simp: q look Suc)
  qed
qed simp

section \<open>Properties\<close>



text \<open>
  A query for a name that is neither predefined nor in a file is answered with a name error, also for the names that contain
  an address (\<open>1-2-3-4.sslip.io\<close>): canonical names end with a dot, and the code asks for names that end with
  \<open>.sslip.io\<close>.
\<close>

theorem hosts_sslip_unreachable:
  assumes "\<And>s. HasSuffix (hl_CanonicalName H s) ''.''" and "msg_Question message = question # qs"
    and "ht_predefined t (hl_CanonicalName H (fst question)) = None"
    and "fst (lookup_files L (hl_CanonicalName H) now fs (hl_CanonicalName H (fst question)) (ht_files t)) = []"
  shows "fst (hosts_Exchange L H now fs message t) = Inr (name_error message question)"
proof -
  obtain s where "hl_CanonicalName H (fst question) = s @ ''.''" using assms(1) [of "fst question"] by (auto simp: HasSuffix_def suffix_def)
  then have "getIpOfSslip L H (hl_CanonicalName H (fst question)) = []"
    by (auto simp: getIpOfSslip_def HasSuffix_def suffix_def)
  then show ?thesis using assms(2,3,4) by (auto simp: hosts_Exchange_def Let_def split: prod.splits)
qed

text \<open>A last line without a line end whose length is that of the buffer is lost.\<close>

lemma last_long_line_lost:
  assumes "length l = 4096" and "nl \<notin> set l" and "CHR 0x0D \<notin> set l"
  shows "read_hosts L C [] l T = T"
proof -
  have "index_byte nl l = None" using assms(2) by (simp add: index_byte_None)
  moreover have "l ! 4095 \<in> set l" using assms(1) by simp
  then have "l ! 4095 \<noteq> CHR 0x0D" using assms(3) by auto
  ultimately have "ReadLine_hosts l = Some (l, True, [])" using assms(1) by (auto simp: ReadLine_hosts_def nl_def)
  then show ?thesis by (subst read_hosts.simps) (simp add: read_hosts_end)
qed

section \<open>Witnesses\<close>

definition dotted :: "string \<Rightarrow> string" where
  "dotted s = (if s \<noteq> [] \<and> last s = CHR ''.'' then s else s @ ''.'')"

definition sample_hosts :: hosts_lib where
  "sample_hosts = \<lparr>hl_CanonicalName = dotted, hl_BasePath = id, hl_DefaultPath = ''/etc/hosts'', ipv4Regex = Some, ipv6Regex = (\<lambda>_. None)\<rparr>"

lemma dotted_dot: "HasSuffix (dotted s) ''.''"
  by (cases s rule: rev_cases) (auto simp: dotted_def HasSuffix_def suffix_def)

definition hosts_text :: "string list" where
  "hosts_text = [''# local names'', ''1.1.1.1 one one.example # twice'', ''nonsense one'', ''1.1.1.1'']"



theorem hosts_sslip_unreachable_witness:
  "fst (hosts_Exchange sample_lib sample_hosts 0 (\<lambda>_. \<lparr>os_Stat = None, os_Content = None\<rparr>)
     (FixedResponse 1 (''1.1.1.1.sslip.io.'', TypeA, 1) [] 0) (hosts_NewTransport sample_hosts [] [])) =
   Inr (name_error (FixedResponse 1 (''1.1.1.1.sslip.io.'', TypeA, 1) [] 0) (''1.1.1.1.sslip.io.'', TypeA, 1))"
  by (rule hosts_sslip_unreachable [where qs = "[]"])
    (simp_all add: sample_hosts_def dotted_dot FixedResponse_def fixed_header_def hosts_NewTransport_def File_Lookup_def
      hosts_update_def hosts_NewFile_def addrs_of_def)

end
