(* ===== verification/Versions.thy ===== *)
theory Versions
  imports Prelude "HOL-Library.List_Lexorder"
begin

text \<open>
  Version numbers (\<open>common/badversion\<close>): comparison, printing and parsing; and the features of kernel TLS that
  \<open>common/ktls\<close> derives from the version of the running kernel.
\<close>

section \<open>Numbers\<close>

text \<open>The value of \<open>strconv.Atoi\<close> when its error is ignored: 0 where the syntax is wrong, the nearest \<open>int\<close> where the
  number is out of range.\<close>

definition clamp :: "int \<Rightarrow> int" where
  "clamp n = max (- (2 ^ 63)) (min (2 ^ 63 - 1) n)"

definition Atoi :: "string \<Rightarrow> int" where
  "Atoi s =
     (let neg = (s \<noteq> [] \<and> hd s = CHR ''-'');
          ds = (if s \<noteq> [] \<and> (hd s = CHR ''-'' \<or> hd s = CHR ''+'') then tl s else s)
      in if ds = [] \<or> \<not> list_all is_digit ds then 0
         else clamp (if neg then - int (dec_value ds) else int (dec_value ds)))"

definition int_string :: "int \<Rightarrow> string" where
  "int_string n = (if n < 0 then ''-'' @ Itoa (nat (- n)) else Itoa (nat n))"

section \<open>Versions\<close>

record Version =
  v_Major :: int
  v_Minor :: int
  v_Patch :: int
  v_Commit :: string
  v_PreReleaseIdentifier :: string
  v_PreReleaseVersion :: int

definition zeroVersion :: Version where
  "zeroVersion = \<lparr>v_Major = 0, v_Minor = 0, v_Patch = 0, v_Commit = [], v_PreReleaseIdentifier = [], v_PreReleaseVersion = 0\<rparr>"

definition parsePreReleaseIdentifier :: "string \<Rightarrow> int" where
  "parsePreReleaseIdentifier identifier =
     (if HasPrefix identifier ''rc'' then 1
      else if HasPrefix identifier ''beta'' then 2
      else if HasPrefix identifier ''alpha'' then 3
      else 0)"

definition GreaterThan :: "Version \<Rightarrow> Version \<Rightarrow> bool" where
  "GreaterThan v w =
     (if v_Major v > v_Major w then True
      else if v_Major v < v_Major w then False
      else if v_Minor v > v_Minor w then True
      else if v_Minor v < v_Minor w then False
      else if v_Patch v > v_Patch w then True
      else if v_Patch v < v_Patch w then False
      else if v_PreReleaseIdentifier v = [] \<and> v_PreReleaseIdentifier w \<noteq> [] then True
      else if v_PreReleaseIdentifier v \<noteq> [] \<and> v_PreReleaseIdentifier w = [] then False
      else if v_PreReleaseIdentifier v \<noteq> [] \<and> v_PreReleaseIdentifier w \<noteq> []
      then (if v_PreReleaseIdentifier v = v_PreReleaseIdentifier w \<and> v_PreReleaseVersion v > v_PreReleaseVersion w then True
            else if v_PreReleaseIdentifier v = v_PreReleaseIdentifier w \<and> v_PreReleaseVersion v < v_PreReleaseVersion w then False
            else parsePreReleaseIdentifier (v_PreReleaseIdentifier v) < parsePreReleaseIdentifier (v_PreReleaseIdentifier w))
      else False)"

definition GreaterThanOrEqual :: "Version \<Rightarrow> Version \<Rightarrow> bool" where
  "GreaterThanOrEqual v w \<longleftrightarrow> v = w \<or> GreaterThan v w"

definition LessThanOrEqual :: "Version \<Rightarrow> Version \<Rightarrow> bool" where
  "LessThanOrEqual v w \<longleftrightarrow> v = w \<or> GreaterThan w v"

definition LessThan :: "Version \<Rightarrow> Version \<Rightarrow> bool" where
  "LessThan v w \<longleftrightarrow> \<not> GreaterThanOrEqual v w"

section \<open>Printing and parsing\<close>

definition VersionString :: "Version \<Rightarrow> string" where
  "VersionString v = int_string (v_Major v) @ ''.'' @ int_string (v_Minor v) @ ''.'' @ int_string (v_Patch v)"

definition Version_String :: "Version \<Rightarrow> string" where
  "Version_String v = VersionString v
     @ (if v_PreReleaseIdentifier v \<noteq> []
        then ''-'' @ v_PreReleaseIdentifier v @ ''.'' @ int_string (v_PreReleaseVersion v) else [])"

definition BadString :: "Version \<Rightarrow> string" where
  "BadString v = int_string (v_Major v) @ ''.'' @ int_string (v_Minor v)
     @ (if v_Patch v > 0 then ''.'' @ int_string (v_Patch v) else [])
     @ (if v_PreReleaseIdentifier v \<noteq> []
        then ''-'' @ v_PreReleaseIdentifier v @ (if v_PreReleaseVersion v > 0 then int_string (v_PreReleaseVersion v) else [])
        else [])"

text \<open>The part after the first dash.\<close>

definition parse_identifier :: "string \<Rightarrow> Version \<Rightarrow> Version" where
  "parse_identifier identifier v =
     (if CHR ''.'' \<in> set identifier
      then (let identifierParts = split_byte (CHR ''.'') identifier;
                v' = v\<lparr>v_PreReleaseIdentifier := hd identifierParts\<rparr>
            in if length identifierParts \<ge> 2 then v'\<lparr>v_PreReleaseVersion := Atoi (identifierParts ! 1)\<rparr> else v')
      else if HasPrefix identifier ''alpha''
      then v\<lparr>v_PreReleaseIdentifier := ''alpha'', v_PreReleaseVersion := Atoi (drop 5 identifier)\<rparr>
      else if HasPrefix identifier ''beta''
      then v\<lparr>v_PreReleaseIdentifier := ''beta'', v_PreReleaseVersion := Atoi (drop 4 identifier)\<rparr>
      else v\<lparr>v_Commit := identifier\<rparr>)"

definition parse_numbers :: "string \<Rightarrow> Version \<Rightarrow> Version" where
  "parse_numbers versionName v =
     (let es = split_byte (CHR ''.'') versionName;
          v1 = (if length es \<ge> 1 then v\<lparr>v_Major := Atoi (es ! 0)\<rparr> else v);
          v2 = (if length es \<ge> 2 then v1\<lparr>v_Minor := Atoi (es ! 1)\<rparr> else v1)
      in if length es \<ge> 3 then v2\<lparr>v_Patch := Atoi (es ! 2)\<rparr> else v2)"

definition Version_Parse :: "string \<Rightarrow> Version" where
  "Version_Parse versionName0 =
     (let versionName = (if HasPrefix versionName0 ''v'' then tl versionName0 else versionName0) in
      if CHR ''-'' \<in> set versionName
      then (let parts = split_byte (CHR ''-'') versionName in
            parse_numbers (hd parts) (parse_identifier (parts ! 1) zeroVersion))
      else parse_numbers versionName zeroVersion)"

section \<open>Kernel TLS\<close>

record Support =
  su_TLS :: bool
  su_TLS_RX :: bool
  su_TLS_Version13 :: bool
  su_TLS_Version13_RX :: bool
  su_TLS_TX_ZEROCOPY :: bool
  su_TLS_RX_NOPADDING :: bool
  su_TLS_AES_256_GCM :: bool
  su_TLS_AES_128_CCM :: bool
  su_TLS_CHACHA20_POLY1305 :: bool
  su_TLS_SM4 :: bool
  su_TLS_ARIA_GCM :: bool
  su_TLS_Version13_KeyUpdate :: bool

text \<open>The thresholds of the \<open>switch\<close>, the newest first; the first that the kernel reaches falls through to the rest, so a
  feature is set when its threshold or a newer one is reached.\<close>

definition kernel_thresholds :: "(int \<times> int) list" where
  "kernel_thresholds = [(6, 14), (6, 1), (6, 0), (5, 19), (5, 16), (5, 11), (5, 2), (5, 1), (4, 17), (4, 13)]"

definition reached :: "Version \<Rightarrow> int \<times> int \<Rightarrow> bool" where
  "reached kernelVersion t = GreaterThanOrEqual kernelVersion (zeroVersion\<lparr>v_Major := fst t, v_Minor := snd t\<rparr>)"

text \<open>The number of thresholds from the first reached one to the end.\<close>

definition kernel_level :: "Version \<Rightarrow> nat" where
  "kernel_level kernelVersion = length (dropWhile (\<lambda>t. \<not> reached kernelVersion t) kernel_thresholds)"

definition kernel_features :: "Version \<Rightarrow> Support" where
  "kernel_features kernelVersion =
     (let n = kernel_level kernelVersion in
      \<lparr>su_TLS = 1 \<le> n, su_TLS_RX = 2 \<le> n, su_TLS_Version13 = 3 \<le> n, su_TLS_Version13_RX = 8 \<le> n, su_TLS_TX_ZEROCOPY = 7 \<le> n,
       su_TLS_RX_NOPADDING = 8 \<le> n, su_TLS_AES_256_GCM = 3 \<le> n, su_TLS_AES_128_CCM = 4 \<le> n, su_TLS_CHACHA20_POLY1305 = 5 \<le> n,
       su_TLS_SM4 = 6 \<le> n, su_TLS_ARIA_GCM = 9 \<le> n, su_TLS_Version13_KeyUpdate = 10 \<le> n\<rparr>)"

text \<open>\<open>KernelSupport\<close> for the release name of the kernel: whether the module is loaded, the process may load it, and what
  \<open>modprobe\<close> answers.\<close>

definition KernelSupport :: "string \<Rightarrow> bool \<Rightarrow> bool \<Rightarrow> (string \<times> error) option \<Rightarrow> Support result" where
  "KernelSupport release moduleLoaded isRoot modprobe =
     (let support = kernel_features (Version_Parse release) in
      if su_TLS support \<and> su_TLS_Version13 support \<and> \<not> moduleLoaded
      then (if isRoot
            then (case modprobe of
                    Some (output, err) \<Rightarrow> Inl (E_Extend (E_Cause err [S ''modprobe tls'']) output)
                  | None \<Rightarrow> Inr support)
            else Inl (E_New [S ''ktls: kernel TLS module not loaded'']))
      else Inr support)"

definition ktls_Load :: "Support result \<Rightarrow> error option" where
  "ktls_Load support =
     (case support of
        Inl err \<Rightarrow> Some (E_Cause err [S ''ktls: check availability''])
      | Inr s \<Rightarrow> if \<not> su_TLS s \<or> \<not> su_TLS_Version13 s then Some (E_New [S ''ktls: kernel does not support TLS 1.3'']) else None)"

end
