(* ===== verification/Version_Properties.thy ===== *)
theory Version_Properties
  imports Versions
begin

text \<open>
  What version numbers promise: the comparison is the lexicographic order of the numbers for versions without a commit, a
  printed version is parsed back, and a commit breaks the comparison, which shows in the kernel versions of \<open>common/ktls\<close>.
\<close>

section \<open>Numbers\<close>

lemma Atoi_Itoa: "int n < 2 ^ 63 \<Longrightarrow> Atoi (Itoa n) = int n"
proof -
  assume small: "int n < 2 ^ 63"
  obtain c cs where s: "Itoa n = c # cs" by (cases "Itoa n") simp_all
  have "is_digit c" using Itoa_digits [of n] by (simp add: s)
  then have "c \<noteq> CHR ''-'' \<and> c \<noteq> CHR ''+''" by (auto simp: is_digit_def)
  then show ?thesis using small Itoa_digits [of n] dec_value_Itoa [of n] by (simp add: Atoi_def s clamp_def)
qed

lemma Atoi_int_string: "0 \<le> n \<Longrightarrow> n < 2 ^ 63 \<Longrightarrow> Atoi (int_string n) = n"
  using Atoi_Itoa [of "nat n"] by (simp add: int_string_def)

lemma int_string_digits: "0 \<le> n \<Longrightarrow> c \<in> set (int_string n) \<Longrightarrow> is_digit c"
  using Itoa_digits [of "nat n"] by (auto simp: int_string_def list_all_iff)

lemma int_string_plain:
  assumes "0 \<le> n"
  shows "CHR ''.'' \<notin> set (int_string n)" "CHR ''-'' \<notin> set (int_string n)" "CHR ''v'' \<notin> set (int_string n)"
proof -
  have "\<not> is_digit (CHR ''.'')" "\<not> is_digit (CHR ''-'')" "\<not> is_digit (CHR ''v'')" by (simp_all add: is_digit_def)
  then show "CHR ''.'' \<notin> set (int_string n)" "CHR ''-'' \<notin> set (int_string n)" "CHR ''v'' \<notin> set (int_string n)"
    using int_string_digits [OF assms] by blast+
qed

lemma int_string_nonempty [simp]: "int_string n \<noteq> []"
  by (simp add: int_string_def)

section \<open>Parsing what is printed\<close>

lemma split_three:
  assumes "x \<notin> set a" and "x \<notin> set b" and "x \<notin> set c"
  shows "split_byte x (a @ [x] @ b @ [x] @ c) = [a, b, c]"
  using assms by (simp add: split_byte_sep split_byte_no_sep)

lemma parse_numbers_printed:
  assumes "0 \<le> a" "a < 2 ^ 63" "0 \<le> b" "b < 2 ^ 63" "0 \<le> c" "c < 2 ^ 63"
  shows "parse_numbers (int_string a @ ''.'' @ int_string b @ ''.'' @ int_string c) v = v\<lparr>v_Major := a, v_Minor := b, v_Patch := c\<rparr>"
  using split_three [of "CHR ''.''" "int_string a" "int_string b" "int_string c"] assms
  by (simp add: parse_numbers_def int_string_plain Atoi_int_string)

lemma VersionString_plain:
  assumes "0 \<le> v_Major v" "0 \<le> v_Minor v" "0 \<le> v_Patch v"
  shows "CHR ''-'' \<notin> set (VersionString v)" "\<not> HasPrefix (VersionString v @ rest) ''v''" "VersionString v \<noteq> []"
proof -
  obtain c cs where s: "int_string (v_Major v) = c # cs" by (cases "int_string (v_Major v)") simp_all
  then have "c \<noteq> CHR ''v''" using int_string_plain(3) [OF assms(1)] by auto
  then show "\<not> HasPrefix (VersionString v @ rest) ''v''" by (auto simp: VersionString_def s HasPrefix_def)
  show "CHR ''-'' \<notin> set (VersionString v)" "VersionString v \<noteq> []"
    using int_string_plain(2) assms by (simp_all add: VersionString_def)
qed

text \<open>A version with something after the dash.\<close>

lemma parse_dashed:
  assumes "0 \<le> v_Major v" "0 \<le> v_Minor v" "0 \<le> v_Patch v" and "CHR ''-'' \<notin> set i" and "rest = [] \<or> hd rest = CHR ''-''"
  shows "Version_Parse (VersionString v @ ''-'' @ i @ rest) = parse_numbers (VersionString v) (parse_identifier i zeroVersion)"
proof -
  have "\<exists>ps. split_byte (CHR ''-'') (i @ rest) = i # ps"
    using assms(4,5) split_byte_no_sep [of "CHR ''-''" i] split_byte_sep [of "CHR ''-''" i "tl rest"] by (cases rest) auto
  then show ?thesis
    using VersionString_plain [OF assms(1-3)] split_byte_sep [of "CHR ''-''" "VersionString v" "i @ rest"]
    by (auto simp: Version_Parse_def)
qed

definition small_numbers :: "Version \<Rightarrow> bool" where
  "small_numbers v \<longleftrightarrow> (\<forall>n\<in>{v_Major v, v_Minor v, v_Patch v, v_PreReleaseVersion v}. 0 \<le> n \<and> n < 2 ^ 63)"

section \<open>The order\<close>

text \<open>Versions as \<open>Parse\<close> gives them, without a commit.\<close>

definition wf_version :: "Version \<Rightarrow> bool" where
  "wf_version v \<longleftrightarrow> v_Commit v = [] \<and> v_PreReleaseIdentifier v \<in> {[], ''rc'', ''beta'', ''alpha''}
     \<and> (v_PreReleaseIdentifier v = [] \<longrightarrow> v_PreReleaseVersion v = 0)"

definition stage :: "string \<Rightarrow> int" where
  "stage identifier = (if identifier = [] then 4 else 3 - parsePreReleaseIdentifier identifier)"

text \<open>The reference: numbers first, then alpha before beta before rc before the release, then the pre-release number.\<close>

definition version_key :: "Version \<Rightarrow> int list" where
  "version_key v = [v_Major v, v_Minor v, v_Patch v, stage (v_PreReleaseIdentifier v), v_PreReleaseVersion v]"

lemma stage_simps [simp]: "stage [] = 4" "stage ''rc'' = 2" "stage ''beta'' = 1" "stage ''alpha'' = 0"
  by (simp_all add: stage_def parsePreReleaseIdentifier_def HasPrefix_def)

lemma identifier_simps [simp]:
  "parsePreReleaseIdentifier ''rc'' = 1" "parsePreReleaseIdentifier ''beta'' = 2" "parsePreReleaseIdentifier ''alpha'' = 3"
  by (simp_all add: parsePreReleaseIdentifier_def HasPrefix_def)

lemma stage_inj:
  assumes "i \<in> {[], ''rc'', ''beta'', ''alpha''}" and "j \<in> {[], ''rc'', ''beta'', ''alpha''}"
  shows "stage i = stage j \<longleftrightarrow> i = j"
  using assms by (elim insertE emptyE) simp_all

lemma version_key_inj:
  assumes "wf_version v" and "wf_version w"
  shows "version_key v = version_key w \<longleftrightarrow> v = w"
proof
  assume "version_key v = version_key w"
  then show "v = w"
    using assms stage_inj [of "v_PreReleaseIdentifier v" "v_PreReleaseIdentifier w"]
    by (intro Version.equality) (simp_all add: wf_version_def version_key_def)
qed simp

lemma pre_release_key:
  assumes "i \<in> {[], ''rc'', ''beta'', ''alpha''}" and "j \<in> {[], ''rc'', ''beta'', ''alpha''}"
    and "i = [] \<longrightarrow> n = 0" and "j = [] \<longrightarrow> m = 0"
  shows "(if i = [] \<and> j \<noteq> [] then True
      else if i \<noteq> [] \<and> j = [] then False
      else if i \<noteq> [] \<and> j \<noteq> []
      then (if i = j \<and> n > m then True
            else if i = j \<and> n < m then False
            else parsePreReleaseIdentifier i < parsePreReleaseIdentifier j)
      else False) \<longleftrightarrow> stage j < stage i \<or> stage j = stage i \<and> (m :: int) < n"
  using assms by (elim insertE emptyE) simp_all

lemma lexicographic_step:
  "(if (b :: int) < a then True else if a < b then False else P) \<longleftrightarrow> b < a \<or> b = a \<and> P"
  by auto

lemma GreaterThan_key:
  assumes "wf_version v" and "wf_version w"
  shows "GreaterThan v w \<longleftrightarrow> version_key w < version_key v"
proof -
  let ?i = "v_PreReleaseIdentifier v" and ?j = "v_PreReleaseIdentifier w"
  have "?i \<in> {[], ''rc'', ''beta'', ''alpha''}" "?j \<in> {[], ''rc'', ''beta'', ''alpha''}"
    "?i = [] \<longrightarrow> v_PreReleaseVersion v = 0" "?j = [] \<longrightarrow> v_PreReleaseVersion w = 0"
    using assms by (simp_all add: wf_version_def)
  note pre = pre_release_key [OF this]
  show ?thesis unfolding GreaterThan_def lexicographic_step pre by (simp add: version_key_def)
qed

section \<open>Properties\<close>

text \<open>
  C39. On versions without a commit whose identifier is alpha, beta, rc or absent, the four comparisons are the lexicographic order of
  major, minor and patch number, stage (alpha, beta, rc, release) and pre-release number.
\<close>

theorem version_order:
  assumes "wf_version v" and "wf_version w"
  shows "GreaterThan v w = (version_key w < version_key v) \<and> GreaterThanOrEqual v w = (version_key w \<le> version_key v)
    \<and> LessThan v w = (version_key v < version_key w) \<and> LessThanOrEqual v w = (version_key v \<le> version_key w)"
  using GreaterThan_key [OF assms] GreaterThan_key [OF assms(2,1)] version_key_inj [OF assms]
  by (auto simp: GreaterThanOrEqual_def LessThan_def LessThanOrEqual_def less_le)

text \<open>
  Parsing the printed form of a version without a commit gives the version back.
\<close>

theorem version_roundtrip:
  assumes "small_numbers v" and "v_Commit v = []"
    and "v_PreReleaseIdentifier v = [] \<longrightarrow> v_PreReleaseVersion v = 0"
    and "\<forall>c\<in>set (v_PreReleaseIdentifier v). c \<noteq> CHR ''.'' \<and> c \<noteq> CHR ''-''"
  shows "Version_Parse (Version_String v) = v"
proof -
  let ?i = "v_PreReleaseIdentifier v" and ?n = "v_PreReleaseVersion v"
  have nonneg: "0 \<le> v_Major v" "0 \<le> v_Minor v" "0 \<le> v_Patch v" "0 \<le> ?n" "?n < 2 ^ 63" using assms(1) by (simp_all add: small_numbers_def)
  have numbers: "parse_numbers (VersionString v) w = w\<lparr>v_Major := v_Major v, v_Minor := v_Minor v, v_Patch := v_Patch v\<rparr>" for w
    using parse_numbers_printed assms(1) by (simp add: VersionString_def small_numbers_def)
  show ?thesis
  proof (cases "?i = []")
    case True
    then show ?thesis
      using VersionString_plain(1) [OF nonneg(1-3)] VersionString_plain(2) [OF nonneg(1-3), of "[]"] assms(2,3) numbers
      by (simp add: Version_Parse_def Version_String_def zeroVersion_def)
  next
    case False
    have "CHR ''-'' \<notin> set (?i @ ''.'' @ int_string ?n)" using assms(4) int_string_plain(2) [OF nonneg(4)] by auto
    then have "Version_Parse (Version_String v) = parse_numbers (VersionString v) (parse_identifier (?i @ ''.'' @ int_string ?n) zeroVersion)"
      using parse_dashed [OF nonneg(1-3), of "?i @ ''.'' @ int_string ?n" "[]"] False by (simp add: Version_String_def)
    moreover have "CHR ''.'' \<notin> set ?i" using assms(4) by auto
    then have "split_byte (CHR ''.'') (?i @ ''.'' @ int_string ?n) = [?i, int_string ?n]"
      using int_string_plain(1) [OF nonneg(4)] by (simp add: split_byte_sep split_byte_no_sep)
    ultimately show ?thesis
      using assms(2) nonneg(4,5) by (simp add: numbers parse_identifier_def zeroVersion_def Atoi_int_string)
  qed
qed

text \<open>
  C40. The commit of a version is not ordered but makes versions different: a kernel release M.m.0-c, where c is the build number of the
  distribution, is neither at least nor at most M.m, and so does not get the TLS features that came with M.m, while
  the release M.m.p-c of a later patch level p does.
\<close>

theorem kernel_release_below_threshold:
  assumes "t \<in> set kernel_thresholds" and "c \<noteq> []" and "\<forall>x\<in>set c. x \<noteq> CHR ''.'' \<and> x \<noteq> CHR ''-''"
    and "\<not> HasPrefix c ''alpha''" and "\<not> HasPrefix c ''beta''" and "rest = [] \<or> hd rest = CHR ''-''" and "0 \<le> p" and "p < 2 ^ 63"
  defines "release \<equiv> \<lambda>p. int_string (fst t) @ ''.'' @ int_string (snd t) @ ''.'' @ int_string p @ ''-'' @ c @ rest"
  shows "(reached (Version_Parse (release p)) t \<longleftrightarrow> 0 < p)
    \<and> LessThan (Version_Parse (release 0)) (zeroVersion\<lparr>v_Major := fst t, v_Minor := snd t\<rparr>)
    \<and> LessThan (zeroVersion\<lparr>v_Major := fst t, v_Minor := snd t\<rparr>) (Version_Parse (release 0))"
proof -
  have t: "0 \<le> fst t" "fst t < 2 ^ 63" "0 \<le> snd t" "snd t < 2 ^ 63" using assms(1) by (auto simp: kernel_thresholds_def)
  have parse: "Version_Parse (release q) = zeroVersion\<lparr>v_Major := fst t, v_Minor := snd t, v_Patch := q, v_Commit := c\<rparr>"
    if q: "0 \<le> q" "q < 2 ^ 63" for q
  proof -
    let ?v = "zeroVersion\<lparr>v_Major := fst t, v_Minor := snd t, v_Patch := q\<rparr>"
    have "release q = VersionString ?v @ ''-'' @ c @ rest" by (simp add: release_def VersionString_def)
    moreover have "Version_Parse (VersionString ?v @ ''-'' @ c @ rest) = parse_numbers (VersionString ?v) (parse_identifier c zeroVersion)"
      by (rule parse_dashed) (use t q assms(3,6) in auto)
    ultimately show ?thesis
      using parse_numbers_printed [OF t q, of "parse_identifier c zeroVersion"] assms(3,4,5)
      by (auto simp: VersionString_def parse_identifier_def zeroVersion_def)
  qed
  have "reached (Version_Parse (release p)) t \<longleftrightarrow> 0 < p"
    using parse [OF assms(7,8)] assms(2,7) by (auto simp: reached_def GreaterThanOrEqual_def GreaterThan_def zeroVersion_def)
  moreover have "LessThan (Version_Parse (release 0)) (zeroVersion\<lparr>v_Major := fst t, v_Minor := snd t\<rparr>)"
    "LessThan (zeroVersion\<lparr>v_Major := fst t, v_Minor := snd t\<rparr>) (Version_Parse (release 0))"
    using parse [of 0] assms(2) by (auto simp: LessThan_def GreaterThanOrEqual_def GreaterThan_def zeroVersion_def)
  ultimately show ?thesis by blast
qed

section \<open>Corner cases and witnesses\<close>

text \<open>A release candidate without a dot, as \<open>BadString\<close> prints it, is parsed as a commit.\<close>

lemma rc_parsed_as_commit:
  "Version_Parse (BadString (zeroVersion\<lparr>v_Major := 1, v_Minor := 3, v_PreReleaseIdentifier := ''rc'', v_PreReleaseVersion := 1\<rparr>)) =
     zeroVersion\<lparr>v_Major := 1, v_Minor := 3, v_Commit := ''rc1''\<rparr>"
  by code_simp

theorem version_order_witness:
  "LessThan (Version_Parse ''1.3.0-alpha.7'') (Version_Parse ''v1.3-beta1'')"
proof -
  have parsed: "Version_Parse ''1.3.0-alpha.7'' = zeroVersion\<lparr>v_Major := 1, v_Minor := 3, v_PreReleaseIdentifier := ''alpha'', v_PreReleaseVersion := 7\<rparr>"
    "Version_Parse ''v1.3-beta1'' = zeroVersion\<lparr>v_Major := 1, v_Minor := 3, v_PreReleaseIdentifier := ''beta'', v_PreReleaseVersion := 1\<rparr>"
    by code_simp+
  then have "wf_version (Version_Parse ''1.3.0-alpha.7'')" "wf_version (Version_Parse ''v1.3-beta1'')"
    by (simp_all add: wf_version_def zeroVersion_def)
  from version_order [OF this] show ?thesis by (simp add: parsed version_key_def zeroVersion_def)
qed

theorem version_roundtrip_witness:
  "Version_Parse (Version_String (zeroVersion\<lparr>v_Major := 1, v_Minor := 12, v_PreReleaseIdentifier := ''rc'', v_PreReleaseVersion := 2\<rparr>)) =
     zeroVersion\<lparr>v_Major := 1, v_Minor := 12, v_PreReleaseIdentifier := ''rc'', v_PreReleaseVersion := 2\<rparr>"
  by (rule version_roundtrip) (simp_all add: small_numbers_def zeroVersion_def)

theorem kernel_release_below_threshold_witness:
  "\<not> reached (Version_Parse ''6.1.0-13-amd64'') (6, 1) \<and> reached (Version_Parse ''6.1.1-13-amd64'') (6, 1)"
proof -
  have numbers: "int_string 6 = ''6''" "int_string 1 = ''1''" "int_string 0 = ''0''" by code_simp+
  have t: "(6, 1) \<in> set kernel_thresholds" by (simp add: kernel_thresholds_def)
  show ?thesis
    using kernel_release_below_threshold [OF t, of "''13''" "''-amd64''" 0] kernel_release_below_threshold [OF t, of "''13''" "''-amd64''" 1]
    by (simp add: numbers HasPrefix_def)
qed

end
