(* ===== verification/Spec2Isabelle.thy ===== *)
theory Spec2Isabelle
  imports Samples Srs_Samples Group_Properties DNS_Properties Monitor_Properties Manager_Properties Cache_Properties Sniff_Properties Fragment_Properties Adguard_Properties Geosite_Properties Hosts_Properties Version_Properties
begin

text \<open>
  A verification library of the routing core of sing-box (this repository's fork of it): what decides,
  for a connection or a DNS query, which rule applies and what happens then, and the data those
  decisions are made from.

  The program. An inbound accepts a connection and describes it in an \<open>InboundContext\<close>
  (\<open>adapter/inbound.go\<close>). The router (\<open>route/route.go\<close>) completes this description, walks through the
  route rules (\<open>route/rule\<close>) and carries out their actions until one of them selects an outbound, a
  rejection or a DNS hijack. DNS queries go through DNS rules, which are asked twice, before and after the
  answer is known. Rules are built from the option structs of package \<open>option\<close>; they may refer to
  rule-sets, lists of headless rules that are loaded from files or downloaded, in JSON or in the binary
  format of \<open>common/srs\<close>.

  The theories, in the order of their imports:
  \<^item> \<open>Prelude\<close>: errors as values, slices with nil, loops with early exit over a mutable context,
    strings and decimal numbers. \<open>Netip\<close>: addresses and prefixes of \<open>net/netip\<close>. \<open>Binary_IO\<close>: readers
    and writers of \<open>io\<close> and \<open>encoding/binary\<close>, and the locale \<open>codec\<close>, the contract between a reader and
    a writer.
  \<^item> \<open>Inbound_Context\<close>: the metadata record with its rule cache, and the two parameters of the rule
    engine: \<open>lib\<close> (functions of other modules: domain matchers, IP sets, regular expressions) and \<open>env\<close>
    (what the network manager, the Clash server and the outbounds answer at run time).
  \<^item> \<open>Rule_Items\<close>: every item type of \<open>route/rule/rule_item_*.go\<close> with constructor and \<open>Match\<close>.
  \<^item> \<open>Rule_Abstract\<close>: \<open>abstractDefaultRule\<close> and \<open>abstractLogicalRule\<close> (\<open>rule_abstract.go\<close>), and the locales
    \<open>rule_item\<close> (an item only writes the rule cache) and \<open>pure_item\<close> (an item only reads), inside which
    the meaning of a default rule is derived once.
  \<^item> \<open>Rule_Builder\<close>: the shape all constructors of default rules share, and its invariant.
  \<^item> \<open>Rule_Options\<close>, \<open>Option_Rules\<close>: the option structs of \<open>option/rule*.go\<close>, their zero values and
    \<open>IsValid\<close>.
  \<^item> \<open>Headless_Rules\<close>, \<open>Rule_Sets\<close>, \<open>Rule_Set_Items\<close>: \<open>rule_headless.go\<close>, \<open>rule_set_local.go\<close>,
    \<open>rule_set_remote.go\<close>, \<open>rule_item_rule_set.go\<close>: building, loading, downloading, caching, reference
    counting and matching of rule-sets. \<open>pure_item\<close> is interpreted on the leaf items, \<open>rule_item\<close> on all.
  \<^item> \<open>Rule_Actions\<close>, \<open>Route_Rules\<close>, \<open>DNS_Rules\<close>: \<open>rule_action.go\<close>, \<open>rule_default.go\<close>, \<open>rule_dns.go\<close>.
  \<^item> \<open>Router\<close>: \<open>matchRule\<close>, the rule loop and the routing decision of \<open>route.go\<close>. \<open>Rule_Invariants\<close>:
    what starting rules does to rules and to the reference counts of rule-sets.
  \<^item> \<open>Srs\<close>, \<open>Srs_Semantics\<close>: the binary rule-set format byte by byte, its round trip, and that a compiled
    rule-set means what its source means.
  \<^item> \<open>Float64\<close>, \<open>Jump_Hash\<close>: the part of IEEE binary64 that the code uses, as exact rationals with the
    rounding written out, and the jump consistent hash of \<open>protocol/group/balancer/common.go\<close> on it.
  \<^item> \<open>Url_History\<close>, \<open>Url_Test\<close>, \<open>Selector\<close>: the storage of delays (\<open>common/urltest\<close>), the URL test group with
    its rounds of tests, and the selector with its cache file and the connections it interrupts
    (\<open>protocol/group\<close>, \<open>common/interrupt\<close>).
  \<^item> \<open>Balancer\<close>, \<open>Balancer_Contract\<close>: the four strategies of \<open>protocol/group/balancer\<close> and the group around
    them; the locale \<open>strategy\<close> is what the group relies on, interpreted for each of the strategies.
  \<^item> \<open>Group_Properties\<close>: the properties of the groups.
  \<^item> \<open>DNS_Message\<close>, \<open>DNS_Client\<close>: messages, fixed answers and the client subnet; the DNS client
    (\<open>dns/client.go\<close>) with its response cache, the store of rejected responses, exchange and lookup.
    \<open>DNS_Router\<close>: the DNS rule loop, \<open>Exchange\<close> and \<open>Lookup\<close> of \<open>dns/router.go\<close>. \<open>DNS_Properties\<close>: the
    properties of both.
  \<^item> \<open>Fake_IP\<close>, \<open>Fake_IP_Contract\<close>: the store of fake addresses (\<open>dns/transport/fakeip\<close>), the binary form of
    its metadata, and the locale \<open>fakeip_storage\<close>, what the store relies on in its storage.
    \<open>Cache_File\<close>, \<open>Cache_Contract\<close>: the cache file (\<open>experimental/cachefile\<close>) over a \<open>bbolt\<close> database, the
    values its operations change, and that it is such a storage. \<open>Cache_Properties\<close>: the properties of both.
  \<^item> \<open>Monitor\<close>, \<open>Monitor_Steps\<close>: the outbound monitor (\<open>common/monitoring\<close>): its tables, queues, requests,
    cycles and ticker, and its workers as a step relation over the queues, with what every run of the
    workers keeps. \<open>Monitor_Properties\<close>: the properties of stages and cycles.
  \<^item> \<open>Start_Order\<close>, \<open>Managers\<close>, \<open>Manager_Contract\<close>: the managers of inbounds, outbounds, endpoints, services
    (\<open>adapter/*/manager.go\<close>) and DNS transports (\<open>dns/transport_manager.go\<close>), the loop that starts objects in
    the order of their dependencies, and the locale \<open>directory\<close> (a manager is a map from tags to objects),
    interpreted for the five managers. \<open>Manager_Properties\<close>: their properties.
  \<^item> \<open>Adguard\<close>, \<open>Adguard_Properties\<close>: the conversion of AdGuard filter lists to headless rules and back
    (\<open>common/convertor/adguard\<close>).
  \<^item> \<open>Geosite\<close>, \<open>Geosite_Properties\<close>: the geosite database (\<open>common/geosite\<close>) and the commands on it. \<open>Hosts\<close>,
    \<open>Hosts_Properties\<close>: the hosts transport (\<open>dns/transport/hosts\<close>). \<open>Versions\<close>, \<open>Version_Properties\<close>: version numbers
    (\<open>common/badversion\<close>) and the kernel features of \<open>common/ktls\<close>.
  \<^item> \<open>Ja3\<close>, \<open>Ja3_Layout\<close>: the ClientHello parser and fingerprint of \<open>common/ja3\<close>, the layout of a ClientHello
    and that the parser reads it back. \<open>Sniff_Base\<close>, \<open>Quic_Sniff\<close>, \<open>Quic_Reassembly\<close>: the QUIC sniffer
    (\<open>common/sniff/quic.go\<close>, \<open>internal/qtls\<close>), its search loop, and the reassembly of a ClientHello.
    \<open>Sniffers\<close>, \<open>Sniff_Contract\<close>: the other sniffers of \<open>common/sniff\<close>, \<open>PeekStream\<close>, \<open>PeekPacket\<close> and the
    router's \<open>actionSniff\<close>, and the locale \<open>classifier\<close> (a sniffer that only sets the protocol).
    \<open>Sniff_Properties\<close>: their properties. A call that may not return is a value of \<open>run\<close>, the search loop of
    the QUIC sniffer a partial function.
  \<^item> \<open>Tls_Fragment\<close>, \<open>Fragment_Properties\<close>: \<open>common/tlsfragment\<close>: where the server name of a ClientHello is, and the
    first write that cuts it into segments or records, as the list of operations on the connection.
  \<^item> \<open>Samples\<close>, \<open>Srs_Samples\<close>: concrete instances of the parameters, with which the witnesses of the
    properties below are evaluated.

  How code is modelled. A struct is a record, an interface with a closed set of implementations a
  datatype, a pointer that may be nil an option. A method that changes its receiver takes and returns the
  record; shared rule-sets live in a store from tags to rule-sets. Errors are values of \<open>error\<close>, in which
  a Go panic is \<open>Panic\<close>; a function that may fail returns a \<open>result\<close>. Loops are structural recursions,
  or recursions with a termination proof. The only guards that the code does not have are in \<open>read_items\<close>
  and \<open>readRules\<close> (a reader of another module must not give back more input than it got); the lemma \<open>srs_progress\<close> shows
  that they never fire for readers that only consume. Code outside the repository is never defined here:
  it is a field of \<open>lib\<close>, \<open>env\<close>, \<open>codec_lib\<close>, \<open>blib\<close> (hashes and public suffixes for the balancer), \<open>dns_lib\<close>, \<open>dns_cache\<close> (the LRU cache), \<open>bolt\<close>
  (the database), \<open>sniff_lib\<close> (parsers and cryptography for the sniffers), \<open>adguard_lib\<close> (name and substring helpers), \<open>geosite_lib\<close>, \<open>hosts_lib\<close> or an argument, and what the
  properties need of it is a named hypothesis (such as \<open>codec_ok\<close>) that a witness discharges.

  What the properties show. C1, C2: what default, logical and headless rules and rule-sets
  mean. C3,
  C4: the router selects the first rule that holds, and only actions that can be carried out. C5: when the two phases of a DNS rule agree.
  C6 to C8: reload, download, cache and reference counts of rule-sets.
  C9: construction of rules.
  C10, C11: the binary format. C12 to C14:
  a started load balancer always selects a configured outbound for the network, round robin is fair, and the
  jump hash is stable. C15 to
  C17: the tolerance of the URL test group, its rounds of tests in every order of
  completion, and the selector across restarts.
  C18, C19: lifetimes in the DNS cache and the first DNS
  rule that applies. C20:
  the stages of a monitoring cycle account for every test. C21 and C22: the order in which
  outbounds start, and the manager as a map.
  C23 and C24: how long a fake address stays with its domain, and restarts. C25: the cache file as a table.
  C26 to C29: what a converted AdGuard list means, the way there and back,
  and the lists for which it fails. C30: the geosite file. C31, C32: the age of an
  answer from the hosts file, and the lines it comes from. C33 to C36: the ClientHello parser, the reassembly over QUIC packets,
  when the sniffer returns and when it never does. C37: sniffing keeps the data
  that was read. C38: fragmentation keeps the data. C39,
  C40: the order of versions, and the kernel releases that it misplaces.

  Interfaces. \<open>codec\<close> (a reader undoes a writer) is interpreted on the readers and writers of the binary
  format, \<open>rule_item\<close> and \<open>pure_item\<close> on the items, \<open>strategy\<close> on the strategies and on the group that
  dispatches to them, \<open>directory\<close> on the managers, \<open>fakeip_storage\<close> on the memory storage (and proved of the
  cache file for every database that behaves as documented). \<open>classifier\<close> is interpreted on seven sniffers. Time is an argument (nanoseconds); loops that
  wait for a ticker are given by one step per tick. The DNS client runs an exchange as one step; the outcome
  of a wait for another query with the same question is part of the query's context, and the two exchanges
  of a lookup run one after the other. The workers of the monitor interleave in every order.

  Not modelled, and why. Network I/O (protocol implementations under \<open>protocol\<close> and \<open>transport\<close>, dialers,
  listeners, TLS) is glue around libraries and sockets whose behaviour is outside the repository. The
  command line, the mobile bindings and the HTTP and gRPC control servers are front ends to the state
  modelled here. Logging and the \<open>String\<close> methods of items have no influence on decisions. Locks are not
  modelled: every operation is one step, and interleavings are sequences of operations.

  What would come next: the notifier and the broadcaster of the monitor, the connection tables of the Clash API and the
  resolution of the other DNS transports.
\<close>

section \<open>Matching rules\<close>

text \<open>
  C1. A headless rule, default or logical, asked with an empty rule cache answers exactly its
  declarative meaning (every \<open>items\<close> condition, and one member of every non-empty group; and, or and
  inversion for logical rules), and it changes nothing of the connection but the rule cache.
\<close>

theorem headless_rule_meaning:
  "fst (headless_Match L V r (ResetRuleCache c)) = headless_holds L V r (core c)
   \<and> core (snd (headless_Match L V r c)) = core c"
  by (simp add: headless_Match_holds headless_Match_frame)

text \<open>
  A default headless rule asked in the middle of another rule, with any rule cache: a group whose
  flag is already set counts as satisfied, the flags the rule found are added to the cache, and
  nothing else of the metadata changes.
\<close>

theorem default_rule_any_cache:
  "headless_Match L V (DefaultHeadless r) c =
     (rule_holds (leaf_Match L V) r c, if allItems r = [] then c else flags_after (leaf_Match L V) r c)"
  by (simp add: leaf.adr_Match_im)

text \<open>
  C2. A rule-set of default rules without inversion has no false negatives: whenever one of its rules
  holds for the connection and the flags it is asked with, the rule-set matches, whatever the rules
  before it leave in the cache.
\<close>

theorem rule_set_complete:
  assumes "list_all plain (rs_rules s)" and "r \<in> set (rs_rules s)" and "headless_holds L V r c"
  shows "fst (RuleSet_Match L V s c)"
  using RuleSet_Match_complete_aux [OF assms(1,2) more_flags_refl assms(3)] by (simp add: RuleSet_Match_def)

theorem rule_set_complete_witness:
  "fst (RuleSet_Match sample_lib sample_env (sample_set [domain_rule ''a'', domain_rule ''b'']) (conn ''b'' 443))"
  by (rule rule_set_complete [where r = "domain_rule ''b''"]) (simp_all add: plain_def sample_eval)

text \<open>
  A rule-set whose rules constrain the destination address only (the usual lists of domains and
  networks) matches exactly the connections one of its rules holds for.
\<close>

theorem rule_set_exact:
  assumes "list_all address_only (rs_rules s)"
  shows "fst (RuleSet_Match L V s c) \<longleftrightarrow> (\<exists>r\<in>set (rs_rules s). headless_holds L V r c)"
  unfolding RuleSet_Match_def by (rule RuleSet_Match_exact_aux [OF assms]) (simp add: same_but_did_def)

theorem rule_set_exact_witness:
  "fst (RuleSet_Match sample_lib sample_env (sample_set [domain_rule ''a'']) (conn ''b'' 443)) \<longleftrightarrow>
     (\<exists>r\<in>set (rs_rules (sample_set [domain_rule ''a''])). headless_holds sample_lib sample_env r (conn ''b'' 443))"
  by (rule rule_set_exact)
    (simp add: address_only_def wf_rule_def group_items_def sample_eval)

text \<open>
  Rule-sets with rules of several groups are not exact: the flags a failing rule found stay in the
  cache and satisfy groups of the next rule. The two rules ask for host a with port 1 and for host b
  with port 2; the rule-set matches a connection to host a, port 2, which neither rule holds for.
\<close>

theorem rule_set_flags_leak:
  "let s = sample_set [domain_port_rule ''a'' 1, domain_port_rule ''b'' 2]; c = conn ''a'' 2 in
   fst (RuleSet_Match sample_lib sample_env s c)
   \<and> \<not> (\<exists>r\<in>set (rs_rules s). headless_holds sample_lib sample_env r c)"
  by (simp add: RuleSet_Match_def Let_def leaf.adr_Match_im sample_eval)

section \<open>The router\<close>



text \<open>
  C4. Outside of pre-matching, with rules built by \<open>NewRule\<close>, a rule that \<open>matchRule\<close> selects is the
  rule of the list at the reported index, and its action is one \<open>routeConnection\<close> can act on: a route, a
  bypass that names an outbound, a reject or a DNS hijack. So no connection goes on with a nil outbound.
\<close>

theorem matchRule_selects_routable:
  assumes "matchRule R False False c = (Selected r j, st)"
    and "\<forall>q\<in>set (rt_rules R). \<exists>cx chk o'. NewRule cx chk o' = Inr q"
  shows "j < length (rt_rules R) \<and> rt_rules R ! j = r \<and> routable (tree_Action r)"
proof -
  have kind: "\<forall>q\<in>set (rt_rules R). route_kind (tree_Action q)" using assms(2) NewRule_kind by blast
  obtain st0 where "match_loop R False False 0 (rt_rules R) st0 = (Selected r j, st)"
    using assms(1) by (auto simp: matchRule_def Let_def split: sum.splits prod.splits option.splits)
  from match_loop_selected [OF this kind] show ?thesis by simp
qed

theorem matchRule_selects_routable_witness:
  "\<exists>st. matchRule (sample_router [sample_built_rule]) False False (conn ''b'' 443) = (Selected sample_built_rule 0, st)
     \<and> (0 < length (rt_rules (sample_router [sample_built_rule]))
        \<and> rt_rules (sample_router [sample_built_rule]) ! 0 = sample_built_rule
        \<and> routable (tree_Action sample_built_rule))"
proof -
  let ?R = "sample_router [sample_built_rule]"
  obtain st where m: "matchRule ?R False False (conn ''b'' 443) = (Selected sample_built_rule 0, st)"
    by (simp add: matchRule_def find_process_def map_fakeip_def
      set_ip_version_def inbound_options_def zeroInboundOptions_def run_action_def route_options_of_def action_Type_def
      ResetRuleCache_def adr_Match_def match_groups_def sample_built_rule_def
      match_group_def any_item_Match_def leaf_im_def Let_def sample_eval)
  have "\<forall>q\<in>set (rt_rules ?R). \<exists>cx chk o'. NewRule cx chk o' = Inr q"
    using sample_NewRule by (auto simp: sample_router_def)
  from matchRule_selects_routable [OF m this] m show ?thesis by blast
qed

text \<open>
  A connection that \<open>routeConnection\<close> hands over goes to an outbound that supports TCP: the one the
  rule names, or the default outbound.
\<close>

theorem routeConnection_supported:
  assumes "routeConnection R now c = Routed tag st"
  shows "(\<exists>networks. (Outbound R tag = Some networks \<or> DefaultOutbound R = (tag, networks)) \<and> NetworkTCP \<in> set networks)"
  using assms
  by (auto simp: routeConnection_def inject_def finish_route_def use_outbound_def use_default_def Let_def
      split: if_splits option.splits prod.splits match_outcome.splits rule_action.splits)

theorem routeConnection_supported_witness:
  "\<exists>networks. (Outbound (sample_router [host_rule ''b'' (route_to ''proxy'')]) ''proxy'' = Some networks
      \<or> DefaultOutbound (sample_router [host_rule ''b'' (route_to ''proxy'')]) = (''proxy'', networks)) \<and> NetworkTCP \<in> set networks"
  by (rule routeConnection_supported
        [of _ 0 "conn ''b'' 443" _ "snd (matchRule (sample_router [host_rule ''b'' (route_to ''proxy'')]) False False
            ((conn ''b'' 443)\<lparr>md_Network := NetworkTCP\<rparr>))"])
    (simp add: routeConnection_def finish_route_def use_outbound_def matchRule_def find_process_def map_fakeip_def
      set_ip_version_def inbound_options_def zeroInboundOptions_def run_action_def route_options_of_def action_Type_def
      apply_route_options_def ResetRuleCache_def adr_Match_def match_groups_def
      match_group_def any_item_Match_def leaf_im_def Let_def sample_eval)

section \<open>DNS rules\<close>

text \<open>
  C5. The second check of a DNS rule is needed only \<open>WithAddressLimit\<close>: for a rule built by \<open>NewDNSRule\<close>,
  started, and not matching rule-sets against the source address, when \<open>WithAddressLimit\<close> is false and
  the metadata of the rule-sets is right, \<open>Match\<close> (which ignores IP-CIDR conditions) and
  \<open>MatchAddressLimit\<close> give the same answer and the same metadata.
\<close>

theorem dns_two_phases:
  assumes "NewDNSRule cx chk o' = Inr r0" and "tree_not_match_source r0"
    and "tree_Start V r0 G0 = Inr (r, G)" and "store_ok G" and "\<not> WithAddressLimit G r"
    and "\<not> md_IgnoreDestinationIPCIDRMatch c"
  shows "dns_Match L V G r c = MatchAddressLimit L V G r c"
proof (rule dns_Match_MatchAddressLimit [OF assms(4) _ _ assms(5,6)])
  show "tree_wf r" using tree_Start_wf(1) NewDNSRule_tree_wf [OF assms(1)] assms(3) by blast
  show "tree_not_match_source r" using tree_Start_wf(1) assms(2,3) by blast
qed

theorem dns_two_phases_witness:
  "dns_Match sample_lib sample_env (sample_store(''s'' \<mapsto> IncRef (sample_set [domain_rule ''a''])))
      (sample_dns_rule [''s'']) (conn ''a'' 53)
   = MatchAddressLimit sample_lib sample_env (sample_store(''s'' \<mapsto> IncRef (sample_set [domain_rule ''a''])))
      (sample_dns_rule [''s'']) (conn ''a'' 53)"
  by (rule dns_two_phases [OF sample_NewDNSRule _ sample_dns_Start])
    (auto simp: default_dns_defs sample_dns_rule_def not_match_source_def store_ok_def metadata_ok_def ContainsDestinationIPCIDRRule_def
      isRuleSet_def IncRef_def sample_store_def sample_eval split: if_splits)

text \<open>
  With \<open>rule_set_ip_cidr_match_source\<close> the two phases differ although \<open>WithAddressLimit\<close> is false: a
  rule-set with an IP-CIDR rule, matched against the source, is satisfied in the first phase by every
  query, because the condition is switched off, and no second check corrects it.
\<close>

theorem dns_match_source_ignored:
  "let s = (sample_set [DefaultHeadless (put_item DestinationIPCIDR (IPCIDRItem [Inr (Addr4 1)] False []) (empty_rule False None))])
             \<lparr>rs_metadata := \<lparr>ContainsProcessRule = False, ContainsWIFIRule = False, ContainsIPCIDRRule = True\<rparr>\<rparr>;
       G = [''s'' \<mapsto> s];
       r = DefaultR (put_item Items (RuleSetItem [''s''] [''s''] True False) (empty_rule False (Some RuleActionHijackDNS)));
       c = (conn ''a'' 53)\<lparr>md_Source := \<lparr>sa_Addr = Addr4 2, sa_Port = 0, sa_Fqdn = []\<rparr>\<rparr>
   in \<not> WithAddressLimit G r \<and> fst (dns_Match sample_lib sample_env G r c)
      \<and> \<not> fst (MatchAddressLimit sample_lib sample_env G r c)"
  by (simp add: Let_def default_dns_defs ContainsDestinationIPCIDRRule_def isRuleSet_def adr_Match_def match_groups_def match_group_def
      any_item_Match_def RuleSetItem_Match_def RuleSet_Match_def leaf_im_def IPCIDR_Match_def sample_eval)

section \<open>Rule-sets\<close>

text \<open>
  C6. After a successful reload the metadata says whether the rules have IP-CIDR conditions, which is
  also whether IP sets can be extracted from them, and exactly the registered callbacks are called, in
  the order of their registration.
\<close>

theorem reload_metadata:
  assumes "reloadRules L nm opts s = Inr (s', cbs)" and "list_all typed opts"
  shows "(ContainsIPCIDRRule (rs_metadata s') \<longleftrightarrow> list_ex has_ipcidr (rs_rules s'))
    \<and> (RuleSet_ExtractIPSet s' \<noteq> [] \<longleftrightarrow> list_ex has_ipcidr (rs_rules s'))
    \<and> cbs = map snd (rs_callbacks s)"
  using assms metadata_ipcidr by (fastforce simp: reloadRules_Inr RuleSet_ExtractIPSet_def)

theorem reload_metadata_witness:
  "\<exists>s' cbs. reloadRules sample_lib False [domain_options, ip_options] (sample_set []) = Inr (s', cbs)
     \<and> ((ContainsIPCIDRRule (rs_metadata s') \<longleftrightarrow> list_ex has_ipcidr (rs_rules s'))
        \<and> (RuleSet_ExtractIPSet s' \<noteq> [] \<longleftrightarrow> list_ex has_ipcidr (rs_rules s'))
        \<and> cbs = map snd (rs_callbacks (sample_set [])))"
proof -
  obtain s' cbs where r: "reloadRules sample_lib False [domain_options, ip_options] (sample_set []) = Inr (s', cbs)"
    by (simp add: reloadRules_def domain_options_build ip_options_build)
  have "list_all typed [domain_options, ip_options]" by (simp add: domain_options_def ip_options_def)
  from reload_metadata [OF r this] r show ?thesis by blast
qed



text \<open>
  A failed update keeps everything: when \<open>fetch\<close> returns an error, the rule-set (rules, metadata,
  entity tag, update time) and the cache file are unchanged and no callback is called; and an update never
  changes the reference counter, the registered callbacks or the options.
\<close>

theorem remote_fetch_failure:
  assumes "fetch L nm D http now ok cf s = (e, s', cf', cbs)"
  shows "(e \<noteq> None \<longrightarrow> s' = s \<and> cf' = cf \<and> cbs = [])
    \<and> rs_refs s' = rs_refs s \<and> rs_callbacks s' = rs_callbacks s \<and> rr_options s' = rr_options s"
  using fetch_frame [OF assms] by blast

theorem remote_fetch_failure_witness:
  "\<exists>s' cf' cbs. fetch sample_lib False sample_decoders (\<lambda>_ _. HttpError (E_Lib ''timeout'')) 5 True None sample_remote
       = (Some (E_Lib ''timeout''), s', cf', cbs)
     \<and> s' = sample_remote \<and> cf' = None \<and> cbs = [] \<and> rs_refs s' = rs_refs sample_remote"
proof -
  have f: "fetch sample_lib False sample_decoders (\<lambda>_ _. HttpError (E_Lib ''timeout'')) 5 True None sample_remote
      = (Some (E_Lib ''timeout''), sample_remote, None, [])"
    by (simp add: fetch_def)
  from remote_fetch_failure [OF f] f show ?thesis by simp
qed

text \<open>
  C8. Reference counting: starting the rules of a router resolves every tag they mention, adds one
  reference per mention and keeps the rules; so when no counter was negative, \<open>Cleanup\<close> keeps the rules
  of every rule-set a started rule mentions.
\<close>

theorem started_rules_survive_cleanup:
  assumes "trees_Start V rs G = Inr (rs', G')" and "tag \<in> set (concat (map tree_tags rs))"
    and "\<forall>t s. G t = Some s \<longrightarrow> 0 \<le> rs_refs s"
  shows "\<exists>s s'. G tag = Some s \<and> G' tag = Some s' \<and> rs_rules (Cleanup s') = rs_rules s
    \<and> rs_refs s' = rs_refs s + int (count_list (concat (map tree_tags rs)) tag)"
proof -
  let ?tags = "concat (map tree_tags rs)"
  from tree_Start_counted(2) assms(1) have c: "counted ?tags G G'" by blast
  with assms(2) obtain s where s: "G tag = Some s" by (auto simp: counted_def)
  have "map_option rs_refs (G' tag) = Some (rs_refs s + int (count_list ?tags tag))"
    "map_option rs_rules (G' tag) = Some (rs_rules s)"
    using c s by (simp_all add: counted_def)
  then obtain s' where s': "G' tag = Some s'" "rs_refs s' = rs_refs s + int (count_list ?tags tag)" "rs_rules s' = rs_rules s"
    by auto
  have "count_list ?tags tag > 0" using assms(2) by (metis count_list_0_iff neq0_conv)
  moreover have "0 \<le> rs_refs s" using assms(3) s by blast
  ultimately have "rs_refs s' \<noteq> 0" using s'(2) by linarith
  then show ?thesis using s s' by (simp add: Cleanup_def)
qed

theorem started_rules_survive_cleanup_witness:
  "\<exists>s s'. sample_store ''s'' = Some s \<and> (sample_store(''s'' \<mapsto> IncRef (sample_set [domain_rule ''a'']))) ''s'' = Some s'
    \<and> rs_rules (Cleanup s') = rs_rules s
    \<and> rs_refs s' = rs_refs s + int (count_list (concat (map tree_tags [sample_dns_rule []])) ''s'')"
proof -
  have start: "trees_Start sample_env [sample_dns_rule []] sample_store =
      Inr ([sample_dns_rule [''s'']], sample_store(''s'' \<mapsto> IncRef (sample_set [domain_rule ''a''])))"
    by (simp add: sample_dns_Start)
  have tag: "''s'' \<in> set (concat (map tree_tags [sample_dns_rule []]))"
    by (simp add: sample_dns_rule_def put_item_def empty_rule_def tags_of_def)
  have "\<forall>t s. sample_store t = Some s \<longrightarrow> 0 \<le> rs_refs s"
    by (auto simp: sample_store_def sample_set_def split: if_splits)
  from started_rules_survive_cleanup [OF start tag this] show ?thesis .
qed

section \<open>Construction and actions\<close>



text \<open>
  A headless rule with \<open>query_type\<close> as its only condition passes the validity check, but the
  constructor builds no item for it, so the rule matches every connection.
\<close>

theorem headless_query_type_ignored:
  "NewHeadlessRule L nm (HeadlessRule RuleTypeDefault (zeroDefaultHeadlessRule\<lparr>hr_QueryType := Some [28]\<rparr>) [] [] False)
     = Inr (DefaultHeadless (empty_rule False None))
   \<and> headless_Match L V (DefaultHeadless (empty_rule False None)) c = (True, c)"
  by (simp add: headless_eval adr_Match_def empty_rule_def)

text \<open>
  A port range "a:b" is understood: for any two ports the constructor accepts the printed range,
  and the item matches exactly the destination ports from a to b.
\<close>

theorem port_range_roundtrip:
  "\<exists>rs. NewPortRangeItem False [Itoa (unat a) @ '':'' @ Itoa (unat b)] = Inr (PortRangeItem False [Itoa (unat a) @ '':'' @ Itoa (unat b)] rs)
    \<and> (\<forall>c. leaf_Match L V (PortRangeItem False [Itoa (unat a) @ '':'' @ Itoa (unat b)] rs) c
          \<longleftrightarrow> a \<le> sa_Port (md_Destination c) \<and> sa_Port (md_Destination c) \<le> b)"
  for a b :: "16 word"
  using parse_port_range_Itoa [of a b]
  by (intro exI [of _ "[\<lparr>ri_start = a, ri_end = b\<rparr>]"]) (simp add: NewPortRangeItem_def PortRangeItem_Match_def Let_def)

text \<open>
  Flood control of \<open>reject\<close>: with a clock that does not run backwards, the call at time \<open>now\<close> is
  answered with a reset unless at least 50 of the earlier calls happened in the last 30 seconds, in which case
  the connection is dropped; and the counter then holds exactly the calls of the last 30 seconds.
\<close>

theorem reject_flood_control:
  assumes "sorted (ts @ [now])"
  shows "RejectError RuleActionRejectMethodDefault False now (reject_run ts []) =
    Inr (Some (if length (recent now ts) \<ge> 50 then ErrDrop else ErrReset), recent now ts @ [now])"
  using reject_run_recent [OF assms] by (simp add: RejectError_def Let_def recent_def)

theorem reject_flood_control_witness:
  "RejectError RuleActionRejectMethodDefault False 3 (reject_run [1, 2] []) =
    Inr (Some (if length (recent 3 [1, 2]) \<ge> 50 then ErrDrop else ErrReset), recent 3 [1, 2] @ [3])"
  by (rule reject_flood_control) simp

text \<open>
  The sniff action is built exactly when every sniffer name is known, and then its stream and packet
  sniffers are those of the names, in order.
\<close>

theorem sniff_build_spec:
  "RuleActionSniff_build r =
     (case find (\<lambda>n. sniffers_of n = None) (SnifferNames r) of
        Some n \<Rightarrow> Inl (E_New [S ''unknown sniffer: '', S n])
      | None \<Rightarrow> Inr (r\<lparr>StreamSniffers := StreamSniffers r @ concat (map (\<lambda>n. fst (the (sniffers_of n))) (SnifferNames r)),
                      PacketSniffers := PacketSniffers r @ concat (map (\<lambda>n. snd (the (sniffers_of n))) (SnifferNames r))\<rparr>))"
  by (simp add: RuleActionSniff_build_def build_sniffers_spec)

text \<open>
  A predefined answer mirrors the request's id and question, and its records are the configured ones
  in order: a record whose name is a wildcard that covers the question takes the question's name, any other
  record is unchanged.
\<close>

theorem predefined_response:
  assumes "msg_Question request = (name, q) # qs"
  shows "\<exists>m. Predefined_Response r request = Inr m \<and> msg_Id m = msg_Id request \<and> msg_Question m = msg_Question request
    \<and> msg_Rcode m = pr_Rcode r \<and> msg_Response m
    \<and> list_all2 (\<lambda>it it'. rr_rest it' = rr_rest it
        \<and> rr_Name it' = (if \<exists>suf. rr_Name it = CHR ''*'' # suf \<and> suffix suf name then name else rr_Name it))
        (pr_Answer r) (msg_Answer m)"
  using assms by (auto simp: Predefined_Response_def intro: rewriteRecords_spec)

theorem predefined_response_witness:
  "\<exists>m. Predefined_Response \<lparr>pr_Rcode = 0, pr_Answer = [\<lparr>rr_Name = ''*.a.'', rr_rest = ()\<rparr>], pr_Ns = [], pr_Extra = []\<rparr>
      \<lparr>msg_Id = 7, msg_Response = False, msg_Authoritative = False, msg_RecursionDesired = True, msg_RecursionAvailable = False,
       msg_Rcode = 0, msg_Question = [(''b.a.'', ())], msg_Answer = [], msg_Ns = [], msg_Extra = []\<rparr> = Inr m
    \<and> msg_Id m = 7 \<and> msg_Question m = [(''b.a.'', ())] \<and> msg_Rcode m = 0 \<and> msg_Response m
    \<and> list_all2 (\<lambda>it it'. rr_rest it' = rr_rest it
        \<and> rr_Name it' = (if \<exists>suf. rr_Name it = CHR ''*'' # suf \<and> suffix suf ''b.a.'' then ''b.a.'' else rr_Name it))
        [\<lparr>rr_Name = ''*.a.'', rr_rest = ()\<rparr>] (msg_Answer m)"
  using predefined_response [where name = "''b.a.''" and q = "()" and qs = "[]" and
      request = "\<lparr>msg_Id = 7, msg_Response = False, msg_Authoritative = False, msg_RecursionDesired = True, msg_RecursionAvailable = False,
       msg_Rcode = 0, msg_Question = [(''b.a.'', ())], msg_Answer = [], msg_Ns = [], msg_Extra = []\<rparr>" and
      r = "\<lparr>pr_Rcode = 0, pr_Answer = [\<lparr>rr_Name = ''*.a.'', rr_rest = ()\<rparr>], pr_Ns = [], pr_Extra = []\<rparr>"]
  by simp

section \<open>The binary rule-set format\<close>

text \<open>
  C10. A written rule-set is read back: when the formats of the other modules give back what was written,
  \<open>Read\<close> of the output of \<open>Write\<close> succeeds with the same version and with the image of every rule, nested
  logical rules included, with or without \<open>recover\<close>.
\<close>

theorem srs_roundtrip:
  assumes "codec_ok K" and "list_all (rule_ok L K) rs" and "length rs \<le> max_rules K"
    and "v \<le> RuleSetVersionCurrent" and "Write L K rs v = Inr bs"
  shows "Read K recov bs = Inr \<lparr>rsc_Version = v, rsc_Rules = map (compile_rule L K recov v) rs\<rparr>"
  using assms by (rule Read_Write)

theorem srs_roundtrip_witness:
  "\<exists>bs. Write srs_lib srs_codec srs_rules 2 = Inr bs
     \<and> Read srs_codec True bs = Inr \<lparr>rsc_Version = 2, rsc_Rules = map (compile_rule srs_lib srs_codec True 2) srs_rules\<rparr>"
proof -
  obtain bs where w: "Write srs_lib srs_codec srs_rules 2 = Inr bs" using srs_write by blast
  have "length srs_rules \<le> max_rules srs_codec" and "2 \<le> RuleSetVersionCurrent"
    by (simp_all add: srs_rules_def srs_codec_def ruleset_versions)
  from srs_roundtrip [OF srs_codec_ok srs_rules_ok this w, of True] w show ?thesis by blast
qed

text \<open>
  C11. Compiling keeps the meaning: a rule-set compiled to format version 2 or later and read back loads
  into a rule-set that matches exactly what the source rule-set matches, in every environment and for every
  connection, and leaves the same rule cache. The source rules are as decoded from JSON, use no tunnel
  condition, and still have a condition after empty lists are dropped.
\<close>

theorem srs_same_meaning:
  assumes "codec_ok K" and "prefixable_ok L" and "list_all (rule_ok L K) opts" and "length opts \<le> max_rules K"
    and "v \<le> RuleSetVersionCurrent" and "v \<noteq> RuleSetVersion1" and "list_all source_rule opts"
    and "\<forall>o'\<in>set opts. HeadlessRule_IsValid (compile_rule L K False v o') = Inr True"
    and "Write L K opts v = Inr bs" and "reloadRules L nm opts s = Inr (s1, cbs)"
  shows "\<exists>cs s2. Read K False bs = Inr cs \<and> reloadRules L nm (rsc_Rules cs) s = Inr (s2, cbs)
    \<and> (\<forall>V c. RuleSet_Match L V s2 c = RuleSet_Match L V s1 c)"
  using Read_Write [OF assms(1,3,4,5,9), of False] same_reload [OF assms(6,2,7,8,10)] by auto

theorem srs_same_meaning_witness:
  "\<exists>bs cs s1 s2. Write srs_lib srs_codec srs_rules 2 = Inr bs \<and> Read srs_codec False bs = Inr cs
     \<and> reloadRules srs_lib False srs_rules srs_set = Inr (s1, [])
     \<and> reloadRules srs_lib False (rsc_Rules cs) srs_set = Inr (s2, [])
     \<and> RuleSet_Match srs_lib sample_env s2 (conn ''a'' 443) = RuleSet_Match srs_lib sample_env s1 (conn ''a'' 443)"
proof -
  obtain bs where w: "Write srs_lib srs_codec srs_rules 2 = Inr bs" using srs_write by blast
  obtain s1 where s1: "reloadRules srs_lib False srs_rules srs_set = Inr (s1, [])" using srs_reload by blast
  have "length srs_rules \<le> max_rules srs_codec" and "2 \<le> RuleSetVersionCurrent" and "2 \<noteq> RuleSetVersion1"
    by (simp_all add: srs_rules_def srs_codec_def ruleset_versions)
  from srs_same_meaning [OF srs_codec_ok srs_prefixable srs_rules_ok this srs_source srs_valid w s1]
  show ?thesis using w s1 by blast
qed

text \<open>
  The decoding loops make progress: with readers that only consume input, one turn of the item loop and one
  turn of the rule loop are exactly what the code does, the progress guard of the model never fires, and a rule
  that is read has consumed at least one byte, so decoding any input ends.
\<close>

theorem srs_progress:
  assumes "codec_shrinks K"
  shows "(t \<noteq> ruleItemFinal \<longrightarrow> read_items K recov lst r (t # bs) =
      bind_result (read_item K recov lst t r bs) (\<lambda>(r', rest). read_items K recov t r' rest))
    \<and> readRules K recov what i (Suc n) bs =
      (case readRule K recov bs of
         Inl err \<Rightarrow> Inl (read_rule_error what i err)
       | Inr (rule, bs1) \<Rightarrow> read_into (readRules K recov what (Suc i) n) (\<lambda>rules. rule # rules) bs1)
    \<and> (\<forall>x rest. readRule K recov bs = Inr (x, rest) \<longrightarrow> length rest < length bs)"
  using read_items_step [OF assms, of t recov lst r bs] readRules_step [OF assms, of recov what i n bs]
    readers_consume(1) [OF assms, of recov bs] by (simp only: simp_thms) blast

theorem srs_progress_witness:
  "readRules srs_codec False ''read rule['' 0 (Suc 0) [0, 0xFF, 1] =
     (case readRule srs_codec False [0, 0xFF, 1] of
        Inl err \<Rightarrow> Inl (read_rule_error ''read rule['' 0 err)
      | Inr (rule, bs1) \<Rightarrow> read_into (readRules srs_codec False ''read rule['' (Suc 0) 0) (\<lambda>rules. rule # rules) bs1)"
  using srs_progress [OF srs_codec_shrinks, where what = "''read rule[''" and i = 0 and n = 0 and recov = False and bs = "[0, 0xFF, 1]"]
  by blast

text \<open>
  The rule count of a file is not checked before memory is allocated for it: a file of a valid version
  that announces the largest 64-bit count panics instead of returning an error.
\<close>

theorem srs_count_panics:
  assumes "codec_ok K" and "v \<le> RuleSetVersionCurrent"
  shows "Read K recov (MagicBytes @ [v] @ zlib_Writer K (vb_WriteUvarint K (- 1) @ rest)) =
    Inl (Panic [S ''makeslice: len out of range''])"
proof -
  have "max_rules K < unat (- 1 :: 64 word)" using codec_okD(14) [OF assms(1)]
    by (simp add: unsigned_minus_1_eq_mask mask_eq_exp_minus_1)
  then show ?thesis using assms(2)
    by (simp add: Read_def ReadFull_def MagicBytes_def codec_okD(13) [OF assms(1)] codec_okD(1) [OF assms(1)])
qed

theorem srs_count_panics_witness:
  "Read srs_codec False (MagicBytes @ [4] @ zlib_Writer srs_codec (vb_WriteUvarint srs_codec (- 1) @ [])) =
    Inl (Panic [S ''makeslice: len out of range''])"
  by (rule srs_count_panics [OF srs_codec_ok]) (simp add: ruleset_versions)

text \<open>
  The two tunnel conditions of a headless rule are lost in the binary format: what is written does not
  depend on them, although the loader of source rule-sets builds items for them.
\<close>

theorem srs_tunnel_lost:
  "writeDefaultRule L K (d\<lparr>hr_TunnelSource := src, hr_TunnelDestination := dst\<rparr>) v = writeDefaultRule L K d v"
  by (simp add: writeDefaultRule_def write_address_items_def write_process_items_def)

text \<open>
  Items are written only in format versions that know them: a default rule that \<open>writeDefaultRule\<close>
  accepts for version \<open>v\<close> uses AdGuard lines only from version 2, the network conditions only from version 3
  and the interface address conditions only from version 4.
\<close>

theorem srs_version_gate:
  assumes "writeDefaultRule L K d v = Inr bs"
  shows "(nonempty (hr_AdGuardDomain d) \<longrightarrow> RuleSetVersion2 \<le> v)
    \<and> (nonempty (hr_NetworkType d) \<or> hr_NetworkIsExpensive d \<or> hr_NetworkIsConstrained d \<longrightarrow> RuleSetVersion3 \<le> v)
    \<and> (nonempty (hr_NetworkInterfaceAddress d) \<or> nonempty (hr_DefaultInterfaceAddress d) \<longrightarrow> RuleSetVersion4 \<le> v)"
proof -
  have w: "list_all (\<lambda>w. \<exists>b. w = Inr b) (write_process_items L K d v)"
    using assms write_all_Inr_member by (fastforce simp: writeDefaultRule_def bind_result_Inr_iff list_all_iff)
  have since_ok: "(\<exists>b. opt_write c (since v n what x) = Inr b) \<Longrightarrow> c \<longrightarrow> n \<le> v" for c n what x
    by (auto simp: opt_write_def since_def split: if_splits)
  note w [unfolded write_process_items_def list.pred_inject]
  then show ?thesis by (elim conjE) (drule since_ok | assumption | blast)+
qed

theorem srs_version_gate_witness:
  "\<exists>bs. writeDefaultRule srs_lib srs_codec srs_options 2 = Inr bs \<and> RuleSetVersion2 \<le> 2"
  using srs_write_items srs_version_gate [of srs_lib srs_codec srs_options 2] by (auto simp: ruleset_versions)

end
